(* ===== verification/PyBase.thy ===== *)
theory PyBase
  imports Main "HOL-Library.AList" "HOL-Library.Char_ord" "HOL-Library.List_Lexorder"
begin

text \<open>
  Prelude of the development: the part of the Python language and of its standard library that
  \<^verbatim>\<open>survol/scripts/dockit.py\<close> uses, as executable functions, with the generic lemmas the
  components share.

  A Python 2 \<open>str\<close> is a sequence of bytes, so it is a \<^typ>\<open>string\<close> here (Isabelle characters are
  bytes). Indices are \<^typ>\<open>int\<close> where the source lets them be negative: \<open>find\<close> returns \<open>-1\<close>, a
  slice bound or a subscript below zero counts from the end. A \<open>dict\<close> is an association list in
  insertion order, without duplicate keys, read by \<^const>\<open>map_of\<close> and written by
  \<^const>\<open>AList.update\<close>.

  A Python computation with side effects is a function from the state to a result and the new
  state. The result is an exception or a value. An exception does not undo the state changes made
  before it is raised, and \<open>try\<close>/\<open>except\<close> goes on from them.
\<close>

subsection \<open>Exceptions, and computations with state and exceptions\<close>

datatype pyexc =
    ValueError
  | KeyError
  | IndexError
  | AttributeError
  | TypeError
  | NameError
  | AssertionError
  | SystemExit
  | ExceptionIsExit
  | ExceptionIsSignal
  | PyException string

text \<open>What Python raises when a recursion is deeper than its limit.\<close>

definition too_deep :: pyexc where
  "too_deep = PyException ''maximum recursion depth exceeded''"

type_synonym 'a pyres = "pyexc + 'a"
type_synonym ('s, 'a) py = "'s \<Rightarrow> 'a pyres \<times> 's"

definition ret :: "'a \<Rightarrow> ('s, 'a) py" where
  "ret a = (\<lambda>s. (Inr a, s))"

definition raise :: "pyexc \<Rightarrow> ('s, 'a) py" where
  "raise e = (\<lambda>s. (Inl e, s))"

definition bnd :: "('s, 'a) py \<Rightarrow> ('a \<Rightarrow> ('s, 'b) py) \<Rightarrow> ('s, 'b) py" where
  "bnd m f = (\<lambda>s. case m s of (Inl e, s') \<Rightarrow> (Inl e, s') | (Inr a, s') \<Rightarrow> f a s')"

definition andthen :: "('s, 'a) py \<Rightarrow> ('s, 'b) py \<Rightarrow> ('s, 'b) py" where
  "andthen m n = bnd m (\<lambda>_. n)"

definition gets :: "('s \<Rightarrow> 'a) \<Rightarrow> ('s, 'a) py" where
  "gets f = (\<lambda>s. (Inr (f s), s))"

definition modify :: "('s \<Rightarrow> 's) \<Rightarrow> ('s, unit) py" where
  "modify f = (\<lambda>s. (Inr (), f s))"

definition of_res :: "'a pyres \<Rightarrow> ('s, 'a) py" where
  "of_res r = (\<lambda>s. (r, s))"

definition of_opt :: "pyexc \<Rightarrow> 'a option \<Rightarrow> ('s, 'a) py" where
  "of_opt e r = (\<lambda>s. (case r of None \<Rightarrow> Inl e | Some a \<Rightarrow> Inr a, s))"

text \<open>\<open>try: m\<close>, \<open>except: h\<close>.\<close>

definition try_except :: "('s, 'a) py \<Rightarrow> (pyexc \<Rightarrow> ('s, 'a) py) \<Rightarrow> ('s, 'a) py" where
  "try_except m h = (\<lambda>s. case m s of (Inl e, s') \<Rightarrow> h e s' | (Inr a, s') \<Rightarrow> (Inr a, s'))"

fun for_each :: "'a list \<Rightarrow> ('a \<Rightarrow> ('s, 'b) py) \<Rightarrow> ('s, 'b list) py" where
  "for_each [] f = ret []"
| "for_each (x # xs) f = bnd (f x) (\<lambda>y. bnd (for_each xs f) (\<lambda>ys. ret (y # ys)))"

lemma ret_run [simp]: "ret a s = (Inr a, s)"
  by (simp add: ret_def)

lemma raise_run [simp]: "raise e s = (Inl e, s)"
  by (simp add: raise_def)

lemma gets_run [simp]: "gets f s = (Inr (f s), s)"
  by (simp add: gets_def)

lemma modify_run [simp]: "modify f s = (Inr (), f s)"
  by (simp add: modify_def)

lemma of_res_run [simp]: "of_res r s = (r, s)"
  by (simp add: of_res_def)

lemma of_opt_run [simp]:
  "of_opt e None s = (Inl e, s)" "of_opt e (Some a) s = (Inr a, s)"
  by (simp_all add: of_opt_def)

lemma bnd_run: "bnd m f s = (case m s of (Inl e, s') \<Rightarrow> (Inl e, s') | (Inr a, s') \<Rightarrow> f a s')"
  by (simp add: bnd_def)

lemma bnd_Inr [simp]: "m s = (Inr a, s') \<Longrightarrow> bnd m f s = f a s'"
  by (simp add: bnd_def)

lemma bnd_Inl [simp]: "m s = (Inl e, s') \<Longrightarrow> bnd m f s = (Inl e, s')"
  by (simp add: bnd_def)

lemma andthen_run:
  "andthen m n s = (case m s of (Inl e, s') \<Rightarrow> (Inl e, s') | (Inr a, s') \<Rightarrow> n s')"
  by (simp add: andthen_def bnd_def)

lemma try_except_Inr [simp]: "m s = (Inr a, s') \<Longrightarrow> try_except m h s = (Inr a, s')"
  by (simp add: try_except_def)

lemma try_except_Inl [simp]: "m s = (Inl e, s') \<Longrightarrow> try_except m h s = h e s'"
  by (simp add: try_except_def)

lemma bnd_eq_Inr:
  "bnd m f s = (Inr b, t) \<longleftrightarrow> (\<exists>a s'. m s = (Inr a, s') \<and> f a s' = (Inr b, t))"
  by (auto simp: bnd_def split: prod.splits sum.splits)

subsection \<open>Relations and invariants that computations respect\<close>

text \<open>
  \<open>keeps I m\<close>: from a state with \<open>I\<close>, the computation ends in a state with \<open>I\<close>, whether it
  returns or raises. The rules below reduce it to the primitive state changes.
\<close>

named_theorems keeps_rules

definition keeps :: "('s \<Rightarrow> bool) \<Rightarrow> ('s, 'a) py \<Rightarrow> bool" where
  "keeps I m \<longleftrightarrow> (\<forall>s. I s \<longrightarrow> I (snd (m s)))"

lemma keepsI: "(\<And>s. I s \<Longrightarrow> I (snd (m s))) \<Longrightarrow> keeps I m"
  by (simp add: keeps_def)

lemma keepsD: "keeps I m \<Longrightarrow> I s \<Longrightarrow> I (snd (m s))"
  by (simp add: keeps_def)

lemma keepsE: "keeps I m \<Longrightarrow> I s \<Longrightarrow> m s = (r, s') \<Longrightarrow> I s'"
  by (metis keeps_def snd_conv)

lemma keeps_ret [keeps_rules]: "keeps I (ret a)"
  and keeps_raise [keeps_rules]: "keeps I (raise e)"
  and keeps_gets [keeps_rules]: "keeps I (gets f)"
  and keeps_of_res [keeps_rules]: "keeps I (of_res r)"
  and keeps_of_opt [keeps_rules]: "keeps I (of_opt e q)"
  by (simp_all add: keeps_def of_opt_def)

lemma keeps_modify: "(\<And>s. I s \<Longrightarrow> I (f s)) \<Longrightarrow> keeps I (modify f)"
  by (simp add: keeps_def)

lemma keeps_bnd [keeps_rules]:
  "keeps I m \<Longrightarrow> (\<And>a. keeps I (f a)) \<Longrightarrow> keeps I (bnd m f)"
  by (auto simp: keeps_def bnd_def split: prod.splits sum.splits)

lemma keeps_andthen [keeps_rules]: "keeps I m \<Longrightarrow> keeps I n \<Longrightarrow> keeps I (andthen m n)"
  by (simp add: andthen_def keeps_bnd)

lemma keeps_try_except [keeps_rules]:
  "keeps I m \<Longrightarrow> (\<And>e. keeps I (h e)) \<Longrightarrow> keeps I (try_except m h)"
  by (auto simp: keeps_def try_except_def split: prod.splits sum.splits)

lemma keeps_for_each [keeps_rules]: "(\<And>x. keeps I (f x)) \<Longrightarrow> keeps I (for_each xs f)"
  by (induction xs) (auto intro!: keeps_rules)

lemma keeps_if [keeps_rules]:
  "(b \<Longrightarrow> keeps I m) \<Longrightarrow> (\<not> b \<Longrightarrow> keeps I n) \<Longrightarrow> keeps I (if b then m else n)"
  by simp

lemma keeps_case_option [keeps_rules]:
  "(x = None \<Longrightarrow> keeps I m) \<Longrightarrow> (\<And>a. x = Some a \<Longrightarrow> keeps I (f a)) \<Longrightarrow>
   keeps I (case x of None \<Rightarrow> m | Some a \<Rightarrow> f a)"
  by (cases x) simp_all

lemma keeps_case_sum [keeps_rules]:
  "(\<And>e. x = Inl e \<Longrightarrow> keeps I (f e)) \<Longrightarrow> (\<And>a. x = Inr a \<Longrightarrow> keeps I (g a)) \<Longrightarrow>
   keeps I (case x of Inl e \<Rightarrow> f e | Inr a \<Rightarrow> g a)"
  by (cases x) simp_all

lemma keeps_case_list [keeps_rules]:
  "(x = [] \<Longrightarrow> keeps I m) \<Longrightarrow> (\<And>a as. x = a # as \<Longrightarrow> keeps I (f a as)) \<Longrightarrow>
   keeps I (case x of [] \<Rightarrow> m | a # as \<Rightarrow> f a as)"
  by (cases x) simp_all

lemma keeps_case_prod [keeps_rules]:
  "(\<And>a b. x = (a, b) \<Longrightarrow> keeps I (f a b)) \<Longrightarrow> keeps I (case x of (a, b) \<Rightarrow> f a b)"
  by (cases x) simp_all

lemma keeps_Let [keeps_rules]: "keeps I (f x) \<Longrightarrow> keeps I (let y = x in f y)"
  by simp

text \<open>
  The Hoare triple of a computation: the condition on the result and the state when it returns,
  and the one when it raises.
\<close>

definition triple ::
    "('s \<Rightarrow> bool) \<Rightarrow> ('s, 'a) py \<Rightarrow> ('a \<Rightarrow> 's \<Rightarrow> bool) \<Rightarrow> (pyexc \<Rightarrow> 's \<Rightarrow> bool) \<Rightarrow> bool" where
  "triple P m Q E \<longleftrightarrow>
     (\<forall>s. P s \<longrightarrow> (case m s of (Inr a, s') \<Rightarrow> Q a s' | (Inl e, s') \<Rightarrow> E e s'))"

lemma tripleI:
  "(\<And>s. P s \<Longrightarrow> case m s of (Inr a, s') \<Rightarrow> Q a s' | (Inl e, s') \<Rightarrow> E e s') \<Longrightarrow> triple P m Q E"
  by (simp add: triple_def)

lemma triple_Inr: "triple P m Q E \<Longrightarrow> P s \<Longrightarrow> m s = (Inr a, s') \<Longrightarrow> Q a s'"
  by (auto simp: triple_def split: prod.splits sum.splits)

lemma triple_Inl: "triple P m Q E \<Longrightarrow> P s \<Longrightarrow> m s = (Inl e, s') \<Longrightarrow> E e s'"
  by (auto simp: triple_def split: prod.splits sum.splits)

lemma triple_bnd:
  "triple P m R E \<Longrightarrow> (\<And>a. triple (R a) (f a) Q E) \<Longrightarrow> triple P (bnd m f) Q E"
  by (fastforce simp: triple_def bnd_def split: prod.splits sum.splits)

lemma triple_andthen: "triple P m (\<lambda>_. R) E \<Longrightarrow> triple R n Q E \<Longrightarrow> triple P (andthen m n) Q E"
  by (simp add: andthen_def triple_bnd)

lemma triple_ret: "(\<And>s. P s \<Longrightarrow> Q a s) \<Longrightarrow> triple P (ret a) Q E"
  by (simp add: triple_def)

lemma triple_raise: "(\<And>s. P s \<Longrightarrow> E e s) \<Longrightarrow> triple P (raise e) Q E"
  by (simp add: triple_def)

lemma triple_gets: "(\<And>s. P s \<Longrightarrow> Q (f s) s) \<Longrightarrow> triple P (gets f) Q E"
  by (simp add: triple_def)

lemma triple_modify: "(\<And>s. P s \<Longrightarrow> Q () (f s)) \<Longrightarrow> triple P (modify f) Q E"
  by (simp add: triple_def)

lemma triple_conseq:
  "triple P' m Q' E' \<Longrightarrow> (\<And>s. P s \<Longrightarrow> P' s) \<Longrightarrow> (\<And>a s. Q' a s \<Longrightarrow> Q a s) \<Longrightarrow>
   (\<And>e s. E' e s \<Longrightarrow> E e s) \<Longrightarrow> triple P m Q E"
  by (fastforce simp: triple_def split: prod.splits sum.splits)

lemma triple_conj:
  "triple P m Q E \<Longrightarrow> triple P' m Q' E' \<Longrightarrow>
   triple (\<lambda>s. P s \<and> P' s) m (\<lambda>a s. Q a s \<and> Q' a s) (\<lambda>e s. E e s \<and> E' e s)"
  by (auto simp: triple_def split: prod.splits sum.splits)

lemma triple_if:
  "(b \<Longrightarrow> triple P m Q E) \<Longrightarrow> (\<not> b \<Longrightarrow> triple P n Q E) \<Longrightarrow> triple P (if b then m else n) Q E"
  by simp

lemma triple_pre: "(\<And>s. P s \<Longrightarrow> triple (\<lambda>t. t = s) m Q E) \<Longrightarrow> triple P m Q E"
  by (simp add: triple_def)

lemma keeps_triple: "keeps I m \<longleftrightarrow> triple I m (\<lambda>_. I) (\<lambda>_. I)"
proof -
  have "(case m s of (Inr a, s') \<Rightarrow> I s' | (Inl e, s') \<Rightarrow> I s') = I (snd (m s))" for s
    by (auto split: prod.splits sum.splits)
  then show ?thesis by (simp add: keeps_def triple_def)
qed

lemma bnd_assoc: "bnd (bnd m f) g = bnd m (\<lambda>x. bnd (f x) g)"
  by (auto simp: bnd_def fun_eq_iff split: prod.splits sum.splits)

lemma bnd_ret [simp]: "bnd (ret a) f = f a"
  by (simp add: bnd_def fun_eq_iff)

lemma bnd_raise [simp]: "bnd (raise e) f = raise e"
  by (simp add: bnd_def fun_eq_iff)

subsection \<open>Slices and subscripts\<close>

text \<open>\<open>xs[i:j]\<close>: bounds below zero count from the end, and both are clipped to the length.\<close>

definition clip :: "nat \<Rightarrow> int \<Rightarrow> nat" where
  "clip n k = (if k < 0 then nat (k + int n) else min (nat k) n)"

definition py_slice :: "'a list \<Rightarrow> int \<Rightarrow> int \<Rightarrow> 'a list" where
  "py_slice xs i j = (let n = length xs; a = clip n i; b = clip n j in take (b - a) (drop a xs))"

definition py_from :: "'a list \<Rightarrow> int \<Rightarrow> 'a list" where
  "py_from xs i = drop (clip (length xs) i) xs"

definition py_upto :: "'a list \<Rightarrow> int \<Rightarrow> 'a list" where
  "py_upto xs j = take (clip (length xs) j) xs"

text \<open>\<open>del xs[i:j]\<close>: nothing is deleted when the clipped bounds are not in order.\<close>

definition py_del_slice :: "'a list \<Rightarrow> int \<Rightarrow> int \<Rightarrow> 'a list" where
  "py_del_slice xs i j =
     (let n = length xs; a = clip n i; b = clip n j in take a xs @ drop (max a b) xs)"

text \<open>\<open>xs[i]\<close>: \<open>None\<close> is the IndexError.\<close>

definition py_nth :: "'a list \<Rightarrow> int \<Rightarrow> 'a option" where
  "py_nth xs i =
     (let n = int (length xs); k = (if i < 0 then i + n else i)
      in if 0 \<le> k \<and> k < n then Some (xs ! nat k) else None)"

lemma clip_le [simp]: "clip n k \<le> n"
  by (auto simp: clip_def)

lemma clip_nat [simp]: "clip n (int k) = min k n"
  by (simp add: clip_def)

lemma py_slice_nat: "py_slice xs (int i) (int j) = take (j - i) (drop i xs)"
  by (simp add: py_slice_def Let_def min_def)

lemma py_from_nat [simp]: "py_from xs (int i) = drop i xs"
  by (simp add: py_from_def min_def)

lemma py_upto_nat [simp]: "py_upto xs (int i) = take i xs"
  by (simp add: py_upto_def min_def)

lemma py_nth_nat [simp]: "py_nth xs (int i) = (if i < length xs then Some (xs ! i) else None)"
  by (simp add: py_nth_def Let_def)

lemma py_nth_zero: "py_nth xs 0 = (case xs of [] \<Rightarrow> None | x # _ \<Rightarrow> Some x)"
  by (cases xs) (simp_all add: py_nth_def Let_def)

lemma length_py_slice_le: "length (py_slice xs i j) \<le> length xs"
  by (simp add: py_slice_def Let_def)

subsection \<open>Searching, splitting, joining and stripping strings\<close>

definition startswith :: "'a list \<Rightarrow> 'a list \<Rightarrow> bool" where
  "startswith s p \<longleftrightarrow> take (length p) s = p"

definition endswith :: "'a list \<Rightarrow> 'a list \<Rightarrow> bool" where
  "endswith s p \<longleftrightarrow> length p \<le> length s \<and> drop (length s - length p) s = p"

text \<open>
  \<open>find_from p s k\<close>: the first position of \<open>p\<close> in \<open>s\<close>, plus the offset \<open>k\<close>, or \<open>-1\<close>;
  \<open>rfind_from\<close> the last one.
\<close>

fun find_from :: "string \<Rightarrow> string \<Rightarrow> nat \<Rightarrow> int" where
  "find_from p [] k = (if p = [] then int k else -1)"
| "find_from p (c # cs) k = (if startswith (c # cs) p then int k else find_from p cs (Suc k))"

fun rfind_from :: "string \<Rightarrow> string \<Rightarrow> nat \<Rightarrow> int" where
  "rfind_from p [] k = (if p = [] then int k else -1)"
| "rfind_from p (c # cs) k =
     (let r = rfind_from p cs (Suc k)
      in if 0 \<le> r then r else if startswith (c # cs) p then int k else -1)"

definition py_find :: "string \<Rightarrow> string \<Rightarrow> int" where
  "py_find s p = find_from p s 0"

definition py_find_at :: "string \<Rightarrow> string \<Rightarrow> nat \<Rightarrow> int" where
  "py_find_at s p i = (if length s < i then -1 else find_from p (drop i s) i)"

definition py_rfind :: "string \<Rightarrow> string \<Rightarrow> int" where
  "py_rfind s p = rfind_from p s 0"

text \<open>\<open>p in s\<close>, written \<open>s.find(p) >= 0\<close> in the source.\<close>

definition contains :: "string \<Rightarrow> string \<Rightarrow> bool" where
  "contains s p \<longleftrightarrow> 0 \<le> py_find s p"

fun py_split :: "char \<Rightarrow> string \<Rightarrow> string list" where
  "py_split c [] = [[]]"
| "py_split c (x # xs) =
     (if x = c then [] # py_split c xs
      else (case py_split c xs of [] \<Rightarrow> [[x]] | y # ys \<Rightarrow> (x # y) # ys))"

text \<open>\<open>s.split(p)\<close> for a separator of several characters; \<open>skip\<close> characters are still to pass.\<close>

fun split_str :: "string \<Rightarrow> nat \<Rightarrow> string \<Rightarrow> string list" where
  "split_str p k [] = [[]]"
| "split_str p (Suc k) (x # xs) = split_str p k xs"
| "split_str p 0 (x # xs) =
     (if startswith (x # xs) p then [] # split_str p (length p - 1) xs
      else (case split_str p 0 xs of [] \<Rightarrow> [[x]] | y # ys \<Rightarrow> (x # y) # ys))"

fun py_join :: "string \<Rightarrow> string list \<Rightarrow> string" where
  "py_join sep [] = []"
| "py_join sep [x] = x"
| "py_join sep (x # y # ys) = x @ sep @ py_join sep (y # ys)"

definition is_space :: "char \<Rightarrow> bool" where
  "is_space c \<longleftrightarrow> c = CHR '' '' \<or> (9 \<le> (of_char c :: nat) \<and> (of_char c :: nat) \<le> 13)"

definition py_strip :: "string \<Rightarrow> string" where
  "py_strip s = rev (dropWhile is_space (rev (dropWhile is_space s)))"

definition to_lower :: "char \<Rightarrow> char" where
  "to_lower c = (let n = of_char c :: nat in if 65 \<le> n \<and> n \<le> 90 then char_of (n + 32) else c)"

definition to_upper :: "char \<Rightarrow> char" where
  "to_upper c = (let n = of_char c :: nat in if 97 \<le> n \<and> n \<le> 122 then char_of (n - 32) else c)"

lemma startswith_Nil [simp]: "startswith s []"
  by (simp add: startswith_def)

lemma startswith_Cons [simp]:
  "startswith (x # xs) (y # ys) \<longleftrightarrow> x = y \<and> startswith xs ys"
  "\<not> startswith [] (y # ys)"
  by (auto simp: startswith_def)

lemma startswith_append [simp]: "startswith (p @ s) p"
  by (simp add: startswith_def)

lemma startswith_iff: "startswith s p \<longleftrightarrow> (\<exists>r. s = p @ r)"
  by (metis append_take_drop_id startswith_append startswith_def)

lemma endswith_iff: "endswith s p \<longleftrightarrow> (\<exists>r. s = r @ p)"
proof
  assume "endswith s p"
  then show "\<exists>r. s = r @ p"
    by (metis append_take_drop_id endswith_def)
qed (auto simp: endswith_def)

lemma find_from_bounds:
  "find_from p s k = -1 \<or> (int k \<le> find_from p s k \<and> find_from p s k \<le> int (k + length s))"
  by (induction p s k rule: find_from.induct) auto

lemma find_from_Some:
  "find_from p s k = int (k + i) \<Longrightarrow> startswith (drop i s) p \<and> i \<le> length s"
proof (induction p s k arbitrary: i rule: find_from.induct)
  case (1 p k)
  then show ?case by (auto split: if_splits)
next
  case (2 p c cs k)
  show ?case
  proof (cases "startswith (c # cs) p")
    case True
    with 2 show ?thesis by simp
  next
    case False
    with 2 have f: "find_from p cs (Suc k) = int (k + i)" by simp
    with find_from_bounds [of p cs "Suc k"] have "0 < i" by auto
    then obtain j where "i = Suc j" by (cases i) auto
    with 2 False f show ?thesis by simp
  qed
qed

lemma find_from_None:
  "find_from p s k = -1 \<Longrightarrow> i \<le> length s \<Longrightarrow> \<not> startswith (drop i s) p"
proof (induction p s k arbitrary: i rule: find_from.induct)
  case (1 p k)
  then show ?case by (cases p) (auto split: if_splits)
next
  case (2 p c cs k)
  then show ?case by (cases i) (auto split: if_splits)
qed

lemma find_from_contains: "find_from p s k \<noteq> -1 \<Longrightarrow> \<exists>a b. s = a @ p @ b"
proof -
  assume "find_from p s k \<noteq> -1"
  with find_from_bounds [of p s k] obtain i where "find_from p s k = int (k + i)"
    by (metis of_nat_add zero_le_imp_eq_int zle_iff_zadd)
  then have "startswith (drop i s) p" using find_from_Some by blast
  then show ?thesis by (metis append_take_drop_id startswith_iff)
qed

lemma contains_iff: "contains s p \<longleftrightarrow> (\<exists>a b. s = a @ p @ b)"
proof
  assume c: "contains s p"
  then obtain i where "find_from p s 0 = int (0 + i)"
    unfolding contains_def py_find_def by (metis add_0 zero_le_imp_eq_int)
  then have "startswith (drop i s) p" using find_from_Some by blast
  then show "\<exists>a b. s = a @ p @ b"
    by (metis append_take_drop_id startswith_iff)
next
  assume "\<exists>a b. s = a @ p @ b"
  then obtain a b where s: "s = a @ p @ b" by blast
  have "find_from p s 0 \<noteq> -1"
  proof
    assume "find_from p s 0 = -1"
    from find_from_None [OF this, of "length a"] s show False by simp
  qed
  with find_from_bounds [of p s 0] show "contains s p"
    by (auto simp: contains_def py_find_def)
qed

text \<open>The first occurrence of a character is in one place.\<close>

lemma first_occurrence:
  "a @ c # u = b @ c # v \<Longrightarrow> c \<notin> set a \<Longrightarrow> c \<notin> set b \<Longrightarrow> a = b \<and> u = v"
proof (induction a arbitrary: b)
  case Nil
  then show ?case by (cases b) auto
next
  case (Cons x a)
  then show ?case by (cases b) auto
qed

lemma split_str_char: "split_str [c] 0 s = py_split c s"
  by (induction c s rule: py_split.induct) auto

lemma py_split_not_Nil [simp]: "py_split c s \<noteq> []"
  by (cases "(c, s)" rule: py_split.cases) (auto split: list.splits)

lemma split_str_not_Nil [simp]: "split_str p k s \<noteq> []"
  by (induction p k s rule: split_str.induct) (auto split: list.splits)

lemma py_join_Cons:
  "py_join sep (x # xs) = (if xs = [] then x else x @ sep @ py_join sep xs)"
  by (cases xs) simp_all

lemma py_join_py_split [simp]: "py_join [c] (py_split c s) = s"
  by (induction c s rule: py_split.induct) (auto simp: py_join_Cons split: list.splits)

lemma py_split_no_sep: "x \<in> set (py_split c s) \<Longrightarrow> c \<notin> set x"
  by (induction c s arbitrary: x rule: py_split.induct) (auto split: list.splits if_splits)

lemma py_split_append_sep [simp]: "c \<notin> set x \<Longrightarrow> py_split c (x @ c # s) = x # py_split c s"
  by (induction x) auto

lemma py_split_single [simp]: "c \<notin> set x \<Longrightarrow> py_split c x = [x]"
  by (induction x) auto

lemma py_split_py_join:
  "xs \<noteq> [] \<Longrightarrow> \<forall>x \<in> set xs. c \<notin> set x \<Longrightarrow> py_split c (py_join [c] xs) = xs"
  by (induction xs) (auto simp: py_join_Cons)

subsection \<open>Numbers and their decimal and hexadecimal texts\<close>

definition digit_char :: "nat \<Rightarrow> char" where
  "digit_char d = char_of (48 + d)"

function dec_nat :: "nat \<Rightarrow> string" where
  "dec_nat n = (if n < 10 then [digit_char n] else dec_nat (n div 10) @ [digit_char (n mod 10)])"
  by pat_completeness auto
termination
  by (relation "measure id") auto

declare dec_nat.simps [simp del]

text \<open>A number padded with zeros on the left, as \<open>%02d\<close> prints it.\<close>

definition pad_num :: "nat \<Rightarrow> nat \<Rightarrow> string" where
  "pad_num k n = replicate (k - length (dec_nat n)) (CHR ''0'') @ dec_nat n"

definition py_str_int :: "int \<Rightarrow> string" where
  "py_str_int i = (if i < 0 then ''-'' @ dec_nat (nat (- i)) else dec_nat (nat i))"

definition digit_val :: "char \<Rightarrow> nat option" where
  "digit_val c =
     (let n = of_char c :: nat
      in if 48 \<le> n \<and> n \<le> 57 then Some (n - 48)
         else if 97 \<le> n \<and> n \<le> 122 then Some (n - 87)
         else if 65 \<le> n \<and> n \<le> 90 then Some (n - 55)
         else None)"

fun digits_val :: "nat \<Rightarrow> nat \<Rightarrow> string \<Rightarrow> nat option" where
  "digits_val base acc [] = Some acc"
| "digits_val base acc (c # cs) =
     (case digit_val c of
        None \<Rightarrow> None
      | Some d \<Rightarrow> if d < base then digits_val base (acc * base + d) cs else None)"

definition unsigned_val :: "nat \<Rightarrow> string \<Rightarrow> nat option" where
  "unsigned_val base s = (if s = [] then None else digits_val base 0 s)"

definition strip_sign :: "string \<Rightarrow> int \<times> string" where
  "strip_sign s =
     (case s of
        [] \<Rightarrow> (1, [])
      | c # cs \<Rightarrow> if c = CHR ''-'' then (-1, cs) else if c = CHR ''+'' then (1, cs) else (1, s))"

text \<open>\<open>int(s)\<close>; \<open>None\<close> is the ValueError.\<close>

definition py_int :: "string \<Rightarrow> int option" where
  "py_int s = (case strip_sign (py_strip s) of (sg, r) \<Rightarrow>
     map_option (\<lambda>n. sg * int n) (unsigned_val 10 r))"

text \<open>\<open>int(s, 16)\<close>, with or without the prefix \<open>0x\<close>.\<close>

definition py_int16 :: "string \<Rightarrow> int option" where
  "py_int16 s = (case strip_sign (py_strip s) of (sg, r) \<Rightarrow>
     map_option (\<lambda>n. sg * int n)
       (unsigned_val 16 (if startswith r ''0x'' \<or> startswith r ''0X'' then drop 2 r else r)))"

lemma digit_val_digit_char [simp]: "d < 10 \<Longrightarrow> digit_val (digit_char d) = Some d"
  by (simp add: digit_val_def digit_char_def Let_def)

lemma digits_val_append:
  "digits_val b acc (xs @ ys) = Option.bind (digits_val b acc xs) (\<lambda>a. digits_val b a ys)"
  by (induction xs arbitrary: acc) (auto split: option.splits)

lemma dec_nat_not_Nil [simp]: "dec_nat n \<noteq> []"
  by (subst dec_nat.simps) simp

lemma digits_val_dec_nat [simp]: "digits_val 10 0 (dec_nat n) = Some n"
proof (induction n rule: dec_nat.induct)
  case (1 n)
  show ?case
  proof (cases "n < 10")
    case True
    then show ?thesis by (subst dec_nat.simps) simp
  next
    case False
    with 1 have "digits_val 10 0 (dec_nat (n div 10)) = Some (n div 10)" by simp
    with False show ?thesis
      by (subst dec_nat.simps) (simp add: digits_val_append)
  qed
qed

lemma unsigned_val_dec_nat [simp]: "unsigned_val 10 (dec_nat n) = Some n"
  by (simp add: unsigned_val_def)

lemma dec_nat_digits: "c \<in> set (dec_nat n) \<Longrightarrow> \<exists>d < 10. c = digit_char d"
proof (induction n rule: dec_nat.induct)
  case (1 n)
  show ?case
  proof (cases "n < 10")
    case True
    with "1.prems" show ?thesis by (subst (asm) dec_nat.simps) auto
  next
    case False
    with "1.prems" have "c \<in> set (dec_nat (n div 10)) \<or> c = digit_char (n mod 10)"
      by (subst (asm) dec_nat.simps) auto
    moreover have "n mod 10 < 10" by simp
    ultimately show ?thesis using "1.IH" False by blast
  qed
qed

lemma dec_nat_inj: "dec_nat m = dec_nat n \<Longrightarrow> m = n"
  by (metis digits_val_dec_nat option.inject)

lemma digit_char_props:
  assumes "d < 10"
  shows "digit_char d \<noteq> CHR ''-''" "digit_char d \<noteq> CHR ''+''" "\<not> is_space (digit_char d)"
    "digit_char d \<noteq> CHR 0x22"
proof -
  have n: "of_char (digit_char d) = 48 + d"
    using assms by (simp add: digit_char_def)
  show "digit_char d \<noteq> CHR ''-''" "digit_char d \<noteq> CHR ''+''" "digit_char d \<noteq> CHR 0x22"
    using n assms by (auto dest!: arg_cong [where f = "of_char :: char \<Rightarrow> nat"])
  show "\<not> is_space (digit_char d)"
    using n assms \<open>digit_char d \<noteq> CHR ''-''\<close>
    by (auto simp: is_space_def dest!: arg_cong [where f = "of_char :: char \<Rightarrow> nat"])
qed

lemma py_strip_id: "\<forall>c \<in> set s. \<not> is_space c \<Longrightarrow> py_strip s = s"
proof -
  assume "\<forall>c \<in> set s. \<not> is_space c"
  then have "dropWhile is_space s = s" "dropWhile is_space (rev s) = rev s"
    by (metis dropWhile_eq_self_iff hd_in_set)
      (metis \<open>\<forall>c \<in> set s. \<not> is_space c\<close> dropWhile_eq_self_iff hd_in_set set_rev)
  then show ?thesis by (simp add: py_strip_def)
qed

lemma py_str_int_no_space: "c \<in> set (py_str_int i) \<Longrightarrow> \<not> is_space c"
  by (auto simp: py_str_int_def is_space_def [of "CHR ''-''"] dest!: dec_nat_digits
      dest: digit_char_props(3) split: if_splits)

text \<open>Reading back a printed number gives the number.\<close>

lemma py_int_py_str_int [simp]: "py_int (py_str_int i) = Some i"
proof -
  have "py_strip (py_str_int i) = py_str_int i"
    using py_str_int_no_space by (simp add: py_strip_id)
  moreover have "strip_sign (dec_nat n) = (1, dec_nat n)" for n
  proof -
    obtain c cs where d: "dec_nat n = c # cs" by (cases "dec_nat n") auto
    then obtain k where "k < 10" "c = digit_char k"
      using dec_nat_digits [of c n] by auto
    with d show ?thesis by (simp add: strip_sign_def digit_char_props)
  qed
  ultimately show ?thesis
    by (simp add: py_int_def py_str_int_def strip_sign_def [of "CHR ''-'' # _"])
qed

lemma py_str_int_inj: "py_str_int i = py_str_int j \<Longrightarrow> i = j"
  by (metis option.inject py_int_py_str_int)

subsection \<open>Dictionaries\<close>

lemma map_of_update [simp]: "map_of (AList.update k v al) = (map_of al)(k \<mapsto> v)"
  by (simp add: AList.update_conv')

lemma set_keys_update: "fst ` set (AList.update k v al) = insert k (fst ` set al)"
  by (simp add: dom_update)

lemma set_update_subset: "set (AList.update k v al) \<subseteq> insert (k, v) (set al)"
  by (induction al) auto

lemma length_update: "length (AList.update k v al) =
    (if k \<in> fst ` set al then length al else Suc (length al))"
  by (induction al) (auto simp: image_iff)

lemma keys_update_present: "map_of al k \<noteq> None \<Longrightarrow> map fst (AList.update k v al) = map fst al"
  by (induction al) auto

lemma keys_update_fresh: "map_of al k = None \<Longrightarrow> AList.update k v al = al @ [(k, v)]"
  by (induction al) (auto split: if_splits)

lemma map_of_append_fresh [simp]:
  "k \<notin> fst ` set al \<Longrightarrow> map_of (al @ [(k, v)]) = (map_of al)(k \<mapsto> v)"
  by (induction al) auto

end
