(* ===== verification/PyValue.thy ===== *)
theory PyValue
  imports PyBase
begin

text \<open>
  The Python values that the system calls carry: texts and nested lists cut out of the log by
  \<open>ParseCallArguments\<close>, and the objects of the model (a \<open>CIM_DataFile\<close> or a \<open>CIM_Process\<close>),
  which are referred to by their object path. Two references are equal exactly when they are the
  same Python object, as \<open>==\<close> is on instances without \<open>__eq__\<close>. \<open>py_str\<close> and \<open>py_repr\<close> are
  \<open>str()\<close> and \<open>repr()\<close>.
\<close>

datatype pyval =
    VNone
  | VStr string
  | VInt int
  | VBool bool
  | VList "pyval list"
  | VFile string
  | VProc string

definition hex_digit :: "nat \<Rightarrow> char" where
  "hex_digit d = (if d < 10 then digit_char d else char_of (87 + d))"

definition repr_char :: "char \<Rightarrow> char \<Rightarrow> string" where
  "repr_char q c =
     (let n = of_char c :: nat
      in if c = q \<or> c = CHR 0x5C then [CHR 0x5C, c]
         else if n = 9 then [CHR 0x5C, CHR ''t'']
         else if n = 10 then [CHR 0x5C, CHR ''n'']
         else if n = 13 then [CHR 0x5C, CHR ''r'']
         else if n < 32 \<or> 127 \<le> n then [CHR 0x5C, CHR ''x'', hex_digit (n div 16), hex_digit (n mod 16)]
         else [c])"

definition repr_str :: "string \<Rightarrow> string" where
  "repr_str s =
     (let q = (if CHR 0x27 \<in> set s \<and> CHR 0x22 \<notin> set s then CHR 0x22 else CHR 0x27)
      in q # concat (map (repr_char q) s) @ [q])"

definition object_repr :: "string \<Rightarrow> string" where
  "object_repr path = [CHR 0x27] @ path @ [CHR 0x27]"

fun py_repr :: "pyval \<Rightarrow> string" where
  "py_repr VNone = ''None''"
| "py_repr (VStr s) = repr_str s"
| "py_repr (VInt i) = py_str_int i"
| "py_repr (VBool b) = (if b then ''True'' else ''False'')"
| "py_repr (VList vs) = ''['' @ py_join '', '' (map py_repr vs) @ '']''"
| "py_repr (VFile p) = object_repr p"
| "py_repr (VProc p) = object_repr p"

fun py_str :: "pyval \<Rightarrow> string" where
  "py_str (VStr s) = s"
| "py_str v = py_repr v"

fun truthy :: "pyval \<Rightarrow> bool" where
  "truthy VNone = False"
| "truthy (VStr s) = (s \<noteq> [])"
| "truthy (VInt i) = (i \<noteq> 0)"
| "truthy (VBool b) = b"
| "truthy (VList vs) = (vs \<noteq> [])"
| "truthy (VFile p) = True"
| "truthy (VProc p) = True"

end
