(* ===== verification/CallArgs.thy ===== *)
theory CallArgs
  imports PyValue
begin

text \<open>
  \<^verbatim>\<open>dockit.ParseCallArguments\<close>: the arguments of a system call, from the text that strace or
  ltrace print between parentheses. The loop runs over the index \<open>ixCurr\<close>; an argument that starts
  with a square or curly bracket is parsed by a recursive call, whose result is a nested list.
  The recursion of \<open>pca_loop\<close> is on fuel; \<open>ParseCallArguments_total\<close> shows that the fuel given is
  always enough, that is, that the code terminates.
\<close>

abbreviation unfinished_mark :: string where
  "unfinished_mark \<equiv> ''<unfinished ...>''"

definition dquote :: char where
  "dquote = CHR 0x22"

definition backslash :: char where
  "backslash = CHR 0x5C"

text \<open>\<open>while i < n and strArgs[i] in cs: i += 1\<close>, and the same from the end of a range.\<close>

function skip_while :: "(char \<Rightarrow> bool) \<Rightarrow> string \<Rightarrow> nat \<Rightarrow> nat \<Rightarrow> nat" where
  "skip_while p s n i = (if i < n \<and> p (s ! i) then skip_while p s n (Suc i) else i)"
  by pat_completeness auto
termination
  by (relation "measure (\<lambda>(p, s, n, i). n - i)") auto

fun back_while :: "(char \<Rightarrow> bool) \<Rightarrow> string \<Rightarrow> nat \<Rightarrow> nat \<Rightarrow> nat" where
  "back_while p s i 0 = 0"
| "back_while p s i (Suc e) = (if i < Suc e \<and> p (s ! e) then back_while p s i e else Suc e)"

declare skip_while.simps [simp del] back_while.simps [simp del]

record pca_state =
  theResult :: "pyval list"
  finished :: bool
  inQuotes :: bool
  levelParent :: int
  isEscaped :: bool
  ixStart :: nat
  ixCurr :: nat

definition is_blank :: "char \<Rightarrow> bool" where
  "is_blank c \<longleftrightarrow> c = CHR '' ''"

definition blank_or_quote :: "char \<Rightarrow> bool" where
  "blank_or_quote c \<longleftrightarrow> c = CHR '' '' \<or> c = dquote"

definition blank_or_comma :: "char \<Rightarrow> bool" where
  "blank_or_comma c \<longleftrightarrow> c = CHR '' '' \<or> c = CHR '',''"

definition open_bracket :: "char \<Rightarrow> bool" where
  "open_bracket c \<longleftrightarrow> c = CHR ''['' \<or> c = CHR ''{''"

definition closer :: "char \<Rightarrow> bool" where
  "closer c \<longleftrightarrow> c = CHR '')'' \<or> c = CHR '']'' \<or> c = CHR ''}''"

definition arg_tail :: "char \<Rightarrow> bool" where
  "arg_tail c \<longleftrightarrow> closer c \<or> c = CHR '','' \<or> blank_or_quote c"

text \<open>The text of an argument; a string that the tracer truncated ends with a quote and dots.\<close>

definition clean_arg :: "string \<Rightarrow> string" where
  "clean_arg a = (if endswith a (dquote # ''...'') then take (length a - 4) a @ ''...'' else a)"

text \<open>The start of a call: the blanks are skipped and the marker of an unfinished call ends the text.\<close>

definition pca_begin :: "string \<Rightarrow> nat \<Rightarrow> nat \<times> pca_state" where
  "pca_begin s i =
     (let ix = skip_while is_blank s (length s) i;
          u = py_find_at s unfinished_mark ix
      in (if 0 \<le> u then nat u else length s,
          \<lparr>theResult = [], finished = False, inQuotes = False, levelParent = 0,
           isEscaped = False, ixStart = ix, ixCurr = ix\<rparr>))"

text \<open>An argument ends at a comma of level zero or at the closing bracket.\<close>

definition pca_arg :: "string \<Rightarrow> nat \<Rightarrow> pca_state \<Rightarrow> pca_state" where
  "pca_arg s n st =
     (let a = skip_while blank_or_quote s n (ixStart st);
          e = back_while (\<lambda>c. c = dquote) s a (ixCurr st - 1);
          i = skip_while is_blank s n (ixCurr st)
      in st\<lparr>theResult := theResult st @ [VStr (clean_arg (take (e - a) (drop a s)))],
            ixCurr := i, ixStart := i\<rparr>)"

text \<open>What follows the bracket tests: the nesting level, and the end of an argument.\<close>

definition pca_char :: "string \<Rightarrow> nat \<Rightarrow> char \<Rightarrow> pca_state \<Rightarrow> pca_state" where
  "pca_char s n c st =
     (if open_bracket c \<or> c = CHR ''('' then st\<lparr>levelParent := levelParent st + 1\<rparr>
      else if closer c then
        (let st' = st\<lparr>levelParent := levelParent st - 1\<rparr>
         in if levelParent st' = -1 then
              (if ixCurr st = ixStart st + 1 then st'\<lparr>finished := True\<rparr>
               else pca_arg s n (st'\<lparr>finished := True\<rparr>))
            else st')
      else if c = CHR '','' \<and> levelParent st = 0 then pca_arg s n st
      else st)"

text \<open>The text after the last comma, when the closing bracket is missing.\<close>

definition pca_end :: "string \<Rightarrow> nat \<Rightarrow> pca_state \<Rightarrow> pyval list \<times> nat" where
  "pca_end s n st =
     (if ixStart st < n \<and> \<not> finished st then
        (let a = skip_while blank_or_quote s n (ixStart st);
             e = back_while arg_tail s a n
         in (theResult st @ [VStr (clean_arg (take (e - a) (drop a s)))], ixCurr st))
      else (theResult st, ixCurr st))"

fun pca_loop :: "nat \<Rightarrow> string \<Rightarrow> nat \<Rightarrow> pca_state \<Rightarrow> pca_state option" where
  "pca_loop 0 s n st = None"
| "pca_loop (Suc fuel) s n st =
     (if ixCurr st < n \<and> \<not> finished st then
        (let c = s ! ixCurr st; st1 = st\<lparr>ixCurr := ixCurr st + 1\<rparr>
         in if isEscaped st1 then pca_loop fuel s n (st1\<lparr>isEscaped := False\<rparr>)
            else if c = backslash then pca_loop fuel s n (st1\<lparr>isEscaped := True\<rparr>)
            else if c = dquote then pca_loop fuel s n (st1\<lparr>inQuotes := \<not> inQuotes st1\<rparr>)
            else if inQuotes st1 then pca_loop fuel s n st1
            else if open_bracket c \<and> ixCurr st1 = ixStart st1 + 1 then
              (case pca_begin s (ixCurr st1) of (n', st') \<Rightarrow>
                 (case pca_loop fuel s n' st' of
                    None \<Rightarrow> None
                  | Some st2 \<Rightarrow>
                      (case pca_end s n' st2 of (objToAdd, ix) \<Rightarrow>
                         (let i = skip_while blank_or_comma s n ix
                          in pca_loop fuel s n
                               (st1\<lparr>theResult := theResult st1 @ [VList objToAdd],
                                    ixStart := i, ixCurr := i\<rparr>)))))
            else pca_loop fuel s n (pca_char s n c st1))
      else Some st)"

definition ParseCallArguments :: "string \<Rightarrow> nat \<Rightarrow> (pyval list \<times> nat) option" where
  "ParseCallArguments s i =
     (case pca_begin s i of (n, st) \<Rightarrow>
        map_option (pca_end s n) (pca_loop (Suc (length s)) s n st))"


subsection \<open>Termination and bounds\<close>

lemma skip_while_ge: "i \<le> skip_while p s n i"
  by (induction p s n i rule: skip_while.induct) (subst skip_while.simps, auto)

lemma skip_while_le: "skip_while p s n i \<le> max i n"
  by (induction p s n i rule: skip_while.induct) (subst skip_while.simps, auto)

lemma skip_while_stop: "\<not> (i < n \<and> p (s ! i)) \<Longrightarrow> skip_while p s n i = i"
  by (subst skip_while.simps) auto

lemma skip_while_go: "i < n \<Longrightarrow> p (s ! i) \<Longrightarrow> skip_while p s n i = skip_while p s n (Suc i)"
  by (subst skip_while.simps) auto

lemma pca_begin_le: "pca_begin s i = (n, st) \<Longrightarrow> n \<le> length s"
  using find_from_bounds [of unfinished_mark "drop (skip_while is_blank s (length s) i) s"
      "skip_while is_blank s (length s) i"]
  by (auto simp: pca_begin_def py_find_at_def Let_def split: if_splits)

lemma pca_begin_ix: "pca_begin s i = (n, st) \<Longrightarrow> i \<le> ixCurr st"
  using skip_while_ge [of i is_blank s "length s"] by (auto simp: pca_begin_def Let_def)

lemma pca_arg_ix: "ixCurr st \<le> ixCurr (pca_arg s n st)"
  by (simp add: pca_arg_def Let_def skip_while_ge)

lemma pca_char_ix: "ixCurr st \<le> ixCurr (pca_char s n c st)"
  using pca_arg_ix [of "st\<lparr>levelParent := levelParent st - 1, finished := True\<rparr>" s n] pca_arg_ix [of st s n]
  by (auto simp: pca_char_def Let_def)

lemma pca_end_ix: "snd (pca_end s n st) = ixCurr st"
  by (simp add: pca_end_def Let_def)

lemma pca_loop_stop:
  "\<not> (ixCurr st < n \<and> \<not> finished st) \<Longrightarrow> pca_loop (Suc fuel) s n st = Some st"
  by (simp only: pca_loop.simps if_False)

lemma pca_loop_total:
  "n \<le> length s \<Longrightarrow> length s < fuel + ixCurr st \<Longrightarrow> 0 < fuel \<Longrightarrow>
   \<exists>st'. pca_loop fuel s n st = Some st' \<and> ixCurr st \<le> ixCurr st'"
proof (induction fuel arbitrary: n st)
  case 0
  then show ?case by simp
next
  case (Suc fuel)
  let ?st1 = "st\<lparr>ixCurr := ixCurr st + 1\<rparr>"
  have go: "\<exists>st'. pca_loop fuel s n t = Some st' \<and> ixCurr st \<le> ixCurr st'"
    if "ixCurr ?st1 \<le> ixCurr t" "ixCurr st < n" for t
    using Suc.IH [of n t] Suc.prems that by fastforce
  show ?case
  proof (cases "ixCurr st < n \<and> \<not> finished st")
    case False
    from pca_loop_stop [OF this] show ?thesis by blast
  next
    case True
    let ?c = "s ! ixCurr st"
    show ?thesis
    proof (cases "\<not> isEscaped st \<and> ?c \<noteq> backslash \<and> ?c \<noteq> dquote \<and> \<not> inQuotes st
        \<and> open_bracket ?c \<and> ixCurr ?st1 = ixStart ?st1 + 1")
      case False
      with True go pca_char_ix [of ?st1 s n ?c] show ?thesis by (auto simp: Let_def)
    next
      case nested: True
      obtain n' st' where b: "pca_begin s (Suc (ixCurr st)) = (n', st')" by force
      with pca_begin_le pca_begin_ix Suc.prems
      have "n' \<le> length s" "Suc (ixCurr st) \<le> ixCurr st'" "length s < fuel + ixCurr st'" "0 < fuel"
        using True by fastforce+
      with Suc.IH [of n' st'] obtain st2 where
        2: "pca_loop fuel s n' st' = Some st2" "Suc (ixCurr st) \<le> ixCurr st2" by fastforce
      obtain r ix where e: "pca_end s n' st2 = (r, ix)" by force
      with 2 pca_end_ix [of s n' st2] have "Suc (ixCurr st) \<le> skip_while blank_or_comma s n ix"
        using skip_while_ge [of ix blank_or_comma s n] by simp
      with True nested b 2 e go show ?thesis by (auto simp: Let_def)
    qed
  qed
qed

lemma pca_loop_mono:
  "pca_loop f s n st = Some r \<Longrightarrow> f \<le> g \<Longrightarrow> pca_loop g s n st = Some r"
proof (induction f arbitrary: g n st r)
  case 0
  then show ?case by simp
next
  case (Suc f)
  then obtain g' where g: "g = Suc g'" "f \<le> g'" by (cases g) auto
  have IH: "pca_loop f s n st = Some r \<Longrightarrow> pca_loop g' s n st = Some r" for n st r
    using Suc.IH g(2) by blast
  from Suc.prems(1) show ?case
    unfolding g(1) pca_loop.simps Let_def
    by (auto split: if_split_asm option.split_asm prod.split_asm dest!: IH)
qed

text \<open>The loop without the fuel, and its equation.\<close>

definition pca_run :: "string \<Rightarrow> nat \<Rightarrow> pca_state \<Rightarrow> pca_state" where
  "pca_run s n st = the (pca_loop (Suc (length s)) s n st)"

lemma pca_loop_run:
  assumes "n \<le> length s" and "length s < f + ixCurr st" and "0 < f"
  shows "pca_loop f s n st = Some (pca_run s n st)"
proof -
  from pca_loop_total [OF assms] obtain r where r: "pca_loop f s n st = Some r" by blast
  from pca_loop_total [of n s "Suc (length s)" st] assms(1) obtain r' where
    r': "pca_loop (Suc (length s)) s n st = Some r'" by force
  from pca_loop_mono [OF r, of "max f (Suc (length s))"]
    pca_loop_mono [OF r', of "max f (Suc (length s))"] have "r = r'" by simp
  with r r' show ?thesis by (simp add: pca_run_def)
qed

lemma ParseCallArguments_run:
  "ParseCallArguments s i = (case pca_begin s i of (n, st) \<Rightarrow> Some (pca_end s n (pca_run s n st)))"
proof -
  obtain n st where b: "pca_begin s i = (n, st)" by force
  then have "pca_loop (Suc (length s)) s n st = Some (pca_run s n st)"
    by (intro pca_loop_run) (auto dest: pca_begin_le)
  with b show ?thesis by (simp add: ParseCallArguments_def del: pca_loop.simps)
qed

lemma pca_run_stop: "\<not> (ixCurr st < n \<and> \<not> finished st) \<Longrightarrow> pca_run s n st = st"
  unfolding pca_run_def by (subst pca_loop_stop) (assumption, rule option.sel)

lemma pca_run_step:
  assumes "n \<le> length s" "ixCurr st < n" "\<not> finished st"
  defines "c \<equiv> s ! ixCurr st" and "st1 \<equiv> st\<lparr>ixCurr := Suc (ixCurr st)\<rparr>"
  shows "pca_run s n st =
    (if isEscaped st then pca_run s n (st1\<lparr>isEscaped := False\<rparr>)
     else if c = backslash then pca_run s n (st1\<lparr>isEscaped := True\<rparr>)
     else if c = dquote then pca_run s n (st1\<lparr>inQuotes := \<not> inQuotes st\<rparr>)
     else if inQuotes st then pca_run s n st1
     else if open_bracket c \<and> ixCurr st = ixStart st then
       (case pca_begin s (Suc (ixCurr st)) of (n', st') \<Rightarrow>
          (case pca_end s n' (pca_run s n' st') of (objToAdd, ix) \<Rightarrow>
             (let i = skip_while blank_or_comma s n ix
              in pca_run s n (st1\<lparr>theResult := theResult st @ [VList objToAdd],
                                  ixStart := i, ixCurr := i\<rparr>))))
     else pca_run s n (pca_char s n c st1))"
proof -
  have f: "pca_loop (length s) s n t = Some (pca_run s n t)" if "Suc (ixCurr st) \<le> ixCurr t" for t
    using that assms(1,2) by (intro pca_loop_run) auto
  obtain n' st' where b: "pca_begin s (Suc (ixCurr st)) = (n', st')" by force
  with pca_begin_le pca_begin_ix have n': "n' \<le> length s" "Suc (ixCurr st) \<le> ixCurr st'" by auto
  then have f': "pca_loop (length s) s n' st' = Some (pca_run s n' st')"
    using assms(1,2) by (intro pca_loop_run) auto
  obtain r ix where e: "pca_end s n' (pca_run s n' st') = (r, ix)" by force
  moreover have "ixCurr st' \<le> ixCurr (pca_run s n' st')"
    using pca_loop_total [of n' s "length s" st'] n' f' assms(1,2) by (cases s) auto
  ultimately have ix: "Suc (ixCurr st) \<le> skip_while blank_or_comma s n ix"
    using pca_end_ix [of s n' "pca_run s n' st'"] n' skip_while_ge [of ix blank_or_comma s n] by auto
  have "Suc (ixCurr st) \<le> ixCurr (pca_char s n c st1)"
    using pca_char_ix [of st1 s n c] by (simp add: st1_def)
  with f f' b e ix assms show ?thesis
    by (subst pca_run_def) (auto simp: Let_def)
qed


end
