(* ===== verification/CallSyntax.thy ===== *)
theory CallSyntax
  imports CallArgs
begin

text \<open>
  The specification of \<^const>\<open>ParseCallArguments\<close>: what strace and ltrace print. An argument is
  a bare text, a quoted string, a quoted string that the tracer truncated, or a bracketed list of
  arguments. \<open>render\<close> prints it as the tracer does, \<open>arg_value\<close> is the value the parser makes of it,
  and \<open>parse_render\<close> says that parsing undoes printing.
\<close>

datatype targ =
    TPlain string
  | TQuoted string
  | TTrunc string
  | TList bool "targ list"

fun render :: "targ \<Rightarrow> string" where
  "render (TPlain a) = a"
| "render (TQuoted a) = dquote # a @ [dquote]"
| "render (TTrunc a) = dquote # a @ dquote # ''...''"
| "render (TList square ts) =
     (if square then ''['' else ''{'') @ py_join '', '' (map render ts) @
     (if square then '']'' else ''}'')"

abbreviation render_args :: "targ list \<Rightarrow> string" where
  "render_args ts \<equiv> py_join '', '' (map render ts)"

fun arg_value :: "targ \<Rightarrow> pyval" where
  "arg_value (TPlain a) = VStr a"
| "arg_value (TQuoted a) = VStr a"
| "arg_value (TTrunc a) = VStr (a @ ''...'')"
| "arg_value (TList square ts) = VList (map arg_value ts)"

definition inert :: "char \<Rightarrow> bool" where
  "inert c \<longleftrightarrow> c \<noteq> dquote \<and> c \<noteq> backslash \<and> c \<noteq> CHR '','' \<and> c \<noteq> CHR ''('' \<and> \<not> open_bracket c \<and> \<not> closer c"

text \<open>In a quoted text, a double quote is only found after a backslash.\<close>

fun esc_ok :: "string \<Rightarrow> bool" where
  "esc_ok [] = True"
| "esc_ok [c] = (c \<noteq> backslash \<and> c \<noteq> dquote)"
| "esc_ok (c # d # s) = (if c = backslash then esc_ok s else c \<noteq> dquote \<and> esc_ok (d # s))"

fun wf_targ :: "targ \<Rightarrow> bool" where
  "wf_targ (TPlain a) = (a \<noteq> [] \<and> hd a \<noteq> CHR '' '' \<and> list_all inert a)"
| "wf_targ (TQuoted a) =
     (esc_ok a \<and> (a = [] \<or> hd a \<noteq> CHR '' '' \<and> last a \<noteq> dquote) \<and> \<not> endswith a (dquote # ''...''))"
| "wf_targ (TTrunc a) = (esc_ok a \<and> (a = [] \<or> hd a \<noteq> CHR '' ''))"
| "wf_targ (TList square ts) = list_all wf_targ ts"

fun is_list :: "targ \<Rightarrow> bool" where
  "is_list (TList square ts) = True"
| "is_list t = False"

text \<open>The recursion over the arguments and, for a bracketed one, over its elements.\<close>

fun nodes :: "targ list \<Rightarrow> nat" where
  "nodes [] = 0"
| "nodes (TList square us # ts) = Suc (nodes us + nodes ts)"
| "nodes (TPlain a # ts) = Suc (nodes ts)"
| "nodes (TQuoted a # ts) = Suc (nodes ts)"
| "nodes (TTrunc a # ts) = Suc (nodes ts)"

lemmas char_class_defs = inert_def open_bracket_def closer_def blank_or_quote_def
  blank_or_comma_def is_blank_def dquote_def backslash_def arg_tail_def

subsection \<open>The scanning loops on a known text\<close>

lemma skip_while_append:
  assumes "s = pre @ u @ v" and "\<forall>c \<in> set u. p c" and "v = [] \<or> \<not> p (hd v)"
    and "length pre + length u \<le> n" and "n \<le> length s"
  shows "skip_while p s n (length pre) = length pre + length u"
  using assms
proof (induction u arbitrary: pre)
  case Nil
  then show ?case by (subst skip_while_stop) (cases v; auto simp: nth_append)+
next
  case (Cons x u)
  from Cons.prems have "skip_while p s n (length pre) = skip_while p s n (length (pre @ [x]))"
    by (subst skip_while_go) auto
  also have "\<dots> = length (pre @ [x]) + length u"
    using Cons.prems by (intro Cons.IH) auto
  finally show ?case by simp
qed

lemma back_while_append:
  assumes "s = x @ u @ v" and "\<forall>c \<in> set u. p c" and "i \<le> length x"
    and "i = length x \<or> \<not> p (last x)"
  shows "back_while p s i (length x + length u) = length x"
  using assms
proof (induction u arbitrary: v rule: rev_induct)
  case Nil
  show ?case
  proof (cases x rule: rev_cases)
    case (snoc y c)
    with Nil show ?thesis by (auto simp: nth_append back_while.simps)
  qed (use Nil in \<open>simp add: back_while.simps\<close>)
next
  case (snoc c u)
  then have "back_while p s i (length x + length u) = length x" by simp
  with snoc.prems show ?case by (simp add: nth_append back_while.simps)
qed

lemma pca_state_upd_id [simp]:
  "ixCurr st = i \<Longrightarrow> st\<lparr>ixCurr := i\<rparr> = st"
  "inQuotes st = b \<Longrightarrow> st\<lparr>ixCurr := i, inQuotes := b\<rparr> = st\<lparr>ixCurr := i\<rparr>"
  "isEscaped st = b \<Longrightarrow> st\<lparr>ixCurr := i, isEscaped := b\<rparr> = st\<lparr>ixCurr := i\<rparr>"
  by (cases st; auto)+

lemma pca_char_inert: "inert c \<Longrightarrow> pca_char s n c st = st"
  by (auto simp: pca_char_def char_class_defs)

lemma scan_inert:
  assumes "s = pre @ a @ post" "length pre + length a \<le> n" "n \<le> length s" "list_all inert a"
    "ixCurr st = length pre" "\<not> finished st" "\<not> isEscaped st" "\<not> inQuotes st"
  shows "pca_run s n st = pca_run s n (st\<lparr>ixCurr := length pre + length a\<rparr>)"
  using assms
proof (induction a arbitrary: pre st)
  case Nil
  then show ?case by simp
next
  case (Cons c a)
  let ?st1 = "st\<lparr>ixCurr := Suc (length pre)\<rparr>"
  from Cons.prems have c: "s ! length pre = c" "inert c" by simp_all
  then have "pca_run s n st = pca_run s n ?st1"
    using Cons.prems by (subst pca_run_step) (auto simp: pca_char_inert, auto simp: inert_def)
  also have "\<dots> = pca_run s n (?st1\<lparr>ixCurr := length (pre @ [c]) + length a\<rparr>)"
    using Cons.prems by (intro Cons.IH) auto
  finally show ?case by simp
qed

lemma scan_quoted:
  assumes "s = pre @ a @ post" "length pre + length a \<le> n" "n \<le> length s" "esc_ok a"
    "ixCurr st = length pre" "\<not> finished st" "\<not> isEscaped st" "inQuotes st"
  shows "pca_run s n st = pca_run s n (st\<lparr>ixCurr := length pre + length a\<rparr>)"
  using assms
proof (induction a arbitrary: pre st rule: esc_ok.induct)
  case 1
  then show ?case by simp
next
  case (2 c)
  then show ?case by (subst pca_run_step) auto
next
  case (3 c d a)
  show ?case
  proof (cases "c = backslash")
    case False
    let ?st1 = "st\<lparr>ixCurr := Suc (length pre)\<rparr>"
    from 3 False have "pca_run s n st = pca_run s n ?st1" by (subst pca_run_step) auto
    also have "\<dots> = pca_run s n (?st1\<lparr>ixCurr := length (pre @ [c]) + length (d # a)\<rparr>)"
      using 3 False by (intro "3.IH"(2)) auto
    finally show ?thesis by simp
  next
    case True
    let ?st2 = "st\<lparr>ixCurr := Suc (Suc (length pre))\<rparr>"
    from 3 True have "pca_run s n st = pca_run s n (st\<lparr>ixCurr := Suc (length pre), isEscaped := True\<rparr>)"
      by (subst pca_run_step) auto
    also have "\<dots> = pca_run s n ?st2"
      using 3 by (subst pca_run_step) auto
    also have "\<dots> = pca_run s n (?st2\<lparr>ixCurr := length (pre @ [c, d]) + length a\<rparr>)"
      using 3 True by (intro "3.IH"(1)) auto
    finally show ?thesis by simp
  qed
qed

lemma scan_string:
  assumes "s = pre @ dquote # a @ dquote # post" "length pre + length a + 2 \<le> n" "n \<le> length s"
    "esc_ok a" "ixCurr st = length pre" "\<not> finished st" "\<not> isEscaped st" "\<not> inQuotes st"
  shows "pca_run s n st = pca_run s n (st\<lparr>ixCurr := length pre + length a + 2\<rparr>)"
proof -
  let ?q = "st\<lparr>ixCurr := Suc (length pre), inQuotes := True\<rparr>"
  from assms have "pca_run s n st = pca_run s n ?q"
    by (subst pca_run_step) (auto simp: dquote_def backslash_def)
  also have "\<dots> = pca_run s n (?q\<lparr>ixCurr := length (pre @ [dquote]) + length a\<rparr>)"
    using assms by (intro scan_quoted) auto
  also have "\<dots> = pca_run s n (st\<lparr>ixCurr := length pre + length a + 2\<rparr>)"
    using assms by (subst pca_run_step) (auto simp: dquote_def backslash_def nth_append)
  finally show ?thesis .
qed


subsection \<open>One argument\<close>

lemma scan_leaf:
  assumes "s = pre @ render t @ post" "length pre + length (render t) \<le> n" "n \<le> length s"
    "wf_targ t" "\<not> is_list t" "ixCurr st = length pre" "\<not> finished st" "\<not> isEscaped st"
    "\<not> inQuotes st"
  shows "pca_run s n st = pca_run s n (st\<lparr>ixCurr := length pre + length (render t)\<rparr>)"
proof (cases t)
  case (TPlain a)
  with assms show ?thesis by (intro scan_inert [where post = post]) auto
next
  case (TQuoted a)
  with assms scan_string [of s pre a post n st] show ?thesis by simp
next
  case (TTrunc a)
  let ?st = "st\<lparr>ixCurr := length pre + length a + 2\<rparr>"
  from TTrunc assms have "pca_run s n st = pca_run s n ?st"
    by (intro scan_string [where post = "''...'' @ post"]) auto
  also have "\<dots> = pca_run s n
      (?st\<lparr>ixCurr := length (pre @ dquote # a @ [dquote]) + length ''...''\<rparr>)"
    using TTrunc assms by (intro scan_inert [where post = post]) (auto simp: char_class_defs)
  finally show ?thesis using TTrunc by simp
qed (use assms in simp)

lemma clean_arg_inert: "list_all inert a \<Longrightarrow> clean_arg a = a"
  by (auto simp: clean_arg_def endswith_iff inert_def)

lemma clean_arg_trunc: "clean_arg (a @ dquote # ''...'') = a @ ''...''"
  by (simp add: clean_arg_def endswith_iff)

lemma esc_ok_hd: "esc_ok (c # a) \<Longrightarrow> c \<noteq> dquote"
  by (cases a) (auto simp: dquote_def backslash_def split: if_splits)

text \<open>The argument without the quotes around it: \<open>q\<close> before, \<open>r\<close> after.\<close>

lemma arg_core:
  assumes s: "s = pre @ q @ x @ r @ c # post" and q: "\<forall>d \<in> set q. blank_or_quote d"
    and r: "\<forall>d \<in> set r. d = dquote" and c: "\<not> blank_or_quote c"
    and x: "if x = [] then r = [] else \<not> blank_or_quote (hd x) \<and> last x \<noteq> dquote"
    and n: "length pre + length (q @ x @ r) < n" "n \<le> length s"
  defines "a \<equiv> skip_while blank_or_quote s n (length pre)"
  shows "take (back_while (\<lambda>c. c = dquote) s a (length pre + length (q @ x @ r)) - a) (drop a s) = x"
proof -
  have a: "a = length pre + length q"
    unfolding a_def using s q c x n
    by (intro skip_while_append [where v = "x @ r @ c # post"]) (auto split: if_splits)
  have "back_while (\<lambda>c. c = dquote) s a (length (pre @ q @ x) + length r) = length (pre @ q @ x)"
    using s r a x by (intro back_while_append [where v = "c # post"]) (auto split: if_splits)
  moreover have "drop a s = x @ r @ c # post"
    unfolding s a by simp
  ultimately show ?thesis
    by (simp add: a add.assoc)
qed

lemma arg_text:
  assumes s: "s = pre @ render t @ c # post" and wf: "wf_targ t" "\<not> is_list t"
    and c: "c = CHR '','' \<or> closer c"
    and n: "length pre + length (render t) < n" "n \<le> length s"
  defines "a \<equiv> skip_while blank_or_quote s n (length pre)"
  defines "e \<equiv> back_while (\<lambda>c. c = dquote) s a (length pre + length (render t))"
  shows "VStr (clean_arg (take (e - a) (drop a s))) = arg_value t"
proof -
  have core: "take (e - a) (drop a s) = x"
    if "render t = q @ x @ r" "\<forall>d \<in> set q. blank_or_quote d" "\<forall>d \<in> set r. d = dquote"
      "if x = [] then r = [] else \<not> blank_or_quote (hd x) \<and> last x \<noteq> dquote" for q x r
    unfolding e_def a_def that(1) using that s c n
    by (intro arg_core [where post = post and c = c]) (auto simp: char_class_defs)
  have q: "blank_or_quote dquote" "\<not> blank_or_quote (CHR ''.'')" "CHR ''.'' \<noteq> dquote"
    by (auto simp: char_class_defs)
  have hd: "\<not> blank_or_quote (hd x)" if "esc_ok x" "x \<noteq> []" "hd x \<noteq> CHR '' ''" for x
    using that esc_ok_hd [of "hd x" "tl x"] by (auto simp: blank_or_quote_def)
  show ?thesis
  proof (cases t)
    case (TPlain x)
    with wf have "x \<noteq> []" "list_all inert x" "\<not> blank_or_quote (hd x)" "last x \<noteq> dquote"
      by (auto simp: blank_or_quote_def inert_def list_all_iff)
    with core [of "[]" x "[]"] TPlain show ?thesis by (simp add: clean_arg_inert)
  next
    case (TQuoted x)
    with wf have x: "x \<noteq> [] \<Longrightarrow> \<not> blank_or_quote (hd x) \<and> last x \<noteq> dquote"
      "\<not> endswith x (dquote # ''...'')" using hd by auto
    have "take (e - a) (drop a s) = x"
      using core [of "[dquote]" x "[dquote]"] core [of "[dquote, dquote]" "[]" "[]"] TQuoted q x
      by (cases "x = []") auto
    with x TQuoted show ?thesis by (simp add: clean_arg_def)
  next
    case (TTrunc x)
    show ?thesis
    proof (cases "x = []")
      case True
      with core [of "[dquote, dquote]" "''...''" "[]"] TTrunc q show ?thesis
        by (simp add: clean_arg_def endswith_def)
    next
      case False
      with TTrunc wf hd core [of "[dquote]" "x @ dquote # ''...''" "[]"] q show ?thesis
        by (simp add: clean_arg_trunc)
    qed
  qed (use wf in simp)
qed


subsection \<open>The whole list of arguments\<close>

definition at_arg :: "pca_state \<Rightarrow> nat \<Rightarrow> bool" where
  "at_arg st p \<longleftrightarrow> ixStart st = p \<and> ixCurr st = p \<and> \<not> finished st \<and> \<not> inQuotes st \<and>
     \<not> isEscaped st \<and> levelParent st = 0"

text \<open>Where the parser stops: it passes the blanks after the bracket when a bare argument precedes it.\<close>

definition stop_index :: "string \<Rightarrow> nat \<Rightarrow> targ list \<Rightarrow> nat \<Rightarrow> nat" where
  "stop_index s n ts k = (if ts = [] \<or> is_list (last ts) then k else skip_while is_blank s n k)"

lemma pca_begin_markfree:
  assumes "\<not> contains s unfinished_mark" "p < length s" "s ! p \<noteq> CHR '' ''"
  shows "\<exists>st. pca_begin s p = (length s, st) \<and> at_arg st p \<and> theResult st = []"
proof -
  have "find_from unfinished_mark (drop p s) p = -1"
    using assms(1) find_from_contains [of unfinished_mark "drop p s" p]
    unfolding contains_iff by (metis append.assoc append_take_drop_id)
  then have "py_find_at s unfinished_mark p = -1"
    by (simp add: py_find_at_def)
  with assms show ?thesis
    by (simp add: pca_begin_def Let_def skip_while_stop is_blank_def at_arg_def)
qed

lemma render_hd:
  assumes "wf_targ t"
  shows "\<exists>d ds. render t = d # ds \<and> \<not> blank_or_comma d \<and> d \<noteq> CHR '' ''"
proof (cases t)
  case (TPlain a)
  with assms show ?thesis by (cases a) (auto simp: char_class_defs)
qed (auto simp: char_class_defs)

lemma run_close:
  assumes "at_arg st p" "s = pre @ c # post" "p = length pre" "closer c" "p < n" "n \<le> length s"
  shows "finished (pca_run s n st) \<and> ixCurr (pca_run s n st) = Suc p \<and>
    theResult (pca_run s n st) = theResult st"
proof -
  have c: "c \<noteq> backslash" "c \<noteq> dquote" "\<not> open_bracket c" "c \<noteq> CHR ''(''"
    using assms(4) by (auto simp: char_class_defs)
  let ?st = "st\<lparr>ixCurr := Suc p, levelParent := -1, finished := True\<rparr>"
  have "pca_run s n st = pca_run s n ?st"
    using assms c by (subst pca_run_step) (auto simp: at_arg_def pca_char_def)
  then show ?thesis by (simp add: pca_run_stop)
qed

lemma run_leaf:
  assumes s: "s = pre @ render t @ c # post" and wf: "wf_targ t" "\<not> is_list t"
    and c: "c = CHR '','' \<or> closer c" and n: "length pre + length (render t) < n" "n \<le> length s"
    and st: "at_arg st (length pre)"
  defines "k \<equiv> skip_while is_blank s n (Suc (length pre + length (render t)))"
  shows "\<exists>st'. pca_run s n st = pca_run s n st' \<and> theResult st' = theResult st @ [arg_value t] \<and>
    (c = CHR '','' \<longrightarrow> at_arg st' k) \<and> (closer c \<longrightarrow> finished st' \<and> ixCurr st' = k)"
proof -
  let ?q = "length pre + length (render t)"
  let ?st1 = "st\<lparr>ixCurr := ?q\<rparr>"
  let ?st2 = "st\<lparr>ixCurr := Suc ?q\<rparr>"
  have q: "s ! ?q = c" using s by (simp add: nth_append)
  have pos: "render t \<noteq> []" using render_hd [OF wf(1)] by auto
  have "pca_run s n st = pca_run s n ?st1"
    using s n wf st by (intro scan_leaf [where post = "c # post"]) (auto simp: at_arg_def)
  also have "\<dots> = pca_run s n (pca_char s n c ?st2)"
    using n st c q pos by (subst pca_run_step) (auto simp: at_arg_def char_class_defs)
  finally have run: "pca_run s n st = pca_run s n (pca_char s n c ?st2)" .
  have arg: "pca_arg s n t' = t'\<lparr>theResult := theResult st @ [arg_value t], ixCurr := k, ixStart := k\<rparr>"
    if "ixStart t' = length pre" "ixCurr t' = Suc ?q" "theResult t' = theResult st" for t'
    using that arg_text [OF s wf c n] by (simp add: pca_arg_def Let_def k_def)
  show ?thesis
  proof (cases "closer c")
    case True
    then have "c \<noteq> CHR '',''" "\<not> open_bracket c" "c \<noteq> CHR ''(''" by (auto simp: char_class_defs)
    with True run st arg pos show ?thesis
      by (auto simp: pca_char_def at_arg_def Let_def)
  next
    case False
    with c have "c = CHR '',''" "\<not> open_bracket c" "c \<noteq> CHR ''(''" by (auto simp: char_class_defs)
    with False run st arg show ?thesis
      by (auto simp: pca_char_def at_arg_def)
  qed
qed

lemma render_args_Cons:
  "render_args (t # ts) = render t @ (if ts = [] then [] else '', '' @ render_args ts)"
  by (cases ts) simp_all

lemma render_args_not_Nil:
  "list_all wf_targ ts \<Longrightarrow> ts \<noteq> [] \<Longrightarrow>
   \<exists>d ds. render_args ts = d # ds \<and> \<not> blank_or_comma d \<and> d \<noteq> CHR '' ''"
proof (cases ts)
  case (Cons t us)
  assume "list_all wf_targ ts"
  with Cons have "wf_targ t" by simp
  from render_hd [OF this] Cons show ?thesis by (cases us) auto
qed simp

lemma first_after:
  assumes "list_all wf_targ ts" "closer c"
  shows "\<exists>d ds. render_args ts @ c # post = d # ds \<and> \<not> blank_or_comma d \<and> d \<noteq> CHR '' ''"
proof (cases "ts = []")
  case True
  with assms(2) show ?thesis by (auto simp: char_class_defs)
next
  case False
  from render_args_not_Nil [OF assms(1) this] show ?thesis by auto
qed


definition parses :: "targ list \<Rightarrow> bool" where
  "parses ts \<longleftrightarrow> (\<forall>s pre c post n st.
     s = pre @ render_args ts @ c # post \<and> closer c \<and> length pre + length (render_args ts) < n \<and>
     n \<le> length s \<and> \<not> contains s unfinished_mark \<and> at_arg st (length pre) \<longrightarrow>
     finished (pca_run s n st) \<and> theResult (pca_run s n st) = theResult st @ map arg_value ts \<and>
     ixCurr (pca_run s n st) = stop_index s n ts (Suc (length pre + length (render_args ts))))"

lemma parsesD:
  assumes "parses ts" "s = pre @ render_args ts @ c # post" "closer c"
    "length pre + length (render_args ts) < n" "n \<le> length s" "\<not> contains s unfinished_mark"
    "at_arg st (length pre)"
  shows "finished (pca_run s n st) \<and> theResult (pca_run s n st) = theResult st @ map arg_value ts \<and>
    ixCurr (pca_run s n st) = stop_index s n ts (Suc (length pre + length (render_args ts)))"
  using assms unfolding parses_def by blast

lemma parses_Nil: "parses []"
  using run_close by (auto simp: parses_def stop_index_def)

lemma parses_leaf:
  assumes t: "wf_targ t" "\<not> is_list t" and ts: "list_all wf_targ ts" and IH: "parses ts"
  shows "parses (t # ts)"
proof (unfold parses_def, intro allI impI, elim conjE)
  fix s pre c post n st
  assume prems: "s = pre @ render_args (t # ts) @ c # post" "closer c"
    "length pre + length (render_args (t # ts)) < n" "n \<le> length s"
    "\<not> contains s unfinished_mark" "at_arg st (length pre)"
  show "finished (pca_run s n st) \<and> theResult (pca_run s n st) = theResult st @ map arg_value (t # ts) \<and>
    ixCurr (pca_run s n st) = stop_index s n (t # ts) (Suc (length pre + length (render_args (t # ts))))"
  proof (cases "ts = []")
    case True
    with prems run_leaf [of s pre t c post n st] t show ?thesis
      by (auto simp: stop_index_def pca_run_stop)
  next
    case False
    let ?post = "CHR '' '' # render_args ts @ c # post"
    have s: "s = pre @ render t @ CHR '','' # ?post"
      using prems(1) False by (simp add: py_join_Cons)
    let ?pre = "pre @ render t @ [CHR '','']"
    let ?k = "length ?pre + 1"
    obtain d ds where d: "render_args ts @ c # post = d # ds" "\<not> blank_or_comma d"
      using first_after [OF ts prems(2)] by metis
    have "skip_while is_blank s n (length ?pre) = length ?pre + length '' ''"
      using s d prems(3,4) False
      by (intro skip_while_append [where v = "d # ds"])
        (auto simp: is_blank_def blank_or_comma_def py_join_Cons)
    then obtain st' where st': "pca_run s n st = pca_run s n st'"
      "theResult st' = theResult st @ [arg_value t]" "at_arg st' ?k"
      using run_leaf [OF s t _ _ prems(4,6)] prems(3) False by (auto simp: py_join_Cons)
    have "finished (pca_run s n st') \<and> theResult (pca_run s n st') = theResult st' @ map arg_value ts \<and>
      ixCurr (pca_run s n st') =
        stop_index s n ts (Suc (length (?pre @ '' '') + length (render_args ts)))"
      using s prems st'(3) False by (intro parsesD [OF IH]) (auto simp: py_join_Cons)
    with st' False show ?thesis by (simp add: py_join_Cons stop_index_def add.assoc)
  qed
qed

lemma parses_list:
  assumes us: "list_all wf_targ us" and ts: "list_all wf_targ ts"
    and IHu: "parses us" and IHt: "parses ts"
  shows "parses (TList square us # ts)"
proof (unfold parses_def, intro allI impI, elim conjE)
  fix s pre c post n st
  assume prems0: "s = pre @ render_args (TList square us # ts) @ c # post" "closer c"
    "length pre + length (render_args (TList square us # ts)) < n" "n \<le> length s"
    "\<not> contains s unfinished_mark" "at_arg st (length pre)"
  note prems = us prems0
  let ?c' = "if square then CHR '']'' else CHR ''}''"
  let ?rest = "(if ts = [] then [] else '', '' @ render_args ts) @ c # post"
  let ?o = "if square then CHR ''['' else CHR ''{''"
  let ?p = "Suc (length pre)"
  have s: "s = (pre @ [?o]) @ render_args us @ ?c' # ?rest"
    using prems(2) by (simp add: py_join_Cons)
  have c': "closer ?c'" by (simp add: closer_def)
  from first_after [OF us c'] obtain d ds where
    d: "render_args us @ ?c' # ?rest = d # ds" "d \<noteq> CHR '' ''" by metis
  have sp: "s ! ?p = d" "?p < length s" using s d(1) by (simp_all add: nth_append)
  obtain st' where b: "pca_begin s ?p = (length s, st')" "at_arg st' ?p" "theResult st' = []"
    using pca_begin_markfree [of s ?p] prems(6) sp d(2) by auto
  let ?r = "pca_run s (length s) st'"
  let ?e = "Suc (?p + length (render_args us))"
  have se: "s = (pre @ ?o # render_args us @ [?c']) @ ?rest" and
    le: "length (pre @ ?o # render_args us @ [?c']) = ?e" using s by simp_all
  have r: "finished ?r" "theResult ?r = map arg_value us"
    "ixCurr ?r = stop_index s (length s) us ?e"
    using parsesD [OF IHu, of s "pre @ [?o]" ?c' ?rest "length s" st'] us s c' b prems(6) by auto
  have "stop_index s (length s) us ?e = ?e"
    using skip_while_append [of s "pre @ ?o # render_args us @ [?c']" "[]" ?rest is_blank "length s"]
      se le prems(3) by (auto simp: stop_index_def is_blank_def closer_def)
  with r have e: "pca_end s (length s) ?r = (map arg_value us, ?e)"
    by (simp add: pca_end_def)
  let ?sep = "if ts = [] then [] else '', ''"
  let ?q = "?e + length ?sep"
  obtain d' ds' where d': "render_args ts @ c # post = d' # ds'" "\<not> blank_or_comma d'"
    using first_after [OF ts prems(3)] by metis
  have "skip_while blank_or_comma s n (length (pre @ ?o # render_args us @ [?c'])) =
      length (pre @ ?o # render_args us @ [?c']) + length ?sep"
    using se d' prems(4,5) le
    by (intro skip_while_append [where v = "d' # ds'"])
      (auto simp: blank_or_comma_def py_join_Cons split: if_splits)
  then have skip: "skip_while blank_or_comma s n ?e = ?q" unfolding le .
  let ?st = "st\<lparr>theResult := theResult st @ [VList (map arg_value us)], ixStart := ?q, ixCurr := ?q\<rparr>"
  have "s ! length pre = ?o" using s by (simp add: nth_append)
  then have run: "pca_run s n st = pca_run s n ?st"
    using prems(4,5,7) b(1) e skip
    by (subst pca_run_step) (auto simp: at_arg_def char_class_defs py_join_Cons Let_def)
  let ?pre = "pre @ ?o # render_args us @ ?c' # ?sep"
  have lp: "length ?pre = ?q" by simp
  have "at_arg ?st (length ?pre)" using prems(7) lp by (simp add: at_arg_def)
  then have IH: "finished (pca_run s n ?st) \<and>
      theResult (pca_run s n ?st) = theResult ?st @ map arg_value ts \<and>
      ixCurr (pca_run s n ?st) = stop_index s n ts (Suc (length ?pre + length (render_args ts)))"
    using prems ts s by (intro parsesD [OF IHt]) (auto simp: py_join_Cons split: if_splits)
  moreover have "stop_index s n ts k = stop_index s n (TList square us # ts) k" for k
    by (simp add: stop_index_def)
  ultimately show "finished (pca_run s n st) \<and>
    theResult (pca_run s n st) = theResult st @ map arg_value (TList square us # ts) \<and>
    ixCurr (pca_run s n st) = stop_index s n (TList square us # ts)
      (Suc (length pre + length (render_args (TList square us # ts))))" unfolding run
    by (cases square; cases "ts = []") (simp_all add: py_join_Cons add.assoc)
qed

lemma parses_all: "list_all wf_targ ts \<Longrightarrow> parses ts"
proof (induction ts rule: nodes.induct)
  case 1
  show ?case by (rule parses_Nil)
next
  case (2 square us ts)
  then show ?case by (simp add: parses_list)
next
  case (3 a ts)
  then show ?case by (intro parses_leaf) auto
next
  case (4 a ts)
  then show ?case by (intro parses_leaf) auto
next
  case (5 a ts)
  then show ?case by (intro parses_leaf) auto
qed

subsection \<open>The properties of the parser\<close>

lemma parse_args:
  assumes "list_all wf_targ ts" "closer c" "s = pre @ render_args ts @ c # post"
    "\<not> contains s unfinished_mark"
  shows "ParseCallArguments s (length pre) =
    Some (map arg_value ts, stop_index s (length s) ts (Suc (length pre + length (render_args ts))))"
proof -
  obtain d ds where d: "render_args ts @ c # post = d # ds" "d \<noteq> CHR '' ''"
    using first_after [OF assms(1,2)] by metis
  with assms(3) have "length pre < length s" "s ! length pre = d" by simp_all
  with pca_begin_markfree [OF assms(4)] d(2) obtain st where
    b: "pca_begin s (length pre) = (length s, st)" "at_arg st (length pre)" "theResult st = []"
    by metis
  have "finished (pca_run s (length s) st) \<and>
    theResult (pca_run s (length s) st) = theResult st @ map arg_value ts \<and>
    ixCurr (pca_run s (length s) st) =
      stop_index s (length s) ts (Suc (length pre + length (render_args ts)))"
    using assms b(2) by (intro parsesD [OF parses_all]) auto
  with b show ?thesis by (simp add: ParseCallArguments_run pca_end_def)
qed

text \<open>
  C12. Parsing undoes printing: on a list of well-formed arguments (bare texts, quoted and truncated
  strings, nested bracketed lists of them) printed by the tracer and followed by a closing bracket,
  the parser returns exactly the values of the arguments, nested as they were printed, and stops
  after the bracket.
\<close>

theorem parse_render:
  assumes "list_all wf_targ ts" "closer c" "\<not> contains (pre @ render_args ts @ c # post) unfinished_mark"
  shows "\<exists>k. ParseCallArguments (pre @ render_args ts @ c # post) (length pre) = Some (map arg_value ts, k) \<and>
    length pre + length (render_args ts) < k"
  using parse_args [OF assms(1,2) refl assms(3)]
    skip_while_ge [of "Suc (length pre + length (render_args ts))" is_blank]
  by (auto simp: stop_index_def Suc_le_eq)

theorem parse_render_witness:
  "\<exists>k. ParseCallArguments
      (''execve('' @ render_args [TQuoted ''/bin/ls'', TList True [TQuoted ''ls'', TTrunc ''a, b''], TPlain ''0x7f'']
        @ CHR '')'' # '' = 0'') (length ''execve('') =
      Some ([VStr ''/bin/ls'', VList [VStr ''ls'', VStr ''a, b...''], VStr ''0x7f''], k) \<and>
    length ''execve('' + length (render_args
      [TQuoted ''/bin/ls'', TList True [TQuoted ''ls'', TTrunc ''a, b''], TPlain ''0x7f'']) < k"
  using parse_render [of "[TQuoted ''/bin/ls'', TList True [TQuoted ''ls'', TTrunc ''a, b''], TPlain ''0x7f'']"
      "CHR '')''" "''execve(''" "'' = 0''"]
  by (simp add: char_class_defs endswith_def contains_def py_find_def)

text \<open>
  The parser always terminates: from any index of any text it returns, and the index it returns
  is not before the one it starts from.
\<close>

theorem ParseCallArguments_total: "\<exists>r k. ParseCallArguments s i = Some (r, k) \<and> i \<le> k"
proof -
  obtain n st where b: "pca_begin s i = (n, st)" by force
  from pca_loop_total [of n s "Suc (length s)" st] pca_begin_le [OF b] obtain st' where
    "pca_loop (Suc (length s)) s n st = Some st'" "ixCurr st \<le> ixCurr st'" by auto
  with b pca_begin_ix [OF b] pca_end_ix [of s n st'] show ?thesis
    unfolding ParseCallArguments_def by (cases "pca_end s n st'") auto
qed

end
