(* ===== verification/Buffers.thy ===== *)
theory Buffers
  imports PyValue
begin

text \<open>
  The buffers that a process reads and writes: \<^verbatim>\<open>DecodeOctalEscapeSequence\<close>, which undoes the
  escapes of the tracer, and the class \<^verbatim>\<open>BufferConcatenator\<close>, which glues the fragments of a
  message and gives every complete buffer to the scanners of \<^verbatim>\<open>BufferScanners\<close>. A scanner is a
  function from a buffer to a list of texts; the scanners are a parameter here, as they are a
  global dictionary there.
\<close>

subsection \<open>Escape sequences\<close>

text \<open>The codec \<open>string_escape\<close> of Python 2; \<open>None\<close> is its ValueError.\<close>

definition octal_val :: "char \<Rightarrow> nat option" where
  "octal_val c = (let n = of_char c :: nat in if 48 \<le> n \<and> n \<le> 55 then Some (n - 48) else None)"

fun take_octal :: "nat \<Rightarrow> nat \<Rightarrow> string \<Rightarrow> nat \<times> string" where
  "take_octal 0 acc s = (acc, s)"
| "take_octal (Suc k) acc [] = (acc, [])"
| "take_octal (Suc k) acc (c # s) =
     (case octal_val c of None \<Rightarrow> (acc, c # s) | Some d \<Rightarrow> take_octal k (acc * 8 + d) s)"

definition hex_val :: "char \<Rightarrow> nat option" where
  "hex_val c = (case digit_val c of None \<Rightarrow> None | Some d \<Rightarrow> if d < 16 then Some d else None)"

definition simple_escape :: "char \<Rightarrow> char option" where
  "simple_escape c =
     (if c = CHR 0x5C \<or> c = CHR 0x27 \<or> c = CHR 0x22 then Some c
      else if c = CHR ''b'' then Some (CHR 0x08)
      else if c = CHR ''f'' then Some (CHR 0x0C)
      else if c = CHR ''t'' then Some (CHR 0x09)
      else if c = CHR ''n'' then Some (CHR 0x0A)
      else if c = CHR ''r'' then Some (CHR 0x0D)
      else if c = CHR ''v'' then Some (CHR 0x0B)
      else if c = CHR ''a'' then Some (CHR 0x07)
      else None)"

lemma take_octal_length: "length (snd (take_octal k acc s)) \<le> length s"
  by (induction k acc s rule: take_octal.induct) (auto split: option.splits)

function DecodeOctalEscapeSequence :: "string \<Rightarrow> string option" where
  "DecodeOctalEscapeSequence [] = Some []"
| "DecodeOctalEscapeSequence (c # s) =
     (if c \<noteq> CHR 0x5C then map_option ((#) c) (DecodeOctalEscapeSequence s)
      else (case s of
          [] \<Rightarrow> None
        | d # r \<Rightarrow>
            if d = CHR 0x0A then DecodeOctalEscapeSequence r
            else (case simple_escape d of
                Some e \<Rightarrow> map_option ((#) e) (DecodeOctalEscapeSequence r)
              | None \<Rightarrow>
                  (case octal_val d of
                     Some n \<Rightarrow>
                       map_option ((#) (char_of (fst (take_octal 2 n r))))
                         (DecodeOctalEscapeSequence (snd (take_octal 2 n r)))
                   | None \<Rightarrow>
                       if d = CHR ''x'' then
                         (case r of
                            h1 # h2 # r' \<Rightarrow>
                              (case (hex_val h1, hex_val h2) of
                                 (Some m, Some n) \<Rightarrow>
                                   map_option ((#) (char_of (m * 16 + n))) (DecodeOctalEscapeSequence r')
                               | _ \<Rightarrow> None)
                          | _ \<Rightarrow> None)
                       else map_option (\<lambda>t. c # d # t) (DecodeOctalEscapeSequence r)))))"
  by pat_completeness auto
termination
  by (relation "measure length")
    (auto intro!: le_imp_less_Suc le_SucI take_octal_length)

declare DecodeOctalEscapeSequence.simps(2) [simp del]

text \<open>A byte as three octal digits after a backslash, as the tracers write it.\<close>

definition octal_escape :: "char \<Rightarrow> string" where
  "octal_escape c =
     (let n = of_char c :: nat
      in [CHR 0x5C, digit_char (n div 64), digit_char (n div 8 mod 8), digit_char (n mod 8)])"

lemma octal_val_digit [simp]: "d < 8 \<Longrightarrow> octal_val (digit_char d) = Some d"
  by (simp add: octal_val_def digit_char_def)

lemma digit_char_not_escape:
  assumes "d < 8"
  shows "digit_char d \<noteq> CHR 0x0A" "simple_escape (digit_char d) = None"
proof -
  have n: "of_char (digit_char d) = 48 + d" using assms by (simp add: digit_char_def)
  show "digit_char d \<noteq> CHR 0x0A" using n by (auto dest!: arg_cong [where f = "of_char :: char \<Rightarrow> nat"])
  have "digit_char d \<noteq> c" if "of_char c < (48::nat) \<or> (56::nat) \<le> of_char c" for c
    using n that assms by (auto dest!: arg_cong [where f = "of_char :: char \<Rightarrow> nat"])
  then show "simple_escape (digit_char d) = None" by (simp add: simple_escape_def)
qed

lemma take_octal_escape:
  "a < 8 \<Longrightarrow> b < 8 \<Longrightarrow> take_octal 2 n (digit_char a # digit_char b # s) = ((n * 8 + a) * 8 + b, s)"
  by (simp add: numeral_2_eq_2)

lemma three_octal_digits: "(n div 64 * 8 + n div 8 mod 8) * 8 + n mod 8 = (n::nat)"
proof -
  have "n div 64 = n div 8 div 8" by (simp add: div_mult2_eq [symmetric])
  then have "n div 64 * 8 + n div 8 mod 8 = n div 8" by simp
  then show ?thesis by simp
qed

lemma decode_octal_escape:
  "DecodeOctalEscapeSequence (octal_escape c @ s) = map_option ((#) c) (DecodeOctalEscapeSequence s)"
proof -
  define n where "n = (of_char c :: nat)"
  have "n < 8 * 64" unfolding n_def by (rule less_trans [OF nat_of_char_less_256]) simp
  then have l: "n div 64 < 8" by (rule less_mult_imp_div_less)
  have l2: "n div 8 mod 8 < 8" "n mod 8 < 8" by simp_all
  have t: "take_octal 2 (n div 64) (digit_char (n div 8 mod 8) # digit_char (n mod 8) # s) = (n, s)"
    using take_octal_escape [OF l2] three_octal_digits [of n] by simp
  have e: "octal_escape c =
      CHR 0x5C # digit_char (n div 64) # digit_char (n div 8 mod 8) # [digit_char (n mod 8)]"
    by (simp add: octal_escape_def n_def Let_def)
  have c: "char_of n = c" by (simp add: n_def)
  show ?thesis
    unfolding e append_Cons append_Nil DecodeOctalEscapeSequence.simps(2)
    using l by (simp add: digit_char_not_escape t c)
qed

lemma decode_octal_escapes:
  "DecodeOctalEscapeSequence (concat (map octal_escape s)) = Some s"
  by (induction s) (simp_all add: decode_octal_escape)

lemma decode_plain:
  "CHR 0x5C \<notin> set s \<Longrightarrow> DecodeOctalEscapeSequence s = Some s"
  by (induction s) (auto simp: DecodeOctalEscapeSequence.simps(2))

subsection \<open>Gluing the fragments\<close>

record bufconcat =
  m_currentBuffer :: "string option"
  m_parsedData :: "(string \<times> string list) list option"

type_synonym scanners = "(string \<times> (string \<Rightarrow> string list)) list"

definition BufferConcatenator_init :: bufconcat where
  "BufferConcatenator_init = \<lparr>m_currentBuffer = None, m_parsedData = None\<rparr>"

definition add_results :: "string \<Rightarrow> string list \<Rightarrow> bufconcat \<Rightarrow> bufconcat" where
  "add_results key res b =
     (if res = [] then b
      else (let d = (case m_parsedData b of None \<Rightarrow> [] | Some d \<Rightarrow> d);
                old = (case map_of d key of None \<Rightarrow> [] | Some l \<Rightarrow> l)
            in b\<lparr>m_parsedData := Some (AList.update key (old @ res) d)\<rparr>))"

definition AnalyseCompleteBuffer :: "scanners \<Rightarrow> string \<Rightarrow> bufconcat \<Rightarrow> bufconcat" where
  "AnalyseCompleteBuffer scs buf b = fold (\<lambda>(key, scan) b. add_results key (scan buf) b) scs b"

definition HasParsedData :: "bufconcat \<Rightarrow> bool" where
  "HasParsedData b = (m_parsedData b \<noteq> None)"

definition isSegment :: "int \<Rightarrow> bool" where
  "isSegment sz \<longleftrightarrow>
     (sz mod 0x100 = 0 \<and> sz \<le> 0x1000) \<or> (sz mod 0x1000 = 0 \<and> sz \<le> 0x10000) \<or>
     (sz mod 0x10000 = 0 \<and> sz \<le> 0x100000) \<or> sz mod 0x100000 = 0"

definition append_decoded :: "scanners \<Rightarrow> string \<Rightarrow> int \<Rightarrow> bufconcat \<Rightarrow> bufconcat" where
  "append_decoded scs decodedFragment szFragment b =
     (if isSegment szFragment \<and> szFragment = int (length decodedFragment) then
        (case m_currentBuffer b of
           None \<Rightarrow> b\<lparr>m_currentBuffer := Some decodedFragment\<rparr>
         | Some cur \<Rightarrow>
             b\<lparr>m_currentBuffer := Some (if cur \<noteq> [] then cur @ decodedFragment else decodedFragment)\<rparr>)
      else
        (let b' = (case m_currentBuffer b of
                     None \<Rightarrow> b
                   | Some cur \<Rightarrow>
                       if cur \<noteq> [] then (AnalyseCompleteBuffer scs cur b)\<lparr>m_currentBuffer := None\<rparr> else b)
         in AnalyseCompleteBuffer scs decodedFragment b'))"

text \<open>The fragment is a text, decoded first; \<open>decode\<close> is no method of a list.\<close>

definition AppendIOBuffer :: "scanners \<Rightarrow> pyval \<Rightarrow> int \<Rightarrow> bufconcat \<Rightarrow> bufconcat pyres" where
  "AppendIOBuffer scs aFragment szFragment b =
     (case aFragment of
        VStr s \<Rightarrow>
          (case DecodeOctalEscapeSequence s of
             None \<Rightarrow> Inl ValueError
           | Some d \<Rightarrow> Inr (append_decoded scs d szFragment b))
      | _ \<Rightarrow> Inl AttributeError)"

definition ParsedDataToXML :: "string \<Rightarrow> string \<Rightarrow> bufconcat \<Rightarrow> string" where
  "ParsedDataToXML margin direction b =
     (let submargin = margin @ ''    '' in
      concat (map (\<lambda>(scannerKey, scannerVal).
        margin @ ''<'' @ scannerKey @ ''_List direction='' @ [CHR 0x27] @ direction @ [CHR 0x27] @ ''>'' @ [CHR 0x0A]
        @ concat (map (\<lambda>scanResult.
            submargin @ ''<'' @ scannerKey @ ''>'' @ scanResult @ ''</'' @ scannerKey @ ''>'' @ [CHR 0x0A]) scannerVal)
        @ margin @ ''</'' @ scannerKey @ ''_List>'' @ [CHR 0x0A])
      (case m_parsedData b of None \<Rightarrow> [] | Some d \<Rightarrow> d)))"

subsection \<open>What is analysed\<close>

text \<open>
  The specification of the gluing: the complete buffers, in order, and what is left pending. A
  fragment that has the size of a full block waits for the next one.
\<close>

fun glue :: "string \<Rightarrow> (string \<times> int) list \<Rightarrow> string list \<times> string" where
  "glue pending [] = ([], pending)"
| "glue pending ((d, sz) # fs) =
     (if isSegment sz \<and> sz = int (length d) then glue (pending @ d) fs
      else (case glue [] fs of (bs, p) \<Rightarrow>
        ((if pending = [] then [] else [pending]) @ d # bs, p)))"

definition append_all :: "scanners \<Rightarrow> (string \<times> int) list \<Rightarrow> bufconcat \<Rightarrow> bufconcat" where
  "append_all scs fs b = fold (\<lambda>(d, sz) b. append_decoded scs d sz b) fs b"

definition pending :: "bufconcat \<Rightarrow> string" where
  "pending b = (case m_currentBuffer b of None \<Rightarrow> [] | Some c \<Rightarrow> c)"

lemma add_results_current [simp]: "m_currentBuffer (add_results k r b) = m_currentBuffer b"
  by (simp add: add_results_def Let_def)

lemma add_results_set_current [simp]:
  "(add_results k r b)\<lparr>m_currentBuffer := c\<rparr> = add_results k r (b\<lparr>m_currentBuffer := c\<rparr>)"
  by (simp add: add_results_def Let_def)

lemma analyse_current [simp]: "m_currentBuffer (AnalyseCompleteBuffer scs buf b) = m_currentBuffer b"
  unfolding AnalyseCompleteBuffer_def by (induction scs arbitrary: b) auto

lemma analyse_set_current [simp]:
  "(AnalyseCompleteBuffer scs buf b)\<lparr>m_currentBuffer := c\<rparr> =
   AnalyseCompleteBuffer scs buf (b\<lparr>m_currentBuffer := c\<rparr>)"
  unfolding AnalyseCompleteBuffer_def by (induction scs arbitrary: b) auto

lemma add_results_parsed:
  "m_parsedData b = m_parsedData b' \<Longrightarrow>
   m_parsedData (add_results k r b) = m_parsedData (add_results k r b')"
  by (simp add: add_results_def Let_def)

lemma analyse_parsed:
  assumes "m_parsedData b = m_parsedData b'"
  shows "m_parsedData (AnalyseCompleteBuffer scs buf b) = m_parsedData (AnalyseCompleteBuffer scs buf b')"
  using assms unfolding AnalyseCompleteBuffer_def
proof (induction scs arbitrary: b b')
  case (Cons sc scs)
  show ?case
    using Cons.IH [OF add_results_parsed [OF Cons.prems, of "fst sc" "snd sc buf"]]
    by (simp add: case_prod_beta)
qed simp

lemma fold_analyse_parsed:
  assumes "m_parsedData b = m_parsedData b'"
  shows "m_parsedData (fold (AnalyseCompleteBuffer scs) bs b) =
   m_parsedData (fold (AnalyseCompleteBuffer scs) bs b')"
  using assms
proof (induction bs arbitrary: b b')
  case (Cons buf bs)
  show ?case
    using Cons.IH [OF analyse_parsed [OF Cons.prems, of scs buf]] by simp
qed simp

text \<open>The concatenator analyses exactly the buffers of the specification, and keeps the rest.\<close>

lemma append_all_glue:
  "m_parsedData (append_all scs fs b) =
     m_parsedData (fold (AnalyseCompleteBuffer scs) (fst (glue (pending b) fs)) b) \<and>
   pending (append_all scs fs b) = snd (glue (pending b) fs)"
proof (induction fs arbitrary: b)
  case Nil
  show ?case by (simp add: append_all_def)
next
  case (Cons f fs)
  obtain d sz where f: "f = (d, sz)" by force
  let ?b = "append_decoded scs d sz b"
  have all: "append_all scs (f # fs) b = append_all scs fs ?b" by (simp add: append_all_def f)
  show ?case
  proof (cases "isSegment sz \<and> sz = int (length d)")
    case True
    then have b: "pending ?b = pending b @ d" "m_parsedData ?b = m_parsedData b"
      by (auto simp: append_decoded_def pending_def split: option.splits)
    have g: "glue (pending b) (f # fs) = glue (pending ?b) fs"
      by (simp only: f glue.simps if_P [OF True] b(1))
    show ?thesis
      unfolding all g using Cons.IH [of ?b] fold_analyse_parsed [OF b(2)] by metis
  next
    case False
    have b: "m_parsedData ?b = m_parsedData (fold (AnalyseCompleteBuffer scs)
        ((if pending b = [] then [] else [pending b]) @ [d]) b)" "pending ?b = []"
      using False
      by (auto simp: append_decoded_def pending_def Let_def intro!: analyse_parsed split: option.splits)
    have g: "glue (pending b) (f # fs) =
        ((if pending b = [] then [] else [pending b]) @ d # fst (glue [] fs), snd (glue [] fs))"
      by (simp only: f glue.simps if_not_P [OF False] case_prod_beta)
    have "m_parsedData (append_all scs fs ?b) =
        m_parsedData (fold (AnalyseCompleteBuffer scs) (fst (glue [] fs)) ?b) \<and>
      pending (append_all scs fs ?b) = snd (glue [] fs)"
      using Cons.IH [of ?b] b(2) by simp
    moreover note fold_analyse_parsed [OF b(1), of scs "fst (glue [] fs)"]
    ultimately show ?thesis unfolding all g by simp
  qed
qed

lemma glue_concat: "concat (fst (glue p fs)) @ snd (glue p fs) = p @ concat (map fst fs)"
  by (induction p fs rule: glue.induct) (auto split: prod.splits)

end
