(* ===== verification/PyRegex.thy ===== *)
theory PyRegex
  imports PyBase
begin

text \<open>
  The regular expressions of the program. Each of them is a sequence of characters and character
  classes, some under \<open>*\<close>, \<open>+\<close>, \<open>?\<close> or the lazy \<open>*?\<close>, with groups around some of them. A
  regular expression is the list of its atoms, and a match is the list of the texts the atoms
  took, from which the groups are read. The order in which \<open>rmatch\<close> tries the alternatives is the
  one of Python's \<open>re\<close>: a star takes as much as it can and gives back, a lazy star as little, an
  optional character is taken when it can be.
\<close>

datatype ratom =
    One "char \<Rightarrow> bool"
  | Star "char \<Rightarrow> bool"
  | Lazy "char \<Rightarrow> bool"
  | Opt "char \<Rightarrow> bool"

type_synonym regex = "ratom list"

definition not_newline :: "char \<Rightarrow> bool" where
  "not_newline c \<longleftrightarrow> c \<noteq> CHR 0x0A"

text \<open>\<open>[0-9a-zA-Z_]\<close>.\<close>

definition word_char :: "char \<Rightarrow> bool" where
  "word_char c \<longleftrightarrow>
     (let n = of_char c :: nat in (48 \<le> n \<and> n \<le> 57) \<or> (97 \<le> n \<and> n \<le> 122) \<or> (65 \<le> n \<and> n \<le> 90) \<or> n = 95)"

definition lit :: "string \<Rightarrow> regex" where
  "lit p = map (\<lambda>c. One (\<lambda>x. x = c)) p"

abbreviation dot_star :: ratom where
  "dot_star \<equiv> Star not_newline"

text \<open>\<open>re.match(r, s)\<close>: the match is at the start of the string, not up to its end.\<close>

fun rmatch :: "regex \<Rightarrow> string \<Rightarrow> string list option" where
  "rmatch [] s = Some []"
| "rmatch (One c # r) s =
     (case s of
        [] \<Rightarrow> None
      | x # xs \<Rightarrow> if c x then map_option (\<lambda>ps. [x] # ps) (rmatch r xs) else None)"
| "rmatch (Star c # r) [] = map_option (\<lambda>ps. [] # ps) (rmatch r [])"
| "rmatch (Star c # r) (x # xs) =
     (case (if c x then rmatch (Star c # r) xs else None) of
        Some (p # ps) \<Rightarrow> Some ((x # p) # ps)
      | _ \<Rightarrow> map_option (\<lambda>ps. [] # ps) (rmatch r (x # xs)))"
| "rmatch (Lazy c # r) [] = map_option (\<lambda>ps. [] # ps) (rmatch r [])"
| "rmatch (Lazy c # r) (x # xs) =
     (case rmatch r (x # xs) of
        Some ps \<Rightarrow> Some ([] # ps)
      | None \<Rightarrow>
          (case (if c x then rmatch (Lazy c # r) xs else None) of
             Some (p # ps) \<Rightarrow> Some ((x # p) # ps)
           | _ \<Rightarrow> None))"
| "rmatch (Opt c # r) [] = map_option (\<lambda>ps. [] # ps) (rmatch r [])"
| "rmatch (Opt c # r) (x # xs) =
     (case (if c x then rmatch r xs else None) of
        Some ps \<Rightarrow> Some ([x] # ps)
      | None \<Rightarrow> map_option (\<lambda>ps. [] # ps) (rmatch r (x # xs)))"

definition re_match :: "regex \<Rightarrow> string \<Rightarrow> bool" where
  "re_match r s \<longleftrightarrow> rmatch r s \<noteq> None"

text \<open>\<open>re.search(r, s)\<close>: the first position with a match.\<close>

fun rsearch :: "regex \<Rightarrow> string \<Rightarrow> string list option" where
  "rsearch r [] = rmatch r []"
| "rsearch r (x # xs) = (case rmatch r (x # xs) of Some ps \<Rightarrow> Some ps | None \<Rightarrow> rsearch r xs)"

text \<open>What a match means: the texts of the atoms, one after the other, start the string.\<close>

fun atom_ok :: "ratom \<Rightarrow> string \<Rightarrow> bool" where
  "atom_ok (One c) p \<longleftrightarrow> (\<exists>x. p = [x] \<and> c x)"
| "atom_ok (Star c) p \<longleftrightarrow> (\<forall>x \<in> set p. c x)"
| "atom_ok (Lazy c) p \<longleftrightarrow> (\<forall>x \<in> set p. c x)"
| "atom_ok (Opt c) p \<longleftrightarrow> p = [] \<or> (\<exists>x. p = [x] \<and> c x)"

definition parts_ok :: "regex \<Rightarrow> string list \<Rightarrow> bool" where
  "parts_ok r ps \<longleftrightarrow> list_all2 atom_ok r ps"

lemma parts_ok_simps [simp]:
  "parts_ok [] ps \<longleftrightarrow> ps = []"
  "parts_ok (a # r) ps \<longleftrightarrow> (\<exists>p qs. ps = p # qs \<and> atom_ok a p \<and> parts_ok r qs)"
  by (auto simp: parts_ok_def list_all2_Cons1)

lemma rmatch_sound: "rmatch r s = Some ps \<Longrightarrow> parts_ok r ps \<and> startswith s (concat ps)"
proof (induction r s arbitrary: ps rule: rmatch.induct)
  case (4 c r x xs)
  then show ?case by (fastforce split: option.splits list.splits if_splits)
next
  case (6 c r x xs)
  then show ?case by (fastforce split: option.splits list.splits if_splits)
next
  case (8 c r x xs)
  then show ?case by (fastforce split: option.splits list.splits if_splits)
qed (fastforce split: list.splits if_splits)+

lemma rmatch_not_Nil: "rmatch (a # r) s \<noteq> Some []"
  using rmatch_sound [of "a # r" s "[]"] by auto

lemma rmatch_star:
  "\<forall>x \<in> set p. c x \<Longrightarrow> rmatch r u \<noteq> None \<Longrightarrow> rmatch (Star c # r) (p @ u) \<noteq> None"
proof (induction p)
  case Nil
  then show ?case by (cases u) (auto split: option.splits list.splits)
next
  case (Cons y ys)
  then show ?case
    using rmatch_not_Nil [of "Star c" r "ys @ u"] by (auto split: option.splits list.splits)
qed

lemma rmatch_lazy:
  "\<forall>x \<in> set p. c x \<Longrightarrow> rmatch r u \<noteq> None \<Longrightarrow> rmatch (Lazy c # r) (p @ u) \<noteq> None"
proof (induction p)
  case Nil
  then show ?case by (cases u) (auto split: option.splits list.splits)
next
  case (Cons y ys)
  then show ?case
    using rmatch_not_Nil [of "Lazy c" r "ys @ u"] by (auto split: option.splits list.splits)
qed

lemma rmatch_opt:
  "p = [] \<or> (\<exists>x. p = [x] \<and> c x) \<Longrightarrow> rmatch r u \<noteq> None \<Longrightarrow> rmatch (Opt c # r) (p @ u) \<noteq> None"
  by (cases u) (auto split: option.splits)

lemma rmatch_complete: "parts_ok r ps \<Longrightarrow> rmatch r (concat ps @ t) \<noteq> None"
proof (induction r arbitrary: ps)
  case (Cons a r)
  then obtain p qs where ps: "ps = p # qs" "atom_ok a p" "rmatch r (concat qs @ t) \<noteq> None"
    by auto
  then show ?case by (cases a) (use rmatch_star rmatch_lazy rmatch_opt in fastforce)+
qed simp

lemma re_match_iff: "re_match r s \<longleftrightarrow> (\<exists>ps t. parts_ok r ps \<and> s = concat ps @ t)"
  unfolding re_match_def using rmatch_sound rmatch_complete startswith_iff by (metis not_None_eq)

lemma parts_ok_lit [simp]: "parts_ok (lit p @ r) ps \<longleftrightarrow>
    (\<exists>qs. ps = map (\<lambda>c. [c]) p @ qs \<and> parts_ok r qs)"
  by (induction p arbitrary: ps) (auto simp: lit_def)

lemma concat_singletons [simp]: "concat (map (\<lambda>c. [c]) p) = p"
  by (induction p) auto

text \<open>A literal prefix, the most common pattern of the file categories.\<close>

lemma re_match_lit [simp]: "re_match (lit p) s \<longleftrightarrow> startswith s p"
  using re_match_iff [of "lit p" s] parts_ok_lit [of p "[]"] by (auto simp: startswith_iff)

lemma re_match_lit_append: "re_match (lit p @ r) s \<longleftrightarrow> (\<exists>t. s = p @ t \<and> re_match r t)"
  by (auto simp: re_match_iff) blast

subsection \<open>Greedy matches\<close>

lemma rmatch_star_None:
  "(\<And>a b. u = a @ b \<Longrightarrow> rmatch r b = None) \<Longrightarrow> rmatch (Star c # r) u = None"
proof (induction u)
  case Nil
  then show ?case by simp
next
  case (Cons x xs)
  have "rmatch r b = None" if "xs = a @ b" for a b using Cons.prems [of "x # a" b] that by simp
  then have "rmatch (Star c # r) xs = None" by (rule Cons.IH)
  moreover have "rmatch r (x # xs) = None" using Cons.prems [of "[]"] by simp
  ultimately show ?case by (auto split: option.splits)
qed

text \<open>A star takes all it can: when the rest matches at \<open>u\<close> and at no later position.\<close>

lemma rmatch_star_greedy:
  assumes "rmatch r u = Some ps" "\<And>a b. u = a @ b \<Longrightarrow> a \<noteq> [] \<Longrightarrow> rmatch r b = None"
  shows "\<forall>x \<in> set p. c x \<Longrightarrow> rmatch (Star c # r) (p @ u) = Some (p # ps)"
proof (induction p)
  case Nil
  show ?case
  proof (cases u)
    case Nil
    with assms(1) show ?thesis by simp
  next
    case (Cons x xs)
    have "rmatch (Star c # r) xs = None"
      by (rule rmatch_star_None) (use assms(2) Cons in \<open>metis append_Cons list.distinct(1)\<close>)
    with assms(1) Cons show ?thesis by (auto split: option.splits)
  qed
qed simp

text \<open>A star stops at the first character that it cannot take, when the rest matches there.\<close>

lemma rmatch_star_stop:
  "\<forall>x \<in> set p. c x \<Longrightarrow> u = [] \<or> \<not> c (hd u) \<Longrightarrow> rmatch r u = Some ps \<Longrightarrow>
   rmatch (Star c # r) (p @ u) = Some (p # ps)"
proof (induction p)
  case Nil
  then show ?case by (cases u) auto
qed auto

text \<open>A star at the end takes all it can.\<close>

lemma rmatch_star_all: "rmatch [Star c] s = Some [takeWhile c s]"
  by (induction s) auto

definition to_the_end :: "(char \<Rightarrow> bool) \<Rightarrow> string \<Rightarrow> string list \<Rightarrow> bool" where
  "to_the_end c s ps \<longleftrightarrow> (\<exists>u. s = concat ps @ u \<and> (u = [] \<or> \<not> c (hd u)))"

lemma to_the_end_simps [simp]:
  "to_the_end c s ([] # ps) \<longleftrightarrow> to_the_end c s ps"
  "to_the_end c (x # s) ([y] # ps) \<longleftrightarrow> x = y \<and> to_the_end c s ps"
  "to_the_end c (x # s) ((y # p) # ps) \<longleftrightarrow> x = y \<and> to_the_end c s (p # ps)"
  by (auto simp: to_the_end_def)

lemma rmatch_to_the_end: "rmatch (r @ [Star c]) s = Some ps \<Longrightarrow> to_the_end c s ps"
proof (induction r arbitrary: s ps)
  case Nil
  then have "concat ps = takeWhile c s" by (auto simp: rmatch_star_all)
  moreover have "dropWhile c s = [] \<or> \<not> c (hd (dropWhile c s))" using hd_dropWhile by blast
  ultimately show ?case unfolding to_the_end_def using takeWhile_dropWhile_id [of c s] by metis
next
  case (Cons a r)
  show ?case
  proof (cases a)
    case (One c')
    then show ?thesis using Cons by (cases s) (auto split: if_splits)
  next
    case (Star c')
    show ?thesis using Cons.prems unfolding Star
    proof (induction s arbitrary: ps)
      case Nil
      then show ?case using Cons.IH by auto
    next
      case (Cons x xs)
      then show ?case using \<open>\<And>s ps. rmatch (r @ [ratom.Star c]) s = Some ps \<Longrightarrow> to_the_end c s ps\<close>
        by (auto split: option.splits list.splits if_splits)
    qed
  next
    case (Lazy c')
    show ?thesis using Cons.prems unfolding Lazy
    proof (induction s arbitrary: ps)
      case Nil
      then show ?case using Cons.IH by auto
    next
      case (Cons x xs)
      then show ?case using \<open>\<And>s ps. rmatch (r @ [ratom.Star c]) s = Some ps \<Longrightarrow> to_the_end c s ps\<close>
        by (auto split: option.splits list.splits if_splits)
    qed
  next
    case (Opt c')
    then show ?thesis using Cons by (cases s) (auto split: if_splits option.splits)
  qed
qed

lemma rmatch_last_star:
  "rmatch (r @ [Star c]) s = Some ps \<Longrightarrow> \<exists>u. s = concat ps @ u \<and> (u = [] \<or> \<not> c (hd u))"
  using rmatch_to_the_end by (simp add: to_the_end_def)

text \<open>After the text of a star at the start, the rest matches at no later position that the star reaches.\<close>

lemma rmatch_star_max:
  "rmatch (Star c # r) s = Some (p # ps) \<Longrightarrow>
   \<exists>u. s = p @ u \<and> rmatch r u = Some ps \<and> (\<forall>a b. u = a @ b \<longrightarrow> a \<noteq> [] \<longrightarrow> (\<forall>x \<in> set a. c x) \<longrightarrow> rmatch r b = None)"
proof (induction s arbitrary: p)
  case (Cons x xs)
  show ?case
  proof (cases "c x \<and> rmatch (Star c # r) xs \<noteq> None")
    case True
    then obtain q qs where q: "rmatch (Star c # r) xs = Some (q # qs)"
      using rmatch_not_Nil [of "Star c" r xs] by (metis list.exhaust not_None_eq)
    with True Cons.prems have "p = x # q" "ps = qs" by auto
    with Cons.IH q show ?thesis by fastforce
  next
    case False
    with Cons.prems have p: "p = []" "rmatch r (x # xs) = Some ps" by (auto split: if_splits option.splits)
    have "rmatch r b = None" if ab: "x # xs = a @ b" "a \<noteq> []" "\<forall>y \<in> set a. c y" for a b
    proof -
      from ab obtain a' where a: "a = x # a'" "xs = a' @ b" by (cases a) auto
      with ab(3) False have "rmatch (Star c # r) xs = None" by simp
      moreover have "\<forall>y \<in> set a'. c y" using ab(3) a(1) by simp
      ultimately show ?thesis using rmatch_star [of a' c r b] a(2) by metis
    qed
    with p show ?thesis by auto
  qed
qed auto

end
