(* ===== verification/Paths.thy ===== *)
theory Paths
  imports PyRegex PyValue
begin

text \<open>
  File names of the log: \<^verbatim>\<open>ToAbsPath\<close>, which makes a name absolute and removes its \<open>.\<close> and \<open>..\<close>
  components, \<^verbatim>\<open>PathCategory\<close>, which classifies a name by the regular expressions of
  \<^verbatim>\<open>G_lstFilters\<close>, the prefixes of the names that are not files, and the functions of
  \<^verbatim>\<open>os.path\<close> that the program uses (their POSIX versions).
\<close>

subsection \<open>ToAbsPath\<close>

text \<open>A pseudo-file such as \<open>pipe:\<close> or \<open>TCPv6:\<close>: \<open>re.match("^[0-9a-zA-Z_]+:", filNam)\<close>.\<close>

definition pseudo_file :: "string \<Rightarrow> bool" where
  "pseudo_file f = re_match ([One word_char, Star word_char] @ lit '':'') f"

abbreviation dotdot :: string where
  "dotdot \<equiv> ''..''"

function abs_loop :: "string list \<Rightarrow> int \<Rightarrow> int \<Rightarrow> string list pyres" where
  "abs_loop splitSlash ix lenSplt =
     (if ix < lenSplt then
        (case py_nth splitSlash ix of
           None \<Rightarrow> Inl IndexError
         | Some x \<Rightarrow>
             if x = dotdot then abs_loop (py_del_slice splitSlash (ix - 1) (ix + 1)) (ix - 1) (lenSplt - 2)
             else if x = ''.'' \<or> x = [] then abs_loop (py_del_slice splitSlash ix (ix + 1)) ix (lenSplt - 1)
             else abs_loop splitSlash (ix + 1) lenSplt)
      else Inr splitSlash)"
  by pat_completeness auto
termination
  by (relation "measure (\<lambda>(xs, ix, n). nat (n - ix))") auto

declare abs_loop.simps [simp del]

definition abs_components :: "string \<Rightarrow> string pyres" where
  "abs_components fullPath =
     (let splitSlash = py_split (CHR ''/'') fullPath
      in map_sum id (py_join ''/'') (abs_loop splitSlash 1 (int (length splitSlash))))"

text \<open>
  The directory is a text, or, in one branch of \<open>openat\<close>, an object: joining that one to a name
  raises a TypeError.
\<close>

definition ToAbsPath :: "pyval \<Rightarrow> string \<Rightarrow> string pyres" where
  "ToAbsPath dirPath filNam =
     (if pseudo_file filNam then Inr filNam
      else if filNam = ''stdout'' \<or> filNam = ''stdin'' \<or> filNam = ''stderr'' then Inr filNam
      else (case filNam of
          [] \<Rightarrow> Inl IndexError
        | c # _ \<Rightarrow>
            if c = CHR ''/'' then abs_components filNam
            else (case dirPath of
                VStr d \<Rightarrow>
                  if d = ''.'' \<or> d = [] then abs_components filNam
                  else abs_components (d @ ''/'' @ filNam)
              | _ \<Rightarrow> Inl TypeError)))"

subsection \<open>Specification of the normalisation\<close>

text \<open>The components on a stack, last first: \<open>..\<close> pops, \<open>.\<close> and the empty one are skipped.\<close>

fun norm_stack :: "string list \<Rightarrow> string list \<Rightarrow> string list" where
  "norm_stack acc [] = rev acc"
| "norm_stack acc (x # xs) =
     (if x = dotdot then norm_stack (tl acc) xs
      else if x = ''.'' \<or> x = [] then norm_stack acc xs
      else norm_stack (x # acc) xs)"

text \<open>No \<open>..\<close> climbs above the level zero.\<close>

fun climbs_ok :: "nat \<Rightarrow> string list \<Rightarrow> bool" where
  "climbs_ok d [] = True"
| "climbs_ok d (x # xs) =
     (if x = dotdot then 0 < d \<and> climbs_ok (d - 1) xs
      else if x = ''.'' \<or> x = [] then climbs_ok d xs
      else climbs_ok (Suc d) xs)"

definition plain_component :: "string \<Rightarrow> bool" where
  "plain_component x \<longleftrightarrow> x \<noteq> dotdot \<and> x \<noteq> ''.'' \<and> x \<noteq> []"

lemma norm_stack_plain:
  "list_all plain_component acc \<Longrightarrow> list_all plain_component (norm_stack acc xs)"
proof (induction acc xs rule: norm_stack.induct)
  case (2 acc x xs)
  moreover from "2.prems" have "list_all plain_component (tl acc)" by (cases acc) auto
  ultimately show ?case
    by (cases "x = dotdot"; cases "x = ''.'' \<or> x = []") (auto simp: plain_component_def [of x])
qed simp

lemma norm_stack_subset: "set (norm_stack acc xs) \<subseteq> set acc \<union> set xs"
proof (induction acc xs rule: norm_stack.induct)
  case (2 acc x xs)
  then show ?case using list.set_sel(2) [of acc] by (cases acc) auto
qed simp

lemma norm_stack_id: "list_all plain_component xs \<Longrightarrow> norm_stack acc xs = rev acc @ xs"
  by (induction xs arbitrary: acc) (auto simp: plain_component_def)

lemma climbs_ok_plain: "list_all plain_component xs \<Longrightarrow> climbs_ok d xs"
  by (induction xs arbitrary: d) (auto simp: plain_component_def)

lemma py_nth_mid: "py_nth (xs @ x # ys) (int (length xs)) = Some x"
  by simp

lemma py_del_mid1: "py_del_slice (xs @ x # ys) (int (length xs)) (int (length xs) + 1) = xs @ ys"
proof -
  have "int (length xs) + 1 = int (Suc (length xs))" by simp
  then show ?thesis unfolding py_del_slice_def Let_def by (simp only: clip_nat) simp
qed

lemma py_del_mid2:
  "py_del_slice (xs @ x # y # ys) (int (length xs)) (int (length xs) + 2) = xs @ ys"
proof -
  have "int (length xs) + 2 = int (Suc (Suc (length xs)))" by simp
  then show ?thesis unfolding py_del_slice_def Let_def by (simp only: clip_nat) simp
qed

lemma abs_loop_norm:
  "climbs_ok (length acc) xs \<Longrightarrow>
   abs_loop (h # rev acc @ xs) (int (Suc (length acc))) (int (Suc (length acc + length xs))) =
   Inr (h # norm_stack acc xs)"
proof (induction acc xs rule: norm_stack.induct)
  case (1 acc)
  then show ?case by (subst abs_loop.simps) simp
next
  case (2 acc x xs)
  have nth: "py_nth (h # rev acc @ x # xs) (int (Suc (length acc))) = Some x"
    using py_nth_mid [of "h # rev acc" x xs] by simp
  show ?case
  proof (cases "x = dotdot")
    case True
    with "2.prems" obtain a acc' where acc: "acc = a # acc'" by (cases acc) auto
    have "py_del_slice (h # rev acc' @ a # x # xs) (int (Suc (length acc'))) (int (Suc (length acc')) + 2)
        = h # rev acc' @ xs"
      using py_del_mid2 [of "h # rev acc'" a x xs] by simp
    with 2 nth True acc show ?thesis
      by (subst abs_loop.simps) (simp add: algebra_simps)
  next
    case False
    show ?thesis
    proof (cases "x = ''.'' \<or> x = []")
      case skip: True
      have "py_del_slice (h # rev acc @ x # xs) (int (Suc (length acc))) (int (Suc (length acc)) + 1)
          = h # rev acc @ xs"
        using py_del_mid1 [of "h # rev acc" x xs] by simp
      with 2 nth False skip show ?thesis
        by (subst abs_loop.simps) (auto simp: algebra_simps)
    next
      case keep: False
      with 2 nth False show ?thesis
        by (subst abs_loop.simps) (auto simp: algebra_simps)
    qed
  qed
qed

lemma abs_components_norm:
  assumes "py_split (CHR ''/'') f = h # xs" "climbs_ok 0 xs"
  shows "abs_components f = Inr (py_join ''/'' (h # norm_stack [] xs))"
  using assms abs_loop_norm [of "[]" xs h] by (simp add: abs_components_def)


subsection \<open>Absolute names\<close>

abbreviation norm_abs :: "string \<Rightarrow> string list" where
  "norm_abs r \<equiv> norm_stack [] (py_split (CHR ''/'') r)"

lemma not_pseudo_abs: "\<not> pseudo_file (CHR ''/'' # r)"
  by (simp add: pseudo_file_def re_match_def word_char_def)

lemma ToAbsPath_root:
  "climbs_ok 0 (py_split (CHR ''/'') r) \<Longrightarrow>
   ToAbsPath d (CHR ''/'' # r) = Inr (py_join ''/'' ([] # norm_abs r))"
  using abs_components_norm [of "CHR ''/'' # r" "[]" "py_split (CHR ''/'') r"]
  by (simp add: ToAbsPath_def not_pseudo_abs)

lemma norm_abs_comp:
  assumes "x \<in> set (norm_abs r)"
  shows "plain_component x" "CHR ''/'' \<notin> set x"
  using assms norm_stack_plain [of "[]" "py_split (CHR ''/'') r"]
    norm_stack_subset [of "[]" "py_split (CHR ''/'') r"] py_split_no_sep [of x "CHR ''/''" r]
  by (auto simp: list_all_iff)

lemma split_norm_abs:
  "norm_abs r \<noteq> [] \<Longrightarrow> py_split (CHR ''/'') (py_join ''/'' (norm_abs r)) = norm_abs r"
  using norm_abs_comp by (intro py_split_py_join) auto

lemma ToAbsPath_idem:
  assumes "climbs_ok 0 (py_split (CHR ''/'') r)" "norm_abs r \<noteq> []"
  shows "ToAbsPath d' (py_join ''/'' ([] # norm_abs r)) = Inr (py_join ''/'' ([] # norm_abs r))"
proof -
  let ?j = "py_join ''/'' (norm_abs r)"
  have p: "list_all plain_component (norm_abs r)" using norm_abs_comp by (simp add: list_all_iff)
  have "ToAbsPath d' (CHR ''/'' # ?j) = Inr (py_join ''/'' ([] # norm_abs ?j))"
    using split_norm_abs [OF assms(2)] climbs_ok_plain [OF p] by (intro ToAbsPath_root) simp
  with assms(2) split_norm_abs [OF assms(2)] norm_stack_id [OF p, of "[]"]
  show ?thesis by (simp add: py_join_Cons)
qed

subsection \<open>The categories of files\<close>

definition not_slash :: "char \<Rightarrow> bool" where
  "not_slash c \<longleftrightarrow> c \<noteq> CHR ''/''"

definition G_lstFilters :: "(string \<times> regex list) list" where
  "G_lstFilters =
    [(''Shared libraries'',
        [lit ''/usr/lib'' @ [Star not_slash] @ lit ''/'' @ [dot_star] @ lit ''.so'',
         lit ''/usr/lib'' @ [Star not_slash] @ lit ''/'' @ [dot_star] @ lit ''.so.'' @ [dot_star],
         lit ''/var/lib'' @ [Star not_slash] @ lit ''/'' @ [dot_star] @ lit ''.so'',
         lit ''/lib/'' @ [dot_star] @ lit ''.so'',
         lit ''/lib64/'' @ [dot_star] @ lit ''.so'']),
     (''System config files'',
        [lit ''/etc/'',
         lit ''/usr/share/fonts/'',
         lit ''/usr/share/fontconfig/'',
         lit ''/usr/share/fontconfig/'',
         lit ''/usr/share/locale/'',
         lit ''/usr/share/zoneinfo/'']),
     (''Other libraries'',
        [lit ''/usr/share/'',
         lit ''/usr/lib'' @ [Star not_slash] @ lit ''/'',
         lit ''/var/lib'' @ [Star not_slash] @ lit ''/'']),
     (''System executables'',
        [lit ''/bin/'',
         lit ''/usr/bin'' @ [Star not_slash] @ lit ''/'']),
     (''Kernel file systems'',
        [lit ''/proc'',
         lit ''/run'']),
     (''Temporary files'',
        [lit ''/tmp/'',
         lit ''/var/log/'',
         lit ''/var/cache/'']),
     (''Pipes and terminals'',
        [lit ''/sys'',
         lit ''/dev'',
         lit ''pipe:'',
         lit ''socket:'',
         lit ''UNIX:'',
         lit ''NETLINK:'']),
     (''Connected TCP sockets'',
        [lit ''TCP:['' @ [dot_star] @ lit ''->'' @ [dot_star] @ lit '']'',
         lit ''TCPv6:['' @ [dot_star] @ lit ''->'' @ [dot_star] @ lit '']'']),
     (''Other TCP/IP sockets'',
        [lit ''TCP:'',
         lit ''TCPv6:'',
         lit ''UDP:'',
         lit ''UDPv6:'']),
     (''Others'', [])]"

fun category_in :: "(string \<times> regex list) list \<Rightarrow> string \<Rightarrow> string" where
  "category_in [] p = ''Others''"
| "category_in ((c, rs) # fs) p = (if \<exists>r \<in> set rs. re_match r p then c else category_in fs p)"

definition PathCategory :: "string \<Rightarrow> string" where
  "PathCategory pathName = category_in G_lstFilters pathName"

lemma category_in_range: "category_in fs p \<in> insert ''Others'' (fst ` set fs)"
  by (induction fs p rule: category_in.induct) auto

lemma PathCategory_listed: "PathCategory p \<in> fst ` set G_lstFilters"
proof -
  have "''Others'' \<in> set (map fst G_lstFilters)"
    unfolding G_lstFilters_def by (simp only: list.map fst_conv list.set insert_iff simp_thms)
  with category_in_range [of G_lstFilters p] show ?thesis
    unfolding PathCategory_def by (metis insert_iff set_map)
qed

lemma category_in_first:
  assumes "\<exists>r \<in> set rs. re_match r p" "\<forall>(c', rs') \<in> set fs. \<forall>r \<in> set rs'. \<not> re_match r p"
  shows "category_in (fs @ (c, rs) # fs') p = c"
  using assms by (induction fs) auto

lemma category_in_skip:
  "\<forall>r \<in> set rs. \<not> re_match r p \<Longrightarrow> category_in ((c, rs) # fs) p = category_in fs p"
  by auto

subsection \<open>Names that are not files, and files without a package\<close>

definition m_nonFilePrefixes :: "string list" where
  "m_nonFilePrefixes =
     [''UNIX:'', ''TCP:'', ''TCPv6:'', ''NETLINK:'', ''pipe:'', ''UDP:'', ''UDPv6:'']"

definition starts_with_one :: "string list \<Rightarrow> string \<Rightarrow> bool" where
  "starts_with_one pfxs s = list_ex (startswith s) pfxs"

definition IsPlainFile :: "string \<Rightarrow> bool" where
  "IsPlainFile nam = (if nam \<noteq> [] then \<not> starts_with_one m_nonFilePrefixes nam else False)"

definition unpackagedPrefixes :: "string list" where
  "unpackagedPrefixes =
     [''/dev/'', ''/home/'', ''/proc/'', ''/tmp/'', ''/sys/'', ''/var/cache/''] @ m_nonFilePrefixes"

definition CannotBePackaged :: "string \<Rightarrow> bool" where
  "CannotBePackaged filNam = starts_with_one unpackagedPrefixes filNam"

subsection \<open>Functions of os.path\<close>

definition rsplit_at :: "char \<Rightarrow> string \<Rightarrow> (string \<times> string) option" where
  "rsplit_at c s =
     (if c \<in> set s then
        Some (rev (tl (dropWhile (\<lambda>x. x \<noteq> c) (rev s))), rev (takeWhile (\<lambda>x. x \<noteq> c) (rev s)))
      else None)"

definition basename :: "string \<Rightarrow> string" where
  "basename p = (case rsplit_at (CHR ''/'') p of None \<Rightarrow> p | Some (_, b) \<Rightarrow> b)"

text \<open>The slashes at the end of the directory are removed, unless it is only slashes.\<close>

definition dirname :: "string \<Rightarrow> string" where
  "dirname p =
     (case rsplit_at (CHR ''/'') p of
        None \<Rightarrow> []
      | Some (d, _) \<Rightarrow>
          let h = d @ ''/'' in
          if list_all (\<lambda>c. c = CHR ''/'') h then h
          else rev (dropWhile (\<lambda>c. c = CHR ''/'') (rev h)))"

text \<open>The extension starts at the last dot of the base name, unless only dots precede it.\<close>

definition splitext :: "string \<Rightarrow> string \<times> string" where
  "splitext p =
     (case rsplit_at (CHR ''.'') (basename p) of
        None \<Rightarrow> (p, [])
      | Some (r, x) \<Rightarrow>
          if list_all (\<lambda>c. c = CHR ''.'') r then (p, [])
          else (take (length p - Suc (length x)) p, CHR ''.'' # x))"

lemma rsplit_at_Some: "rsplit_at c s = Some (a, b) \<Longrightarrow> s = a @ c # b \<and> c \<notin> set b"
proof -
  assume "rsplit_at c s = Some (a, b)"
  then have c: "c \<in> set (rev s)" and ab: "a = rev (tl (dropWhile (\<lambda>x. x \<noteq> c) (rev s)))"
    "b = rev (takeWhile (\<lambda>x. x \<noteq> c) (rev s))"
    by (auto simp: rsplit_at_def split: if_splits)
  from c obtain d where "dropWhile (\<lambda>x. x \<noteq> c) (rev s) = c # d"
    by (metis (mono_tags, lifting) dropWhile_eq_Cons_conv dropWhile_eq_Nil_conv list.exhaust)
  with ab have "rev s = rev b @ c # rev a" by (metis list.sel(3) rev_rev_ident takeWhile_dropWhile_id)
  then have "s = a @ c # b" by (metis append.assoc append_Cons append_Nil rev.simps(2) rev_append rev_rev_ident)
  moreover have "c \<notin> set b" using ab(2) by (auto dest: set_takeWhileD)
  ultimately show ?thesis by blast
qed

lemma basename_no_slash: "CHR ''/'' \<notin> set (basename p)"
proof (cases "rsplit_at (CHR ''/'') p")
  case None
  then show ?thesis by (simp add: basename_def rsplit_at_def split: if_splits)
next
  case (Some ab)
  obtain a b where "ab = (a, b)" by force
  with Some rsplit_at_Some [of "CHR ''/''" p a b] show ?thesis
    by (simp add: basename_def)
qed

lemma splitext_join: "fst (splitext p) @ snd (splitext p) = p"
proof (cases "rsplit_at (CHR ''.'') (basename p)")
  case None
  then show ?thesis by (simp add: splitext_def)
next
  case (Some rx)
  obtain r x where rx: "rx = (r, x)" by force
  with Some rsplit_at_Some have b: "basename p = r @ CHR ''.'' # x" by blast
  have "\<exists>q. p = q @ basename p"
  proof (cases "rsplit_at (CHR ''/'') p")
    case (Some ab)
    with rsplit_at_Some [of "CHR ''/''" p "fst ab" "snd ab"]
    have "p = (fst ab @ ''/'') @ basename p" by (simp add: basename_def split: prod.splits)
    then show ?thesis by blast
  qed (simp add: basename_def)
  then obtain q where "p = q @ basename p" by blast
  with b have "p = (q @ r) @ CHR ''.'' # x" by simp
  then have "take (length p - Suc (length x)) p @ CHR ''.'' # x = p" by simp
  with Some rx show ?thesis by (simp add: splitext_def)
qed

end
