(* ===== verification/World.thy ===== *)
theory World
  imports Buffers Paths
begin

text \<open>
  The objects that the analysis of a log builds, and the global variables of
  \<^verbatim>\<open>dockit.py\<close> that hold them.

  A \<^verbatim>\<open>CIM_Process\<close> and a \<^verbatim>\<open>CIM_DataFile\<close> are referred to by their object path, the key under which
  \<^verbatim>\<open>G_mapCacheObjects\<close> holds them; a \<^verbatim>\<open>FileAccess\<close> and a \<^verbatim>\<open>BatchLetCore\<close> by their rank of creation.
  An attribute that the code may leave unset is an option.

  What the program asks of the machine (\<^verbatim>\<open>os.stat\<close>, \<^verbatim>\<open>psutil\<close>, \<^verbatim>\<open>/proc\<close>, the name service) is a
  parameter, the record \<open>config\<close>, together with the variables that are set once before the log is
  read. The answers of the machine may change with time: each question has its rank, \<open>ticks\<close>.
\<close>

type_synonym objpath = string

subsection \<open>The machine and the parameters of a run\<close>

record os_stat =
  st_size :: int
  st_mode :: int
  st_ino :: int
  st_dev :: int
  st_nlink :: int
  st_uid :: int
  st_gid :: int
  st_atime :: int
  st_mtime :: int
  st_ctime :: int
  st_rdev :: "int option"

text \<open>A process of \<^verbatim>\<open>psutil\<close>; \<open>None\<close> is an exception of the method.\<close>

record psutil_process =
  ps_name :: "string option"
  ps_exe :: "string option"
  ps_username :: "string option"
  ps_nice :: "int option"
  ps_cwd :: "string option"

record config =
  G_ReplayMode :: bool
  G_SameMachine :: bool
  G_topProcessId :: int
  G_CurrentDirectory :: string
  G_Today :: string
  BufferScanners :: scanners
  on_linux :: bool
  os_stat_at :: "nat \<Rightarrow> string \<Rightarrow> os_stat option"
  psutil_at :: "(nat \<Rightarrow> int \<Rightarrow> psutil_process option) option"
  environ_at :: "nat \<Rightarrow> int \<Rightarrow> string list option"
  gethostbyaddr :: "string \<Rightarrow> string option"
  fromtimestamp :: "int \<Rightarrow> nat \<times> nat \<times> nat \<times> nat"
  gethostname :: string
  gethostbyname :: "string \<Rightarrow> string"
  virtual_memory :: "int list"
  cpu_freq :: "(string \<times> string \<times> string) option"
  platform_names :: "string list"

subsection \<open>Objects\<close>

record cim_process =
  Handle :: int
  m_parentProcess :: "objpath option"
  m_subProcesses :: "objpath list"
  CreationDate :: "string option"
  TerminationDate :: "string option"
  m_ProcessFileAccesses :: "nat list"
  EnvironmentVariables :: "(string \<times> string) list option"
  ProcName :: "string option"
  Username :: "string option"
  Priority :: "int option"
  CurrentDirectory :: "string option"
  Executable :: "string option"
  m_ExecutableObject :: "objpath option"
  CommandLine :: "string option"
  m_commandList :: "pyval option"
  IsThread :: bool
  m_isVisited :: bool

record cim_datafile =
  Name :: string
  FileName :: string
  Category :: string
  m_DataFileFileAccesses :: "nat list"
  FileStat :: "os_stat option"
  Destination :: "string option"
  Port :: "string option"
  SocketAddress :: "pyval option"
  IsExecuted :: bool

record file_access =
  OpenTime :: "string option"
  CloseTime :: "string option"
  m_objectCIM_Process :: objpath
  m_objectCIM_DataFile :: objpath
  NumOpen :: "int option"
  OpenSize :: "int option"
  CloseSize :: "int option"
  NumReads :: "int option"
  BytesRead :: "int option"
  NumWrites :: "int option"
  BytesWritten :: "int option"
  m_bufConcatRead :: "bufconcat option"
  m_bufConcatWrite :: "bufconcat option"

datatype batch_status =
    StUnknown
  | StPlain
  | StUnfinished
  | StResumed
  | StMatched
  | StMerged
  | StSequence

record batch_core =
  m_tracer :: string
  m_pid :: int
  m_timeStart :: string
  m_timeEnd :: string
  m_execTim :: pyval
  m_funcNam :: string
  m_parsedArgs :: "pyval list"
  m_retValue :: "string option"
  m_status :: batch_status
  m_objectProcess :: objpath
  m_unfinishedBatch :: "nat option"
  m_resumedBatch :: "nat option"

text \<open>
  The global variables. \<open>cache_procs\<close> and \<open>cache_files\<close> are the entries of
  \<^verbatim>\<open>G_mapCacheObjects\<close> for \<^verbatim>\<open>CIM_Process\<close> and \<^verbatim>\<open>CIM_DataFile\<close>, \<open>None\<close> when the class has no
  entry yet; \<open>other_objects\<close> holds the other classes, each object with its attributes.
\<close>

record world =
  cache_procs :: "(objpath \<times> cim_process) list option"
  cache_files :: "(objpath \<times> cim_datafile) list option"
  other_objects :: "(string \<times> (objpath \<times> (string \<times> pyval) list) list) list"
  accesses :: "file_access list"
  G_cacheFileAccesses :: "(objpath \<times> (objpath \<times> nat) list) list"
  G_mapFilDesToPathName :: "(string \<times> pyval) list"
  G_EnvironmentVariables :: "(string \<times> string) list"
  cores :: "batch_core list"
  m_mapStacks :: "(int \<times> (string \<times> nat list) list) list"
  G_UnknownFunctions :: "string list"
  ticks :: nat

definition procs :: "world \<Rightarrow> (objpath \<times> cim_process) list" where
  "procs w = (case cache_procs w of None \<Rightarrow> [] | Some m \<Rightarrow> m)"

definition files :: "world \<Rightarrow> (objpath \<times> cim_datafile) list" where
  "files w = (case cache_files w of None \<Rightarrow> [] | Some m \<Rightarrow> m)"

definition proc_at :: "world \<Rightarrow> objpath \<Rightarrow> cim_process option" where
  "proc_at w = map_of (procs w)"

definition file_at :: "world \<Rightarrow> objpath \<Rightarrow> cim_datafile option" where
  "file_at w = map_of (files w)"

text \<open>The state before \<^verbatim>\<open>InitGlobals\<close> fills it.\<close>

definition empty_world :: world where
  "empty_world = \<lparr>cache_procs = None, cache_files = None, other_objects = [], accesses = [],
     G_cacheFileAccesses = [], G_mapFilDesToPathName = [], G_EnvironmentVariables = [],
     cores = [], m_mapStacks = [], G_UnknownFunctions = [], ticks = 0\<rparr>"

subsection \<open>Reading and writing the fields of an object\<close>

text \<open>
  A reference that leads nowhere does not exist in Python; here it would raise \<open>dangling\<close>.
\<close>

definition dangling :: pyexc where
  "dangling = PyException ''dangling reference''"

definition get_proc :: "objpath \<Rightarrow> (world, cim_process) py" where
  "get_proc p = bnd (gets (\<lambda>w. proc_at w p)) (of_opt dangling)"

definition put_proc :: "objpath \<Rightarrow> cim_process \<Rightarrow> world \<Rightarrow> world" where
  "put_proc p x w = w\<lparr>cache_procs := Some (AList.update p x (procs w))\<rparr>"

definition upd_proc :: "objpath \<Rightarrow> (cim_process \<Rightarrow> cim_process) \<Rightarrow> (world, unit) py" where
  "upd_proc p f = bnd (get_proc p) (\<lambda>x. modify (put_proc p (f x)))"

definition get_file :: "objpath \<Rightarrow> (world, cim_datafile) py" where
  "get_file p = bnd (gets (\<lambda>w. file_at w p)) (of_opt dangling)"

definition put_file :: "objpath \<Rightarrow> cim_datafile \<Rightarrow> world \<Rightarrow> world" where
  "put_file p x w = w\<lparr>cache_files := Some (AList.update p x (files w))\<rparr>"

definition upd_file :: "objpath \<Rightarrow> (cim_datafile \<Rightarrow> cim_datafile) \<Rightarrow> (world, unit) py" where
  "upd_file p f = bnd (get_file p) (\<lambda>x. modify (put_file p (f x)))"

definition get_access :: "nat \<Rightarrow> (world, file_access) py" where
  "get_access i = bnd (gets accesses) (\<lambda>l. if i < length l then ret (l ! i) else raise dangling)"

definition put_access :: "nat \<Rightarrow> file_access \<Rightarrow> world \<Rightarrow> world" where
  "put_access i x w = w\<lparr>accesses := (accesses w)[i := x]\<rparr>"

definition upd_access :: "nat \<Rightarrow> (file_access \<Rightarrow> file_access) \<Rightarrow> (world, unit) py" where
  "upd_access i f = bnd (get_access i) (\<lambda>x. modify (put_access i (f x)))"

definition get_core :: "nat \<Rightarrow> (world, batch_core) py" where
  "get_core i = bnd (gets cores) (\<lambda>l. if i < length l then ret (l ! i) else raise dangling)"

definition upd_core :: "nat \<Rightarrow> (batch_core \<Rightarrow> batch_core) \<Rightarrow> (world, unit) py" where
  "upd_core i f =
     bnd (get_core i) (\<lambda>x. modify (\<lambda>w. w\<lparr>cores := (cores w)[i := f x]\<rparr>))"

definition new_core :: "batch_core \<Rightarrow> (world, nat) py" where
  "new_core c =
     bnd (gets (\<lambda>w. length (cores w))) (\<lambda>i.
       andthen (modify (\<lambda>w. w\<lparr>cores := cores w @ [c]\<rparr>)) (ret i))"

text \<open>The rank of the next question to the machine.\<close>

definition tick :: "(world, nat) py" where
  "tick = bnd (gets ticks) (\<lambda>t. andthen (modify (\<lambda>w. w\<lparr>ticks := Suc t\<rparr>)) (ret t))"

text \<open>A text attribute that is unset, \<open>None\<close> or empty is false.\<close>

definition no_text :: "string option \<Rightarrow> bool" where
  "no_text t \<longleftrightarrow> t = None \<or> t = Some []"

lemma procs_put_proc [simp]: "procs (put_proc p x w) = AList.update p x (procs w)"
  by (simp add: procs_def put_proc_def)

lemma files_put_file [simp]: "files (put_file p x w) = AList.update p x (files w)"
  by (simp add: files_def put_file_def)

lemma proc_at_put_proc [simp]: "proc_at (put_proc p x w) = (proc_at w)(p \<mapsto> x)"
  by (simp add: proc_at_def)

lemma file_at_put_file [simp]: "file_at (put_file p x w) = (file_at w)(p \<mapsto> x)"
  by (simp add: file_at_def)

lemma put_proc_frame [simp]:
  "file_at (put_proc p x w) = file_at w" "files (put_proc p x w) = files w"
  "accesses (put_proc p x w) = accesses w"
  "G_cacheFileAccesses (put_proc p x w) = G_cacheFileAccesses w"
  "cores (put_proc p x w) = cores w" "m_mapStacks (put_proc p x w) = m_mapStacks w"
  "cache_files (put_proc p x w) = cache_files w"
  by (simp_all add: put_proc_def file_at_def files_def)

lemma put_file_frame [simp]:
  "proc_at (put_file p x w) = proc_at w" "procs (put_file p x w) = procs w"
  "accesses (put_file p x w) = accesses w"
  "G_cacheFileAccesses (put_file p x w) = G_cacheFileAccesses w"
  "cores (put_file p x w) = cores w" "m_mapStacks (put_file p x w) = m_mapStacks w"
  "cache_procs (put_file p x w) = cache_procs w"
  by (simp_all add: put_file_def proc_at_def procs_def)

lemma put_access_frame [simp]:
  "proc_at (put_access i a w) = proc_at w" "procs (put_access i a w) = procs w"
  "file_at (put_access i a w) = file_at w" "files (put_access i a w) = files w"
  "accesses (put_access i a w) = (accesses w)[i := a]"
  "G_cacheFileAccesses (put_access i a w) = G_cacheFileAccesses w"
  "cores (put_access i a w) = cores w" "m_mapStacks (put_access i a w) = m_mapStacks w"
  by (simp_all add: put_access_def proc_at_def procs_def file_at_def files_def)

lemma get_proc_run [simp]:
  "get_proc p w = (case proc_at w p of None \<Rightarrow> (Inl dangling, w) | Some x \<Rightarrow> (Inr x, w))"
  by (simp add: get_proc_def bnd_def split: option.split)

lemma get_file_run [simp]:
  "get_file p w = (case file_at w p of None \<Rightarrow> (Inl dangling, w) | Some x \<Rightarrow> (Inr x, w))"
  by (simp add: get_file_def bnd_def split: option.split)

lemma get_access_run [simp]:
  "get_access i w = (if i < length (accesses w) then (Inr (accesses w ! i), w) else (Inl dangling, w))"
  by (simp add: get_access_def bnd_def)

lemma get_core_run [simp]:
  "get_core i w = (if i < length (cores w) then (Inr (cores w ! i), w) else (Inl dangling, w))"
  by (simp add: get_core_def bnd_def)

lemma upd_proc_run [simp]:
  "upd_proc p f w =
     (case proc_at w p of None \<Rightarrow> (Inl dangling, w) | Some x \<Rightarrow> (Inr (), put_proc p (f x) w))"
  by (simp add: upd_proc_def bnd_def split: option.split)

lemma upd_file_run [simp]:
  "upd_file p f w =
     (case file_at w p of None \<Rightarrow> (Inl dangling, w) | Some x \<Rightarrow> (Inr (), put_file p (f x) w))"
  by (simp add: upd_file_def bnd_def split: option.split)

lemma upd_access_run [simp]:
  "upd_access i f w =
     (if i < length (accesses w) then (Inr (), put_access i (f (accesses w ! i)) w)
      else (Inl dangling, w))"
  by (simp add: upd_access_def bnd_def)

lemma upd_core_run [simp]:
  "upd_core i f w =
     (if i < length (cores w) then (Inr (), w\<lparr>cores := (cores w)[i := f (cores w ! i)]\<rparr>)
      else (Inl dangling, w))"
  by (simp add: upd_core_def bnd_def)

lemma new_core_run [simp]:
  "new_core c w = (Inr (length (cores w)), w\<lparr>cores := cores w @ [c]\<rparr>)"
  by (simp add: new_core_def bnd_def andthen_def)

lemma tick_run [simp]: "tick w = (Inr (ticks w), w\<lparr>ticks := Suc (ticks w)\<rparr>)"
  by (simp add: tick_def bnd_def andthen_def)

lemma procs_frame [simp]:
  "procs (w\<lparr>ticks := t\<rparr>) = procs w" "proc_at (w\<lparr>ticks := t\<rparr>) = proc_at w"
  "procs (w\<lparr>cores := c\<rparr>) = procs w" "proc_at (w\<lparr>cores := c\<rparr>) = proc_at w"
  "procs (w\<lparr>m_mapStacks := m\<rparr>) = procs w" "proc_at (w\<lparr>m_mapStacks := m\<rparr>) = proc_at w"
  "procs (w\<lparr>accesses := a\<rparr>) = procs w" "proc_at (w\<lparr>accesses := a\<rparr>) = proc_at w"
  "procs (w\<lparr>G_cacheFileAccesses := g\<rparr>) = procs w" "proc_at (w\<lparr>G_cacheFileAccesses := g\<rparr>) = proc_at w"
  "procs (w\<lparr>cache_files := f\<rparr>) = procs w" "proc_at (w\<lparr>cache_files := f\<rparr>) = proc_at w"
  "procs (w\<lparr>G_mapFilDesToPathName := d\<rparr>) = procs w"
  "proc_at (w\<lparr>G_mapFilDesToPathName := d\<rparr>) = proc_at w"
  "procs (w\<lparr>G_EnvironmentVariables := e\<rparr>) = procs w"
  "proc_at (w\<lparr>G_EnvironmentVariables := e\<rparr>) = proc_at w"
  "procs (w\<lparr>G_UnknownFunctions := u\<rparr>) = procs w" "proc_at (w\<lparr>G_UnknownFunctions := u\<rparr>) = proc_at w"
  by (simp_all add: procs_def proc_at_def)

lemma files_frame [simp]:
  "files (w\<lparr>ticks := t\<rparr>) = files w" "file_at (w\<lparr>ticks := t\<rparr>) = file_at w"
  "files (w\<lparr>cores := c\<rparr>) = files w" "file_at (w\<lparr>cores := c\<rparr>) = file_at w"
  "files (w\<lparr>m_mapStacks := m\<rparr>) = files w" "file_at (w\<lparr>m_mapStacks := m\<rparr>) = file_at w"
  "files (w\<lparr>accesses := a\<rparr>) = files w" "file_at (w\<lparr>accesses := a\<rparr>) = file_at w"
  "files (w\<lparr>G_cacheFileAccesses := g\<rparr>) = files w" "file_at (w\<lparr>G_cacheFileAccesses := g\<rparr>) = file_at w"
  "files (w\<lparr>cache_procs := p\<rparr>) = files w" "file_at (w\<lparr>cache_procs := p\<rparr>) = file_at w"
  "files (w\<lparr>G_mapFilDesToPathName := d\<rparr>) = files w"
  "file_at (w\<lparr>G_mapFilDesToPathName := d\<rparr>) = file_at w"
  "files (w\<lparr>G_EnvironmentVariables := e\<rparr>) = files w"
  "file_at (w\<lparr>G_EnvironmentVariables := e\<rparr>) = file_at w"
  "files (w\<lparr>G_UnknownFunctions := u\<rparr>) = files w" "file_at (w\<lparr>G_UnknownFunctions := u\<rparr>) = file_at w"
  by (simp_all add: files_def file_at_def)

end
