(* ===== verification/Objects.thy ===== *)
theory Objects
  imports World
begin

text \<open>
  The classes \<^verbatim>\<open>CIM_Process\<close>, \<^verbatim>\<open>CIM_DataFile\<close> and \<^verbatim>\<open>FileAccess\<close> with the operations that change
  their instances, and the caches that create each of them at most once: \<^verbatim>\<open>CreateObjectPath\<close> and
  \<^verbatim>\<open>FileAccess.LookupFileAccess\<close>. No update server is configured, so that setting an attribute
  does nothing else.
\<close>

subsection \<open>Object paths\<close>

definition CreateMonikerKey :: "string \<Rightarrow> string list \<Rightarrow> string list \<Rightarrow> objpath" where
  "CreateMonikerKey className m_Ontology args =
     className @ ''.'' @
     py_join '','' (map (\<lambda>(k, v). k @ ''='' @ [CHR 0x22] @ v @ [CHR 0x22]) (zip m_Ontology args))"

definition proc_path :: "int \<Rightarrow> objpath" where
  "proc_path pid = CreateMonikerKey ''CIM_Process'' [''Handle''] [py_str_int pid]"

definition file_path :: "string \<Rightarrow> objpath" where
  "file_path pathName = CreateMonikerKey ''CIM_DataFile'' [''Name''] [pathName]"

subsection \<open>Files\<close>

definition TimeT_to_DateTime :: "config \<Rightarrow> int \<Rightarrow> string" where
  "TimeT_to_DateTime cfg t =
     (case fromtimestamp cfg t of (h, m, s, us) \<Rightarrow>
        pad_num 2 h @ '':'' @ pad_num 2 m @ '':'' @ pad_num 2 s @ '':'' @ pad_num 6 us)"

text \<open>The part after the arrow of \<open>TCP:[source->destination]\<close>, and the same for \<open>TCPv6\<close>.\<close>

definition socket_peer :: "string \<Rightarrow> string \<Rightarrow> string option" where
  "socket_peer pfx pathName =
     map_option (\<lambda>ps. ps ! (length pfx + 3))
       (rmatch (lit pfx @ [Star not_newline] @ lit ''->'' @ [Star not_newline] @ lit '']'') pathName)"

definition SetAddrPort :: "config \<Rightarrow> string \<Rightarrow> cim_datafile \<Rightarrow> cim_datafile" where
  "SetAddrPort cfg pathIP f =
     (let ixEq = py_rfind pathIP '':''
      in if ixEq < 0 then f\<lparr>Destination := Some pathIP\<rparr>
         else (let addrIP = py_upto pathIP ixEq
               in f\<lparr>Port := Some (py_from pathIP (ixEq + 1)),
                    Destination := Some (case gethostbyaddr cfg addrIP of None \<Rightarrow> addrIP | Some h \<Rightarrow> h)\<rparr>))"

definition CIM_DataFile_init :: "config \<Rightarrow> string \<Rightarrow> (world, cim_datafile) py" where
  "CIM_DataFile_init cfg pathName =
     bnd (if G_SameMachine cfg then bnd tick (\<lambda>t. ret (os_stat_at cfg t pathName)) else ret None) (\<lambda>objStat.
     let f = \<lparr>Name = pathName, FileName = hd (py_split (CHR ''.'') (basename pathName)),
              Category = PathCategory pathName, m_DataFileFileAccesses = [], FileStat = objStat,
              Destination = None, Port = None, SocketAddress = None, IsExecuted = False\<rparr>
     in ret (case socket_peer ''TCP:['' pathName of
               Some ip \<Rightarrow> SetAddrPort cfg ip f
             | None \<Rightarrow>
                 (case socket_peer ''TCPv6:['' pathName of
                    Some ip \<Rightarrow> SetAddrPort cfg ip f
                  | None \<Rightarrow> f)))"

definition CreateObjectPath_CIM_DataFile :: "config \<Rightarrow> string \<Rightarrow> (world, objpath) py" where
  "CreateObjectPath_CIM_DataFile cfg pathName =
     andthen (modify (\<lambda>w. w\<lparr>cache_files := Some (files w)\<rparr>))
     (bnd (gets (\<lambda>w. file_at w (file_path pathName))) (\<lambda>theObj.
      case theObj of
        Some _ \<Rightarrow> ret (file_path pathName)
      | None \<Rightarrow>
          bnd (CIM_DataFile_init cfg pathName) (\<lambda>f.
          andthen (modify (put_file (file_path pathName) f))
          (ret (file_path pathName)))))"

definition SetIsExecuted :: "objpath \<Rightarrow> (world, unit) py" where
  "SetIsExecuted f = upd_file f (\<lambda>x. x\<lparr>IsExecuted := True\<rparr>)"

subsection \<open>Processes\<close>

definition set_add :: "'a \<Rightarrow> 'a list \<Rightarrow> 'a list" where
  "set_add x xs = (if x \<in> set xs then xs else xs @ [x])"

definition parse_environ :: "string \<Rightarrow> (string \<times> string) list" where
  "parse_environ line =
     fold (\<lambda>onePair env.
        let ixEq = py_find onePair ''=''
        in if onePair \<noteq> [] \<and> ixEq > 0
           then AList.update (py_upto onePair ixEq) (py_from onePair (ixEq + 1)) env else env)
       (py_split (CHR 0x00) line) []"

text \<open>The first line of \<^verbatim>\<open>/proc/<pid>/environ\<close> is read and dropped, the pairs are those of the second.\<close>

definition process_environ :: "config \<Rightarrow> int \<Rightarrow> (world, (string \<times> string) list option) py" where
  "process_environ cfg pid =
     (if G_ReplayMode cfg \<or> \<not> on_linux cfg then ret None
      else bnd tick (\<lambda>t. ret
        (case environ_at cfg t pid of
           None \<Rightarrow> None
         | Some ls \<Rightarrow> Some (parse_environ (case ls of _ # l # _ \<Rightarrow> l | _ \<Rightarrow> [])))))"

definition process_psutil :: "config \<Rightarrow> int \<Rightarrow> (world, psutil_process option) py" where
  "process_psutil cfg pid =
     (if G_ReplayMode cfg then ret None
      else (case psutil_at cfg of
          None \<Rightarrow> raise NameError
        | Some f \<Rightarrow> bnd tick (\<lambda>t. ret (f t pid))))"

text \<open>\<^verbatim>\<open>SetExecutable\<close> on an object that is not in the cache yet, and on one that is.\<close>

definition set_executable :: "objpath \<Rightarrow> cim_datafile \<Rightarrow> cim_process \<Rightarrow> cim_process" where
  "set_executable path f p = p\<lparr>Executable := Some (Name f), m_ExecutableObject := Some path\<rparr>"

definition SetExecutable :: "objpath \<Rightarrow> objpath \<Rightarrow> (world, unit) py" where
  "SetExecutable p path = bnd (get_file path) (\<lambda>f. upd_proc p (set_executable path f))"

definition process_name :: "config \<Rightarrow> psutil_process \<Rightarrow> cim_process \<Rightarrow> (world, cim_process) py" where
  "process_name cfg procObj p =
     (case ps_name procObj of
        None \<Rightarrow> ret (p\<lparr>ProcName := None\<rparr>)
      | Some nam \<Rightarrow>
          (case ps_exe procObj of
             None \<Rightarrow> ret (p\<lparr>ProcName := None\<rparr>)
           | Some execFilNam \<Rightarrow>
               bnd (CreateObjectPath_CIM_DataFile cfg execFilNam) (\<lambda>path.
               bnd (get_file path) (\<lambda>f.
               ret (set_executable path f (p\<lparr>ProcName := Some nam\<rparr>))))))"

definition process_attributes :: "config \<Rightarrow> psutil_process option \<Rightarrow> cim_process \<Rightarrow> (world, cim_process) py" where
  "process_attributes cfg procObj p =
     (case procObj of
        Some o' \<Rightarrow>
          bnd (process_name cfg o' p) (\<lambda>p.
          ret (p\<lparr>Username := ps_username o',
                 Priority := (if ps_username o' = None then None else ps_nice o'),
                 CurrentDirectory :=
                   Some (case ps_cwd o' of None \<Rightarrow> G_CurrentDirectory cfg | Some d \<Rightarrow> d)\<rparr>))
      | None \<Rightarrow>
          ret (p\<lparr>ProcName := Some (if 0 < Handle p then ''pid='' @ py_str_int (Handle p) else []),
                 Username := Some [], CurrentDirectory := Some (G_CurrentDirectory cfg),
                 Priority := Some 0\<rparr>))"

text \<open>When exactly one other process exists, it becomes the parent of the new one.\<close>

definition first_process_parent :: "cim_process \<Rightarrow> (world, cim_process) py" where
  "first_process_parent p =
     bnd (gets procs) (\<lambda>mapProcs.
     case mapProcs of
       [(firstProcId, firstProcObj)] \<Rightarrow>
         if firstProcId \<noteq> proc_path (Handle firstProcObj) then raise (PyException ''Inconsistent procid'')
         else if Handle firstProcObj = Handle p then raise (PyException ''Duplicate procid'')
         else andthen
           (upd_proc firstProcId (\<lambda>x. x\<lparr>m_subProcesses := set_add (proc_path (Handle p)) (m_subProcesses x)\<rparr>))
           (ret (p\<lparr>m_parentProcess := Some firstProcId\<rparr>))
     | _ \<Rightarrow> ret p)"

definition new_process :: "int \<Rightarrow> cim_process" where
  "new_process procId =
     \<lparr>Handle = procId, m_parentProcess = None, m_subProcesses = [], CreationDate = None,
      TerminationDate = None, m_ProcessFileAccesses = [], EnvironmentVariables = None,
      ProcName = None, Username = None, Priority = None, CurrentDirectory = None,
      Executable = None, m_ExecutableObject = None, CommandLine = None, m_commandList = None,
      IsThread = False, m_isVisited = False\<rparr>"

definition CIM_Process_init :: "config \<Rightarrow> int \<Rightarrow> (world, cim_process) py" where
  "CIM_Process_init cfg procId =
     bnd (process_environ cfg procId) (\<lambda>env.
     bnd (process_psutil cfg procId) (\<lambda>procObj.
     bnd (process_attributes cfg procObj ((new_process procId)\<lparr>EnvironmentVariables := env\<rparr>)) (\<lambda>p.
     first_process_parent p)))"

definition CreateObjectPath_CIM_Process :: "config \<Rightarrow> int \<Rightarrow> (world, objpath) py" where
  "CreateObjectPath_CIM_Process cfg procId =
     andthen (modify (\<lambda>w. w\<lparr>cache_procs := Some (procs w)\<rparr>))
     (bnd (gets (\<lambda>w. proc_at w (proc_path procId))) (\<lambda>theObj.
      case theObj of
        Some _ \<Rightarrow> ret (proc_path procId)
      | None \<Rightarrow>
          bnd (CIM_Process_init cfg procId) (\<lambda>p.
          andthen (modify (put_proc (proc_path procId) p))
          (ret (proc_path procId)))))"

definition SetParentProcess :: "objpath \<Rightarrow> objpath \<Rightarrow> (world, unit) py" where
  "SetParentProcess self parent =
     bnd (get_proc self) (\<lambda>s.
     bnd (get_proc parent) (\<lambda>p.
     if Handle s = Handle p then raise (PyException ''Self-parent'')
     else andthen (upd_proc self (\<lambda>x. x\<lparr>m_parentProcess := Some parent\<rparr>))
            (upd_proc parent (\<lambda>x. x\<lparr>m_subProcesses := set_add self (m_subProcesses x)\<rparr>))))"

definition AddParentProcess :: "objpath \<Rightarrow> string \<Rightarrow> objpath \<Rightarrow> (world, unit) py" where
  "AddParentProcess self timeStamp parent =
     andthen (SetParentProcess self parent)
       (upd_proc self (\<lambda>x. x\<lparr>CreationDate := Some timeStamp\<rparr>))"

definition WaitProcessEnd :: "objpath \<Rightarrow> string \<Rightarrow> objpath \<Rightarrow> (world, unit) py" where
  "WaitProcessEnd self timeStamp other =
     andthen (upd_proc self (\<lambda>x. x\<lparr>TerminationDate := Some timeStamp\<rparr>))
       (bnd (get_proc self) (\<lambda>s.
        if m_parentProcess s = None then SetParentProcess self other else ret ()))"

text \<open>Iterating over a Python value.\<close>

definition py_iter :: "pyval \<Rightarrow> pyval list pyres" where
  "py_iter v =
     (case v of VList vs \<Rightarrow> Inr vs | VStr s \<Rightarrow> Inr (map (\<lambda>c. VStr [c]) s) | _ \<Rightarrow> Inl TypeError)"

definition SetCommandLine :: "objpath \<Rightarrow> pyval \<Rightarrow> (world, unit) py" where
  "SetCommandLine self lstCmdLine =
     (if truthy lstCmdLine then
        bnd (of_res (py_iter lstCmdLine)) (\<lambda>elts.
        upd_proc self (\<lambda>x. x\<lparr>CommandLine := Some (py_join '' '' (map py_str elts)),
                             m_commandList := Some lstCmdLine\<rparr>))
      else ret ())"

definition GetCommandLine :: "cim_process \<Rightarrow> string" where
  "GetCommandLine p =
     (case CommandLine p of
        Some c \<Rightarrow> if c \<noteq> [] then c else (case Executable p of None \<Rightarrow> [] | Some e \<Rightarrow> e)
      | None \<Rightarrow> (case Executable p of None \<Rightarrow> [] | Some e \<Rightarrow> e))"

definition GetCommandList :: "cim_process \<Rightarrow> pyval" where
  "GetCommandList p =
     (let dflt = (case Executable p of None \<Rightarrow> VList [] | Some e \<Rightarrow> VList [VStr e])
      in case m_commandList p of Some l \<Rightarrow> if truthy l then l else dflt | None \<Rightarrow> dflt)"

definition SetThread :: "objpath \<Rightarrow> (world, unit) py" where
  "SetThread self = upd_proc self (\<lambda>x. x\<lparr>IsThread := True\<rparr>)"

definition SetProcessCurrentDir :: "objpath \<Rightarrow> objpath \<Rightarrow> (world, unit) py" where
  "SetProcessCurrentDir self currDirObject =
     bnd (get_file currDirObject) (\<lambda>f. upd_proc self (\<lambda>x. x\<lparr>CurrentDirectory := Some (Name f)\<rparr>))"

definition GetProcessCurrentDir :: "cim_process \<Rightarrow> string" where
  "GetProcessCurrentDir p = (case CurrentDirectory p of None \<Rightarrow> ''UnknownCwd'' | Some d \<Rightarrow> d)"

definition GlobalTerminationDate :: "string \<Rightarrow> world \<Rightarrow> world" where
  "GlobalTerminationDate timeEnd w =
     w\<lparr>cache_procs := map_option (map (\<lambda>(k, p).
          (k, if no_text (TerminationDate p) then p\<lparr>TerminationDate := Some timeEnd\<rparr> else p)))
        (cache_procs w)\<rparr>"

definition GetTopProcesses :: "world \<Rightarrow> objpath list pyres" where
  "GetTopProcesses w =
     (case cache_procs w of
        None \<Rightarrow> Inl KeyError
      | Some m \<Rightarrow>
          (let setSubProcs = concat (map (\<lambda>(k, p). m_subProcesses p) m)
           in Inr (filter (\<lambda>k. k \<notin> set setSubProcs) (map fst m))))"

text \<open>The loop up to the ancestor without parent; \<open>None\<close> is a loop that never ends.\<close>

partial_function (option) TopProcessFromProc :: "world \<Rightarrow> objpath \<Rightarrow> objpath option" where
  "TopProcessFromProc w p =
     (case Option.bind (proc_at w p) m_parentProcess of
        None \<Rightarrow> Some p
      | Some q \<Rightarrow> TopProcessFromProc w q)"

subsection \<open>File accesses\<close>

definition new_access :: "objpath \<Rightarrow> objpath \<Rightarrow> file_access" where
  "new_access objProcess objDataFile =
     \<lparr>OpenTime = None, CloseTime = None, m_objectCIM_Process = objProcess,
      m_objectCIM_DataFile = objDataFile, NumOpen = None, OpenSize = None, CloseSize = None,
      NumReads = None, BytesRead = None, NumWrites = None, BytesWritten = None,
      m_bufConcatRead = None, m_bufConcatWrite = None\<rparr>"

text \<open>The constructor registers the access in its process and in its file.\<close>

definition FileAccess_init :: "objpath \<Rightarrow> objpath \<Rightarrow> (world, nat) py" where
  "FileAccess_init objProcess objDataFile =
     bnd (get_proc objProcess) (\<lambda>p.
     bnd (get_file objDataFile) (\<lambda>f.
     bnd (gets (\<lambda>w. length (accesses w))) (\<lambda>i.
     andthen (modify (\<lambda>w. w\<lparr>accesses := accesses w @ [new_access objProcess objDataFile]\<rparr>))
     (andthen (upd_proc objProcess (\<lambda>x. x\<lparr>m_ProcessFileAccesses := m_ProcessFileAccesses x @ [i]\<rparr>))
     (andthen (upd_file objDataFile (\<lambda>x. x\<lparr>m_DataFileFileAccesses := m_DataFileFileAccesses x @ [i]\<rparr>))
     (ret i))))))"

definition cached_access :: "world \<Rightarrow> objpath \<Rightarrow> objpath \<Rightarrow> nat option" where
  "cached_access w p f =
     (case map_of (G_cacheFileAccesses w) p of None \<Rightarrow> None | Some m \<Rightarrow> map_of m f)"

definition store_access :: "objpath \<Rightarrow> objpath \<Rightarrow> nat \<Rightarrow> world \<Rightarrow> world" where
  "store_access p f i w =
     w\<lparr>G_cacheFileAccesses := AList.update p
        (case map_of (G_cacheFileAccesses w) p of None \<Rightarrow> [(f, i)] | Some m \<Rightarrow> AList.update f i m)
        (G_cacheFileAccesses w)\<rparr>"

definition LookupFileAccess :: "objpath \<Rightarrow> objpath \<Rightarrow> (world, nat) py" where
  "LookupFileAccess objProcess objDataFile =
     bnd (gets (\<lambda>w. cached_access w objProcess objDataFile)) (\<lambda>c.
     case c of
       Some i \<Rightarrow> ret i
     | None \<Rightarrow>
         bnd (FileAccess_init objProcess objDataFile) (\<lambda>i.
         andthen (modify (store_access objProcess objDataFile i)) (ret i)))"

definition GetFileAccess :: "objpath \<Rightarrow> objpath \<Rightarrow> (world, nat) py" where
  "GetFileAccess self objCIM_DataFile = LookupFileAccess self objCIM_DataFile"

definition earlier :: "string \<Rightarrow> string option \<Rightarrow> bool" where
  "earlier timeStamp t = (case t of None \<Rightarrow> True | Some u \<Rightarrow> u = [] \<or> timeStamp < u)"

text \<open>The size of the file of an access, if the log was written on this machine.\<close>

definition access_size :: "config \<Rightarrow> nat \<Rightarrow> (world, int option) py" where
  "access_size cfg i =
     (if G_SameMachine cfg then
        bnd (get_access i) (\<lambda>a.
        bnd (get_file (m_objectCIM_DataFile a)) (\<lambda>f.
        bnd tick (\<lambda>t. ret (map_option st_size (os_stat_at cfg t (Name f))))))
      else ret None)"

definition SetOpenTime :: "config \<Rightarrow> nat \<Rightarrow> string \<Rightarrow> (world, unit) py" where
  "SetOpenTime cfg i timeStamp =
     andthen (upd_access i (\<lambda>a. a\<lparr>NumOpen := Some (case NumOpen a of None \<Rightarrow> 1 | Some n \<Rightarrow> n + 1)\<rparr>))
     (bnd (get_access i) (\<lambda>a.
      andthen
        (if earlier timeStamp (OpenTime a) then
           andthen (upd_access i (\<lambda>a. a\<lparr>OpenTime := Some timeStamp\<rparr>))
           (bnd (access_size cfg i) (\<lambda>sz.
            case sz of None \<Rightarrow> ret () | Some n \<Rightarrow> upd_access i (\<lambda>a. a\<lparr>OpenSize := Some n\<rparr>)))
         else ret ())
      (bnd (gets (\<lambda>w. map_of (G_cacheFileAccesses w) (m_objectCIM_Process a))) (\<lambda>m.
       case m of
         None \<Rightarrow> raise KeyError
       | Some _ \<Rightarrow> modify (store_access (m_objectCIM_Process a) (m_objectCIM_DataFile a) i)))))"

definition SetCloseTime :: "config \<Rightarrow> nat \<Rightarrow> string \<Rightarrow> (world, unit) py" where
  "SetCloseTime cfg i timeStamp =
     bnd (get_access i) (\<lambda>a.
     andthen
       (if earlier timeStamp (CloseTime a) then
          andthen (upd_access i (\<lambda>a. a\<lparr>CloseTime := Some timeStamp\<rparr>))
          (bnd (access_size cfg i) (\<lambda>sz.
           case sz of None \<Rightarrow> ret () | Some n \<Rightarrow> upd_access i (\<lambda>a. a\<lparr>CloseSize := Some n\<rparr>)))
        else ret ())
     (bnd (gets (\<lambda>w. map_of (G_cacheFileAccesses w) (m_objectCIM_Process a))) (\<lambda>m.
      case m of
        None \<Rightarrow> raise KeyError
      | Some l \<Rightarrow>
          if map_of l (m_objectCIM_DataFile a) = None then raise KeyError
          else modify (\<lambda>w. w\<lparr>G_cacheFileAccesses :=
                 AList.update (m_objectCIM_Process a) (AList.delete (m_objectCIM_DataFile a) l)
                   (G_cacheFileAccesses w)\<rparr>))))"

text \<open>
  The buffer of a read or a write is given to the concatenator of the access, unless the file is a
  plain file. Any exception of the concatenator ends the program.
\<close>

definition AnalyseNewBuffer :: "config \<Rightarrow> nat \<Rightarrow> bool \<Rightarrow> int \<Rightarrow> pyval \<Rightarrow> (world, unit) py" where
  "AnalyseNewBuffer cfg i isRead szBuffer aBuffer =
     (if \<not> truthy aBuffer then ret ()
      else
        bnd (get_access i) (\<lambda>a.
        bnd (get_file (m_objectCIM_DataFile a)) (\<lambda>f.
        if IsPlainFile (Name f) then ret ()
        else
          (let concatBuf = (case (if isRead then m_bufConcatRead a else m_bufConcatWrite a) of
                              None \<Rightarrow> BufferConcatenator_init | Some b \<Rightarrow> b)
           in case AppendIOBuffer (BufferScanners cfg) aBuffer szBuffer concatBuf of
                Inl _ \<Rightarrow> raise SystemExit
              | Inr b \<Rightarrow>
                  upd_access i (\<lambda>a. if isRead then a\<lparr>m_bufConcatRead := Some b\<rparr>
                                    else a\<lparr>m_bufConcatWrite := Some b\<rparr>)))))"

definition SetRead :: "config \<Rightarrow> nat \<Rightarrow> int \<Rightarrow> pyval \<Rightarrow> (world, unit) py" where
  "SetRead cfg i bytesRead bufferRead =
     andthen (upd_access i (\<lambda>a. a\<lparr>
         NumReads := Some (case NumReads a of None \<Rightarrow> 1 | Some n \<Rightarrow> n + 1),
         BytesRead := Some (case BytesRead a of None \<Rightarrow> bytesRead | Some n \<Rightarrow> n + bytesRead)\<rparr>))
       (AnalyseNewBuffer cfg i True bytesRead bufferRead)"

definition SetWritten :: "config \<Rightarrow> nat \<Rightarrow> int \<Rightarrow> pyval \<Rightarrow> (world, unit) py" where
  "SetWritten cfg i bytesWritten bufferWrite =
     andthen (upd_access i (\<lambda>a. a\<lparr>
         NumWrites := Some (case NumWrites a of None \<Rightarrow> 1 | Some n \<Rightarrow> n + 1),
         BytesWritten := Some (case BytesWritten a of None \<Rightarrow> bytesWritten | Some n \<Rightarrow> n + bytesWritten)\<rparr>))
       (AnalyseNewBuffer cfg i False bytesWritten bufferWrite)"

subsection \<open>From the names of the log to the objects\<close>

definition ToObjectPath_CIM_Process :: "config \<Rightarrow> int \<Rightarrow> (world, objpath) py" where
  "ToObjectPath_CIM_Process cfg aPid = CreateObjectPath_CIM_Process cfg aPid"

text \<open>A name that is no text makes the regular expression of \<^verbatim>\<open>ToAbsPath\<close> raise a TypeError.\<close>

definition abs_path :: "pyval \<Rightarrow> pyval \<Rightarrow> string pyres" where
  "abs_path dirPath filNam = (case filNam of VStr f \<Rightarrow> ToAbsPath dirPath f | _ \<Rightarrow> Inl TypeError)"

definition ToObjectPath_CIM_DataFile :: "config \<Rightarrow> pyval \<Rightarrow> int \<Rightarrow> (world, objpath) py" where
  "ToObjectPath_CIM_DataFile cfg pathName aPid =
     bnd (if aPid \<noteq> 0 then
            bnd (ToObjectPath_CIM_Process cfg aPid) (\<lambda>objProcess.
            bnd (get_proc objProcess) (\<lambda>p. ret (GetProcessCurrentDir p)))
          else ret []) (\<lambda>dirPath.
     bnd (of_res (abs_path (VStr dirPath) pathName)) (\<lambda>absName.
     CreateObjectPath_CIM_DataFile cfg absName))"

definition STraceStreamToPathname :: "pyval \<Rightarrow> (world, pyval) py" where
  "STraceStreamToPathname strm =
     (case strm of
        VStr s \<Rightarrow>
          (let idxLT = py_find s ''<''
           in if 0 \<le> idxLT then ret (VStr (py_slice s (idxLT + 1) (- 1)))
              else bnd (gets (\<lambda>w. map_of (G_mapFilDesToPathName w) s)) (\<lambda>p.
                case p of
                  Some v \<Rightarrow> ret v
                | None \<Rightarrow> ret (VStr (if s = ''-1'' then ''Invalid device''
                                     else ''UnknownFileDescr:'' @ s))))
      | _ \<Rightarrow> raise AttributeError)"

end
