(* ===== verification/ObjectsInv.thy ===== *)
theory ObjectsInv
  imports Objects
begin

text \<open>
  The invariant of the objects, and its preservation by every operation on them: each object is
  held under its own path, the parent links and the sets of sub-processes agree, no process is its
  own parent, the accesses listed in a process or in a file are exactly its own, in the order of
  their creation, and the cache of open accesses answers with accesses of the right process and
  file.
\<close>

subsection \<open>The invariant\<close>

definition wf_keys :: "world \<Rightarrow> bool" where
  "wf_keys w \<longleftrightarrow>
     distinct (map fst (procs w)) \<and> distinct (map fst (files w)) \<and>
     (\<forall>k p. proc_at w k = Some p \<longrightarrow> k = proc_path (Handle p)) \<and>
     (\<forall>k f. file_at w k = Some f \<longrightarrow> k = file_path (Name f))"

definition wf_tree :: "world \<Rightarrow> bool" where
  "wf_tree w \<longleftrightarrow>
     (\<forall>k p. proc_at w k = Some p \<longrightarrow>
        (\<forall>q. m_parentProcess p = Some q \<longrightarrow>
           q \<noteq> k \<and> (\<exists>x. proc_at w q = Some x \<and> k \<in> set (m_subProcesses x))) \<and>
        (\<forall>c \<in> set (m_subProcesses p). proc_at w c \<noteq> None))"

definition wf_accesses :: "world \<Rightarrow> bool" where
  "wf_accesses w \<longleftrightarrow>
     (\<forall>a \<in> set (accesses w). proc_at w (m_objectCIM_Process a) \<noteq> None \<and>
                             file_at w (m_objectCIM_DataFile a) \<noteq> None) \<and>
     (\<forall>k p. proc_at w k = Some p \<longrightarrow> m_ProcessFileAccesses p =
        filter (\<lambda>i. m_objectCIM_Process (accesses w ! i) = k) [0..<length (accesses w)]) \<and>
     (\<forall>k f. file_at w k = Some f \<longrightarrow> m_DataFileFileAccesses f =
        filter (\<lambda>i. m_objectCIM_DataFile (accesses w ! i) = k) [0..<length (accesses w)])"

definition wf_cache :: "world \<Rightarrow> bool" where
  "wf_cache w \<longleftrightarrow>
     (\<forall>p f i. cached_access w p f = Some i \<longrightarrow>
        i < length (accesses w) \<and> m_objectCIM_Process (accesses w ! i) = p \<and>
        m_objectCIM_DataFile (accesses w ! i) = f)"

definition wf_world :: "world \<Rightarrow> bool" where
  "wf_world w \<longleftrightarrow> wf_keys w \<and> wf_tree w \<and> wf_accesses w \<and> wf_cache w"

lemmas wf_defs = wf_keys_def wf_tree_def wf_accesses_def wf_cache_def

lemma wfE:
  assumes "wf_world w"
  obtains "wf_keys w" "wf_tree w" "wf_accesses w" "wf_cache w"
  using assms by (simp add: wf_world_def)

lemma wf_keysI:
  "distinct (map fst (procs w)) \<Longrightarrow> distinct (map fst (files w)) \<Longrightarrow>
   (\<And>k p. proc_at w k = Some p \<Longrightarrow> k = proc_path (Handle p)) \<Longrightarrow>
   (\<And>k f. file_at w k = Some f \<Longrightarrow> k = file_path (Name f)) \<Longrightarrow> wf_keys w"
  unfolding wf_keys_def by blast

lemma wf_keysD:
  assumes "wf_keys w"
  shows "distinct (map fst (procs w))" "distinct (map fst (files w))"
    "proc_at w k = Some p \<Longrightarrow> k = proc_path (Handle p)"
    "file_at w k = Some f \<Longrightarrow> k = file_path (Name f)"
  using assms unfolding wf_keys_def by blast+

lemma wf_treeI:
  "(\<And>k p q. proc_at w k = Some p \<Longrightarrow> m_parentProcess p = Some q \<Longrightarrow>
      q \<noteq> k \<and> (\<exists>x. proc_at w q = Some x \<and> k \<in> set (m_subProcesses x))) \<Longrightarrow>
   (\<And>k p c. proc_at w k = Some p \<Longrightarrow> c \<in> set (m_subProcesses p) \<Longrightarrow> \<exists>x. proc_at w c = Some x) \<Longrightarrow>
   wf_tree w"
  unfolding wf_tree_def by blast

lemma wf_treeD:
  assumes "wf_tree w" "proc_at w k = Some p"
  shows "m_parentProcess p = Some q \<Longrightarrow> q \<noteq> k"
    "m_parentProcess p = Some q \<Longrightarrow> \<exists>x. proc_at w q = Some x \<and> k \<in> set (m_subProcesses x)"
    "c \<in> set (m_subProcesses p) \<Longrightarrow> \<exists>x. proc_at w c = Some x"
  using assms unfolding wf_tree_def by blast+

abbreviation proc_accesses :: "world \<Rightarrow> objpath \<Rightarrow> nat list" where
  "proc_accesses w k \<equiv> filter (\<lambda>i. m_objectCIM_Process (accesses w ! i) = k) [0..<length (accesses w)]"

abbreviation file_accesses :: "world \<Rightarrow> objpath \<Rightarrow> nat list" where
  "file_accesses w k \<equiv> filter (\<lambda>i. m_objectCIM_DataFile (accesses w ! i) = k) [0..<length (accesses w)]"

lemma wf_accessesI:
  "(\<And>a. a \<in> set (accesses w) \<Longrightarrow> \<exists>p. proc_at w (m_objectCIM_Process a) = Some p) \<Longrightarrow>
   (\<And>a. a \<in> set (accesses w) \<Longrightarrow> \<exists>f. file_at w (m_objectCIM_DataFile a) = Some f) \<Longrightarrow>
   (\<And>k p. proc_at w k = Some p \<Longrightarrow> m_ProcessFileAccesses p = proc_accesses w k) \<Longrightarrow>
   (\<And>k f. file_at w k = Some f \<Longrightarrow> m_DataFileFileAccesses f = file_accesses w k) \<Longrightarrow>
   wf_accesses w"
  unfolding wf_accesses_def by blast

lemma wf_accessesD:
  assumes "wf_accesses w"
  shows "a \<in> set (accesses w) \<Longrightarrow> \<exists>p. proc_at w (m_objectCIM_Process a) = Some p"
    "a \<in> set (accesses w) \<Longrightarrow> \<exists>f. file_at w (m_objectCIM_DataFile a) = Some f"
    "proc_at w k = Some p \<Longrightarrow> m_ProcessFileAccesses p = proc_accesses w k"
    "file_at w k = Some f \<Longrightarrow> m_DataFileFileAccesses f = file_accesses w k"
  using assms unfolding wf_accesses_def by blast+

lemma wf_accesses_fresh:
  assumes "wf_accesses w"
  shows "proc_at w k = None \<Longrightarrow> proc_accesses w k = []" "file_at w k = None \<Longrightarrow> file_accesses w k = []"
proof -
  show "proc_accesses w k = []" if "proc_at w k = None"
  proof (rule ccontr)
    assume "proc_accesses w k \<noteq> []"
    then obtain i where "i < length (accesses w)" "m_objectCIM_Process (accesses w ! i) = k"
      by (auto simp: filter_empty_conv)
    with wf_accessesD(1) [OF assms nth_mem] that show False by fastforce
  qed
  show "file_accesses w k = []" if "file_at w k = None"
  proof (rule ccontr)
    assume "file_accesses w k \<noteq> []"
    then obtain i where "i < length (accesses w)" "m_objectCIM_DataFile (accesses w ! i) = k"
      by (auto simp: filter_empty_conv)
    with wf_accessesD(2) [OF assms nth_mem] that show False by fastforce
  qed
qed

lemma wf_cacheD:
  assumes "wf_cache w" "cached_access w p f = Some i"
  shows "i < length (accesses w)" "m_objectCIM_Process (accesses w ! i) = p"
    "m_objectCIM_DataFile (accesses w ! i) = f"
  using assms unfolding wf_cache_def by blast+

lemma wf_worldI:
  "wf_keys w \<Longrightarrow> wf_tree w \<Longrightarrow> wf_accesses w \<Longrightarrow> wf_cache w \<Longrightarrow> wf_world w"
  by (simp add: wf_world_def)

subsection \<open>Paths are injective\<close>

lemma proc_path_eq: "proc_path pid = ''CIM_Process.Handle='' @ [CHR 0x22] @ py_str_int pid @ [CHR 0x22]"
  by (simp add: proc_path_def CreateMonikerKey_def)

lemma file_path_eq: "file_path f = ''CIM_DataFile.Name='' @ [CHR 0x22] @ f @ [CHR 0x22]"
  by (simp add: file_path_def CreateMonikerKey_def)

lemma proc_path_inj [simp]: "proc_path a = proc_path b \<longleftrightarrow> a = b"
  by (auto simp: proc_path_eq dest: py_str_int_inj)

lemma file_path_inj [simp]: "file_path a = file_path b \<longleftrightarrow> a = b"
  by (auto simp: file_path_eq)

lemma wf_handle: "wf_world w \<Longrightarrow> proc_at w (proc_path pid) = Some p \<Longrightarrow> Handle p = pid"
  unfolding wf_world_def wf_keys_def by (metis proc_path_inj)

lemma wf_name: "wf_world w \<Longrightarrow> file_at w (file_path n) = Some f \<Longrightarrow> Name f = n"
  unfolding wf_world_def wf_keys_def by (metis file_path_inj)

subsection \<open>What the invariant depends on\<close>

definition proc_links :: "cim_process \<Rightarrow> int \<times> objpath option \<times> objpath list \<times> nat list" where
  "proc_links p = (Handle p, m_parentProcess p, m_subProcesses p, m_ProcessFileAccesses p)"

definition file_links :: "cim_datafile \<Rightarrow> string \<times> nat list" where
  "file_links f = (Name f, m_DataFileFileAccesses f)"

definition access_ends :: "file_access \<Rightarrow> objpath \<times> objpath" where
  "access_ends a = (m_objectCIM_Process a, m_objectCIM_DataFile a)"

text \<open>Two states with the same links: one is well-formed when the other one is.\<close>

definition same_links :: "world \<Rightarrow> world \<Rightarrow> bool" where
  "same_links w w' \<longleftrightarrow>
     map fst (procs w') = map fst (procs w) \<and> map fst (files w') = map fst (files w) \<and>
     (\<forall>k. map_option proc_links (proc_at w' k) = map_option proc_links (proc_at w k)) \<and>
     (\<forall>k. map_option file_links (file_at w' k) = map_option file_links (file_at w k)) \<and>
     map access_ends (accesses w') = map access_ends (accesses w) \<and>
     G_cacheFileAccesses w' = G_cacheFileAccesses w"

lemma same_links_refl: "same_links w w"
  by (simp add: same_links_def)

lemma same_links_proc:
  assumes "same_links w w'" "proc_at w' k = Some p'"
  obtains p where "proc_at w k = Some p" "Handle p' = Handle p" "m_parentProcess p' = m_parentProcess p"
    "m_subProcesses p' = m_subProcesses p" "m_ProcessFileAccesses p' = m_ProcessFileAccesses p"
proof -
  have "map_option proc_links (proc_at w k) = Some (proc_links p')"
    using assms by (metis option.simps(9) same_links_def)
  then show ?thesis using that by (auto simp: proc_links_def)
qed

lemma same_links_file:
  assumes "same_links w w'" "file_at w' k = Some f'"
  obtains f where "file_at w k = Some f" "Name f' = Name f"
    "m_DataFileFileAccesses f' = m_DataFileFileAccesses f"
proof -
  have "map_option file_links (file_at w k) = Some (file_links f')"
    using assms by (metis option.simps(9) same_links_def)
  then show ?thesis using that by (auto simp: file_links_def)
qed

lemma same_links_sym: "same_links w w' \<Longrightarrow> same_links w' w"
  by (simp add: same_links_def)

lemma same_links_some:
  assumes "same_links w w'"
  shows "proc_at w' k = None \<longleftrightarrow> proc_at w k = None" "file_at w' k = None \<longleftrightarrow> file_at w k = None"
  using assms by (metis option.map_disc_iff same_links_def)+

lemma same_links_length: "same_links w w' \<Longrightarrow> length (accesses w') = length (accesses w)"
  by (metis length_map same_links_def)

lemma same_links_ends:
  assumes "same_links w w'" "i < length (accesses w)"
  shows "m_objectCIM_Process (accesses w' ! i) = m_objectCIM_Process (accesses w ! i)"
    "m_objectCIM_DataFile (accesses w' ! i) = m_objectCIM_DataFile (accesses w ! i)"
proof -
  have "access_ends (accesses w' ! i) = access_ends (accesses w ! i)"
  proof -
    have "map access_ends (accesses w') ! i = map access_ends (accesses w) ! i"
      using assms(1) by (simp add: same_links_def)
    then show ?thesis using assms(2) same_links_length [OF assms(1)] by simp
  qed
  then show "m_objectCIM_Process (accesses w' ! i) = m_objectCIM_Process (accesses w ! i)"
    "m_objectCIM_DataFile (accesses w' ! i) = m_objectCIM_DataFile (accesses w ! i)"
    by (simp_all add: access_ends_def)
qed

lemma same_links_filter:
  assumes "same_links w w'"
  shows "filter (\<lambda>i. m_objectCIM_Process (accesses w' ! i) = k) [0..<length (accesses w')] =
      filter (\<lambda>i. m_objectCIM_Process (accesses w ! i) = k) [0..<length (accesses w)]"
    "filter (\<lambda>i. m_objectCIM_DataFile (accesses w' ! i) = k) [0..<length (accesses w')] =
      filter (\<lambda>i. m_objectCIM_DataFile (accesses w ! i) = k) [0..<length (accesses w)]"
  by (rule filter_cong; simp add: same_links_length [OF assms] same_links_ends [OF assms])+

lemma wf_same_links:
  assumes s: "same_links w w'" and w: "wf_world w"
  shows "wf_world w'"
proof -
  from w have k: "wf_keys w" and t: "wf_tree w" and a: "wf_accesses w" and c: "wf_cache w"
    by (simp_all add: wf_world_def)
  have "k = proc_path (Handle p')" if "proc_at w' k = Some p'" for k p'
    using k same_links_proc [OF s that] unfolding wf_keys_def by metis
  moreover have "k = file_path (Name f')" if "file_at w' k = Some f'" for k f'
    using k same_links_file [OF s that] unfolding wf_keys_def by metis
  moreover have "map fst (procs w') = map fst (procs w)" "map fst (files w') = map fst (files w)"
    using s by (simp_all add: same_links_def)
  ultimately have "wf_keys w'"
    using k unfolding wf_keys_def by simp
  moreover have "wf_tree w'"
    unfolding wf_tree_def
  proof (intro allI impI)
    fix k p' assume p': "proc_at w' k = Some p'"
    then obtain p where p: "proc_at w k = Some p" "m_parentProcess p' = m_parentProcess p"
      "m_subProcesses p' = m_subProcesses p" using same_links_proc [OF s] by metis
    have "q \<noteq> k \<and> (\<exists>x. proc_at w' q = Some x \<and> k \<in> set (m_subProcesses x))"
      if "m_parentProcess p' = Some q" for q
    proof -
      from that p t obtain x where x: "q \<noteq> k" "proc_at w q = Some x" "k \<in> set (m_subProcesses x)"
        unfolding wf_tree_def by metis
      then obtain x' where "proc_at w' q = Some x'" "m_subProcesses x = m_subProcesses x'"
        using same_links_proc [OF same_links_sym [OF s] x(2)] by metis
      with x show ?thesis by auto
    qed
    moreover have "proc_at w' c \<noteq> None" if "c \<in> set (m_subProcesses p')" for c
      using that p t same_links_some(1) [OF s, of c] unfolding wf_tree_def by auto
    ultimately show "(\<forall>q. m_parentProcess p' = Some q \<longrightarrow>
           q \<noteq> k \<and> (\<exists>x. proc_at w' q = Some x \<and> k \<in> set (m_subProcesses x))) \<and>
        (\<forall>c \<in> set (m_subProcesses p'). proc_at w' c \<noteq> None)"
      by blast
  qed
  moreover have "wf_accesses w'"
  proof -
    have "proc_at w' (m_objectCIM_Process x) \<noteq> None \<and> file_at w' (m_objectCIM_DataFile x) \<noteq> None"
      if "x \<in> set (accesses w')" for x
    proof -
      from that obtain i where i: "i < length (accesses w)" "x = accesses w' ! i"
        by (metis in_set_conv_nth same_links_length [OF s])
      then show ?thesis
        using a same_links_ends [OF s] same_links_some [OF s] nth_mem
        unfolding wf_accesses_def by metis
    qed
    moreover have "m_ProcessFileAccesses p' =
        filter (\<lambda>i. m_objectCIM_Process (accesses w' ! i) = k) [0..<length (accesses w')]"
      if "proc_at w' k = Some p'" for k p'
      unfolding same_links_filter [OF s]
      using a same_links_proc [OF s that] unfolding wf_accesses_def by metis
    moreover have "m_DataFileFileAccesses f' =
        filter (\<lambda>i. m_objectCIM_DataFile (accesses w' ! i) = k) [0..<length (accesses w')]"
      if "file_at w' k = Some f'" for k f'
      unfolding same_links_filter [OF s]
      using a same_links_file [OF s that] unfolding wf_accesses_def by metis
    ultimately show ?thesis unfolding wf_accesses_def by blast
  qed
  moreover have "wf_cache w'"
  proof -
    have "cached_access w' = cached_access w"
      using s by (auto simp: cached_access_def same_links_def fun_eq_iff)
    then show ?thesis
      using c same_links_ends [OF s] same_links_length [OF s] unfolding wf_cache_def by simp
  qed
  ultimately show ?thesis by (simp add: wf_world_def)
qed

definition links_kept :: "(world, 'a) py \<Rightarrow> bool" where
  "links_kept m \<longleftrightarrow> (\<forall>w. same_links w (snd (m w)))"

lemma keeps_wf_links: "links_kept m \<Longrightarrow> keeps wf_world m"
  by (auto simp: links_kept_def intro: keepsI wf_same_links)


subsection \<open>Operations that keep the links\<close>

lemma wf_world_links:
  assumes "wf_world w" "same_links w w'"
  shows "wf_world w'"
  using assms wf_same_links by blast

lemma same_links_put_proc:
  "proc_at w k = Some x \<Longrightarrow> proc_links y = proc_links x \<Longrightarrow> same_links w (put_proc k y w)"
  by (simp add: same_links_def keys_update_present proc_at_def)

lemma same_links_put_file:
  "file_at w k = Some x \<Longrightarrow> file_links y = file_links x \<Longrightarrow> same_links w (put_file k y w)"
  by (simp add: same_links_def keys_update_present file_at_def)

lemma same_links_put_access:
  "i < length (accesses w) \<Longrightarrow> access_ends y = access_ends (accesses w ! i) \<Longrightarrow>
   same_links w (put_access i y w)"
  by (auto simp: same_links_def map_update list_update_same_conv)

lemma keeps_wf_upd_proc:
  "(\<And>x. proc_links (f x) = proc_links x) \<Longrightarrow> keeps wf_world (upd_proc k f)"
  by (rule keeps_wf_links) (simp add: links_kept_def same_links_put_proc same_links_refl split: option.split)

lemma keeps_wf_upd_file:
  "(\<And>x. file_links (f x) = file_links x) \<Longrightarrow> keeps wf_world (upd_file k f)"
  by (rule keeps_wf_links) (simp add: links_kept_def same_links_put_file same_links_refl split: option.split)

lemma keeps_wf_upd_access:
  "(\<And>x. access_ends (f x) = access_ends x) \<Longrightarrow> keeps wf_world (upd_access k f)"
  by (rule keeps_wf_links) (simp add: links_kept_def same_links_put_access same_links_refl)

lemma keeps_wf_modify: "(\<And>w. same_links w (f w)) \<Longrightarrow> keeps wf_world (modify f)"
  by (rule keeps_wf_links) (simp add: links_kept_def)

lemma keeps_wf_get [keeps_rules]:
  "keeps I (get_proc p)" "keeps I (get_file f)" "keeps I (get_access i)" "keeps I (get_core c)"
  by (auto simp: keeps_def split: option.split)

lemma keeps_wf_tick [keeps_rules]: "keeps wf_world tick"
  by (rule keeps_wf_links) (simp add: links_kept_def same_links_def)

lemma keeps_wf_new_core [keeps_rules]: "keeps wf_world (new_core c)"
  by (rule keeps_wf_links) (simp add: links_kept_def same_links_def)

lemma keeps_wf_upd_core [keeps_rules]: "keeps wf_world (upd_core i f)"
  by (rule keeps_wf_links) (simp add: links_kept_def same_links_def)

lemmas links_defs = proc_links_def file_links_def access_ends_def

lemma keeps_wf_plain [keeps_rules]:
  "keeps wf_world (SetIsExecuted f)" "keeps wf_world (SetExecutable p f)"
  "keeps wf_world (SetThread p)" "keeps wf_world (SetCommandLine p v)"
  "keeps wf_world (SetProcessCurrentDir p f)"
  unfolding SetIsExecuted_def SetExecutable_def set_executable_def SetThread_def SetCommandLine_def
    SetProcessCurrentDir_def
  by (intro keeps_rules keeps_wf_upd_proc keeps_wf_upd_file; simp add: links_defs)+

lemma keeps_wf_access_size [keeps_rules]: "keeps wf_world (access_size cfg i)"
  unfolding access_size_def by (intro keeps_rules)

lemma keeps_wf_AnalyseNewBuffer [keeps_rules]: "keeps wf_world (AnalyseNewBuffer cfg i r n b)"
  unfolding AnalyseNewBuffer_def Let_def
  by (intro keeps_rules keeps_wf_upd_access) (simp add: links_defs)

lemma keeps_wf_SetRead [keeps_rules]: "keeps wf_world (SetRead cfg i n b)"
  unfolding SetRead_def by (intro keeps_rules keeps_wf_upd_access) (simp add: links_defs)

lemma keeps_wf_SetWritten [keeps_rules]: "keeps wf_world (SetWritten cfg i n b)"
  unfolding SetWritten_def by (intro keeps_rules keeps_wf_upd_access) (simp add: links_defs)

subsection \<open>Operations that create objects\<close>

lemma cached_access_put [simp]:
  "cached_access (put_proc k p w) = cached_access w"
  "cached_access (put_file k f w) = cached_access w"
  by (simp_all add: cached_access_def fun_eq_iff)

lemma wf_new_file:
  assumes w: "wf_world w" and new: "file_at w (file_path (Name f)) = None"
    and f: "m_DataFileFileAccesses f = []"
  shows "wf_world (put_file (file_path (Name f)) f w)" (is "wf_world ?w'")
proof -
  have k: "wf_keys w" and t: "wf_tree w" and a: "wf_accesses w" and c: "wf_cache w"
    using w by (simp_all add: wf_world_def)
  have "wf_keys ?w'"
    using wf_keysD [OF k] by (auto intro!: wf_keysI simp: distinct_update split: if_splits)
  moreover have "wf_tree ?w'"
    using t by (simp add: wf_tree_def)
  moreover have "wf_accesses ?w'"
    using wf_accessesD [OF a] wf_accesses_fresh [OF a] new f
    by (auto intro!: wf_accessesI split: if_splits)
  moreover have "wf_cache ?w'"
    using c by (simp add: wf_cache_def)
  ultimately show ?thesis by (rule wf_worldI)
qed

lemma wf_new_proc:
  assumes w: "wf_world w" and new: "proc_at w (proc_path (Handle p)) = None"
    and p: "m_subProcesses p = []" "m_ProcessFileAccesses p = []" "m_parentProcess p = None"
  shows "wf_world (put_proc (proc_path (Handle p)) p w)" (is "wf_world ?w'")
proof -
  have k: "wf_keys w" and t: "wf_tree w" and a: "wf_accesses w" and c: "wf_cache w"
    using w by (simp_all add: wf_world_def)
  have "wf_keys ?w'"
    using wf_keysD [OF k] by (auto intro!: wf_keysI simp: distinct_update split: if_splits)
  moreover have "wf_tree ?w'"
    using wf_treeD [OF t] p new by (intro wf_treeI) (fastforce split: if_splits)+
  moreover have "wf_accesses ?w'"
    using wf_accessesD [OF a] wf_accesses_fresh [OF a] new p
    by (auto intro!: wf_accessesI split: if_splits)
  moreover have "wf_cache ?w'"
    using c by (simp add: wf_cache_def)
  ultimately show ?thesis by (rule wf_worldI)
qed

lemma set_set_add [simp]: "set (set_add x xs) = insert x (set xs)"
  by (auto simp: set_add_def)

text \<open>A process gets a parent that exists.\<close>

lemma wf_set_parent:
  assumes w: "wf_world w" and s: "proc_at w s = Some a" and p: "proc_at w p = Some b" and "s \<noteq> p"
  shows "wf_world (put_proc p (b\<lparr>m_subProcesses := set_add s (m_subProcesses b)\<rparr>)
      (put_proc s (a\<lparr>m_parentProcess := Some p\<rparr>) w))" (is "wf_world ?w'")
proof -
  have k: "wf_keys w" and a: "wf_accesses w" and c: "wf_cache w"
    using w by (simp_all add: wf_world_def)
  have "wf_keys ?w'"
    using wf_keysD [OF k] s p by (auto intro!: wf_keysI simp: distinct_update split: if_splits)
  moreover have "wf_tree ?w'"
  proof -
    have t: "wf_tree w" using w by (simp add: wf_world_def)
    have at: "proc_at ?w' k = (if k = p then Some (b\<lparr>m_subProcesses := set_add s (m_subProcesses b)\<rparr>)
        else if k = s then Some (a\<lparr>m_parentProcess := Some p\<rparr>) else proc_at w k)" for k by simp
    have sub: "\<exists>y. proc_at ?w' q = Some y \<and> set (m_subProcesses x) \<subseteq> set (m_subProcesses y)"
      if "proc_at w q = Some x" for q x using that s p unfolding at by auto
    have par: "q \<noteq> k \<and> (\<exists>x. proc_at ?w' q = Some x \<and> k \<in> set (m_subProcesses x))"
      if y: "proc_at ?w' k = Some y" "m_parentProcess y = Some q" for k y q
    proof (cases "k = s")
      case True
      with y assms(4) have "q = p" unfolding at by auto
      with True assms(4) show ?thesis unfolding at by auto
    next
      case False
      then obtain y' where "proc_at w k = Some y'" "m_parentProcess y' = Some q"
        using y p unfolding at by (cases "k = p") auto
      with t obtain x where "q \<noteq> k" "proc_at w q = Some x" "k \<in> set (m_subProcesses x)"
        unfolding wf_tree_def by blast
      with sub [OF this(2)] show ?thesis by blast
    qed
    have "proc_at ?w' c \<noteq> None" if "proc_at ?w' k = Some y" "c \<in> set (m_subProcesses y)" for k y c
    proof -
      from that have "c = s \<or> (\<exists>y'. proc_at w k = Some y' \<and> c \<in> set (m_subProcesses y'))"
        using s p unfolding at by (auto split: if_splits)
      with t s have "proc_at w c \<noteq> None" unfolding wf_tree_def by blast
      then show ?thesis unfolding at by auto
    qed
    with par show ?thesis unfolding wf_tree_def by blast
  qed
  moreover have "wf_accesses ?w'"
    using wf_accessesD [OF a] s p assms(4) by (intro wf_accessesI) (auto split: if_splits)
  moreover have "wf_cache ?w'"
    using c by (simp add: wf_cache_def)
  ultimately show ?thesis by (rule wf_worldI)
qed

lemma keeps_wf_SetParentProcess [keeps_rules]: "keeps wf_world (SetParentProcess self parent)"
proof (rule keepsI)
  fix w assume w: "wf_world w"
  show "wf_world (snd (SetParentProcess self parent w))"
  proof (cases "proc_at w self")
    case None
    then show ?thesis using w by (simp add: SetParentProcess_def bnd_def)
  next
    case a: (Some a)
    show ?thesis
    proof (cases "proc_at w parent")
      case None
      then show ?thesis using w a by (simp add: SetParentProcess_def bnd_def)
    next
      case b: (Some b)
      show ?thesis
      proof (cases "Handle a = Handle b")
        case True
        then show ?thesis using w a b by (simp add: SetParentProcess_def bnd_def)
      next
        case False
        with a b have "self \<noteq> parent" by auto
        with False a b wf_set_parent [OF w a b] show ?thesis
          by (simp add: SetParentProcess_def bnd_def andthen_def)
      qed
    qed
  qed
qed

lemma keeps_wf_AddParentProcess [keeps_rules]: "keeps wf_world (AddParentProcess self t parent)"
  unfolding AddParentProcess_def
  by (intro keeps_rules keeps_wf_upd_proc) (simp add: links_defs)

lemma keeps_wf_WaitProcessEnd [keeps_rules]: "keeps wf_world (WaitProcessEnd self t other)"
  unfolding WaitProcessEnd_def
  by (intro keeps_rules keeps_wf_upd_proc) (simp add: links_defs)

text \<open>Only the state changes that the creation of a file makes.\<close>

lemma CIM_DataFile_init_run:
  "\<exists>f t. CIM_DataFile_init cfg n w = (Inr f, w\<lparr>ticks := t\<rparr>) \<and> Name f = n \<and>
     m_DataFileFileAccesses f = [] \<and> Category f = PathCategory n \<and> IsExecuted f = False"
proof -
  have s: "\<exists>t. w = w\<lparr>ticks := t\<rparr>" by (rule exI [of _ "ticks w"]) simp
  show ?thesis
    using s by (auto simp: CIM_DataFile_init_def Let_def bnd_def SetAddrPort_def split: option.splits)
qed

lemma wf_ticks: "wf_world w \<Longrightarrow> wf_world (w\<lparr>ticks := t\<rparr>)"
  by (rule wf_world_links) (auto simp: same_links_def)

lemma wf_cache_files: "wf_world w \<Longrightarrow> wf_world (w\<lparr>cache_files := Some (files w)\<rparr>)"
  by (rule wf_world_links) (auto simp: same_links_def files_def file_at_def)

lemma wf_cache_procs: "wf_world w \<Longrightarrow> wf_world (w\<lparr>cache_procs := Some (procs w)\<rparr>)"
  by (rule wf_world_links) (auto simp: same_links_def procs_def proc_at_def)

lemma files_set_cache [simp]:
  "files (w\<lparr>cache_files := Some m\<rparr>) = m" "file_at (w\<lparr>cache_files := Some m\<rparr>) = map_of m"
  by (simp_all add: files_def file_at_def)

lemma procs_set_cache [simp]:
  "procs (w\<lparr>cache_procs := Some m\<rparr>) = m" "proc_at (w\<lparr>cache_procs := Some m\<rparr>) = map_of m"
  by (simp_all add: procs_def proc_at_def)

text \<open>The creation of a file: what it returns and what it changes.\<close>

lemma create_file_run:
  "\<exists>w'. CreateObjectPath_CIM_DataFile cfg n w = (Inr (file_path n), w') \<and>
     procs w' = procs w \<and> accesses w' = accesses w \<and>
     G_cacheFileAccesses w' = G_cacheFileAccesses w \<and> cores w' = cores w \<and>
     m_mapStacks w' = m_mapStacks w \<and>
     (if file_at w (file_path n) = None
      then \<exists>f. file_at w' = (file_at w)(file_path n \<mapsto> f) \<and> Name f = n
      else files w' = files w) \<and>
     (wf_world w \<longrightarrow> wf_world w')"
proof (cases "file_at w (file_path n)")
  case None
  let ?w = "w\<lparr>cache_files := Some (files w)\<rparr>"
  obtain f t where f: "CIM_DataFile_init cfg n ?w = (Inr f, ?w\<lparr>ticks := t\<rparr>)" "Name f = n"
    "m_DataFileFileAccesses f = []" using CIM_DataFile_init_run [of cfg n ?w] by auto
  have no: "file_at (?w\<lparr>ticks := t\<rparr>) (file_path n) = None" "file_at ?w = file_at w"
    using None by (simp_all add: file_at_def)
  have "wf_world w \<Longrightarrow> wf_world (put_file (file_path n) f (?w\<lparr>ticks := t\<rparr>))"
    using wf_new_file [of "?w\<lparr>ticks := t\<rparr>" f] wf_ticks [OF wf_cache_files, of w t] no f(2,3) by simp
  with None f no show ?thesis
    by (auto simp: CreateObjectPath_CIM_DataFile_def andthen_def bnd_def file_at_def)
next
  case (Some f)
  then show ?thesis
    using wf_cache_files [of w]
    by (auto simp: CreateObjectPath_CIM_DataFile_def andthen_def bnd_def file_at_def)
qed

lemma keeps_wf_create_file [keeps_rules]: "keeps wf_world (CreateObjectPath_CIM_DataFile cfg n)"
proof (rule keepsI)
  fix w assume "wf_world w"
  then show "wf_world (snd (CreateObjectPath_CIM_DataFile cfg n w))"
    using create_file_run [of cfg n w] by auto
qed

text \<open>The attributes of a new process leave the other processes as they are.\<close>

lemma process_attributes_links:
  "triple (\<lambda>w. wf_world w \<and> procs w = ps) (process_attributes cfg o' p)
     (\<lambda>p' w. proc_links p' = proc_links p \<and> wf_world w \<and> procs w = ps)
     (\<lambda>e w. wf_world w \<and> procs w = ps)"
proof -
  have create: "triple (\<lambda>w. wf_world w \<and> procs w = ps) (CreateObjectPath_CIM_DataFile cfg n)
     (\<lambda>_ w. wf_world w \<and> procs w = ps) (\<lambda>e w. wf_world w \<and> procs w = ps)" for n
  proof (rule tripleI)
    fix w assume "wf_world w \<and> procs w = ps"
    then show "case CreateObjectPath_CIM_DataFile cfg n w of (Inr a, w) \<Rightarrow> wf_world w \<and> procs w = ps
        | (Inl e, w) \<Rightarrow> wf_world w \<and> procs w = ps"
      using create_file_run [of cfg n w] by auto
  qed
  have get: "triple (\<lambda>w. wf_world w \<and> procs w = ps) (get_file n)
     (\<lambda>_ w. wf_world w \<and> procs w = ps) (\<lambda>e w. wf_world w \<and> procs w = ps)" for n
    by (simp add: triple_def split: option.split)
  have name: "triple (\<lambda>w. wf_world w \<and> procs w = ps) (process_name cfg o' p)
     (\<lambda>p' w. proc_links p' = proc_links p \<and> wf_world w \<and> procs w = ps)
     (\<lambda>e w. wf_world w \<and> procs w = ps)" for o'
    unfolding process_name_def
    by (cases "ps_name o'"; cases "ps_exe o'")
      (auto simp: proc_links_def set_executable_def
        intro!: triple_ret triple_bnd [OF create] triple_bnd [OF get])
  show ?thesis
  proof (cases o')
    case None
    then show ?thesis by (auto simp: process_attributes_def proc_links_def intro!: triple_ret)
  next
    case (Some o'')
    then show ?thesis
      unfolding process_attributes_def
      by (auto simp: proc_links_def intro!: triple_bnd [OF name [unfolded proc_links_def]] triple_ret)
  qed
qed

text \<open>Giving the only other process as a parent, and storing the new process.\<close>

lemma first_process_parent_run:
  assumes w: "wf_world w" and new: "proc_at w (proc_path (Handle p)) = None"
    and p: "m_subProcesses p = []" "m_ProcessFileAccesses p = []" "m_parentProcess p = None"
  shows "\<exists>p' w'. first_process_parent p w = (Inr p', w') \<and> Handle p' = Handle p \<and>
    wf_world (put_proc (proc_path (Handle p)) p' w') \<and>
    (case procs w of
       [(q, x)] \<Rightarrow> m_parentProcess p' = Some q \<and>
         w' = put_proc q (x\<lparr>m_subProcesses := set_add (proc_path (Handle p)) (m_subProcesses x)\<rparr>) w
     | _ \<Rightarrow> p' = p \<and> w' = w)"
proof (cases "\<exists>q x. procs w = [(q, x)]")
  case False
  then show ?thesis using wf_new_proc [OF w new p]
    by (auto simp: first_process_parent_def split: list.splits)
next
  case True
  then obtain q x where ps: "procs w = [(q, x)]" by blast
  let ?k = "proc_path (Handle p)"
  let ?x = "x\<lparr>m_subProcesses := set_add ?k (m_subProcesses x)\<rparr>"
  let ?p = "p\<lparr>m_parentProcess := Some q\<rparr>"
  have x: "proc_at w q = Some x" by (simp add: proc_at_def ps)
  have q: "q = proc_path (Handle x)" using w x by (auto simp: wf_world_def dest: wf_keysD(3))
  have kq: "?k \<noteq> q" using new x by auto
  with q have h: "Handle x \<noteq> Handle p" by auto
  have run: "first_process_parent p w = (Inr ?p, put_proc q ?x w)"
    using h x q by (simp add: first_process_parent_def ps andthen_def bnd_def)
  have "wf_world (put_proc q ?x (put_proc ?k ?p (put_proc ?k p w)))"
    using wf_set_parent [OF wf_new_proc [OF w new p], of ?k p q x] kq x by simp
  moreover have "cache_procs w = Some [(q, x)]" using ps by (auto simp: procs_def split: option.splits)
  then have "put_proc q ?x (put_proc ?k ?p (put_proc ?k p w)) = put_proc ?k ?p (put_proc q ?x w)"
    using kq by (simp add: put_proc_def procs_def)
  ultimately show ?thesis using run ps by simp
qed

lemma CIM_Process_init_links:
  assumes "wf_world w" "proc_at w (proc_path pid) = None"
  shows "case CIM_Process_init cfg pid w of
      (Inr p, w') \<Rightarrow> Handle p = pid \<and> wf_world (put_proc (proc_path pid) p w')
    | (Inl e, w') \<Rightarrow> wf_world w'"
proof -
  let ?ps = "procs w"
  let ?I = "\<lambda>w. wf_world w \<and> procs w = ?ps"
  have env: "triple ?I (process_environ cfg pid) (\<lambda>_. ?I) (\<lambda>_ w. wf_world w)"
    unfolding process_environ_def by (auto simp: triple_def bnd_def wf_ticks)
  have psu: "triple ?I (process_psutil cfg pid) (\<lambda>_. ?I) (\<lambda>_ w. wf_world w)"
    unfolding process_psutil_def by (auto simp: triple_def bnd_def wf_ticks split: option.splits)
  have att: "triple ?I (process_attributes cfg o' p)
      (\<lambda>p' w. proc_links p' = proc_links p \<and> ?I w) (\<lambda>_ w. wf_world w)" for o' p
    by (rule triple_conseq [OF process_attributes_links]) auto
  have fst: "triple (\<lambda>w. proc_links p = (pid, None, [], []) \<and> ?I w) (first_process_parent p)
      (\<lambda>p' w. Handle p' = pid \<and> wf_world (put_proc (proc_path pid) p' w)) (\<lambda>_ w. wf_world w)" for p
  proof (rule tripleI)
    fix v assume v: "proc_links p = (pid, None, [], []) \<and> ?I v"
    then have "proc_at v (proc_path (Handle p)) = None" using assms(2)
      by (auto simp: proc_at_def proc_links_def)
    from first_process_parent_run [OF _ this] v
    show "case first_process_parent p v of
        (Inr p', w) \<Rightarrow> Handle p' = pid \<and> wf_world (put_proc (proc_path pid) p' w)
      | (Inl e, w) \<Rightarrow> wf_world w"
      by (auto simp: proc_links_def)
  qed
  have new: "proc_links ((new_process pid)\<lparr>EnvironmentVariables := env\<rparr>) = (pid, None, [], [])" for env
    by (simp add: proc_links_def new_process_def)
  have "triple ?I (CIM_Process_init cfg pid)
      (\<lambda>p' w. Handle p' = pid \<and> wf_world (put_proc (proc_path pid) p' w)) (\<lambda>_ w. wf_world w)"
    unfolding CIM_Process_init_def
    by (rule triple_bnd [OF env], rule triple_bnd [OF psu], rule triple_bnd [OF att],
        rule triple_conseq [OF fst]) (auto simp: new)
  then show ?thesis using assms(1) by (simp add: triple_def)
qed

lemma create_proc_hit:
  "proc_at w (proc_path pid) = Some p \<Longrightarrow>
   CreateObjectPath_CIM_Process cfg pid w = (Inr (proc_path pid), w\<lparr>cache_procs := Some (procs w)\<rparr>)"
  by (auto simp: CreateObjectPath_CIM_Process_def andthen_def bnd_def proc_at_def)

lemma create_proc_miss:
  assumes "wf_world w" "proc_at w (proc_path pid) = None"
  shows "case CreateObjectPath_CIM_Process cfg pid w of
      (Inr k, w') \<Rightarrow> k = proc_path pid \<and> (\<exists>p. proc_at w' k = Some p) \<and> wf_world w'
    | (Inl e, w') \<Rightarrow> wf_world w'"
proof -
  let ?w = "w\<lparr>cache_procs := Some (procs w)\<rparr>"
  have w: "wf_world ?w" "proc_at ?w (proc_path pid) = None" "map_of (procs w) (proc_path pid) = None"
    using assms wf_cache_procs by (auto simp: proc_at_def)
  show ?thesis
    using CIM_Process_init_links [OF w(1,2), of cfg] w(3)
    by (auto simp: CreateObjectPath_CIM_Process_def andthen_def bnd_def split: prod.splits sum.splits)
qed

lemma keeps_wf_create_proc [keeps_rules]: "keeps wf_world (CreateObjectPath_CIM_Process cfg pid)"
proof (rule keepsI)
  fix w assume w: "wf_world w"
  show "wf_world (snd (CreateObjectPath_CIM_Process cfg pid w))"
  proof (cases "proc_at w (proc_path pid)")
    case None
    from create_proc_miss [OF w this, of cfg] show ?thesis by (auto split: prod.splits sum.splits)
  next
    case (Some p)
    then show ?thesis using create_proc_hit wf_cache_procs [OF w] by simp
  qed
qed

lemma keeps_case_pyval [keeps_rules]:
  assumes "v = VNone \<Longrightarrow> keeps I a" "\<And>s. v = VStr s \<Longrightarrow> keeps I (b s)" "\<And>i. v = VInt i \<Longrightarrow> keeps I (c i)"
    "\<And>t. v = VBool t \<Longrightarrow> keeps I (d t)" "\<And>l. v = VList l \<Longrightarrow> keeps I (e l)"
    "\<And>p. v = VFile p \<Longrightarrow> keeps I (f p)" "\<And>p. v = VProc p \<Longrightarrow> keeps I (g p)"
  shows "keeps I (case v of VNone \<Rightarrow> a | VStr s \<Rightarrow> b s | VInt i \<Rightarrow> c i | VBool t \<Rightarrow> d t | VList l \<Rightarrow> e l
    | VFile p \<Rightarrow> f p | VProc p \<Rightarrow> g p)"
  using assms by (cases v) simp_all

lemma keeps_wf_paths [keeps_rules]:
  "keeps wf_world (ToObjectPath_CIM_Process cfg pid)" "keeps wf_world (ToObjectPath_CIM_DataFile cfg n pid)"
  "keeps wf_world (STraceStreamToPathname v)"
  unfolding ToObjectPath_CIM_Process_def ToObjectPath_CIM_DataFile_def STraceStreamToPathname_def
  by (intro keeps_rules)+

subsection \<open>File accesses\<close>

lemma filter_append_access:
  "filter (\<lambda>i. P ((xs @ [a]) ! i)) [0..<length (xs @ [a])] =
   filter (\<lambda>i. P (xs ! i)) [0..<length xs] @ (if P a then [length xs] else [])"
proof -
  have "filter (\<lambda>i. P ((xs @ [a]) ! i)) [0..<length xs] = filter (\<lambda>i. P (xs ! i)) [0..<length xs]"
    by (rule filter_cong) (simp_all add: nth_append)
  then show ?thesis by simp
qed

text \<open>The state after a new access of a process to a file.\<close>

definition with_access :: "objpath \<Rightarrow> cim_process \<Rightarrow> objpath \<Rightarrow> cim_datafile \<Rightarrow> world \<Rightarrow> world" where
  "with_access p x f y w =
     (let i = length (accesses w)
      in put_file f (y\<lparr>m_DataFileFileAccesses := m_DataFileFileAccesses y @ [i]\<rparr>)
           (put_proc p (x\<lparr>m_ProcessFileAccesses := m_ProcessFileAccesses x @ [i]\<rparr>)
             (w\<lparr>accesses := accesses w @ [new_access p f]\<rparr>)))"

lemma FileAccess_init_run:
  "proc_at w p = Some x \<Longrightarrow> file_at w f = Some y \<Longrightarrow>
   FileAccess_init p f w = (Inr (length (accesses w)), with_access p x f y w)"
  by (simp add: FileAccess_init_def with_access_def bnd_def andthen_def Let_def)

lemma FileAccess_init_fail:
  "proc_at w p = None \<or> file_at w f = None \<Longrightarrow> FileAccess_init p f w = (Inl dangling, w)"
  by (auto simp: FileAccess_init_def bnd_def split: option.splits)

lemma with_access_frame [simp]:
  "accesses (with_access p x f y w) = accesses w @ [new_access p f]"
  "G_cacheFileAccesses (with_access p x f y w) = G_cacheFileAccesses w"
  "cached_access (with_access p x f y w) = cached_access w"
  "proc_at (with_access p x f y w) =
     (proc_at w)(p \<mapsto> x\<lparr>m_ProcessFileAccesses := m_ProcessFileAccesses x @ [length (accesses w)]\<rparr>)"
  "file_at (with_access p x f y w) =
     (file_at w)(f \<mapsto> y\<lparr>m_DataFileFileAccesses := m_DataFileFileAccesses y @ [length (accesses w)]\<rparr>)"
  by (simp_all add: with_access_def Let_def cached_access_def fun_eq_iff)

lemma with_access_lists:
  "proc_accesses (with_access p x f y w) k =
     proc_accesses w k @ (if k = p then [length (accesses w)] else [])"
  "file_accesses (with_access p x f y w) k =
     file_accesses w k @ (if k = f then [length (accesses w)] else [])"
  unfolding with_access_frame
  using filter_append_access [of "\<lambda>a. m_objectCIM_Process a = k" "accesses w" "new_access p f"]
    filter_append_access [of "\<lambda>a. m_objectCIM_DataFile a = k" "accesses w" "new_access p f"]
  by (auto simp: new_access_def simp del: upt_Suc length_append)

lemma wf_tree_upd:
  assumes t: "wf_tree w" and x: "proc_at w p = Some x"
    and x': "m_parentProcess x' = m_parentProcess x" "m_subProcesses x' = m_subProcesses x"
    and at: "proc_at w' = (proc_at w)(p \<mapsto> x')"
  shows "wf_tree w'"
proof -
  have old: "\<exists>z. proc_at w k = Some z \<and> m_parentProcess z = m_parentProcess y \<and> m_subProcesses z = m_subProcesses y"
    if "proc_at w' k = Some y" for k y
    using that x x' by (cases "k = p") (auto simp: at)
  have new: "\<exists>z. proc_at w' k = Some z \<and> m_subProcesses z = m_subProcesses y"
    if "proc_at w k = Some y" for k y
    using that x x' by (cases "k = p") (auto simp: at)
  show ?thesis
  proof (rule wf_treeI)
    fix k y q assume y: "proc_at w' k = Some y" "m_parentProcess y = Some q"
    from old [OF y(1)] y(2) obtain z where z: "proc_at w k = Some z" "m_parentProcess z = Some q" by auto
    from wf_treeD(1,2) [OF t this] new show "q \<noteq> k \<and> (\<exists>x. proc_at w' q = Some x \<and> k \<in> set (m_subProcesses x))"
      by metis
  next
    fix k y c assume y: "proc_at w' k = Some y" "c \<in> set (m_subProcesses y)"
    from old [OF y(1)] y(2) obtain z where z: "proc_at w k = Some z" "c \<in> set (m_subProcesses z)" by auto
    from wf_treeD(3) [OF t this] new show "\<exists>x. proc_at w' c = Some x" by metis
  qed
qed

lemma wf_with_access:
  assumes w: "wf_world w" and x: "proc_at w p = Some x" and y: "file_at w f = Some y"
  shows "wf_world (with_access p x f y w)" (is "wf_world ?w'")
proof -
  have k: "wf_keys w" and t: "wf_tree w" and a: "wf_accesses w" and c: "wf_cache w"
    using w by (simp_all add: wf_world_def)
  have "wf_keys ?w'"
    using wf_keysD [OF k] x y
    by (auto intro!: wf_keysI simp: with_access_def Let_def distinct_update split: if_splits)
  moreover have "wf_tree ?w'"
    by (rule wf_tree_upd [OF t x]) simp_all
  moreover have "wf_accesses ?w'"
  proof (rule wf_accessesI)
    show "\<exists>q. proc_at ?w' (m_objectCIM_Process b) = Some q" if "b \<in> set (accesses ?w')" for b
      using that wf_accessesD(1) [OF a] x by (auto simp: new_access_def)
    show "\<exists>q. file_at ?w' (m_objectCIM_DataFile b) = Some q" if "b \<in> set (accesses ?w')" for b
      using that wf_accessesD(2) [OF a] y by (auto simp: new_access_def)
    show "m_ProcessFileAccesses q = proc_accesses ?w' k" if "proc_at ?w' k = Some q" for k q
      unfolding with_access_lists using that wf_accessesD(3) [OF a] x
      by (cases "k = p") auto
    show "m_DataFileFileAccesses q = file_accesses ?w' k" if "file_at ?w' k = Some q" for k q
      unfolding with_access_lists using that wf_accessesD(4) [OF a] y
      by (cases "k = f") auto
  qed
  moreover have "wf_cache ?w'"
    using wf_cacheD [OF c] by (auto simp: wf_cache_def nth_append intro: less_SucI)
  ultimately show ?thesis by (rule wf_worldI)
qed


lemma cached_store_access [simp]:
  "cached_access (store_access p f i w) = (\<lambda>q g. if q = p \<and> g = f then Some i else cached_access w q g)"
  by (auto simp: cached_access_def store_access_def fun_eq_iff split: option.split)

lemma store_access_frame [simp]:
  "procs (store_access p f i w) = procs w" "files (store_access p f i w) = files w"
  "proc_at (store_access p f i w) = proc_at w" "file_at (store_access p f i w) = file_at w"
  "accesses (store_access p f i w) = accesses w"
  by (simp_all add: store_access_def)

lemma wf_store_access:
  assumes w: "wf_world w" and i: "i < length (accesses w)"
    "m_objectCIM_Process (accesses w ! i) = p" "m_objectCIM_DataFile (accesses w ! i) = f"
  shows "wf_world (store_access p f i w)" (is "wf_world ?w'")
proof (rule wf_worldI)
  have k: "wf_keys w" and t: "wf_tree w" and a: "wf_accesses w" and c: "wf_cache w"
    using w by (simp_all add: wf_world_def)
  from k show "wf_keys ?w'" by (simp add: wf_keys_def)
  from t show "wf_tree ?w'" by (simp add: wf_tree_def)
  from a show "wf_accesses ?w'" by (simp add: wf_accesses_def)
  from c i show "wf_cache ?w'" by (simp add: wf_cache_def)
qed

lemma lookup_hit: "cached_access w p f = Some i \<Longrightarrow> LookupFileAccess p f w = (Inr i, w)"
  by (simp add: LookupFileAccess_def bnd_def)

lemma lookup_miss:
  "cached_access w p f = None \<Longrightarrow> proc_at w p = Some x \<Longrightarrow> file_at w f = Some y \<Longrightarrow>
   LookupFileAccess p f w =
     (Inr (length (accesses w)), store_access p f (length (accesses w)) (with_access p x f y w))"
  by (simp add: LookupFileAccess_def bnd_def andthen_def FileAccess_init_run)

lemma keeps_wf_lookup [keeps_rules]: "keeps wf_world (LookupFileAccess p f)"
proof (rule keepsI)
  fix w assume w: "wf_world w"
  show "wf_world (snd (LookupFileAccess p f w))"
  proof (cases "cached_access w p f")
    case (Some i)
    then show ?thesis using w by (simp add: lookup_hit)
  next
    case None
    show ?thesis
    proof (cases "proc_at w p = None \<or> file_at w f = None")
      case True
      with w None show ?thesis by (simp add: LookupFileAccess_def bnd_def FileAccess_init_fail)
    next
      case False
      then obtain x y where xy: "proc_at w p = Some x" "file_at w f = Some y" by auto
      have "wf_world (store_access p f (length (accesses w)) (with_access p x f y w))"
        by (rule wf_store_access [OF wf_with_access [OF w xy]]) (simp_all add: new_access_def)
      with lookup_miss [OF None xy] show ?thesis by simp
    qed
  qed
qed

lemma keeps_wf_GetFileAccess [keeps_rules]: "keeps wf_world (GetFileAccess p f)"
  unfolding GetFileAccess_def by (rule keeps_wf_lookup)


text \<open>A close forgets the access.\<close>

definition forget_access :: "objpath \<Rightarrow> objpath \<Rightarrow> world \<Rightarrow> world" where
  "forget_access p f w =
     w\<lparr>G_cacheFileAccesses :=
        AList.update p (AList.delete f (case map_of (G_cacheFileAccesses w) p of None \<Rightarrow> [] | Some l \<Rightarrow> l))
          (G_cacheFileAccesses w)\<rparr>"

lemma cached_forget_access [simp]:
  "cached_access (forget_access p f w) = (\<lambda>q g. if q = p \<and> g = f then None else cached_access w q g)"
  by (auto simp: cached_access_def forget_access_def fun_eq_iff delete_conv' split: option.split)

lemma forget_access_frame [simp]:
  "procs (forget_access p f w) = procs w" "files (forget_access p f w) = files w"
  "proc_at (forget_access p f w) = proc_at w" "file_at (forget_access p f w) = file_at w"
  "accesses (forget_access p f w) = accesses w"
  by (simp_all add: forget_access_def)

lemma wf_forget_access:
  assumes w: "wf_world w"
  shows "wf_world (forget_access p f w)" (is "wf_world ?w'")
proof (rule wf_worldI)
  have k: "wf_keys w" and t: "wf_tree w" and a: "wf_accesses w" and c: "wf_cache w"
    using w by (simp_all add: wf_world_def)
  from k show "wf_keys ?w'" by (simp add: wf_keys_def)
  from t show "wf_tree ?w'" by (simp add: wf_tree_def)
  from a show "wf_accesses ?w'" by (simp add: wf_accesses_def)
  from c show "wf_cache ?w'" by (simp add: wf_cache_def)
qed

lemma access_size_run:
  assumes "wf_world w" "i < length (accesses w)"
  obtains sz t where "access_size cfg i w = (Inr sz, w\<lparr>ticks := t\<rparr>)"
proof -
  have s: "\<exists>t. w = w\<lparr>ticks := t\<rparr>" by (rule exI [of _ "ticks w"]) simp
  from assms have "wf_accesses w" by (simp add: wf_world_def)
  with assms obtain f where "file_at w (m_objectCIM_DataFile (accesses w ! i)) = Some f"
    using wf_accessesD(2) nth_mem by blast
  with assms s that show ?thesis by (cases "G_SameMachine cfg") (auto simp: access_size_def bnd_def)
qed

text \<open>
  An open on an access of the cache, and a close: the first one keeps the access in the cache, the
  second one takes it out. Neither of them fails.
\<close>

definition open_access :: "string \<Rightarrow> int option \<Rightarrow> file_access \<Rightarrow> file_access" where
  "open_access t sz a =
     (let b = a\<lparr>NumOpen := Some (case NumOpen a of None \<Rightarrow> 1 | Some n \<Rightarrow> n + 1)\<rparr>
      in if earlier t (OpenTime a)
         then (let c = b\<lparr>OpenTime := Some t\<rparr> in case sz of None \<Rightarrow> c | Some n \<Rightarrow> c\<lparr>OpenSize := Some n\<rparr>)
         else b)"

definition close_access :: "string \<Rightarrow> int option \<Rightarrow> file_access \<Rightarrow> file_access" where
  "close_access t sz a =
     (if earlier t (CloseTime a)
      then (let c = a\<lparr>CloseTime := Some t\<rparr> in case sz of None \<Rightarrow> c | Some n \<Rightarrow> c\<lparr>CloseSize := Some n\<rparr>)
      else a)"

lemma open_close_ends [simp]:
  "access_ends (open_access t sz a) = access_ends a"
  "access_ends (close_access t sz a) = access_ends a"
  by (auto simp: open_access_def close_access_def access_ends_def Let_def split: option.splits)


lemma put_access_twice [simp]: "put_access i b (put_access i a w) = put_access i b w"
  by (simp add: put_access_def)

lemma put_access_ticks [simp]: "put_access i a (w\<lparr>ticks := t\<rparr>) = (put_access i a w)\<lparr>ticks := t\<rparr>"
  by (simp add: put_access_def)

lemma wf_put_access:
  "wf_world w \<Longrightarrow> i < length (accesses w) \<Longrightarrow> access_ends a = access_ends (accesses w ! i) \<Longrightarrow>
   wf_world (put_access i a w)"
  by (rule wf_world_links) (auto intro: same_links_put_access)

lemma cached_in_map:
  "cached_access w p f = Some i \<Longrightarrow> \<exists>m. map_of (G_cacheFileAccesses w) p = Some m \<and> map_of m f = Some i"
  by (auto simp: cached_access_def split: option.splits)

lemma SetOpenTime_run:
  fixes w i
  defines "a \<equiv> accesses w ! i"
  assumes w: "wf_world w" and i: "i < length (accesses w)"
  shows "\<exists>sz t. SetOpenTime cfg i ts w =
    (let w' = put_access i (open_access ts sz a) (w\<lparr>ticks := t\<rparr>)
     in case map_of (G_cacheFileAccesses w) (m_objectCIM_Process a) of
          None \<Rightarrow> (Inl KeyError, w')
        | Some _ \<Rightarrow> (Inr (), store_access (m_objectCIM_Process a) (m_objectCIM_DataFile a) i w'))"
proof -
  let ?b = "a\<lparr>NumOpen := Some (case NumOpen a of None \<Rightarrow> 1 | Some n \<Rightarrow> n + 1)\<rparr>"
  have s: "\<exists>t. w = w\<lparr>ticks := t\<rparr>" by (rule exI [of _ "ticks w"]) simp
  show ?thesis
  proof (cases "earlier ts (OpenTime a)")
    case False
    then have "SetOpenTime cfg i ts w =
      (let w' = put_access i (open_access ts None a) w
       in case map_of (G_cacheFileAccesses w) (m_objectCIM_Process a) of
          None \<Rightarrow> (Inl KeyError, w')
        | Some _ \<Rightarrow> (Inr (), store_access (m_objectCIM_Process a) (m_objectCIM_DataFile a) i w'))"
      using i unfolding a_def
      by (simp add: SetOpenTime_def bnd_def andthen_def open_access_def Let_def split: option.split)
    with s show ?thesis by metis
  next
    case True
    let ?w = "put_access i (?b\<lparr>OpenTime := Some ts\<rparr>) w"
    have "wf_world ?w" "i < length (accesses ?w)"
      using w i by (auto intro!: wf_put_access simp: access_ends_def a_def)
    then obtain sz t where sz: "access_size cfg i ?w = (Inr sz, ?w\<lparr>ticks := t\<rparr>)"
      using access_size_run by blast
    have "SetOpenTime cfg i ts w =
      (let w' = put_access i (open_access ts sz a) (w\<lparr>ticks := t\<rparr>)
       in case map_of (G_cacheFileAccesses w) (m_objectCIM_Process a) of
          None \<Rightarrow> (Inl KeyError, w')
        | Some _ \<Rightarrow> (Inr (), store_access (m_objectCIM_Process a) (m_objectCIM_DataFile a) i w'))"
      using i True sz unfolding a_def
      by (cases sz) (simp_all add: SetOpenTime_def bnd_def andthen_def open_access_def Let_def split: option.split)
    then show ?thesis by blast
  qed
qed

lemma SetCloseTime_run:
  fixes w i
  defines "a \<equiv> accesses w ! i"
  assumes w: "wf_world w" and i: "i < length (accesses w)"
  shows "\<exists>sz t. SetCloseTime cfg i ts w =
    (let w' = put_access i (close_access ts sz a) (w\<lparr>ticks := t\<rparr>)
     in if cached_access w (m_objectCIM_Process a) (m_objectCIM_DataFile a) = None then (Inl KeyError, w')
        else (Inr (), forget_access (m_objectCIM_Process a) (m_objectCIM_DataFile a) w'))"
proof -
  have s: "\<exists>t. w = w\<lparr>ticks := t\<rparr>" by (rule exI [of _ "ticks w"]) simp
  show ?thesis
  proof (cases "earlier ts (CloseTime a)")
    case False
    then have "SetCloseTime cfg i ts w =
      (let w' = put_access i (close_access ts None a) w
       in if cached_access w (m_objectCIM_Process a) (m_objectCIM_DataFile a) = None then (Inl KeyError, w')
          else (Inr (), forget_access (m_objectCIM_Process a) (m_objectCIM_DataFile a) w'))"
      using i unfolding a_def
      by (simp add: SetCloseTime_def bnd_def andthen_def close_access_def Let_def put_access_def
          cached_access_def forget_access_def split: option.split)
    with s show ?thesis by metis
  next
    case True
    let ?w = "put_access i (a\<lparr>CloseTime := Some ts\<rparr>) w"
    have "wf_world ?w" "i < length (accesses ?w)"
      using w i by (auto intro!: wf_put_access simp: access_ends_def a_def)
    then obtain sz t where sz: "access_size cfg i ?w = (Inr sz, ?w\<lparr>ticks := t\<rparr>)"
      using access_size_run by blast
    have "SetCloseTime cfg i ts w =
      (let w' = put_access i (close_access ts sz a) (w\<lparr>ticks := t\<rparr>)
       in if cached_access w (m_objectCIM_Process a) (m_objectCIM_DataFile a) = None then (Inl KeyError, w')
          else (Inr (), forget_access (m_objectCIM_Process a) (m_objectCIM_DataFile a) w'))"
      using i True sz unfolding a_def
      by (cases sz) (simp_all add: SetCloseTime_def bnd_def andthen_def close_access_def Let_def
          cached_access_def forget_access_def split: option.split)
    then show ?thesis by blast
  qed
qed

lemma keeps_wf_SetOpenTime [keeps_rules]: "keeps wf_world (SetOpenTime cfg i ts)"
proof (rule keepsI)
  fix w assume w: "wf_world w"
  show "wf_world (snd (SetOpenTime cfg i ts w))"
  proof (cases "i < length (accesses w)")
    case False
    then show ?thesis using w by (simp add: SetOpenTime_def andthen_def bnd_def)
  next
    case True
    let ?a = "accesses w ! i"
    have p: "wf_world (put_access i (open_access ts sz ?a) (w\<lparr>ticks := t\<rparr>))" for sz t
      by (rule wf_put_access [OF wf_ticks [OF w]]) (simp_all add: True)
    have q: "wf_world (store_access (m_objectCIM_Process ?a) (m_objectCIM_DataFile ?a) i
        (put_access i (open_access ts sz ?a) (w\<lparr>ticks := t\<rparr>)))" for sz t
      by (rule wf_store_access [OF p]) (use True open_close_ends(1) [of ts sz ?a] in \<open>auto simp: access_ends_def\<close>)
    show ?thesis
      using SetOpenTime_run [OF w True, of cfg ts] p q by (auto simp: Let_def split: option.splits)
  qed
qed

lemma keeps_wf_SetCloseTime [keeps_rules]: "keeps wf_world (SetCloseTime cfg i ts)"
proof (rule keepsI)
  fix w assume w: "wf_world w"
  show "wf_world (snd (SetCloseTime cfg i ts w))"
  proof (cases "i < length (accesses w)")
    case False
    then show ?thesis using w by (simp add: SetCloseTime_def andthen_def bnd_def)
  next
    case True
    let ?a = "accesses w ! i"
    have p: "wf_world (put_access i (close_access ts sz ?a) (w\<lparr>ticks := t\<rparr>))" for sz t
      by (rule wf_put_access [OF wf_ticks [OF w]]) (simp_all add: True)
    show ?thesis
      using SetCloseTime_run [OF w True, of cfg ts] p wf_forget_access [OF p]
      by (auto simp: Let_def split: if_splits)
  qed
qed

lemma wf_GlobalTerminationDate: "wf_world w \<Longrightarrow> wf_world (GlobalTerminationDate t w)"
proof (rule wf_world_links)
  have p: "procs (GlobalTerminationDate t w) = map (\<lambda>(k, p).
      (k, if no_text (TerminationDate p) then p\<lparr>TerminationDate := Some t\<rparr> else p)) (procs w)"
    by (simp add: GlobalTerminationDate_def procs_def split: option.split)
  have m: "map_of (map (\<lambda>(k, p). (k, g p)) l) k = map_option g (map_of l k)" for g l and k :: objpath
    by (induction l) auto
  show "same_links w (GlobalTerminationDate t w)"
    unfolding same_links_def proc_at_def p m
    by (auto simp: GlobalTerminationDate_def proc_links_def option.map_comp o_def comp_def
        intro!: option.map_cong)
qed

end
