(* ===== verification/Caches.thy ===== *)
theory Caches
  imports ObjectsInv
begin

text \<open>
  The contract of a cache that creates an object at most once for each key, and its three providers:
  \<^verbatim>\<open>CreateObjectPath\<close> for processes and for files, and \<^verbatim>\<open>LookupFileAccess\<close> for the open accesses.
  Then the life of a file access, its counters, and the tree of the processes.
\<close>

subsection \<open>The contract\<close>

locale object_cache =
  fixes find :: "'w \<Rightarrow> 'k \<Rightarrow> 'o option"
    and make :: "'k \<Rightarrow> ('w, 'o) py"
    and inv :: "'w \<Rightarrow> bool"
  assumes hit: "find w k = Some x \<Longrightarrow> \<exists>w'. make k w = (Inr x, w') \<and> find w' = find w"
    and miss: "inv w \<Longrightarrow> find w k = None \<Longrightarrow> make k w = (Inr x, w') \<Longrightarrow> find w' k = Some x"
    and keeps_inv: "keeps inv (make k)"
    and stable: "inv w \<Longrightarrow> find w k = Some x \<Longrightarrow> find (snd (make k' w)) k = Some x"
    and injective: "inv w \<Longrightarrow> find w k = Some x \<Longrightarrow> find w k' = Some x \<Longrightarrow> k = k'"
begin

lemma made: "inv w \<Longrightarrow> make k w = (Inr x, w') \<Longrightarrow> find w' k = Some x"
  using hit miss by (metis Pair_inject not_None_eq sum.inject(2))

lemma made_inv: "inv w \<Longrightarrow> inv (snd (make k w))"
  using keeps_inv by (rule keepsD)

lemma many_inv: "inv w \<Longrightarrow> inv (snd (for_each ks make w))"
  by (rule keepsD [OF keeps_for_each]) (rule keeps_inv)

lemma many_stable: "inv w \<Longrightarrow> find w k = Some x \<Longrightarrow> find (snd (for_each ks make w)) k = Some x"
proof (induction ks arbitrary: w)
  case (Cons k' ks)
  have "inv (snd (make k' w))" "find (snd (make k' w)) k = Some x"
    using Cons.prems made_inv stable by blast+
  from Cons.IH [OF this] this(2) show ?case
    by (cases "make k' w") (auto simp: bnd_def split: prod.splits sum.splits)
qed simp

text \<open>Asking for the same key again gives the same object, whatever was made in between.\<close>

lemma same_object:
  assumes "inv w" "make k w = (Inr x, w1)"
  shows "\<exists>w3. make k (snd (for_each ks make w1)) = (Inr x, w3) \<and>
    find w3 = find (snd (for_each ks make w1))"
proof -
  have "inv w1" using made_inv [OF assms(1), of k] assms(2) by simp
  moreover have "find w1 k = Some x" using made [OF assms] .
  ultimately show ?thesis using hit many_stable by blast
qed

text \<open>Two keys never share an object.\<close>

lemma distinct_objects:
  assumes "inv w" "make k w = (Inr x, w1)" "make k' w1 = (Inr y, w2)" "k \<noteq> k'"
  shows "x \<noteq> y"
proof
  assume xy: "x = y"
  have i1: "inv w1" using made_inv [OF assms(1), of k] assms(2) by simp
  have i2: "inv w2" using made_inv [OF i1, of k'] assms(3) by simp
  have "find w1 k = Some x" using made [OF assms(1,2)] .
  then have "find w2 k = Some x" using stable [OF i1, of k x k'] assms(3) by simp
  moreover have "find w2 k' = Some x" using made [OF i1 assms(3)] xy by simp
  ultimately show False using injective [OF i2] assms(4) by blast
qed

end

subsection \<open>The providers\<close>

definition find_proc :: "world \<Rightarrow> int \<Rightarrow> objpath option" where
  "find_proc w pid = (if proc_at w (proc_path pid) = None then None else Some (proc_path pid))"

definition find_file :: "world \<Rightarrow> string \<Rightarrow> objpath option" where
  "find_file w n = (if file_at w (file_path n) = None then None else Some (file_path n))"

definition find_access :: "world \<Rightarrow> objpath \<times> objpath \<Rightarrow> nat option" where
  "find_access w pf = cached_access w (fst pf) (snd pf)"

definition lookup_access :: "objpath \<times> objpath \<Rightarrow> (world, nat) py" where
  "lookup_access pf = LookupFileAccess (fst pf) (snd pf)"

text \<open>No operation drops an object.\<close>

lemma proc_kept_basic [keeps_rules]:
  "keeps (\<lambda>w. proc_at w k \<noteq> None) tick" "keeps (\<lambda>w. proc_at w k \<noteq> None) (upd_proc p f)"
  "keeps (\<lambda>w. proc_at w k \<noteq> None) (upd_file q g)"
  "keeps (\<lambda>w. proc_at w k \<noteq> None) (modify (\<lambda>w. w\<lparr>cache_files := Some (files w)\<rparr>))"
  "keeps (\<lambda>w. proc_at w k \<noteq> None) (modify (put_file q y))"
  "keeps (\<lambda>w. proc_at w k \<noteq> None) (modify (put_proc p x))"
  "keeps (\<lambda>w. proc_at w k \<noteq> None) (modify (\<lambda>w. w\<lparr>cache_procs := Some (procs w)\<rparr>))"
  by (auto simp: keeps_def proc_at_def split: option.splits)

lemma keeps_proc_file_init [keeps_rules]:
  "keeps (\<lambda>w. proc_at w k \<noteq> None) (CIM_DataFile_init cfg n)"
  unfolding CIM_DataFile_init_def Let_def by (intro keeps_rules)

lemma keeps_proc_create_file [keeps_rules]:
  "keeps (\<lambda>w. proc_at w k \<noteq> None) (CreateObjectPath_CIM_DataFile cfg n)"
  unfolding CreateObjectPath_CIM_DataFile_def by (intro keeps_rules)

lemma keeps_proc_environ [keeps_rules]: "keeps (\<lambda>w. proc_at w k \<noteq> None) (process_environ cfg pid)"
  unfolding process_environ_def by (intro keeps_rules)

lemma keeps_proc_psutil [keeps_rules]: "keeps (\<lambda>w. proc_at w k \<noteq> None) (process_psutil cfg pid)"
  unfolding process_psutil_def by (intro keeps_rules)

lemma keeps_proc_name [keeps_rules]: "keeps (\<lambda>w. proc_at w k \<noteq> None) (process_name cfg o' p)"
  unfolding process_name_def by (intro keeps_rules)

lemma keeps_proc_attributes [keeps_rules]:
  "keeps (\<lambda>w. proc_at w k \<noteq> None) (process_attributes cfg o' p)"
  unfolding process_attributes_def by (intro keeps_rules)

lemma keeps_proc_first [keeps_rules]: "keeps (\<lambda>w. proc_at w k \<noteq> None) (first_process_parent p)"
  unfolding first_process_parent_def by (intro keeps_rules)

lemma keeps_proc_init [keeps_rules]: "keeps (\<lambda>w. proc_at w k \<noteq> None) (CIM_Process_init cfg pid)"
  unfolding CIM_Process_init_def by (intro keeps_rules)

lemma keeps_proc_create_proc [keeps_rules]:
  "keeps (\<lambda>w. proc_at w k \<noteq> None) (CreateObjectPath_CIM_Process cfg pid)"
  unfolding CreateObjectPath_CIM_Process_def by (intro keeps_rules)

lemma find_proc_Some: "find_proc w k = Some x \<longleftrightarrow> proc_at w (proc_path k) \<noteq> None \<and> x = proc_path k"
  by (cases "proc_at w (proc_path k)") (auto simp: find_proc_def)

lemma find_file_Some: "find_file w k = Some x \<longleftrightarrow> file_at w (file_path k) \<noteq> None \<and> x = file_path k"
  by (cases "file_at w (file_path k)") (auto simp: find_file_def)

interpretation proc_cache: object_cache find_proc "CreateObjectPath_CIM_Process cfg" wf_world for cfg
proof (unfold_locales, goal_cases)
  case (1 w k x)
  then obtain p where p: "proc_at w (proc_path k) = Some p" and x: "x = proc_path k"
    unfolding find_proc_Some by blast
  have "find_proc (w\<lparr>cache_procs := Some (procs w)\<rparr>) = find_proc w"
    by (rule ext) (simp add: find_proc_def proc_at_def)
  then show ?case using create_proc_hit [OF p, of cfg] x by simp
next
  case (2 w k x w')
  then have "proc_at w (proc_path k) = None" by (simp add: find_proc_def split: if_splits)
  from create_proc_miss [OF 2(1) this, of cfg] 2(3) show ?case by (auto simp: find_proc_def)
next
  case (3 k)
  show ?case by (rule keeps_wf_create_proc)
next
  case (4 w k x k')
  then have "proc_at w (proc_path k) \<noteq> None" "x = proc_path k"
    by (auto simp: find_proc_def split: if_splits)
  with keepsD [OF keeps_proc_create_proc, of w "proc_path k" cfg k'] show ?case
    by (simp add: find_proc_def)
next
  case (5 w k x k')
  then show ?case by (auto simp: find_proc_def split: if_splits)
qed

interpretation file_cache: object_cache find_file "CreateObjectPath_CIM_DataFile cfg" wf_world for cfg
proof (unfold_locales, goal_cases)
  case (1 w k x)
  then show ?case using create_file_run [of cfg k w]
    by (auto simp: find_file_def fun_eq_iff file_at_def split: if_splits)
next
  case (2 w k x w')
  then show ?case using create_file_run [of cfg k w]
    by (auto simp: find_file_def split: if_splits)
next
  case (3 k)
  show ?case by (rule keeps_wf_create_file)
next
  case (4 w k x k')
  then show ?case using create_file_run [of cfg k' w]
    by (auto simp: find_file_def file_at_def split: if_splits)
next
  case (5 w k x k')
  then show ?case by (auto simp: find_file_def split: if_splits)
qed

interpretation access_cache: object_cache find_access lookup_access wf_world
proof (unfold_locales, goal_cases)
  case (1 w k x)
  then show ?case by (simp add: find_access_def lookup_access_def lookup_hit)
next
  case (2 w k x w')
  then show ?case
    by (auto simp: find_access_def lookup_access_def LookupFileAccess_def bnd_def andthen_def
        split: prod.splits sum.splits)
next
  case (3 k)
  show ?case unfolding lookup_access_def by (rule keeps_wf_lookup)
next
  case (4 w k x k')
  show ?case
  proof (cases "cached_access w (fst k') (snd k')")
    case (Some i)
    then show ?thesis using 4 by (simp add: find_access_def lookup_access_def lookup_hit)
  next
    case None
    with 4 have "k \<noteq> k'" by (auto simp: find_access_def)
    show ?thesis
    proof (cases "proc_at w (fst k') = None \<or> file_at w (snd k') = None")
      case True
      with 4 None show ?thesis
        by (simp add: find_access_def lookup_access_def LookupFileAccess_def bnd_def FileAccess_init_fail)
    next
      case False
      then obtain a b where "proc_at w (fst k') = Some a" "file_at w (snd k') = Some b" by auto
      with 4 None \<open>k \<noteq> k'\<close> show ?thesis
        by (auto simp: find_access_def lookup_access_def lookup_miss prod_eq_iff)
    qed
  qed
next
  case (5 w k x k')
  then have "wf_cache w" by (simp add: wf_world_def)
  from wf_cacheD(2,3) [OF this] 5 show ?case unfolding find_access_def prod_eq_iff by metis
qed

end
