(* ===== verification/ParseLine.thy ===== *)
theory ParseLine
  imports Objects CallSyntax
begin

text \<open>
  The class \<^verbatim>\<open>BatchLetCore\<close>: one line of the log of the tracer, cut into the process, the time, the
  name of the function, its arguments and its returned value. A line that reports a signal or the
  end of a process raises one of the two exceptions that \<^verbatim>\<open>CreateBatchCore\<close> catches.
\<close>

definition strace :: string where
  "strace = ''strace''"

definition ltrace :: string where
  "ltrace = ''ltrace''"

text \<open>
  The error message of the last branch names an attribute that does not exist, so it is this
  AttributeError that is raised.
\<close>

definition SetFunction :: "string \<Rightarrow> batch_status \<Rightarrow> string \<Rightarrow> string pyres" where
  "SetFunction tracer status funcFull =
     (if tracer = strace then Inr (funcFull @ ''@SYS'')
      else if tracer = ltrace then
        (let f = last (split_str ''->'' 0 funcFull)
         in if status = StResumed then Inr (f @ ''@SYS'') else Inr f)
      else Inl AttributeError)"

text \<open>\<open>re.match("<\.\.\. ([^ ]*) resumed> (.*)", theCall)\<close>: the name, and where the rest starts.\<close>

definition resumed_regex :: regex where
  "resumed_regex = lit ''<... '' @ [Star (\<lambda>c. c \<noteq> CHR '' '')] @ lit '' resumed> '' @ [Star not_newline]"

definition match_resume :: "string \<Rightarrow> (string \<times> nat) option" where
  "match_resume theCall =
     map_option (\<lambda>ps. (ps ! 5, length (concat (take 16 ps)))) (rmatch resumed_regex theCall)"

text \<open>The end of the line: the status and the duration between the last \<open><\<close> and the last \<open>>\<close>.\<close>

definition exec_time :: "string \<Rightarrow> int \<times> batch_status \<times> string" where
  "exec_time theCall =
     (let idxGT = py_rfind theCall ''>'';
          idxLT = py_rfind (py_upto theCall idxGT) ''<'';
          exeTm = py_slice theCall (idxLT + 1) idxGT
      in if 0 \<le> idxLT
         then (if exeTm = ''unfinished ...'' then (idxLT, StUnfinished, []) else (idxLT, StPlain, exeTm))
         else (idxLT, StPlain, []))"

text \<open>The returned value, after the first \<open>=\<close> that follows the arguments.\<close>

definition return_value :: "string \<Rightarrow> string \<Rightarrow> int \<Rightarrow> nat \<Rightarrow> string option pyres" where
  "return_value tracer theCall idxLT idxLastPar =
     (let idxEq = py_find_at theCall ''='' idxLastPar
      in if idxEq < 0 \<and> \<not> endswith theCall (''<no return ...>'' @ [CHR 0x0A]) \<and>
            \<not> endswith theCall ''<detached ...>'' \<and> tracer \<noteq> ltrace
         then Inl (PyException ''No = from parenthesis'')
         else Inr (Some (py_strip (py_slice theCall (idxEq + 1) idxLT))))"

text \<open>
  The name of the function with its status and the index of the opening parenthesis; \<open>None\<close> for the
  lines without a call that are accepted all the same.
\<close>

definition call_function ::
    "string \<Rightarrow> string \<Rightarrow> string \<Rightarrow> batch_status \<Rightarrow> (string \<times> batch_status \<times> int) option pyres" where
  "call_function tracer oneLine theCall status =
     (case match_resume theCall of
        Some (funcNameResumed, start2) \<Rightarrow>
          map_sum id (\<lambda>f. Some (f, StResumed, int start2 - 1))
            (SetFunction tracer StResumed funcNameResumed)
      | None \<Rightarrow>
          (let idxPar = py_find theCall ''(''
           in if idxPar \<le> 0 then
                (if tracer = ltrace \<and> startswith oneLine ''error:'' then Inr None
                 else if tracer = strace \<and>
                   (contains oneLine ''<... exit resumed>) = ?'' \<or>
                    contains oneLine ''<... exit_group resumed>) = ?'') then Inr None
                 else Inl (PyException ''No function in''))
              else map_sum id (\<lambda>f. Some (f, status, idxPar))
                     (SetFunction tracer status (py_upto theCall idxPar))))"

definition blank_core :: "string \<Rightarrow> int \<Rightarrow> batch_core" where
  "blank_core tracer pid =
     \<lparr>m_tracer = tracer, m_pid = pid, m_timeStart = [], m_timeEnd = [], m_execTim = VStr [],
      m_funcNam = [], m_parsedArgs = [], m_retValue = Some ''N/A'', m_status = StUnknown,
      m_objectProcess = [], m_unfinishedBatch = None, m_resumedBatch = None\<rparr>"

definition SetDefaultOnError :: "batch_core \<Rightarrow> batch_core pyres" where
  "SetDefaultOnError c =
     map_sum id (\<lambda>f. c\<lparr>m_funcNam := f, m_parsedArgs := [], m_retValue := None\<rparr>)
       (SetFunction (m_tracer c) (m_status c) [])"

definition InitAfterPid :: "string \<Rightarrow> int \<Rightarrow> batch_core \<Rightarrow> batch_core pyres" where
  "InitAfterPid oneLine idxStart core =
     (let aTimeStamp = py_slice oneLine idxStart (idxStart + 15);
          theCall = py_from oneLine (idxStart + 16)
      in if startswith theCall ''--- '' then Inl ExceptionIsExit
         else if startswith theCall ''+++ '' then Inl ExceptionIsSignal
         else
          (case exec_time theCall of (idxLT, status, execTim) \<Rightarrow>
           let c = core\<lparr>m_timeStart := aTimeStamp, m_timeEnd := aTimeStamp, m_execTim := VStr execTim,
                        m_status := status\<rparr>
           in case call_function (m_tracer core) oneLine theCall status of
                Inl e \<Rightarrow> Inl e
              | Inr None \<Rightarrow> SetDefaultOnError c
              | Inr (Some (funcNam, st, idxPar)) \<Rightarrow>
                  (case ParseCallArguments theCall (nat (idxPar + 1)) of
                     None \<Rightarrow> Inl (PyException ''endless'')
                   | Some (args, idxLastPar) \<Rightarrow>
                       map_sum id (\<lambda>r. c\<lparr>m_status := st, m_funcNam := funcNam, m_parsedArgs := args,
                                          m_retValue := r\<rparr>)
                         (if st = StUnfinished then Inr None
                          else return_value (m_tracer core) theCall idxLT idxLastPar))))"

definition parse_line :: "config \<Rightarrow> string \<Rightarrow> string \<Rightarrow> batch_core pyres" where
  "parse_line cfg oneLine tracer =
     (if startswith oneLine ''[pid'' then
        (let idxAfterPid = py_find oneLine '']''
         in case py_int (py_slice oneLine 4 idxAfterPid) of
              None \<Rightarrow> Inl ValueError
            | Some pid \<Rightarrow> InitAfterPid oneLine (idxAfterPid + 2) (blank_core tracer pid))
      else InitAfterPid oneLine 0 (blank_core tracer (G_topProcessId cfg)))"

text \<open>
  The process of the line is created if needed, and gets the time of the line as its creation date
  if it has none yet.
\<close>

definition ParseLine :: "config \<Rightarrow> string \<Rightarrow> string \<Rightarrow> (world, batch_core) py" where
  "ParseLine cfg oneLine tracer =
     bnd (of_res (parse_line cfg oneLine tracer)) (\<lambda>c.
     bnd (ToObjectPath_CIM_Process cfg (m_pid c)) (\<lambda>p.
     andthen
       (upd_proc p (\<lambda>x. if no_text (CreationDate x) then x\<lparr>CreationDate := Some (m_timeStart c)\<rparr> else x))
       (ret (c\<lparr>m_objectProcess := p\<rparr>))))"

definition CreateBatchCore :: "config \<Rightarrow> string \<Rightarrow> string \<Rightarrow> (world, nat option) py" where
  "CreateBatchCore cfg oneLine tracer =
     try_except
       (bnd (ParseLine cfg oneLine tracer) (\<lambda>c. bnd (new_core c) (\<lambda>i. ret (Some i))))
       (\<lambda>e. if e = ExceptionIsExit \<or> e = ExceptionIsSignal then ret None else raise e)"

definition status_char :: "batch_status \<Rightarrow> char" where
  "status_char st =
     (case st of StUnknown \<Rightarrow> CHR ''?'' | StPlain \<Rightarrow> CHR '' '' | StUnfinished \<Rightarrow> CHR ''U''
      | StResumed \<Rightarrow> CHR ''R'' | StMatched \<Rightarrow> CHR ''m'' | StMerged \<Rightarrow> CHR ''M'' | StSequence \<Rightarrow> CHR '' '')"

definition core_AsStr :: "batch_core \<Rightarrow> string" where
  "core_AsStr c =
     py_repr (VList (m_parsedArgs c)) @ '' '' @
     (case m_retValue c of None \<Rightarrow> ''None'' | Some r \<Rightarrow> r) @ '' s='' @ [status_char (m_status c)]"

end
