(* ===== verification/Batches.thy ===== *)
theory Batches
  imports ParseLine ObjectsInv
begin

text \<open>
  The classes \<^verbatim>\<open>BatchLetSys_xxx\<close> and \<^verbatim>\<open>BatchLetLib_xxx\<close>: what each system call or library call does to
  the objects. A constructor that returns before it calls the one of its base class leaves an
  instance without core, which \<^verbatim>\<open>BatchLetFactory\<close> drops: the result is then \<open>None\<close>. Otherwise it is
  the list of the significant arguments.
\<close>

type_synonym handler = "config \<Rightarrow> batch_core \<Rightarrow> (world, pyval list option) py"

subsection \<open>What the constructors share\<close>

definition parsed_arg :: "int \<Rightarrow> batch_core \<Rightarrow> (world, pyval) py" where
  "parsed_arg i c = of_opt IndexError (py_nth (m_parsedArgs c) i)"

text \<open>\<open>v[i]\<close>, and the methods of texts on a value that may be a list.\<close>

definition py_index :: "pyval \<Rightarrow> int \<Rightarrow> pyval pyres" where
  "py_index v i =
     (case v of
        VList vs \<Rightarrow> (case py_nth vs i of None \<Rightarrow> Inl IndexError | Some x \<Rightarrow> Inr x)
      | VStr s \<Rightarrow> (case py_nth s i of None \<Rightarrow> Inl IndexError | Some x \<Rightarrow> Inr (VStr [x]))
      | _ \<Rightarrow> Inl TypeError)"

definition text_of :: "pyval \<Rightarrow> (world, string) py" where
  "text_of v = (case v of VStr s \<Rightarrow> ret s | _ \<Rightarrow> raise AttributeError)"

definition ret_val :: "batch_core \<Rightarrow> pyval" where
  "ret_val c = (case m_retValue c of None \<Rightarrow> VNone | Some s \<Rightarrow> VStr s)"

definition ret_text :: "batch_core \<Rightarrow> (world, string) py" where
  "ret_text c = text_of (ret_val c)"

text \<open>\<open>int(m_retValue)\<close> and \<open>int(m_retValue, 16)\<close>.\<close>

definition ret_int :: "batch_core \<Rightarrow> (world, int) py" where
  "ret_int c = (case m_retValue c of None \<Rightarrow> raise TypeError | Some s \<Rightarrow> of_opt ValueError (py_int s))"

definition ret_int16 :: "batch_core \<Rightarrow> (world, int) py" where
  "ret_int16 c = (case m_retValue c of None \<Rightarrow> raise TypeError | Some s \<Rightarrow> of_opt ValueError (py_int16 s))"

definition unsupported_tracer :: pyexc where
  "unsupported_tracer = PyException ''Tracer not supported yet''"

definition STraceStreamToFile :: "config \<Rightarrow> batch_core \<Rightarrow> pyval \<Rightarrow> (world, objpath) py" where
  "STraceStreamToFile cfg c strm =
     bnd (STraceStreamToPathname strm) (\<lambda>p. ToObjectPath_CIM_DataFile cfg p (m_pid c))"

definition ToObjectPath_Accessed_CIM_DataFile :: "config \<Rightarrow> batch_core \<Rightarrow> pyval \<Rightarrow> (world, objpath) py" where
  "ToObjectPath_Accessed_CIM_DataFile cfg c pathName = ToObjectPath_CIM_DataFile cfg pathName (m_pid c)"

definition StreamName :: "config \<Rightarrow> batch_core \<Rightarrow> int \<Rightarrow> (world, objpath) py" where
  "StreamName cfg c idx = bnd (parsed_arg idx c) (STraceStreamToFile cfg c)"

definition InvalidReturnedFileDescriptor :: "string \<Rightarrow> string \<Rightarrow> bool pyres" where
  "InvalidReturnedFileDescriptor fileDes tracer =
     (if tracer = strace then Inr (contains fileDes ''ENOENT'')
      else if tracer = ltrace then Inr (contains fileDes ''-2'')
      else Inl (PyException ''Tracer not supported yet''))"

definition stream_batch :: handler where
  "stream_batch cfg c = bnd (StreamName cfg c 0) (\<lambda>f. ret (Some [VFile f]))"

definition accessed_arg :: "int \<Rightarrow> handler" where
  "accessed_arg i cfg c =
     bnd (parsed_arg i c) (\<lambda>n.
     bnd (ToObjectPath_Accessed_CIM_DataFile cfg c n) (\<lambda>f. ret (Some [VFile f])))"

text \<open>The access of the process of the call to the file of its first argument.\<close>

definition stream_access :: "config \<Rightarrow> batch_core \<Rightarrow> (objpath \<Rightarrow> nat \<Rightarrow> (world, unit) py) \<Rightarrow> (world, pyval list option) py" where
  "stream_access cfg c act =
     bnd (StreamName cfg c 0) (\<lambda>f.
     bnd (GetFileAccess (m_objectProcess c) f) (\<lambda>a.
     andthen (act f a) (ret (Some [VFile f]))))"

subsection \<open>File descriptors\<close>

definition BatchLetSys_open :: handler where
  "BatchLetSys_open cfg c =
     bnd (ret_text c) (\<lambda>r.
     bnd (of_res (InvalidReturnedFileDescriptor r (m_tracer c))) (\<lambda>invalid.
     if invalid then ret None
     else
       bnd (if m_tracer c = strace then STraceStreamToFile cfg c (ret_val c)
            else if m_tracer c = ltrace then
              bnd (parsed_arg 0 c) (\<lambda>pathName.
              andthen (modify (\<lambda>w. w\<lparr>G_mapFilDesToPathName :=
                         AList.update r pathName (G_mapFilDesToPathName w)\<rparr>))
              (ToObjectPath_Accessed_CIM_DataFile cfg c pathName))
            else raise unsupported_tracer) (\<lambda>filObj.
       bnd (GetFileAccess (m_objectProcess c) filObj) (\<lambda>a.
       andthen (SetOpenTime cfg a (m_timeStart c)) (ret (Some [VFile filObj]))))))"

definition BatchLetSys_openat :: handler where
  "BatchLetSys_openat cfg c =
     bnd (if m_tracer c = strace then STraceStreamToFile cfg c (ret_val c)
          else if m_tracer c = ltrace then
            bnd (parsed_arg 0 c) (\<lambda>dirNam.
            bnd (if dirNam = VStr ''AT_FDCWD'' then
                   bnd (get_proc (m_objectProcess c)) (\<lambda>p. ret (VStr (GetProcessCurrentDir p)))
                 else bnd (STraceStreamToFile cfg c dirNam) (\<lambda>f. ret (VFile f))) (\<lambda>dirPath.
            bnd (parsed_arg 1 c) (\<lambda>filNam.
            bnd (of_res (abs_path dirPath filNam)) (\<lambda>pathName.
            bnd (ret_text c) (\<lambda>filDes.
            andthen (modify (\<lambda>w. w\<lparr>G_mapFilDesToPathName :=
                       AList.update filDes (VStr pathName) (G_mapFilDesToPathName w)\<rparr>))
            (ToObjectPath_Accessed_CIM_DataFile cfg c (VStr pathName)))))))
          else raise unsupported_tracer) (\<lambda>filObj.
     bnd (GetFileAccess (m_objectProcess c) filObj) (\<lambda>a.
     andthen (SetOpenTime cfg a (m_timeStart c)) (ret (Some [VFile filObj]))))"

definition BatchLetSys_close :: handler where
  "BatchLetSys_close cfg c =
     bnd (ret_text c) (\<lambda>r.
     if contains r ''EBADF'' then ret None
     else stream_access cfg c (\<lambda>f a. SetCloseTime cfg a (m_timeEnd c)))"

text \<open>A returned value that is no number is EISDIR, EAGAIN or cannot be read: no batch in any case.\<close>

definition BatchLetSys_read :: handler where
  "BatchLetSys_read cfg c =
     bnd (try_except (bnd (ret_int c) (\<lambda>n. ret (Some n)))
            (\<lambda>e. if e = ValueError then ret None else raise e)) (\<lambda>bytes.
     case bytes of
       None \<Rightarrow> ret None
     | Some bytesRead \<Rightarrow>
         stream_access cfg c (\<lambda>f a. bnd (parsed_arg 1 c) (\<lambda>b. SetRead cfg a bytesRead b)))"

definition ConvertBatchCoreRetValue :: "batch_core \<Rightarrow> (world, int) py" where
  "ConvertBatchCoreRetValue c =
     (if m_tracer c = ltrace then ret_int16 c
      else if m_tracer c = strace then ret_int c
      else raise (PyException ''Invalid tracer''))"

text \<open>\<^verbatim>\<open>SetRead\<close> is called here without the buffer, which is a TypeError.\<close>

definition BatchLetSys_preadx :: handler where
  "BatchLetSys_preadx cfg c =
     bnd (ConvertBatchCoreRetValue c) (\<lambda>bytesRead. stream_access cfg c (\<lambda>f a. raise TypeError))"

definition BatchLetSys_pread64x :: handler where
  "BatchLetSys_pread64x cfg c =
     bnd (ConvertBatchCoreRetValue c) (\<lambda>bytesRead.
     stream_access cfg c (\<lambda>f a. bnd (parsed_arg 1 c) (\<lambda>b. SetRead cfg a bytesRead b)))"

definition ignore_ValueError :: "(world, unit) py \<Rightarrow> (world, unit) py" where
  "ignore_ValueError m = try_except m (\<lambda>e. if e = ValueError then ret () else raise e)"

definition BatchLetSys_write :: handler where
  "BatchLetSys_write cfg c =
     stream_access cfg c (\<lambda>f a. ignore_ValueError
       (bnd (ret_int c) (\<lambda>bytesWritten. bnd (parsed_arg 1 c) (\<lambda>b. SetWritten cfg a bytesWritten b))))"

definition BatchLetSys_writev :: handler where
  "BatchLetSys_writev cfg c =
     stream_access cfg c (\<lambda>f a. ignore_ValueError
       (bnd (ret_int c) (\<lambda>bytesWritten. SetWritten cfg a bytesWritten VNone)))"

text \<open>The slice \<open>m_parsedArgs[1:0]\<close> is always empty.\<close>

definition BatchLetSys_ioctl :: handler where
  "BatchLetSys_ioctl cfg c =
     bnd (ret_text c) (\<lambda>r.
     if contains r ''EBADF'' then ret None
     else bnd (StreamName cfg c 0) (\<lambda>f. ret (Some (VFile f # py_slice (m_parsedArgs c) 1 0))))"

definition BatchLetSys_stat :: handler where
  "BatchLetSys_stat cfg c =
     bnd (ret_text c) (\<lambda>r.
     bnd (of_res (InvalidReturnedFileDescriptor r (m_tracer c))) (\<lambda>invalid.
     if invalid then ret None else accessed_arg 0 cfg c))"

definition BatchLetSys_lstat :: handler where
  "BatchLetSys_lstat = accessed_arg 0"

definition BatchLetSys_access :: handler where
  "BatchLetSys_access = accessed_arg 0"

definition BatchLetSys_dup :: handler where
  "BatchLetSys_dup cfg c =
     bnd (StreamName cfg c 0) (\<lambda>f.
     bnd (STraceStreamToFile cfg c (ret_val c)) (\<lambda>g. ret (Some [VFile f, VFile g])))"

definition BatchLetSys_dup2 :: handler where
  "BatchLetSys_dup2 = stream_batch"

subsection \<open>Memory\<close>

definition anonymous_map :: "batch_core \<Rightarrow> (world, bool) py" where
  "anonymous_map c = bnd (parsed_arg 3 c) (\<lambda>v. bnd (text_of v) (\<lambda>s. ret (contains s ''MAP_ANONYMOUS'')))"

definition BatchLetSys_mmap :: handler where
  "BatchLetSys_mmap cfg c =
     bnd (anonymous_map c) (\<lambda>anon.
     if anon then ret None
     else bnd (parsed_arg 4 c) (\<lambda>fdArg.
       if fdArg = VStr ''-1'' then ret None
       else bnd (StreamName cfg c 4) (\<lambda>f. ret (Some [VFile f]))))"

definition BatchLetSys_munmap :: handler where
  "BatchLetSys_munmap cfg c = ret (Some [])"

definition BatchLetSys_mmap2 :: handler where
  "BatchLetSys_mmap2 cfg c =
     bnd (anonymous_map c) (\<lambda>anon.
     if anon then ret None else bnd (StreamName cfg c 4) (\<lambda>f. ret (Some [VFile f])))"

subsection \<open>File system\<close>

definition BatchLetSys_fstat :: handler where
  "BatchLetSys_fstat cfg c =
     bnd (ret_text c) (\<lambda>r. if contains r ''EBADF'' then ret None else stream_batch cfg c)"

definition BatchLetSys_fstat64 :: handler where
  "BatchLetSys_fstat64 = stream_batch"

definition BatchLetSys_fstatfs :: handler where
  "BatchLetSys_fstatfs = stream_batch"

definition BatchLetSys_fadvise64 :: handler where
  "BatchLetSys_fadvise64 = stream_batch"

definition BatchLetSys_fchdir :: handler where
  "BatchLetSys_fchdir cfg c =
     bnd (StreamName cfg c 0) (\<lambda>f.
     andthen (SetProcessCurrentDir (m_objectProcess c) f) (ret (Some [VFile f])))"

definition BatchLetSys_fcntl :: handler where
  "BatchLetSys_fcntl = stream_batch"

definition BatchLetSys_fcntl64 :: handler where
  "BatchLetSys_fcntl64 = stream_batch"

definition BatchLetSys_fchown :: handler where
  "BatchLetSys_fchown = stream_batch"

definition BatchLetSys_ftruncate :: handler where
  "BatchLetSys_ftruncate = stream_batch"

definition BatchLetSys_fsync :: handler where
  "BatchLetSys_fsync = stream_batch"

definition BatchLetSys_fchmod :: handler where
  "BatchLetSys_fchmod = stream_batch"

subsection \<open>Processes\<close>

text \<open>The process whose number is returned, as a child of the process of the call.\<close>

definition new_child :: "config \<Rightarrow> batch_core \<Rightarrow> int \<Rightarrow> bool \<Rightarrow> (world, pyval list option) py" where
  "new_child cfg c aPid isThread =
     bnd (ToObjectPath_CIM_Process cfg aPid) (\<lambda>objNewProcess.
     andthen (if isThread then SetThread objNewProcess else ret ())
     (andthen (AddParentProcess objNewProcess (m_timeStart c) (m_objectProcess c))
     (ret (Some [VProc objNewProcess]))))"

text \<open>In their last branch these constructors name a variable that does not exist.\<close>

definition BatchLetSys_clone :: handler where
  "BatchLetSys_clone cfg c =
     (if m_tracer c = ltrace then bnd (ret_int16 c) (\<lambda>aPid. new_child cfg c aPid True)
      else if m_tracer c = strace then
        bnd (ret_int c) (\<lambda>aPid.
        bnd (parsed_arg 1 c) (\<lambda>v.
        bnd (text_of v) (\<lambda>flags. new_child cfg c aPid (contains (py_strip flags) ''CLONE_VM''))))
      else raise NameError)"

definition BatchLetSys_vfork :: handler where
  "BatchLetSys_vfork cfg c =
     (if m_tracer c = ltrace then bnd (ret_int16 c) (\<lambda>aPid. new_child cfg c aPid False)
      else if m_tracer c = strace then bnd (ret_int c) (\<lambda>aPid. new_child cfg c aPid False)
      else raise NameError)"

text \<open>The process of the call now runs this executable, with this command line.\<close>

definition run_executable :: "config \<Rightarrow> batch_core \<Rightarrow> objpath \<Rightarrow> pyval \<Rightarrow> (world, pyval list option) py" where
  "run_executable cfg c objNewDataFile commandLine =
     andthen (SetExecutable (m_objectProcess c) objNewDataFile)
     (andthen (SetCommandLine (m_objectProcess c) commandLine)
     (andthen (SetIsExecuted objNewDataFile)
     (ret (Some [VFile objNewDataFile, commandLine]))))"

definition BatchLetSys_execve :: handler where
  "BatchLetSys_execve cfg c =
     bnd (ret_text c) (\<lambda>r.
     if contains r ''ENOENT'' then ret None
     else
       bnd (parsed_arg 0 c) (\<lambda>n.
       bnd (ToObjectPath_Accessed_CIM_DataFile cfg c n) (\<lambda>objNewDataFile.
       bnd (if m_tracer c = ltrace then ret VNone
            else if m_tracer c = strace then parsed_arg 1 c
            else raise NameError) (\<lambda>commandLine.
       run_executable cfg c objNewDataFile commandLine))))"

definition BatchLetLib___libc_start_main :: handler where
  "BatchLetLib___libc_start_main cfg c =
     bnd (parsed_arg 0 c) (\<lambda>commandLine.
     bnd (of_res (py_index commandLine 0)) (\<lambda>execName.
     bnd (ToObjectPath_Accessed_CIM_DataFile cfg c execName) (\<lambda>objNewDataFile.
     run_executable cfg c objNewDataFile commandLine)))"

text \<open>The terminated process of a \<open>wait4\<close>; \<open>None\<close> when there is no child or no readable number.\<close>

definition waited_pid :: "batch_core \<Rightarrow> (world, int option) py" where
  "waited_pid c =
     (if m_tracer c = ltrace then
        bnd (ret_text c) (\<lambda>r.
        if contains r ''-10'' then ret None else bnd (ret_int16 c) (\<lambda>n. ret (Some n)))
      else if m_tracer c = strace then
        bnd (ret_text c) (\<lambda>r.
        if contains r ''ECHILD'' then ret None else ret (py_int (hd (py_split (CHR '' '') r))))
      else raise NameError)"

definition BatchLetSys_wait4 :: handler where
  "BatchLetSys_wait4 cfg c =
     bnd (waited_pid c) (\<lambda>pid.
     case pid of
       None \<Rightarrow> ret (Some (m_parsedArgs c))
     | Some aPid \<Rightarrow>
         if aPid = 0 then ret (Some (m_parsedArgs c))
         else
           bnd (ToObjectPath_CIM_Process cfg aPid) (\<lambda>waitedProcess.
           andthen (WaitProcessEnd waitedProcess (m_timeStart c) (m_objectProcess c))
           (ret (Some [VProc waitedProcess]))))"

definition BatchLetSys_exit_group :: handler where
  "BatchLetSys_exit_group cfg c = ret (Some [])"

definition BatchLetSys_newfstatat :: handler where
  "BatchLetSys_newfstatat cfg c =
     bnd (parsed_arg 0 c) (\<lambda>dirNam.
     bnd (if dirNam = VStr ''AT_FDCWD'' then
            bnd (get_proc (m_objectProcess c)) (\<lambda>p. ret (VStr (GetProcessCurrentDir p)))
          else
            bnd (STraceStreamToPathname dirNam) (\<lambda>dirPath.
            if truthy dirPath then ret dirPath else raise (PyException ''Invalid directory''))) (\<lambda>dirPath.
     bnd (parsed_arg 1 c) (\<lambda>filNam.
     bnd (of_res (abs_path dirPath filNam)) (\<lambda>pathName.
     bnd (ToObjectPath_Accessed_CIM_DataFile cfg c (VStr pathName)) (\<lambda>f. ret (Some [VFile f]))))))"

definition BatchLetSys_getdents :: handler where
  "BatchLetSys_getdents = stream_batch"

definition BatchLetSys_getdents64 :: handler where
  "BatchLetSys_getdents64 = stream_batch"

subsection \<open>Sockets\<close>

definition BatchLetSys_sendmsg :: handler where
  "BatchLetSys_sendmsg = stream_batch"

definition BatchLetSys_sendmmsg :: handler where
  "BatchLetSys_sendmmsg = stream_batch"

definition BatchLetSys_recvmsg :: handler where
  "BatchLetSys_recvmsg = stream_batch"

definition BatchLetSys_recvfrom :: handler where
  "BatchLetSys_recvfrom = stream_batch"

definition BatchLetSys_getsockname :: handler where
  "BatchLetSys_getsockname = stream_batch"

definition BatchLetSys_getpeername :: handler where
  "BatchLetSys_getpeername = stream_batch"

text \<open>
  \<open>poll\<close>: the descriptors are the texts that start with \<open>fd=\<close>. The call that turns one into a file
  stands after the loop, so that only the last descriptor is kept.
\<close>

fun poll_fd :: "pyval list \<Rightarrow> string option pyres" where
  "poll_fd [] = Inr None"
| "poll_fd (v # vs) =
     (case v of
        VStr s \<Rightarrow> if startswith s ''fd='' then Inr (Some (drop 3 s)) else poll_fd vs
      | _ \<Rightarrow> Inl AttributeError)"

fun poll_scan :: "pyval list \<Rightarrow> string option \<Rightarrow> string option pyres" where
  "poll_scan [] fdName = Inr fdName"
| "poll_scan (v # vs) fdName =
     (case py_iter v of
        Inl e \<Rightarrow> Inl e
      | Inr elts \<Rightarrow>
          (case poll_fd elts of
             Inl e \<Rightarrow> Inl e
           | Inr None \<Rightarrow> poll_scan vs fdName
           | Inr (Some n) \<Rightarrow> poll_scan vs (Some n)))"

definition BatchLetSys_poll :: handler where
  "BatchLetSys_poll cfg c =
     bnd (parsed_arg 0 c) (\<lambda>arrStrms.
     if m_tracer c = strace then
       (case arrStrms of
          VList strms \<Rightarrow>
            bnd (of_res (poll_scan strms None)) (\<lambda>fdName.
            bnd (of_opt NameError fdName) (\<lambda>n.
            bnd (STraceStreamToFile cfg c (VStr n)) (\<lambda>f. ret (Some [VList [VFile f]]))))
        | _ \<Rightarrow> ret (Some []))
     else ret (Some []))"

text \<open>\<open>select\<close>: each of the three sets is a list of texts of descriptors separated by spaces.\<close>

definition ArrFdNameToArrString :: "config \<Rightarrow> batch_core \<Rightarrow> pyval \<Rightarrow> (world, pyval) py" where
  "ArrFdNameToArrString cfg c arrStrms =
     (if arrStrms = VStr ''NULL'' then ret (VList [])
      else
        bnd (of_res (py_iter arrStrms)) (\<lambda>elts.
        bnd (for_each elts (\<lambda>v.
               bnd (text_of v) (\<lambda>fdName.
               for_each (py_split (CHR '' '') fdName) (\<lambda>oneFdNam.
                 bnd (STraceStreamToFile cfg c (VStr oneFdNam)) (\<lambda>f. ret (VFile f)))))) (\<lambda>filStrms.
        ret (VList (concat filStrms)))))"

definition BatchLetSys_select :: handler where
  "BatchLetSys_select cfg c =
     (if m_tracer c = strace then
        bnd (bnd (parsed_arg 1 c) (ArrFdNameToArrString cfg c)) (\<lambda>arrFilRead.
        bnd (bnd (parsed_arg 2 c) (ArrFdNameToArrString cfg c)) (\<lambda>arrFilWrit.
        bnd (bnd (parsed_arg 3 c) (ArrFdNameToArrString cfg c)) (\<lambda>arrFilExcp.
        ret (Some [arrFilRead, arrFilWrit, arrFilExcp]))))
      else if m_tracer c = ltrace then ret (Some [])
      else raise unsupported_tracer)"

definition BatchLetSys_setsockopt :: handler where
  "BatchLetSys_setsockopt cfg c = ret (Some [ret_val c])"

definition BatchLetSys_socket :: handler where
  "BatchLetSys_socket cfg c =
     bnd (STraceStreamToFile cfg c (ret_val c)) (\<lambda>f. ret (Some [VFile f]))"

text \<open>\<open>connect\<close> and \<open>bind\<close> store the address of the socket in its file.\<close>

definition socket_address :: handler where
  "socket_address cfg c =
     bnd (StreamName cfg c 0) (\<lambda>objPath.
     andthen
       (if m_tracer c = strace then
          bnd (parsed_arg 1 c) (\<lambda>v. upd_file objPath (\<lambda>x. x\<lparr>SocketAddress := Some v\<rparr>))
        else if m_tracer c = ltrace then ret ()
        else raise unsupported_tracer)
     (ret (Some [VFile objPath])))"

definition BatchLetSys_connect :: handler where
  "BatchLetSys_connect = socket_address"

definition BatchLetSys_bind :: handler where
  "BatchLetSys_bind = socket_address"

definition BatchLetSys_sendto :: handler where
  "BatchLetSys_sendto = stream_batch"

definition pipe_ends :: handler where
  "pipe_ends cfg c =
     bnd (parsed_arg 0 c) (\<lambda>arrPipes.
     bnd (of_res (py_index arrPipes 0)) (\<lambda>n0.
     bnd (STraceStreamToFile cfg c n0) (\<lambda>arrFil0.
     bnd (of_res (py_index arrPipes 1)) (\<lambda>n1.
     bnd (STraceStreamToFile cfg c n1) (\<lambda>arrFil1.
     ret (Some [VFile arrFil0, VFile arrFil1]))))))"

definition BatchLetSys_pipe :: handler where
  "BatchLetSys_pipe = pipe_ends"

definition BatchLetSys_pipe2 :: handler where
  "BatchLetSys_pipe2 = pipe_ends"

definition BatchLetSys_shutdown :: handler where
  "BatchLetSys_shutdown = stream_batch"

subsection \<open>Environment\<close>

text \<open>No batch is kept for \<open>getenv\<close>. A list is no key of a dictionary.\<close>

definition BatchLetLib_getenv :: handler where
  "BatchLetLib_getenv cfg c =
     bnd (parsed_arg 0 c) (\<lambda>envNam.
     bnd (ret_text c) (\<lambda>r.
     case envNam of
       VStr n \<Rightarrow>
         andthen (modify (\<lambda>w. w\<lparr>G_EnvironmentVariables :=
             AList.update n (if r = ''nil'' then [] else r) (G_EnvironmentVariables w)\<rparr>))
         (ret None)
     | _ \<Rightarrow> raise TypeError))"

subsection \<open>The register of the classes\<close>

text \<open>
  The classes in the order of the source. The metaclass registers each of them under the name of
  its function as the tracer writes it.
\<close>

definition batch_classes :: "(string \<times> handler) list" where
  "batch_classes =
     [(''BatchLetSys_open'', BatchLetSys_open),
      (''BatchLetSys_openat'', BatchLetSys_openat),
      (''BatchLetSys_close'', BatchLetSys_close),
      (''BatchLetSys_read'', BatchLetSys_read),
      (''BatchLetSys_preadx'', BatchLetSys_preadx),
      (''BatchLetSys_pread64x'', BatchLetSys_pread64x),
      (''BatchLetSys_write'', BatchLetSys_write),
      (''BatchLetSys_writev'', BatchLetSys_writev),
      (''BatchLetSys_ioctl'', BatchLetSys_ioctl),
      (''BatchLetSys_stat'', BatchLetSys_stat),
      (''BatchLetSys_lstat'', BatchLetSys_lstat),
      (''BatchLetSys_access'', BatchLetSys_access),
      (''BatchLetSys_dup'', BatchLetSys_dup),
      (''BatchLetSys_dup2'', BatchLetSys_dup2),
      (''BatchLetSys_mmap'', BatchLetSys_mmap),
      (''BatchLetSys_munmap'', BatchLetSys_munmap),
      (''BatchLetSys_mmap2'', BatchLetSys_mmap2),
      (''BatchLetSys_fstat'', BatchLetSys_fstat),
      (''BatchLetSys_fstat64'', BatchLetSys_fstat64),
      (''BatchLetSys_fstatfs'', BatchLetSys_fstatfs),
      (''BatchLetSys_fadvise64'', BatchLetSys_fadvise64),
      (''BatchLetSys_fchdir'', BatchLetSys_fchdir),
      (''BatchLetSys_fcntl'', BatchLetSys_fcntl),
      (''BatchLetSys_fcntl64'', BatchLetSys_fcntl64),
      (''BatchLetSys_fchown'', BatchLetSys_fchown),
      (''BatchLetSys_ftruncate'', BatchLetSys_ftruncate),
      (''BatchLetSys_fsync'', BatchLetSys_fsync),
      (''BatchLetSys_fchmod'', BatchLetSys_fchmod),
      (''BatchLetSys_clone'', BatchLetSys_clone),
      (''BatchLetSys_vfork'', BatchLetSys_vfork),
      (''BatchLetSys_execve'', BatchLetSys_execve),
      (''BatchLetLib___libc_start_main'', BatchLetLib___libc_start_main),
      (''BatchLetSys_wait4'', BatchLetSys_wait4),
      (''BatchLetSys_exit_group'', BatchLetSys_exit_group),
      (''BatchLetSys_newfstatat'', BatchLetSys_newfstatat),
      (''BatchLetSys_getdents'', BatchLetSys_getdents),
      (''BatchLetSys_getdents64'', BatchLetSys_getdents64),
      (''BatchLetSys_sendmsg'', BatchLetSys_sendmsg),
      (''BatchLetSys_sendmmsg'', BatchLetSys_sendmmsg),
      (''BatchLetSys_recvmsg'', BatchLetSys_recvmsg),
      (''BatchLetSys_recvfrom'', BatchLetSys_recvfrom),
      (''BatchLetSys_getsockname'', BatchLetSys_getsockname),
      (''BatchLetSys_getpeername'', BatchLetSys_getpeername),
      (''BatchLetSys_poll'', BatchLetSys_poll),
      (''BatchLetSys_select'', BatchLetSys_select),
      (''BatchLetSys_setsockopt'', BatchLetSys_setsockopt),
      (''BatchLetSys_socket'', BatchLetSys_socket),
      (''BatchLetSys_connect'', BatchLetSys_connect),
      (''BatchLetSys_bind'', BatchLetSys_bind),
      (''BatchLetSys_sendto'', BatchLetSys_sendto),
      (''BatchLetSys_pipe'', BatchLetSys_pipe),
      (''BatchLetSys_pipe2'', BatchLetSys_pipe2),
      (''BatchLetSys_shutdown'', BatchLetSys_shutdown),
      (''BatchLetLib_getenv'', BatchLetLib_getenv)]"

definition G_ignoredSyscalls :: "string list" where
  "G_ignoredSyscalls =
     [''arch_prctl'', ''brk'', ''futex'', ''clock_getres'', ''clock_gettime'', ''getegid'', ''geteuid'',
      ''getgid'', ''getpgid'', ''getpid'', ''getpgrp'', ''getppid'', ''getresgid'', ''getrlimit'',
      ''gettid'', ''getuid'', ''lseek'', ''mlock'', ''mprotect'', ''rt_sigaction'', ''rt_sigprocmask'',
      ''rt_sigreturn'', ''sched_getaffinity'', ''set_robust_list'', ''set_tid_address'', ''setpgid'',
      ''setpgrp'', ''times'']"

definition BatchMeta_init :: "string \<Rightarrow> (string \<times> string option) list \<Rightarrow> (string \<times> string option) list pyres" where
  "BatchMeta_init name models =
     (if startswith name ''BatchLetSys_'' then
        Inr (AList.update (drop 12 name @ ''@SYS'') (Some name) models)
      else if startswith name ''BatchLetLib_'' then
        Inr (AList.update (drop 12 name) (Some name) models)
      else if name \<notin> set [''NewBase'', ''BatchLetBase'', ''BatchLetSequence''] then
        Inl (PyException ''Invalid class name'')
      else Inr models)"

fun register_classes :: "string list \<Rightarrow> (string \<times> string option) list \<Rightarrow> (string \<times> string option) list pyres" where
  "register_classes [] models = Inr models"
| "register_classes (n # ns) models =
     (case BatchMeta_init n models of Inl e \<Rightarrow> Inl e | Inr m \<Rightarrow> register_classes ns m)"

text \<open>An ignored function has the entry \<open>None\<close>.\<close>

definition G_batchModels :: "(string \<times> string option) list" where
  "G_batchModels =
     (case register_classes
        ([''NewBase'', ''BatchLetBase''] @ map fst batch_classes @ [''BatchLetSequence''])
        (map (\<lambda>s. (s @ ''@SYS'', None)) G_ignoredSyscalls) of
        Inl _ \<Rightarrow> [] | Inr m \<Rightarrow> m)"

definition class_init :: "string \<Rightarrow> handler" where
  "class_init name cfg c =
     (case map_of batch_classes name of None \<Rightarrow> raise NameError | Some h \<Rightarrow> h cfg c)"

definition Incomplete_UnfinishedIsOk :: "string \<Rightarrow> bool" where
  "Incomplete_UnfinishedIsOk name = (name = ''BatchLetLib___libc_start_main'')"

definition Incomplete_ResumedWithoutUnfinishedIsOk :: "string \<Rightarrow> bool" where
  "Incomplete_ResumedWithoutUnfinishedIsOk name = (name = ''BatchLetSys_vfork'')"

subsection \<open>Every call keeps the invariant of the objects\<close>

lemma keeps_wf_globals [keeps_rules]:
  "keeps wf_world (modify (\<lambda>w. w\<lparr>G_mapFilDesToPathName := g w\<rparr>))"
  "keeps wf_world (modify (\<lambda>w. w\<lparr>G_EnvironmentVariables := h w\<rparr>))"
  "keeps wf_world (modify (\<lambda>w. w\<lparr>m_mapStacks := s w\<rparr>))"
  "keeps wf_world (modify (\<lambda>w. w\<lparr>G_UnknownFunctions := u w\<rparr>))"
  by (rule keeps_wf_modify; simp add: same_links_def)+

lemma keeps_values [keeps_rules]:
  "keeps I (parsed_arg i c)" "keeps I (text_of v)" "keeps I (ret_text c)" "keeps I (ret_int c)"
  "keeps I (ret_int16 c)" "keeps I (ConvertBatchCoreRetValue c)" "keeps I (anonymous_map c)"
  "keeps I (waited_pid c)"
  unfolding parsed_arg_def text_of_def ret_text_def ret_int_def ret_int16_def
    ConvertBatchCoreRetValue_def anonymous_map_def waited_pid_def
  by (intro keeps_rules)+

lemma keeps_wf_streams [keeps_rules]:
  "keeps wf_world (STraceStreamToFile cfg c v)" "keeps wf_world (StreamName cfg c i)"
  "keeps wf_world (ToObjectPath_Accessed_CIM_DataFile cfg c v)"
  "keeps wf_world (stream_batch cfg c)" "keeps wf_world (accessed_arg i cfg c)"
  unfolding STraceStreamToFile_def StreamName_def ToObjectPath_Accessed_CIM_DataFile_def
    stream_batch_def accessed_arg_def
  by (intro keeps_rules)+

lemma keeps_wf_stream_access [keeps_rules]:
  "(\<And>f a. keeps wf_world (act f a)) \<Longrightarrow> keeps wf_world (stream_access cfg c act)"
  unfolding stream_access_def by (intro keeps_rules)

lemma keeps_wf_ignore [keeps_rules]: "keeps wf_world m \<Longrightarrow> keeps wf_world (ignore_ValueError m)"
  unfolding ignore_ValueError_def by (intro keeps_rules)

lemma keeps_wf_children [keeps_rules]:
  "keeps wf_world (new_child cfg c n b)" "keeps wf_world (run_executable cfg c f v)"
  unfolding new_child_def run_executable_def by (intro keeps_rules)+

lemma keeps_wf_sockets [keeps_rules]:
  "keeps wf_world (socket_address cfg c)" "keeps wf_world (pipe_ends cfg c)"
  "keeps wf_world (ArrFdNameToArrString cfg c v)"
  unfolding socket_address_def pipe_ends_def ArrFdNameToArrString_def
  by (intro keeps_rules keeps_wf_upd_file; simp add: links_defs)+

lemmas handler_defs =
  BatchLetSys_open_def
  BatchLetSys_openat_def
  BatchLetSys_close_def
  BatchLetSys_read_def
  BatchLetSys_preadx_def
  BatchLetSys_pread64x_def
  BatchLetSys_write_def
  BatchLetSys_writev_def
  BatchLetSys_ioctl_def
  BatchLetSys_stat_def
  BatchLetSys_lstat_def
  BatchLetSys_access_def
  BatchLetSys_dup_def
  BatchLetSys_dup2_def
  BatchLetSys_mmap_def
  BatchLetSys_munmap_def
  BatchLetSys_mmap2_def
  BatchLetSys_fstat_def
  BatchLetSys_fstat64_def
  BatchLetSys_fstatfs_def
  BatchLetSys_fadvise64_def
  BatchLetSys_fchdir_def
  BatchLetSys_fcntl_def
  BatchLetSys_fcntl64_def
  BatchLetSys_fchown_def
  BatchLetSys_ftruncate_def
  BatchLetSys_fsync_def
  BatchLetSys_fchmod_def
  BatchLetSys_clone_def
  BatchLetSys_vfork_def
  BatchLetSys_execve_def
  BatchLetLib___libc_start_main_def
  BatchLetSys_wait4_def
  BatchLetSys_exit_group_def
  BatchLetSys_newfstatat_def
  BatchLetSys_getdents_def
  BatchLetSys_getdents64_def
  BatchLetSys_sendmsg_def
  BatchLetSys_sendmmsg_def
  BatchLetSys_recvmsg_def
  BatchLetSys_recvfrom_def
  BatchLetSys_getsockname_def
  BatchLetSys_getpeername_def
  BatchLetSys_poll_def
  BatchLetSys_select_def
  BatchLetSys_setsockopt_def
  BatchLetSys_socket_def
  BatchLetSys_connect_def
  BatchLetSys_bind_def
  BatchLetSys_sendto_def
  BatchLetSys_pipe_def
  BatchLetSys_pipe2_def
  BatchLetSys_shutdown_def
  BatchLetLib_getenv_def

lemma keeps_wf_handlers:
  "keeps wf_world (BatchLetSys_open cfg c)"
  "keeps wf_world (BatchLetSys_openat cfg c)"
  "keeps wf_world (BatchLetSys_close cfg c)"
  "keeps wf_world (BatchLetSys_read cfg c)"
  "keeps wf_world (BatchLetSys_preadx cfg c)"
  "keeps wf_world (BatchLetSys_pread64x cfg c)"
  "keeps wf_world (BatchLetSys_write cfg c)"
  "keeps wf_world (BatchLetSys_writev cfg c)"
  "keeps wf_world (BatchLetSys_ioctl cfg c)"
  "keeps wf_world (BatchLetSys_stat cfg c)"
  "keeps wf_world (BatchLetSys_lstat cfg c)"
  "keeps wf_world (BatchLetSys_access cfg c)"
  "keeps wf_world (BatchLetSys_dup cfg c)"
  "keeps wf_world (BatchLetSys_dup2 cfg c)"
  "keeps wf_world (BatchLetSys_mmap cfg c)"
  "keeps wf_world (BatchLetSys_munmap cfg c)"
  "keeps wf_world (BatchLetSys_mmap2 cfg c)"
  "keeps wf_world (BatchLetSys_fstat cfg c)"
  "keeps wf_world (BatchLetSys_fstat64 cfg c)"
  "keeps wf_world (BatchLetSys_fstatfs cfg c)"
  "keeps wf_world (BatchLetSys_fadvise64 cfg c)"
  "keeps wf_world (BatchLetSys_fchdir cfg c)"
  "keeps wf_world (BatchLetSys_fcntl cfg c)"
  "keeps wf_world (BatchLetSys_fcntl64 cfg c)"
  "keeps wf_world (BatchLetSys_fchown cfg c)"
  "keeps wf_world (BatchLetSys_ftruncate cfg c)"
  "keeps wf_world (BatchLetSys_fsync cfg c)"
  "keeps wf_world (BatchLetSys_fchmod cfg c)"
  "keeps wf_world (BatchLetSys_clone cfg c)"
  "keeps wf_world (BatchLetSys_vfork cfg c)"
  "keeps wf_world (BatchLetSys_execve cfg c)"
  "keeps wf_world (BatchLetLib___libc_start_main cfg c)"
  "keeps wf_world (BatchLetSys_wait4 cfg c)"
  "keeps wf_world (BatchLetSys_exit_group cfg c)"
  "keeps wf_world (BatchLetSys_newfstatat cfg c)"
  "keeps wf_world (BatchLetSys_getdents cfg c)"
  "keeps wf_world (BatchLetSys_getdents64 cfg c)"
  "keeps wf_world (BatchLetSys_sendmsg cfg c)"
  "keeps wf_world (BatchLetSys_sendmmsg cfg c)"
  "keeps wf_world (BatchLetSys_recvmsg cfg c)"
  "keeps wf_world (BatchLetSys_recvfrom cfg c)"
  "keeps wf_world (BatchLetSys_getsockname cfg c)"
  "keeps wf_world (BatchLetSys_getpeername cfg c)"
  "keeps wf_world (BatchLetSys_poll cfg c)"
  "keeps wf_world (BatchLetSys_select cfg c)"
  "keeps wf_world (BatchLetSys_setsockopt cfg c)"
  "keeps wf_world (BatchLetSys_socket cfg c)"
  "keeps wf_world (BatchLetSys_connect cfg c)"
  "keeps wf_world (BatchLetSys_bind cfg c)"
  "keeps wf_world (BatchLetSys_sendto cfg c)"
  "keeps wf_world (BatchLetSys_pipe cfg c)"
  "keeps wf_world (BatchLetSys_pipe2 cfg c)"
  "keeps wf_world (BatchLetSys_shutdown cfg c)"
  "keeps wf_world (BatchLetLib_getenv cfg c)"
  unfolding handler_defs by (intro keeps_rules)+

lemma class_init_handler:
  "class_init name cfg c = raise NameError \<or> (\<exists>h. (name, h) \<in> set batch_classes \<and> class_init name cfg c = h cfg c)"
  by (auto simp: class_init_def split: option.split dest: map_of_SomeD)

lemma keeps_wf_class_init [keeps_rules]: "keeps wf_world (class_init name cfg c)"
proof -
  have "keeps wf_world (h cfg c)" if "(n, h) \<in> set batch_classes" for n h
    using that keeps_wf_handlers [of cfg c] unfolding batch_classes_def by auto
  then show ?thesis using class_init_handler [of name cfg c] by (auto intro: keeps_raise)
qed

end
