(* ===== verification/Factory.thy ===== *)
theory Factory
  imports Batches
begin

text \<open>
  \<^verbatim>\<open>BatchLetBase\<close>, the calls that are interrupted (\<^verbatim>\<open>UnfinishedBatches\<close>), and
  \<^verbatim>\<open>BatchLetFactory\<close>, which builds the batch of a line. A line that ends with \<open><unfinished ...>\<close> is
  kept on the stack of its process and function until the line that resumes it is read; the two
  halves are then merged into the second one.
\<close>

record batchlet =
  m_core :: nat
  m_occurrences :: int
  m_style :: string
  m_significantArgs :: "pyval list"
  class_name :: string

definition BatchLetBase_init :: "string \<Rightarrow> nat \<Rightarrow> string \<Rightarrow> (world, batchlet) py" where
  "BatchLetBase_init className batchCore style =
     bnd (get_core batchCore) (\<lambda>c.
     ret \<lparr>m_core = batchCore, m_occurrences = 1, m_style = style,
          m_significantArgs = m_parsedArgs c, class_name = className\<rparr>)"

subsection \<open>The stacks of unfinished calls\<close>

type_synonym stacks = "(int \<times> (string \<times> nat list) list) list"

definition push_stack :: "int \<times> string \<Rightarrow> nat \<Rightarrow> stacks \<Rightarrow> stacks" where
  "push_stack k i st =
     (case k of (pid, funcNam) \<Rightarrow>
       (case map_of st pid of
          None \<Rightarrow> AList.update pid [(funcNam, [i])] st
        | Some mapByPids \<Rightarrow>
            (case map_of mapByPids funcNam of
               None \<Rightarrow> AList.update pid (AList.update funcNam [i] mapByPids) st
             | Some l \<Rightarrow> AList.update pid (AList.update funcNam (l @ [i]) mapByPids) st)))"

definition pop_stack :: "int \<times> string \<Rightarrow> stacks \<Rightarrow> (nat \<times> stacks) option" where
  "pop_stack k st =
     (case k of (pid, funcNam) \<Rightarrow>
       (case map_of st pid of
          None \<Rightarrow> None
        | Some m \<Rightarrow>
            (case map_of m funcNam of
               None \<Rightarrow> None
             | Some l \<Rightarrow>
                 if l = [] then None
                 else Some (last l, AList.update pid (AList.update funcNam (butlast l) m) st))))"

definition PushBatch :: "nat \<Rightarrow> (world, unit) py" where
  "PushBatch batchCoreUnfinished =
     bnd (get_core batchCoreUnfinished) (\<lambda>c.
     modify (\<lambda>w. w\<lparr>m_mapStacks := push_stack (m_pid c, m_funcNam c) batchCoreUnfinished (m_mapStacks w)\<rparr>))"

definition MergePopBatch :: "nat \<Rightarrow> (world, nat option) py" where
  "MergePopBatch batchCoreResumed =
     bnd (get_core batchCoreResumed) (\<lambda>r.
     bnd (gets (\<lambda>w. pop_stack (m_pid r, m_funcNam r) (m_mapStacks w))) (\<lambda>popped.
     case popped of
       None \<Rightarrow> ret None
     | Some (batchCoreUnfinished, st) \<Rightarrow>
         andthen (modify (\<lambda>w. w\<lparr>m_mapStacks := st\<rparr>))
         (bnd (get_core batchCoreUnfinished) (\<lambda>u.
          if m_funcNam u \<noteq> m_funcNam r then raise (PyException ''Inconsistency'')
          else
            andthen (upd_core batchCoreResumed (\<lambda>c. c\<lparr>m_parsedArgs := m_parsedArgs u @ m_parsedArgs c\<rparr>))
            (if m_status u \<noteq> StUnfinished then raise (PyException ''Unfinished status is not plain'')
             else
               andthen (upd_core batchCoreUnfinished
                 (\<lambda>c. c\<lparr>m_status := StMatched, m_resumedBatch := Some batchCoreResumed\<rparr>))
               (bnd (get_core batchCoreResumed) (\<lambda>r'.
                if m_status r' \<noteq> StResumed then raise (PyException ''Resumed status is not plain'')
                else
                  andthen (upd_core batchCoreResumed
                    (\<lambda>c. c\<lparr>m_status := StMerged, m_unfinishedBatch := Some batchCoreUnfinished\<rparr>))
                  (ret (Some batchCoreResumed)))))))))"

text \<open>
  The report of the unfinished calls. The loop over the functions of a process stops at the first
  empty stack.
\<close>

fun print_stacks :: "batch_core list \<Rightarrow> int \<Rightarrow> bool \<Rightarrow> (string \<times> nat list) list \<Rightarrow> string" where
  "print_stacks cs pid isPidWritten [] = []"
| "print_stacks cs pid isPidWritten ((funcNam, arrCores) # rest) =
     (if arrCores = [] then []
      else (if isPidWritten then [] else ''Unfinished calls pid='' @ py_str_int pid @ [CHR 0x0A]) @
        ''    Call name='' @ funcNam @ [CHR 0x0A] @
        concat (map (\<lambda>i. ''        '' @ core_AsStr (cs ! i) @ [CHR 0x0A]) arrCores) @
        [CHR 0x0A] @ print_stacks cs pid True rest)"

definition PrintUnfinished :: "nat \<Rightarrow> world \<Rightarrow> string" where
  "PrintUnfinished withWarning w =
     (if withWarning = 0 then []
      else concat (map (\<lambda>(pid, mapPid). print_stacks (cores w) pid False mapPid) (m_mapStacks w)) @
        [CHR 0x0A])"

subsection \<open>The factory\<close>

text \<open>An instance of a class, or \<open>None\<close> when its constructor has not called the one of its base.\<close>

definition make_batch :: "config \<Rightarrow> string \<Rightarrow> nat \<Rightarrow> (world, batchlet option) py" where
  "make_batch cfg className batchCore =
     bnd (get_core batchCore) (\<lambda>c.
     bnd (class_init className cfg c) (\<lambda>sig.
     ret (map_option (\<lambda>args. \<lparr>m_core = batchCore, m_occurrences = 1, m_style = ''Orig'',
                              m_significantArgs = args, class_name = className\<rparr>) sig)))"

definition base_batch :: "nat \<Rightarrow> (world, batchlet option) py" where
  "base_batch batchCore =
     bnd (BatchLetBase_init ''BatchLetBase'' batchCore ''Orig'') (\<lambda>b. ret (Some b))"

definition unfinished_batch :: "config \<Rightarrow> string \<Rightarrow> nat \<Rightarrow> (world, batchlet option) py" where
  "unfinished_batch cfg aModel batchCore =
     try_except
       (if Incomplete_UnfinishedIsOk aModel then make_batch cfg aModel batchCore else raise AttributeError)
       (\<lambda>e. if e = AttributeError
            then bnd (base_batch batchCore) (\<lambda>b. andthen (PushBatch batchCore) (ret b))
            else raise e)"

definition resumed_batch :: "config \<Rightarrow> string \<Rightarrow> nat \<Rightarrow> (world, batchlet option) py" where
  "resumed_batch cfg aModel batchCore =
     bnd (MergePopBatch batchCore) (\<lambda>merged.
     case merged of
       Some m \<Rightarrow> make_batch cfg aModel m
     | None \<Rightarrow>
         andthen
           (try_except
              (if Incomplete_ResumedWithoutUnfinishedIsOk aModel
               then andthen (make_batch cfg aModel batchCore) (ret ()) else raise AttributeError)
              (\<lambda>e. if e = AttributeError then ret () else raise e))
           (base_batch batchCore))"

definition BatchLetFactory :: "config \<Rightarrow> nat \<Rightarrow> (world, batchlet option) py" where
  "BatchLetFactory cfg batchCore =
     bnd (get_core batchCore) (\<lambda>c.
     case map_of G_batchModels (m_funcNam c) of
       None \<Rightarrow>
         andthen (modify (\<lambda>w. w\<lparr>G_UnknownFunctions := set_add (m_funcNam c) (G_UnknownFunctions w)\<rparr>))
           (base_batch batchCore)
     | Some None \<Rightarrow> ret None
     | Some (Some aModel) \<Rightarrow>
         if m_status c = StUnfinished then unfinished_batch cfg aModel batchCore
         else if m_status c = StResumed then resumed_batch cfg aModel batchCore
         else make_batch cfg aModel batchCore)"

subsection \<open>Comparing two batches\<close>

text \<open>The classes that create or set up a process are never the same call as another one.\<close>

definition never_same :: "string list" where
  "never_same = [''BatchLetSys_clone'', ''BatchLetSys_vfork'', ''BatchLetSys_execve'',
                 ''BatchLetLib___libc_start_main'']"

definition SameArguments :: "batchlet \<Rightarrow> batchlet \<Rightarrow> bool" where
  "SameArguments a b \<longleftrightarrow>
     length (m_significantArgs a) = length (m_significantArgs b) \<and>
     list_all2 (=) (m_significantArgs a) (m_significantArgs b)"

definition SameCall :: "batch_core list \<Rightarrow> batchlet \<Rightarrow> batchlet \<Rightarrow> bool" where
  "SameCall cs a b \<longleftrightarrow>
     class_name a \<notin> set never_same \<and>
     m_funcNam (cs ! m_core a) = m_funcNam (cs ! m_core b) \<and> SameArguments a b"

definition GetSignature :: "batch_core list \<Rightarrow> batchlet \<Rightarrow> string" where
  "GetSignature cs b = m_funcNam (cs ! m_core b)"

definition GetSignatureWithArgs :: "batch_core list \<Rightarrow> batchlet \<Rightarrow> string" where
  "GetSignatureWithArgs cs b =
     m_funcNam (cs ! m_core b) @ '':'' @ py_join ''&'' (map py_str (m_significantArgs b))"

lemma SameArguments_eq: "SameArguments a b \<longleftrightarrow> m_significantArgs a = m_significantArgs b"
  by (auto simp: SameArguments_def list.rel_eq)

subsection \<open>The factory keeps the invariant of the objects\<close>

lemma keeps_wf_factory_parts [keeps_rules]:
  "keeps wf_world (BatchLetBase_init n i s)" "keeps wf_world (PushBatch i)"
  "keeps wf_world (MergePopBatch i)" "keeps wf_world (make_batch cfg n i)"
  "keeps wf_world (base_batch i)"
  unfolding BatchLetBase_init_def PushBatch_def MergePopBatch_def make_batch_def base_batch_def
  by (intro keeps_rules)+

lemma keeps_wf_BatchLetFactory [keeps_rules]: "keeps wf_world (BatchLetFactory cfg i)"
  unfolding BatchLetFactory_def unfinished_batch_def resumed_batch_def
  by (intro keeps_rules)

lemma keeps_wf_CreateBatchCore [keeps_rules]: "keeps wf_world (CreateBatchCore cfg l t)"
  unfolding CreateBatchCore_def ParseLine_def
  by (intro keeps_rules keeps_wf_upd_proc) (simp add: links_defs)

subsection \<open>Last in, first out\<close>

text \<open>
  The contract of the stacks: one stack for each key, \<open>push\<close> puts on top of the stack of its key,
  \<open>pop\<close> takes the top off, and neither touches the stacks of the other keys.
\<close>

locale keyed_stacks =
  fixes contents :: "'s \<Rightarrow> 'k \<Rightarrow> 'v list"
    and push :: "'k \<Rightarrow> 'v \<Rightarrow> 's \<Rightarrow> 's"
    and pop :: "'k \<Rightarrow> 's \<Rightarrow> ('v \<times> 's) option"
  assumes contents_push: "contents (push k v s) = (contents s)(k := contents s k @ [v])"
    and pop_None: "pop k s = None \<longleftrightarrow> contents s k = []"
    and pop_Some: "pop k s = Some (v, s') \<Longrightarrow>
      contents s k \<noteq> [] \<and> v = last (contents s k) \<and> contents s' = (contents s)(k := butlast (contents s k))"
begin

lemma pop_push: "\<exists>s'. pop k (push k v s) = Some (v, s') \<and> contents s' = contents s"
proof -
  have "pop k (push k v s) \<noteq> None" by (simp add: pop_None contents_push)
  then obtain u s' where p: "pop k (push k v s) = Some (u, s')" by auto
  from pop_Some [OF p] have "u = v" "contents s' = contents s" by (simp_all add: contents_push)
  with p show ?thesis by blast
qed

text \<open>A program of pushes and pops, with the values that were popped.\<close>

fun run_stack :: "('k \<times> 'v option) list \<Rightarrow> 's \<Rightarrow> 'v option list \<times> 's" where
  "run_stack [] s = ([], s)"
| "run_stack ((k, Some v) # ops) s = run_stack ops (push k v s)"
| "run_stack ((k, None) # ops) s =
     (case pop k s of
        None \<Rightarrow> (case run_stack ops s of (vs, t) \<Rightarrow> (None # vs, t))
      | Some (v, s') \<Rightarrow> (case run_stack ops s' of (vs, t) \<Rightarrow> (Some v # vs, t)))"

lemma run_append: "run_stack (xs @ ys) s =
    (case run_stack xs s of (vs, t) \<Rightarrow> (case run_stack ys t of (us, u) \<Rightarrow> (vs @ us, u)))"
  by (induction xs s rule: run_stack.induct) (auto split: option.splits prod.splits)

text \<open>The result of a program depends on the contents only.\<close>

lemma run_contents: "contents s = contents s' \<Longrightarrow>
    fst (run_stack ops s) = fst (run_stack ops s') \<and>
    contents (snd (run_stack ops s)) = contents (snd (run_stack ops s'))"
proof (induction ops s arbitrary: s' rule: run_stack.induct)
  case (1 s)
  then show ?case by simp
next
  case (2 k v ops s)
  from "2.IH" [of "push k v s'"] "2.prems" show ?case by (simp add: contents_push)
next
  case (3 k ops s)
  show ?case
  proof (cases "pop k s")
    case None
    then have "pop k s' = None" using "3.prems" by (simp add: pop_None)
    with None "3.IH"(1) [OF None "3.prems"] show ?thesis by (auto split: prod.splits)
  next
    case (Some p)
    then obtain v t where p: "pop k s = Some (v, t)" by (cases p) auto
    from p "3.prems" have "pop k s' \<noteq> None" using pop_None pop_Some by metis
    then obtain v' t' where p': "pop k s' = Some (v', t')" by auto
    from pop_Some [OF p] pop_Some [OF p'] "3.prems"
    have "v' = v" "contents t = contents t'" by simp_all
    with p p' "3.IH"(2) [OF p refl, of t'] show ?thesis by (auto split: prod.splits)
  qed
qed

text \<open>
  Nested calls: a program that opens and closes a call around another program that leaves the
  stacks as they were pops its own value last, and leaves the stacks as they were.
\<close>

lemma nested:
  assumes "contents (snd (run_stack ops (push k v s))) = contents (push k v s)"
  shows "\<exists>t. run_stack ((k, Some v) # ops @ [(k, None)]) s =
      (fst (run_stack ops (push k v s)) @ [Some v], t) \<and> contents t = contents s"
proof -
  obtain vs t where r: "run_stack ops (push k v s) = (vs, t)" by force
  with assms have c: "contents t = contents (push k v s)" by simp
  then have "pop k t \<noteq> None" by (simp add: pop_None contents_push)
  then obtain u t' where p: "pop k t = Some (u, t')" by auto
  from pop_Some [OF p] c have "u = v" "contents t' = contents s" by (simp_all add: contents_push)
  with r p show ?thesis by (simp add: run_append)
qed

end

definition stack_contents :: "stacks \<Rightarrow> int \<times> string \<Rightarrow> nat list" where
  "stack_contents st k =
     (case map_of st (fst k) of
        None \<Rightarrow> []
      | Some m \<Rightarrow> (case map_of m (snd k) of None \<Rightarrow> [] | Some l \<Rightarrow> l))"

interpretation unfinished: keyed_stacks stack_contents push_stack pop_stack
proof (unfold_locales, goal_cases)
  case (1 k v s)
  show ?case
    by (cases k) (auto simp: fun_eq_iff stack_contents_def push_stack_def split: option.splits)
next
  case (2 k s)
  show ?case by (cases k) (auto simp: stack_contents_def pop_stack_def split: option.splits)
next
  case (3 k s v s')
  then show ?case
    by (cases k) (auto simp: fun_eq_iff stack_contents_def pop_stack_def split: option.splits if_splits)
qed

end
