(* ===== verification/ObjectProps.thy ===== *)
theory ObjectProps
  imports Caches
begin

text \<open>
  What the objects promise: one object for each key, the life of a file access from its opening to
  its closing, its counters and the buffers that its scanners see, and the tree of the processes.
\<close>

subsection \<open>Counters and buffers of an access\<close>

text \<open>One read or write that is counted, before its buffer is analysed.\<close>

definition count_read :: "int \<Rightarrow> file_access \<Rightarrow> file_access" where
  "count_read n a = a\<lparr>
     NumReads := Some (case NumReads a of None \<Rightarrow> 1 | Some m \<Rightarrow> m + 1),
     BytesRead := Some (case BytesRead a of None \<Rightarrow> n | Some m \<Rightarrow> m + n)\<rparr>"

definition opt_sum :: "int option \<Rightarrow> int" where
  "opt_sum x = (case x of None \<Rightarrow> 0 | Some n \<Rightarrow> n)"

lemma AnalyseNewBuffer_counters:
  assumes "AnalyseNewBuffer cfg i r n b w = (Inr u, w')" "i < length (accesses w)"
  shows "length (accesses w') = length (accesses w)"
    "NumReads (accesses w' ! i) = NumReads (accesses w ! i)"
    "BytesRead (accesses w' ! i) = BytesRead (accesses w ! i)"
    "access_ends (accesses w' ! i) = access_ends (accesses w ! i)"
    "file_at w' = file_at w"
  using assms
  by (auto simp: AnalyseNewBuffer_def bnd_def access_ends_def Let_def
      split: if_splits option.splits sum.splits)

lemma SetRead_step:
  assumes "SetRead cfg i n b w = (Inr u, w')" "i < length (accesses w)"
  shows "length (accesses w') = length (accesses w)"
    "NumReads (accesses w' ! i) = Some (opt_sum (NumReads (accesses w ! i)) + 1)"
    "BytesRead (accesses w' ! i) = Some (opt_sum (BytesRead (accesses w ! i)) + n)"
proof -
  let ?w = "put_access i (count_read n (accesses w ! i)) w"
  have "AnalyseNewBuffer cfg i True n b ?w = (Inr u, w')"
    using assms by (simp add: SetRead_def andthen_def bnd_def count_read_def)
  note a = AnalyseNewBuffer_counters [OF this]
  show "length (accesses w') = length (accesses w)"
    "NumReads (accesses w' ! i) = Some (opt_sum (NumReads (accesses w ! i)) + 1)"
    "BytesRead (accesses w' ! i) = Some (opt_sum (BytesRead (accesses w ! i)) + n)"
    using a assms(2) by (auto simp: count_read_def opt_sum_def split: option.splits)
qed

lemma reads_sum:
  assumes "for_each ns (\<lambda>(n, b). SetRead cfg i n b) w = (Inr us, w')" "i < length (accesses w)"
  shows "length (accesses w') = length (accesses w) \<and>
    opt_sum (NumReads (accesses w' ! i)) = opt_sum (NumReads (accesses w ! i)) + int (length ns) \<and>
    opt_sum (BytesRead (accesses w' ! i)) = opt_sum (BytesRead (accesses w ! i)) + sum_list (map fst ns)"
  using assms
proof (induction ns arbitrary: w us)
  case (Cons x ns)
  obtain n b where x: "x = (n, b)" by force
  from Cons.prems(1) obtain u w1 vs where
    s: "SetRead cfg i n b w = (Inr u, w1)" and
    r: "for_each ns (\<lambda>(n, b). SetRead cfg i n b) w1 = (Inr vs, w')"
    by (auto simp: x bnd_def split: prod.splits sum.splits)
  note st = SetRead_step [OF s Cons.prems(2)]
  have "i < length (accesses w1)" using st(1) Cons.prems(2) by simp
  from Cons.IH [OF r this] st show ?case by (simp add: x opt_sum_def)
qed simp

text \<open>On a file that is not a plain file, the concatenator of an access receives every buffer.\<close>

lemma SetRead_buffer:
  assumes i: "i < length (accesses w)" and f: "file_at w (m_objectCIM_DataFile (accesses w ! i)) = Some f"
    and p: "\<not> IsPlainFile (Name f)" and b: "b \<noteq> []" and d: "DecodeOctalEscapeSequence b = Some d"
  shows "\<exists>a. SetRead cfg i n (VStr b) w = (Inr (), put_access i a w) \<and>
    access_ends a = access_ends (accesses w ! i) \<and>
    m_bufConcatRead a = Some (append_decoded (BufferScanners cfg) d n
      (case m_bufConcatRead (accesses w ! i) of None \<Rightarrow> BufferConcatenator_init | Some c \<Rightarrow> c))"
proof -
  let ?c = "case m_bufConcatRead (accesses w ! i) of None \<Rightarrow> BufferConcatenator_init | Some c \<Rightarrow> c"
  let ?a = "(count_read n (accesses w ! i))\<lparr>m_bufConcatRead := Some (append_decoded (BufferScanners cfg) d n ?c)\<rparr>"
  have "SetRead cfg i n (VStr b) w = (Inr (), put_access i ?a w)"
    using assms
    by (simp add: SetRead_def andthen_def bnd_def AnalyseNewBuffer_def Let_def AppendIOBuffer_def
        count_read_def)
  moreover have "access_ends ?a = access_ends (accesses w ! i)"
    by (simp add: count_read_def access_ends_def)
  ultimately show ?thesis by (intro exI [of _ ?a]) (simp add: count_read_def)
qed

lemma reads_buffer:
  assumes "i < length (accesses w)" "file_at w (m_objectCIM_DataFile (accesses w ! i)) = Some f"
    "\<not> IsPlainFile (Name f)"
    "list_all2 (\<lambda>(n, b) (d, m). m = n \<and> b \<noteq> [] \<and> DecodeOctalEscapeSequence b = Some d) ns ds"
    "m_bufConcatRead (accesses w ! i) = Some c"
  shows "\<exists>us w'. for_each ns (\<lambda>(n, b). SetRead cfg i n (VStr b)) w = (Inr us, w') \<and>
    i < length (accesses w') \<and>
    m_bufConcatRead (accesses w' ! i) = Some (append_all (BufferScanners cfg) ds c)"
  using assms
proof (induction ns arbitrary: ds w c)
  case Nil
  then show ?case by (simp add: append_all_def)
next
  case (Cons x ns)
  obtain n b where x: "x = (n, b)" by force
  from Cons.prems(4) obtain d ds' where ds: "ds = (d, n) # ds'" "b \<noteq> []"
    "DecodeOctalEscapeSequence b = Some d"
    "list_all2 (\<lambda>(n, b) (d, m). m = n \<and> b \<noteq> [] \<and> DecodeOctalEscapeSequence b = Some d) ns ds'"
    by (cases ds) (auto simp: x)
  from SetRead_buffer [OF Cons.prems(1-3) ds(2,3), of cfg n] Cons.prems(5) obtain a where
    a: "SetRead cfg i n (VStr b) w = (Inr (), put_access i a w)"
    "access_ends a = access_ends (accesses w ! i)"
    "m_bufConcatRead a = Some (append_decoded (BufferScanners cfg) d n c)" by auto
  have "\<exists>us w'. for_each ns (\<lambda>(n, b). SetRead cfg i n (VStr b)) (put_access i a w) = (Inr us, w') \<and>
    i < length (accesses w') \<and>
    m_bufConcatRead (accesses w' ! i) =
      Some (append_all (BufferScanners cfg) ds' (append_decoded (BufferScanners cfg) d n c))"
    by (rule Cons.IH [OF _ _ Cons.prems(3) ds(4)])
      (use Cons.prems(1,2) a in \<open>auto simp: access_ends_def\<close>)
  then show ?case using a(1) by (auto simp: x ds(1) append_all_def bnd_def)
qed

subsection \<open>The life of an access\<close>

lemma looked_up:
  assumes w: "wf_world w" and l: "LookupFileAccess p f w = (Inr i, w1)"
  shows "wf_world w1" "cached_access w1 p f = Some i" "i < length (accesses w1)"
    "\<exists>x. proc_at w1 p = Some x" "\<exists>y. file_at w1 f = Some y"
proof -
  show w1: "wf_world w1" using keepsE [OF keeps_wf_lookup w l] .
  show c: "cached_access w1 p f = Some i"
    using access_cache.made [OF w, of "(p, f)"] l by (simp add: lookup_access_def find_access_def)
  from w1 have k: "wf_cache w1" and a: "wf_accesses w1" by (simp_all add: wf_world_def)
  show i: "i < length (accesses w1)" using wf_cacheD(1) [OF k c] .
  show "\<exists>x. proc_at w1 p = Some x" "\<exists>y. file_at w1 f = Some y"
    using wf_accessesD(1,2) [OF a nth_mem [OF i]] wf_cacheD(2,3) [OF k c] by simp_all
qed

lemma reopened:
  assumes w: "wf_world w" and l: "LookupFileAccess p f w = (Inr i, w1)"
  shows "\<exists>w2 w3. SetCloseTime cfg i t w1 = (Inr (), w2) \<and>
    cached_access w2 p f = None \<and> CloseTime (accesses w2 ! i) \<noteq> None \<and>
    LookupFileAccess p f w2 = (Inr (length (accesses w1)), w3) \<and>
    accesses w3 = accesses w2 @ [new_access p f]"
proof -
  note k = looked_up [OF w l]
  have ends: "m_objectCIM_Process (accesses w1 ! i) = p" "m_objectCIM_DataFile (accesses w1 ! i) = f"
    using wf_cacheD(2,3) [OF _ k(2)] k(1) by (simp_all add: wf_world_def)
  obtain x y where xy: "proc_at w1 p = Some x" "file_at w1 f = Some y" using k(4,5) by blast
  obtain sz u where c: "SetCloseTime cfg i t w1 =
      (Inr (), forget_access p f (put_access i (close_access t sz (accesses w1 ! i)) (w1\<lparr>ticks := u\<rparr>)))"
    using SetCloseTime_run [OF k(1,3), of cfg t] ends k(2) by (auto simp: Let_def)
  let ?w2 = "forget_access p f (put_access i (close_access t sz (accesses w1 ! i)) (w1\<lparr>ticks := u\<rparr>))"
  have "LookupFileAccess p f ?w2 =
      (Inr (length (accesses w1)), store_access p f (length (accesses w1)) (with_access p x f y ?w2))"
    using lookup_miss [of ?w2 p f x y] xy by simp
  moreover have "CloseTime (accesses ?w2 ! i) \<noteq> None"
    using k(3) by (auto simp: close_access_def Let_def earlier_def split: option.splits)
  ultimately show ?thesis using c by (intro exI conjI) (assumption | simp)+
qed

subsection \<open>The tree of the processes\<close>

text \<open>A rank that decreases from a process to its parent.\<close>

definition ranked :: "(objpath \<Rightarrow> nat) \<Rightarrow> world \<Rightarrow> bool" where
  "ranked rank w \<longleftrightarrow>
     (\<forall>k p q. proc_at w k = Some p \<longrightarrow> m_parentProcess p = Some q \<longrightarrow> rank q < rank k)"

inductive ancestor :: "world \<Rightarrow> objpath \<Rightarrow> objpath \<Rightarrow> bool" for w where
  self: "ancestor w k k"
| up: "proc_at w k = Some p \<Longrightarrow> m_parentProcess p = Some q \<Longrightarrow> ancestor w q r \<Longrightarrow> ancestor w k r"

inductive_cases ancestorE: "ancestor w k r"

lemma top_of_ranked:
  assumes "ranked rank w"
  shows "\<exists>r. TopProcessFromProc w k = Some r \<and> ancestor w k r \<and> Option.bind (proc_at w r) m_parentProcess = None"
proof (induction "rank k" arbitrary: k rule: less_induct)
  case less
  show ?case
  proof (cases "Option.bind (proc_at w k) m_parentProcess")
    case None
    then have "TopProcessFromProc w k = Some k" by (subst TopProcessFromProc.simps) simp
    with None show ?thesis by (blast intro: ancestor.self)
  next
    case (Some q)
    then obtain p where p: "proc_at w k = Some p" "m_parentProcess p = Some q"
      by (cases "proc_at w k") auto
    with assms have "rank q < rank k" by (simp add: ranked_def)
    from less [OF this] obtain r where r: "TopProcessFromProc w q = Some r" "ancestor w q r"
      "Option.bind (proc_at w r) m_parentProcess = None" by blast
    have "TopProcessFromProc w k = Some r"
      using Some r(1) by (subst TopProcessFromProc.simps) simp
    with r ancestor.up [OF p r(2)] show ?thesis by blast
  qed
qed

text \<open>The result of the loop has no parent, so on a cycle the loop never ends.\<close>

lemma top_has_no_parent:
  assumes "TopProcessFromProc w k = Some r"
  shows "ancestor w k r \<and> Option.bind (proc_at w r) m_parentProcess = None"
proof (rule TopProcessFromProc.raw_induct [OF _ assms], goal_cases)
  case (1 g w k r)
  show ?case
  proof (cases "Option.bind (proc_at w k) m_parentProcess")
    case None
    with 1(2) show ?thesis by (auto intro: ancestor.self)
  next
    case (Some q)
    then obtain p where p: "proc_at w k = Some p" "m_parentProcess p = Some q"
      by (cases "proc_at w k") auto
    from Some 1(2) have "g w q = Some r" by simp
    from 1(1) [OF this] ancestor.up [OF p] show ?thesis by blast
  qed
qed

lemma cycle_never_ends:
  assumes "proc_at w a = Some x" "m_parentProcess x = Some b"
    "proc_at w b = Some y" "m_parentProcess y = Some a"
  shows "TopProcessFromProc w a = None"
proof (rule ccontr)
  assume "TopProcessFromProc w a \<noteq> None"
  then obtain r where r: "TopProcessFromProc w a = Some r" by auto
  have closed: "r = a \<or> r = b" if "ancestor w k r" "k = a \<or> k = b" for k r
    using that assms by (induction rule: ancestor.induct) auto
  from top_has_no_parent [OF r] closed [of a r] assms show False by auto
qed

subsection \<open>Properties\<close>

text \<open>A replayed log on another machine: nothing is asked of the machine.\<close>

definition replay_config :: config where
  "replay_config = \<lparr>G_ReplayMode = True, G_SameMachine = False, G_topProcessId = 7,
     G_CurrentDirectory = ''/home'', G_Today = ''2018-01-01'', BufferScanners = [(''Sql'', \<lambda>b. [b])],
     on_linux = True, os_stat_at = (\<lambda>_ _. None), psutil_at = None, environ_at = (\<lambda>_ _. None),
     gethostbyaddr = (\<lambda>_. None), fromtimestamp = (\<lambda>_. (0, 0, 0, 0)), gethostname = ''host'',
     gethostbyname = (\<lambda>_. ''127.0.0.1''), virtual_memory = [], cpu_freq = None, platform_names = []\<rparr>"

lemma wf_empty_world: "wf_world empty_world"
  by (simp add: wf_world_def wf_defs empty_world_def procs_def files_def proc_at_def file_at_def
      cached_access_def)

text \<open>A process and a file in a well-formed state.\<close>

definition example_world :: "string \<Rightarrow> world" where
  "example_world n = snd (andthen (CreateObjectPath_CIM_Process replay_config 7)
     (CreateObjectPath_CIM_DataFile replay_config n) empty_world)"

lemma wf_example_world: "wf_world (example_world n)"
  unfolding example_world_def
  by (rule keepsD [where I = wf_world, OF _ wf_empty_world]) (intro keeps_rules)

text \<open>
  C26. One object per process: once \<^verbatim>\<open>CreateObjectPath\<close> has returned the object of a process number,
  asking for that number again, after any other processes were asked for, returns the same object
  and changes no object.
\<close>

theorem process_identity:
  assumes "wf_world w" "CreateObjectPath_CIM_Process cfg pid w = (Inr k, w1)"
  shows "\<exists>w3. CreateObjectPath_CIM_Process cfg pid
      (snd (for_each pids (CreateObjectPath_CIM_Process cfg) w1)) = (Inr k, w3) \<and>
    procs w3 = procs (snd (for_each pids (CreateObjectPath_CIM_Process cfg) w1)) \<and>
    files w3 = files (snd (for_each pids (CreateObjectPath_CIM_Process cfg) w1))"
proof -
  let ?w2 = "snd (for_each pids (CreateObjectPath_CIM_Process cfg) w1)"
  have "find_proc w1 pid = Some k" by (rule proc_cache.made [OF assms])
  moreover have "wf_world w1" using keepsE [OF keeps_wf_create_proc assms] .
  ultimately have "find_proc ?w2 pid = Some k" by (rule proc_cache.many_stable [rotated])
  then obtain p where p: "proc_at ?w2 (proc_path pid) = Some p" and k: "k = proc_path pid"
    unfolding find_proc_Some by blast
  show ?thesis using create_proc_hit [OF p, of cfg] k by simp
qed

theorem process_identity_witness:
  "\<exists>k w3. CreateObjectPath_CIM_Process replay_config 7
      (snd (for_each [8, 9] (CreateObjectPath_CIM_Process replay_config)
        (snd (CreateObjectPath_CIM_Process replay_config 7 empty_world)))) = (Inr k, w3)"
proof -
  have "fst (CreateObjectPath_CIM_Process replay_config 7 empty_world) = Inr (proc_path 7)"
    by code_simp
  then have "CreateObjectPath_CIM_Process replay_config 7 empty_world =
      (Inr (proc_path 7), snd (CreateObjectPath_CIM_Process replay_config 7 empty_world))"
    by (simp add: prod_eq_iff)
  from process_identity [OF wf_empty_world this, of "[8, 9]"] show ?thesis by blast
qed

text \<open>
  C27. A closed access is never returned again: after the close of an access, the next lookup for the
  same process and the same file creates a new access, which has no counter yet and is listed after
  all the others.
\<close>

theorem closed_access_not_reused:
  assumes "wf_world w" "LookupFileAccess p f w = (Inr i, w1)"
  shows "\<exists>w2 j w3. SetCloseTime cfg i t w1 = (Inr (), w2) \<and> LookupFileAccess p f w2 = (Inr j, w3) \<and>
    j \<noteq> i \<and> CloseTime (accesses w2 ! i) \<noteq> None \<and> accesses w3 = accesses w2 @ [new_access p f]"
  using reopened [OF assms, of cfg t] looked_up(3) [OF assms] by fastforce

theorem closed_access_not_reused_witness:
  "\<exists>i w1 w2 j w3.
    LookupFileAccess (proc_path 7) (file_path ''/tmp/a'') (example_world ''/tmp/a'') = (Inr i, w1) \<and>
    SetCloseTime replay_config i ''10:00:00.000000'' w1 = (Inr (), w2) \<and>
    LookupFileAccess (proc_path 7) (file_path ''/tmp/a'') w2 = (Inr j, w3) \<and> j \<noteq> i"
proof -
  let ?m = "LookupFileAccess (proc_path 7) (file_path ''/tmp/a'') (example_world ''/tmp/a'')"
  have "fst ?m = Inr 0" by code_simp
  then have m: "?m = (Inr 0, snd ?m)" by (simp add: prod_eq_iff)
  from closed_access_not_reused [OF wf_example_world m, of replay_config "''10:00:00.000000''"] m
  show ?thesis by blast
qed

text \<open>
  C28. The counters of an access are exact: after any series of reads on it, the number of reads has
  grown by their number and the bytes read by the sum of their sizes.
\<close>

theorem read_counters:
  assumes "for_each ns (\<lambda>(n, b). SetRead cfg i n b) w = (Inr us, w')" "i < length (accesses w)"
  shows "opt_sum (NumReads (accesses w' ! i)) = opt_sum (NumReads (accesses w ! i)) + int (length ns) \<and>
    opt_sum (BytesRead (accesses w' ! i)) = opt_sum (BytesRead (accesses w ! i)) + sum_list (map fst ns)"
  using reads_sum [OF assms] by blast

definition example_open :: "string \<Rightarrow> world" where
  "example_open n = snd (LookupFileAccess (proc_path 7) (file_path n) (example_world n))"

theorem read_counters_witness:
  "opt_sum (BytesRead (accesses (snd (for_each [(3, VStr ''abc''), (4, VNone)]
      (\<lambda>(n, b). SetRead replay_config 0 n b) (example_open ''/tmp/a''))) ! 0)) =
   opt_sum (BytesRead (accesses (example_open ''/tmp/a'') ! 0)) + sum_list (map fst [(3, VStr ''abc''), (4, VNone)])"
proof -
  let ?m = "for_each [(3, VStr ''abc''), (4, VNone)] (\<lambda>(n, b). SetRead replay_config 0 n b) (example_open ''/tmp/a'')"
  have "fst ?m = Inr [(), ()]" "0 < length (accesses (example_open ''/tmp/a''))" by code_simp+
  then have "?m = (Inr [(), ()], snd ?m)" by (simp add: prod_eq_iff)
  from read_counters [OF this \<open>0 < length (accesses (example_open ''/tmp/a''))\<close>] show ?thesis by blast
qed

text \<open>
  C29. The scanners see the messages: when the buffers read through an access that is no plain file can
  be decoded, the data found by the scanners are those of the complete messages of the
  specification, in their order, and the bytes that wait are the last unfinished message.
\<close>

theorem scanned_messages:
  assumes "i < length (accesses w)" "file_at w (m_objectCIM_DataFile (accesses w ! i)) = Some f"
    "\<not> IsPlainFile (Name f)" "m_bufConcatRead (accesses w ! i) = Some c"
    "list_all2 (\<lambda>(n, b) (d, m). m = n \<and> b \<noteq> [] \<and> DecodeOctalEscapeSequence b = Some d) ns ds"
  shows "\<exists>us w' c'. for_each ns (\<lambda>(n, b). SetRead cfg i n (VStr b)) w = (Inr us, w') \<and>
    m_bufConcatRead (accesses w' ! i) = Some c' \<and>
    m_parsedData c' = m_parsedData
      (fold (AnalyseCompleteBuffer (BufferScanners cfg)) (fst (glue (pending c) ds)) c) \<and>
    pending c' = snd (glue (pending c) ds)"
proof -
  obtain us w' where r: "for_each ns (\<lambda>(n, b). SetRead cfg i n (VStr b)) w = (Inr us, w')"
    "m_bufConcatRead (accesses w' ! i) = Some (append_all (BufferScanners cfg) ds c)"
    using reads_buffer [OF assms(1-3,5,4), of cfg] by blast
  with append_all_glue [of "BufferScanners cfg" ds c] show ?thesis by (intro exI conjI) (assumption | simp)+
qed

definition example_pipe :: world where
  "example_pipe = snd (SetRead replay_config 0 1 (VStr ''x'') (example_open ''pipe:[1]''))"

theorem scanned_messages_witness:
  "\<exists>us w' c'. for_each [(2::int, ''ab'')] (\<lambda>(n, b). SetRead replay_config 0 n (VStr b)) example_pipe = (Inr us, w') \<and>
    m_bufConcatRead (accesses w' ! 0) = Some c' \<and>
    m_parsedData c' = m_parsedData (fold (AnalyseCompleteBuffer (BufferScanners replay_config)) [''ab'']
      \<lparr>m_currentBuffer = None, m_parsedData = Some [(''Sql'', [''x''])]\<rparr>)"
proof -
  let ?c = "\<lparr>m_currentBuffer = None, m_parsedData = Some [(''Sql'', [''x''])]\<rparr>"
  obtain f where f: "file_at example_pipe (m_objectCIM_DataFile (accesses example_pipe ! 0)) = Some f"
    "Name f = ''pipe:[1]''"
  proof -
    have "map_option Name (file_at example_pipe (m_objectCIM_DataFile (accesses example_pipe ! 0))) = Some ''pipe:[1]''"
      by code_simp
    then show ?thesis using that by auto
  qed
  have "0 < length (accesses example_pipe)" by code_simp
  moreover have "\<not> IsPlainFile (Name f)" by (simp add: f(2)) code_simp
  moreover have "m_bufConcatRead (accesses example_pipe ! 0) = Some ?c" by code_simp
  moreover have "list_all2 (\<lambda>(n, b) (d, m). m = n \<and> b \<noteq> [] \<and> DecodeOctalEscapeSequence b = Some d)
      [(2::int, ''ab'')] [(''ab'', 2::int)]" by code_simp
  ultimately have "\<exists>us w' c'. for_each [(2::int, ''ab'')] (\<lambda>(n, b). SetRead replay_config 0 n (VStr b)) example_pipe = (Inr us, w') \<and>
    m_bufConcatRead (accesses w' ! 0) = Some c' \<and>
    m_parsedData c' = m_parsedData
      (fold (AnalyseCompleteBuffer (BufferScanners replay_config)) (fst (glue (pending ?c) [(''ab'', 2::int)])) ?c) \<and>
    pending c' = snd (glue (pending ?c) [(''ab'', 2::int)])"
    by (rule scanned_messages [OF _ f(1)])
  moreover have "fst (glue (pending ?c) [(''ab'', 2::int)]) = [''ab'']" by code_simp
  ultimately show ?thesis by auto
qed

end
