(* ===== verification/LineProps.thy ===== *)
theory LineProps
  imports ParseLine ObjectProps
begin

text \<open>
  The parser of a line undoes the printing of strace: a line is the process, the time, the call with
  its arguments, the returned value and the duration.
\<close>

subsection \<open>Searching a character\<close>

lemma find_from_char: "c \<notin> set x \<Longrightarrow> find_from [c] (x @ c # y) k = int (k + length x)"
  by (induction x arbitrary: k) (auto simp: startswith_def)

lemma py_find_char: "c \<notin> set x \<Longrightarrow> py_find (x @ c # y) [c] = int (length x)"
  by (simp add: py_find_def find_from_char)

lemma py_find_at_char: "c \<notin> set x \<Longrightarrow> py_find_at (pre @ x @ c # y) [c] (length pre) = int (length pre + length x)"
  by (simp add: py_find_at_def find_from_char)

lemma rfind_from_char: "c \<notin> set y \<Longrightarrow> rfind_from [c] (x @ c # y) k = int (k + length x)"
proof (induction x arbitrary: k)
  case Nil
  have "rfind_from [c] y m = -1" for m
    using Nil by (induction y arbitrary: m) (auto simp: startswith_def)
  then show ?case by (simp add: startswith_def)
next
  case (Cons a x)
  then show ?case by (simp add: Let_def)
qed

lemma py_rfind_char: "c \<notin> set y \<Longrightarrow> py_rfind (x @ c # y) [c] = int (length x)"
  by (simp add: py_rfind_def rfind_from_char)

lemma py_upto_append: "py_upto (q @ u) (int (length q)) = q"
  by simp

lemma py_slice_mid: "py_slice (a @ x # m @ v) (int (length a) + 1) (int (length (a @ x # m))) = m"
proof -
  have "int (length a) + 1 = int (length (a @ [x]))" by simp
  then have "py_slice (a @ x # m @ v) (int (length a) + 1) (int (length (a @ x # m))) =
      take (length (a @ x # m) - length (a @ [x])) (drop (length (a @ [x])) ((a @ [x]) @ m @ v))"
    by (simp only: py_slice_nat append.assoc append.simps)
  then show ?thesis by simp
qed

lemma py_strip_pad:
  assumes "r \<noteq> []" "\<not> is_space (hd r)" "\<not> is_space (last r)"
  shows "py_strip (CHR '' '' # r @ '' '') = r"
proof -
  have sp: "is_space (CHR '' '')" by (simp add: is_space_def)
  have "dropWhile is_space (CHR '' '' # r @ '' '') = r @ '' ''" using assms sp by (cases r) auto
  moreover have "dropWhile is_space (rev (r @ '' '')) = rev r"
    using assms sp by (cases r rule: rev_cases) auto
  ultimately show ?thesis by (simp add: py_strip_def)
qed

subsection \<open>What strace prints\<close>

definition newline :: string where
  "newline = [CHR 0x0A]"

text \<open>
  A short call is padded with blanks before the equal sign, here with \<open>n\<close> of them; the number of the process
  is printed when several are traced.
\<close>

definition strace_call :: "nat \<Rightarrow> string \<Rightarrow> targ list \<Rightarrow> string \<Rightarrow> string \<Rightarrow> string" where
  "strace_call n f ts r d =
     f @ ''('' @ render_args ts @ '')'' @ replicate n (CHR '' '') @ '' = '' @ r @ '' <'' @ d @ ''>'' @ newline"

definition pid_prefix :: "int option \<Rightarrow> string" where
  "pid_prefix p = (case p of None \<Rightarrow> [] | Some pid \<Rightarrow> ''[pid '' @ py_str_int pid @ ''] '')"

definition strace_line :: "int option \<Rightarrow> string \<Rightarrow> nat \<Rightarrow> string \<Rightarrow> targ list \<Rightarrow> string \<Rightarrow> string \<Rightarrow> string" where
  "strace_line p t n f ts r d = pid_prefix p @ t @ '' '' @ strace_call n f ts r d"

text \<open>The name of a function, a returned value without blanks around it, a duration.\<close>

definition call_ok :: "nat \<Rightarrow> string \<Rightarrow> targ list \<Rightarrow> string \<Rightarrow> string \<Rightarrow> bool" where
  "call_ok n f ts r d \<longleftrightarrow>
     f \<noteq> [] \<and> list_all word_char f \<and> list_all wf_targ ts \<and>
     r \<noteq> [] \<and> \<not> is_space (hd r) \<and> \<not> is_space (last r) \<and> CHR ''<'' \<notin> set d \<and> CHR ''>'' \<notin> set d \<and>
     \<not> contains (strace_call n f ts r d) unfinished_mark"

lemma word_char_not:
  "word_char c \<Longrightarrow> c \<noteq> CHR ''('' \<and> c \<noteq> CHR ''<'' \<and> c \<noteq> CHR ''-'' \<and> c \<noteq> CHR ''+''"
  by (auto simp: word_char_def Let_def)

lemma exec_time_ends:
  assumes "s = (p @ CHR ''<'' # d) @ CHR ''>'' # newline" "CHR ''<'' \<notin> set d" "d \<noteq> ''unfinished ...''"
  shows "exec_time s = (int (length p), StPlain, d)"
proof -
  have gt: "py_rfind s ''>'' = int (length (p @ CHR ''<'' # d))"
    unfolding assms(1) by (rule py_rfind_char) (simp add: newline_def)
  have up: "py_upto s (int (length (p @ CHR ''<'' # d))) = p @ CHR ''<'' # d"
    unfolding assms(1) by (rule py_upto_append)
  have lt: "py_rfind (p @ CHR ''<'' # d) ''<'' = int (length p)"
    by (rule py_rfind_char) (rule assms(2))
  have sl: "py_slice s (int (length p) + 1) (int (length (p @ CHR ''<'' # d))) = d"
    using py_slice_mid [of p "CHR ''<''" d "CHR ''>'' # newline"] by (simp add: assms(1))
  show ?thesis unfolding exec_time_def Let_def gt up lt sl using assms(3) by simp
qed

lemma exec_time_call:
  assumes "call_ok n f ts r d"
  shows "exec_time (strace_call n f ts r d) =
    (int (length (f @ ''('' @ render_args ts @ '')'' @ replicate n (CHR '' '') @ '' = '' @ r @ '' '')), StPlain, d)"
proof (rule exec_time_ends)
  let ?p = "f @ ''('' @ render_args ts @ '')'' @ replicate n (CHR '' '') @ '' = '' @ r @ '' ''"
  show "strace_call n f ts r d = (?p @ CHR ''<'' # d) @ CHR ''>'' # newline"
    by (simp add: strace_call_def)
  show "CHR ''<'' \<notin> set d" using assms by (simp add: call_ok_def)
  show "d \<noteq> ''unfinished ...''"
  proof
    assume "d = ''unfinished ...''"
    then have "strace_call n f ts r d = ?p @ unfinished_mark @ newline"
      by (simp add: strace_call_def)
    then have "contains (strace_call n f ts r d) unfinished_mark" unfolding contains_iff by blast
    with assms show False by (simp add: call_ok_def)
  qed
qed

lemma match_resume_call:
  assumes "call_ok n f ts r d"
  shows "match_resume (strace_call n f ts r d) = None"
proof -
  obtain c g where f: "f = c # g" "c \<noteq> CHR ''<''"
    using assms word_char_not by (cases f) (auto simp: call_ok_def)
  then show ?thesis
    by (simp add: match_resume_def resumed_regex_def strace_call_def lit_def)
qed

lemma call_function_call:
  assumes "call_ok n f ts r d"
  shows "call_function strace line (strace_call n f ts r d) st = Inr (Some (f @ ''@SYS'', st, int (length f)))"
proof -
  have nf: "CHR ''('' \<notin> set f" and f: "f \<noteq> []"
    using assms word_char_not by (auto simp: call_ok_def list_all_iff)
  have s: "strace_call n f ts r d = f @ CHR ''('' # (render_args ts @ '')'' @ replicate n (CHR '' '') @ '' = '' @ r @ '' <'' @ d @ ''>'' @ newline)"
    by (simp add: strace_call_def)
  have i: "py_find (strace_call n f ts r d) ''('' = int (length f)"
    unfolding s by (rule py_find_char [OF nf])
  have u: "py_upto (strace_call n f ts r d) (int (length f)) = f"
    unfolding s by (rule py_upto_append)
  show ?thesis
    unfolding call_function_def match_resume_call [OF assms] Let_def option.case i u
    using f by (simp add: SetFunction_def)
qed

text \<open>The parser stops on the first blank before the equal sign, or on the equal sign.\<close>

lemma skip_blanks:
  "s = q @ replicate m (CHR '' '') @ CHR ''='' # u \<Longrightarrow>
   skip_while is_blank s (length s) (length q) = length q + m"
proof (induction m arbitrary: q)
  case 0
  then have "length q < length s" "s ! length q = CHR ''=''" by (simp_all add: nth_append)
  then show ?case by (simp add: is_blank_def skip_while_stop)
next
  case (Suc m)
  then have "length q < length s" "s ! length q = CHR '' ''" by (simp_all add: nth_append)
  then have "skip_while is_blank s (length s) (length q) = skip_while is_blank s (length s) (length (q @ '' ''))"
    by (subst skip_while_go) (auto simp: is_blank_def)
  with Suc.IH [of "q @ '' ''"] Suc.prems show ?case by simp
qed

lemma stop_index_call:
  assumes "s = q @ replicate m (CHR '' '') @ CHR ''='' # u"
  shows "stop_index s (length s) ts (length q) = length q \<or>
    stop_index s (length s) ts (length q) = length (q @ replicate m (CHR '' ''))"
  using skip_blanks [OF assms] by (simp add: stop_index_def)

lemma return_value_call:
  assumes "call_ok n f ts r d"
  shows "return_value strace (strace_call n f ts r d)
      (int (length (f @ ''('' @ render_args ts @ '')'' @ replicate n (CHR '' '') @ '' = '' @ r @ '' '')))
      (stop_index (strace_call n f ts r d) (length (strace_call n f ts r d)) ts
        (Suc (length (f @ ''('') + length (render_args ts)))) = Inr (Some r)"
proof -
  define q where "q = f @ ''('' @ render_args ts @ '')''"
  define b where "b = replicate (Suc n) (CHR '' '')"
  let ?u = "'' '' @ r @ '' ''"
  let ?v = "CHR ''<'' # d @ ''>'' @ newline"
  have s: "strace_call n f ts r d = q @ b @ CHR ''='' # ?u @ ?v"
    by (simp add: strace_call_def q_def b_def replicate_app_Cons_same)
  have lq: "Suc (length (f @ ''('') + length (render_args ts)) = length q" by (simp add: q_def)
  have lp: "length (f @ ''('' @ render_args ts @ '')'' @ replicate n (CHR '' '') @ '' = '' @ r @ '' '') =
      length ((q @ b) @ CHR ''='' # ?u)"
    by (simp add: q_def b_def)
  have nb: "CHR ''='' \<notin> set b" by (simp add: b_def)
  have eq: "py_find_at (strace_call n f ts r d) ''=''
      (stop_index (strace_call n f ts r d) (length (strace_call n f ts r d)) ts (length q)) = int (length (q @ b))"
    using stop_index_call [OF s [unfolded b_def], of ts, folded b_def]
  proof
    assume e: "stop_index (strace_call n f ts r d) (length (strace_call n f ts r d)) ts (length q) = length q"
    show ?thesis unfolding e using py_find_at_char [OF nb, of q "?u @ ?v"] by (simp add: s)
  next
    assume e: "stop_index (strace_call n f ts r d) (length (strace_call n f ts r d)) ts (length q) = length (q @ b)"
    show ?thesis unfolding e using py_find_at_char [of "CHR ''=''" "[]" "q @ b" "?u @ ?v"] by (simp add: s)
  qed
  have sl: "py_slice (strace_call n f ts r d) (int (length (q @ b)) + 1)
      (int (length ((q @ b) @ CHR ''='' # ?u))) = ?u"
    using py_slice_mid [of "q @ b" "CHR ''=''" ?u ?v] by (simp add: s)
  have st: "py_strip ?u = r" using assms py_strip_pad [of r] by (simp add: call_ok_def)
  show ?thesis unfolding return_value_def Let_def lq lp eq sl st by simp
qed

definition strace_core :: "int \<Rightarrow> string \<Rightarrow> string \<Rightarrow> targ list \<Rightarrow> string \<Rightarrow> string \<Rightarrow> batch_core" where
  "strace_core pid t f ts r d =
     (blank_core strace pid)\<lparr>m_timeStart := t, m_timeEnd := t, m_execTim := VStr d, m_status := StPlain,
        m_funcNam := f @ ''@SYS'', m_parsedArgs := map arg_value ts, m_retValue := Some r\<rparr>"

lemma InitAfterPid_call:
  assumes "call_ok n f ts r d" "length t = 15" "line = pre @ t @ '' '' @ strace_call n f ts r d"
  shows "InitAfterPid line (int (length pre)) (blank_core strace pid) = Inr (strace_core pid t f ts r d)"
proof -
  let ?s = "strace_call n f ts r d"
  have sl: "py_slice line (int (length pre)) (int (length pre) + 15) = t"
  proof -
    have "int (length pre) + 15 = int (length pre + 15)" by simp
    then show ?thesis using assms(2,3) by (simp only: py_slice_nat) simp
  qed
  have fr: "py_from line (int (length pre) + 16) = ?s"
  proof -
    have "int (length pre) + 16 = int (length pre + 16)" by simp
    then show ?thesis using assms(2,3) by (simp only: py_from_nat) simp
  qed
  obtain c g where f: "f = c # g" "c \<noteq> CHR ''-''" "c \<noteq> CHR ''+''"
    using assms(1) word_char_not by (cases f) (auto simp: call_ok_def)
  have ns: "\<not> startswith ?s ''--- ''" "\<not> startswith ?s ''+++ ''"
    using f by (simp_all add: strace_call_def)
  have "?s = (f @ ''('') @ render_args ts @ CHR '')'' # (replicate n (CHR '' '') @ '' = '' @ r @ '' <'' @ d @ ''>'' @ newline)"
    by (simp add: strace_call_def)
  from parse_args [OF _ _ this] assms(1)
  have pa: "ParseCallArguments ?s (length (f @ ''('')) = Some (map arg_value ts,
      stop_index ?s (length ?s) ts (Suc (length (f @ ''('') + length (render_args ts))))"
    by (simp add: call_ok_def closer_def)
  have ip: "nat (int (length f) + 1) = length (f @ ''('')" by simp
  show ?thesis
    unfolding InitAfterPid_def Let_def sl fr exec_time_call [OF assms(1)]
    using ns call_function_call [OF assms(1)] return_value_call [OF assms(1)]
    by (simp add: pa ip blank_core_def strace_core_def del: length_append)
qed

text \<open>The number of the process at the start of a line.\<close>

lemma line_pid:
  assumes "line = ''[pid '' @ py_str_int pid @ ''] '' @ rest"
  shows "parse_line cfg line tracer =
    InitAfterPid line (int (length (''[pid '' @ py_str_int pid @ ''] ''))) (blank_core tracer pid)"
proof -
  define p where "p = ''[pid '' @ py_str_int pid"
  have nb: "CHR '']'' \<notin> set p"
  proof -
    have "CHR '']'' \<notin> set (dec_nat n)" for n
      by (auto dest!: dec_nat_digits simp: digit_char_def dest: arg_cong [where f = "of_char :: char \<Rightarrow> nat"])
    then show ?thesis by (auto simp: py_str_int_def p_def)
  qed
  have l: "line = p @ CHR '']'' # '' '' @ rest" by (simp add: assms p_def)
  have i: "py_find line '']'' = int (length p)" unfolding l by (rule py_find_char [OF nb])
  have "py_slice line 4 (int (length p)) = CHR '' '' # py_str_int pid"
    using py_slice_nat [of line 4 "length p"] by (simp add: l p_def)
  moreover have "py_int (CHR '' '' # py_str_int pid) = Some pid"
    using py_int_py_str_int [of pid] by (simp add: py_int_def py_strip_def is_space_def)
  ultimately have n: "py_int (py_slice line 4 (int (length p))) = Some pid" by simp
  have k: "int (length p) + 2 = int (length (''[pid '' @ py_str_int pid @ ''] ''))" by (simp add: p_def)
  have "startswith line ''[pid''" by (simp add: assms)
  then show ?thesis unfolding parse_line_def Let_def i n k by simp
qed

definition line_process :: "config \<Rightarrow> int option \<Rightarrow> int" where
  "line_process cfg p = (case p of None \<Rightarrow> G_topProcessId cfg | Some pid \<Rightarrow> pid)"

text \<open>Without a number, the line starts with the time, and the process is the one that was started first.\<close>

lemma parse_strace_line:
  assumes "call_ok n f ts r d" "length t = 15" "\<not> startswith t ''[pid''"
  shows "parse_line cfg (strace_line p t n f ts r d) strace = Inr (strace_core (line_process cfg p) t f ts r d)"
proof -
  have "parse_line cfg (strace_line p t n f ts r d) strace =
      InitAfterPid (strace_line p t n f ts r d) (int (length (pid_prefix p))) (blank_core strace (line_process cfg p))"
  proof (cases p)
    case None
    have "startswith (t @ x) ''[pid'' = startswith t ''[pid''" for x
      using assms(2) by (simp add: startswith_def)
    then have "\<not> startswith (strace_line None t n f ts r d) ''[pid''"
      using assms(3) by (simp add: strace_line_def pid_prefix_def)
    with None show ?thesis by (simp add: parse_line_def line_process_def pid_prefix_def)
  next
    case (Some pid)
    have "parse_line cfg (strace_line (Some pid) t n f ts r d) strace =
        InitAfterPid (strace_line (Some pid) t n f ts r d) (int (length (''[pid '' @ py_str_int pid @ ''] '')))
          (blank_core strace pid)"
      by (rule line_pid) (simp add: strace_line_def pid_prefix_def)
    with Some show ?thesis by (simp add: pid_prefix_def line_process_def)
  qed
  also have "\<dots> = Inr (strace_core (line_process cfg p) t f ts r d)"
    by (rule InitAfterPid_call [OF assms(1,2)]) (simp add: strace_line_def)
  finally show ?thesis .
qed

lemma InitAfterPid_event:
  assumes "length t = 15" "line = pre @ t @ '' '' @ rest" "startswith rest ''--- '' \<or> startswith rest ''+++ ''"
  shows "InitAfterPid line (int (length pre)) c = Inl ExceptionIsExit \<or>
    InitAfterPid line (int (length pre)) c = Inl ExceptionIsSignal"
proof -
  have "int (length pre) + 16 = int (length pre + 16)" by simp
  then have "py_from line (int (length pre) + 16) = rest"
    using assms(1,2) by (simp only: py_from_nat) simp
  with assms(3) show ?thesis by (auto simp: InitAfterPid_def Let_def)
qed

subsection \<open>Properties\<close>

text \<open>
  C11. Parsing a line undoes printing it: on a line as strace prints it for a finished call, with or without
  the number of the process, with any time stamp of 15 characters, function, well-formed arguments, returned
  value and duration, and any number of blanks before the equal sign, the parser returns exactly these, with
  the status of a plain call; the process of a line without a number is the one that the tracer started.
\<close>

theorem strace_line_roundtrip:
  assumes "call_ok n f ts r d" "length t = 15" "\<not> startswith t ''[pid''"
  shows "\<exists>c. parse_line cfg (strace_line p t n f ts r d) strace = Inr c \<and>
    m_pid c = line_process cfg p \<and> m_timeStart c = t \<and> m_timeEnd c = t \<and> m_funcNam c = f @ ''@SYS'' \<and>
    m_parsedArgs c = map arg_value ts \<and> m_retValue c = Some r \<and> m_execTim c = VStr d \<and>
    m_status c = StPlain"
  using parse_strace_line [OF assms, of cfg p] by (simp add: strace_core_def blank_core_def)

theorem strace_line_roundtrip_witness:
  "\<exists>c. parse_line replay_config (strace_line (Some 7639) ''09:35:56.198010'' 15 ''openat''
        [TPlain ''AT_FDCWD'', TQuoted ''/etc/passwd''] ''3</etc/passwd>'' ''0.000019'') strace = Inr c \<and>
    m_pid c = 7639 \<and> m_parsedArgs c = [VStr ''AT_FDCWD'', VStr ''/etc/passwd''] \<and>
    m_retValue c = Some ''3</etc/passwd>''"
proof -
  have 1: "call_ok 15 ''openat'' [TPlain ''AT_FDCWD'', TQuoted ''/etc/passwd''] ''3</etc/passwd>'' ''0.000019''"
    by code_simp
  have 2: "length ''09:35:56.198010'' = 15" "\<not> startswith ''09:35:56.198010'' ''[pid''" by code_simp+
  from strace_line_roundtrip [OF 1 2, of replay_config "Some 7639"] show ?thesis by (auto simp: line_process_def)
qed

text \<open>
  A line that reports a signal or the end of a process creates no call, and changes nothing.
\<close>

theorem event_lines_dropped:
  assumes "length t = 15" "startswith rest ''--- '' \<or> startswith rest ''+++ ''"
  shows "CreateBatchCore cfg (''[pid '' @ py_str_int pid @ ''] '' @ t @ '' '' @ rest) tracer w = (Inr None, w)"
proof -
  let ?line = "''[pid '' @ py_str_int pid @ ''] '' @ t @ '' '' @ rest"
  have "?line = (''[pid '' @ py_str_int pid @ ''] '') @ t @ '' '' @ rest" by simp
  from InitAfterPid_event [OF assms(1) this assms(2), of "blank_core tracer pid"]
  have "parse_line cfg ?line tracer = Inl ExceptionIsExit \<or> parse_line cfg ?line tracer = Inl ExceptionIsSignal"
    using line_pid [of ?line pid "t @ '' '' @ rest" cfg tracer] by simp
  then show ?thesis
    by (auto simp: CreateBatchCore_def ParseLine_def try_except_def bnd_def)
qed

theorem event_lines_dropped_witness:
  "CreateBatchCore replay_config (''[pid '' @ py_str_int 12 @ ''] '' @ ''07:54:54.206031'' @ '' '' @ ''+++ exited with 0 +++'')
     strace empty_world = (Inr None, empty_world)"
  by (rule event_lines_dropped) simp_all

end
