(* ===== verification/FactoryProps.thy ===== *)
theory FactoryProps
  imports Factory LineProps
begin

text \<open>
  The factory of the batches: what each function name is registered as, and how the two halves of
  an interrupted call are merged, also when calls are nested.
\<close>

subsection \<open>Merging the halves of a call\<close>

lemma put_core_run: "i < length (cores w) \<Longrightarrow>
   upd_core i f w = (Inr (), w\<lparr>cores := (cores w)[i := f (cores w ! i)]\<rparr>)"
  by (simp add: upd_core_def get_core_def bnd_def)

lemma get_core_at: "i < length (cores w) \<Longrightarrow> get_core i w = (Inr (cores w ! i), w)"
  by (simp add: get_core_def bnd_def)

definition matched_core :: "nat \<Rightarrow> batch_core \<Rightarrow> batch_core" where
  "matched_core j u = u\<lparr>m_status := StMatched, m_resumedBatch := Some j\<rparr>"

definition merged_core :: "nat \<Rightarrow> pyval list \<Rightarrow> batch_core \<Rightarrow> batch_core" where
  "merged_core i args r = r\<lparr>m_parsedArgs := args @ m_parsedArgs r, m_status := StMerged, m_unfinishedBatch := Some i\<rparr>"

definition merged_cores :: "nat \<Rightarrow> nat \<Rightarrow> batch_core list \<Rightarrow> batch_core list" where
  "merged_cores i j cs =
     cs[i := matched_core j (cs ! i), j := merged_core i (m_parsedArgs (cs ! i)) (cs ! j)]"

text \<open>The cores \<open>i\<close> and \<open>j\<close> are the two halves of a call that waits to be merged.\<close>

definition halves :: "batch_core list \<Rightarrow> nat \<Rightarrow> nat \<Rightarrow> bool" where
  "halves cs i j \<longleftrightarrow>
     i < length cs \<and> j < length cs \<and> i \<noteq> j \<and> m_status (cs ! i) = StUnfinished \<and> m_status (cs ! j) = StResumed \<and>
     m_pid (cs ! i) = m_pid (cs ! j) \<and> m_funcNam (cs ! i) = m_funcNam (cs ! j)"

abbreviation core_key :: "batch_core \<Rightarrow> int \<times> string" where
  "core_key c \<equiv> (m_pid c, m_funcNam c)"

lemma push_run:
  assumes "i < length (cores w)"
  shows "\<exists>st. PushBatch i w = (Inr (), w\<lparr>m_mapStacks := st\<rparr>) \<and>
    stack_contents st = (stack_contents (m_mapStacks w))
      (core_key (cores w ! i) := stack_contents (m_mapStacks w) (core_key (cores w ! i)) @ [i])"
  using assms
  by (auto simp: PushBatch_def bnd_def get_core_at unfinished.contents_push)

lemma merge_run:
  assumes h: "halves (cores w) i j"
    and k: "stack_contents (m_mapStacks w) (core_key (cores w ! j)) = l @ [i]"
  shows "\<exists>st. MergePopBatch j w = (Inr (Some j), w\<lparr>m_mapStacks := st,
      cores := merged_cores i j (cores w)\<rparr>) \<and>
    stack_contents st = (stack_contents (m_mapStacks w)) (core_key (cores w ! j) := l)"
proof -
  have "pop_stack (core_key (cores w ! j)) (m_mapStacks w) \<noteq> None"
    using k by (simp add: unfinished.pop_None)
  then obtain u st where p: "pop_stack (core_key (cores w ! j)) (m_mapStacks w) = Some (u, st)" by auto
  from unfinished.pop_Some [OF p] k have u: "u = i"
    and c: "stack_contents st = (stack_contents (m_mapStacks w)) (core_key (cores w ! j) := l)" by simp_all
  have "MergePopBatch j w = (Inr (Some j), w\<lparr>m_mapStacks := st,
      cores := merged_cores i j (cores w)\<rparr>)"
    using h p u
    by (simp add: MergePopBatch_def halves_def andthen_def bnd_def get_core_at put_core_run
        matched_core_def merged_core_def merged_cores_def list_update_swap [of i j])
  with c show ?thesis by blast
qed

lemma push_merge:
  assumes "halves (cores w) i j"
  shows "\<exists>st. stack_contents st = stack_contents (m_mapStacks w) \<and>
    andthen (PushBatch i) (MergePopBatch j) w =
      (Inr (Some j), w\<lparr>m_mapStacks := st, cores := merged_cores i j (cores w)\<rparr>)"
proof -
  from assms obtain st where p: "PushBatch i w = (Inr (), w\<lparr>m_mapStacks := st\<rparr>)"
    "stack_contents st = (stack_contents (m_mapStacks w))
      (core_key (cores w ! i) := stack_contents (m_mapStacks w) (core_key (cores w ! i)) @ [i])"
    using push_run [of i w] by (auto simp: halves_def)
  let ?w = "w\<lparr>m_mapStacks := st\<rparr>"
  have h: "halves (cores ?w) i j" using assms by simp
  have k: "stack_contents (m_mapStacks ?w) (core_key (cores ?w ! j)) =
      stack_contents (m_mapStacks w) (core_key (cores w ! j)) @ [i]"
    using assms p(2) by (simp add: halves_def)
  obtain st' where m: "MergePopBatch j ?w =
      (Inr (Some j), ?w\<lparr>m_mapStacks := st', cores := merged_cores i j (cores ?w)\<rparr>)"
    "stack_contents st' = (stack_contents (m_mapStacks ?w))
      (core_key (cores ?w ! j) := stack_contents (m_mapStacks w) (core_key (cores w ! j)))"
    using merge_run [OF h k] by blast
  have "andthen (PushBatch i) (MergePopBatch j) w = MergePopBatch j ?w"
    by (simp add: andthen_def bnd_def p(1))
  moreover have "stack_contents st' = stack_contents (m_mapStacks w)"
    using m(2) assms p(2) by (auto simp: halves_def fun_eq_iff)
  ultimately show ?thesis using m(1) by auto
qed

lemma merged_cores_nth:
  assumes "halves cs i j"
  shows "merged_cores i j cs ! i = matched_core j (cs ! i)"
    "merged_cores i j cs ! j = merged_core i (m_parsedArgs (cs ! i)) (cs ! j)"
    "k \<noteq> i \<Longrightarrow> k \<noteq> j \<Longrightarrow> merged_cores i j cs ! k = cs ! k"
    "length (merged_cores i j cs) = length cs"
  using assms by (auto simp: merged_cores_def halves_def)

text \<open>The two halves are linked to each other.\<close>

definition merged_pair :: "batch_core list \<Rightarrow> batch_core list \<Rightarrow> nat \<Rightarrow> nat \<Rightarrow> bool" where
  "merged_pair cs cs' i j \<longleftrightarrow>
     m_parsedArgs (cs' ! j) = m_parsedArgs (cs ! i) @ m_parsedArgs (cs ! j) \<and>
     m_status (cs' ! i) = StMatched \<and> m_resumedBatch (cs' ! i) = Some j \<and>
     m_status (cs' ! j) = StMerged \<and> m_unfinishedBatch (cs' ! j) = Some i"

lemma merged_cores_pair: "halves cs i j \<Longrightarrow> merged_pair cs (merged_cores i j cs) i j"
  by (simp add: merged_pair_def merged_cores_nth matched_core_def merged_core_def)

lemma nested_run:
  assumes h: "halves (cores w) i j" "halves (cores w) i2 j2" and d: "{i, j} \<inter> {i2, j2} = {}"
  shows "\<exists>st. stack_contents st = stack_contents (m_mapStacks w) \<and>
    andthen (PushBatch i) (andthen (andthen (PushBatch i2) (MergePopBatch j2)) (MergePopBatch j)) w =
      (Inr (Some j), w\<lparr>m_mapStacks := st, cores := merged_cores i j (merged_cores i2 j2 (cores w))\<rparr>)"
proof -
  from h(1) obtain st where p: "PushBatch i w = (Inr (), w\<lparr>m_mapStacks := st\<rparr>)"
    "stack_contents st = (stack_contents (m_mapStacks w))
      (core_key (cores w ! i) := stack_contents (m_mapStacks w) (core_key (cores w ! i)) @ [i])"
    using push_run [of i w] by (auto simp: halves_def)
  let ?w = "w\<lparr>m_mapStacks := st\<rparr>"
  obtain st2 where p2: "stack_contents st2 = stack_contents st"
    "andthen (PushBatch i2) (MergePopBatch j2) ?w =
      (Inr (Some j2), w\<lparr>m_mapStacks := st2, cores := merged_cores i2 j2 (cores w)\<rparr>)"
    using push_merge [of ?w i2 j2] h(2) by auto
  let ?w2 = "w\<lparr>m_mapStacks := st2, cores := merged_cores i2 j2 (cores w)\<rparr>"
  have same: "cores ?w2 ! i = cores w ! i" "cores ?w2 ! j = cores w ! j"
    using d merged_cores_nth(3) [OF h(2)] by auto
  then have h2: "halves (cores ?w2) i j"
    using h by (simp add: halves_def merged_cores_nth(4) [OF h(2)])
  have k: "stack_contents (m_mapStacks ?w2) (core_key (cores ?w2 ! j)) =
      stack_contents (m_mapStacks w) (core_key (cores w ! j)) @ [i]"
    using h(1) p(2) p2(1) same by (simp add: halves_def)
  obtain st3 where m: "MergePopBatch j ?w2 =
      (Inr (Some j), ?w2\<lparr>m_mapStacks := st3, cores := merged_cores i j (cores ?w2)\<rparr>)"
    "stack_contents st3 = (stack_contents (m_mapStacks ?w2))
      (core_key (cores ?w2 ! j) := stack_contents (m_mapStacks w) (core_key (cores w ! j)))"
    using merge_run [OF h2 k] by blast
  have "stack_contents st3 = stack_contents (m_mapStacks w)"
    using m(2) h(1) p(2) p2(1) same by (auto simp: halves_def fun_eq_iff)
  moreover have "andthen (PushBatch i) (andthen (andthen (PushBatch i2) (MergePopBatch j2)) (MergePopBatch j)) w =
      MergePopBatch j ?w2"
    using p(1) p2(2) by (simp add: andthen_def [of "PushBatch i"] andthen_def [of "andthen _ _"] bnd_def)
  ultimately show ?thesis using m(1) by auto
qed

subsection \<open>The registry\<close>

definition class_key :: "string \<Rightarrow> string" where
  "class_key n = (if startswith n ''BatchLetSys_'' then drop 12 n @ ''@SYS'' else drop 12 n)"

lemma register_fresh:
  assumes "list_all (\<lambda>n. startswith n ''BatchLetSys_'' \<or> startswith n ''BatchLetLib_'') ns"
    "distinct (map fst m @ map class_key ns)"
  shows "register_classes (ns @ rest) m = register_classes rest (m @ map (\<lambda>n. (class_key n, Some n)) ns)"
  using assms
proof (induction ns arbitrary: m)
  case (Cons n ns)
  from Cons.prems(2) have "map_of m (class_key n) = None" by (auto simp: map_of_eq_None_iff)
  then have "BatchMeta_init n m = Inr (m @ [(class_key n, Some n)])"
    using Cons.prems(1) by (auto simp: BatchMeta_init_def class_key_def keys_update_fresh)
  moreover have "distinct (map fst (m @ [(class_key n, Some n)]) @ map class_key ns)"
    using Cons.prems(2) by auto
  ultimately show ?case using Cons.IH Cons.prems(1) by simp
qed simp

lemma registry_keys:
  "distinct (map (\<lambda>s. s @ ''@SYS'') G_ignoredSyscalls @ map class_key (map fst batch_classes))"
  by code_simp

lemma registry_eq:
  "G_batchModels = map (\<lambda>s. (s @ ''@SYS'', None)) G_ignoredSyscalls @
     map (\<lambda>n. (class_key n, Some n)) (map fst batch_classes)"
proof -
  have "list_all (\<lambda>n. startswith n ''BatchLetSys_'' \<or> startswith n ''BatchLetLib_'') (map fst batch_classes)"
    by code_simp
  from register_fresh [OF this, of "map (\<lambda>s. (s @ ''@SYS'', None)) G_ignoredSyscalls" "[''BatchLetSequence'']"]
    registry_keys
  have "register_classes (map fst batch_classes @ [''BatchLetSequence'']) (map (\<lambda>s. (s @ ''@SYS'', None)) G_ignoredSyscalls) =
    Inr (map (\<lambda>s. (s @ ''@SYS'', None)) G_ignoredSyscalls @ map (\<lambda>n. (class_key n, Some n)) (map fst batch_classes))"
    by (simp add: comp_def BatchMeta_init_def)
  then show ?thesis by (simp add: G_batchModels_def BatchMeta_init_def)
qed

lemma registry_distinct: "distinct (map fst G_batchModels)"
  using registry_keys by (simp add: registry_eq comp_def)

lemma registry_ignored: "s \<in> set G_ignoredSyscalls \<Longrightarrow> map_of G_batchModels (s @ ''@SYS'') = Some None"
  by (intro map_of_is_SomeI registry_distinct) (auto simp: registry_eq)

lemma registry_class: "n \<in> fst ` set batch_classes \<Longrightarrow> map_of G_batchModels (class_key n) = Some (Some n)"
  by (intro map_of_is_SomeI registry_distinct) (auto simp: registry_eq)

subsection \<open>Properties\<close>

text \<open>
  C20. The two halves of an interrupted call are merged: after the first half was put aside, the
  second half takes its arguments before its own, both get their new status and a link to the other,
  no other call changes, and the stacks are as they were before.
\<close>

theorem halves_merged:
  assumes "halves (cores w) i j"
  shows "\<exists>w'. andthen (PushBatch i) (MergePopBatch j) w = (Inr (Some j), w') \<and>
    merged_pair (cores w) (cores w') i j \<and>
    (\<forall>k. k \<noteq> i \<longrightarrow> k \<noteq> j \<longrightarrow> cores w' ! k = cores w ! k) \<and>
    stack_contents (m_mapStacks w') = stack_contents (m_mapStacks w)"
  using push_merge [OF assms] merged_cores_pair [OF assms] merged_cores_nth(3) [OF assms] by fastforce

definition example_half :: "string \<Rightarrow> batch_status \<Rightarrow> pyval list \<Rightarrow> batch_core" where
  "example_half f st args = (blank_core strace 7)\<lparr>m_funcNam := f, m_status := st, m_parsedArgs := args\<rparr>"

definition example_halves :: world where
  "example_halves = empty_world\<lparr>cores :=
     [example_half ''wait4@SYS'' StUnfinished [VStr ''18381''], example_half ''read@SYS'' StUnfinished [VStr ''3''],
      example_half ''read@SYS'' StResumed [VStr ''abc''], example_half ''wait4@SYS'' StResumed [VStr ''NULL'']]\<rparr>"

theorem halves_merged_witness:
  "\<exists>w'. andthen (PushBatch 0) (MergePopBatch 3) example_halves = (Inr (Some 3), w') \<and>
    merged_pair (cores example_halves) (cores w') 0 3 \<and>
    stack_contents (m_mapStacks w') = stack_contents (m_mapStacks example_halves)"
proof -
  have "halves (cores example_halves) 0 3" by code_simp
  from halves_merged [OF this] show ?thesis by blast
qed

text \<open>
  C22. Nested interruptions: a call that is interrupted and resumed between the two halves of another
  call of the process, be it of the same function, is merged with its own half, and the outer call
  with its own.
\<close>

theorem nested_halves_merged:
  assumes "halves (cores w) i j" "halves (cores w) i2 j2" "{i, j} \<inter> {i2, j2} = {}"
  shows "\<exists>w'. andthen (PushBatch i) (andthen (andthen (PushBatch i2) (MergePopBatch j2)) (MergePopBatch j)) w =
      (Inr (Some j), w') \<and>
    merged_pair (cores w) (cores w') i j \<and> merged_pair (cores w) (cores w') i2 j2 \<and>
    stack_contents (m_mapStacks w') = stack_contents (m_mapStacks w)"
proof -
  let ?cs = "merged_cores i2 j2 (cores w)"
  have same: "?cs ! i = cores w ! i" "?cs ! j = cores w ! j"
    using assms merged_cores_nth(3) [OF assms(2)] by auto
  then have h: "halves ?cs i j"
    using assms(1) by (simp add: halves_def merged_cores_nth(4) [OF assms(2)])
  have "merged_pair (cores w) (merged_cores i j ?cs) i j"
    using merged_cores_pair [OF h] same by (simp add: merged_pair_def)
  moreover have "merged_pair (cores w) (merged_cores i j ?cs) i2 j2"
    using merged_cores_pair [OF assms(2)] merged_cores_nth(3) [OF h] assms(3)
    by (auto simp: merged_pair_def)
  ultimately show ?thesis using nested_run [OF assms] by fastforce
qed

theorem nested_halves_merged_witness:
  "\<exists>w'. andthen (PushBatch 0) (andthen (andthen (PushBatch 1) (MergePopBatch 2)) (MergePopBatch 3)) example_halves =
      (Inr (Some 3), w') \<and>
    merged_pair (cores example_halves) (cores w') 0 3 \<and> merged_pair (cores example_halves) (cores w') 1 2"
proof -
  have "halves (cores example_halves) 0 3" "halves (cores example_halves) 1 2" by code_simp+
  from nested_halves_merged [OF this] show ?thesis by auto
qed

text \<open>
  The registry is complete: each ignored system call has the entry that drops it, each class is
  registered under the name of its call (with the suffix of the system calls, or as it is for a
  library call), there is no other entry, and no two entries have the same name.
\<close>

theorem registry_complete:
  "G_batchModels = map (\<lambda>s. (s @ ''@SYS'', None)) G_ignoredSyscalls @
     map (\<lambda>(n, h). (class_key n, Some n)) batch_classes \<and> distinct (map fst G_batchModels)"
  using registry_eq registry_distinct by (simp add: case_prod_unfold comp_def)

text \<open>
  An ignored system call leaves no trace: the factory returns no batch and changes nothing, be the
  call finished, unfinished or resumed.
\<close>

theorem ignored_calls_dropped:
  assumes "i < length (cores w)" "s \<in> set G_ignoredSyscalls" "m_funcNam (cores w ! i) = s @ ''@SYS''"
  shows "BatchLetFactory cfg i w = (Inr None, w)"
  using assms registry_ignored [OF assms(2)] by (simp add: BatchLetFactory_def bnd_def get_core_at)

theorem ignored_calls_dropped_witness:
  "BatchLetFactory replay_config 0 (empty_world\<lparr>cores := [example_half ''futex@SYS'' StPlain []]\<rparr>) =
     (Inr None, empty_world\<lparr>cores := [example_half ''futex@SYS'' StPlain []]\<rparr>)"
proof -
  have "''futex'' \<in> set G_ignoredSyscalls" by code_simp
  from ignored_calls_dropped [OF _ this, of 0 "empty_world\<lparr>cores := [example_half ''futex@SYS'' StPlain []]\<rparr>"]
  show ?thesis by (simp add: example_half_def)
qed

text \<open>
  The first half of an interrupted call only waits: the factory returns the generic batch with the
  arguments seen so far, puts the call on top of the stack of its process and function, and touches
  no object. The exception is the start of the main program, whose arguments are all known.
\<close>

theorem unfinished_calls_wait:
  assumes "i < length (cores w)" "n \<in> fst ` set batch_classes" "m_funcNam (cores w ! i) = class_key n"
    "m_status (cores w ! i) = StUnfinished" "n \<noteq> ''BatchLetLib___libc_start_main''"
  shows "\<exists>b st. BatchLetFactory cfg i w = (Inr (Some b), w\<lparr>m_mapStacks := st\<rparr>) \<and>
    class_name b = ''BatchLetBase'' \<and> m_core b = i \<and> m_significantArgs b = m_parsedArgs (cores w ! i) \<and>
    stack_contents st = (stack_contents (m_mapStacks w))
      (core_key (cores w ! i) := stack_contents (m_mapStacks w) (core_key (cores w ! i)) @ [i])"
proof -
  obtain st where p: "PushBatch i w = (Inr (), w\<lparr>m_mapStacks := st\<rparr>)"
    "stack_contents st = (stack_contents (m_mapStacks w))
      (core_key (cores w ! i) := stack_contents (m_mapStacks w) (core_key (cores w ! i)) @ [i])"
    using push_run [OF assms(1)] by blast
  let ?b = "\<lparr>m_core = i, m_occurrences = 1, m_style = ''Orig'', m_significantArgs = m_parsedArgs (cores w ! i),
    class_name = ''BatchLetBase''\<rparr>"
  have "BatchLetFactory cfg i w = (Inr (Some ?b), w\<lparr>m_mapStacks := st\<rparr>)"
    using assms registry_class [OF assms(2)] p(1)
    by (simp add: BatchLetFactory_def bnd_def get_core_at unfinished_batch_def try_except_def
        Incomplete_UnfinishedIsOk_def base_batch_def BatchLetBase_init_def andthen_def)
  with p(2) show ?thesis by (intro exI conjI) (assumption | simp)+
qed

theorem unfinished_calls_wait_witness:
  "\<exists>b st. BatchLetFactory replay_config 1 example_halves = (Inr (Some b), example_halves\<lparr>m_mapStacks := st\<rparr>) \<and>
    m_significantArgs b = [VStr ''3''] \<and> stack_contents st (7, ''read@SYS'') = [1]"
proof -
  have c: "cores example_halves ! 1 = example_half ''read@SYS'' StUnfinished [VStr ''3'']"
    "1 < length (cores example_halves)" "m_mapStacks example_halves = []"
    by (simp_all add: example_halves_def empty_world_def)
  have n: "''BatchLetSys_read'' \<in> fst ` set batch_classes" by (simp add: batch_classes_def)
  have k: "class_key ''BatchLetSys_read'' = ''read@SYS''" by code_simp
  obtain b st where f: "BatchLetFactory replay_config 1 example_halves = (Inr (Some b), example_halves\<lparr>m_mapStacks := st\<rparr>)"
    "m_significantArgs b = m_parsedArgs (cores example_halves ! 1)"
    "stack_contents st = (stack_contents (m_mapStacks example_halves)) (core_key (cores example_halves ! 1) :=
        stack_contents (m_mapStacks example_halves) (core_key (cores example_halves ! 1)) @ [1])"
    using unfinished_calls_wait [OF c(2) n, of replay_config] c(1) k by (auto simp: example_half_def)
  have "m_significantArgs b = [VStr ''3'']" unfolding f(2) c(1) by (simp add: example_half_def)
  moreover have "stack_contents st (7, ''read@SYS'') = [1]"
    unfolding f(3) c by (simp add: example_half_def blank_core_def stack_contents_def)
  ultimately show ?thesis using f(1) by blast
qed

text \<open>
  A failed call leaves no trace: an \<open>open\<close> that returns ENOENT, a \<open>close\<close> that returns EBADF, a
  \<open>read\<close> whose result is no number create no batch and change nothing, neither an object nor the table
  of the descriptors.
\<close>

theorem failed_calls_dropped:
  assumes "m_retValue c = Some r"
  shows "(m_tracer c = strace \<and> contains r ''ENOENT'' \<longrightarrow> BatchLetSys_open cfg c w = (Inr None, w)) \<and>
    (contains r ''EBADF'' \<longrightarrow> BatchLetSys_close cfg c w = (Inr None, w)) \<and>
    (py_int r = None \<longrightarrow> BatchLetSys_read cfg c w = (Inr None, w))"
  using assms
  by (auto simp: BatchLetSys_open_def BatchLetSys_close_def BatchLetSys_read_def bnd_def ret_text_def text_of_def
      ret_val_def ret_int_def InvalidReturnedFileDescriptor_def try_except_def of_opt_def)

theorem failed_calls_dropped_witness:
  "BatchLetSys_open replay_config ((blank_core strace 7)\<lparr>m_retValue := Some ''-1 ENOENT (No such file or directory)''\<rparr>)
     empty_world = (Inr None, empty_world)"
proof -
  have "contains ''-1 ENOENT (No such file or directory)'' ''ENOENT''" by code_simp
  moreover have "m_tracer ((blank_core strace 7)\<lparr>m_retValue := Some ''-1 ENOENT (No such file or directory)''\<rparr>) = strace"
    by (simp add: blank_core_def)
  ultimately show ?thesis
    using failed_calls_dropped [of "(blank_core strace 7)\<lparr>m_retValue := Some ''-1 ENOENT (No such file or directory)''\<rparr>"
      "''-1 ENOENT (No such file or directory)''" replay_config empty_world] by simp
qed

end
