(* ===== verification/TextProps.thy ===== *)
theory TextProps
  imports Paths Buffers
begin

text \<open>
  The properties of the functions on texts: the absolute names of files, their categories, the
  decoding of the buffers and their gluing.
\<close>

text \<open>
  C36. Absolute names are normal forms. For an absolute name in which no \<open>..\<close> climbs above the root, and any
  directory, \<^verbatim>\<open>ToAbsPath\<close> gives the components of the normalisation with a stack, which are no \<open>..\<close>, no \<open>.\<close> and
  not empty, after slashes. If there is a component left, normalising again, from any directory, changes
  nothing; if there is none (the name is one of the root), the result is the empty text, not the slash. Names
  that climb above the root are left out: they lose the slash at the start (\<open>above_root\<close>).
\<close>

theorem abs_path_normal:
  assumes "climbs_ok 0 (py_split (CHR ''/'') r)"
  shows "ToAbsPath d (CHR ''/'' # r) = Inr (py_join ''/'' ([] # norm_abs r)) \<and>
    list_all plain_component (norm_abs r) \<and>
    (norm_abs r \<noteq> [] \<longrightarrow>
       ToAbsPath d' (py_join ''/'' ([] # norm_abs r)) = Inr (py_join ''/'' ([] # norm_abs r))) \<and>
    (norm_abs r = [] \<longrightarrow> ToAbsPath d (CHR ''/'' # r) = Inr [])"
  using ToAbsPath_root [OF assms(1)] ToAbsPath_idem [OF assms] norm_abs_comp(1)
  by (simp add: list_all_iff)

theorem abs_path_normal_witness:
  "ToAbsPath VNone ''/usr//lib/./../bin/ls'' = Inr ''/usr/bin/ls'' \<and>
   ToAbsPath (VStr ''/home'') ''/usr/bin/ls'' = Inr ''/usr/bin/ls''"
proof -
  have "climbs_ok 0 (py_split (CHR ''/'') ''usr//lib/./../bin/ls'')"
    "norm_abs ''usr//lib/./../bin/ls'' = [''usr'', ''bin'', ''ls'']" by code_simp+
  then show ?thesis
    using abs_path_normal [of "''usr//lib/./../bin/ls''" VNone "VStr ''/home''"] by simp
qed

text \<open>
  The directory of the process is only used for a relative name, and the result is the normal form
  of the two together.
\<close>

theorem relative_path:
  assumes "f \<noteq> []" "hd f \<noteq> CHR ''/''" "\<not> pseudo_file f" "f \<notin> {''stdin'', ''stdout'', ''stderr''}"
    "climbs_ok 0 (py_split (CHR ''/'') (r @ ''/'' @ f))"
  shows "ToAbsPath (VStr (CHR ''/'' # r)) f = Inr (py_join ''/'' ([] # norm_abs (r @ ''/'' @ f)))"
proof -
  have "abs_components (CHR ''/'' # r @ ''/'' @ f) = Inr (py_join ''/'' ([] # norm_abs (r @ ''/'' @ f)))"
    by (rule abs_components_norm) (use assms(5) in simp_all)
  with assms(1-4) show ?thesis by (cases f) (auto simp: ToAbsPath_def)
qed

theorem relative_path_witness:
  "ToAbsPath (VStr ''/home/user/work'') ''../a.txt'' = Inr ''/home/user/a.txt''"
proof -
  have "norm_abs (''home/user/work'' @ ''/'' @ ''../a.txt'') = [''home'', ''user'', ''a.txt'']"
    "climbs_ok 0 (py_split (CHR ''/'') (''home/user/work'' @ ''/'' @ ''../a.txt''))"
    "\<not> pseudo_file ''../a.txt''" by code_simp+
  then show ?thesis using relative_path [of "''../a.txt''" "''home/user/work''"] by simp
qed

lemma no_slash_no_match:
  assumes "p = c # q" "c \<noteq> CHR ''/''"
  shows "\<not> re_match (lit (CHR ''/'' # a)) p" "\<not> re_match (lit (CHR ''/'' # a) @ r) p"
  using assms by (simp_all add: re_match_lit_append del: re_match_lit)
    (simp add: re_match_def lit_def)

lemma nonfile_filters:
  assumes "p = c # q" "c \<noteq> CHR ''/''"
  shows "PathCategory p = category_in (drop 6 G_lstFilters) p"
  unfolding PathCategory_def G_lstFilters_def
  by (simp add: no_slash_no_match [OF assms] del: re_match_lit)

text \<open>
  A name that is not one of a plain file (a pipe, a socket) is never put in a category of files.
\<close>

theorem nonfile_category:
  assumes "p \<noteq> []" "\<not> IsPlainFile p"
  shows "PathCategory p \<in> {''Pipes and terminals'', ''Connected TCP sockets'', ''Other TCP/IP sockets''}"
proof -
  from assms have s: "list_ex (startswith p) m_nonFilePrefixes"
    by (simp add: IsPlainFile_def starts_with_one_def)
  then obtain c q where p: "p = c # q" "c \<noteq> CHR ''/''"
    by (cases p) (auto simp: m_nonFilePrefixes_def)
  have "category_in (drop 6 G_lstFilters) p \<noteq> ''Others''"
    using s unfolding G_lstFilters_def m_nonFilePrefixes_def by simp blast
  then show ?thesis
    unfolding nonfile_filters [OF p] G_lstFilters_def by (simp split: if_splits)
qed

theorem nonfile_category_witness:
  "PathCategory ''UDP:[0.0.0.0:53]'' \<in> {''Pipes and terminals'', ''Connected TCP sockets'', ''Other TCP/IP sockets''}"
proof -
  have "\<not> IsPlainFile ''UDP:[0.0.0.0:53]''" by code_simp
  from nonfile_category [OF _ this] show ?thesis by simp
qed

text \<open>
  Decoding undoes escaping: a buffer whose bytes are all written as octal escapes, as the tracers
  write those that cannot be printed, is decoded to its bytes.
\<close>

theorem decode_escapes: "DecodeOctalEscapeSequence (concat (map octal_escape s)) = Some s"
  by (rule decode_octal_escapes)

text \<open>
  C31. No byte is lost or repeated: whatever the fragments and their sizes, the buffers that the scanners
  saw, followed by the buffer that still waits, are the fragments one after the other.
\<close>

theorem no_byte_lost:
  "\<exists>ms. m_parsedData (append_all scs fs b) = m_parsedData (fold (AnalyseCompleteBuffer scs) ms b) \<and>
     concat ms @ pending (append_all scs fs b) = pending b @ concat (map fst fs)"
  using append_all_glue [of scs fs b] glue_concat [of "pending b" fs] by metis

subsection \<open>Names at the root\<close>

text \<open>
  The code counts the empty text before the first slash as a component: a \<open>..\<close> at the root removes it,
  so that the result is no absolute name, the root itself is the empty text, and several of them run
  past the start of the list.
\<close>

lemma above_root:
  "ToAbsPath (VStr []) ''/../etc'' = Inr ''etc''" "ToAbsPath (VStr []) ''/'' = Inr []"
  "ToAbsPath (VStr []) [] = Inl IndexError"
  by code_simp+

end
