(* ===== verification/Flow.thy ===== *)
theory Flow
  imports Factory
begin

text \<open>
  The sequence of the calls of a process (\<^verbatim>\<open>BatchFlow\<close>) and its factorisation: repeated calls are
  counted, the two halves of an interrupted call become one, frequent pairs of calls and runs of
  calls with the same arguments are replaced by one \<^verbatim>\<open>BatchLetSequence\<close>.

  The objects of the list are not shared with anything else, so a batch is a value here; the batch
  that a loop remembers is an index of the list.
\<close>

subsection \<open>Times\<close>

text \<open>
  \<open>datetime.strptime(s, '%H:%M:%S.%f')\<close> in microseconds since midnight; \<open>None\<close> is its ValueError.
\<close>

definition time_field :: "nat \<Rightarrow> nat \<Rightarrow> string \<Rightarrow> nat option" where
  "time_field maxLen bound s =
     (if length s \<le> maxLen then
        (case unsigned_val 10 s of None \<Rightarrow> None | Some n \<Rightarrow> if n < bound then Some n else None)
      else None)"

definition strptime :: "string \<Rightarrow> int option" where
  "strptime s =
     (case py_split (CHR '':'') s of
        [h, m, sf] \<Rightarrow>
          (case py_split (CHR ''.'') sf of
             [sec, f] \<Rightarrow>
               (case (time_field 2 24 h, time_field 2 60 m, time_field 2 60 sec, time_field 6 1000000 f) of
                  (Some h', Some m', Some s', Some f') \<Rightarrow>
                    Some (((int h' * 60 + int m') * 60 + int s') * 1000000 + int f' * 10 ^ (6 - length f))
                | _ \<Rightarrow> None)
           | _ \<Rightarrow> None)
      | _ \<Rightarrow> None)"

subsection \<open>Sequences\<close>

definition add_new :: "'a list \<Rightarrow> 'a \<Rightarrow> 'a list" where
  "add_new acc x = (if x \<in> set acc then acc else acc @ [x])"

definition sequence_args :: "batchlet list \<Rightarrow> pyval list" where
  "sequence_args arrBatch = foldl add_new [] (concat (map m_significantArgs arrBatch))"

definition sequence_name :: "batch_core list \<Rightarrow> batchlet list \<Rightarrow> string" where
  "sequence_name cs arrBatch = ''('' @ py_join ''+'' (map (GetSignature cs) arrBatch) @ '')''"

definition BatchLetSequence_init :: "batchlet list \<Rightarrow> string \<Rightarrow> (world, batchlet) py" where
  "BatchLetSequence_init arrBatch style =
     bnd (gets cores) (\<lambda>cs.
     let c0 = cs ! m_core (hd arrBatch);
         c1 = cs ! m_core (last arrBatch)
     in bnd (of_opt ValueError (strptime (m_timeEnd c1))) (\<lambda>t1.
        bnd (of_opt ValueError (strptime (m_timeStart c0))) (\<lambda>t0.
        bnd (new_core \<lparr>m_tracer = [], m_pid = m_pid c0, m_timeStart = m_timeStart c0,
                       m_timeEnd = m_timeEnd c1, m_execTim = VInt (t1 - t0),
                       m_funcNam = sequence_name cs arrBatch, m_parsedArgs = sequence_args arrBatch,
                       m_retValue = Some ''N/A'', m_status = StSequence, m_objectProcess = [],
                       m_unfinishedBatch = None, m_resumedBatch = None\<rparr>) (\<lambda>batchCore.
        BatchLetBase_init ''BatchLetSequence'' batchCore style))))"

definition SignatureForRepetitions :: "batch_core list \<Rightarrow> batchlet list \<Rightarrow> string" where
  "SignatureForRepetitions cs batchRange = py_join ''+'' (map (GetSignatureWithArgs cs) batchRange)"

subsection \<open>Adding a call to a flow\<close>

record batch_flow =
  m_listBatchLets :: "batchlet list"
  lstBatch :: "nat option"

definition BatchFlow_init :: batch_flow where
  "BatchFlow_init = \<lparr>m_listBatchLets = [], lstBatch = None\<rparr>"

definition one_more :: "batchlet \<Rightarrow> batchlet" where
  "one_more b = b\<lparr>m_occurrences := m_occurrences b + 1\<rparr>"

definition AddBatch :: "batch_core list \<Rightarrow> batchlet \<Rightarrow> batchlet list \<Rightarrow> batchlet list" where
  "AddBatch cs btchLet l =
     (if l \<noteq> [] \<and> SameCall cs (last l) btchLet then butlast l @ [one_more (last l)]
      else l @ [btchLet])"

text \<open>One step of the coroutine, which remembers the last batch of the list.\<close>

definition SendBatch :: "batch_core list \<Rightarrow> batchlet \<Rightarrow> batch_flow \<Rightarrow> batch_flow" where
  "SendBatch cs btchLet f =
     (let l = m_listBatchLets f;
          l' = (case lstBatch f of
                  Some i \<Rightarrow> if SameCall cs (l ! i) btchLet then l[i := one_more (l ! i)] else l @ [btchLet]
                | None \<Rightarrow> l @ [btchLet])
      in \<lparr>m_listBatchLets = l', lstBatch = Some (length l' - 1)\<rparr>)"

subsection \<open>Removing the first half of an interrupted call\<close>

definition unlink_core :: "nat \<Rightarrow> (world, unit) py" where
  "unlink_core i = upd_core i (\<lambda>c. c\<lparr>m_unfinishedBatch := None\<rparr>)"

text \<open>The three sanity checks, then whether the two cores are the halves of one call.\<close>

definition matched_pair :: "nat \<Rightarrow> nat \<Rightarrow> (world, bool) py" where
  "matched_pair iPrev iSeq =
     bnd (get_core iPrev) (\<lambda>p.
     bnd (get_core iSeq) (\<lambda>c.
     if m_status p = StMatched \<and> m_status c = StMerged then
       (if m_funcNam p \<noteq> m_funcNam c then raise (PyException ''INCONSISTENCY1'')
        else
          bnd (of_opt AttributeError (m_resumedBatch p)) (\<lambda>r.
          bnd (get_core r) (\<lambda>rc.
          if m_unfinishedBatch rc \<noteq> Some iPrev then raise (PyException ''INCONSISTENCY2'')
          else
            bnd (of_opt AttributeError (m_unfinishedBatch c)) (\<lambda>u.
            bnd (get_core u) (\<lambda>uc.
            if m_resumedBatch uc \<noteq> Some iSeq then raise (PyException ''INCONSISTENCY3'')
            else ret (m_resumedBatch p = Some iSeq \<and> m_unfinishedBatch c = Some iPrev))))))
     else ret False))"

function filter_loop :: "batchlet list \<Rightarrow> nat \<Rightarrow> nat \<Rightarrow> nat \<Rightarrow> (world, batchlet list \<times> nat) py" where
  "filter_loop l idxBatch lenBatch numSubst =
     (if idxBatch < lenBatch then
        bnd (matched_pair (m_core (l ! (idxBatch - 1))) (m_core (l ! idxBatch))) (\<lambda>paired.
        if paired then
          andthen (unlink_core (m_core (l ! idxBatch)))
            (filter_loop (take (idxBatch - 1) l @ drop idxBatch l) (idxBatch + 1) (lenBatch - 1) (numSubst + 1))
        else filter_loop l (idxBatch + 1) lenBatch numSubst)
      else ret (l, numSubst))"
  by pat_completeness auto
termination
  by (relation "measure (\<lambda>(l, i, n, k). n - i)") auto

declare filter_loop.simps [simp del]

definition FilterMatchedBatches :: "batchlet list \<Rightarrow> (world, batchlet list \<times> nat) py" where
  "FilterMatchedBatches l = filter_loop l 1 (length l) 0"

subsection \<open>Frequent pairs\<close>

definition count_key :: "string \<Rightarrow> (string \<times> nat) list \<Rightarrow> (string \<times> nat) list" where
  "count_key k m = AList.update k (case map_of m k of None \<Rightarrow> 1 | Some n \<Rightarrow> n + 1) m"

definition bigram_key :: "batch_core list \<Rightarrow> batchlet list \<Rightarrow> nat \<Rightarrow> string" where
  "bigram_key cs l idxBatch = SignatureForRepetitions cs (take 2 (drop idxBatch l))"

definition StatisticsBigrams :: "batch_core list \<Rightarrow> batchlet list \<Rightarrow> (string \<times> nat) list" where
  "StatisticsBigrams cs l = fold (\<lambda>idx. count_key (bigram_key cs l idx)) [0..<length l - 1] []"

function bigrams_loop ::
    "(string \<times> nat) list \<Rightarrow> batchlet list \<Rightarrow> nat \<Rightarrow> int \<Rightarrow> nat option \<Rightarrow> nat \<Rightarrow>
     (world, batchlet list \<times> nat) py" where
  "bigrams_loop mapOccurences l idxBatch maxIdx batchSeqPrev numSubst =
     (if int idxBatch < maxIdx then
        bnd (gets cores) (\<lambda>cs.
        let numOccur = (case map_of mapOccurences (bigram_key cs l idxBatch) of None \<Rightarrow> 0 | Some n \<Rightarrow> n)
        in if 5 < numOccur then
             bnd (BatchLetSequence_init (take 2 (drop idxBatch l)) ''Rept'') (\<lambda>batchSequence.
             bnd (gets cores) (\<lambda>cs'.
             (case batchSeqPrev of
                Some j \<Rightarrow>
                  if SameCall cs' batchSequence (l ! j) then
                    bigrams_loop mapOccurences
                      (take idxBatch (l[j := one_more (l ! j)]) @ drop (idxBatch + 2) l)
                      idxBatch (maxIdx - 2) batchSeqPrev (numSubst + 1)
                  else
                    bigrams_loop mapOccurences (take idxBatch l @ [batchSequence] @ drop (idxBatch + 2) l)
                      (idxBatch + 1) (maxIdx - 1) (Some idxBatch) (numSubst + 1)
              | None \<Rightarrow>
                  bigrams_loop mapOccurences (take idxBatch l @ [batchSequence] @ drop (idxBatch + 2) l)
                    (idxBatch + 1) (maxIdx - 1) (Some idxBatch) (numSubst + 1))))
           else bigrams_loop mapOccurences l (idxBatch + 1) maxIdx None numSubst)
      else ret (l, numSubst))"
  by pat_completeness auto
termination
  by (relation "measure (\<lambda>(m, l, i, n, p, k). nat (n - int i))") auto

declare bigrams_loop.simps [simp del]

definition ClusterizeBigrams :: "batchlet list \<Rightarrow> (world, batchlet list \<times> nat) py" where
  "ClusterizeBigrams l =
     bnd (gets cores) (\<lambda>cs.
     bigrams_loop (StatisticsBigrams cs l) l 0 (int (length l) - 1) None 0)"

subsection \<open>Runs with the same arguments\<close>

function args_loop ::
    "batchlet list \<Rightarrow> nat \<Rightarrow> nat \<Rightarrow> nat \<Rightarrow> nat \<Rightarrow> (world, batchlet list \<times> nat) py" where
  "args_loop l idxLast idxBatch lenBatch numSubst =
     (if idxBatch \<le> lenBatch then
        (if idxBatch < lenBatch \<and> m_significantArgs (l ! idxLast) = [] then
           args_loop l (idxLast + 1) (idxBatch + 1) lenBatch numSubst
         else if idxBatch < lenBatch \<and> m_significantArgs (l ! idxBatch) = m_significantArgs (l ! idxLast) then
           args_loop l idxLast (idxBatch + 1) lenBatch numSubst
         else if idxLast + 1 < idxBatch then
           bnd (BatchLetSequence_init (drop idxLast (take idxBatch l)) ''Args'') (\<lambda>batchSeq.
           args_loop (take idxLast l @ [batchSeq] @ drop idxBatch l) (idxLast + 1) (idxLast + 2)
             (lenBatch - (idxBatch - idxLast - 1)) (numSubst + 1))
         else args_loop l (idxLast + 1) (idxLast + 2) lenBatch numSubst)
      else ret (l, numSubst))"
  by pat_completeness auto
termination
  by (relation "measures [\<lambda>(l, i, j, n, k). n + 2 - i, \<lambda>(l, i, j, n, k). Suc n - j]") auto

declare args_loop.simps [simp del]

definition ClusterizeBatchesByArguments :: "batchlet list \<Rightarrow> (world, batchlet list \<times> nat) py" where
  "ClusterizeBatchesByArguments l = args_loop l 0 1 (length l) 0"

subsection \<open>The whole factorisation\<close>

text \<open>
  The loop over the frequent pairs runs until a pass replaces nothing; \<open>None\<close> is a run out of fuel.
\<close>

fun cluster_until_stable ::
    "('a list \<Rightarrow> ('s, 'a list \<times> nat) py) \<Rightarrow> nat \<Rightarrow> 'a list \<Rightarrow> ('s, 'a list option) py" where
  "cluster_until_stable pass 0 l = ret None"
| "cluster_until_stable pass (Suc fuel) l =
     bnd (pass l) (\<lambda>(l', numSubst).
     if numSubst = 0 then ret (Some l') else cluster_until_stable pass fuel l')"

definition FactorizeOneFlow :: "batchlet list \<Rightarrow> (world, batchlet list option) py" where
  "FactorizeOneFlow l =
     bnd (FilterMatchedBatches l) (\<lambda>(l1, _).
     bnd (cluster_until_stable ClusterizeBigrams (Suc (length l1)) l1) (\<lambda>r.
     case r of
       None \<Rightarrow> ret None
     | Some l2 \<Rightarrow> bnd (ClusterizeBatchesByArguments l2) (\<lambda>(l3, _). ret (Some l3))))"

end
