(* ===== verification/FlowProps.thy ===== *)
theory FlowProps
  imports Flow
begin

text \<open>
  The factorisation of a flow: each pass that replaces something makes the list shorter, so the
  loop ends; no pass fails on a flow whose times can be read; and the clustering by arguments
  is the grouping of the maximal runs of calls with the same arguments.
\<close>

subsection \<open>Passes that shrink a list\<close>

text \<open>
  The contract of a pass over a list: when it returns, the list has lost at least as many elements
  as it counts replacements. Such a pass can only be repeated as many times as the list is long.
\<close>

locale shrinking_pass =
  fixes pass :: "'a list \<Rightarrow> ('s, 'a list \<times> nat) py"
    and ok :: "'s \<Rightarrow> 'a list \<Rightarrow> bool"
  assumes shrinks: "ok s l \<Longrightarrow> pass l s = (Inr (l', n), s') \<Longrightarrow> length l' + n \<le> length l"
    and total: "ok s l \<Longrightarrow> \<exists>l' n s'. pass l s = (Inr (l', n), s')"
    and ok_kept: "ok s l \<Longrightarrow> pass l s = (Inr (l', n), s') \<Longrightarrow> ok s' l'"
begin

text \<open>With more fuel than elements, the repetition returns a list on which the pass is stable.\<close>

lemma stable:
  "ok s l \<Longrightarrow> length l < fuel \<Longrightarrow>
   \<exists>l' s' l0 s0. cluster_until_stable pass fuel l s = (Inr (Some l'), s') \<and> ok s' l' \<and>
     length l' \<le> length l \<and> pass l0 s0 = (Inr (l', 0), s')"
proof (induction fuel arbitrary: l s)
  case (Suc fuel)
  obtain l1 n s1 where p: "pass l s = (Inr (l1, n), s1)" using total [OF Suc.prems(1)] by blast
  have le: "length l1 + n \<le> length l" and ok1: "ok s1 l1"
    using shrinks [OF Suc.prems(1) p] ok_kept [OF Suc.prems(1) p] .
  show ?case
  proof (cases "n = 0")
    case True
    have "cluster_until_stable pass (Suc fuel) l s = (Inr (Some l1), s1)"
      using p True by (simp add: bnd_def)
    with ok1 le p True show ?thesis by fastforce
  next
    case False
    with le Suc.prems(2) have "length l1 < fuel" by simp
    from Suc.IH [OF ok1 this] obtain l' s' l0 s0 where
      r: "cluster_until_stable pass fuel l1 s1 = (Inr (Some l'), s')" "ok s' l'"
      "length l' \<le> length l1" "pass l0 s0 = (Inr (l', 0), s')" by blast
    have "cluster_until_stable pass (Suc fuel) l s = (Inr (Some l'), s')"
      using p False r(1) by (simp add: bnd_def)
    with r le show ?thesis by (intro exI conjI) (assumption | simp)+
  qed
qed simp

text \<open>More fuel changes nothing.\<close>

lemma more_fuel:
  "cluster_until_stable pass fuel l s = (Inr (Some l'), s') \<Longrightarrow>
   cluster_until_stable pass (fuel + k) l s = (Inr (Some l'), s')"
proof (induction fuel arbitrary: l s)
  case (Suc fuel)
  then show ?case by (auto simp: bnd_def split: prod.splits sum.splits if_splits)
qed simp

end

subsection \<open>Batches whose times can be read\<close>

definition times_ok :: "batch_core list \<Rightarrow> batchlet \<Rightarrow> bool" where
  "times_ok cs b \<longleftrightarrow> m_core b < length cs \<and> strptime (m_timeStart (cs ! m_core b)) \<noteq> None \<and>
     strptime (m_timeEnd (cs ! m_core b)) \<noteq> None"

definition flow_ok :: "world \<Rightarrow> batchlet list \<Rightarrow> bool" where
  "flow_ok w l \<longleftrightarrow> list_all (times_ok (cores w)) l"

lemma times_ok_append: "times_ok cs b \<Longrightarrow> times_ok (cs @ xs) b"
  by (simp add: times_ok_def nth_append)

lemma times_ok_one_more [simp]: "times_ok cs (one_more b) = times_ok cs b"
  by (simp add: times_ok_def one_more_def)

text \<open>The core of a sequence.\<close>

definition seq_core :: "batch_core list \<Rightarrow> batchlet list \<Rightarrow> int \<Rightarrow> batch_core" where
  "seq_core cs l d =
     \<lparr>m_tracer = [], m_pid = m_pid (cs ! m_core (hd l)), m_timeStart = m_timeStart (cs ! m_core (hd l)),
      m_timeEnd = m_timeEnd (cs ! m_core (last l)), m_execTim = VInt d,
      m_funcNam = sequence_name cs l, m_parsedArgs = sequence_args l,
      m_retValue = Some ''N/A'', m_status = StSequence, m_objectProcess = [],
      m_unfinishedBatch = None, m_resumedBatch = None\<rparr>"

lemma sequence_run:
  assumes "flow_ok w l" "l \<noteq> []"
  obtains d b where "BatchLetSequence_init l style w =
      (Inr b, w\<lparr>cores := cores w @ [seq_core (cores w) l d]\<rparr>)"
    "m_core b = length (cores w)" "m_significantArgs b = sequence_args l"
    "class_name b = ''BatchLetSequence''" "m_occurrences b = 1"
    "times_ok (cores w @ [seq_core (cores w) l d]) b"
proof -
  from assms have "times_ok (cores w) (hd l)" "times_ok (cores w) (last l)"
    by (auto simp: flow_ok_def list_all_iff)
  then obtain t0 t1 where t: "strptime (m_timeStart (cores w ! m_core (hd l))) = Some t0"
    "strptime (m_timeEnd (cores w ! m_core (last l))) = Some t1" by (auto simp: times_ok_def)
  let ?b = "\<lparr>m_core = length (cores w), m_occurrences = 1, m_style = style,
      m_significantArgs = sequence_args l, class_name = ''BatchLetSequence''\<rparr>"
  show ?thesis
  proof (rule that [of ?b "t1 - t0"])
    show "BatchLetSequence_init l style w = (Inr ?b, w\<lparr>cores := cores w @ [seq_core (cores w) l (t1 - t0)]\<rparr>)"
      using t by (simp add: BatchLetSequence_init_def bnd_def Let_def BatchLetBase_init_def seq_core_def)
    show "times_ok (cores w @ [seq_core (cores w) l (t1 - t0)]) ?b"
      using t by (simp add: times_ok_def seq_core_def)
  qed simp_all
qed

lemma flow_ok_grow: "flow_ok w l \<Longrightarrow> list_all (times_ok (cores w @ xs)) l"
  by (auto simp: flow_ok_def list_all_iff intro: times_ok_append)

lemma flow_ok_sub: "flow_ok w l \<Longrightarrow> set l' \<subseteq> set l \<Longrightarrow> flow_ok w l'"
  by (auto simp: flow_ok_def list_all_iff)

subsection \<open>The pass over the pairs\<close>

lemma bigrams_loop_run:
  assumes "flow_ok w l" "n \<le> int (length l) - 1" "\<And>j. p = Some j \<Longrightarrow> j < i"
  shows "\<exists>l' k' w'. bigrams_loop m l i n p k w = (Inr (l', k'), w') \<and> flow_ok w' l' \<and>
    length l' + (k' - k) \<le> length l \<and> k \<le> k'"
  using assms
proof (induction m l i n p k arbitrary: w rule: bigrams_loop.induct)
  case (1 m l i n p k)
  note IHs = "1.IH"
  let ?num = "case map_of m (bigram_key (cores w) l i) of None \<Rightarrow> 0 | Some n \<Rightarrow> n"
  show ?case
  proof (cases "int i < n")
    case False
    then show ?thesis using "1.prems" by (subst bigrams_loop.simps) simp
  next
    case i: True
    with "1.prems"(2) have il: "i + 2 \<le> length l" by simp
    show ?thesis
    proof (cases "5 < ?num")
      case False
      have "\<exists>l' k' w'. bigrams_loop m l (i + 1) n None k w = (Inr (l', k'), w') \<and> flow_ok w' l' \<and>
          length l' + (k' - k) \<le> length l \<and> k \<le> k'"
        by (rule IHs(4) [OF i refl False "1.prems"(1,2)]) simp
      with i False show ?thesis by (subst bigrams_loop.simps) (simp add: bnd_def Let_def)
    next
      case num: True
      let ?r = "take 2 (drop i l)"
      have r: "flow_ok w ?r" "?r \<noteq> []"
        using flow_ok_sub [OF "1.prems"(1)] il
        by (auto intro: in_set_takeD in_set_dropD simp: subset_iff dest!: in_set_takeD in_set_dropD)
      obtain d b where s: "BatchLetSequence_init ?r ''Rept'' w =
          (Inr b, w\<lparr>cores := cores w @ [seq_core (cores w) ?r d]\<rparr>)"
        "times_ok (cores w @ [seq_core (cores w) ?r d]) b"
        using sequence_run [OF r] by metis
      let ?w = "w\<lparr>cores := cores w @ [seq_core (cores w) ?r d]\<rparr>"
      let ?new = "take i l @ [b] @ drop (i + 2) l"
      have grow: "list_all (times_ok (cores ?w)) l" using flow_ok_grow [OF "1.prems"(1)] by simp
      have new: "flow_ok ?w ?new" "length ?new = length l - 1"
        using grow s(2) il by (auto simp: flow_ok_def list_all_iff dest: in_set_takeD in_set_dropD)
      have step: "\<exists>l' k' w'. bigrams_loop m ?new (i + 1) (n - 1) (Some i) (k + 1) ?w = (Inr (l', k'), w') \<and>
          flow_ok w' l' \<and> length l' + (k' - k) \<le> length l \<and> k \<le> k'"
        if "\<exists>l' k' w'. bigrams_loop m ?new (i + 1) (n - 1) (Some i) (k + 1) ?w = (Inr (l', k'), w') \<and>
          flow_ok w' l' \<and> length l' + (k' - (k + 1)) \<le> length ?new \<and> k + 1 \<le> k'"
        using that new(2) il by fastforce
      show ?thesis
      proof (cases p)
        case None
        have "\<exists>l' k' w'. bigrams_loop m ?new (i + 1) (n - 1) (Some i) (k + 1) ?w = (Inr (l', k'), w') \<and>
          flow_ok w' l' \<and> length l' + (k' - (k + 1)) \<le> length ?new \<and> k + 1 \<le> k'"
          by (rule IHs(1) [OF i refl num None new(1)]) (use "1.prems"(2) new(2) il in auto)
        from step [OF this] i num None s(1) show ?thesis
          by (subst bigrams_loop.simps) (simp add: bnd_def Let_def)
      next
        case (Some j)
        show ?thesis
        proof (cases "SameCall (cores ?w) b (l ! j)")
          case False
          have "\<exists>l' k' w'. bigrams_loop m ?new (i + 1) (n - 1) (Some i) (k + 1) ?w = (Inr (l', k'), w') \<and>
            flow_ok w' l' \<and> length l' + (k' - (k + 1)) \<le> length ?new \<and> k + 1 \<le> k'"
            by (rule IHs(3) [OF i refl num Some False new(1)]) (use "1.prems"(2) new(2) il in auto)
          from step [OF this] i num Some False s(1) show ?thesis
            by (subst bigrams_loop.simps) (simp add: bnd_def Let_def)
        next
          case True
          let ?del = "take i (l[j := one_more (l ! j)]) @ drop (i + 2) l"
          have j: "j < length l" using "1.prems"(3) [OF Some] il by simp
          have del: "flow_ok ?w ?del" "length ?del = length l - 2"
          proof -
            have "times_ok (cores ?w) x" if "x \<in> set (l[j := one_more (l ! j)])" for x
              using that grow j set_update_subset_insert [of l j "one_more (l ! j)"]
              by (auto simp: list_all_iff)
            with grow show "flow_ok ?w ?del"
              by (auto simp: flow_ok_def list_all_iff dest: in_set_takeD in_set_dropD)
            show "length ?del = length l - 2" using il by simp
          qed
          have "\<exists>l' k' w'. bigrams_loop m ?del i (n - 2) p (k + 1) ?w = (Inr (l', k'), w') \<and>
            flow_ok w' l' \<and> length l' + (k' - (k + 1)) \<le> length ?del \<and> k + 1 \<le> k'"
            by (rule IHs(2) [OF i refl num Some True del(1)]) (use "1.prems" del(2) il in auto)
          then have "\<exists>l' k' w'. bigrams_loop m ?del i (n - 2) p (k + 1) ?w = (Inr (l', k'), w') \<and>
            flow_ok w' l' \<and> length l' + (k' - k) \<le> length l \<and> k \<le> k'"
            using del(2) il by fastforce
          with i num Some True s(1) show ?thesis
            by (subst bigrams_loop.simps) (simp add: bnd_def Let_def)
        qed
      qed
    qed
  qed
qed

lemma ClusterizeBigrams_run:
  assumes "flow_ok w l"
  shows "\<exists>l' n w'. ClusterizeBigrams l w = (Inr (l', n), w') \<and> flow_ok w' l' \<and> length l' + n \<le> length l"
  using bigrams_loop_run [OF assms, of "int (length l) - 1" None 0 "StatisticsBigrams (cores w) l" 0]
  by (simp add: ClusterizeBigrams_def bnd_def)

interpretation bigrams: shrinking_pass ClusterizeBigrams flow_ok
proof (unfold_locales, goal_cases)
  case (1 s l l' n s')
  then show ?case using ClusterizeBigrams_run [OF 1(1)] by auto
next
  case (2 s l)
  then show ?case using ClusterizeBigrams_run [OF 2] by blast
next
  case (3 s l l' n s')
  then show ?case using ClusterizeBigrams_run [OF 3(1)] by auto
qed

subsection \<open>The clustering by arguments groups the maximal runs\<close>

text \<open>What a batch shows: the name of its call and its significant arguments.\<close>

definition view :: "batch_core list \<Rightarrow> batchlet list \<Rightarrow> (string \<times> pyval list) list" where
  "view cs l = map (\<lambda>b. (GetSignature cs b, m_significantArgs b)) l"

text \<open>The specification: a maximal run of calls with the same arguments, not empty, is one call.\<close>

function cluster_runs :: "(string \<times> pyval list) list \<Rightarrow> (string \<times> pyval list) list" where
  "cluster_runs [] = []"
| "cluster_runs ((n, a) # xs) =
     (let run = takeWhile (\<lambda>x. snd x = a) xs
      in if a = [] \<or> run = [] then (n, a) # cluster_runs xs
         else (''('' @ py_join ''+'' (n # map fst run) @ '')'', foldl add_new [] a)
                # cluster_runs (dropWhile (\<lambda>x. snd x = a) xs))"
  by pat_completeness auto
termination
  by (relation "measure length") (auto simp: le_imp_less_Suc length_dropWhile_le)

declare cluster_runs.simps(2) [simp del]

lemma foldl_add_new_absorb: "set xs \<subseteq> set acc \<Longrightarrow> foldl add_new acc xs = acc"
  by (induction xs) (simp_all add: add_new_def)

lemma set_foldl_add_new: "set (foldl add_new acc xs) = set acc \<union> set xs"
  by (induction xs arbitrary: acc) (auto simp: add_new_def)

lemma sequence_args_same:
  assumes "\<forall>b \<in> set l. m_significantArgs b = a"
  shows "sequence_args (c # l) = foldl add_new [] (m_significantArgs c @ concat (map (\<lambda>_. a) l))"
proof -
  have "map m_significantArgs l = map (\<lambda>_. a) l" using assms by (simp only: map_eq_conv)
  then show ?thesis unfolding sequence_args_def by (simp only: list.map concat.simps)
qed

lemma sequence_args_run:
  assumes "\<forall>b \<in> set l. m_significantArgs b = m_significantArgs c"
  shows "sequence_args (c # l) = foldl add_new [] (m_significantArgs c)"
proof -
  have "foldl add_new (foldl add_new [] (m_significantArgs c)) (concat (map (\<lambda>_. m_significantArgs c) l)) =
      foldl add_new [] (m_significantArgs c)"
    by (rule foldl_add_new_absorb) (auto simp: set_foldl_add_new)
  with sequence_args_same [OF assms] show ?thesis by simp
qed

lemma view_grow: "list_all (times_ok cs) l \<Longrightarrow> view (cs @ xs) l = view cs l"
  by (auto simp: view_def GetSignature_def list_all_iff times_ok_def nth_append)

lemma view_append [simp]: "view cs (xs @ ys) = view cs xs @ view cs ys" "view cs [] = []"
  "view cs (x # xs) = (GetSignature cs x, m_significantArgs x) # view cs xs"
  by (simp_all add: view_def)

lemma takeWhile_view:
  "takeWhile (\<lambda>x. snd x = a) (view cs l) = view cs (takeWhile (\<lambda>b. m_significantArgs b = a) l)"
  "dropWhile (\<lambda>x. snd x = a) (view cs l) = view cs (dropWhile (\<lambda>b. m_significantArgs b = a) l)"
  by (induction l) (simp_all add: view_def)

lemma cluster_single:
  assumes "rest = [] \<or> m_significantArgs c = [] \<or> m_significantArgs (hd rest) \<noteq> m_significantArgs c"
  shows "cluster_runs (view cs (c # rest)) =
    (GetSignature cs c, m_significantArgs c) # cluster_runs (view cs rest)"
proof -
  have "takeWhile (\<lambda>x. snd x = m_significantArgs c) (view cs rest) = [] \<or> m_significantArgs c = []"
    using assms by (cases rest) auto
  then show ?thesis by (auto simp: cluster_runs.simps(2) Let_def)
qed

lemma cluster_run:
  assumes "run \<noteq> []" "\<forall>b \<in> set run. m_significantArgs b = m_significantArgs c"
    "m_significantArgs c \<noteq> []"
    "rest = [] \<or> m_significantArgs (hd rest) \<noteq> m_significantArgs c"
  shows "cluster_runs (view cs (c # run @ rest)) =
    (sequence_name cs (c # run), sequence_args (c # run)) # cluster_runs (view cs rest)"
proof -
  let ?P = "\<lambda>b. m_significantArgs b = m_significantArgs c"
  have "takeWhile ?P (run @ rest) = run" "dropWhile ?P (run @ rest) = rest"
    using assms(2,4) by (cases rest; simp add: takeWhile_append2 dropWhile_append2)+
  then have tw: "takeWhile (\<lambda>x. snd x = m_significantArgs c) (view cs (run @ rest)) = view cs run"
    and dw: "dropWhile (\<lambda>x. snd x = m_significantArgs c) (view cs (run @ rest)) = view cs rest"
    by (simp_all only: takeWhile_view)
  have "view cs run \<noteq> []" "map fst (view cs run) = map (GetSignature cs) run"
    using assms(1) by (simp_all add: view_def)
  then show ?thesis
    using assms(3) sequence_args_run [OF assms(2)]
    by (simp only: view_append(3) cluster_runs.simps(2) Let_def tw dw sequence_name_def list.map)
      simp
qed

lemma start_run:
  assumes "rest \<noteq> []"
  shows "\<exists>c run rest'. rest = c # run @ rest' \<and> i + 1 = i + 1 + length run \<and>
    (\<forall>b \<in> set run. m_significantArgs b = m_significantArgs c) \<and> (run \<noteq> [] \<longrightarrow> m_significantArgs c \<noteq> [])"
proof -
  from assms obtain c rest' where "rest = c # rest'" by (cases rest) auto
  then show ?thesis by (intro exI [of _ c] exI [of _ "[]"] exI [of _ rest']) simp
qed

lemma args_loop_run:
  assumes "flow_ok w l" "l = pre @ suf" "i = length pre" "n = length l"
    "suf = [] \<Longrightarrow> j = Suc i"
    "suf \<noteq> [] \<Longrightarrow> \<exists>c run rest. suf = c # run @ rest \<and> j = i + 1 + length run \<and>
       (\<forall>b \<in> set run. m_significantArgs b = m_significantArgs c) \<and>
       (run \<noteq> [] \<longrightarrow> m_significantArgs c \<noteq> [])"
  shows "\<exists>l' k' w'. args_loop l i j n k w = (Inr (l', k'), w') \<and> flow_ok w' l' \<and>
    length l' + (k' - k) \<le> length l \<and> k \<le> k' \<and>
    view (cores w') l' = view (cores w) pre @ cluster_runs (view (cores w) suf)"
  using assms
proof (induction l i j n k arbitrary: w pre suf rule: args_loop.induct)
  case (1 l i j n k)
  note IH = "1.IH" and prems = "1.prems"
  show ?case
  proof (cases suf)
    case Nil
    then have "\<not> j \<le> n" using prems by simp
    then show ?thesis using prems Nil by (subst args_loop.simps) simp
  next
    case (Cons c0 suf0)
    with prems(6) obtain c run rest where suf: "suf = c # run @ rest" "j = i + 1 + length run"
      "\<forall>b \<in> set run. m_significantArgs b = m_significantArgs c" "run \<noteq> [] \<longrightarrow> m_significantArgs c \<noteq> []"
      by blast
    have jn: "j \<le> n" "j < n \<longleftrightarrow> rest \<noteq> []" using prems suf by auto
    have li: "l ! i = c" using prems suf by simp
    have lj: "l ! j = hd rest" if "rest \<noteq> []"
      using prems suf that by (cases rest) (simp_all add: nth_append)
    let ?empty = "j < n \<and> m_significantArgs (l ! i) = []"
    let ?same = "j < n \<and> m_significantArgs (l ! j) = m_significantArgs (l ! i)"
    have single: "\<exists>l' k' w'. args_loop l (i + 1) j' n k w = (Inr (l', k'), w') \<and> flow_ok w' l' \<and>
        length l' + (k' - k) \<le> length l \<and> k \<le> k' \<and>
        view (cores w') l' = view (cores w) pre @ cluster_runs (view (cores w) suf)"
      if r: "run = []" and h: "\<exists>l' k' w'. args_loop l (i + 1) j' n k w = (Inr (l', k'), w') \<and> flow_ok w' l' \<and>
          length l' + (k' - k) \<le> length l \<and> k \<le> k' \<and>
          view (cores w') l' = view (cores w) (pre @ [c]) @ cluster_runs (view (cores w) rest)"
        and d: "rest = [] \<or> m_significantArgs c = [] \<or> m_significantArgs (hd rest) \<noteq> m_significantArgs c" for j'
    proof -
      have "cluster_runs (view (cores w) suf) =
          (GetSignature (cores w) c, m_significantArgs c) # cluster_runs (view (cores w) rest)"
        using cluster_single [OF d, of "cores w"] r suf(1) by simp
      with h show ?thesis by simp
    qed
    show ?thesis
    proof (cases ?empty)
      case True
      then have r: "run = []" using suf(4) li by auto
      have "\<exists>l' k' w'. args_loop l (i + 1) (j + 1) n k w = (Inr (l', k'), w') \<and> flow_ok w' l' \<and>
          length l' + (k' - k) \<le> length l \<and> k \<le> k' \<and>
          view (cores w') l' = view (cores w) (pre @ [c]) @ cluster_runs (view (cores w) rest)"
      proof (rule IH(1) [OF jn(1) True prems(1)])
        show "l = (pre @ [c]) @ rest" "i + 1 = length (pre @ [c])" "n = length l" "j + 1 = Suc (i + 1)"
          using prems(2-4) suf(1,2) r by simp_all
        show "\<exists>c run rest'. rest = c # run @ rest' \<and> j + 1 = i + 1 + 1 + length run \<and>
            (\<forall>b \<in> set run. m_significantArgs b = m_significantArgs c) \<and> (run \<noteq> [] \<longrightarrow> m_significantArgs c \<noteq> [])"
          if "rest \<noteq> []" using start_run [OF that, of "i + 1"] suf(2) r by simp
      qed
      from single [OF r this] True li jn show ?thesis by (subst args_loop.simps) simp
    next
      case ne: False
      show ?thesis
      proof (cases ?same)
        case True
        then obtain x rest' where rest: "rest = x # rest'" using jn by (cases rest) auto
        have x: "m_significantArgs x = m_significantArgs c" using True lj li rest by simp
        have "m_significantArgs c \<noteq> []" using ne True li by simp
        then have "\<exists>l' k' w'. args_loop l i (j + 1) n k w = (Inr (l', k'), w') \<and> flow_ok w' l' \<and>
          length l' + (k' - k) \<le> length l \<and> k \<le> k' \<and>
          view (cores w') l' = view (cores w) pre @ cluster_runs (view (cores w) suf)"
        proof (intro IH(2) [OF jn(1) ne True prems(1-4)])
          show "j + 1 = Suc i" if "suf = []" using that suf(1) by simp
          show "\<exists>c run rest. suf = c # run @ rest \<and> j + 1 = i + 1 + length run \<and>
              (\<forall>b \<in> set run. m_significantArgs b = m_significantArgs c) \<and> (run \<noteq> [] \<longrightarrow> m_significantArgs c \<noteq> [])"
            using suf(1-3) rest x \<open>m_significantArgs c \<noteq> []\<close>
            by (intro exI [of _ c] exI [of _ "run @ [x]"] exI [of _ rest']) auto
        qed
        with ne True jn show ?thesis by (subst args_loop.simps) simp
      next
        case ns: False
        have d: "rest = [] \<or> m_significantArgs (hd rest) \<noteq> m_significantArgs c"
          using ns jn lj li by auto
        show ?thesis
        proof (cases "i + 1 < j")
          case False
          then have r: "run = []" using suf(2) by simp
          have "\<exists>l' k' w'. args_loop l (i + 1) (i + 2) n k w = (Inr (l', k'), w') \<and> flow_ok w' l' \<and>
            length l' + (k' - k) \<le> length l \<and> k \<le> k' \<and>
            view (cores w') l' = view (cores w) (pre @ [c]) @ cluster_runs (view (cores w) rest)"
          proof (rule IH(4) [OF jn(1) ne ns False prems(1)])
            show "l = (pre @ [c]) @ rest" "i + 1 = length (pre @ [c])" "n = length l" "i + 2 = Suc (i + 1)"
              using prems(2-4) suf(1,2) r by simp_all
            show "\<exists>c run rest'. rest = c # run @ rest' \<and> i + 2 = i + 1 + 1 + length run \<and>
                (\<forall>b \<in> set run. m_significantArgs b = m_significantArgs c) \<and> (run \<noteq> [] \<longrightarrow> m_significantArgs c \<noteq> [])"
              if "rest \<noteq> []" using start_run [OF that, of "i + 1"] by simp
          qed
          moreover have "rest = [] \<or> m_significantArgs c = [] \<or> m_significantArgs (hd rest) \<noteq> m_significantArgs c"
            using d by blast
          ultimately have h: "\<exists>l' k' w'. args_loop l (i + 1) (i + 2) n k w = (Inr (l', k'), w') \<and> flow_ok w' l' \<and>
            length l' + (k' - k) \<le> length l \<and> k \<le> k' \<and>
            view (cores w') l' = view (cores w) pre @ cluster_runs (view (cores w) suf)"
            by (rule single [OF r])
          have "args_loop l i j n k = args_loop l (i + 1) (i + 2) n k"
            using jn(1) ne ns False by (subst args_loop.simps) (simp only: if_True if_False)
          with h show ?thesis by (simp only:)
        next
          case True
          then have r: "run \<noteq> []" using suf(2) by auto
          let ?r = "drop i (take j l)"
          have rr: "?r = c # run" using prems suf by simp
          have "flow_ok w (c # run)" by (rule flow_ok_sub [OF prems(1)]) (use prems(2) suf(1) in auto)
          then have rok: "flow_ok w ?r" "?r \<noteq> []" by (simp_all only: rr) simp
          obtain dt b where s: "BatchLetSequence_init ?r ''Args'' w =
              (Inr b, w\<lparr>cores := cores w @ [seq_core (cores w) ?r dt]\<rparr>)"
            "m_core b = length (cores w)" "m_significantArgs b = sequence_args ?r"
            "times_ok (cores w @ [seq_core (cores w) ?r dt]) b"
            using sequence_run [OF rok] by metis
          let ?w = "w\<lparr>cores := cores w @ [seq_core (cores w) ?r dt]\<rparr>"
          let ?new = "take i l @ [b] @ drop j l"
          have parts: "take i l = pre" "drop j l = rest" using prems suf by auto
          have grow: "list_all (times_ok (cores ?w)) l" using flow_ok_grow [OF prems(1)] by simp
          have new: "flow_ok ?w ?new"
            using grow s(4) prems(2) suf(1) unfolding parts by (auto simp: flow_ok_def)
          have "\<exists>l' k' w'. args_loop ?new (i + 1) (i + 2) (n - (j - i - 1)) (k + 1) ?w = (Inr (l', k'), w') \<and>
            flow_ok w' l' \<and> length l' + (k' - (k + 1)) \<le> length ?new \<and> k + 1 \<le> k' \<and>
            view (cores w') l' = view (cores ?w) (pre @ [b]) @ cluster_runs (view (cores ?w) rest)"
          proof (rule IH(3) [OF jn(1) ne ns True new])
            show "?new = (pre @ [b]) @ rest" "i + 1 = length (pre @ [b])" "i + 2 = Suc (i + 1)"
              using prems(3) parts by simp_all
            show "n - (j - i - 1) = length ?new"
              using prems(2-4) suf(1,2) parts by simp
            show "\<exists>c run rest'. rest = c # run @ rest' \<and> i + 2 = i + 1 + 1 + length run \<and>
                (\<forall>b \<in> set run. m_significantArgs b = m_significantArgs c) \<and> (run \<noteq> [] \<longrightarrow> m_significantArgs c \<noteq> [])"
              if "rest \<noteq> []" using start_run [OF that, of "i + 1"] by simp
          qed
          moreover have "length ?new + 1 \<le> length l"
          proof -
            have "0 < length run" using r by simp
            moreover have "length ?new = length pre + 1 + length rest" by (simp only: parts) simp
            moreover have "length l = length pre + 1 + length run + length rest"
              using prems(2) suf(1) by simp
            ultimately show ?thesis by linarith
          qed
          moreover have "view (cores ?w) pre = view (cores w) pre" "view (cores ?w) rest = view (cores w) rest"
            using prems(1,2) suf(1) by (auto simp: flow_ok_def intro!: view_grow)
          moreover have "view (cores ?w) [b] = [(sequence_name (cores w) (c # run), sequence_args (c # run))]"
            using s(2,3) rr by (simp add: GetSignature_def seq_core_def)
          moreover have "cluster_runs (view (cores w) suf) =
              (sequence_name (cores w) (c # run), sequence_args (c # run)) # cluster_runs (view (cores w) rest)"
            using cluster_run [OF r suf(3) _ d] suf(1,4) r by simp
          ultimately have "\<exists>l' k' w'. args_loop ?new (i + 1) (i + 2) (n - (j - i - 1)) (k + 1) ?w = (Inr (l', k'), w') \<and>
            flow_ok w' l' \<and> length l' + (k' - k) \<le> length l \<and> k \<le> k' \<and>
            view (cores w') l' = view (cores w) pre @ cluster_runs (view (cores w) suf)"
            by fastforce
          moreover have "args_loop l i j n k w =
              args_loop ?new (i + 1) (i + 2) (n - (j - i - 1)) (k + 1) ?w"
            using jn(1) ne ns True
            by (subst args_loop.simps) (simp only: if_True if_False bnd_def s(1) prod.case sum.case)
          ultimately show ?thesis by (simp only:)
        qed
      qed
    qed
  qed
qed

lemma ClusterizeByArguments_run:
  assumes "flow_ok w l"
  shows "\<exists>l' k w'. ClusterizeBatchesByArguments l w = (Inr (l', k), w') \<and> flow_ok w' l' \<and>
    length l' + k \<le> length l \<and> view (cores w') l' = cluster_runs (view (cores w) l)"
proof -
  have "\<exists>l' k w'. args_loop l 0 1 (length l) 0 w = (Inr (l', k), w') \<and> flow_ok w' l' \<and>
    length l' + (k - 0) \<le> length l \<and> 0 \<le> k \<and>
    view (cores w') l' = view (cores w) [] @ cluster_runs (view (cores w) l)"
  proof (rule args_loop_run [OF assms])
    show "\<exists>c run rest. l = c # run @ rest \<and> 1 = 0 + 1 + length run \<and>
        (\<forall>b \<in> set run. m_significantArgs b = m_significantArgs c) \<and> (run \<noteq> [] \<longrightarrow> m_significantArgs c \<noteq> [])"
      if "l \<noteq> []" using start_run [OF that, of 0] by simp
  qed simp_all
  then show ?thesis by (simp add: ClusterizeBatchesByArguments_def)
qed

subsection \<open>Removing the first halves\<close>

lemma matched_pair_state: "snd (matched_pair i j w) = w"
  by (auto simp: matched_pair_def bnd_def of_opt_def split: prod.splits sum.splits option.splits if_splits)

lemma flow_ok_unlink:
  "flow_ok (w\<lparr>cores := (cores w)[i := (cores w ! i)\<lparr>m_unfinishedBatch := None\<rparr>]\<rparr>) l = flow_ok w l"
  by (cases "i < length (cores w)")
    (auto simp: flow_ok_def list_all_iff times_ok_def nth_list_update list_update_beyond)

lemma filter_loop_run:
  "filter_loop l i n k w = (Inr (l', k'), w') \<Longrightarrow> n = length l \<Longrightarrow> 0 < i \<Longrightarrow> flow_ok w l \<Longrightarrow>
   flow_ok w' l' \<and> length l' + k' = length l + k \<and> k \<le> k'"
proof (induction l i n k arbitrary: w rule: filter_loop.induct)
  case (1 l i n k)
  show ?case
  proof (cases "i < n")
    case False
    with 1 show ?thesis by (subst (asm) (3) filter_loop.simps) simp
  next
    case True
    obtain r where m: "matched_pair (m_core (l ! (i - 1))) (m_core (l ! i)) w = (r, w)"
      using matched_pair_state by (metis surjective_pairing)
    show ?thesis
    proof (cases r)
      case (Inl e)
      with 1 True m show ?thesis by (subst (asm) (3) filter_loop.simps) (simp add: bnd_def)
    next
      case (Inr paired)
      show ?thesis
      proof (cases paired)
        case False
        with 1(3) True m Inr have "filter_loop l (i + 1) n k w = (Inr (l', k'), w')"
          by (subst (asm) filter_loop.simps) (simp add: bnd_def)
        from "1.IH"(2) [OF True False this 1(4) _ 1(6)] show ?thesis by simp
      next
        case pair: True
        let ?c = "m_core (l ! i)"
        let ?w = "w\<lparr>cores := (cores w)[?c := (cores w ! ?c)\<lparr>m_unfinishedBatch := None\<rparr>]\<rparr>"
        let ?l = "take (i - 1) l @ drop i l"
        have c: "?c < length (cores w)"
          using 1(4,6) True by (simp add: flow_ok_def list_all_length times_ok_def)
        have u: "unlink_core ?c w = (Inr (), ?w)" using c by (simp add: unlink_core_def)
        with 1(3) True m Inr pair have run: "filter_loop ?l (i + 1) (n - 1) (k + 1) ?w = (Inr (l', k'), w')"
          by (subst (asm) filter_loop.simps) (simp add: bnd_def andthen_def)
        have len: "n - 1 = length ?l" using 1(4,5) True by simp
        have "flow_ok w ?l" using 1(6) by (auto simp: flow_ok_def dest: in_set_takeD in_set_dropD simp: list_all_iff)
        then have ok: "flow_ok ?w ?l" by (simp only: flow_ok_unlink)
        from "1.IH"(1) [OF True pair run len _ ok] len True 1(4) show ?thesis by simp
      qed
    qed
  qed
qed

lemma Filter_run:
  "flow_ok w l \<Longrightarrow> FilterMatchedBatches l w = (Inr (l', k), w') \<Longrightarrow>
   flow_ok w' l' \<and> length l' + k = length l"
  using filter_loop_run [of l 1 "length l" 0 w l' k w'] by (simp add: FilterMatchedBatches_def)

subsection \<open>The whole factorisation\<close>

lemma Factorize_run:
  assumes ok: "flow_ok w l" and f: "FilterMatchedBatches l w = (Inr (l1, k), w1)"
  shows "\<exists>l3 w3 l2 w2 fuel. FactorizeOneFlow l w = (Inr (Some l3), w3) \<and> flow_ok w3 l3 \<and>
    length l3 \<le> length l \<and>
    cluster_until_stable ClusterizeBigrams fuel l1 w1 = (Inr (Some l2), w2) \<and>
    view (cores w3) l3 = cluster_runs (view (cores w2) l2)"
proof -
  have ok1: "flow_ok w1 l1" and len1: "length l1 \<le> length l" using Filter_run [OF ok f] by simp_all
  from bigrams.stable [OF ok1, of "Suc (length l1)"] obtain l2 w2 where
    c: "cluster_until_stable ClusterizeBigrams (Suc (length l1)) l1 w1 = (Inr (Some l2), w2)"
    "flow_ok w2 l2" "length l2 \<le> length l1" by blast
  from ClusterizeByArguments_run [OF c(2)] obtain l3 n w3 where
    a: "ClusterizeBatchesByArguments l2 w2 = (Inr (l3, n), w3)" "flow_ok w3 l3"
    "length l3 + n \<le> length l2" "view (cores w3) l3 = cluster_runs (view (cores w2) l2)" by blast
  have "FactorizeOneFlow l w = (Inr (Some l3), w3)"
    unfolding FactorizeOneFlow_def by (simp only: bnd_def f c(1) a(1) prod.case sum.case option.case ret_run)
  moreover have "length l3 \<le> length l" using a(3) c(3) len1 by linarith
  ultimately show ?thesis using a(2,4) c(1) by blast
qed

subsection \<open>Counting repetitions\<close>

text \<open>The calls that a list of counted batches stands for.\<close>

definition expand :: "batch_core list \<Rightarrow> batchlet list \<Rightarrow> (string \<times> pyval list) list" where
  "expand cs l = concat (map (\<lambda>b. replicate (nat (m_occurrences b)) (GetSignature cs b, m_significantArgs b)) l)"

lemma SameCall_view:
  "SameCall cs a b \<Longrightarrow> GetSignature cs a = GetSignature cs b \<and> m_significantArgs a = m_significantArgs b"
  by (simp add: SameCall_def GetSignature_def SameArguments_eq)

lemma expand_append [simp]: "expand cs (xs @ ys) = expand cs xs @ expand cs ys"
  by (simp add: expand_def)

lemma AddBatch_expand:
  assumes "\<forall>x \<in> set l. 0 < m_occurrences x" "m_occurrences b = 1"
  shows "expand cs (AddBatch cs b l) = expand cs l @ [(GetSignature cs b, m_significantArgs b)] \<and>
    (\<forall>x \<in> set (AddBatch cs b l). 0 < m_occurrences x)"
proof (cases "l \<noteq> [] \<and> SameCall cs (last l) b")
  case False
  then show ?thesis using assms by (auto simp: AddBatch_def expand_def)
next
  case True
  then obtain l0 a where l: "l = l0 @ [a]" by (metis append_butlast_last_id)
  have a: "0 < m_occurrences a" using assms(1) l by simp
  have "replicate (nat (m_occurrences a + 1)) x = replicate (nat (m_occurrences a)) x @ [x]"
    for x :: "string \<times> pyval list"
    using a by (simp add: nat_add_distrib replicate_append_same)
  then have "expand cs [one_more a] = expand cs [a] @ [(GetSignature cs b, m_significantArgs b)]"
    using SameCall_view [of cs a b] True l by (simp add: expand_def one_more_def GetSignature_def)
  then show ?thesis using True l assms(1) by (auto simp: AddBatch_def one_more_def)
qed

lemma AddBatches_expand:
  assumes "\<forall>x \<in> set l. 0 < m_occurrences x" "\<forall>b \<in> set bs. m_occurrences b = 1"
  shows "expand cs (fold (AddBatch cs) bs l) = expand cs l @ view cs bs"
  using assms
proof (induction bs arbitrary: l)
  case (Cons b bs)
  from AddBatch_expand [OF Cons.prems(1), of b cs] Cons.prems(2) Cons.IH [of "AddBatch cs b l"]
  show ?case by simp
qed simp

text \<open>The coroutine does the same as \<^verbatim>\<open>AddBatch\<close>.\<close>

definition flow_synced :: "batch_flow \<Rightarrow> bool" where
  "flow_synced f \<longleftrightarrow>
     lstBatch f = (if m_listBatchLets f = [] then None else Some (length (m_listBatchLets f) - 1))"

lemma SendBatch_AddBatch:
  assumes "flow_synced f"
  shows "m_listBatchLets (SendBatch cs b f) = AddBatch cs b (m_listBatchLets f) \<and> flow_synced (SendBatch cs b f)"
proof (cases "m_listBatchLets f = []")
  case True
  then show ?thesis using assms by (simp add: flow_synced_def SendBatch_def AddBatch_def)
next
  case False
  then obtain l0 a where l: "m_listBatchLets f = l0 @ [a]" by (metis append_butlast_last_id)
  then show ?thesis using assms by (simp add: flow_synced_def SendBatch_def AddBatch_def)
qed

lemma SendBatches_AddBatches:
  "flow_synced f \<Longrightarrow> m_listBatchLets (fold (SendBatch cs) bs f) = fold (AddBatch cs) bs (m_listBatchLets f)"
proof (induction bs arbitrary: f)
  case (Cons b bs)
  from SendBatch_AddBatch [OF Cons.prems, of cs b] Cons.IH [of "SendBatch cs b f"] show ?case by simp
qed simp

end
