(* ===== verification/FlowTheorems.thy ===== *)
theory FlowTheorems
  imports FlowProps LineProps
begin

text \<open>
  What the factorisation of a flow guarantees: which halves of calls are removed, how often a pair of
  calls is left, how the runs of calls are grouped, and how repetitions are counted.
\<close>

subsection \<open>The halves that are removed\<close>

text \<open>The batches \<open>a\<close> and \<open>b\<close> are the two halves of one call.\<close>

definition partners :: "batch_core list \<Rightarrow> batchlet \<Rightarrow> batchlet \<Rightarrow> bool" where
  "partners cs a b \<longleftrightarrow>
     m_status (cs ! m_core a) = StMatched \<and> m_status (cs ! m_core b) = StMerged \<and>
     m_resumedBatch (cs ! m_core a) = Some (m_core b) \<and> m_unfinishedBatch (cs ! m_core b) = Some (m_core a)"

text \<open>Without the first halves that stand just before their second half.\<close>

fun drop_matched :: "batch_core list \<Rightarrow> batchlet list \<Rightarrow> batchlet list" where
  "drop_matched cs (a # b # l) =
     (if partners cs a b then drop_matched cs (b # l) else a # drop_matched cs (b # l))"
| "drop_matched cs l = l"

lemma drop_matched_merged: "m_status (cs ! m_core b) = StMerged \<Longrightarrow> drop_matched cs (b # l) = b # drop_matched cs l"
  by (cases l) (auto simp: partners_def)

lemma partners_cong:
  "cs ! m_core a = cs' ! m_core a \<Longrightarrow> cs ! m_core b = cs' ! m_core b \<Longrightarrow> partners cs a b = partners cs' a b"
  by (simp add: partners_def)

lemma drop_matched_cong:
  "\<forall>b \<in> set l. cs ! m_core b = cs' ! m_core b \<Longrightarrow> drop_matched cs l = drop_matched cs' l"
proof (induction cs l rule: drop_matched.induct)
  case (1 cs a b l)
  then show ?case using partners_cong [of cs a cs' b] by auto
qed auto

text \<open>
  The links that \<^verbatim>\<open>MergePopBatch\<close> sets: a first half and its second half refer to each other. And no
  second half stands just after the first half of a call of another function.
\<close>

definition half_linked :: "batch_core list \<Rightarrow> batchlet \<Rightarrow> bool" where
  "half_linked cs b \<longleftrightarrow> m_core b < length cs \<and>
     (m_status (cs ! m_core b) = StMatched \<longrightarrow>
        (\<exists>r < length cs. m_resumedBatch (cs ! m_core b) = Some r \<and> m_unfinishedBatch (cs ! r) = Some (m_core b))) \<and>
     (m_status (cs ! m_core b) = StMerged \<longrightarrow>
        (\<exists>u < length cs. m_unfinishedBatch (cs ! m_core b) = Some u \<and> m_resumedBatch (cs ! u) = Some (m_core b)))"

definition same_function :: "batch_core list \<Rightarrow> batchlet \<Rightarrow> batchlet \<Rightarrow> bool" where
  "same_function cs a b \<longleftrightarrow>
     (m_status (cs ! m_core a) = StMatched \<and> m_status (cs ! m_core b) = StMerged \<longrightarrow>
      m_funcNam (cs ! m_core a) = m_funcNam (cs ! m_core b))"

definition unlinked :: "nat \<Rightarrow> batch_core list \<Rightarrow> batch_core list" where
  "unlinked i cs = cs[i := (cs ! i)\<lparr>m_unfinishedBatch := None\<rparr>]"

lemma unlinked_simps [simp]:
  "length (unlinked i cs) = length cs"
  "m_status (unlinked i cs ! k) = m_status (cs ! k)"
  "m_resumedBatch (unlinked i cs ! k) = m_resumedBatch (cs ! k)"
  "m_funcNam (unlinked i cs ! k) = m_funcNam (cs ! k)"
  "k \<noteq> i \<Longrightarrow> unlinked i cs ! k = cs ! k"
  by (cases "i < length cs"; cases "k = i"; simp add: unlinked_def list_update_beyond)+

lemma matched_pair_linked:
  "half_linked (cores w) a \<Longrightarrow> half_linked (cores w) b \<Longrightarrow> same_function (cores w) a b \<Longrightarrow>
   matched_pair (m_core a) (m_core b) w = (Inr (partners (cores w) a b), w)"
  by (auto simp: matched_pair_def bnd_def half_linked_def same_function_def partners_def get_core_def of_opt_def)

lemma half_linked_unlinked:
  assumes "half_linked cs x" "partners cs a b" "m_core x \<noteq> m_core a" "m_core x \<noteq> m_core b"
  shows "half_linked (unlinked (m_core b) cs) x"
proof -
  have "r \<noteq> m_core b" if "m_unfinishedBatch (cs ! r) = Some (m_core x)" for r
    using that assms(2,3) by (auto simp: partners_def)
  then show ?thesis using assms(1,4) by (auto simp: half_linked_def)
qed

lemma filter_loop_spec:
  "list_all (half_linked (cores w)) l \<Longrightarrow> distinct (map m_core l) \<Longrightarrow> successively (same_function (cores w)) l \<Longrightarrow>
   n = length (pre @ l) \<Longrightarrow> i = Suc (length pre) \<Longrightarrow>
   \<exists>k' w'. filter_loop (pre @ l) i n k w = (Inr (pre @ drop_matched (cores w) l, k'), w') \<and>
     k' + length (drop_matched (cores w) l) = k + length l"
proof (induction "length l" arbitrary: pre l i n k w rule: less_induct)
  case less
  show ?case
  proof (cases "\<exists>a b suf. l = a # b # suf")
    case False
    then have "l = [] \<or> (\<exists>a. l = [a])" by (metis list.exhaust)
    with less.prems(4,5) show ?thesis by (auto simp: filter_loop.simps)
  next
    case True
    then obtain a b suf where l: "l = a # b # suf" by blast
    have nth: "(pre @ l) ! (i - 1) = a" "(pre @ l) ! i = b" "i < n"
      using l less.prems(4,5) by (simp_all add: nth_append)
    have p: "matched_pair (m_core a) (m_core b) w = (Inr (partners (cores w) a b), w)"
      using less.prems(1,3) l by (intro matched_pair_linked) simp_all
    show ?thesis
    proof (cases "partners (cores w) a b")
      case False
      have "\<exists>k' w'. filter_loop ((pre @ [a]) @ b # suf) (i + 1) n k w =
          (Inr ((pre @ [a]) @ drop_matched (cores w) (b # suf), k'), w') \<and>
          k' + length (drop_matched (cores w) (b # suf)) = k + length (b # suf)"
        using less.prems l by (intro less.hyps) simp_all
      with False l nth p show ?thesis by (subst filter_loop.simps) (auto simp: bnd_def)
    next
      case True
      let ?cs = "unlinked (m_core b) (cores w)"
      let ?w = "w\<lparr>cores := ?cs\<rparr>"
      have u: "unlink_core (m_core b) w = (Inr (), ?w)"
        using less.prems(1) l by (simp add: unlink_core_def unlinked_def half_linked_def)
      have ne: "m_core x \<noteq> m_core a \<and> m_core x \<noteq> m_core b" if "x \<in> set suf" for x
        using less.prems(2) l that by (metis distinct.simps(2) image_eqI list.set_intros(2) list.simps(9) set_map)
      have "list_all (half_linked ?cs) suf"
        using less.prems(1) l ne True by (auto simp: list_all_iff intro: half_linked_unlinked)
      moreover have "successively (same_function ?cs) suf"
        using less.prems(3) l by (cases suf) (simp_all add: same_function_def)
      ultimately have "\<exists>k' w'. filter_loop ((pre @ [b]) @ suf) (i + 1) (n - 1) (k + 1) ?w =
          (Inr ((pre @ [b]) @ drop_matched (cores ?w) suf, k'), w') \<and>
          k' + length (drop_matched (cores ?w) suf) = k + 1 + length suf"
        using less.prems(2,4,5) l by (intro less.hyps) simp_all
      moreover have "drop_matched (cores ?w) suf = drop_matched (cores w) suf"
        using ne by (intro drop_matched_cong) simp
      moreover have "drop_matched (cores w) l = b # drop_matched (cores w) suf"
        using True l drop_matched_merged [of "cores w" b suf] by (simp add: partners_def)
      moreover have "take (i - 1) (pre @ l) @ drop i (pre @ l) = (pre @ [b]) @ suf"
        using l less.prems(5) by simp
      ultimately show ?thesis
        using True l nth p u by (subst filter_loop.simps) (auto simp: bnd_def andthen_def)
    qed
  qed
qed

text \<open>No first half is left just before its second half.\<close>

lemma drop_matched_hd:
  "\<exists>c l'. drop_matched cs (b # l) = c # l' \<and> (c = b \<or> c \<in> set l \<and> partners cs b c)"
proof (cases l)
  case (Cons d l2)
  show ?thesis
  proof (cases "partners cs b d")
    case True
    then have "drop_matched cs (d # l2) = d # drop_matched cs l2"
      by (intro drop_matched_merged) (simp add: partners_def)
    with True Cons show ?thesis by simp
  qed (use Cons in simp)
qed simp

lemma drop_matched_none_left:
  "distinct (map m_core l) \<Longrightarrow> successively (\<lambda>a b. \<not> partners cs a b) (drop_matched cs l)"
proof (induction cs l rule: drop_matched.induct)
  case (1 cs a b l)
  show ?case
  proof (cases "partners cs a b")
    case True
    with 1 show ?thesis by simp
  next
    case False
    obtain c l' where d: "drop_matched cs (b # l) = c # l'" "c = b \<or> partners cs b c"
      using drop_matched_hd by blast
    have "\<not> partners cs a c"
      using d(2) False 1(3) by (auto simp: partners_def)
    with 1 False d show ?thesis by simp
  qed
qed simp_all

subsection \<open>The pairs that are left\<close>

definition bigram_keys :: "batch_core list \<Rightarrow> batchlet list \<Rightarrow> string list" where
  "bigram_keys cs l = map (bigram_key cs l) [0..<length l - 1]"

lemma map_of_count_key:
  "map_of (count_key k m) x = (if x = k then Some (case map_of m k of None \<Rightarrow> 1 | Some n \<Rightarrow> n + 1) else map_of m x)"
  by (simp add: count_key_def update_conv')

definition occurrences_in :: "(string \<times> nat) list \<Rightarrow> string \<Rightarrow> nat" where
  "occurrences_in m x = (case map_of m x of None \<Rightarrow> 0 | Some n \<Rightarrow> n)"

lemma occurrences_count_key: "occurrences_in (count_key k m) x = occurrences_in m x + (if x = k then 1 else 0)"
  by (simp add: occurrences_in_def map_of_count_key split: option.splits)

lemma occurrences_fold: "occurrences_in (fold count_key ks m) x = occurrences_in m x + count_list ks x"
  by (induction ks arbitrary: m) (simp_all add: occurrences_count_key)

lemma StatisticsBigrams_counts: "occurrences_in (StatisticsBigrams cs l) x = count_list (bigram_keys cs l) x"
proof -
  have "StatisticsBigrams cs l = fold count_key (bigram_keys cs l) []"
    by (simp add: StatisticsBigrams_def bigram_keys_def fold_map comp_def)
  then show ?thesis by (simp add: occurrences_fold) (simp add: occurrences_in_def)
qed

lemma bindE:
  assumes "bnd m f s = (Inr y, s')"
  obtains x s1 where "m s = (Inr x, s1)" "f x s1 = (Inr y, s')"
  using assms by (auto simp: bnd_def split: prod.splits sum.splits)

lemma bigrams_loop_counts:
  "bigrams_loop m l i n p k w = (Inr (l', k'), w') \<Longrightarrow> k \<le> k'"
proof (induction m l i n p k arbitrary: w rule: bigrams_loop.induct)
  case (1 m l i n p k)
  show ?case
  proof (cases "int i < n")
    case False
    with 1 show ?thesis by (subst (asm) (5) bigrams_loop.simps) simp
  next
    case i: True
    show ?thesis
    proof (cases "5 < occurrences_in m (bigram_key (cores w) l i)")
      case False
      with 1(5) i have "bigrams_loop m l (i + 1) n None k w = (Inr (l', k'), w')"
        by (subst (asm) bigrams_loop.simps) (simp add: bnd_def Let_def occurrences_in_def)
      with "1.IH"(4) [OF i refl] False show ?thesis by (auto simp: occurrences_in_def)
    next
      case num: True
      then have num': "5 < (case map_of m (bigram_key (cores w) l i) of None \<Rightarrow> 0 | Some n \<Rightarrow> n)"
        by (simp add: occurrences_in_def)
      from 1(5) i num obtain b w1 where b: "BatchLetSequence_init (take 2 (drop i l)) ''Rept'' w = (Inr b, w1)"
        by (subst (asm) bigrams_loop.simps)
          (auto simp: Let_def occurrences_in_def bnd_def split: prod.splits sum.splits)
      let ?new = "take i l @ [b] @ drop (i + 2) l"
      have step: "k \<le> k'" if "k + 1 \<le> k'" using that by simp
      show ?thesis
      proof (cases p)
        case None
        with 1(5) i num' b have "bigrams_loop m ?new (i + 1) (n - 1) (Some i) (k + 1) w1 = (Inr (l', k'), w')"
          by (subst (asm) bigrams_loop.simps) (simp add: bnd_def Let_def)
        from step [OF "1.IH"(1) [OF i refl num' None this]] show ?thesis .
      next
        case (Some j)
        show ?thesis
        proof (cases "SameCall (cores w1) b (l ! j)")
          case False
          with 1(5) i num' b Some have "bigrams_loop m ?new (i + 1) (n - 1) (Some i) (k + 1) w1 = (Inr (l', k'), w')"
            by (subst (asm) bigrams_loop.simps) (simp add: bnd_def Let_def)
          from step [OF "1.IH"(3) [OF i refl num' Some False this]] show ?thesis .
        next
          case True
          with 1(5) i num' b Some
          have "bigrams_loop m (take i (l[j := one_more (l ! j)]) @ drop (i + 2) l) i (n - 2) p (k + 1) w1 = (Inr (l', k'), w')"
            by (subst (asm) bigrams_loop.simps) (simp add: bnd_def Let_def)
          from step [OF "1.IH"(2) [OF i refl num' Some True this]] show ?thesis .
        qed
      qed
    qed
  qed
qed

text \<open>A pass that replaces nothing has found no frequent pair.\<close>

lemma bigrams_loop_stable:
  "bigrams_loop m l i n p k w = (Inr (l', k), w') \<Longrightarrow>
   l' = l \<and> w' = w \<and> (\<forall>x. i \<le> x \<longrightarrow> int x < n \<longrightarrow> occurrences_in m (bigram_key (cores w) l x) \<le> 5)"
proof (induction "nat (n - int i)" arbitrary: i p rule: less_induct)
  case less
  show ?case
  proof (cases "int i < n")
    case False
    with less.prems show ?thesis by (subst (asm) bigrams_loop.simps) simp
  next
    case i: True
    have num: "\<not> 5 < occurrences_in m (bigram_key (cores w) l i)"
    proof
      assume c: "5 < occurrences_in m (bigram_key (cores w) l i)"
      from less.prems i c show False
        by (subst (asm) bigrams_loop.simps)
          (auto simp: Let_def occurrences_in_def bnd_def dest: bigrams_loop_counts
            split: prod.splits sum.splits option.splits if_splits)
    qed
    with less.prems i have "bigrams_loop m l (i + 1) n None k w = (Inr (l', k), w')"
      by (subst (asm) bigrams_loop.simps) (simp add: bnd_def Let_def occurrences_in_def)
    from less.hyps [OF _ this] i have IH: "l' = l \<and> w' = w \<and>
        (\<forall>x. i + 1 \<le> x \<longrightarrow> int x < n \<longrightarrow> occurrences_in m (bigram_key (cores w) l x) \<le> 5)" by simp
    have "occurrences_in m (bigram_key (cores w) l x) \<le> 5" if "i \<le> x" "int x < n" for x
      using IH num that by (cases "x = i") auto
    with IH show ?thesis by blast
  qed
qed

lemma ClusterizeBigrams_stable:
  assumes "ClusterizeBigrams l w = (Inr (l', 0), w')"
  shows "l' = l \<and> w' = w \<and> count_list (bigram_keys (cores w) l) x \<le> 5"
proof -
  have r: "bigrams_loop (StatisticsBigrams (cores w) l) l 0 (int (length l) - 1) None 0 w = (Inr (l', 0), w')"
    using assms by (simp add: ClusterizeBigrams_def bnd_def)
  note b = bigrams_loop_stable [OF r]
  have "count_list (bigram_keys (cores w) l) x \<le> 5"
  proof (cases "x \<in> set (bigram_keys (cores w) l)")
    case True
    then obtain i where "i < length l - 1" "x = bigram_key (cores w) l i" by (auto simp: bigram_keys_def)
    with b show ?thesis by (auto simp: StatisticsBigrams_counts)
  qed (simp add: count_notin)
  with b show ?thesis by simp
qed

subsection \<open>Properties of the factorisation\<close>

text \<open>
  C23. When the halves of the calls of a flow are linked to each other, \<^verbatim>\<open>FilterMatchedBatches\<close>
  does not fail. It removes exactly the first halves that stand just before their second half, counts
  them, keeps all other calls in order, and leaves no first half just before its second half.
\<close>

theorem filter_spec:
  assumes "list_all (half_linked (cores w)) l" "distinct (map m_core l)" "successively (same_function (cores w)) l"
  shows "\<exists>l' k w'. FilterMatchedBatches l w = (Inr (l', k), w') \<and> l' = drop_matched (cores w) l \<and>
    k + length l' = length l \<and> successively (\<lambda>a b. \<not> partners (cores w) a b) l'"
  using filter_loop_spec [OF assms, of "length l" "[]" 1 0] drop_matched_none_left [OF assms(2)]
  by (auto simp: FilterMatchedBatches_def)

definition example_batch :: "nat \<Rightarrow> pyval list \<Rightarrow> batchlet" where
  "example_batch i args = \<lparr>m_core = i, m_occurrences = 1, m_style = ''Orig'', m_significantArgs = args,
     class_name = ''BatchLetBase''\<rparr>"

definition timed_core :: "string \<Rightarrow> batch_core" where
  "timed_core f = (blank_core strace 7)\<lparr>m_funcNam := f, m_status := StPlain,
     m_timeStart := ''10:00:00.000000'', m_timeEnd := ''10:00:01.000000''\<rparr>"

text \<open>A call in two halves, then a plain one.\<close>

definition example_flow :: world where
  "example_flow = empty_world\<lparr>cores :=
     [(timed_core ''wait4@SYS'')\<lparr>m_status := StMatched, m_resumedBatch := Some 1\<rparr>,
      (timed_core ''wait4@SYS'')\<lparr>m_status := StMerged, m_unfinishedBatch := Some 0\<rparr>,
      timed_core ''read@SYS'', timed_core ''close@SYS'']\<rparr>"

definition example_list :: "batchlet list" where
  "example_list = [example_batch 0 [], example_batch 1 [], example_batch 2 [VStr ''3''], example_batch 3 [VStr ''3'']]"

lemma example_linked: "list_all (half_linked (cores example_flow)) example_list"
  by (simp add: example_list_def example_flow_def half_linked_def example_batch_def timed_core_def empty_world_def)

theorem filter_spec_witness:
  "\<exists>k w'. FilterMatchedBatches example_list example_flow = (Inr (tl example_list, k), w') \<and> k + 3 = 4"
proof -
  have "distinct (map m_core example_list)" "successively (same_function (cores example_flow)) example_list"
    "drop_matched (cores example_flow) example_list = tl example_list"
    "length example_list = 4" "length (tl example_list) = 3"
    by code_simp+
  with filter_spec [OF example_linked] show ?thesis by auto
qed

text \<open>
  C3. The factorisation of a flow with readable times and linked halves always returns: after the
  removal of the first halves, one more pass over the frequent pairs than there are calls is enough
  to reach a list \<open>l2\<close> in which no two consecutive calls occur more than five times, and the result is
  the grouping of the maximal runs of \<open>l2\<close> with the same arguments.
\<close>

theorem factorize_total:
  assumes "flow_ok w l" "list_all (half_linked (cores w)) l" "distinct (map m_core l)"
    "successively (same_function (cores w)) l"
  shows "\<exists>k w1 l2 w2 l3 w3. FactorizeOneFlow l w = (Inr (Some l3), w3) \<and>
    FilterMatchedBatches l w = (Inr (drop_matched (cores w) l, k), w1) \<and>
    cluster_until_stable ClusterizeBigrams (Suc (length (drop_matched (cores w) l)))
      (drop_matched (cores w) l) w1 = (Inr (Some l2), w2) \<and>
    (\<forall>x. count_list (bigram_keys (cores w2) l2) x \<le> 5) \<and>
    view (cores w3) l3 = cluster_runs (view (cores w2) l2) \<and>
    length l3 \<le> length l2 \<and> length l2 \<le> length (drop_matched (cores w) l)"
proof -
  from filter_loop_spec [OF assms(2-4), of "length l" "[]" 1 0] obtain k w1 where
    f: "FilterMatchedBatches l w = (Inr (drop_matched (cores w) l, k), w1)"
    by (auto simp: FilterMatchedBatches_def)
  from Filter_run [OF assms(1) f] have ok1: "flow_ok w1 (drop_matched (cores w) l)" by simp
  from bigrams.stable [OF ok1 lessI] obtain l2 w2 l0 w0 where
    c: "cluster_until_stable ClusterizeBigrams (Suc (length (drop_matched (cores w) l))) (drop_matched (cores w) l) w1 =
      (Inr (Some l2), w2)" "flow_ok w2 l2" "length l2 \<le> length (drop_matched (cores w) l)"
    "ClusterizeBigrams l0 w0 = (Inr (l2, 0), w2)" by blast
  from ClusterizeByArguments_run [OF c(2)] obtain l3 n w3 where
    a: "ClusterizeBatchesByArguments l2 w2 = (Inr (l3, n), w3)"
    "length l3 + n \<le> length l2" "view (cores w3) l3 = cluster_runs (view (cores w2) l2)" by blast
  have "FactorizeOneFlow l w = (Inr (Some l3), w3)"
    unfolding FactorizeOneFlow_def by (simp only: bnd_def f c(1) a(1) prod.case sum.case option.case ret_run)
  moreover have "\<forall>x. count_list (bigram_keys (cores w2) l2) x \<le> 5"
    using ClusterizeBigrams_stable [OF c(4)] by blast
  moreover have "length l3 \<le> length l2" using a(2) by simp
  ultimately show ?thesis using a(3) c(3) f c(1)
    by (intro exI [of _ k] exI [of _ w1] exI [of _ l2] exI [of _ w2] exI [of _ l3] exI [of _ w3] conjI)
qed

lemma example_times: "flow_ok example_flow example_list"
proof -
  have "strptime ''10:00:00.000000'' \<noteq> None" "strptime ''10:00:01.000000'' \<noteq> None"
    by (simp_all add: strptime_def time_field_def unsigned_val_def digit_val_def)
  then show ?thesis
    by (simp add: flow_ok_def times_ok_def example_list_def example_flow_def example_batch_def timed_core_def empty_world_def)
qed

theorem factorize_total_witness:
  "\<exists>l3 w3. FactorizeOneFlow example_list example_flow = (Inr (Some l3), w3) \<and> length l3 \<le> 3"
proof -
  have "distinct (map m_core example_list)" "successively (same_function (cores example_flow)) example_list"
    "length (drop_matched (cores example_flow) example_list) = 3"
    by code_simp+
  with factorize_total [OF example_times example_linked] show ?thesis by (metis le_trans)
qed

text \<open>
  C24. \<^verbatim>\<open>ClusterizeBatchesByArguments\<close> refines its specification: on a flow with readable times it
  returns, and what the calls of the result show is the grouping \<open>cluster_runs\<close> of what the calls of
  the flow show; its count of substitutions is no more than the number of calls that have gone.
\<close>

theorem cluster_by_arguments:
  assumes "flow_ok w l"
  shows "\<exists>l' k w'. ClusterizeBatchesByArguments l w = (Inr (l', k), w') \<and>
    view (cores w') l' = cluster_runs (view (cores w) l) \<and> k \<le> length l - length l'"
  using ClusterizeByArguments_run [OF assms] by fastforce

theorem cluster_by_arguments_witness:
  "\<exists>l' k w'. ClusterizeBatchesByArguments example_list example_flow = (Inr (l', k), w') \<and>
    view (cores w') l' = [(''wait4@SYS'', []), (''wait4@SYS'', []), (''(read@SYS+close@SYS)'', [VStr ''3''])]"
proof -
  have "cluster_runs (view (cores example_flow) example_list) =
      [(''wait4@SYS'', []), (''wait4@SYS'', []), (''(read@SYS+close@SYS)'', [VStr ''3''])]" by code_simp
  with cluster_by_arguments [OF example_times] show ?thesis by auto
qed

text \<open>
  C25. Counting the repetitions loses nothing: the list that the coroutine of a flow builds from calls
  stands for exactly these calls, in their order, each counted batch for as many equal calls as its
  number of occurrences.
\<close>

theorem repetitions_counted:
  assumes "\<forall>b \<in> set bs. m_occurrences b = 1"
  shows "expand cs (m_listBatchLets (fold (SendBatch cs) bs BatchFlow_init)) = view cs bs"
proof -
  have "m_listBatchLets (fold (SendBatch cs) bs BatchFlow_init) = fold (AddBatch cs) bs []"
    using SendBatches_AddBatches [of BatchFlow_init cs bs] by (simp add: flow_synced_def BatchFlow_init_def)
  with AddBatches_expand [of "[]" bs cs] assms show ?thesis by (simp add: expand_def)
qed

theorem repetitions_counted_witness:
  "expand (cores example_flow) (m_listBatchLets (fold (SendBatch (cores example_flow))
     (example_list @ example_list) BatchFlow_init)) = view (cores example_flow) (example_list @ example_list)"
proof -
  have "\<forall>b \<in> set (example_list @ example_list). m_occurrences b = 1" by code_simp
  from repetitions_counted [OF this] show ?thesis .
qed

text \<open>
  The coroutine that fills a flow is equivalent to \<^verbatim>\<open>AddBatch\<close>: sending calls one after the other
  builds the list that adding them one after the other builds.
\<close>

lemma coroutine_adds:
  "m_listBatchLets (fold (SendBatch cs) bs BatchFlow_init) = fold (AddBatch cs) bs []"
  using SendBatches_AddBatches [of BatchFlow_init cs bs] by (simp add: flow_synced_def BatchFlow_init_def)

end
