(* ===== verification/Stream.thy ===== *)
theory Stream
  imports FlowProps
begin

text \<open>
  From the log to the flows: the lines of the log are joined into calls
  (\<^verbatim>\<open>CreateFlowsFromGenericLinuxLog\<close>), each call becomes a batch, and
  \<^verbatim>\<open>CreateMapFlowFromStream\<close> dispatches the batches to the flow of their process and factorises each
  flow. A log is the list of its lines, each with its newline. \<^verbatim>\<open>G_Interrupt\<close> is not set.
\<close>

subsection \<open>The end of a call in the log\<close>

text \<open>The texts that \<open>float\<close> accepts.\<close>

definition all_digits :: "string \<Rightarrow> bool" where
  "all_digits s = list_all (\<lambda>c. case digit_val c of Some d \<Rightarrow> d < 10 | None \<Rightarrow> False) s"

definition is_mantissa :: "string \<Rightarrow> bool" where
  "is_mantissa s =
     (case py_split (CHR ''.'') s of
        [a] \<Rightarrow> a \<noteq> [] \<and> all_digits a
      | [a, b] \<Rightarrow> a @ b \<noteq> [] \<and> all_digits a \<and> all_digits b
      | _ \<Rightarrow> False)"

definition is_decimal :: "string \<Rightarrow> bool" where
  "is_decimal s =
     (case py_split (CHR ''e'') s of
        [m] \<Rightarrow> is_mantissa m
      | [m, e] \<Rightarrow> is_mantissa m \<and> snd (strip_sign e) \<noteq> [] \<and> all_digits (snd (strip_sign e))
      | _ \<Rightarrow> False)"

definition is_float :: "string \<Rightarrow> bool" where
  "is_float s =
     (let r = map to_lower (snd (strip_sign (py_strip s)))
      in r = ''nan'' \<or> r = ''inf'' \<or> r = ''infinity'' \<or> is_decimal r)"

definition IsLogEnding :: "string \<Rightarrow> bool" where
  "IsLogEnding aLin =
     (if endswith aLin (''>'' @ [CHR 0x0A]) then
        (let ixLT = py_rfind aLin ''<'';
             strBrack = py_slice aLin (ixLT + 1) (- 2)
         in 0 \<le> ixLT \<and> (is_float strBrack \<or> strBrack = ''unfinished ...'' \<or> strBrack = ''no return ...''))
      else
        (startswith aLin ''[pid '' \<and> endswith aLin ('' = ?'' @ [CHR 0x0A])) \<or>
        endswith aLin ('' ---'' @ [CHR 0x0A]))"

text \<open>One call, possibly written on several lines: the text, the number of lines read, the rest.\<close>

fun read_record :: "string list \<Rightarrow> string \<Rightarrow> nat \<Rightarrow> string \<times> nat \<times> string list" where
  "read_record [] oneLine numLine = (oneLine, Suc numLine, [])"
| "read_record (tmpLine # logStream) oneLine numLine =
     (if tmpLine = [] then (oneLine, Suc numLine, logStream)
      else if IsLogEnding tmpLine then (oneLine @ tmpLine, Suc numLine, logStream)
      else read_record logStream (oneLine @ butlast tmpLine) (Suc numLine))"

lemma read_record_shorter:
  "read_record ls acc n = (l, n', ls') \<Longrightarrow> ls = [] \<and> ls' = [] \<and> l = acc \<or> length ls' < length ls"
  by (induction ls acc n rule: read_record.induct) (auto split: if_splits)

subsection \<open>The loop over the log\<close>

text \<open>
  When a line cannot be parsed the exception is dropped, but for the two messages that the second
  line holds when the command or the process does not exist. The batch core of the previous line is
  then still there, and goes through the factory again.
\<close>

definition parse_or_previous ::
    "config \<Rightarrow> string \<Rightarrow> nat \<Rightarrow> string \<Rightarrow> nat option \<Rightarrow> (world, nat option) py" where
  "parse_or_previous cfg tracer numLine oneLine batchCore =
     try_except (CreateBatchCore cfg oneLine tracer)
       (\<lambda>e. if numLine = 2 \<and> contains oneLine ''No such file or directory''
            then raise (PyException ''Invalid command'')
            else if numLine = 2 \<and> contains oneLine ''No such process''
            then raise (PyException ''Invalid process id'')
            else ret batchCore)"

text \<open>
  The generator, with what its consumer does of each batch: \<open>yield\<close> runs before the next line is
  read.
\<close>

function CreateFlowsFromGenericLinuxLog ::
    "config \<Rightarrow> string \<Rightarrow> (batchlet \<Rightarrow> 'acc \<Rightarrow> (world, 'acc) py) \<Rightarrow> string list \<Rightarrow> nat \<Rightarrow> nat option \<Rightarrow>
     string option \<Rightarrow> 'acc \<Rightarrow> (world, 'acc) py" where
  "CreateFlowsFromGenericLinuxLog cfg tracer yield logStream numLine batchCore lastTimeStamp acc =
     (case read_record logStream [] numLine of (oneLine, numLine', rest) \<Rightarrow>
      if oneLine = [] then
        (case lastTimeStamp of
           None \<Rightarrow> ret acc
         | Some t \<Rightarrow> if t = [] then ret acc else andthen (modify (GlobalTerminationDate t)) (ret acc))
      else
        bnd (parse_or_previous cfg tracer numLine' oneLine batchCore) (\<lambda>core.
        case core of
          None \<Rightarrow> CreateFlowsFromGenericLinuxLog cfg tracer yield rest numLine' None lastTimeStamp acc
        | Some i \<Rightarrow>
            bnd (get_core i) (\<lambda>c.
            bnd (BatchLetFactory cfg i) (\<lambda>aBatch.
            bnd (case aBatch of None \<Rightarrow> ret acc | Some b \<Rightarrow> yield b acc) (\<lambda>acc'.
            CreateFlowsFromGenericLinuxLog cfg tracer yield rest numLine' (Some i)
              (Some (m_timeEnd c)) acc')))))"
  by pat_completeness auto
termination
  by (relation "measure (\<lambda>(cfg, tracer, y, ls, n, c, t, acc). length ls)")
    (auto dest: read_record_shorter [OF sym])

declare CreateFlowsFromGenericLinuxLog.simps [simp del]

subsection \<open>The globals of a run\<close>

definition py_strs :: "(string \<times> string) list \<Rightarrow> (string \<times> pyval) list" where
  "py_strs = map (\<lambda>(k, v). (k, VStr v))"

definition CIM_ComputerSystem_init :: "config \<Rightarrow> string \<Rightarrow> (world, (string \<times> pyval) list) py" where
  "CIM_ComputerSystem_init cfg hostname =
     (let nam = [(''Name'', VStr (map to_lower hostname))]
      in if G_ReplayMode cfg then ret nam
         else if psutil_at cfg = None then raise NameError
         else
           (let vm = virtual_memory cfg
            in ret (nam @
              [(''VirtualMemoryTotal'', VInt (vm ! 0)), (''VirtualMemoryAvailable'', VInt (vm ! 1)),
               (''VirtualMemoryUsed'', VInt (vm ! 3)), (''VirtualMemoryFree'', VInt (vm ! 4))] @
              (case cpu_freq cfg of
                 None \<Rightarrow> []
               | Some (cur, mini, maxi) \<Rightarrow>
                   py_strs [(''CpuCurrent'', cur), (''CpuMinimum'', mini), (''CpuMaximum'', maxi)]))))"

definition CIM_OperatingSystem_init :: "config \<Rightarrow> (world, (string \<times> pyval) list) py" where
  "CIM_OperatingSystem_init cfg =
     ret (if G_ReplayMode cfg then []
          else py_strs (zip [''OSType'', ''Name'', ''System'', ''Release'', ''Platform''] (platform_names cfg)))"

definition CIM_NetworkAdapter_init :: "string \<Rightarrow> (world, (string \<times> pyval) list) py" where
  "CIM_NetworkAdapter_init address =
     ret (py_strs [(''Name'', address), (''PermanentAddress'', address)])"

text \<open>\<^verbatim>\<open>CreateObjectPath\<close> for the classes whose objects are only listed.\<close>

definition create_other ::
    "string \<Rightarrow> string list \<Rightarrow> string list \<Rightarrow> (world, (string \<times> pyval) list) py \<Rightarrow> (world, objpath) py" where
  "create_other className ontology args init =
     (let path = CreateMonikerKey className ontology args
      in bnd (gets (\<lambda>w. case map_of (other_objects w) className of None \<Rightarrow> [] | Some m \<Rightarrow> m)) (\<lambda>mapObjs.
         andthen (modify (\<lambda>w. w\<lparr>other_objects := AList.update className mapObjs (other_objects w)\<rparr>))
         (case map_of mapObjs path of
            Some _ \<Rightarrow> ret path
          | None \<Rightarrow>
              bnd init (\<lambda>theObj.
              andthen (modify (\<lambda>w. w\<lparr>other_objects :=
                         AList.update className (AList.update path theObj mapObjs) (other_objects w)\<rparr>))
              (ret path)))))"

definition InitGlobals :: "config \<Rightarrow> (world, unit) py" where
  "InitGlobals cfg =
     andthen (modify (\<lambda>w. w\<lparr>m_mapStacks := [], cache_procs := None, cache_files := None, other_objects := [],
                accesses := [], cores := []\<rparr>))
     (andthen (create_other ''CIM_ComputerSystem'' [''Name''] [gethostname cfg]
                (CIM_ComputerSystem_init cfg (gethostname cfg)))
     (andthen (create_other ''CIM_OperatingSystem'' [] [] (CIM_OperatingSystem_init cfg))
     (andthen (create_other ''CIM_NetworkAdapter'' [''Name''] [gethostbyname cfg (gethostname cfg)]
                (CIM_NetworkAdapter_init (gethostbyname cfg (gethostname cfg))))
       (modify (\<lambda>w. w\<lparr>G_mapFilDesToPathName :=
                  [(''0'', VStr ''stdin''), (''1'', VStr ''stdout''), (''2'', VStr ''stderr'')],
                G_EnvironmentVariables := [], G_cacheFileAccesses := []\<rparr>)))))"

subsection \<open>The flows of the processes\<close>

type_synonym flow_map = "(int \<times> batch_flow) list"

definition dispatch_batch :: "batchlet \<Rightarrow> flow_map \<Rightarrow> (world, flow_map) py" where
  "dispatch_batch oneBatch mapFlows =
     bnd (gets cores) (\<lambda>cs.
     bnd (get_core (m_core oneBatch)) (\<lambda>aCore.
     let btchFlow = (case map_of mapFlows (m_pid aCore) of None \<Rightarrow> BatchFlow_init | Some f \<Rightarrow> f)
     in ret (AList.update (m_pid aCore) (SendBatch cs oneBatch btchFlow) mapFlows)))"

text \<open>The process numbers in decreasing order.\<close>

definition sorted_pids :: "flow_map \<Rightarrow> int list" where
  "sorted_pids mapFlows = rev (sort (map fst mapFlows))"

definition factorize_pid :: "int \<Rightarrow> flow_map \<Rightarrow> (world, flow_map) py" where
  "factorize_pid aPid mapFlows =
     (case map_of mapFlows aPid of
        None \<Rightarrow> raise KeyError
      | Some f \<Rightarrow>
          bnd (FactorizeOneFlow (m_listBatchLets f)) (\<lambda>r.
          case r of
            None \<Rightarrow> raise (PyException ''endless'')
          | Some l \<Rightarrow> ret (AList.update aPid (f\<lparr>m_listBatchLets := l\<rparr>) mapFlows)))"

fun factorize_all :: "int list \<Rightarrow> flow_map \<Rightarrow> (world, flow_map) py" where
  "factorize_all [] mapFlows = ret mapFlows"
| "factorize_all (p # ps) mapFlows = bnd (factorize_pid p mapFlows) (factorize_all ps)"

definition CreateMapFlowFromStream :: "config \<Rightarrow> string \<Rightarrow> string list \<Rightarrow> (world, flow_map) py" where
  "CreateMapFlowFromStream cfg tracer logStream =
     andthen (InitGlobals cfg)
     (if tracer = strace \<or> tracer = ltrace then
        bnd (CreateFlowsFromGenericLinuxLog cfg tracer dispatch_batch logStream 0 None None []) (\<lambda>mapFlows.
        factorize_all (sorted_pids mapFlows) mapFlows)
      else if tracer = ''cdb'' then raise (PyException ''Not implemented yet'')
      else raise (PyException ''Unknown tracer''))"

end
