(* ===== verification/CoresProps.thy ===== *)
theory CoresProps
  imports Stream
begin

text \<open>
  Which operations touch the list of the calls: no class of a call does, the parser of a line adds
  one, the factory only changes the status, the arguments and the links of a call. Then the flow of a
  process holds only the calls of this process, up to the end of the factorisation.
\<close>

subsection \<open>The classes of the calls leave the list of the calls as it is\<close>

lemma keeps_cores_modify:
  "(\<And>w. cores (f w) = cores w) \<Longrightarrow> keeps (\<lambda>w. P (cores w)) (modify f)"
  by (simp add: keeps_def)

lemma keeps_cores_basic [keeps_rules]:
  "keeps (\<lambda>w. P (cores w)) tick" "keeps (\<lambda>w. P (cores w)) (upd_proc p f)"
  "keeps (\<lambda>w. P (cores w)) (upd_file q g)" "keeps (\<lambda>w. P (cores w)) (upd_access i h)"
  "keeps (\<lambda>w. P (cores w)) (get_proc p)" "keeps (\<lambda>w. P (cores w)) (get_file q)"
  "keeps (\<lambda>w. P (cores w)) (get_access i)" "keeps (\<lambda>w. P (cores w)) (get_core i)"
  by (auto simp: keeps_def split: option.splits)

lemma store_access_cores [simp]: "cores (store_access p f i w) = cores w"
  by (simp add: store_access_def)

lemma keeps_cores_objects [keeps_rules]:
  "keeps (\<lambda>w. P (cores w)) (CreateObjectPath_CIM_DataFile cfg n)"
  unfolding CreateObjectPath_CIM_DataFile_def CIM_DataFile_init_def Let_def
  by (intro keeps_rules keeps_cores_modify; simp)

lemma keeps_cores_process [keeps_rules]:
  "keeps (\<lambda>w. P (cores w)) (CreateObjectPath_CIM_Process cfg pid)"
  unfolding CreateObjectPath_CIM_Process_def CIM_Process_init_def process_environ_def process_psutil_def
    process_attributes_def process_name_def first_process_parent_def
  by (intro keeps_rules keeps_cores_modify; simp)

lemma keeps_cores_process_ops [keeps_rules]:
  "keeps (\<lambda>w. P (cores w)) (SetParentProcess p q)" "keeps (\<lambda>w. P (cores w)) (AddParentProcess p t q)"
  "keeps (\<lambda>w. P (cores w)) (WaitProcessEnd p t q)" "keeps (\<lambda>w. P (cores w)) (SetCommandLine p v)"
  "keeps (\<lambda>w. P (cores w)) (SetThread p)" "keeps (\<lambda>w. P (cores w)) (SetProcessCurrentDir p q)"
  "keeps (\<lambda>w. P (cores w)) (SetExecutable p q)" "keeps (\<lambda>w. P (cores w)) (SetIsExecuted q)"
  unfolding SetParentProcess_def AddParentProcess_def WaitProcessEnd_def SetCommandLine_def SetThread_def
    SetProcessCurrentDir_def SetExecutable_def SetIsExecuted_def
  by (intro keeps_rules)+

lemma keeps_cores_lookup [keeps_rules]:
  "keeps (\<lambda>w. P (cores w)) (GetFileAccess p q)"
  unfolding GetFileAccess_def LookupFileAccess_def FileAccess_init_def
  by (intro keeps_rules keeps_cores_modify; simp)

lemma keeps_cores_size [keeps_rules]: "keeps (\<lambda>w. P (cores w)) (access_size cfg i)"
  unfolding access_size_def by (intro keeps_rules)

lemma keeps_cores_accesses [keeps_rules]:
  "keeps (\<lambda>w. P (cores w)) (SetOpenTime cfg i t)" "keeps (\<lambda>w. P (cores w)) (SetCloseTime cfg i t)"
  "keeps (\<lambda>w. P (cores w)) (SetRead cfg i n b)" "keeps (\<lambda>w. P (cores w)) (SetWritten cfg i n b)"
  unfolding SetOpenTime_def SetCloseTime_def SetRead_def SetWritten_def AnalyseNewBuffer_def
  by (intro keeps_rules keeps_cores_modify; simp)+

lemma keeps_cores_paths [keeps_rules]:
  "keeps (\<lambda>w. P (cores w)) (ToObjectPath_CIM_Process cfg pid)"
  "keeps (\<lambda>w. P (cores w)) (ToObjectPath_CIM_DataFile cfg v pid)"
  "keeps (\<lambda>w. P (cores w)) (STraceStreamToPathname v)"
  unfolding ToObjectPath_CIM_Process_def ToObjectPath_CIM_DataFile_def STraceStreamToPathname_def
  by (intro keeps_rules keeps_case_pyval)+

lemma keeps_cores_streams [keeps_rules]:
  "keeps (\<lambda>w. P (cores w)) (STraceStreamToFile cfg c v)" "keeps (\<lambda>w. P (cores w)) (StreamName cfg c i)"
  "keeps (\<lambda>w. P (cores w)) (ToObjectPath_Accessed_CIM_DataFile cfg c v)"
  "keeps (\<lambda>w. P (cores w)) (stream_batch cfg c)" "keeps (\<lambda>w. P (cores w)) (accessed_arg i cfg c)"
  unfolding STraceStreamToFile_def StreamName_def ToObjectPath_Accessed_CIM_DataFile_def
    stream_batch_def accessed_arg_def
  by (intro keeps_rules)+

lemma keeps_cores_parts [keeps_rules]:
  "(\<And>f a. keeps (\<lambda>w. P (cores w)) (act f a)) \<Longrightarrow> keeps (\<lambda>w. P (cores w)) (stream_access cfg c act)"
  "keeps (\<lambda>w. P (cores w)) m \<Longrightarrow> keeps (\<lambda>w. P (cores w)) (ignore_ValueError m)"
  "keeps (\<lambda>w. P (cores w)) (new_child cfg c n b)" "keeps (\<lambda>w. P (cores w)) (run_executable cfg c f v)"
  "keeps (\<lambda>w. P (cores w)) (socket_address cfg c)" "keeps (\<lambda>w. P (cores w)) (pipe_ends cfg c)"
  "keeps (\<lambda>w. P (cores w)) (ArrFdNameToArrString cfg c v)"
  unfolding stream_access_def ignore_ValueError_def new_child_def run_executable_def socket_address_def
    pipe_ends_def ArrFdNameToArrString_def
  by (intro keeps_rules keeps_cores_modify; simp)+

lemma keeps_cores_handlers: "list_all (\<lambda>(n, h). keeps (\<lambda>w. P (cores w)) (h cfg c)) batch_classes"
  unfolding batch_classes_def list.pred_inject prod.case handler_defs
  by (intro conjI TrueI keeps_rules keeps_cores_modify; simp)

lemma keeps_cores_class_init [keeps_rules]: "keeps (\<lambda>w. P (cores w)) (class_init name cfg c)"
  using keeps_cores_handlers [of P cfg c] class_init_handler [of name cfg c]
  by (auto simp: list_all_iff intro: keeps_raise)

subsection \<open>The process of a call never changes\<close>

definition pids_from :: "int list \<Rightarrow> batch_core list \<Rightarrow> bool" where
  "pids_from ps cs \<longleftrightarrow> (\<exists>qs. map m_pid cs = ps @ qs)"

lemma pids_from_self: "pids_from (map m_pid cs) cs"
  by (simp add: pids_from_def)

lemma pids_from_append: "pids_from ps cs \<Longrightarrow> pids_from ps (cs @ ds)"
  by (auto simp: pids_from_def)

lemma pids_from_same: "map m_pid cs = map m_pid ds \<Longrightarrow> pids_from ps cs = pids_from ps ds"
  by (simp add: pids_from_def)

lemma pids_from_trans: "pids_from ps cs \<Longrightarrow> pids_from (map m_pid cs) ds \<Longrightarrow> pids_from ps ds"
  by (auto simp: pids_from_def)

lemma pids_from_nth:
  assumes "pids_from (map m_pid cs) ds" "i < length cs"
  shows "i < length ds \<and> m_pid (ds ! i) = m_pid (cs ! i)"
proof -
  obtain qs where q: "map m_pid ds = map m_pid cs @ qs" using assms(1) by (auto simp: pids_from_def)
  then have "length ds = length cs + length qs" by (metis length_append length_map)
  moreover have "map m_pid ds ! i = map m_pid cs ! i" unfolding q using assms(2) by (simp add: nth_append)
  ultimately show ?thesis using assms(2) by simp
qed

lemma keeps_pids_basic [keeps_rules]:
  "keeps (\<lambda>w. pids_from ps (cores w)) (new_core c)"
  by (simp add: keeps_def pids_from_append)

lemma keeps_pids_upd_core:
  assumes "\<And>c. m_pid (g c) = m_pid c"
  shows "keeps (\<lambda>w. pids_from ps (cores w)) (upd_core i g)"
proof (rule keepsI)
  fix w :: world assume p: "pids_from ps (cores w)"
  have "map m_pid ((cores w)[i := g (cores w ! i)]) = map m_pid (cores w)" if "i < length (cores w)"
    using that assms by (simp add: map_update list_update_same_conv)
  then show "pids_from ps (cores (snd (upd_core i g w)))"
    using p by (simp add: pids_from_def)
qed

lemma keeps_pids_factory_parts [keeps_rules]:
  "keeps (\<lambda>w. pids_from ps (cores w)) (BatchLetBase_init n i s)"
  "keeps (\<lambda>w. pids_from ps (cores w)) (PushBatch i)"
  "keeps (\<lambda>w. pids_from ps (cores w)) (MergePopBatch i)"
  "keeps (\<lambda>w. pids_from ps (cores w)) (make_batch cfg n i)"
  "keeps (\<lambda>w. pids_from ps (cores w)) (base_batch i)"
  unfolding BatchLetBase_init_def PushBatch_def MergePopBatch_def make_batch_def base_batch_def
  by (intro keeps_rules keeps_pids_upd_core keeps_cores_modify; simp)+

lemma keeps_pids_factory [keeps_rules]:
  "keeps (\<lambda>w. pids_from ps (cores w)) (BatchLetFactory cfg i)"
  unfolding BatchLetFactory_def unfinished_batch_def resumed_batch_def
  by (intro keeps_rules keeps_cores_modify; simp)

lemma keeps_pids_create [keeps_rules]:
  "keeps (\<lambda>w. pids_from ps (cores w)) (CreateBatchCore cfg l t)"
  unfolding CreateBatchCore_def ParseLine_def by (intro keeps_rules)

subsection \<open>A list of calls of one process\<close>

definition calls_of :: "int \<Rightarrow> batch_core list \<Rightarrow> batchlet list \<Rightarrow> bool" where
  "calls_of p cs l \<longleftrightarrow> list_all (\<lambda>b. m_core b < length cs \<and> m_pid (cs ! m_core b) = p) l"

lemma calls_of_kept: "calls_of p cs l \<Longrightarrow> pids_from (map m_pid cs) ds \<Longrightarrow> calls_of p ds l"
  using pids_from_nth [of cs ds] by (auto simp: calls_of_def list_all_iff)

lemma calls_of_sub: "calls_of p cs l \<Longrightarrow> set l' \<subseteq> set l \<Longrightarrow> calls_of p cs l'"
  by (auto simp: calls_of_def list_all_iff)

lemma calls_of_one_more: "calls_of p cs l \<Longrightarrow> j < length l \<Longrightarrow> calls_of p cs (l[j := one_more (l ! j)])"
  using set_update_subset_insert [of l j "one_more (l ! j)"]
  by (auto simp: calls_of_def list_all_iff one_more_def)

lemma calls_of_append: "calls_of p cs (xs @ ys) \<longleftrightarrow> calls_of p cs xs \<and> calls_of p cs ys"
  by (simp add: calls_of_def)

lemma calls_of_take: "calls_of p cs l \<Longrightarrow> calls_of p cs (take i l)"
  and calls_of_drop: "calls_of p cs l \<Longrightarrow> calls_of p cs (drop i l)"
  by (auto elim!: calls_of_sub dest: in_set_takeD in_set_dropD)

lemma sequence_calls:
  assumes "BatchLetSequence_init l style w = (Inr b, w')" "l \<noteq> []" "calls_of p (cores w) l"
  shows "pids_from (map m_pid (cores w)) (cores w') \<and> calls_of p (cores w') [b]"
proof -
  have "m_pid (cores w ! m_core (hd l)) = p"
    using assms(2,3) by (cases l) (simp_all add: calls_of_def)
  then show ?thesis
    using assms(1) by (auto simp: BatchLetSequence_init_def bnd_def Let_def BatchLetBase_init_def of_opt_def
        calls_of_def pids_from_def split: option.splits)
qed

lemma filter_loop_calls:
  "filter_loop l i n k w = (Inr (l', k'), w') \<Longrightarrow> calls_of p (cores w) l \<Longrightarrow>
   pids_from (map m_pid (cores w)) (cores w') \<and> calls_of p (cores w') l'"
proof (induction l i n k arbitrary: w rule: filter_loop.induct)
  case (1 l i n k)
  show ?case
  proof (cases "i < n")
    case False
    with 1 show ?thesis by (subst (asm) (3) filter_loop.simps) (simp add: pids_from_self)
  next
    case True
    obtain paired where m: "matched_pair (m_core (l ! (i - 1))) (m_core (l ! i)) w = (Inr paired, w)"
      using 1(3) True matched_pair_state [of "m_core (l ! (i - 1))" "m_core (l ! i)" w]
      by (subst (asm) filter_loop.simps) (auto simp: bnd_def split: prod.splits sum.splits)
    show ?thesis
    proof (cases paired)
      case False
      with 1(3) True m have "filter_loop l (i + 1) n k w = (Inr (l', k'), w')"
        by (subst (asm) filter_loop.simps) (simp add: bnd_def)
      from "1.IH"(2) [OF True False this 1(4)] show ?thesis .
    next
      case pair: True
      let ?l = "take (i - 1) l @ drop i l"
      obtain w1 where u: "unlink_core (m_core (l ! i)) w = (Inr (), w1)"
        and r: "filter_loop ?l (i + 1) (n - 1) (k + 1) w1 = (Inr (l', k'), w')"
        using 1(3) True m pair
        by (subst (asm) filter_loop.simps) (auto simp: bnd_def andthen_def split: prod.splits sum.splits)
      have p1: "pids_from (map m_pid (cores w)) (cores w1)"
        using keepsE [OF keeps_pids_upd_core pids_from_self u [unfolded unlink_core_def]] by simp
      have "calls_of p (cores w1) ?l"
        by (rule calls_of_sub [OF calls_of_kept [OF 1(4) p1]]) (auto dest: in_set_takeD in_set_dropD)
      from "1.IH"(1) [OF True pair r this] p1 show ?thesis by (blast intro: pids_from_trans)
    qed
  qed
qed

lemma bigrams_loop_calls:
  "bigrams_loop m l i n q k w = (Inr (l', k'), w') \<Longrightarrow> calls_of p (cores w) l \<Longrightarrow>
   n \<le> int (length l) - 1 \<Longrightarrow> (\<And>j. q = Some j \<Longrightarrow> j < i) \<Longrightarrow>
   pids_from (map m_pid (cores w)) (cores w') \<and> calls_of p (cores w') l'"
proof (induction m l i n q k arbitrary: w rule: bigrams_loop.induct)
  case (1 m l i n q k)
  let ?num = "case map_of m (bigram_key (cores w) l i) of None \<Rightarrow> 0 | Some n \<Rightarrow> n"
  note run = 1(5) and calls = 1(6) and n = 1(7) and q = 1(8)
  show ?case
  proof (cases "int i < n")
    case False
    with run calls show ?thesis by (subst (asm) bigrams_loop.simps) (simp add: pids_from_self)
  next
    case i: True
    then have il: "i + 2 \<le> length l" using n by simp
    show ?thesis
    proof (cases "5 < ?num")
      case False
      with run i have r: "bigrams_loop m l (i + 1) n None k w = (Inr (l', k'), w')"
        by (subst (asm) bigrams_loop.simps) (simp add: bnd_def Let_def)
      show ?thesis by (rule "1.IH"(4) [OF i refl False r calls n]) simp
    next
      case num: True
      from run i num obtain b w1 where b: "BatchLetSequence_init (take 2 (drop i l)) ''Rept'' w = (Inr b, w1)"
        by (subst (asm) bigrams_loop.simps) (auto simp: Let_def bnd_def split: prod.splits sum.splits)
      have "calls_of p (cores w) (take 2 (drop i l))"
        by (rule calls_of_sub [OF calls]) (auto dest: in_set_takeD in_set_dropD)
      moreover have "take 2 (drop i l) \<noteq> []" using il by simp
      ultimately have s: "pids_from (map m_pid (cores w)) (cores w1)" "calls_of p (cores w1) [b]"
        using sequence_calls [OF b] by blast+
      note kept = calls_of_kept [OF calls s(1)]
      let ?new = "take i l @ [b] @ drop (i + 2) l"
      have new: "calls_of p (cores w1) ?new"
        using s(2) kept unfolding calls_of_append by (simp add: calls_of_take calls_of_drop)
      have len: "n - 1 \<le> int (length ?new) - 1" using n il by simp
      show ?thesis
      proof (cases q)
        case None
        with run i num b have r: "bigrams_loop m ?new (i + 1) (n - 1) (Some i) (k + 1) w1 = (Inr (l', k'), w')"
          by (subst (asm) bigrams_loop.simps) (simp add: bnd_def Let_def)
        have "pids_from (map m_pid (cores w1)) (cores w') \<and> calls_of p (cores w') l'"
          by (rule "1.IH"(1) [OF i refl num None r new len]) simp
        with s(1) show ?thesis by (blast intro: pids_from_trans)
      next
        case (Some j)
        show ?thesis
        proof (cases "SameCall (cores w1) b (l ! j)")
          case False
          with run i num b Some
          have r: "bigrams_loop m ?new (i + 1) (n - 1) (Some i) (k + 1) w1 = (Inr (l', k'), w')"
            by (subst (asm) bigrams_loop.simps) (simp add: bnd_def Let_def)
          have "pids_from (map m_pid (cores w1)) (cores w') \<and> calls_of p (cores w') l'"
            by (rule "1.IH"(3) [OF i refl num Some False r new len]) simp
          with s(1) show ?thesis by (blast intro: pids_from_trans)
        next
          case True
          let ?del = "take i (l[j := one_more (l ! j)]) @ drop (i + 2) l"
          from True run i num b Some
          have r: "bigrams_loop m ?del i (n - 2) q (k + 1) w1 = (Inr (l', k'), w')"
            by (subst (asm) bigrams_loop.simps) (simp add: bnd_def Let_def)
          have "j < length l" using q [OF Some] il by simp
          then have "calls_of p (cores w1) (l[j := one_more (l ! j)])" by (rule calls_of_one_more [OF kept])
          then have del: "calls_of p (cores w1) ?del"
            using kept unfolding calls_of_append by (simp add: calls_of_take calls_of_drop)
          have "n - 2 \<le> int (length ?del) - 1" using n il by simp
          from "1.IH"(2) [OF i refl num Some True r del this q]
          have "pids_from (map m_pid (cores w1)) (cores w') \<and> calls_of p (cores w') l'" by simp
          with s(1) show ?thesis by (blast intro: pids_from_trans)
        qed
      qed
    qed
  qed
qed

lemma args_loop_calls:
  "args_loop l i j n k w = (Inr (l', k'), w') \<Longrightarrow> calls_of p (cores w) l \<Longrightarrow> n = length l \<Longrightarrow>
   pids_from (map m_pid (cores w)) (cores w') \<and> calls_of p (cores w') l'"
proof (induction l i j n k arbitrary: w rule: args_loop.induct)
  case (1 l i j n k)
  note IH = "1.IH" and run = 1(5) and calls = 1(6) and n = 1(7)
  let ?skip = "j < n \<and> m_significantArgs (l ! i) = []"
  let ?same = "j < n \<and> m_significantArgs (l ! j) = m_significantArgs (l ! i)"
  consider (stop) "\<not> j \<le> n" | (skip) "j \<le> n" ?skip | (same) "j \<le> n" "\<not> ?skip" ?same
    | (group) "j \<le> n" "\<not> ?skip" "\<not> ?same" "i + 1 < j" | (next_call) "j \<le> n" "\<not> ?skip" "\<not> ?same" "\<not> i + 1 < j"
    by blast
  then show ?case
  proof cases
    case stop
    with run calls show ?thesis by (subst (asm) args_loop.simps) (simp add: pids_from_self)
  next
    case skip
    then have "args_loop l (i + 1) (j + 1) n k w = (Inr (l', k'), w')"
      using run by (subst (asm) args_loop.simps) simp
    from IH(1) [OF skip this calls n] show ?thesis .
  next
    case same
    then have "args_loop l i (j + 1) n k w = (Inr (l', k'), w')"
      using run by (subst (asm) args_loop.simps) simp
    from IH(2) [OF same this calls n] show ?thesis .
  next
    case next_call
    then have "args_loop l (i + 1) (i + 2) n k w = (Inr (l', k'), w')"
      using run by (subst (asm) args_loop.simps) (simp only: if_True if_False)
    from IH(4) [OF next_call this calls n] show ?thesis .
  next
    case group
    have eq: "args_loop l i j n k = bnd (BatchLetSequence_init (drop i (take j l)) ''Args'') (\<lambda>b.
        args_loop (take i l @ [b] @ drop j l) (i + 1) (i + 2) (n - (j - i - 1)) (k + 1))"
      using group by (subst args_loop.simps) (simp only: if_True if_False)
    obtain b w1 where b: "BatchLetSequence_init (drop i (take j l)) ''Args'' w = (Inr b, w1)"
      and r: "args_loop (take i l @ [b] @ drop j l) (i + 1) (i + 2) (n - (j - i - 1)) (k + 1) w1 = (Inr (l', k'), w')"
      using run unfolding eq by (auto simp: bnd_def split: prod.splits sum.splits)
    have ne: "drop i (take j l) \<noteq> []" using group n by simp
    have "calls_of p (cores w) (drop i (take j l))" using calls by (simp add: calls_of_take calls_of_drop)
    then have s: "pids_from (map m_pid (cores w)) (cores w1)" "calls_of p (cores w1) [b]"
      using sequence_calls [OF b ne] by blast+
    have "calls_of p (cores w1) (take i l @ [b] @ drop j l)"
      using s(2) calls_of_kept [OF calls s(1)] unfolding calls_of_append
      by (simp add: calls_of_take calls_of_drop)
    from IH(3) [OF group r this] group n s(1) show ?thesis by (simp add: pids_from_trans)
  qed
qed

lemma cluster_calls:
  "cluster_until_stable ClusterizeBigrams fuel l w = (Inr (Some l'), w') \<Longrightarrow> calls_of p (cores w) l \<Longrightarrow>
   pids_from (map m_pid (cores w)) (cores w') \<and> calls_of p (cores w') l'"
proof (induction fuel arbitrary: l w)
  case (Suc fuel)
  from Suc.prems(1) obtain l1 n w1 where c: "ClusterizeBigrams l w = (Inr (l1, n), w1)"
    and r: "(if n = 0 then ret (Some l1) else cluster_until_stable ClusterizeBigrams fuel l1) w1 = (Inr (Some l'), w')"
    by (auto simp: bnd_def split: prod.splits sum.splits)
  from c have "bigrams_loop (StatisticsBigrams (cores w) l) l 0 (int (length l) - 1) None 0 w = (Inr (l1, n), w1)"
    by (simp add: ClusterizeBigrams_def bnd_def)
  from bigrams_loop_calls [OF this Suc.prems(2)]
  have s: "pids_from (map m_pid (cores w)) (cores w1)" "calls_of p (cores w1) l1" by simp_all
  show ?case
  proof (cases "n = 0")
    case True
    with r s show ?thesis by simp
  next
    case False
    with r have "cluster_until_stable ClusterizeBigrams fuel l1 w1 = (Inr (Some l'), w')" by simp
    from Suc.IH [OF this s(2)] s(1) show ?thesis by (blast intro: pids_from_trans)
  qed
qed simp

lemma Factorize_calls:
  assumes "FactorizeOneFlow l w = (Inr (Some l'), w')" "calls_of p (cores w) l"
  shows "pids_from (map m_pid (cores w)) (cores w') \<and> calls_of p (cores w') l'"
proof -
  from assms(1) obtain l1 k w1 l2 w2 k3 where f: "FilterMatchedBatches l w = (Inr (l1, k), w1)"
    and c: "cluster_until_stable ClusterizeBigrams (Suc (length l1)) l1 w1 = (Inr (Some l2), w2)"
    and a: "ClusterizeBatchesByArguments l2 w2 = (Inr (l', k3), w')"
    by (auto simp: FactorizeOneFlow_def bnd_def simp del: cluster_until_stable.simps
        split: prod.splits sum.splits option.splits)
  note s1 = filter_loop_calls [OF f [unfolded FilterMatchedBatches_def] assms(2)]
  note s2 = cluster_calls [OF c, of p]
  note s3 = args_loop_calls [OF a [unfolded ClusterizeBatchesByArguments_def], of p]
  from s1 s2 s3 show ?thesis by (blast intro: pids_from_trans)
qed

subsection \<open>The flows of a run\<close>

definition flows_ok :: "batch_core list \<Rightarrow> flow_map \<Rightarrow> bool" where
  "flows_ok cs m \<longleftrightarrow> distinct (map fst m) \<and>
     (\<forall>(p, f) \<in> set m. calls_of p cs (m_listBatchLets f) \<and> flow_synced f)"

lemma flows_ok_kept: "flows_ok cs m \<Longrightarrow> pids_from (map m_pid cs) ds \<Longrightarrow> flows_ok ds m"
  using calls_of_kept [of _ cs _ ds] by (auto simp: flows_ok_def)

lemma flows_ok_update:
  assumes "flows_ok cs m" "calls_of p cs (m_listBatchLets f)" "flow_synced f"
  shows "flows_ok cs (AList.update p f m)"
proof -
  have "distinct (map fst (AList.update p f m))"
    using assms(1) by (simp add: flows_ok_def distinct_update)
  moreover have "calls_of q cs (m_listBatchLets g) \<and> flow_synced g" if "(q, g) \<in> set (AList.update p f m)" for q g
  proof -
    have "(q, g) = (p, f) \<or> (q, g) \<in> set m" using that set_update_subset [of p f m] by blast
    then show ?thesis using assms by (auto simp: flows_ok_def)
  qed
  ultimately show ?thesis unfolding flows_ok_def by blast
qed

lemma flows_ok_at:
  assumes "flows_ok cs m" "map_of m p = Some f"
  shows "calls_of p cs (m_listBatchLets f)" "flow_synced f"
proof -
  have "(p, f) \<in> set m" using assms(2) by (rule map_of_SomeD)
  then show "calls_of p cs (m_listBatchLets f)" "flow_synced f" using assms(1) by (auto simp: flows_ok_def)
qed

lemma calls_of_AddBatch:
  "calls_of p cs l \<Longrightarrow> calls_of p cs [b] \<Longrightarrow> calls_of p cs (AddBatch cs b l)"
  by (cases l rule: rev_cases) (auto simp: AddBatch_def calls_of_def one_more_def)

lemma dispatch_ok:
  assumes "dispatch_batch b m w = (Inr m', w')" "flows_ok (cores w) m"
  shows "w' = w \<and> flows_ok (cores w) m'"
proof -
  let ?p = "m_pid (cores w ! m_core b)"
  let ?f = "case map_of m ?p of None \<Rightarrow> BatchFlow_init | Some f \<Rightarrow> f"
  have b: "m_core b < length (cores w)" and m': "w' = w" "m' = AList.update ?p (SendBatch (cores w) b ?f) m"
    using assms(1) by (auto simp: dispatch_batch_def bnd_def Let_def split: if_splits)
  have f: "calls_of ?p (cores w) (m_listBatchLets ?f)" "flow_synced ?f"
    using flows_ok_at [OF assms(2)]
    by (auto simp: BatchFlow_init_def calls_of_def flow_synced_def split: option.splits)
  have "calls_of ?p (cores w) [b]" using b by (simp add: calls_of_def)
  then have "calls_of ?p (cores w) (m_listBatchLets (SendBatch (cores w) b ?f))"
    using SendBatch_AddBatch [OF f(2), of "cores w" b] calls_of_AddBatch [OF f(1)] by simp
  then show ?thesis
    using flows_ok_update [OF assms(2)] SendBatch_AddBatch [OF f(2), of "cores w" b] m' by blast
qed

lemma keeps_pids_parse [keeps_rules]:
  "keeps (\<lambda>w. pids_from ps (cores w)) (parse_or_previous cfg t n l i)"
  unfolding parse_or_previous_def by (intro keeps_rules)

lemma flows_loop_ok:
  "CreateFlowsFromGenericLinuxLog cfg tracer dispatch_batch ls n core t m w = (Inr m', w') \<Longrightarrow>
   flows_ok (cores w) m \<Longrightarrow> flows_ok (cores w') m'"
proof (induction "length ls" arbitrary: ls n core t m w rule: less_induct)
  case less
  obtain l n' rest where rr: "read_record ls [] n = (l, n', rest)" by (metis prod_cases3)
  show ?case
  proof (cases "l = []")
    case True
    with less.prems rr show ?thesis
      by (subst (asm) CreateFlowsFromGenericLinuxLog.simps)
        (auto simp: andthen_def bnd_def GlobalTerminationDate_def split: option.splits if_splits)
  next
    case False
    then have short: "length rest < length ls" using read_record_shorter [OF rr] by auto
    have step: "CreateFlowsFromGenericLinuxLog cfg tracer dispatch_batch ls n core t m =
        bnd (parse_or_previous cfg tracer n' l core) (\<lambda>core. case core of
          None \<Rightarrow> CreateFlowsFromGenericLinuxLog cfg tracer dispatch_batch rest n' None t m
        | Some i \<Rightarrow> bnd (get_core i) (\<lambda>c. bnd (BatchLetFactory cfg i) (\<lambda>aBatch.
            bnd (case aBatch of None \<Rightarrow> ret m | Some b \<Rightarrow> dispatch_batch b m) (\<lambda>m'.
            CreateFlowsFromGenericLinuxLog cfg tracer dispatch_batch rest n' (Some i) (Some (m_timeEnd c)) m'))))"
      by (subst CreateFlowsFromGenericLinuxLog.simps) (simp only: rr prod.case False if_False)
    from less.prems(1) obtain core1 w1 where p: "parse_or_previous cfg tracer n' l core w = (Inr core1, w1)"
      unfolding step by (auto simp: bnd_def split: prod.splits sum.splits)
    have k1: "pids_from (map m_pid (cores w)) (cores w1)" using keepsE [OF keeps_pids_parse pids_from_self p] .
    note ok1 = flows_ok_kept [OF less.prems(2) k1]
    show ?thesis
    proof (cases core1)
      case None
      with less.prems(1) p have "CreateFlowsFromGenericLinuxLog cfg tracer dispatch_batch rest n' None t m w1 = (Inr m', w')"
        unfolding step by (simp add: bnd_def)
      from less.hyps [OF short this ok1] show ?thesis .
    next
      case (Some i)
      from less.prems(1) p Some obtain b w2 m2 w3 where
        f: "BatchLetFactory cfg i w1 = (Inr b, w2)" and
        d: "(case b of None \<Rightarrow> ret m | Some b \<Rightarrow> dispatch_batch b m) w2 = (Inr m2, w3)" and
        r: "CreateFlowsFromGenericLinuxLog cfg tracer dispatch_batch rest n' (Some i)
            (Some (m_timeEnd (cores w1 ! i))) m2 w3 = (Inr m', w')"
        unfolding step by (auto simp: bnd_def split: prod.splits sum.splits if_splits)
      have "pids_from (map m_pid (cores w1)) (cores w2)" using keepsE [OF keeps_pids_factory pids_from_self f] .
      note ok2 = flows_ok_kept [OF ok1 this]
      have "flows_ok (cores w3) m2"
      proof (cases b)
        case (Some x)
        with d have "dispatch_batch x m w2 = (Inr m2, w3)" by simp
        from dispatch_ok [OF this ok2] show ?thesis by simp
      qed (use d ok2 in simp)
      from less.hyps [OF short r this] show ?thesis .
    qed
  qed
qed

text \<open>After the factorisation the coroutines have ended.\<close>

definition flow_calls :: "batch_core list \<Rightarrow> flow_map \<Rightarrow> bool" where
  "flow_calls cs m \<longleftrightarrow> distinct (map fst m) \<and> (\<forall>(p, f) \<in> set m. calls_of p cs (m_listBatchLets f))"

lemma flow_calls_weak: "flows_ok cs m \<Longrightarrow> flow_calls cs m"
  by (auto simp: flows_ok_def flow_calls_def)

lemma factorize_pid_ok:
  assumes "factorize_pid p m w = (Inr m', w')" "flow_calls (cores w) m"
  shows "flow_calls (cores w') m'"
proof -
  from assms(1) obtain f l where f: "map_of m p = Some f"
    "FactorizeOneFlow (m_listBatchLets f) w = (Inr (Some l), w')" "m' = AList.update p (f\<lparr>m_listBatchLets := l\<rparr>) m"
    by (auto simp: factorize_pid_def bnd_def split: option.splits prod.splits sum.splits)
  have "(p, f) \<in> set m" using f(1) by (rule map_of_SomeD)
  then have "calls_of p (cores w) (m_listBatchLets f)" using assms(2) by (auto simp: flow_calls_def)
  from Factorize_calls [OF f(2) this]
  have k: "pids_from (map m_pid (cores w)) (cores w')" "calls_of p (cores w') l" by blast+
  have "calls_of q (cores w') (m_listBatchLets g)" if "(q, g) \<in> set m'" for q g
  proof -
    have "(q, g) = (p, f\<lparr>m_listBatchLets := l\<rparr>) \<or> (q, g) \<in> set m"
      using that set_update_subset [of p "f\<lparr>m_listBatchLets := l\<rparr>" m] unfolding f(3) by blast
    then show ?thesis using k assms(2) calls_of_kept by (auto simp: flow_calls_def)
  qed
  moreover have "distinct (map fst m')" using assms(2) by (simp add: f(3) flow_calls_def distinct_update)
  ultimately show ?thesis unfolding flow_calls_def by blast
qed

lemma factorize_all_ok:
  "factorize_all ps m w = (Inr m', w') \<Longrightarrow> flow_calls (cores w) m \<Longrightarrow> flow_calls (cores w') m'"
proof (induction ps arbitrary: m w)
  case (Cons p ps)
  from Cons.prems(1) obtain m1 w1 where p: "factorize_pid p m w = (Inr m1, w1)"
    and r: "factorize_all ps m1 w1 = (Inr m', w')"
    by (auto simp: bnd_def split: prod.splits sum.splits)
  from Cons.IH [OF r factorize_pid_ok [OF p Cons.prems(2)]] show ?case .
qed simp

lemma flows_run_ok:
  assumes "CreateMapFlowFromStream cfg tracer ls w = (Inr m, w')"
  shows "flow_calls (cores w') m"
proof -
  from assms obtain w1 m1 w2 where
    l: "CreateFlowsFromGenericLinuxLog cfg tracer dispatch_batch ls 0 None None [] w1 = (Inr m1, w2)"
    and f: "factorize_all (sorted_pids m1) m1 w2 = (Inr m, w')"
    by (auto simp: CreateMapFlowFromStream_def andthen_def bnd_def split: if_splits prod.splits sum.splits)
  have "flows_ok (cores w1) []" by (simp add: flows_ok_def)
  from factorize_all_ok [OF f flow_calls_weak [OF flows_loop_ok [OF l this]]] show ?thesis .
qed

end
