(* ===== verification/StreamProps.thy ===== *)
theory StreamProps
  imports CoresProps ObjectProps
begin

text \<open>
  What a whole run over a log guarantees, whatever the log holds: the objects are consistent at its
  end, also when it raises, the flow of a process holds the calls of this process only, and no line of
  the log is lost when lines are joined into calls.
\<close>

subsection \<open>The invariant of the objects over a run\<close>

definition no_objects :: "world \<Rightarrow> bool" where
  "no_objects w \<longleftrightarrow> procs w = [] \<and> files w = [] \<and> accesses w = [] \<and> G_cacheFileAccesses w = []"

lemma wf_no_objects: "no_objects w \<Longrightarrow> wf_world w"
  by (simp add: no_objects_def wf_world_def wf_defs proc_at_def file_at_def cached_access_def)

lemma keeps_no_objects_globals: "keeps no_objects (InitGlobals cfg)"
  unfolding InitGlobals_def create_other_def CIM_ComputerSystem_init_def CIM_OperatingSystem_init_def
    CIM_NetworkAdapter_init_def Let_def
  by (intro keeps_rules keeps_modify; simp add: no_objects_def procs_def files_def)

lemma keeps_wf_unlink [keeps_rules]: "keeps wf_world (unlink_core i)"
  unfolding unlink_core_def by (intro keeps_rules)

lemma keeps_wf_matched [keeps_rules]: "keeps I (matched_pair i j)"
  using matched_pair_state [of i j] by (simp add: keeps_def)

lemma keeps_wf_filter [keeps_rules]: "keeps wf_world (filter_loop l i n k)"
proof (induction l i n k rule: filter_loop.induct)
  case (1 l i n k)
  then show ?case by (subst filter_loop.simps) (intro keeps_rules; simp)
qed

lemma keeps_wf_sequence [keeps_rules]: "keeps wf_world (BatchLetSequence_init l s)"
  unfolding BatchLetSequence_init_def Let_def by (intro keeps_rules)

lemma keeps_wf_bigrams [keeps_rules]: "keeps wf_world (bigrams_loop m l i n p k)"
proof (induction m l i n p k rule: bigrams_loop.induct)
  case (1 m l i n p k)
  then show ?case by (subst bigrams_loop.simps) (intro keeps_rules; simp)
qed

lemma keeps_wf_args [keeps_rules]: "keeps wf_world (args_loop l i j n k)"
proof (induction l i j n k rule: args_loop.induct)
  case (1 l i j n k)
  then show ?case by (subst args_loop.simps) (intro keeps_rules; simp)
qed

lemma keeps_wf_cluster [keeps_rules]: "keeps wf_world (cluster_until_stable ClusterizeBigrams fuel l)"
  by (induction fuel arbitrary: l) (auto intro!: keeps_rules simp: ClusterizeBigrams_def)

lemma keeps_wf_factorize [keeps_rules]: "keeps wf_world (factorize_all ps m)"
  by (induction ps arbitrary: m)
    (auto intro!: keeps_rules simp: factorize_pid_def FactorizeOneFlow_def FilterMatchedBatches_def
      ClusterizeBatchesByArguments_def simp del: cluster_until_stable.simps)

lemma keeps_wf_parse [keeps_rules]: "keeps wf_world (parse_or_previous cfg t n l i)"
  unfolding parse_or_previous_def by (intro keeps_rules)

lemma keeps_wf_dispatch [keeps_rules]: "keeps wf_world (dispatch_batch b m)"
  unfolding dispatch_batch_def Let_def by (intro keeps_rules)

lemma keeps_wf_flows [keeps_rules]:
  "keeps wf_world (CreateFlowsFromGenericLinuxLog cfg tracer dispatch_batch ls n core t m)"
proof (induction "length ls" arbitrary: ls n core t m rule: less_induct)
  case less
  obtain l n' rest where rr: "read_record ls [] n = (l, n', rest)" by (metis prod_cases3)
  show ?case
  proof (cases "l = []")
    case True
    show ?thesis
      by (subst CreateFlowsFromGenericLinuxLog.simps, simp only: rr prod.case True if_True)
        (intro keeps_rules keeps_modify wf_GlobalTerminationDate; simp)
  next
    case False
    then have short: "length rest < length ls" using read_record_shorter [OF rr] by auto
    show ?thesis
      by (subst CreateFlowsFromGenericLinuxLog.simps, simp only: rr prod.case False if_False)
        (intro keeps_rules less [OF short])
  qed
qed

lemma andthen_ends: "I (snd (m s)) \<Longrightarrow> keeps I n \<Longrightarrow> I (snd (andthen m n s))"
  by (cases "m s") (auto simp: andthen_def bnd_def keeps_def split: sum.splits)

lemma run_wf:
  assumes "G_cacheFileAccesses w = []"
  shows "wf_world (snd (CreateMapFlowFromStream cfg tracer ls w))"
proof -
  let ?reset = "\<lambda>w. w\<lparr>m_mapStacks := [], cache_procs := None, cache_files := None, other_objects := [],
    accesses := [], cores := []\<rparr>"
  have e: "InitGlobals cfg w = InitGlobals cfg (?reset w)"
    by (simp add: InitGlobals_def andthen_def bnd_def)
  have "no_objects (?reset w)" using assms by (simp add: no_objects_def procs_def files_def)
  then have "wf_world (snd (InitGlobals cfg w))"
    unfolding e by (intro wf_no_objects keepsD [OF keeps_no_objects_globals])
  moreover have "keeps wf_world (if tracer = strace \<or> tracer = ltrace then
        bnd (CreateFlowsFromGenericLinuxLog cfg tracer dispatch_batch ls 0 None None []) (\<lambda>mapFlows.
        factorize_all (sorted_pids mapFlows) mapFlows)
      else if tracer = ''cdb'' then raise (PyException ''Not implemented yet'')
      else raise (PyException ''Unknown tracer''))"
    by (intro keeps_rules)
  ultimately show ?thesis unfolding CreateMapFlowFromStream_def by (rule andthen_ends)
qed

subsection \<open>The lines of a call\<close>

definition ends_call :: "string \<Rightarrow> bool" where
  "ends_call l \<longleftrightarrow> l = [] \<or> IsLogEnding l"

text \<open>The lines up to the first one that ends a call, without their newlines but for the last.\<close>

definition joined_record :: "string list \<Rightarrow> string \<times> nat \<times> string list" where
  "joined_record ls =
     (let pre = takeWhile (\<lambda>l. \<not> ends_call l) ls
      in case dropWhile (\<lambda>l. \<not> ends_call l) ls of
           [] \<Rightarrow> (concat (map butlast pre), Suc (length pre), [])
         | x # rest \<Rightarrow> (concat (map butlast pre) @ x, Suc (length pre), rest))"

lemma read_record_spec:
  "read_record ls acc n = (case joined_record ls of (l, k, rest) \<Rightarrow> (acc @ l, n + k, rest))"
proof (induction ls acc n rule: read_record.induct)
  case (2 x ls acc n)
  show ?case
  proof (cases "ends_call x")
    case False
    then have "read_record (x # ls) acc n = read_record ls (acc @ butlast x) (Suc n)"
      by (simp add: ends_call_def)
    moreover have "joined_record (x # ls) = (case joined_record ls of (l, k, rest) \<Rightarrow> (butlast x @ l, Suc k, rest))"
      using False by (cases "dropWhile (\<lambda>l. \<not> ends_call l) ls")
        (simp_all add: joined_record_def Let_def del: dropWhile_eq_Nil_conv)
    ultimately show ?thesis using 2 False by (simp add: ends_call_def split: prod.split)
  qed (auto simp: joined_record_def ends_call_def Let_def)
qed (simp add: joined_record_def)

subsection \<open>Properties\<close>

text \<open>
  C1. At the end of a run over any log, with any tracer and any answers of the machine, and also when the
  run raises, the objects are consistent: one object for each key, each parent lists its children, each
  access is in the list of its process and in the list of its file, once, and the cache of the open
  accesses refers to accesses of the right process and file.
\<close>

theorem objects_consistent: "wf_world (snd (CreateMapFlowFromStream cfg tracer ls empty_world))"
  by (rule run_wf) (simp add: empty_world_def)

text \<open>
  C2. When a run returns the flows, each process has one flow, and the flow of a process holds calls of
  this process only, also after the calls were counted, filtered and grouped.
\<close>

theorem flows_by_process:
  "case CreateMapFlowFromStream cfg tracer ls w of
     (Inl e, w') \<Rightarrow> True
   | (Inr m, w') \<Rightarrow> distinct (map fst m) \<and>
       list_all (\<lambda>(pid, f). list_all (\<lambda>b. m_core b < length (cores w') \<and> m_pid (cores w' ! m_core b) = pid)
         (m_listBatchLets f)) m"
  using flows_run_ok [of cfg tracer ls w]
  by (auto simp: flow_calls_def calls_of_def list_all_iff split: prod.split sum.split)

text \<open>
  \<^verbatim>\<open>read_record\<close> joins exactly the lines up to the first one that ends a call: it drops the
  newlines between them and nothing else, counts the lines, and leaves the rest of the log.
\<close>

theorem lines_joined:
  "read_record ls [] n = (case joined_record ls of (l, k, rest) \<Rightarrow> (l, n + k, rest))"
  by (simp add: read_record_spec)

text \<open>
  \<^verbatim>\<open>GlobalTerminationDate\<close> gives each process an end: the processes without a date take the given
  one, those that have a date keep it, no process appears or disappears, and nothing else of a process
  changes.
\<close>

theorem global_termination:
  assumes "timeEnd \<noteq> []"
  shows "\<forall>k. case (proc_at w k, proc_at (GlobalTerminationDate timeEnd w) k) of
      (None, None) \<Rightarrow> True
    | (Some p, Some q) \<Rightarrow> \<not> no_text (TerminationDate q) \<and>
        q = p\<lparr>TerminationDate := (if no_text (TerminationDate p) then Some timeEnd else TerminationDate p)\<rparr>
    | _ \<Rightarrow> False"
proof
  fix k
  have m: "map_of (map (\<lambda>(k, p). (k, g p)) l) k = map_option g (map_of l k)" for g l and k :: objpath
    by (induction l) auto
  have "proc_at (GlobalTerminationDate timeEnd w) k = map_option (\<lambda>p.
      if no_text (TerminationDate p) then p\<lparr>TerminationDate := Some timeEnd\<rparr> else p) (proc_at w k)"
    by (simp add: GlobalTerminationDate_def proc_at_def procs_def m split: option.split)
  then show "case (proc_at w k, proc_at (GlobalTerminationDate timeEnd w) k) of
      (None, None) \<Rightarrow> True
    | (Some p, Some q) \<Rightarrow> \<not> no_text (TerminationDate q) \<and>
        q = p\<lparr>TerminationDate := (if no_text (TerminationDate p) then Some timeEnd else TerminationDate p)\<rparr>
    | _ \<Rightarrow> False"
    using assms by (auto simp: no_text_def split: option.split)
qed

theorem global_termination_witness:
  "\<forall>k. case (proc_at (empty_world\<lparr>cache_procs := Some [(proc_path 7, new_process 7)]\<rparr>) k,
      proc_at (GlobalTerminationDate ''10:00:00'' (empty_world\<lparr>cache_procs := Some [(proc_path 7, new_process 7)]\<rparr>)) k) of
      (None, None) \<Rightarrow> True
    | (Some p, Some q) \<Rightarrow> \<not> no_text (TerminationDate q) \<and>
        q = p\<lparr>TerminationDate := (if no_text (TerminationDate p) then Some ''10:00:00'' else TerminationDate p)\<rparr>
    | _ \<Rightarrow> False"
  by (rule global_termination) simp

end
