(* ===== verification/Triples.thy ===== *)
theory Triples
  imports PyBase
begin

text \<open>
  The triples in JSON that dockit sends to an agent and that the agent keeps: a subject, a predicate and
  an object. The subject is a moniker, a dictionary with the class and the keys of an object of CIM; the
  object is a moniker or a literal. The values of a dictionary are literals, and a literal is a text, an
  integer, a boolean or null, or a list of these.
\<close>

datatype jlit = JText string | JInt int | JBool bool | JNull
datatype jnode = JLit jlit | JArr "jlit list" | JObj "(string \<times> jlit) list"

text \<open>\<^verbatim>\<open>str\<close> of a literal.\<close>

fun jlit_text :: "jlit \<Rightarrow> string" where
  "jlit_text (JText s) = s"
| "jlit_text (JInt i) = py_str_int i"
| "jlit_text (JBool b) = (if b then ''True'' else ''False'')"
| "jlit_text JNull = ''None''"

record event =
  ev_subject :: "jnode option"
  ev_predicate :: "string option"
  ev_object :: "jnode option"

end
