(* ===== verification/Updates.thy ===== *)
theory Updates
  imports Triples
begin

text \<open>
  The updates that dockit sends to the agent given by its option \<^verbatim>\<open>--server\<close>: \<^verbatim>\<open>HttpTriplesClient\<close>, and
  \<^verbatim>\<open>__setattr__\<close> of the base class of the objects of CIM, which sends a triple for each attribute that
  changes. An object is named by its object path; its attributes are in the order in which they were
  first set. The keys of an object are literals, and the texts are in UTF-8, as \<^verbatim>\<open>json.dumps\<close> requires.
\<close>

subsection \<open>The client\<close>

text \<open>
  The thread of the client wakes up every two seconds. \<open>strToSend\<close> is the list that it has taken and is
  about to post (empty when it sleeps), \<open>m_posted\<close> the bodies that reached the server. An exception of
  \<^verbatim>\<open>urlopen\<close> ends the thread.
\<close>

record http_client =
  m_listTriples :: "event list"
  m_valid :: bool
  thread_alive :: bool
  strToSend :: "event list"
  m_posted :: "event list list"

definition HttpTriplesClient_init :: http_client where
  "HttpTriplesClient_init =
     \<lparr>m_listTriples = [], m_valid = True, thread_alive = True, strToSend = [], m_posted = []\<rparr>"

definition may_send :: "string option \<Rightarrow> http_client \<Rightarrow> bool" where
  "may_send G_UpdateServer c \<longleftrightarrow> m_valid c \<and> G_UpdateServer \<noteq> None \<and> G_UpdateServer \<noteq> Some []"

definition append_triple :: "event \<Rightarrow> http_client \<Rightarrow> http_client" where
  "append_triple jsonTriple c = c\<lparr>m_listTriples := m_listTriples c @ [jsonTriple]\<rparr>"

definition AddDataToSend :: "string option \<Rightarrow> event \<Rightarrow> http_client \<Rightarrow> http_client" where
  "AddDataToSend G_UpdateServer jsonTriple c =
     (if may_send G_UpdateServer c then append_triple jsonTriple c else c)"

text \<open>The two halves of an iteration of \<^verbatim>\<open>run\<close>: under the lock, and the request.\<close>

definition take_triples :: "http_client \<Rightarrow> http_client" where
  "take_triples c = c\<lparr>strToSend := m_listTriples c, m_listTriples := []\<rparr>"

text \<open>A request may fail before or after the server has received its body.\<close>

datatype http_outcome = Answered | ReceivedOnly | NotReceived

definition post_triples :: "http_outcome \<Rightarrow> http_client \<Rightarrow> http_client" where
  "post_triples r c =
     (if strToSend c = [] then c
      else c\<lparr>strToSend := [],
             m_posted := (if r = NotReceived then m_posted c else m_posted c @ [strToSend c]),
             m_valid := (r = Answered \<and> m_valid c),
             thread_alive := (r = Answered \<and> thread_alive c)\<rparr>)"

definition run_once :: "http_outcome \<Rightarrow> http_client \<Rightarrow> http_client" where
  "run_once r c = (if thread_alive c then post_triples r (take_triples c) else c)"

subsection \<open>The attributes of an object\<close>

datatype attr_val = ALit jlit | AList "jlit list" | ADict "(string \<times> jlit) list" | AObject string

record cim_object =
  cim_class :: string
  cim_attrs :: "(string \<times> attr_val) list"

record updates =
  cim_objects :: "(string \<times> cim_object) list"
  G_httpClient :: http_client

text \<open>The attributes that are data; the methods of a class are never set.\<close>

definition IsCIM :: "string \<Rightarrow> bool" where
  "IsCIM attr \<longleftrightarrow> \<not> startswith attr ''__'' \<and> \<not> startswith attr ''m_''"

text \<open>The class attributes \<^verbatim>\<open>m_Ontology\<close>.\<close>

definition m_Ontology :: "string \<Rightarrow> string list" where
  "m_Ontology cls =
     (if cls = ''CIM_Process'' then [''Handle'']
      else if cls \<in> set [''CIM_ComputerSystem'', ''CIM_NetworkAdapter'', ''CIM_DataFile''] then [''Name'']
      else [])"

text \<open>
  \<^verbatim>\<open>==\<close>: a boolean is equal to the integer that it stands for, dictionaries may differ in their order, an
  object is equal to itself only.
\<close>

definition jlit_num :: "jlit \<Rightarrow> int option" where
  "jlit_num l = (case l of JInt i \<Rightarrow> Some i | JBool b \<Rightarrow> Some (if b then 1 else 0) | _ \<Rightarrow> None)"

definition jlit_eq :: "jlit \<Rightarrow> jlit \<Rightarrow> bool" where
  "jlit_eq x y \<longleftrightarrow> x = y \<or> (jlit_num x \<noteq> None \<and> jlit_num x = jlit_num y)"

definition dict_le :: "(string \<times> jlit) list \<Rightarrow> (string \<times> jlit) list \<Rightarrow> bool" where
  "dict_le d e \<longleftrightarrow>
     list_all (\<lambda>k. case (map_of d k, map_of e k) of (Some x, Some y) \<Rightarrow> jlit_eq x y | _ \<Rightarrow> False) (map fst d)"

fun attr_eq :: "attr_val \<Rightarrow> attr_val \<Rightarrow> bool" where
  "attr_eq (ALit x) (ALit y) = jlit_eq x y"
| "attr_eq (AList xs) (AList ys) = list_all2 jlit_eq xs ys"
| "attr_eq (ADict d) (ADict e) = (dict_le d e \<and> dict_le e d)"
| "attr_eq (AObject p) (AObject q) = (p = q)"
| "attr_eq _ _ = False"

text \<open>A key that is no literal is not a state of the program; it is a TypeError here.\<close>

definition get_object :: "string \<Rightarrow> (updates, cim_object) py" where
  "get_object p = bnd (gets cim_objects) (\<lambda>os. of_opt NameError (map_of os p))"

definition object_key :: "cim_object \<Rightarrow> string \<Rightarrow> (string \<times> jlit) pyres" where
  "object_key x k =
     (case map_of (cim_attrs x) k of
        None \<Rightarrow> Inl AttributeError
      | Some (ALit l) \<Rightarrow> Inr (k, l)
      | Some _ \<Rightarrow> Inl TypeError)"

definition GetMonikerSurvol :: "string \<Rightarrow> (updates, (string \<times> jlit) list) py" where
  "GetMonikerSurvol p =
     bnd (get_object p) (\<lambda>x.
     bnd (for_each (m_Ontology (cim_class x)) (\<lambda>k. of_res (object_key x k))) (\<lambda>kvs.
       ret ((''entity_type'', JText (cim_class x)) # kvs)))"

definition HttpUpdateRequest ::
    "string option \<Rightarrow> (string \<times> jlit) list \<Rightarrow> string \<Rightarrow> jnode \<Rightarrow> (updates, unit) py" where
  "HttpUpdateRequest G_UpdateServer subject predicate object =
     modify (\<lambda>s. s\<lparr>G_httpClient := AddDataToSend G_UpdateServer
       \<lparr>ev_subject = Some (JObj subject), ev_predicate = Some predicate, ev_object = Some object\<rparr>
       (G_httpClient s)\<rparr>)"

text \<open>The value of an attribute as JSON; an object is sent as its moniker.\<close>

definition attr_json :: "attr_val \<Rightarrow> (updates, jnode) py" where
  "attr_json v =
     (case v of
        ALit l \<Rightarrow> ret (JLit l)
      | AList ls \<Rightarrow> ret (JArr ls)
      | ADict d \<Rightarrow> ret (JObj d)
      | AObject q \<Rightarrow> bnd (GetMonikerSurvol q) (\<lambda>m. ret (JObj m)))"

text \<open>The old object is sent with the same predicate as the new one: \<^verbatim>\<open>attrNamDelete\<close> is not used.\<close>

definition SendUpdateToServer ::
    "string option \<Rightarrow> string \<Rightarrow> string \<Rightarrow> attr_val \<Rightarrow> attr_val \<Rightarrow> (updates, unit) py" where
  "SendUpdateToServer G_UpdateServer p attrNam oldAttrVal attrVal =
     bnd (GetMonikerSurvol p) (\<lambda>theSubjMoniker.
     bnd (case oldAttrVal of
            AObject q \<Rightarrow>
              bnd (GetMonikerSurvol q) (\<lambda>objMonikerOld.
                HttpUpdateRequest G_UpdateServer theSubjMoniker attrNam (JObj objMonikerOld))
          | _ \<Rightarrow> ret ()) (\<lambda>_.
     bnd (attr_json attrVal) (\<lambda>objJson.
       HttpUpdateRequest G_UpdateServer theSubjMoniker attrNam objJson)))"

definition py_setattr :: "string option \<Rightarrow> string \<Rightarrow> string \<Rightarrow> attr_val \<Rightarrow> (updates, unit) py" where
  "py_setattr G_UpdateServer p attrNam attrVal =
     bnd (get_object p) (\<lambda>x.
     let oldAttrVal = (case map_of (cim_attrs x) attrNam of None \<Rightarrow> ALit JNull | Some v \<Rightarrow> v)
     in bnd (modify (\<lambda>s. s\<lparr>cim_objects :=
               AList.update p (x\<lparr>cim_attrs := AList.update attrNam attrVal (cim_attrs x)\<rparr>) (cim_objects s)\<rparr>)) (\<lambda>_.
          if G_UpdateServer \<noteq> None \<and> G_UpdateServer \<noteq> Some [] \<and>
             \<not> attr_eq oldAttrVal attrVal \<and> IsCIM attrNam
          then SendUpdateToServer G_UpdateServer p attrNam oldAttrVal attrVal
          else ret ()))"

end
