(* ===== verification/Summary.thy ===== *)
theory Summary
  imports Stream Updates
begin

text \<open>
  The summaries of a run, as text or as XML: the attributes of an object
  (\<^verbatim>\<open>CIM_XmlMarshaller.PlainToXML\<close>), the accesses to the files, the tree of the processes and the
  files by category. A writer returns what it writes; when it raises, what it had written is not
  kept.

  A Python set is listed in the order in which its elements were added.
\<close>

subsection \<open>Attributes\<close>

definition nl :: string where
  "nl = [CHR 0x0A]"

definition quoted :: "string \<Rightarrow> string" where
  "quoted s = [CHR 0x27] @ s @ [CHR 0x27]"

definition TimeStampToStr :: "config \<Rightarrow> string option \<Rightarrow> string" where
  "TimeStampToStr cfg timStamp =
     (case timStamp of
        None \<Rightarrow> G_Today cfg @ '' 00:00:00.000000''
      | Some t \<Rightarrow> if t = [] then G_Today cfg @ '' 00:00:00.000000'' else G_Today cfg @ '' '' @ t)"

definition IsTimeStamp :: "string \<Rightarrow> bool" where
  "IsTimeStamp attr \<longleftrightarrow> 0 < py_find attr ''Date'' \<or> 0 < py_find attr ''Time''"

text \<open>The order of the attributes: those of \<^verbatim>\<open>m_AttrsPriorities\<close> first, the others by name.\<close>

definition attr_order :: "string list \<Rightarrow> (string \<times> pyval) list \<Rightarrow> string list" where
  "attr_order m_AttrsPriorities attrs =
     filter (\<lambda>a. a \<in> fst ` set attrs) m_AttrsPriorities @
     sort (filter (\<lambda>a. a \<notin> set m_AttrsPriorities) (map fst attrs))"

text \<open>Each attribute whose name holds \<open>Date\<close> or \<open>Time\<close> is a text or is None.\<close>

definition attr_text :: "config \<Rightarrow> string \<Rightarrow> pyval \<Rightarrow> string" where
  "attr_text cfg attr attrVal =
     (if IsTimeStamp attr then TimeStampToStr cfg (case attrVal of VStr s \<Rightarrow> Some s | _ \<Rightarrow> None)
      else if truthy attrVal then py_str attrVal else [])"

definition attr_line :: "config \<Rightarrow> string \<Rightarrow> string \<Rightarrow> pyval \<Rightarrow> string" where
  "attr_line cfg subMargin attr attrVal =
     (if IsCIM attr \<and> (IsTimeStamp attr \<or> truthy attrVal)
      then subMargin @ ''<'' @ attr @ ''>'' @ attr_text cfg attr attrVal @ ''</'' @ attr @ ''>'' @ nl
      else [])"

definition PlainToXML :: "config \<Rightarrow> string list \<Rightarrow> (string \<times> pyval) list \<Rightarrow> string \<Rightarrow> string" where
  "PlainToXML cfg m_AttrsPriorities attrs subMargin =
     concat (map (\<lambda>attr. case map_of attrs attr of
         None \<Rightarrow> [] | Some v \<Rightarrow> attr_line cfg subMargin attr v) (attr_order m_AttrsPriorities attrs))"

definition opt_attr :: "string \<Rightarrow> ('a \<Rightarrow> pyval) \<Rightarrow> 'a option \<Rightarrow> (string \<times> pyval) list" where
  "opt_attr k f v = (case v of None \<Rightarrow> [] | Some x \<Rightarrow> [(k, f x)])"

definition date_attr :: "string option \<Rightarrow> pyval" where
  "date_attr t = (case t of None \<Rightarrow> VNone | Some s \<Rightarrow> VStr s)"

text \<open>The dictionary of the environment, as \<open>str\<close> shows it; an empty one is not listed.\<close>

definition environ_attr :: "(string \<times> string) list \<Rightarrow> pyval" where
  "environ_attr env =
     (if env = [] then VStr []
      else VStr (''{'' @ py_join '', '' (map (\<lambda>(k, v). repr_str k @ '': '' @ repr_str v) env) @ ''}''))"

definition process_attrs :: "cim_process \<Rightarrow> (string \<times> pyval) list" where
  "process_attrs p =
     [(''Handle'', VInt (Handle p)), (''CreationDate'', date_attr (CreationDate p)),
      (''TerminationDate'', date_attr (TerminationDate p))] @
     opt_attr ''EnvironmentVariables'' environ_attr (EnvironmentVariables p) @
     opt_attr ''Name'' VStr (ProcName p) @ opt_attr ''Username'' VStr (Username p) @
     opt_attr ''Priority'' VInt (Priority p) @ opt_attr ''CurrentDirectory'' VStr (CurrentDirectory p) @
     opt_attr ''Executable'' VStr (Executable p) @ opt_attr ''CommandLine'' VStr (CommandLine p) @
     (if IsThread p then [(''IsThread'', VBool True)] else [])"

definition stat_attrs :: "config \<Rightarrow> os_stat \<Rightarrow> (string \<times> pyval) list" where
  "stat_attrs cfg s =
     [(''FileSize'', VInt (st_size s)), (''FileMode'', VInt (st_mode s)), (''Inode'', VInt (st_ino s)),
      (''DeviceId'', VInt (st_dev s)), (''HardLinksNumber'', VInt (st_nlink s)),
      (''OwnerUserId'', VInt (st_uid s)), (''OwnerGroupId'', VInt (st_gid s)),
      (''AccessTime'', VStr (TimeT_to_DateTime cfg (st_atime s))),
      (''ModifyTime'', VStr (TimeT_to_DateTime cfg (st_mtime s))),
      (''CreationTime'', VStr (TimeT_to_DateTime cfg (st_ctime s)))] @
     opt_attr ''DeviceType'' VInt (st_rdev s)"

definition datafile_attrs :: "config \<Rightarrow> cim_datafile \<Rightarrow> (string \<times> pyval) list" where
  "datafile_attrs cfg f =
     [(''Name'', VStr (Name f)), (''FileName'', VStr (FileName f)), (''Category'', VStr (Category f))] @
     (case FileStat f of None \<Rightarrow> [] | Some s \<Rightarrow> stat_attrs cfg s) @
     opt_attr ''Port'' VStr (Port f) @ opt_attr ''Destination'' VStr (Destination f) @
     opt_attr ''SocketAddress'' id (SocketAddress f) @
     (if IsExecuted f then [(''IsExecuted'', VBool True)] else [])"

subsection \<open>Accesses\<close>

definition count_attr :: "string \<Rightarrow> int option \<Rightarrow> string" where
  "count_attr k v =
     (case v of None \<Rightarrow> [] | Some n \<Rightarrow> if n = 0 then [] else '' '' @ k @ ''='' @ quoted (py_str_int n))"

definition time_attr :: "config \<Rightarrow> string \<Rightarrow> string option \<Rightarrow> string" where
  "time_attr cfg k t = (if no_text t then [] else '' '' @ k @ ''='' @ quoted (TimeStampToStr cfg t))"

definition parsed_xml :: "string \<Rightarrow> string \<Rightarrow> bufconcat option \<Rightarrow> string" where
  "parsed_xml submargin direction b =
     (case b of None \<Rightarrow> [] | Some c \<Rightarrow>
        if HasParsedData c then ParsedDataToXML submargin direction c else [])"

definition access_end :: "world \<Rightarrow> file_access \<Rightarrow> bool \<Rightarrow> string" where
  "access_end w a displayedFromProcess =
     (if displayedFromProcess
      then (case proc_at w (m_objectCIM_Process a) of
              None \<Rightarrow> [] | Some p \<Rightarrow> '' Process='' @ quoted (py_str_int (Handle p)))
      else (case file_at w (m_objectCIM_DataFile a) of
              None \<Rightarrow> [] | Some f \<Rightarrow> '' File='' @ quoted (Name f)))"

definition TagXML :: "config \<Rightarrow> world \<Rightarrow> string \<Rightarrow> bool \<Rightarrow> file_access \<Rightarrow> string" where
  "TagXML cfg w margin displayedFromProcess a =
     margin @ ''<Access'' @ access_end w a displayedFromProcess @
     time_attr cfg ''OpenTime'' (OpenTime a) @ count_attr ''OpenSize'' (OpenSize a) @
     time_attr cfg ''CloseTime'' (CloseTime a) @ count_attr ''CloseSize'' (CloseSize a) @
     count_attr ''NumReads'' (NumReads a) @ count_attr ''BytesRead'' (BytesRead a) @
     count_attr ''NumWrites'' (NumWrites a) @ count_attr ''BytesWritten'' (BytesWritten a) @
     (let accRead = m_bufConcatRead a; accWrite = m_bufConcatWrite a; submargin = margin @ ''    ''
      in if (case accRead of None \<Rightarrow> False | Some c \<Rightarrow> HasParsedData c) \<or>
            (case accWrite of None \<Rightarrow> False | Some c \<Rightarrow> HasParsedData c)
         then '' >'' @ nl @ parsed_xml submargin ''Read'' accRead @ parsed_xml submargin ''Write'' accWrite @
              margin @ ''</Access>'' @ nl
         else '' />'' @ nl)"

definition VectorToXML :: "config \<Rightarrow> world \<Rightarrow> nat list \<Rightarrow> string \<Rightarrow> bool \<Rightarrow> string" where
  "VectorToXML cfg w vecFilesAccesses margin displayedFromProcess =
     (if vecFilesAccesses = [] then []
      else margin @ ''<FileAccesses>'' @ nl @
        concat (map (\<lambda>i. TagXML cfg w (margin @ ''    '') displayedFromProcess (accesses w ! i)) vecFilesAccesses) @
        margin @ ''</FileAccesses>'' @ nl)"

subsection \<open>Objects in the order of their paths\<close>

definition sorted_items :: "(string \<times> 'a) list \<Rightarrow> (string \<times> 'a) list" where
  "sorted_items m = sort_key fst m"

text \<open>The objects of a class; the class has an entry as soon as one object was asked for.\<close>

definition class_items :: "'a list option \<Rightarrow> (world, 'a list) py" where
  "class_items m = of_opt KeyError m"

text \<open>The classes that only have the methods of the base class.\<close>

definition XMLSummary_base :: "config \<Rightarrow> string \<Rightarrow> (world, string) py" where
  "XMLSummary_base cfg namClass =
     bnd (gets (\<lambda>w. map_of (other_objects w) namClass)) (\<lambda>m.
     bnd (class_items m) (\<lambda>objs.
     ret (concat (map (\<lambda>(objPath, attrs).
        ''    <'' @ namClass @ ''>'' @ nl @ PlainToXML cfg [] attrs ''        '' @
        ''    </'' @ namClass @ ''>'' @ nl) (sorted_items objs)))))"

subsection \<open>Processes\<close>

definition process_priorities :: "string list" where
  "process_priorities = [''Handle'', ''Name'', ''CommandLine'', ''CreationDate'', ''TerminationDate'', ''Priority'']"

definition Summarize_process :: "config \<Rightarrow> world \<Rightarrow> cim_process \<Rightarrow> string" where
  "Summarize_process cfg w p =
     ''Process id:'' @ py_str_int (Handle p) @ nl @
     (case Executable p of None \<Rightarrow> [] | Some e \<Rightarrow> if e = [] then [] else ''    Executable:'' @ e @ nl) @
     (if no_text (CreationDate p) then [] else ''    Start time:'' @ TimeStampToStr cfg (CreationDate p) @ nl) @
     (if no_text (TerminationDate p) then [] else ''    End time:'' @ TimeStampToStr cfg (TerminationDate p) @ nl) @
     (case Option.bind (m_parentProcess p) (proc_at w) of
        None \<Rightarrow> [] | Some q \<Rightarrow> ''    Parent:'' @ py_str_int (Handle q) @ nl)"

definition DisplaySummary_process :: "config \<Rightarrow> (world, string) py" where
  "DisplaySummary_process cfg =
     bnd (gets cache_procs) (\<lambda>m.
     bnd (class_items m) (\<lambda>objs.
     bnd (gets (\<lambda>w. concat (map (\<lambda>(k, p). Summarize_process cfg w p) (sorted_items objs)))) (\<lambda>txt.
     ret (''Processes:'' @ nl @ txt @ nl))))"

text \<open>
  The recursion over the sub-processes; Python raises when it is deeper than its recursion limit,
  which is the first argument.
\<close>

primrec XMLOneLevelSummary :: "nat \<Rightarrow> config \<Rightarrow> objpath \<Rightarrow> string \<Rightarrow> (world, string) py" where
  "XMLOneLevelSummary 0 cfg self margin = raise too_deep"
| "XMLOneLevelSummary (Suc n) cfg self margin =
     andthen (upd_proc self (\<lambda>p. p\<lparr>m_isVisited := True\<rparr>))
     (bnd (get_proc self) (\<lambda>p.
      bnd (gets (\<lambda>w. VectorToXML cfg w (m_ProcessFileAccesses p) (margin @ ''    '') False)) (\<lambda>files.
      bnd (for_each (m_subProcesses p) (\<lambda>c. XMLOneLevelSummary n cfg c (margin @ ''    ''))) (\<lambda>subs.
      ret (margin @ ''<CIM_Process Handle='' @ quoted (py_str_int (Handle p)) @ ''>'' @ nl @
           PlainToXML cfg process_priorities (process_attrs p) (margin @ ''    '') @ files @ concat subs @
           margin @ ''</CIM_Process>'' @ nl)))))"

definition XMLSummary_one :: "nat \<Rightarrow> config \<Rightarrow> objpath \<Rightarrow> (world, string) py" where
  "XMLSummary_one limit cfg k =
     bnd (get_proc k) (\<lambda>p.
     if m_isVisited p then ret []
     else
       bnd (gets (\<lambda>w. TopProcessFromProc w k)) (\<lambda>top.
       case top of
         None \<Rightarrow> raise (PyException ''endless'')
       | Some r \<Rightarrow> XMLOneLevelSummary limit cfg r ''    ''))"

definition XMLSummary_process :: "nat \<Rightarrow> config \<Rightarrow> (world, string) py" where
  "XMLSummary_process limit cfg =
     bnd (gets cache_procs) (\<lambda>m.
     bnd (class_items m) (\<lambda>objs.
     bnd (for_each (map fst (sorted_items objs)) (XMLSummary_one limit cfg)) (\<lambda>txts.
     ret (concat txts))))"

subsection \<open>Files\<close>

definition datafile_priorities :: "string list" where
  "datafile_priorities = [''Name'', ''Category'', ''SocketAddress'']"

text \<open>The files of each category, in the order of the list of the categories.\<close>

definition add_to_category ::
    "(string \<times> (objpath \<times> cim_datafile) list) list \<Rightarrow> objpath \<times> cim_datafile \<Rightarrow>
     (string \<times> (objpath \<times> cim_datafile) list) list pyres" where
  "add_to_category m kf =
     (case map_of m (Category (snd kf)) of
        None \<Rightarrow> Inl KeyError
      | Some l \<Rightarrow> Inr (AList.update (Category (snd kf)) (AList.update (fst kf) (snd kf) l) m))"

fun split_loop ::
    "(objpath \<times> cim_datafile) list \<Rightarrow> (string \<times> (objpath \<times> cim_datafile) list) list \<Rightarrow>
     (string \<times> (objpath \<times> cim_datafile) list) list pyres" where
  "split_loop [] m = Inr m"
| "split_loop (kf # kfs) m = (case add_to_category m kf of Inl e \<Rightarrow> Inl e | Inr m' \<Rightarrow> split_loop kfs m')"

definition SplitFilesByCategory :: "world \<Rightarrow> (string \<times> (objpath \<times> cim_datafile) list) list pyres" where
  "SplitFilesByCategory w =
     (case cache_files w of
        None \<Rightarrow> Inr []
      | Some mapFiles \<Rightarrow> split_loop mapFiles (map (\<lambda>(c, _). (c, [])) G_lstFilters))"

text \<open>\<open>categoryFiles in filterCats\<close>, for a text or for a list.\<close>

definition in_filter :: "string \<Rightarrow> pyval \<Rightarrow> bool pyres" where
  "in_filter categoryFiles filterCats =
     (case filterCats of
        VStr s \<Rightarrow> Inr (contains s categoryFiles)
      | VList vs \<Rightarrow> Inr (VStr categoryFiles \<in> set vs)
      | _ \<Rightarrow> Inl TypeError)"

text \<open>\<open>filterCats and (not categoryFiles in filterCats)\<close>.\<close>

definition filtered_out :: "(string \<times> pyval) list \<Rightarrow> string \<Rightarrow> bool pyres" where
  "filtered_out cimKeyValuePairs categoryFiles =
     (case map_of cimKeyValuePairs ''Category'' of
        None \<Rightarrow> Inr False
      | Some v \<Rightarrow> if truthy v then map_sum id Not (in_filter categoryFiles v) else Inr False)"

definition Summarize_access :: "config \<Rightarrow> file_access \<Rightarrow> string" where
  "Summarize_access cfg a =
     (if no_text (OpenTime a) then []
      else ''  Open:'' @ TimeStampToStr cfg (OpenTime a) @ nl @
        (case NumOpen a of None \<Rightarrow> [] | Some n \<Rightarrow> ''  Open times:'' @ py_str_int n @ nl)) @
     (if no_text (CloseTime a) then [] else ''  Close:'' @ TimeStampToStr cfg (CloseTime a) @ nl)"

text \<open>
  The address of a socket is a text or a list of texts, and the code indexes it with each of its own
  elements, which is a TypeError.
\<close>

definition Summarize_datafile :: "config \<Rightarrow> cim_datafile \<Rightarrow> (world, string) py" where
  "Summarize_datafile cfg f =
     (if IsExecuted f then ret []
      else
        bnd (gets (\<lambda>w. concat (map (\<lambda>i. Summarize_access cfg (accesses w ! i)) (m_DataFileFileAccesses f)))) (\<lambda>accs.
        bnd (case SocketAddress f of
               None \<Rightarrow> ret ()
             | Some v \<Rightarrow> bnd (of_res (py_iter v)) (\<lambda>saKeys. if saKeys = [] then ret () else raise TypeError)) (\<lambda>_.
        ret (''Path:'' @ Name f @ nl @ accs))))"

definition DisplaySummary_datafile :: "config \<Rightarrow> (string \<times> pyval) list \<Rightarrow> (world, string) py" where
  "DisplaySummary_datafile cfg cimKeyValuePairs =
     bnd (gets SplitFilesByCategory) (\<lambda>r.
     bnd (of_res r) (\<lambda>mapOfFilesMap.
     bnd (for_each (sorted_items mapOfFilesMap) (\<lambda>(categoryFiles, mapFilesSub).
            bnd (of_res (filtered_out cimKeyValuePairs categoryFiles)) (\<lambda>skip.
            bnd (if skip then ret []
                 else for_each (map snd (sorted_items mapFilesSub)) (Summarize_datafile cfg)) (\<lambda>txts.
            ret (nl @ ''** '' @ categoryFiles @ nl @ concat txts))))) (\<lambda>txts.
     ret (''Files:'' @ nl @ concat txts @ nl))))"

definition XMLDisplay :: "config \<Rightarrow> world \<Rightarrow> cim_datafile \<Rightarrow> string" where
  "XMLDisplay cfg w f =
     (let margin = ''        ''; subMargin = margin @ ''    ''
      in margin @ ''<CIM_DataFile Name='' @ quoted (Name f) @ ''>'' @ nl @
         PlainToXML cfg datafile_priorities (datafile_attrs cfg f) subMargin @
         VectorToXML cfg w (m_DataFileFileAccesses f) subMargin True @
         margin @ ''</CIM_DataFile>'' @ nl)"

definition XMLCategorySummary :: "config \<Rightarrow> world \<Rightarrow> (objpath \<times> cim_datafile) list \<Rightarrow> string" where
  "XMLCategorySummary cfg w mapFilesSub =
     concat (map (\<lambda>(objPath, f). XMLDisplay cfg w f) (sorted_items mapFilesSub))"

text \<open>A category that is filtered out has its opening tag written, and not its closing one.\<close>

definition XMLSummary_category ::
    "config \<Rightarrow> (string \<times> pyval) list \<Rightarrow> string \<times> (objpath \<times> cim_datafile) list \<Rightarrow> (world, string) py" where
  "XMLSummary_category cfg cimKeyValuePairs cm =
     (case cm of (categoryFiles, mapFilesSub) \<Rightarrow>
        if mapFilesSub = [] then ret []
        else
          bnd (of_res (filtered_out cimKeyValuePairs categoryFiles)) (\<lambda>skip.
          bnd (gets (\<lambda>w. XMLCategorySummary cfg w mapFilesSub)) (\<lambda>txt.
          ret (''    <FilesCategory category='' @ quoted categoryFiles @ ''>'' @ nl @
               (if skip then [] else txt @ ''    </FilesCategory>'' @ nl)))))"

definition XMLSummary_datafile :: "config \<Rightarrow> (string \<times> pyval) list \<Rightarrow> (world, string) py" where
  "XMLSummary_datafile cfg cimKeyValuePairs =
     bnd (gets SplitFilesByCategory) (\<lambda>r.
     bnd (of_res r) (\<lambda>mapOfFilesMap.
     bnd (for_each (sorted_items mapOfFilesMap) (XMLSummary_category cfg cimKeyValuePairs)) (\<lambda>txts.
     ret (concat txts))))"

definition GetExposedPorts :: "world \<Rightarrow> string list option" where
  "GetExposedPorts w =
     map_option (\<lambda>mapFiles. fold set_add (List.map_filter (\<lambda>(k, f). Port f) mapFiles) []) (cache_files w)"

subsection \<open>The summary\<close>

text \<open>
  \<open>'Class.Key=value,Key=value'\<close>: the part after the dot is the argument list of a function that
  Python compiles, and \<open>getargspec\<close> returns its arguments and their default values.
\<close>

definition ParseFilterCIM ::
    "(string \<Rightarrow> (string list \<times> pyval list option) pyres) \<Rightarrow> string \<Rightarrow> (string \<times> (string \<times> pyval) list) pyres" where
  "ParseFilterCIM getargspec rgxObjectPath =
     (let idxDot = py_find rgxObjectPath ''.''
      in if idxDot < 0 then Inr (rgxObjectPath, [])
         else if idxDot = int (length rgxObjectPath) - 1 then Inr (py_upto rgxObjectPath idxDot, [])
         else (case getargspec (py_from rgxObjectPath (idxDot + 1)) of
                 Inl e \<Rightarrow> Inl e
               | Inr (arrArgs, None) \<Rightarrow> Inl TypeError
               | Inr (arrArgs, Some arrVals) \<Rightarrow>
                   Inr (py_upto rgxObjectPath idxDot,
                        fold (\<lambda>(k, v). AList.update k v) (zip arrArgs arrVals) [])))"

definition base_classes :: "string list" where
  "base_classes = [''CIM_ComputerSystem'', ''CIM_OperatingSystem'', ''CIM_NetworkAdapter'']"

definition DisplaySummary :: "config \<Rightarrow> string \<times> (string \<times> pyval) list \<Rightarrow> (world, string) py" where
  "DisplaySummary cfg flt =
     (case flt of (cimClassName, cimKeyValuePairs) \<Rightarrow>
        if cimClassName = ''CIM_Process'' then DisplaySummary_process cfg
        else if cimClassName = ''CIM_DataFile'' then DisplaySummary_datafile cfg cimKeyValuePairs
        else if cimClassName \<in> set base_classes then ret []
        else raise KeyError)"

definition XMLSummary :: "nat \<Rightarrow> config \<Rightarrow> string \<times> (string \<times> pyval) list \<Rightarrow> (world, string) py" where
  "XMLSummary limit cfg flt =
     (case flt of (cimClassName, cimKeyValuePairs) \<Rightarrow>
        if cimClassName = ''CIM_Process'' then XMLSummary_process limit cfg
        else if cimClassName = ''CIM_DataFile'' then XMLSummary_datafile cfg cimKeyValuePairs
        else if cimClassName \<in> set base_classes then XMLSummary_base cfg cimClassName
        else raise KeyError)"

definition GenerateSummaryTXT ::
    "(string \<Rightarrow> (string list \<times> pyval list option) pyres) \<Rightarrow> config \<Rightarrow> string list \<Rightarrow> (world, string) py" where
  "GenerateSummaryTXT getargspec cfg mapParamsSummary =
     bnd (for_each mapParamsSummary (\<lambda>rgx.
            bnd (of_res (ParseFilterCIM getargspec rgx)) (DisplaySummary cfg))) (\<lambda>txts.
     ret (concat txts))"

definition GenerateSummaryXML ::
    "(string \<Rightarrow> (string list \<times> pyval list option) pyres) \<Rightarrow> nat \<Rightarrow> config \<Rightarrow> string list \<Rightarrow> (world, string) py" where
  "GenerateSummaryXML getargspec limit cfg mapParamsSummary =
     bnd (for_each mapParamsSummary (\<lambda>rgx.
            bnd (of_res (ParseFilterCIM getargspec rgx)) (XMLSummary limit cfg))) (\<lambda>txts.
     ret (''<?xml version='' @ [CHR 0x22] @ ''1.0'' @ [CHR 0x22] @ '' encoding='' @ [CHR 0x22] @ ''UTF-8'' @
          [CHR 0x22] @ ''?>'' @ nl @ ''<Dockit>'' @ nl @ concat txts @ ''</Dockit>'' @ nl))"

text \<open>The text of the summary file, or \<open>None\<close> when no summary is asked for.\<close>

definition GenerateSummary ::
    "(string \<Rightarrow> (string list \<times> pyval list option) pyres) \<Rightarrow> nat \<Rightarrow> config \<Rightarrow> string list \<Rightarrow> string option \<Rightarrow>
     (world, string option) py" where
  "GenerateSummary getargspec limit cfg mapParamsSummary summaryFormat =
     (case summaryFormat of
        None \<Rightarrow> ret None
      | Some f \<Rightarrow>
          if f = ''TXT'' then bnd (GenerateSummaryTXT getargspec cfg mapParamsSummary) (\<lambda>t. ret (Some t))
          else if f = ''XML'' then bnd (GenerateSummaryXML getargspec limit cfg mapParamsSummary) (\<lambda>t. ret (Some t))
          else raise (PyException ''Unsupported summary output format''))"

end
