(* ===== verification/SummaryProps.thy ===== *)
theory SummaryProps
  imports Summary ObjectProps "HOL-Library.Sublist"
begin

text \<open>
  What the summaries guarantee: the summary of the processes ends and shows every process, the files
  are split by category without loss, and the ports are those of the files.
\<close>

subsection \<open>A walk over the tree of the processes\<close>

definition visited :: "world \<Rightarrow> objpath \<Rightarrow> bool" where
  "visited w k \<longleftrightarrow> (\<exists>p. proc_at w k = Some p \<and> m_isVisited p)"

definition same_shape :: "cim_process \<Rightarrow> cim_process \<Rightarrow> bool" where
  "same_shape p q \<longleftrightarrow> Handle p = Handle q \<and> m_parentProcess p = m_parentProcess q \<and>
     m_subProcesses p = m_subProcesses q"

definition only_visits :: "world \<Rightarrow> world \<Rightarrow> bool" where
  "only_visits w w' \<longleftrightarrow> (\<forall>k. rel_option same_shape (proc_at w k) (proc_at w' k) \<and> (visited w k \<longrightarrow> visited w' k))"

lemma only_visits_refl: "only_visits w w"
  by (simp add: only_visits_def same_shape_def option.rel_refl)

lemma only_visits_trans:
  assumes "only_visits a b" "only_visits b c"
  shows "only_visits a c"
proof -
  have "rel_option same_shape (proc_at a k) (proc_at c k)" for k
  proof -
    have "rel_option same_shape (proc_at a k) (proc_at b k)" "rel_option same_shape (proc_at b k) (proc_at c k)"
      using assms by (simp_all add: only_visits_def)
    then show ?thesis
      by (cases "proc_at a k"; cases "proc_at b k"; cases "proc_at c k") (simp_all add: same_shape_def)
  qed
  with assms show ?thesis by (simp add: only_visits_def)
qed

lemma only_visits_at:
  assumes "only_visits w w'" "proc_at w k = Some p"
  obtains q where "proc_at w' k = Some q" "same_shape p q"
proof -
  have "rel_option same_shape (proc_at w k) (proc_at w' k)" using assms(1) by (simp add: only_visits_def)
  with assms(2) that show thesis by (cases "proc_at w' k") simp_all
qed

lemma only_visits_back:
  assumes "only_visits w w'" "proc_at w' k = Some q"
  obtains p where "proc_at w k = Some p" "same_shape p q"
proof -
  have "rel_option same_shape (proc_at w k) (proc_at w' k)" using assms(1) by (simp add: only_visits_def)
  with assms(2) that show thesis by (cases "proc_at w k") simp_all
qed

lemma ancestor_visits: "ancestor w k r \<Longrightarrow> only_visits w w' \<Longrightarrow> ancestor w' k r"
proof (induction rule: ancestor.induct)
  case (up k p q r)
  obtain p' where "proc_at w' k = Some p'" "same_shape p p'" using only_visits_at [OF up.prems up.hyps(1)] .
  with up.hyps(2) have "m_parentProcess p' = Some q" by (simp add: same_shape_def)
  with \<open>proc_at w' k = Some p'\<close> show ?case using up.IH [OF up.prems] by (rule ancestor.up)
qed (rule ancestor.self)

lemma ancestor_last:
  "ancestor w x k \<Longrightarrow> x = k \<or> (\<exists>c p. proc_at w c = Some p \<and> m_parentProcess p = Some k \<and> ancestor w x c)"
proof (induction rule: ancestor.induct)
  case (up k p q r)
  then show ?case by (metis ancestor.self ancestor.up)
qed simp

lemma sublist_left: "sublist x t \<Longrightarrow> sublist x (t @ u)"
  unfolding sublist_def by (metis append.assoc)

lemma sublist_right: "sublist x u \<Longrightarrow> sublist x (t @ u)"
  unfolding sublist_def by (metis append.assoc)

text \<open>The opening tag of a process.\<close>

definition process_tag :: "cim_process \<Rightarrow> string" where
  "process_tag p = ''<CIM_Process Handle='' @ quoted (py_str_int (Handle p)) @ ''>''"

definition shown :: "world \<Rightarrow> world \<Rightarrow> string \<Rightarrow> bool" where
  "shown w w' t \<longleftrightarrow>
     (\<forall>k p. proc_at w k = Some p \<longrightarrow> visited w' k \<longrightarrow> visited w k \<or> sublist (process_tag p) t)"

lemma shown_then:
  assumes "shown a b t" "shown b c u" "only_visits a b"
  shows "shown a c (t @ u)"
  unfolding shown_def
proof (intro allI impI)
  fix k p assume p: "proc_at a k = Some p" and v: "visited c k"
  obtain q where q: "proc_at b k = Some q" "same_shape p q" using only_visits_at [OF assms(3) p] .
  then have "process_tag q = process_tag p" by (simp add: process_tag_def same_shape_def)
  with assms(1,2) p q(1) v have "visited a k \<or> sublist (process_tag p) t \<or> sublist (process_tag p) u"
    unfolding shown_def by metis
  then show "visited a k \<or> sublist (process_tag p) (t @ u)" by (auto intro: sublist_left sublist_right)
qed

text \<open>A step of the walk from \<open>c\<close>, in any state that a walk from \<open>w\<close> reaches.\<close>

definition walks :: "world \<Rightarrow> objpath \<Rightarrow> (world, string) py \<Rightarrow> bool" where
  "walks w c m \<longleftrightarrow> (\<forall>w1. only_visits w w1 \<longrightarrow> (\<exists>t w2. m w1 = (Inr t, w2) \<and> only_visits w1 w2 \<and>
     (\<forall>x. ancestor w x c \<longrightarrow> proc_at w x \<noteq> None \<longrightarrow> visited w2 x) \<and> shown w1 w2 t))"

lemma walk_all:
  "\<forall>c \<in> set cs. walks w c (f c) \<Longrightarrow> only_visits w w1 \<Longrightarrow>
   \<exists>ts w2. for_each cs f w1 = (Inr ts, w2) \<and> only_visits w1 w2 \<and>
     (\<forall>c \<in> set cs. \<forall>x. ancestor w x c \<longrightarrow> proc_at w x \<noteq> None \<longrightarrow> visited w2 x) \<and> shown w1 w2 (concat ts)"
proof (induction cs arbitrary: w1)
  case Nil
  then show ?case by (auto simp: only_visits_refl shown_def)
next
  case (Cons c cs)
  from Cons.prems(1) have "walks w c (f c)" by simp
  with Cons.prems(2) obtain t w2 where s: "f c w1 = (Inr t, w2)" "only_visits w1 w2"
    "\<forall>x. ancestor w x c \<longrightarrow> proc_at w x \<noteq> None \<longrightarrow> visited w2 x" "shown w1 w2 t"
    unfolding walks_def by blast
  from Cons.IH [OF _ only_visits_trans [OF Cons.prems(2) s(2)]] Cons.prems(1) obtain ts w3 where
    r: "for_each cs f w2 = (Inr ts, w3)" "only_visits w2 w3"
    "\<forall>c \<in> set cs. \<forall>x. ancestor w x c \<longrightarrow> proc_at w x \<noteq> None \<longrightarrow> visited w3 x" "shown w2 w3 (concat ts)"
    by auto
  have "for_each (c # cs) f w1 = (Inr (t # ts), w3)" using s(1) r(1) by (simp add: bnd_def)
  moreover have "shown w1 w3 (t @ concat ts)" using shown_then [OF s(4) r(4) s(2)] .
  moreover have "\<forall>x. ancestor w x c \<longrightarrow> proc_at w x \<noteq> None \<longrightarrow> visited w3 x"
    using s(3) r(2) by (simp add: only_visits_def)
  ultimately show ?case using r(3) only_visits_trans [OF s(2) r(2)] by auto
qed

subsection \<open>The walk shows the processes below its start\<close>

text \<open>Below a process are only processes of a greater rank, and none is deeper than the limit.\<close>

definition tree_ranked :: "(objpath \<Rightarrow> nat) \<Rightarrow> nat \<Rightarrow> world \<Rightarrow> bool" where
  "tree_ranked rank limit w \<longleftrightarrow>
     (\<forall>k p. proc_at w k = Some p \<longrightarrow> rank k < limit \<and> (\<forall>c \<in> set (m_subProcesses p). rank k < rank c))"

lemma tree_ranked_visits:
  assumes "only_visits w w'" "tree_ranked rank limit w"
  shows "tree_ranked rank limit w'"
  unfolding tree_ranked_def
proof (intro allI impI)
  fix k q assume q: "proc_at w' k = Some q"
  obtain p where "proc_at w k = Some p" "same_shape p q" using only_visits_back [OF assms(1) q] .
  with assms(2) show "rank k < limit \<and> (\<forall>c \<in> set (m_subProcesses q). rank k < rank c)"
    by (simp add: tree_ranked_def same_shape_def)
qed

lemma ranked_parents:
  assumes "wf_tree w" "tree_ranked rank limit w"
  shows "ranked rank w"
  unfolding ranked_def
proof (intro allI impI)
  fix k p q assume "proc_at w k = Some p" "m_parentProcess p = Some q"
  then obtain x where "proc_at w q = Some x" "k \<in> set (m_subProcesses x)"
    using assms(1) unfolding wf_tree_def by blast
  with assms(2) show "rank q < rank k" by (auto simp: tree_ranked_def)
qed

lemma visit_proc:
  assumes "proc_at w k = Some p"
  shows "only_visits w (put_proc k (p\<lparr>m_isVisited := True\<rparr>) w)"
    "visited (put_proc k (p\<lparr>m_isVisited := True\<rparr>) w) x \<longleftrightarrow> x = k \<or> visited w x"
  using assms by (auto simp: only_visits_def visited_def same_shape_def option.rel_refl intro!: option.rel_refl)

lemma one_level_walks:
  assumes "wf_tree w" "tree_ranked rank limit w"
  shows "proc_at w k \<noteq> None \<Longrightarrow> limit \<le> n + rank k \<Longrightarrow> walks w k (XMLOneLevelSummary n cfg k margin)"
proof (induction n arbitrary: k margin)
  case 0
  then obtain p where "proc_at w k = Some p" by auto
  with assms(2) have "rank k < limit" by (simp add: tree_ranked_def)
  with 0 show ?case by simp
next
  case (Suc n)
  obtain p where p: "proc_at w k = Some p" using Suc.prems(1) by auto
  have subs: "\<forall>c \<in> set (m_subProcesses p). walks w c (XMLOneLevelSummary n cfg c (margin @ ''    ''))"
  proof
    fix c assume c: "c \<in> set (m_subProcesses p)"
    then have "rank k < rank c" "proc_at w c \<noteq> None"
      using assms p by (auto simp: tree_ranked_def wf_tree_def)
    then show "walks w c (XMLOneLevelSummary n cfg c (margin @ ''    ''))"
      using Suc.prems(2) by (intro Suc.IH) simp_all
  qed
  show ?case unfolding walks_def
  proof (intro allI impI)
    fix w1 assume v: "only_visits w w1"
    obtain q where q: "proc_at w1 k = Some q" "same_shape p q" using only_visits_at [OF v p] .
    let ?q = "q\<lparr>m_isVisited := True\<rparr>"
    let ?w = "put_proc k ?q w1"
    have sub: "m_subProcesses q = m_subProcesses p" using q(2) by (simp add: same_shape_def)
    note vis = visit_proc [OF q(1)]
    obtain ts w2 where r: "for_each (m_subProcesses p) (\<lambda>c. XMLOneLevelSummary n cfg c (margin @ ''    '')) ?w = (Inr ts, w2)"
      "only_visits ?w w2" "\<forall>c \<in> set (m_subProcesses p). \<forall>x. ancestor w x c \<longrightarrow> proc_at w x \<noteq> None \<longrightarrow> visited w2 x"
      "shown ?w w2 (concat ts)"
      using walk_all [OF subs only_visits_trans [OF v vis(1)]] by blast
    let ?t = "margin @ process_tag q @ nl @ PlainToXML cfg process_priorities (process_attrs ?q) (margin @ ''    '') @
      VectorToXML cfg ?w (m_ProcessFileAccesses ?q) (margin @ ''    '') False @ concat ts @
      margin @ ''</CIM_Process>'' @ nl"
    have run: "XMLOneLevelSummary (Suc n) cfg k margin w1 = (Inr ?t, w2)"
      using q(1) r(1) sub by (simp add: andthen_def bnd_def process_tag_def)
    have below: "visited w2 x" if x: "ancestor w x k" for x
    proof (cases "x = k")
      case True
      then show ?thesis using r(2) vis(2) by (simp add: only_visits_def)
    next
      case False
      with ancestor_last [OF x] obtain c y where
        c: "proc_at w c = Some y" "m_parentProcess y = Some k" "ancestor w x c" by blast
      obtain z where "proc_at w k = Some z" "c \<in> set (m_subProcesses z)"
        using assms(1) c(1,2) unfolding wf_tree_def by blast
      with p have "c \<in> set (m_subProcesses p)" by simp
      moreover have "proc_at w x \<noteq> None" using c(3,1) by (cases rule: ancestor.cases) auto
      ultimately show ?thesis using r(3) c(3) by blast
    qed
    have "visited w1 x \<or> sublist (process_tag y) ?t" if y: "proc_at w1 x = Some y" "visited w2 x" for x y
    proof (cases "x = k")
      case True
      have "sublist (process_tag q) ?t" by (rule sublist_right, rule sublist_left) simp
      with True y(1) q(1) show ?thesis by simp
    next
      case False
      then have "proc_at ?w x = Some y" using y(1) by simp
      with r(4) y(2) have "visited ?w x \<or> sublist (process_tag y) (concat ts)" by (simp add: shown_def)
      moreover have "sublist u (concat ts) \<Longrightarrow> sublist u ?t" for u
        by (rule sublist_right [of _ _ margin], rule sublist_right, rule sublist_right, rule sublist_right,
            rule sublist_right, rule sublist_left)
      ultimately show ?thesis using vis(2) False by blast
    qed
    then have "shown w1 w2 ?t" by (simp add: shown_def)
    with run below only_visits_trans [OF vis(1) r(2)]
    show "\<exists>t w2. XMLOneLevelSummary (Suc n) cfg k margin w1 = (Inr t, w2) \<and> only_visits w1 w2 \<and>
        (\<forall>x. ancestor w x k \<longrightarrow> proc_at w x \<noteq> None \<longrightarrow> visited w2 x) \<and> shown w1 w2 t" by blast
  qed
qed

lemma wf_tree_visits:
  assumes v: "only_visits w w1" and wf: "wf_tree w"
  shows "wf_tree w1"
    unfolding wf_tree_def
  proof (intro allI impI)
    fix x y assume y: "proc_at w1 x = Some y"
    obtain z where z: "proc_at w x = Some z" "same_shape z y" using only_visits_back [OF v y] .
    have "c \<noteq> x \<and> (\<exists>u. proc_at w1 c = Some u \<and> x \<in> set (m_subProcesses u))" if "m_parentProcess y = Some c" for c
    proof -
      have "m_parentProcess z = Some c" using that z(2) by (simp add: same_shape_def)
      then obtain u where u: "c \<noteq> x" "proc_at w c = Some u" "x \<in> set (m_subProcesses u)"
        using wf z(1) unfolding wf_tree_def by blast
      obtain u' where "proc_at w1 c = Some u'" "same_shape u u'" using only_visits_at [OF v u(2)] .
      with u(1,3) show ?thesis by (simp add: same_shape_def)
    qed
    moreover have "proc_at w1 c \<noteq> None" if "c \<in> set (m_subProcesses y)" for c
    proof -
      have "c \<in> set (m_subProcesses z)" using that z(2) by (simp add: same_shape_def)
      then obtain u where u: "proc_at w c = Some u" using wf z(1) unfolding wf_tree_def by blast
      obtain u' where "proc_at w1 c = Some u'" using only_visits_at [OF v u] .
      then show ?thesis by simp
    qed
    ultimately show "(\<forall>q. m_parentProcess y = Some q \<longrightarrow>
        q \<noteq> x \<and> (\<exists>u. proc_at w1 q = Some u \<and> x \<in> set (m_subProcesses u))) \<and>
      (\<forall>c \<in> set (m_subProcesses y). proc_at w1 c \<noteq> None)" by blast
  qed
lemma ancestor_exists: "ancestor w k r \<Longrightarrow> wf_tree w \<Longrightarrow> proc_at w k \<noteq> None \<Longrightarrow> proc_at w r \<noteq> None"
proof (induction rule: ancestor.induct)
  case (up k p q r)
  then obtain x where "proc_at w q = Some x" unfolding wf_tree_def by blast
  with up show ?case by simp
qed simp

lemma summary_one:
  assumes wf: "wf_tree w" "tree_ranked rank limit w" and v: "only_visits w w1" and k: "proc_at w k \<noteq> None"
  shows "\<exists>t w2. XMLSummary_one limit cfg k w1 = (Inr t, w2) \<and> only_visits w1 w2 \<and> visited w2 k \<and> shown w1 w2 t"
proof -
  obtain p where p: "proc_at w k = Some p" using k by auto
  obtain q where q: "proc_at w1 k = Some q" using only_visits_at [OF v p] .
  show ?thesis
  proof (cases "m_isVisited q")
    case True
    have "XMLSummary_one limit cfg k w1 = (Inr [], w1)" using q True by (simp add: XMLSummary_one_def bnd_def)
    moreover have "visited w1 k" using q True by (simp add: visited_def)
    ultimately show ?thesis by (auto simp: only_visits_refl shown_def)
  next
    case False
    note wf1 = wf_tree_visits [OF v wf(1)]
    note rk1 = tree_ranked_visits [OF v wf(2)]
    obtain r where r: "TopProcessFromProc w1 k = Some r" "ancestor w1 k r"
      using top_of_ranked [OF ranked_parents [OF wf1 rk1], of k] by blast
    have rn: "proc_at w1 r \<noteq> None" using ancestor_exists [OF r(2) wf1] q by simp
    have "walks w1 r (XMLOneLevelSummary limit cfg r ''    '')"
      by (rule one_level_walks [OF wf1 rk1 rn]) simp
    then obtain t w2 where o: "XMLOneLevelSummary limit cfg r ''    '' w1 = (Inr t, w2)" "only_visits w1 w2"
      "\<forall>x. ancestor w1 x r \<longrightarrow> proc_at w1 x \<noteq> None \<longrightarrow> visited w2 x" "shown w1 w2 t"
      unfolding walks_def using only_visits_refl by blast
    have "XMLSummary_one limit cfg k w1 = (Inr t, w2)"
      using q False r(1) o(1) by (simp add: XMLSummary_one_def bnd_def)
    moreover have "visited w2 k" using o(3) r(2) q by simp
    ultimately show ?thesis using o by blast
  qed
qed

lemma summary_all:
  assumes wf: "wf_tree w" "tree_ranked rank limit w"
  shows "only_visits w w1 \<Longrightarrow> \<forall>k \<in> set ks. proc_at w k \<noteq> None \<Longrightarrow>
   \<exists>ts w2. for_each ks (XMLSummary_one limit cfg) w1 = (Inr ts, w2) \<and> only_visits w1 w2 \<and>
     (\<forall>k \<in> set ks. visited w2 k) \<and> shown w1 w2 (concat ts)"
proof (induction ks arbitrary: w1)
  case Nil
  then show ?case by (auto simp: only_visits_refl shown_def)
next
  case (Cons k ks)
  from summary_one [OF wf Cons.prems(1)] Cons.prems(2) obtain t w2 where
    s: "XMLSummary_one limit cfg k w1 = (Inr t, w2)" "only_visits w1 w2" "visited w2 k" "shown w1 w2 t"
    by (metis list.set_intros(1))
  from Cons.IH [OF only_visits_trans [OF Cons.prems(1) s(2)]] Cons.prems(2) obtain ts w3 where
    r: "for_each ks (XMLSummary_one limit cfg) w2 = (Inr ts, w3)" "only_visits w2 w3"
    "\<forall>k \<in> set ks. visited w3 k" "shown w2 w3 (concat ts)" by auto
  have "for_each (k # ks) (XMLSummary_one limit cfg) w1 = (Inr (t # ts), w3)" using s(1) r(1) by (simp add: bnd_def)
  moreover have "visited w3 k" using s(3) r(2) by (simp add: only_visits_def)
  ultimately show ?case
    using r(3) only_visits_trans [OF s(2) r(2)] shown_then [OF s(4) r(4) s(2)] by auto
qed

subsection \<open>Files by category\<close>

definition of_category :: "string \<Rightarrow> (objpath \<times> cim_datafile) list \<Rightarrow> (objpath \<times> cim_datafile) list" where
  "of_category c fs = filter (\<lambda>(k, f). Category f = c) fs"

lemma set_update_distinct:
  "distinct (map fst al) \<Longrightarrow> set (AList.update k v al) = insert (k, v) {(c, l) \<in> set al. c \<noteq> k}"
  by (induction al) (auto simp: image_iff)

lemma split_loop_run:
  "distinct (map fst m) \<Longrightarrow> distinct (map fst (done @ fs)) \<Longrightarrow>
   \<forall>(c, l) \<in> set m. l = of_category c done \<Longrightarrow> \<forall>(k, f) \<in> set fs. Category f \<in> fst ` set m \<Longrightarrow>
   split_loop fs m = Inr (map (\<lambda>c. (c, of_category c (done @ fs))) (map fst m))"
proof (induction fs arbitrary: m "done")
  case Nil
  then have "(fst x, of_category (fst x) done) = x" if "x \<in> set m" for x
    using that by (cases x) auto
  then have "map (\<lambda>c. (c, of_category c done)) (map fst m) = m" by (simp add: map_idI)
  then show ?case by simp
next
  case (Cons kf fs)
  obtain k f where kf: "kf = (k, f)" by force
  from Cons.prems(4) kf have "Category f \<in> fst ` set m" by simp
  then obtain l where l: "map_of m (Category f) = Some l" by (metis map_of_eq_None_iff not_None_eq)
  then have "(Category f, l) \<in> set m" by (rule map_of_SomeD)
  then have ll: "l = of_category (Category f) done" using Cons.prems(3) by auto
  have "k \<notin> fst ` set l" using Cons.prems(2) kf ll by (auto simp: of_category_def)
  then have up: "AList.update k f l = of_category (Category f) (done @ [(k, f)])"
    unfolding ll by (simp add: of_category_def keys_update_fresh map_of_eq_None_iff)
  let ?m = "AList.update (Category f) (AList.update k f l) m"
  have keys: "map fst ?m = map fst m" using l by (simp add: keys_update_present)
  have "\<forall>(c, l) \<in> set ?m. l = of_category c (done @ [(k, f)])"
  proof (clarify)
    fix c l' assume "(c, l') \<in> set ?m"
    then have "(c, l') = (Category f, AList.update k f l) \<or> (c, l') \<in> set m \<and> c \<noteq> Category f"
      using set_update_distinct [OF Cons.prems(1)] by auto
    then show "l' = of_category c (done @ [(k, f)])"
      using up Cons.prems(3) by (auto simp: of_category_def)
  qed
  moreover have "fst ` set ?m = fst ` set m" using keys by (metis set_map)
  ultimately have "split_loop fs ?m = Inr (map (\<lambda>c. (c, of_category c ((done @ [(k, f)]) @ fs))) (map fst ?m))"
    using Cons.prems(1,2,4) kf keys by (intro Cons.IH) auto
  then show ?case using kf l keys by (simp add: add_to_category_def)
qed

lemma filter_names_distinct: "distinct (map fst (map (\<lambda>(c, _). (c, [])) G_lstFilters))"
  by code_simp

subsection \<open>Properties\<close>

text \<open>
  C13. The XML summary of the processes returns and shows every process: in a consistent tree that is not
  deeper than the recursion limit of Python, the walk from the topmost ancestor of each process that was
  not visited yet ends, and the tag of each process is in the text.
\<close>

theorem summary_shows_processes:
  assumes "wf_world w" "tree_ranked rank limit w" "cache_procs w = Some m" "\<forall>k. \<not> visited w k"
  shows "\<exists>t w'. XMLSummary_process limit cfg w = (Inr t, w') \<and>
    (\<forall>k p. proc_at w k = Some p \<longrightarrow> sublist (process_tag p) t \<and> visited w' k)"
proof -
  let ?ks = "map fst (sorted_items m)"
  have keys: "set ?ks = fst ` set m" by (simp add: sorted_items_def)
  have procs: "proc_at w = map_of m" using assms(3) by (simp add: proc_at_def procs_def)
  have "\<forall>k \<in> set ?ks. proc_at w k \<noteq> None"
    unfolding keys procs by (metis map_of_eq_None_iff)
  from summary_all [OF _ assms(2) only_visits_refl this] assms(1) obtain ts w' where
    r: "for_each ?ks (XMLSummary_one limit cfg) w = (Inr ts, w')" "\<forall>k \<in> set ?ks. visited w' k"
    "shown w w' (concat ts)" unfolding wf_world_def by blast
  have "XMLSummary_process limit cfg w = (Inr (concat ts), w')"
    using assms(3) r(1) by (simp add: XMLSummary_process_def class_items_def bnd_def of_opt_def)
  moreover have "sublist (process_tag p) (concat ts) \<and> visited w' k" if "proc_at w k = Some p" for k p
  proof -
    have "k \<in> set ?ks" using that unfolding keys procs by (metis map_of_eq_None_iff option.distinct(1))
    then have "visited w' k" using r(2) by blast
    with r(3) that assms(4) show ?thesis unfolding shown_def by blast
  qed
  ultimately show ?thesis by blast
qed

definition example_tree :: world where
  "example_tree = empty_world\<lparr>cache_procs :=
     Some [(proc_path 7, (new_process 7)\<lparr>m_subProcesses := [proc_path 8]\<rparr>),
           (proc_path 8, (new_process 8)\<lparr>m_parentProcess := Some (proc_path 7)\<rparr>)]\<rparr>"

theorem summary_shows_processes_witness:
  "\<exists>t w'. XMLSummary_process 100 replay_config example_tree = (Inr t, w') \<and>
    sublist (''<CIM_Process Handle='' @ quoted (py_str_int 8) @ ''>'') t"
proof -
  have ne: "proc_path 7 \<noteq> proc_path 8" by code_simp
  have p: "proc_at example_tree = [proc_path 7 \<mapsto> (new_process 7)\<lparr>m_subProcesses := [proc_path 8]\<rparr>,
      proc_path 8 \<mapsto> (new_process 8)\<lparr>m_parentProcess := Some (proc_path 7)\<rparr>]"
    using ne by (auto simp: example_tree_def proc_at_def procs_def)
  have f: "file_at example_tree = Map.empty" "accesses example_tree = []" "G_cacheFileAccesses example_tree = []"
    "files example_tree = []"
    by (simp_all add: example_tree_def empty_world_def file_at_def files_def)
  have "map fst (procs example_tree) = [proc_path 7, proc_path 8]" by (simp add: example_tree_def procs_def)
  then have wf: "wf_world example_tree"
    using ne unfolding wf_world_def wf_defs p f cached_access_def
    by (auto simp: new_process_def split: if_splits)
  have rk: "tree_ranked (\<lambda>k. if k = proc_path 8 then 1 else 0) 100 example_tree"
    using ne unfolding tree_ranked_def p by (auto simp: new_process_def)
  have c: "cache_procs example_tree = Some [(proc_path 7, (new_process 7)\<lparr>m_subProcesses := [proc_path 8]\<rparr>),
           (proc_path 8, (new_process 8)\<lparr>m_parentProcess := Some (proc_path 7)\<rparr>)]"
    by (simp add: example_tree_def)
  have "\<forall>k. \<not> visited example_tree k" unfolding visited_def p by (auto simp: new_process_def)
  from summary_shows_processes [OF wf rk c this, of replay_config]
  obtain t w' where "XMLSummary_process 100 replay_config example_tree = (Inr t, w')"
    "\<forall>k q. proc_at example_tree k = Some q \<longrightarrow> sublist (process_tag q) t"
    by blast
  moreover have "proc_at example_tree (proc_path 8) = Some ((new_process 8)\<lparr>m_parentProcess := Some (proc_path 7)\<rparr>)"
    unfolding p by simp
  moreover have "process_tag ((new_process 8)\<lparr>m_parentProcess := Some (proc_path 7)\<rparr>) =
      ''<CIM_Process Handle='' @ quoted (py_str_int 8) @ ''>''"
    by (simp add: process_tag_def new_process_def)
  ultimately show ?thesis by metis
qed

text \<open>
  \<^verbatim>\<open>SplitFilesByCategory\<close> loses no file: when each file has one of the declared categories, it does
  not fail, the categories are those of the list, in its order, and each has exactly its files, in the
  order of their creation.
\<close>

theorem split_by_category:
  assumes "cache_files w = Some fs" "distinct (map fst fs)" "\<forall>(k, f) \<in> set fs. Category f \<in> fst ` set G_lstFilters"
  shows "SplitFilesByCategory w = Inr (map (\<lambda>(c, rs). (c, filter (\<lambda>(k, f). Category f = c) fs)) G_lstFilters)"
proof -
  let ?m = "map (\<lambda>(c, _). (c, [])) G_lstFilters :: (string \<times> (objpath \<times> cim_datafile) list) list"
  have k: "map fst ?m = map fst G_lstFilters" by (simp add: case_prod_unfold)
  then have "fst ` set ?m = fst ` set G_lstFilters" by (metis set_map)
  then have "split_loop fs ?m = Inr (map (\<lambda>c. (c, of_category c ([] @ fs))) (map fst ?m))"
    using assms(2,3) filter_names_distinct k by (intro split_loop_run) (auto simp: of_category_def)
  then show ?thesis using assms(1) k by (simp add: SplitFilesByCategory_def of_category_def case_prod_unfold)
qed

theorem split_by_category_witness:
  "\<exists>fs. cache_files (example_world ''/tmp/a'') = Some fs \<and> fs \<noteq> [] \<and>
    SplitFilesByCategory (example_world ''/tmp/a'') =
      Inr (map (\<lambda>(c, rs). (c, filter (\<lambda>(k, f). Category f = c) fs)) G_lstFilters)"
proof -
  have "map_option (map (\<lambda>(k, f). (k, Category f))) (cache_files (example_world ''/tmp/a'')) =
      Some [(file_path ''/tmp/a'', ''Temporary files'')]" by code_simp
  then obtain f where c: "cache_files (example_world ''/tmp/a'') = Some [(file_path ''/tmp/a'', f)]"
    "Category f = ''Temporary files''" by auto
  have "''Temporary files'' \<in> set (map fst G_lstFilters)" by code_simp
  then have "\<forall>(k, f) \<in> set [(file_path ''/tmp/a'', f)]. Category f \<in> fst ` set G_lstFilters"
    using c(2) by simp
  from split_by_category [OF c(1) _ this] c(1) show ?thesis by simp
qed

text \<open>
  \<^verbatim>\<open>TopProcessFromProc\<close> ends when the chain of the parents has no cycle, that is when a rank
  decreases from each process to its parent, and it returns the ancestor without parent.
\<close>

theorem top_process_found:
  assumes "ranked rank w"
  shows "\<exists>r. TopProcessFromProc w k = Some r \<and> ancestor w k r \<and> Option.bind (proc_at w r) m_parentProcess = None"
  by (rule top_of_ranked [OF assms])

theorem top_process_found_witness:
  "\<exists>r. TopProcessFromProc example_tree (proc_path 8) = Some r \<and> ancestor example_tree (proc_path 8) r"
proof -
  have ne: "proc_path 7 \<noteq> proc_path 8" by code_simp
  have "ranked (\<lambda>k. if k = proc_path 8 then 1 else 0) example_tree"
    using ne by (auto simp: ranked_def example_tree_def proc_at_def procs_def new_process_def split: if_splits)
  from top_process_found [OF this] show ?thesis by blast
qed

text \<open>A process that is the only one in the cache becomes the parent of the next one.\<close>

lemma only_process_parent:
  assumes "wf_world w" "procs w = [(k, x)]" "pid \<noteq> Handle x" "CreateObjectPath_CIM_Process cfg pid w = (Inr q, w1)"
  shows "\<exists>p. q = proc_path pid \<and> q \<noteq> k \<and> Handle p = pid \<and> m_parentProcess p = Some k \<and>
    proc_at w1 q = Some p \<and> proc_at w1 k = Some (x\<lparr>m_subProcesses := set_add q (m_subProcesses x)\<rparr>)"
proof -
  let ?q = "proc_path pid"
  let ?x = "x\<lparr>m_subProcesses := set_add ?q (m_subProcesses x)\<rparr>"
  let ?I = "\<lambda>w. wf_world w \<and> procs w = [(k, x)]"
  have k: "k = proc_path (Handle x)" using assms(1,2) wf_keysD(3) [of w k x] by (simp add: wf_world_def proc_at_def)
  then have ne: "?q \<noteq> k" using assms(3) by simp
  have env: "triple ?I (process_environ cfg pid) (\<lambda>_. ?I) (\<lambda>_ _. True)"
    unfolding process_environ_def by (auto simp: triple_def bnd_def wf_ticks)
  have psu: "triple ?I (process_psutil cfg pid) (\<lambda>_. ?I) (\<lambda>_ _. True)"
    unfolding process_psutil_def by (auto simp: triple_def bnd_def wf_ticks split: option.splits)
  have att: "triple ?I (process_attributes cfg o' p) (\<lambda>p' w. proc_links p' = proc_links p \<and> ?I w) (\<lambda>_ _. True)" for o' p
    by (rule triple_conseq [OF process_attributes_links]) auto
  have fst: "triple (\<lambda>w. proc_links p = (pid, None, [], []) \<and> ?I w) (first_process_parent p)
      (\<lambda>p' v. Handle p' = pid \<and> m_parentProcess p' = Some k \<and> procs v = [(k, ?x)]) (\<lambda>_ _. True)" for p
    using k assms(3) by (auto simp: triple_def first_process_parent_def bnd_def andthen_def proc_links_def proc_at_def
        put_proc_def procs_def upd_proc_def get_proc_def)
  have new: "proc_links ((new_process pid)\<lparr>EnvironmentVariables := env\<rparr>) = (pid, None, [], [])" for env
    by (simp add: proc_links_def new_process_def)
  have init: "triple ?I (CIM_Process_init cfg pid)
      (\<lambda>p' v. Handle p' = pid \<and> m_parentProcess p' = Some k \<and> procs v = [(k, ?x)]) (\<lambda>_ _. True)"
    unfolding CIM_Process_init_def
    by (rule triple_bnd [OF env], rule triple_bnd [OF psu], rule triple_bnd [OF att],
        rule triple_conseq [OF fst]) (auto simp: new)
  let ?w = "w\<lparr>cache_procs := Some (procs w)\<rparr>"
  have w: "?I ?w" using assms(1,2) wf_cache_procs [of w] by (simp add: procs_def)
  have miss: "proc_at ?w ?q = None" using ne assms(2) by (simp add: proc_at_def procs_def)
  obtain p v where p: "CIM_Process_init cfg pid ?w = (Inr p, v)" "q = ?q" "w1 = put_proc ?q p v"
    using assms(4) miss
    by (auto simp: CreateObjectPath_CIM_Process_def andthen_def bnd_def split: prod.splits sum.splits)
  have "Handle p = pid \<and> m_parentProcess p = Some k \<and> procs v = [(k, ?x)]"
    using init [unfolded triple_def, rule_format, OF w] p(1) by simp
  then have v: "Handle p = pid" "m_parentProcess p = Some k" "procs v = [(k, ?x)]" by blast+
  have "proc_at w1 ?q = Some p" "proc_at w1 k = Some ?x"
    using p(3) v(3) ne by (simp_all add: proc_at_def put_proc_def procs_def)
  with p(2) v ne show ?thesis by blast
qed

text \<open>
  C40. The guess of the parent and the answer of \<^verbatim>\<open>clone\<close> can contradict each other. When a child is the only
  process known (the cache holds it and no other), and its parent is then created, in any configuration, the
  child becomes the parent of its parent; \<^verbatim>\<open>AddParentProcess\<close>, called as for a \<^verbatim>\<open>clone\<close> that returned the child,
  then succeeds and closes a cycle: each of the two is the parent of the other, and the search for the topmost
  process, on which the summary in XML rests, does not end for either of them.
\<close>

theorem parent_cycle:
  assumes "wf_world w" "procs w = [(child, x)]" "pid \<noteq> Handle x"
    "CreateObjectPath_CIM_Process cfg pid w = (Inr parent, w1)"
  shows "\<exists>w2. AddParentProcess child ts parent w1 = (Inr (), w2) \<and>
    Option.bind (proc_at w2 child) m_parentProcess = Some parent \<and>
    Option.bind (proc_at w2 parent) m_parentProcess = Some child \<and>
    TopProcessFromProc w2 child = None \<and> TopProcessFromProc w2 parent = None"
proof -
  obtain p where p: "parent = proc_path pid" "parent \<noteq> child" "Handle p = pid" "m_parentProcess p = Some child"
    "proc_at w1 parent = Some p" "proc_at w1 child = Some (x\<lparr>m_subProcesses := set_add parent (m_subProcesses x)\<rparr>)"
    using only_process_parent [OF assms] by blast
  let ?x = "x\<lparr>m_subProcesses := set_add parent (m_subProcesses x), m_parentProcess := Some parent, CreationDate := Some ts\<rparr>"
  let ?p = "p\<lparr>m_subProcesses := set_add child (m_subProcesses p)\<rparr>"
  obtain w2 where w2: "AddParentProcess child ts parent w1 = (Inr (), w2)"
    "proc_at w2 child = Some ?x" "proc_at w2 parent = Some ?p"
    using p assms(3) by (simp add: AddParentProcess_def SetParentProcess_def bnd_def andthen_def)
  then have "m_parentProcess ?x = Some parent" "m_parentProcess ?p = Some child" using p(4) by simp_all
  with w2 cycle_never_ends [OF w2(2) _ w2(3)] cycle_never_ends [OF w2(3) _ w2(2)] show ?thesis by auto
qed

text \<open>A log that is replayed: process 2 is seen first, then its parent 1.\<close>

lemma parent_cycle_witness:
  "\<exists>w1 w2. CreateObjectPath_CIM_Process replay_config 1
      (snd (CreateObjectPath_CIM_Process replay_config 2 empty_world)) = (Inr (proc_path 1), w1) \<and>
    AddParentProcess (proc_path 2) ''10:00:00.000000'' (proc_path 1) w1 = (Inr (), w2) \<and>
    TopProcessFromProc w2 (proc_path 1) = None"
proof -
  let ?w = "snd (CreateObjectPath_CIM_Process replay_config 2 empty_world)"
  have wf: "wf_world ?w" by (rule keepsD [where I = wf_world, OF _ wf_empty_world]) (intro keeps_rules)
  obtain x where x: "procs ?w = [(proc_path 2, x)]" "Handle x = 2"
  proof -
    have "map (\<lambda>(k, x). (k, Handle x)) (procs ?w) = [(proc_path 2, 2)]" by code_simp
    then show ?thesis by (auto intro: that)
  qed
  have "fst (CreateObjectPath_CIM_Process replay_config 1 ?w) = Inr (proc_path 1)" by code_simp
  then obtain w1 where w1: "CreateObjectPath_CIM_Process replay_config 1 ?w = (Inr (proc_path 1), w1)"
    by (cases "CreateObjectPath_CIM_Process replay_config 1 ?w") simp
  have "1 \<noteq> Handle x" using x(2) by simp
  from parent_cycle [OF wf x(1) this w1, of "''10:00:00.000000''"] w1 show ?thesis by blast
qed

text \<open>A category that the filter leaves out still writes its opening tag, and never its end.\<close>

lemma dropped_category_is_open:
  assumes "filtered_out kv c = Inr True" "fs \<noteq> []"
  shows "XMLSummary_category cfg kv (c, fs) w =
    (Inr (''    <FilesCategory category='' @ quoted c @ ''>'' @ nl), w)"
  using assms by (simp add: XMLSummary_category_def bnd_def)

end
