(* ===== verification/Packages.thy ===== *)
theory Packages
  imports Summary
begin

text \<open>
  Where a file comes from: the Linux package that owns it (\<^verbatim>\<open>FileToPackage\<close>, a cache over the command
  \<open>rpm -qf\<close>) and the Python module that installed it. The command, the saved cache and the list of
  the installed distributions are parameters.
\<close>

subsection \<open>Linux packages\<close>

text \<open>The saved cache: it cannot be opened, it is no JSON text, or it is the map that was saved.\<close>

datatype saved_cache =
    NoCacheFile
  | BadCacheFile
  | CacheFile "(string \<times> string list option) list"

record package_cache =
  m_cacheFileName :: string
  m_cacheFilesToPackages :: "(string \<times> string list option) list"
  m_dirtyCache :: bool

definition FileToPackage_init :: "string \<Rightarrow> string \<Rightarrow> (string \<Rightarrow> saved_cache) \<Rightarrow> package_cache" where
  "FileToPackage_init tmpDir hostname load =
     (let fileName = tmpDir @ ''/FileToPackageCache.'' @ hostname @ ''.txt''
      in case load fileName of
           NoCacheFile \<Rightarrow> \<lparr>m_cacheFileName = fileName, m_cacheFilesToPackages = [], m_dirtyCache = False\<rparr>
         | BadCacheFile \<Rightarrow> \<lparr>m_cacheFileName = fileName, m_cacheFilesToPackages = [], m_dirtyCache = True\<rparr>
         | CacheFile m \<Rightarrow> \<lparr>m_cacheFileName = fileName, m_cacheFilesToPackages = m, m_dirtyCache = False\<rparr>)"

text \<open>What is written when the program ends: the name of the file and its new contents.\<close>

definition DumpToFile :: "package_cache \<Rightarrow> (string \<times> saved_cache) option" where
  "DumpToFile c =
     (if m_dirtyCache c then Some (m_cacheFileName c, CacheFile (m_cacheFilesToPackages c)) else None)"

text \<open>
  \<open>rpm\<close> is the output of the command \<open>rpm -qf\<close>, \<open>None\<close> when it cannot be run. The exception on an
  empty first line is caught where it is raised.
\<close>

definition OneFileToPackageLinuxNoCache :: "bool \<Rightarrow> (string \<Rightarrow> string option) \<Rightarrow> string \<Rightarrow> string list option" where
  "OneFileToPackageLinuxNoCache linux rpm oneFilNam =
     (if linux then
        (case rpm oneFilNam of
           None \<Rightarrow> Some []
         | Some anOut \<Rightarrow>
             (let aPack = py_strip anOut
              in if endswith aPack ''is not owned by any package'' then Some []
                 else if aPack = [] then Some []
                 else (let lstPacks = py_split (CHR 0x0A) aPack
                       in if hd lstPacks = [] then Some [] else Some lstPacks)))
      else None)"

definition no_packages :: "string list option \<Rightarrow> bool" where
  "no_packages r \<longleftrightarrow> (case r of None \<Rightarrow> True | Some l \<Rightarrow> l = [])"

definition OneFileToPackageLinux ::
    "(string \<Rightarrow> string list option) \<Rightarrow> string \<Rightarrow> (package_cache, string list option) py" where
  "OneFileToPackageLinux noCache oneFilNam =
     (if CannotBePackaged oneFilNam then ret (Some [])
      else
        bnd (gets (\<lambda>c. map_of (m_cacheFilesToPackages c) oneFilNam)) (\<lambda>hit.
        case hit of
          Some lstPacks \<Rightarrow> ret lstPacks
        | None \<Rightarrow>
            (let lstPacks = noCache oneFilNam
             in andthen (modify (\<lambda>c. c\<lparr>
                    m_dirtyCache := m_dirtyCache c \<or> \<not> no_packages lstPacks,
                    m_cacheFilesToPackages := AList.update oneFilNam lstPacks (m_cacheFilesToPackages c)\<rparr>))
                (ret lstPacks))))"

fun packages_loop ::
    "(string \<Rightarrow> string list option) \<Rightarrow> string list \<Rightarrow> string list \<Rightarrow> string list \<Rightarrow>
     (package_cache, string list \<times> string list) py" where
  "packages_loop noCache [] lstPackages unknownFiles = ret (lstPackages, unknownFiles)"
| "packages_loop noCache (oneFil # fs) lstPackages unknownFiles =
     bnd (OneFileToPackageLinux noCache oneFil) (\<lambda>lstPacks.
     case lstPacks of
       Some (aPack # _) \<Rightarrow>
         if aPack = [] then raise (PyException ''Invalid package'')
         else packages_loop noCache fs (set_add aPack lstPackages) unknownFiles
     | _ \<Rightarrow> packages_loop noCache fs lstPackages (unknownFiles @ [oneFil]))"

definition GetPackagesList ::
    "(string \<Rightarrow> string list option) \<Rightarrow> string list \<Rightarrow> (package_cache, string list \<times> string list) py" where
  "GetPackagesList noCache lstPackagedFiles = packages_loop noCache lstPackagedFiles [] []"

subsection \<open>Python modules\<close>

text \<open>An installed distribution, with the lines of its metadata when it has them.\<close>

record distribution =
  dist_name :: string
  record_lines :: "string list option"
  installed_files :: "string list option"
  dist_location :: string
  dist_egg_info :: string

text \<open>\<open>os.path.join\<close> and \<open>os.path.normpath\<close>.\<close>

definition path_join :: "string \<Rightarrow> string \<Rightarrow> string" where
  "path_join a b =
     (if startswith b ''/'' then b
      else if a = [] \<or> endswith a ''/'' then a @ b else a @ ''/'' @ b)"

fun norm_comps :: "bool \<Rightarrow> string list \<Rightarrow> string list \<Rightarrow> string list" where
  "norm_comps rooted acc [] = acc"
| "norm_comps rooted acc (c # cs) =
     (if c = [] \<or> c = ''.'' then norm_comps rooted acc cs
      else if c \<noteq> ''..'' \<or> (\<not> rooted \<and> acc = []) \<or> (acc \<noteq> [] \<and> last acc = ''..'')
      then norm_comps rooted (acc @ [c]) cs
      else norm_comps rooted (butlast acc) cs)"

definition normpath :: "string \<Rightarrow> string" where
  "normpath path =
     (if path = [] then ''.''
      else (let slashes = (if startswith path ''/'' then
                             (if startswith path ''//'' \<and> \<not> startswith path ''///'' then ''//'' else ''/'') else []);
                p = slashes @ py_join ''/'' (norm_comps (slashes \<noteq> []) [] (py_split (CHR ''/'') path))
            in if p = [] then ''.'' else p))"

definition dist_paths :: "distribution \<Rightarrow> (string \<times> string list) option" where
  "dist_paths d =
     (case record_lines d of
        Some ls \<Rightarrow> Some (dist_location d, map (\<lambda>l. hd (py_split (CHR '','') l)) ls)
      | None \<Rightarrow>
          (case installed_files d of
             Some ps \<Rightarrow> Some (dist_egg_info d, ps)
           | None \<Rightarrow> None))"

type_synonym python_cache = "(string \<times> distribution list) list"

definition cache_path :: "distribution \<Rightarrow> string \<Rightarrow> python_cache \<Rightarrow> python_cache" where
  "cache_path d normedPath pythonCache =
     AList.update normedPath
       (case map_of pythonCache normedPath of None \<Rightarrow> [d] | Some l \<Rightarrow> l @ [d]) pythonCache"

text \<open>\<open>None\<close> when the distributions cannot be listed. An empty \<open>distDirectory\<close> lists no file.\<close>

definition PathToPythonModuleOneFileMakeCache :: "distribution list option \<Rightarrow> python_cache \<Rightarrow> python_cache" where
  "PathToPythonModuleOneFileMakeCache dists pythonCache =
     (case dists of
        None \<Rightarrow> pythonCache
      | Some ds \<Rightarrow>
          fold (\<lambda>d cache.
            case dist_paths d of
              None \<Rightarrow> cache
            | Some (dir, paths) \<Rightarrow>
                if dir = [] then cache
                else fold (\<lambda>p. cache_path d (normpath (path_join dir p))) paths cache) ds pythonCache)"

definition PathToPythonModuleOneFile :: "python_cache \<Rightarrow> string \<Rightarrow> distribution list" where
  "PathToPythonModuleOneFile pythonCache path = (case map_of pythonCache path of None \<Rightarrow> [] | Some l \<Rightarrow> l)"

text \<open>The version without cache that the cache replaced.\<close>

definition PathToPythonModuleOneFile_Old :: "distribution list option \<Rightarrow> string \<Rightarrow> distribution list" where
  "PathToPythonModuleOneFile_Old dists path =
     (case dists of
        None \<Rightarrow> []
      | Some ds \<Rightarrow>
          filter (\<lambda>d. case dist_paths d of
            None \<Rightarrow> False
          | Some (dir, paths) \<Rightarrow> dir \<noteq> [] \<and> path \<in> set (map (\<lambda>p. normpath (path_join dir p)) paths)) ds)"

fun modules_loop ::
    "python_cache \<Rightarrow> string list \<Rightarrow> distribution list \<Rightarrow> string list \<Rightarrow> distribution list \<times> string list" where
  "modules_loop pc [] mods unknown = (mods, unknown)"
| "modules_loop pc (f # fs) mods unknown =
     (let lstModules = PathToPythonModuleOneFile pc f
      in modules_loop pc fs (fold set_add lstModules mods)
           (if lstModules = [] then unknown @ [f] else unknown))"

definition FilesToPythonModules :: "python_cache \<Rightarrow> string list \<Rightarrow> distribution list \<times> string list" where
  "FilesToPythonModules pythonCache unpackagedDataFiles = modules_loop pythonCache unpackagedDataFiles [] []"

subsection \<open>The cache of the packages changes no answer\<close>

definition one_package :: "(string \<Rightarrow> string list option) \<Rightarrow> string \<Rightarrow> string list option" where
  "one_package noCache f = (if CannotBePackaged f then Some [] else noCache f)"

definition cache_ok :: "(string \<Rightarrow> string list option) \<Rightarrow> package_cache \<Rightarrow> bool" where
  "cache_ok noCache c \<longleftrightarrow> (\<forall>f l. map_of (m_cacheFilesToPackages c) f = Some l \<longrightarrow> l = noCache f)"

end
