(* ===== verification/Docker.thy ===== *)
theory Docker
  imports Packages
begin

text \<open>
  The Dockerfile that reproduces a run (\<^verbatim>\<open>GenerateDockerFile\<close>): the packages of the executables, the
  dependencies of the processes by type of program, the data files, the commands, the ports, the
  environment and the tree of the processes. The file system is a parameter; the directories that
  are made and the files that are copied are in the state, with the pieces that were written.

  Two files of a run never have the same name, so that a file is its name here.
\<close>

record docker_fs =
  fs_exists :: "string \<Rightarrow> bool"
  fs_isdir :: "string \<Rightarrow> bool"
  fs_makedirs :: "string \<Rightarrow> bool"
  fs_copy :: "string \<Rightarrow> string \<Rightarrow> bool"

record docker_state =
  dk_written :: "string list"
  InstalledPackages :: "(string \<times> string) list"
  dk_made :: "string list"
  dk_copied :: "(string \<times> string) list"
  dk_cache :: package_cache

definition dk_write :: "string \<Rightarrow> (docker_state, unit) py" where
  "dk_write t = modify (\<lambda>s. s\<lparr>dk_written := dk_written s @ [t]\<rparr>)"

definition with_cache :: "(package_cache, 'a) py \<Rightarrow> (docker_state, 'a) py" where
  "with_cache m = (\<lambda>s. case m (dk_cache s) of (r, c) \<Rightarrow> (r, s\<lparr>dk_cache := c\<rparr>))"

subsection \<open>Installing and copying\<close>

definition InstallPipModule :: "string \<Rightarrow> (docker_state, unit) py" where
  "InstallPipModule namePyModule =
     dk_write (''RUN pip --disable-pip-version-check install '' @ namePyModule @ nl)"

text \<open>The name of a package without its version, release and platform.\<close>

definition package_regex :: regex where
  "package_regex = [Star not_newline] @ lit ''-'' @ [Star not_newline] @ lit ''-'' @
     [Lazy not_newline] @ lit ''.'' @ [Star not_newline]"

definition short_package :: "string \<Rightarrow> string" where
  "short_package packageName =
     (case rsearch package_regex packageName of None \<Rightarrow> packageName | Some ps \<Rightarrow> ps ! 0)"

definition InstallLinuxPackage :: "string \<Rightarrow> (docker_state, unit) py" where
  "InstallLinuxPackage packageName =
     bnd (gets (\<lambda>s. map_of (InstalledPackages s) packageName)) (\<lambda>done.
     case done of
       Some pckShort \<Rightarrow> dk_write (''# Already installed '' @ pckShort @ '' -> '' @ packageName @ nl)
     | None \<Rightarrow>
         (let pckShort = short_package packageName
          in andthen (modify (\<lambda>s. s\<lparr>InstalledPackages := AList.update packageName pckShort (InstalledPackages s)\<rparr>))
             (if pckShort = ''coreutils''
              then dk_write (''# Potential conflict with '' @ pckShort @ '' , '' @ packageName @ nl)
              else dk_write (''RUN yum -y install '' @ pckShort @ '' # '' @ packageName @ nl))))"

definition AddToDockerDir :: "docker_fs \<Rightarrow> string \<Rightarrow> string \<Rightarrow> string option \<Rightarrow> (docker_state, unit) py" where
  "AddToDockerDir fs dockerDirectory pathName filComment =
     (if \<not> fs_exists fs pathName then dk_write (''# Origin file does not exist:'' @ pathName @ nl)
      else if fs_isdir fs pathName then ret ()
      else
        (let dstDir = dockerDirectory @ ''/'' @ dirname pathName;
             dstPath = dockerDirectory @ ''/'' @ pathName
         in bnd (gets dk_made) (\<lambda>made.
            andthen
              (if fs_exists fs dstDir \<or> dstDir \<in> set made then ret ()
               else if fs_makedirs fs dstDir then modify (\<lambda>s. s\<lparr>dk_made := dk_made s @ [dstDir]\<rparr>)
               else raise (PyException ''OSError''))
            (if fs_copy fs pathName dstPath then
               andthen (modify (\<lambda>s. s\<lparr>dk_copied := dk_copied s @ [(pathName, dstPath)]\<rparr>))
               (andthen (if no_text filComment then ret () else dk_write (''# '' @ the filComment @ nl))
                 (dk_write (''ADD '' @ pathName @ '' '' @ pathName @ nl)))
             else dk_write (''# Cannot add non-existent file:'' @ pathName @ nl)))))"

subsection \<open>The types of programs\<close>

datatype dependency = DependencyPython | DependencyPerl | DependencyBinary

definition DependencyName :: "dependency \<Rightarrow> string" where
  "DependencyName d =
     (case d of DependencyPython \<Rightarrow> ''Python scripts'' | DependencyPerl \<Rightarrow> ''Perl scripts''
      | DependencyBinary \<Rightarrow> ''Binary programs'')"

definition IsDepType_Python :: "cim_process \<Rightarrow> bool" where
  "IsDepType_Python p =
     (case Executable p of None \<Rightarrow> False | Some e \<Rightarrow> 0 \<le> py_find e ''/python'' \<or> startswith e ''python'')"

definition IsDepType_Perl :: "cim_process \<Rightarrow> bool" where
  "IsDepType_Perl p = (case Executable p of None \<Rightarrow> False | Some e \<Rightarrow> 0 \<le> py_find e ''/perl'')"

definition IsDepType_Binary :: "cim_process \<Rightarrow> bool" where
  "IsDepType_Binary p = True"

definition IsDepType :: "dependency \<Rightarrow> cim_process \<Rightarrow> bool" where
  "IsDepType d =
     (case d of DependencyPython \<Rightarrow> IsDepType_Python | DependencyPerl \<Rightarrow> IsDepType_Perl
      | DependencyBinary \<Rightarrow> IsDepType_Binary)"

definition IsCode_Python :: "string \<Rightarrow> bool" where
  "IsCode_Python nam = (endswith nam ''.py'' \<or> endswith nam ''.pyc'')"

definition IsCode_Perl :: "string \<Rightarrow> bool" where
  "IsCode_Perl nam = endswith nam ''.pl''"

definition IsCode_Binary :: "string \<Rightarrow> bool" where
  "IsCode_Binary nam = (0 < py_find nam ''.so'')"

definition IsCode :: "dependency \<Rightarrow> string \<Rightarrow> bool" where
  "IsCode d =
     (case d of DependencyPython \<Rightarrow> IsCode_Python | DependencyPerl \<Rightarrow> IsCode_Perl
      | DependencyBinary \<Rightarrow> IsCode_Binary)"

text \<open>Each slice up to \<open>find\<close> drops the last character when nothing is found.\<close>

definition IsSystemLib :: "string \<Rightarrow> bool" where
  "IsSystemLib filNam =
     (let basNam = basename filNam;
          noExt = py_upto basNam (py_find basNam ''.'');
          noExt' = py_upto noExt (py_find noExt ''-'')
      in basNam \<in> set [''ld.so.cache'', ''ld.so.preload''] \<or>
         noExt' \<in> set [''libdl'', ''libc'', ''libacl'', ''libm'', ''libutil'', ''libpthread''])"

definition index_of :: "'a \<Rightarrow> 'a list \<Rightarrow> nat option" where
  "index_of x xs = (if x \<in> set xs then Some (length (takeWhile (\<lambda>y. y \<noteq> x) xs)) else None)"

text \<open>The package of a Python file that is installed in a directory of packages.\<close>

definition site_package :: "string \<Rightarrow> string option" where
  "site_package filNam =
     (let splitFil = py_split (CHR ''/'') filNam;
          ixPack = (case index_of ''site-packages'' splitFil of
                      Some i \<Rightarrow> Some i | None \<Rightarrow> index_of ''dist-packages'' splitFil)
      in case ixPack of
           None \<Rightarrow> None
         | Some i \<Rightarrow>
             if Suc i < length splitFil \<and> \<not> endswith (splitFil ! Suc i) ''.py'' \<and>
                \<not> endswith (splitFil ! Suc i) ''.pyc''
             then Some (splitFil ! Suc i) else None)"

definition python_file :: "docker_fs \<Rightarrow> string \<Rightarrow> string \<Rightarrow> (docker_state, string list) py" where
  "python_file fs dir filNam =
     (if 0 \<le> py_find filNam ''packages'' then
        ret (case site_package filNam of None \<Rightarrow> [] | Some p \<Rightarrow> [p])
      else if startswith filNam ''/usr/lib/python2.7/'' \<or> startswith filNam ''/usr/lib64/python2.7'' then ret []
      else andthen (AddToDockerDir fs dir filNam None) (ret []))"

definition each :: "'a list \<Rightarrow> ('a \<Rightarrow> ('s, 'b) py) \<Rightarrow> ('s, unit) py" where
  "each xs f = andthen (for_each xs f) (ret ())"

definition GenerateDockerDependencies_Python ::
    "docker_fs \<Rightarrow> string \<Rightarrow> string list \<Rightarrow> (docker_state, unit) py" where
  "GenerateDockerDependencies_Python fs dir m_accessedCodeFiles =
     bnd (for_each m_accessedCodeFiles (python_file fs dir)) (\<lambda>packs.
     andthen (if m_accessedCodeFiles = [] then ret () else InstallLinuxPackage ''python'')
       (each (sort (fold set_add (concat packs) [])) InstallPipModule))"

definition GenerateDockerDependencies_Perl :: "string list \<Rightarrow> (docker_state, unit) py" where
  "GenerateDockerDependencies_Perl m_accessedCodeFiles =
     each m_accessedCodeFiles (\<lambda>f. dk_write (''RUN cpanm '' @ f @ nl))"

definition GenerateDockerDependencies_Binary ::
    "(string \<Rightarrow> string list option) \<Rightarrow> docker_fs \<Rightarrow> string \<Rightarrow> string list \<Rightarrow> (docker_state, unit) py" where
  "GenerateDockerDependencies_Binary noCache fs dir m_accessedCodeFiles =
     bnd (with_cache (GetPackagesList noCache m_accessedCodeFiles)) (\<lambda>(packs, unpackaged).
     andthen (dk_write (''# Package installations:'' @ nl))
     (andthen (each (sort packs) InstallLinuxPackage)
     (andthen (dk_write nl)
     (andthen (dk_write (''# Non-packaged executable files copies:'' @ nl))
       (each (sort unpackaged) (\<lambda>f. AddToDockerDir fs dir f None))))))"

definition GenerateDockerDependencies ::
    "(string \<Rightarrow> string list option) \<Rightarrow> docker_fs \<Rightarrow> string \<Rightarrow> dependency \<Rightarrow> string list \<Rightarrow> (docker_state, unit) py" where
  "GenerateDockerDependencies noCache fs dir d =
     (case d of
        DependencyPython \<Rightarrow> GenerateDockerDependencies_Python fs dir
      | DependencyPerl \<Rightarrow> GenerateDockerDependencies_Perl
      | DependencyBinary \<Rightarrow> GenerateDockerDependencies_Binary noCache fs dir)"

subsection \<open>What the processes need\<close>

record docker_needs =
  needs_code :: "dependency \<Rightarrow> string list"
  accessedDataFiles :: "string list"
  lstBinaryExecutables :: "string list"
  setUsefulDependencies :: "dependency list"

definition no_needs :: docker_needs where
  "no_needs = \<lparr>needs_code = (\<lambda>d. []), accessedDataFiles = [], lstBinaryExecutables = [],
     setUsefulDependencies = []\<rparr>"

definition file_name :: "world \<Rightarrow> objpath \<Rightarrow> string" where
  "file_name w k = (case file_at w k of None \<Rightarrow> [] | Some f \<Rightarrow> Name f)"

definition process_dependency :: "cim_process \<Rightarrow> dependency" where
  "process_dependency p =
     hd (filter (\<lambda>d. IsDepType d p) [DependencyPython, DependencyPerl, DependencyBinary])"

definition need_file :: "dependency \<Rightarrow> string \<Rightarrow> docker_needs \<Rightarrow> docker_needs" where
  "need_file d f n =
     (if IsCode d f then n\<lparr>needs_code := (needs_code n)(d := set_add f (needs_code n d))\<rparr>
      else n\<lparr>accessedDataFiles := set_add f (accessedDataFiles n)\<rparr>)"

definition process_needs :: "world \<Rightarrow> cim_process \<Rightarrow> docker_needs \<Rightarrow> docker_needs" where
  "process_needs w p n =
     (let d = process_dependency p;
          n1 = n\<lparr>setUsefulDependencies := set_add d (setUsefulDependencies n)\<rparr>;
          n2 = fold (\<lambda>i. need_file d (file_name w (m_objectCIM_DataFile (accesses w ! i)))) (m_ProcessFileAccesses p) n1
      in case m_ExecutableObject p of
           None \<Rightarrow> n2
         | Some e \<Rightarrow> n2\<lparr>lstBinaryExecutables := set_add (file_name w e) (lstBinaryExecutables n2)\<rparr>)"

definition all_needs :: "world \<Rightarrow> docker_needs" where
  "all_needs w = fold (\<lambda>(k, p). process_needs w p) (procs w) no_needs"

subsection \<open>The dependencies\<close>

definition categoriesNotInclude :: "string list" where
  "categoriesNotInclude =
     [''Temporary files'', ''Pipes and terminals'', ''Kernel file systems'', ''System config files'',
      ''Connected TCP sockets'', ''Other TCP/IP sockets'']"

text \<open>The data files that are not copied.\<close>

definition skip_data_file :: "world \<Rightarrow> string \<Rightarrow> bool" where
  "skip_data_file w filNam \<longleftrightarrow>
     (case file_at w (file_path filNam) of None \<Rightarrow> False | Some f \<Rightarrow> Category f \<in> set categoriesNotInclude) \<or>
     startswith filNam ''/usr/include/'' \<or> startswith filNam ''/usr/bin/'' \<or>
     startswith filNam ''UnknownFileDescr:'' \<or>
     filNam \<in> set [''-1'', ''stdin'', ''stdout'', ''stderr'', ''.''] \<or>
     endswith filNam ''/.'' \<or> endswith filNam ''/''"

definition data_files :: "docker_fs \<Rightarrow> string \<Rightarrow> world \<Rightarrow> string list \<Rightarrow> (docker_state, unit) py" where
  "data_files fs dir w unknownDataFiles =
     each (sort unknownDataFiles) (\<lambda>filNam.
       if skip_data_file w filNam then ret ()
       else AddToDockerDir fs dir filNam (map_option Category (file_at w (file_path filNam))))"

definition GenerateDockerProcessDependencies ::
    "(string \<Rightarrow> string list option) \<Rightarrow> python_cache \<Rightarrow> docker_fs \<Rightarrow> string \<Rightarrow> world \<Rightarrow> (docker_state, unit) py" where
  "GenerateDockerProcessDependencies noCache pythonCache fs dir w =
     (let n = all_needs w in
      if cache_procs w = None then raise KeyError
      else
      andthen (dk_write (''################################# Executables:'' @ nl))
      (bnd (with_cache (GetPackagesList noCache (lstBinaryExecutables n))) (\<lambda>(packs, _).
       andthen (each (sort packs) InstallLinuxPackage)
      (andthen (dk_write nl)
      (andthen (dk_write (''################################# Dependencies by program type'' @ nl))
      (andthen (each (setUsefulDependencies n) (\<lambda>d.
         andthen (dk_write (''# Dependencies: '' @ DependencyName d @ nl))
         (andthen (GenerateDockerDependencies noCache fs dir d (needs_code n d)) (dk_write nl))))
      (bnd (with_cache (GetPackagesList noCache (accessedDataFiles n))) (\<lambda>(packsData, unpackaged).
       case FilesToPythonModules pythonCache unpackaged of (mods, unknownDataFiles) \<Rightarrow>
       andthen (if mods = [] then ret ()
                else andthen (dk_write (''# Python modules:'' @ nl))
                  (andthen (each (sort_key id (map dist_name mods)) InstallPipModule) (dk_write nl)))
      (andthen (dk_write (''# Data packages:'' @ nl))
      (andthen (each (sort packsData) InstallLinuxPackage)
      (andthen (dk_write nl)
      (andthen (if unknownDataFiles = [] then ret ()
                else andthen (dk_write (''# Data files:'' @ nl)) (data_files fs dir w unknownDataFiles))
        (dk_write nl)))))))))))))"

subsection \<open>The Dockerfile\<close>

definition WriteEnvironVar :: "world \<Rightarrow> (docker_state, unit) py" where
  "WriteEnvironVar w =
     andthen (each (G_EnvironmentVariables w) (\<lambda>(envNam, envVal).
       dk_write (''ENV '' @ envNam @ '' '' @ (if envVal = [] then [CHR 0x22, CHR 0x22] else envVal) @ nl)))
     (dk_write nl)"

definition by_handle :: "world \<Rightarrow> objpath list \<Rightarrow> objpath list" where
  "by_handle w ks = sort_key (\<lambda>k. case proc_at w k of None \<Rightarrow> 0 | Some p \<Rightarrow> Handle p) ks"

primrec WriteOneProcessSubTree :: "nat \<Rightarrow> config \<Rightarrow> world \<Rightarrow> nat \<Rightarrow> objpath \<Rightarrow> (docker_state, unit) py" where
  "WriteOneProcessSubTree 0 cfg w depth k = raise too_deep"
| "WriteOneProcessSubTree (Suc limit) cfg w depth k =
     (case proc_at w k of
        None \<Rightarrow> raise dangling
      | Some p \<Rightarrow>
          andthen (dk_write (''# '' @ TimeStampToStr cfg (CreationDate p) @ '' -> '' @
            TimeStampToStr cfg (TerminationDate p) @ '' : '' @ concat (replicate depth ''    '') @ '' '' @
            (if GetCommandLine p = [] then ''????'' else GetCommandLine p) @ nl))
          (each (by_handle w (m_subProcesses p)) (WriteOneProcessSubTree limit cfg w (Suc depth))))"

definition WriteProcessTree :: "nat \<Rightarrow> config \<Rightarrow> world \<Rightarrow> (docker_state, unit) py" where
  "WriteProcessTree limit cfg w =
     andthen (dk_write (''# Processes tree'' @ nl))
     (bnd (of_res (GetTopProcesses w)) (\<lambda>tops.
      andthen (each (by_handle w tops) (WriteOneProcessSubTree limit cfg w 1)) (dk_write nl)))"

definition write_command :: "world \<Rightarrow> objpath \<Rightarrow> (docker_state, unit) py" where
  "write_command w k =
     (case proc_at w k of
        None \<Rightarrow> raise dangling
      | Some p \<Rightarrow>
          andthen (dk_write (''WORKDIR '' @ GetProcessCurrentDir p @ nl))
          (if truthy (GetCommandList p) then
             bnd (of_res (py_iter (GetCommandList p))) (\<lambda>wrds.
             dk_write (''CMD [ '' @ py_join '','' (map (\<lambda>v. [CHR 0x22] @ py_str v @ [CHR 0x22]) wrds) @ '' ]'' @ nl))
           else ret ()))"

text \<open>\<open>getservbyport\<close> answers with the name of a service, or raises.\<close>

definition write_port :: "(int \<Rightarrow> string option) \<Rightarrow> string \<Rightarrow> (docker_state, unit) py" where
  "write_port getservbyport onePort =
     andthen
       (case Option.bind (py_int onePort) getservbyport of
          Some txtPort \<Rightarrow> dk_write (''# Service: '' @ txtPort @ nl)
        | None \<Rightarrow> dk_write (''# Unknown service number: '' @ onePort @ nl))
     (dk_write (''EXPOSE '' @ onePort @ nl))"

definition write_ports :: "(int \<Rightarrow> string option) \<Rightarrow> string list option \<Rightarrow> (docker_state, unit) py" where
  "write_ports getservbyport portsList =
     (case portsList of
        None \<Rightarrow> ret ()
      | Some ps \<Rightarrow>
          if ps = [] then ret ()
          else andthen (dk_write (''# Port numbers:'' @ nl))
            (andthen (each ps (write_port getservbyport)) (dk_write nl)))"

definition GenerateDockerFile ::
    "(string \<Rightarrow> string list option) \<Rightarrow> python_cache \<Rightarrow> docker_fs \<Rightarrow> (int \<Rightarrow> string option) \<Rightarrow> string \<Rightarrow> nat \<Rightarrow>
     config \<Rightarrow> string \<Rightarrow> world \<Rightarrow> (docker_state, unit) py" where
  "GenerateDockerFile noCache pythonCache fs getservbyport currDatTim limit cfg dockerFilename w =
     (let dir = dirname dockerFilename in
      andthen (dk_write (''# Dockerfile generated '' @ currDatTim @ nl))
      (andthen (dk_write (''# Directory '' @ dir @ nl))
      (andthen (dk_write nl)
      (andthen (dk_write (''FROM docker.io/fedora'' @ nl))
      (andthen (dk_write nl)
      (andthen (dk_write (''MAINTAINER contact@primhillcomputers.com'' @ nl))
      (andthen (dk_write nl)
      (andthen (GenerateDockerProcessDependencies noCache pythonCache fs dir w)
      (bnd (of_res (GetTopProcesses w)) (\<lambda>tops.
       andthen (each tops (write_command w))
      (andthen (dk_write nl)
      (andthen (write_ports getservbyport (GetExposedPorts w))
      (andthen (WriteEnvironVar w)
        (WriteProcessTree limit cfg w))))))))))))))"

end
