(* ===== verification/PackageProps.thy ===== *)
theory PackageProps
  imports Docker
begin

text \<open>
  What the sources of the files promise: the cache of the packages changes no answer and survives from
  one run to the next, and the index of the Python modules answers as the search it replaced.
\<close>

subsection \<open>The packages of a list of files\<close>

text \<open>The package that is kept for a file, without any cache.\<close>

definition owner :: "(string \<Rightarrow> string list option) \<Rightarrow> string \<Rightarrow> string option" where
  "owner noCache f = (case one_package noCache f of Some (p # _) \<Rightarrow> Some p | _ \<Rightarrow> None)"

definition package_list :: "(string \<Rightarrow> string list option) \<Rightarrow> string list \<Rightarrow> string list" where
  "package_list noCache fs = fold set_add (List.map_filter (owner noCache) fs) []"

definition unknown_files :: "(string \<Rightarrow> string list option) \<Rightarrow> string list \<Rightarrow> string list" where
  "unknown_files noCache fs = filter (\<lambda>f. owner noCache f = None) fs"

lemma one_file_run:
  assumes "cache_ok noCache c"
  obtains c' where "OneFileToPackageLinux noCache f c = (Inr (one_package noCache f), c')" "cache_ok noCache c'"
proof (cases "CannotBePackaged f")
  case True
  with assms that [of c] show ?thesis by (simp add: OneFileToPackageLinux_def one_package_def)
next
  case False
  show ?thesis
  proof (cases "map_of (m_cacheFilesToPackages c) f")
    case None
    let ?c = "c\<lparr>m_dirtyCache := m_dirtyCache c \<or> \<not> no_packages (noCache f),
      m_cacheFilesToPackages := AList.update f (noCache f) (m_cacheFilesToPackages c)\<rparr>"
    have "cache_ok noCache ?c" using assms by (simp add: cache_ok_def update_conv')
    with None False that [of ?c] show ?thesis
      by (simp add: OneFileToPackageLinux_def one_package_def bnd_def andthen_def Let_def)
  next
    case (Some l)
    with assms have "l = noCache f" by (simp add: cache_ok_def)
    with Some assms False that [of c] show ?thesis
      by (simp add: OneFileToPackageLinux_def one_package_def bnd_def)
  qed
qed

lemma packages_loop_run:
  assumes "\<forall>f. owner noCache f \<noteq> Some []"
  shows "cache_ok noCache c \<Longrightarrow>
    \<exists>c'. packages_loop noCache fs ps us c =
      (Inr (fold set_add (List.map_filter (owner noCache) fs) ps, us @ unknown_files noCache fs), c') \<and>
      cache_ok noCache c'"
proof (induction fs arbitrary: ps us c)
  case (Cons f fs)
  obtain c1 where c1: "OneFileToPackageLinux noCache f c = (Inr (one_package noCache f), c1)" "cache_ok noCache c1"
    using one_file_run [OF Cons.prems] .
  show ?case
  proof (cases "owner noCache f")
    case None
    then have "one_package noCache f = None \<or> one_package noCache f = Some []"
      by (auto simp: owner_def split: option.splits list.splits)
    then show ?thesis using Cons.IH [OF c1(2), of ps "us @ [f]"] c1(1) None
      by (auto simp: bnd_def unknown_files_def map_filter_simps)
  next
    case (Some p)
    then obtain l where "one_package noCache f = Some (p # l)"
      by (auto simp: owner_def split: option.splits list.splits)
    moreover have "p \<noteq> []" using assms Some by metis
    ultimately show ?thesis using Cons.IH [OF c1(2), of "set_add p ps" us] c1(1) Some
      by (auto simp: bnd_def unknown_files_def map_filter_simps)
  qed
qed (simp add: unknown_files_def map_filter_simps)

lemma owner_not_empty: "owner (OneFileToPackageLinuxNoCache linux rpm) f \<noteq> Some []"
  by (auto simp: owner_def one_package_def OneFileToPackageLinuxNoCache_def Let_def
      split: option.splits list.splits if_splits)

lemma set_map_filter: "set (List.map_filter g xs) = {y. \<exists>x \<in> set xs. g x = Some y}"
  by (induction xs) (auto simp: map_filter_simps split: option.splits)

lemma fold_set_add:
  "set (fold set_add xs acc) = set acc \<union> set xs \<and> (distinct acc \<longrightarrow> distinct (fold set_add xs acc))"
  by (induction xs arbitrary: acc) (auto simp: set_add_def)

subsection \<open>From one run to the next\<close>

text \<open>The files of the machine after the cache was saved.\<close>

definition saved :: "(string \<times> saved_cache) option \<Rightarrow> (string \<Rightarrow> saved_cache) \<Rightarrow> string \<Rightarrow> saved_cache" where
  "saved d load = (case d of None \<Rightarrow> load | Some (f, s) \<Rightarrow> load(f := s))"

text \<open>Nothing that was found is lost when the cache is not marked as changed.\<close>

definition grown_from :: "package_cache \<Rightarrow> package_cache \<Rightarrow> bool" where
  "grown_from c c' \<longleftrightarrow> m_cacheFileName c' = m_cacheFileName c \<and> (m_dirtyCache c \<longrightarrow> m_dirtyCache c') \<and>
     (\<not> m_dirtyCache c' \<longrightarrow> (\<forall>f l. map_of (m_cacheFilesToPackages c') f = Some l \<longrightarrow> \<not> no_packages l \<longrightarrow>
        map_of (m_cacheFilesToPackages c) f = Some l))"

lemma grown_refl: "grown_from c c"
  by (simp add: grown_from_def)

lemma grown_trans: "grown_from a b \<Longrightarrow> grown_from b c \<Longrightarrow> grown_from a c"
  by (auto simp: grown_from_def)

lemma keeps_grown_one: "keeps (grown_from c0) (OneFileToPackageLinux noCache f)"
proof (rule keepsI)
  fix s assume g: "grown_from c0 s"
  have "grown_from s (snd (OneFileToPackageLinux noCache f s))"
    by (auto simp: OneFileToPackageLinux_def bnd_def andthen_def Let_def grown_from_def update_conv'
        split: if_splits option.splits)
  with g show "grown_from c0 (snd (OneFileToPackageLinux noCache f s))" by (rule grown_trans)
qed

lemma keeps_grown_loop: "keeps (grown_from c0) (packages_loop noCache fs ps us)"
proof (induction fs arbitrary: ps us)
  case (Cons f fs)
  then show ?case
    by (auto intro!: keeps_bnd keeps_grown_one keeps_ret keeps_rules split: option.splits list.splits)
qed (simp add: keeps_ret)

subsection \<open>The index of the Python modules\<close>

lemma cache_path_set:
  "set (PathToPythonModuleOneFile (cache_path d q cache) path) =
     set (PathToPythonModuleOneFile cache path) \<union> (if q = path then {d} else {})"
  by (auto simp: PathToPythonModuleOneFile_def cache_path_def update_conv' split: option.splits)

lemma cache_paths_set:
  "set (PathToPythonModuleOneFile (fold (\<lambda>p. cache_path d (g p)) ps cache) path) =
     set (PathToPythonModuleOneFile cache path) \<union> (if path \<in> g ` set ps then {d} else {})"
proof (induction ps arbitrary: cache)
  case (Cons p ps)
  show ?case by (auto simp: Cons cache_path_set)
qed simp

lemma modules_cache_set:
  "set (PathToPythonModuleOneFile (PathToPythonModuleOneFileMakeCache dists cache) path) =
     set (PathToPythonModuleOneFile cache path) \<union> set (PathToPythonModuleOneFile_Old dists path)"
proof (cases dists)
  case (Some ds)
  have "set (PathToPythonModuleOneFile (fold (\<lambda>d cache. case dist_paths d of None \<Rightarrow> cache
        | Some (dir, paths) \<Rightarrow> if dir = [] then cache
            else fold (\<lambda>p. cache_path d (normpath (path_join dir p))) paths cache) ds cache) path) =
      set (PathToPythonModuleOneFile cache path) \<union> set (PathToPythonModuleOneFile_Old (Some ds) path)"
  proof (induction ds arbitrary: cache)
    case (Cons d ds)
    show ?case
    proof (cases "dist_paths d")
      case None
      with Cons show ?thesis by (simp add: PathToPythonModuleOneFile_Old_def)
    next
      case (Some dp)
      then obtain dir paths where "dist_paths d = Some (dir, paths)" by (cases dp) simp
      with Cons cache_paths_set [of d "\<lambda>p. normpath (path_join dir p)" paths cache path] show ?thesis
        by (auto simp: PathToPythonModuleOneFile_Old_def)
    qed
  qed (simp add: PathToPythonModuleOneFile_Old_def)
  with Some show ?thesis by (simp add: PathToPythonModuleOneFileMakeCache_def)
qed (simp add: PathToPythonModuleOneFileMakeCache_def PathToPythonModuleOneFile_Old_def)

subsection \<open>Properties\<close>

text \<open>
  C32. The cache of the packages changes no answer: with a cache whose entries are answers of \<^verbatim>\<open>rpm\<close>,
  \<^verbatim>\<open>GetPackagesList\<close> does not fail, and it returns the packages that own one of the files, each once, in
  the order of the files, and the files without package. The new cache again only holds answers of
  \<^verbatim>\<open>rpm\<close>.
\<close>

theorem packages_uncached:
  assumes "cache_ok (OneFileToPackageLinuxNoCache linux rpm) c"
  shows "\<exists>c'. GetPackagesList (OneFileToPackageLinuxNoCache linux rpm) fs c =
      (Inr (package_list (OneFileToPackageLinuxNoCache linux rpm) fs,
            unknown_files (OneFileToPackageLinuxNoCache linux rpm) fs), c') \<and>
    cache_ok (OneFileToPackageLinuxNoCache linux rpm) c' \<and>
    distinct (package_list (OneFileToPackageLinuxNoCache linux rpm) fs) \<and>
    set (package_list (OneFileToPackageLinuxNoCache linux rpm) fs) =
      {p. \<exists>f \<in> set fs. owner (OneFileToPackageLinuxNoCache linux rpm) f = Some p}"
proof -
  let ?n = "OneFileToPackageLinuxNoCache linux rpm"
  have "distinct (package_list ?n fs)" "set (package_list ?n fs) = {p. \<exists>f \<in> set fs. owner ?n f = Some p}"
    using fold_set_add [of "List.map_filter (owner ?n) fs" "[]"]
    by (simp_all add: package_list_def set_map_filter)
  with packages_loop_run [OF _ assms, of fs "[]" "[]"] owner_not_empty show ?thesis
    by (simp add: GetPackagesList_def package_list_def)
qed

definition example_rpm :: "string \<Rightarrow> string option" where
  "example_rpm f = (if f = ''/usr/bin/ls'' then Some (''coreutils-8.30-6.fc30.x86_64'' @ [CHR 0x0A])
     else Some (f @ '' is not owned by any package''))"

theorem packages_uncached_witness:
  "\<exists>c'. GetPackagesList (OneFileToPackageLinuxNoCache True example_rpm) [''/usr/bin/ls'', ''/opt/x'', ''/usr/bin/ls'']
      \<lparr>m_cacheFileName = ''c'', m_cacheFilesToPackages = [], m_dirtyCache = False\<rparr> =
    (Inr ([''coreutils-8.30-6.fc30.x86_64''], [''/opt/x'']), c')"
proof -
  let ?n = "OneFileToPackageLinuxNoCache True example_rpm"
  let ?fs = "[''/usr/bin/ls'', ''/opt/x'', ''/usr/bin/ls'']"
  have "cache_ok ?n \<lparr>m_cacheFileName = ''c'', m_cacheFilesToPackages = [], m_dirtyCache = False\<rparr>"
    by (simp add: cache_ok_def)
  note r = packages_uncached [OF this, of ?fs]
  have "package_list ?n ?fs = [''coreutils-8.30-6.fc30.x86_64'']" "unknown_files ?n ?fs = [''/opt/x'']"
    by code_simp+
  with r show ?thesis by auto
qed

text \<open>
  C33. The cache survives: after a run, the cache is saved if it is marked as changed, and the next run,
  which loads the saved file, starts with a cache that again only holds answers of \<^verbatim>\<open>rpm\<close> and holds
  every package that the first run had found.
\<close>

theorem cache_survives:
  assumes "cache_ok (OneFileToPackageLinuxNoCache linux rpm) (FileToPackage_init tmpDir host load)"
    "GetPackagesList (OneFileToPackageLinuxNoCache linux rpm) fs (FileToPackage_init tmpDir host load) = (r, c)"
  shows "cache_ok (OneFileToPackageLinuxNoCache linux rpm)
      (FileToPackage_init tmpDir host (saved (DumpToFile c) load)) \<and>
    (\<forall>f l. map_of (m_cacheFilesToPackages c) f = Some l \<and> \<not> no_packages l \<longrightarrow>
       map_of (m_cacheFilesToPackages (FileToPackage_init tmpDir host (saved (DumpToFile c) load))) f = Some l)"
proof -
  let ?n = "OneFileToPackageLinuxNoCache linux rpm"
  let ?c0 = "FileToPackage_init tmpDir host load"
  have ok: "cache_ok ?n c"
    using packages_loop_run [OF _ assms(1), of fs "[]" "[]"] owner_not_empty assms(2)
    by (auto simp: GetPackagesList_def)
  have g: "grown_from ?c0 c"
    using keepsE [OF keeps_grown_loop grown_refl assms(2) [unfolded GetPackagesList_def]] .
  have n: "m_cacheFileName ?c0 = tmpDir @ ''/FileToPackageCache.'' @ host @ ''.txt''"
    by (simp add: FileToPackage_init_def Let_def split: saved_cache.split)
  show ?thesis
  proof (cases "m_dirtyCache c")
    case True
    with ok g n show ?thesis
      by (simp add: DumpToFile_def saved_def FileToPackage_init_def Let_def grown_from_def cache_ok_def)
  next
    case False
    with assms(1) g show ?thesis by (simp add: DumpToFile_def saved_def grown_from_def)
  qed
qed

theorem cache_survives_witness:
  "map_of (m_cacheFilesToPackages (FileToPackage_init ''/tmp'' ''h''
     (saved (DumpToFile (snd (GetPackagesList (OneFileToPackageLinuxNoCache True example_rpm) [''/usr/bin/ls'']
        (FileToPackage_init ''/tmp'' ''h'' (\<lambda>_. NoCacheFile))))) (\<lambda>_. NoCacheFile)))) ''/usr/bin/ls'' =
   Some (Some [''coreutils-8.30-6.fc30.x86_64''])"
proof -
  let ?n = "OneFileToPackageLinuxNoCache True example_rpm"
  let ?c0 = "FileToPackage_init ''/tmp'' ''h'' (\<lambda>_. NoCacheFile)"
  have ok: "cache_ok ?n ?c0" by (simp add: FileToPackage_init_def cache_ok_def)
  have "map_of (m_cacheFilesToPackages (snd (GetPackagesList ?n [''/usr/bin/ls''] ?c0))) ''/usr/bin/ls'' =
      Some (Some [''coreutils-8.30-6.fc30.x86_64''])" by code_simp
  with cache_survives [OF ok surjective_pairing, of "[''/usr/bin/ls'']"] show ?thesis
    by (simp add: no_packages_def)
qed

text \<open>
  The index of the Python modules that \<^verbatim>\<open>PathToPythonModuleOneFileMakeCache\<close> builds gives for each
  path the same distributions as the search over all installed distributions that it replaced.
\<close>

theorem module_index:
  "set (PathToPythonModuleOneFile (PathToPythonModuleOneFileMakeCache dists []) path) =
     set (PathToPythonModuleOneFile_Old dists path)"
  using modules_cache_set [of dists "[]" path] by (simp add: PathToPythonModuleOneFile_def)

text \<open>
  Nothing calls \<^verbatim>\<open>PathToPythonModuleOneFileMakeCache\<close>, so that the index that \<^verbatim>\<open>FilesToPythonModules\<close>
  reads is the empty dictionary of its initialisation: no file is ever attributed to a module, whatever
  is installed.
\<close>

lemma no_module_found: "FilesToPythonModules [] fs = ([], fs)"
proof -
  have "modules_loop [] fs [] us = ([], us @ fs)" for us
    by (induction fs arbitrary: us) (simp_all add: PathToPythonModuleOneFile_def)
  then show ?thesis by (simp add: FilesToPythonModules_def)
qed

end
