(* ===== verification/Dumpers.thy ===== *)
theory Dumpers
  imports Summary
begin

text \<open>
  The file of the calls of each process, in one of three formats (\<^verbatim>\<open>BatchDumperTXT\<close>,
  \<^verbatim>\<open>BatchDumperCSV\<close>, \<^verbatim>\<open>BatchDumperJSON\<close>). A dumper is its header, its footer and the text of one
  batch.
\<close>

text \<open>\<open>%6d\<close> and \<open>%-20s\<close>: padded on the left or on the right with blanks.\<close>

definition pad_left :: "nat \<Rightarrow> string \<Rightarrow> string" where
  "pad_left n s = replicate (n - length s) (CHR '' '') @ s"

definition pad_right :: "nat \<Rightarrow> string \<Rightarrow> string" where
  "pad_right n s = s @ replicate (n - length s) (CHR '' '')"

text \<open>The values of the constants of \<^verbatim>\<open>BatchStatus\<close>.\<close>

definition status_num :: "batch_status \<Rightarrow> nat" where
  "status_num st =
     (case st of StUnknown \<Rightarrow> 0 | StPlain \<Rightarrow> 1 | StUnfinished \<Rightarrow> 2 | StResumed \<Rightarrow> 3
      | StMatched \<Rightarrow> 4 | StMerged \<Rightarrow> 5 | StSequence \<Rightarrow> 6)"

definition ret_repr :: "string option \<Rightarrow> string" where
  "ret_repr r = (case r of None \<Rightarrow> ''None'' | Some s \<Rightarrow> s)"

definition FmtTim :: "string \<Rightarrow> string" where
  "FmtTim aTim = aTim"

definition args_repr :: "batchlet \<Rightarrow> string" where
  "args_repr b = py_repr (VList (m_significantArgs b))"

definition DumpBatch_TXT :: "batch_core list \<Rightarrow> batchlet \<Rightarrow> string" where
  "DumpBatch_TXT cs b =
     (let c = cs ! m_core b
      in ''Pid='' @ pad_left 6 (py_str_int (m_pid c)) @ '' {'' @ pad_left 4 (py_str_int (m_occurrences b)) @
         ''/'' @ m_style b @ ''}'' @ [status_char (m_status c)] @ [CHR 0x27] @ pad_right 20 (m_funcNam c) @
         [CHR 0x27] @ '' '' @ args_repr b @ '' ==>> '' @ ret_repr (m_retValue c) @ '' ('' @
         FmtTim (m_timeStart c) @ '','' @ FmtTim (m_timeEnd c) @ '')'' @ nl)"

definition DumpBatch_CSV :: "batch_core list \<Rightarrow> batchlet \<Rightarrow> string" where
  "DumpBatch_CSV cs b =
     (let c = cs ! m_core b
      in py_join '',''
           [py_str_int (m_pid c), py_str_int (m_occurrences b), m_style b, dec_nat (status_num (m_status c)),
            m_funcNam c, args_repr b, ret_repr (m_retValue c), FmtTim (m_timeStart c), FmtTim (m_timeEnd c)] @ nl)"

definition json_line :: "string \<Rightarrow> string \<Rightarrow> string" where
  "json_line k v = ''   '' @ [CHR 0x22] @ k @ [CHR 0x22] @ '' : '' @ v @ nl"

definition dquoted :: "string \<Rightarrow> string" where
  "dquoted s = [CHR 0x22] @ s @ [CHR 0x22]"

definition DumpBatch_JSON :: "batch_core list \<Rightarrow> batchlet \<Rightarrow> string" where
  "DumpBatch_JSON cs b =
     (let c = cs ! m_core b
      in ''{'' @ nl @
         json_line ''pid'' (py_str_int (m_pid c)) @
         json_line ''occurrences'' (py_str_int (m_occurrences b)) @
         json_line ''style'' (m_style b) @
         json_line ''status'' (dec_nat (status_num (m_status c))) @
         json_line ''function'' (dquoted (m_funcNam c)) @
         json_line ''arguments'' (args_repr b) @
         json_line ''return_value'' (dquoted (ret_repr (m_retValue c))) @
         json_line ''time_start'' (dquoted (FmtTim (m_timeStart c))) @
         json_line ''time_end'' (dquoted (FmtTim (m_timeEnd c))) @
         ''},'' @ nl)"

record batch_dumper =
  DumperHeader :: string
  DumperFooter :: string
  DumpBatch :: "batch_core list \<Rightarrow> batchlet \<Rightarrow> string"

definition BatchDumperTXT :: batch_dumper where
  "BatchDumperTXT = \<lparr>DumperHeader = [], DumperFooter = [], DumpBatch = DumpBatch_TXT\<rparr>"

definition BatchDumperCSV :: batch_dumper where
  "BatchDumperCSV =
     \<lparr>DumperHeader = ''Pid,Occurrences,Style,Function,Arguments,Return,Start,End'' @ nl, DumperFooter = [],
      DumpBatch = DumpBatch_CSV\<rparr>"

definition BatchDumperJSON :: batch_dumper where
  "BatchDumperJSON = \<lparr>DumperHeader = ''['' @ nl, DumperFooter = '']'' @ nl, DumpBatch = DumpBatch_JSON\<rparr>"

definition BatchDumperFactory :: "string \<Rightarrow> batch_dumper pyres" where
  "BatchDumperFactory outputFormat =
     (case map_of [(''TXT'', BatchDumperTXT), (''CSV'', BatchDumperCSV), (''JSON'', BatchDumperJSON)] outputFormat of
        None \<Rightarrow> Inl KeyError
      | Some d \<Rightarrow> Inr d)"

definition DumpFlow :: "batch_core list \<Rightarrow> string \<Rightarrow> batchlet list \<Rightarrow> string pyres" where
  "DumpFlow cs outputFormat l =
     (case BatchDumperFactory outputFormat of
        Inl e \<Rightarrow> Inl e
      | Inr d \<Rightarrow> Inr (DumperHeader d @ concat (map (DumpBatch d cs) l) @ DumperFooter d))"

end
