(* ===== verification/Driver.thy ===== *)
theory Driver
  imports Docker Dumpers
begin

text \<open>
  From the command line to the results: the options, the command of the tracer, the log and its
  context file, the run, and its outputs (\<^verbatim>\<open>CreateEventLog\<close>, \<^verbatim>\<open>FromStreamToFlow\<close>, the main program).
  The machine (files, date, host, the tracer that is started) is a parameter. \<open>getopt\<close> is not
  modelled: the options are its result. An option \<open>-p\<close> is a text, and in Python 2 a text is greater
  than any number.
\<close>

subsection \<open>The command of the tracer\<close>

definition G_StringSize :: string where
  "G_StringSize = ''500''"

definition BuildLTraceCommand :: "string list \<Rightarrow> pyval \<Rightarrow> pyval list" where
  "BuildLTraceCommand extCommand aPid =
     map VStr [''ltrace'', ''-tt'', ''-T'', ''-f'', ''-S'', ''-s'', G_StringSize, ''-e'', ''-*+getenv+*@SYS''] @
     (if extCommand \<noteq> [] then map VStr extCommand else [VStr ''-p'', aPid])"

definition BuildSTraceCommand :: "string list \<Rightarrow> pyval \<Rightarrow> pyval list" where
  "BuildSTraceCommand extCommand aPid =
     map VStr [''strace'', ''-q'', ''-qq'', ''-f'', ''-tt'', ''-T'', ''-s'', G_StringSize, ''-y'', ''-yy'',
               ''-e'', ''trace=desc,ipc,process,network,memory''] @
     (if extCommand \<noteq> [] then map VStr (''-D'' # extCommand) else [VStr ''-p'', aPid])"

definition is_text :: "pyval \<Rightarrow> bool" where
  "is_text v = (case v of VStr _ \<Rightarrow> True | _ \<Rightarrow> False)"

text \<open>\<open>aPid > 0\<close> and \<open>int(aPid)\<close>.\<close>

definition positive :: "pyval \<Rightarrow> bool" where
  "positive v = (case v of VInt i \<Rightarrow> 0 < i | VBool b \<Rightarrow> b | VNone \<Rightarrow> False | _ \<Rightarrow> True)"

definition int_of_val :: "pyval \<Rightarrow> int pyres" where
  "int_of_val v =
     (case v of
        VInt i \<Rightarrow> Inr i
      | VBool b \<Rightarrow> Inr (if b then 1 else 0)
      | VStr s \<Rightarrow> (case py_int s of None \<Rightarrow> Inl ValueError | Some i \<Rightarrow> Inr i)
      | _ \<Rightarrow> Inl TypeError)"

text \<open>\<open>popen\<close> starts a command: the number of its process and the lines that it writes.\<close>

definition GenerateLinuxStreamFromCommand ::
    "(string list \<Rightarrow> int \<times> string list) \<Rightarrow> pyval list \<Rightarrow> pyval \<Rightarrow> (int \<times> string list) pyres" where
  "GenerateLinuxStreamFromCommand popen aCmd aPid =
     (if \<not> list_all is_text aCmd then Inl TypeError
      else (case popen (map py_str aCmd) of (pid, stream) \<Rightarrow>
        if positive aPid then map_sum id (\<lambda>i. (i, stream)) (int_of_val aPid) else Inr (pid, stream)))"

definition not_implemented :: pyexc where
  "not_implemented = PyException ''Not implemented yet''"

text \<open>The first function of \<open>G_traceToTracer\<close>.\<close>

definition LogFileStream ::
    "(string list \<Rightarrow> int \<times> string list) \<Rightarrow> string \<Rightarrow> string list \<Rightarrow> pyval \<Rightarrow> (int \<times> string list) pyres" where
  "LogFileStream popen tracer argsCmd aPid =
     (if tracer = ''cdb'' then Inl not_implemented
      else if tracer = strace then GenerateLinuxStreamFromCommand popen (BuildSTraceCommand argsCmd aPid) aPid
      else if tracer = ltrace then GenerateLinuxStreamFromCommand popen (BuildLTraceCommand argsCmd aPid) aPid
      else Inl (PyException ''Unknown tracer''))"

subsection \<open>The tracer of a log file\<close>

definition not_dot :: "char \<Rightarrow> bool" where
  "not_dot c \<longleftrightarrow> c \<noteq> CHR ''.''"

definition is_digit :: "char \<Rightarrow> bool" where
  "is_digit c \<longleftrightarrow> CHR ''0'' \<le> c \<and> c \<le> CHR ''9''"

definition pid_log_regex :: regex where
  "pid_log_regex = [Star not_newline] @ lit ''.'' @ [Star not_dot] @ lit ''.'' @ [One is_digit, Star is_digit] @
     lit ''.log''"

definition log_regex :: regex where
  "log_regex = [Star not_newline] @ lit ''.'' @ [Star not_dot] @ lit ''.log''"

definition DefaultTracer :: "string \<Rightarrow> string option \<Rightarrow> string option \<Rightarrow> string pyres" where
  "DefaultTracer platform inputLogFile tracer =
     (if \<not> no_text tracer then Inr (the tracer)
      else if \<not> no_text inputLogFile then
        (case rmatch pid_log_regex (the inputLogFile) of
           Some ps \<Rightarrow> Inr (ps ! 2)
         | None \<Rightarrow>
             (case rmatch log_regex (the inputLogFile) of
                Some ps \<Rightarrow> Inr (ps ! 2)
              | None \<Rightarrow> Inl (PyException ''Cannot read tracer from log file name'')))
      else if startswith platform ''win32'' then Inr ''cdb''
      else if startswith platform ''linux'' then Inr strace
      else Inl (PyException ''Unknown platform''))"

subsection \<open>The context of a run\<close>

text \<open>The lines of a file, each with its newline; \<open>None\<close> is a file that cannot be opened.\<close>

record machine =
  read_lines :: "string \<Rightarrow> string list option"
  today :: string
  hostname :: string
  sys_platform :: string
  cwd :: string
  popen :: "string list \<Rightarrow> int \<times> string list"

fun ini_loop :: "string list \<Rightarrow> (string \<times> string) list \<Rightarrow> (string \<times> string) list" where
  "ini_loop [] mapKV = mapKV"
| "ini_loop (linKV # ls) mapKV =
     (let clnKV = py_strip linKV; idxEq = py_find clnKV ''=''
      in if clnKV = [] \<or> hd clnKV = CHR '';'' \<or> idxEq < 0 then ini_loop ls mapKV
         else ini_loop ls (AList.update (py_upto clnKV idxEq) (py_from clnKV (idxEq + 1)) mapKV))"

definition LoadIniFile :: "machine \<Rightarrow> string \<Rightarrow> (string \<times> string) list" where
  "LoadIniFile m iniFilNam = (case read_lines m iniFilNam of None \<Rightarrow> [] | Some ls \<Rightarrow> ini_loop ls [])"

record run_context =
  ctx_topProcessId :: int
  ctx_CurrentDirectory :: string
  ctx_Today :: string
  ctx_Hostname :: string
  ctx_OSType :: string
  ctx_ReplayMode :: bool
  ctx_SameMachine :: bool

definition ini_get :: "(string \<times> string) list \<Rightarrow> string \<Rightarrow> string \<Rightarrow> string" where
  "ini_get mapKV k dflt = (case map_of mapKV k of None \<Rightarrow> dflt | Some v \<Rightarrow> v)"

definition valid_source :: "string list \<Rightarrow> pyval \<Rightarrow> string option \<Rightarrow> bool" where
  "valid_source argsCmd aPid inputLogFile \<longleftrightarrow>
     (if argsCmd \<noteq> [] then \<not> (positive aPid \<or> \<not> no_text inputLogFile)
      else positive aPid \<or> \<not> no_text inputLogFile)"

text \<open>A replay reads the log and its context file; otherwise the tracer is started.\<close>

definition CreateEventLog ::
    "machine \<Rightarrow> string list \<Rightarrow> pyval \<Rightarrow> string option \<Rightarrow> string \<Rightarrow> (run_context \<times> string list) pyres" where
  "CreateEventLog m argsCmd aPid inputLogFile tracer =
     (if \<not> valid_source argsCmd aPid inputLogFile then Inl SystemExit
      else if \<not> no_text inputLogFile then
        (case read_lines m (the inputLogFile) of
           None \<Rightarrow> Inl (PyException ''IOError'')
         | Some logStream \<Rightarrow>
             (let mapKV = LoadIniFile m (fst (splitext (the inputLogFile)) @ ''.ini'');
                  host = ini_get mapKV ''CurrentHostname'' (hostname m)
              in case int_of_val (case map_of mapKV ''TopProcessId'' of None \<Rightarrow> aPid | Some v \<Rightarrow> VStr v) of
                   Inl e \<Rightarrow> Inl e
                 | Inr topPid \<Rightarrow>
                     Inr (\<lparr>ctx_topProcessId = topPid,
                           ctx_CurrentDirectory = ini_get mapKV ''CurrentDirectory'' (cwd m),
                           ctx_Today = ini_get mapKV ''CurrentDate'' (today m),
                           ctx_Hostname = host,
                           ctx_OSType = ini_get mapKV ''CurrentOSType'' (sys_platform m),
                           ctx_ReplayMode = True, ctx_SameMachine = (host = hostname m)\<rparr>, logStream)))
      else
        (case LogFileStream (popen m) tracer argsCmd aPid of
           Inl e \<Rightarrow> Inl e
         | Inr (topPid, logStream) \<Rightarrow>
             Inr (\<lparr>ctx_topProcessId = topPid, ctx_CurrentDirectory = cwd m, ctx_Today = today m,
                   ctx_Hostname = hostname m, ctx_OSType = sys_platform m,
                   ctx_ReplayMode = False, ctx_SameMachine = True\<rparr>, logStream)))"

text \<open>The variables of a run that are set by its context.\<close>

definition set_context :: "run_context \<Rightarrow> config \<Rightarrow> config" where
  "set_context x cfg =
     cfg\<lparr>G_ReplayMode := ctx_ReplayMode x, G_SameMachine := ctx_SameMachine x,
         G_topProcessId := ctx_topProcessId x, G_CurrentDirectory := ctx_CurrentDirectory x,
         G_Today := ctx_Today x\<rparr>"

subsection \<open>The run and its outputs\<close>

definition fullMapParamsSummary :: "string list" where
  "fullMapParamsSummary =
     [''CIM_ComputerSystem'', ''CIM_OperatingSystem'', ''CIM_NetworkAdapter'', ''CIM_Process'', ''CIM_DataFile'']"

text \<open>The parameters of the run that are no variable of the analysis.\<close>

record tools =
  getargspec :: "string \<Rightarrow> (string list \<times> pyval list option) pyres"
  recursion_limit :: nat
  rpm_packages :: "string \<Rightarrow> string list option"
  python_modules :: python_cache
  docker_files :: docker_fs
  getservbyport :: "int \<Rightarrow> string option"
  now_text :: string

record outputs =
  outputSummaryFile :: "string option"
  unfinished_report :: string
  flow_file :: "(string \<times> string) option"
  summary_text :: "string option"
  docker_file :: "(string \<times> string list) option"

definition summary_file :: "string option \<Rightarrow> string option \<Rightarrow> string option" where
  "summary_file outFile summaryFormat =
     (if no_text summaryFormat then None
      else Some ((if no_text outFile then ''summary'' else fst (splitext (the outFile))) @ ''.'' @
                 map to_lower (the summaryFormat)))"

fun dump_flows :: "batch_core list \<Rightarrow> string \<Rightarrow> flow_map \<Rightarrow> int list \<Rightarrow> string pyres" where
  "dump_flows cs outputFormat mapFlows [] = Inr []"
| "dump_flows cs outputFormat mapFlows (aPid # ps) =
     (case map_of mapFlows aPid of
        None \<Rightarrow> Inl KeyError
      | Some f \<Rightarrow>
          (case DumpFlow cs outputFormat (m_listBatchLets f) of
             Inl e \<Rightarrow> Inl e
           | Inr t \<Rightarrow> map_sum id (\<lambda>u. nl @ ''================== PID='' @ py_str_int aPid @ nl @ t @ u)
                       (dump_flows cs outputFormat mapFlows ps)))"

definition flow_output :: "string \<Rightarrow> string option \<Rightarrow> flow_map \<Rightarrow> (world, (string \<times> string) option) py" where
  "flow_output outputFormat outFile mapFlows =
     (if no_text outFile then ret None
      else
        bnd (gets (\<lambda>w. dump_flows (cores w) outputFormat mapFlows (sorted_pids mapFlows))) (\<lambda>r.
        bnd (of_res r) (\<lambda>t. ret (Some (the outFile, t)))))"

definition docker_dir :: "string option \<Rightarrow> string option \<Rightarrow> string" where
  "docker_dir outFile summaryFile =
     (if \<not> no_text outFile then fst (splitext (the outFile))
      else if \<not> no_text summaryFile then fst (splitext (the summaryFile)) else ''docker'') @ ''.docker''"

definition docker_output ::
    "tools \<Rightarrow> config \<Rightarrow> package_cache \<Rightarrow> string \<Rightarrow> (world, (string \<times> string list) option) py" where
  "docker_output tls cfg cache dir =
     bnd (gets (\<lambda>w. GenerateDockerFile (rpm_packages tls) (python_modules tls) (docker_files tls) (getservbyport tls)
            (now_text tls) (recursion_limit tls) cfg (dir @ ''/Dockerfile'') w
            \<lparr>dk_written = [], InstalledPackages = [], dk_made = [], dk_copied = [], dk_cache = cache\<rparr>)) (\<lambda>(r, d).
     bnd (of_res r) (\<lambda>_. ret (Some (dir @ ''/Dockerfile'', dk_written d))))"

definition FromStreamToFlow ::
    "tools \<Rightarrow> config \<Rightarrow> package_cache \<Rightarrow> nat \<Rightarrow> string list \<Rightarrow> string \<Rightarrow> string \<Rightarrow> string option \<Rightarrow> string list \<Rightarrow>
     string option \<Rightarrow> bool \<Rightarrow> (world, outputs) py" where
  "FromStreamToFlow tls cfg cache withWarning logStream tracer outputFormat outFile mapParamsSummary summaryFormat
       withDockerfile =
     bnd (CreateMapFlowFromStream cfg tracer logStream) (\<lambda>mapFlows.
     bnd (gets (PrintUnfinished withWarning)) (\<lambda>report.
     bnd (flow_output outputFormat outFile mapFlows) (\<lambda>flow.
     bnd (GenerateSummary (getargspec tls) (recursion_limit tls) cfg
            (if withDockerfile then fullMapParamsSummary else mapParamsSummary) summaryFormat) (\<lambda>summary.
     bnd (if withDockerfile
          then docker_output tls cfg cache (docker_dir outFile (summary_file outFile summaryFormat))
          else ret None) (\<lambda>docker.
     ret \<lparr>outputSummaryFile = summary_file outFile summaryFormat, unfinished_report = report,
          flow_file = flow, summary_text = summary, docker_file = docker\<rparr>)))))"

text \<open>The function of the unit tests replays a log.\<close>

definition UnitTest ::
    "machine \<Rightarrow> tools \<Rightarrow> config \<Rightarrow> package_cache \<Rightarrow> string \<Rightarrow> string \<Rightarrow> int \<Rightarrow> string option \<Rightarrow> string \<Rightarrow> string list \<Rightarrow>
     string option \<Rightarrow> nat \<Rightarrow> bool \<Rightarrow> (world, string option) py" where
  "UnitTest m tls cfg cache inputLogFile tracer topPid outFile outputFormat mapParamsSummary summaryFormat
       withWarning withDockerfile =
     bnd (of_res (CreateEventLog m [] (VInt topPid) (Some inputLogFile) tracer)) (\<lambda>(x, logStream).
     bnd (FromStreamToFlow tls (set_context x cfg) cache withWarning logStream tracer outputFormat outFile
            mapParamsSummary summaryFormat withDockerfile) (\<lambda>out.
     ret (outputSummaryFile out)))"

subsection \<open>The main program\<close>

record options =
  opt_verbose :: nat
  opt_withWarning :: nat
  opt_mapParamsSummary :: "string list"
  opt_withDockerfile :: bool
  opt_aPid :: pyval
  opt_outputFormat :: string
  opt_summaryFormat :: "string option"
  opt_inputLogFile :: "string option"
  opt_outputLogFilePrefix :: "string option"
  opt_tracer :: "string option"
  opt_UpdateServer :: "string option"

definition default_options :: options where
  "default_options =
     \<lparr>opt_verbose = 0, opt_withWarning = 0, opt_mapParamsSummary = fullMapParamsSummary,
      opt_withDockerfile = False, opt_aPid = VInt (- 1), opt_outputFormat = ''TXT'',
      opt_summaryFormat = None, opt_inputLogFile = None, opt_outputLogFilePrefix = None,
      opt_tracer = None, opt_UpdateServer = None\<rparr>"

text \<open>
  One option, in the order of the tests of the code: the second test on \<open>-w\<close> is never reached, and
  \<open>-o\<close>, the names \<open>--window\<close> and \<open>--output\<close> are not declared to \<open>getopt\<close>.
\<close>

definition read_option :: "string \<times> string \<Rightarrow> options \<Rightarrow> options pyres" where
  "read_option ov o' =
     (case ov of (anOpt, aVal) \<Rightarrow>
        if anOpt \<in> set [''-v'', ''--verbose''] then Inr (o'\<lparr>opt_verbose := opt_verbose o' + 1\<rparr>)
        else if anOpt \<in> set [''-w'', ''--warning''] then Inr (o'\<lparr>opt_withWarning := opt_withWarning o' + 1\<rparr>)
        else if anOpt \<in> set [''-s'', ''--summary''] then
          Inr (o'\<lparr>opt_mapParamsSummary := (if aVal \<noteq> [] then opt_mapParamsSummary o' @ [aVal] else [])\<rparr>)
        else if anOpt \<in> set [''-D'', ''--dockerfile''] then Inr (o'\<lparr>opt_withDockerfile := True\<rparr>)
        else if anOpt \<in> set [''-p'', ''--pid''] then Inr (o'\<lparr>opt_aPid := VStr aVal\<rparr>)
        else if anOpt \<in> set [''-f'', ''--format''] then Inr (o'\<lparr>opt_outputFormat := map to_upper aVal\<rparr>)
        else if anOpt \<in> set [''-F'', ''--summary_format''] then Inr (o'\<lparr>opt_summaryFormat := Some (map to_upper aVal)\<rparr>)
        else if anOpt \<in> set [''-i'', ''--input''] then Inr (o'\<lparr>opt_inputLogFile := Some aVal\<rparr>)
        else if anOpt \<in> set [''-l'', ''--log''] then Inr (o'\<lparr>opt_outputLogFilePrefix := Some aVal\<rparr>)
        else if anOpt \<in> set [''-t'', ''--tracer''] then Inr (o'\<lparr>opt_tracer := Some aVal\<rparr>)
        else if anOpt \<in> set [''-S'', ''--server''] then Inr (o'\<lparr>opt_UpdateServer := Some aVal\<rparr>)
        else if anOpt \<in> set [''-h'', ''--help''] then Inl SystemExit
        else Inl AssertionError)"

fun read_options :: "(string \<times> string) list \<Rightarrow> options \<Rightarrow> options pyres" where
  "read_options [] o' = Inr o'"
| "read_options (ov # ovs) o' = (case read_option ov o' of Inl e \<Rightarrow> Inl e | Inr o2 \<Rightarrow> read_options ovs o2)"

definition log_prefix :: "string \<Rightarrow> string \<Rightarrow> int \<Rightarrow> string" where
  "log_prefix outputLogFilePrefix tracer topPid = outputLogFilePrefix @ ''.'' @ tracer @ ''.'' @ py_str_int topPid @ ''.''"

text \<open>The lines of the context file that a traced run leaves for its replays.\<close>

definition ini_file :: "machine \<Rightarrow> run_context \<Rightarrow> string list" where
  "ini_file m x =
     [''TopProcessId='' @ py_str_int (ctx_topProcessId x) @ nl, ''CurrentDirectory='' @ cwd m @ nl,
      ''CurrentDate='' @ ctx_Today x @ nl, ''CurrentHostname='' @ hostname m @ nl,
      ''CurrentOSType='' @ sys_platform m @ nl]"

text \<open>
  The files that the main program writes before the run: the copy of the log, and the context unless
  it replays a log. The copy gets each line when it is read, and the whole log is read.
\<close>

definition log_files :: "machine \<Rightarrow> options \<Rightarrow> string \<Rightarrow> run_context \<Rightarrow> string list \<Rightarrow> (string \<times> string list) list" where
  "log_files m o' tracer x logStream =
     (case opt_outputLogFilePrefix o' of
        None \<Rightarrow> []
      | Some p \<Rightarrow>
          if p = [] then []
          else (let fullPrefixNoExt = log_prefix p tracer (ctx_topProcessId x)
                in (fullPrefixNoExt @ ''log'', logStream) #
                   (if ctx_ReplayMode x then [] else [(fullPrefixNoExt @ ''ini'', ini_file m x)])))"

definition out_file :: "options \<Rightarrow> string \<Rightarrow> run_context \<Rightarrow> string option" where
  "out_file o' tracer x =
     (if no_text (opt_outputLogFilePrefix o') then None
      else Some (log_prefix (the (opt_outputLogFilePrefix o')) tracer (ctx_topProcessId x) @
                 map to_lower (opt_outputFormat o')))"

definition main_program ::
    "machine \<Rightarrow> tools \<Rightarrow> config \<Rightarrow> package_cache \<Rightarrow> (string \<times> string) list \<Rightarrow> string list \<Rightarrow>
     (world, (string \<times> string list) list \<times> outputs) py" where
  "main_program m tls cfg cache optsCmd argsCmd =
     bnd (of_res (read_options optsCmd default_options)) (\<lambda>o'.
     bnd (of_res (DefaultTracer (sys_platform m) (opt_inputLogFile o') (opt_tracer o'))) (\<lambda>tracer.
     bnd (of_res (CreateEventLog m argsCmd (opt_aPid o') (opt_inputLogFile o') tracer)) (\<lambda>(x, logStream).
     bnd (FromStreamToFlow tls (set_context x cfg) cache (opt_withWarning o') logStream tracer
            (opt_outputFormat o') (out_file o' tracer x) (opt_mapParamsSummary o') (opt_summaryFormat o')
            (opt_withDockerfile o')) (\<lambda>out.
     ret (log_files m o' tracer x logStream, out)))))"

end
