(* ===== verification/DriverProps.thy ===== *)
theory DriverProps
  imports Driver LineProps
begin

text \<open>
  What the files of a run promise: a run that is traced leaves a log and a context file from which a
  replay finds the tracer and restores the context; the packages of the Dockerfile are installed once;
  and the short name of a package is the one of the conventions of RPM.
\<close>

subsection \<open>The characters that a match needs\<close>

text \<open>A match of an expression with literals has their characters.\<close>

definition needs :: "char \<Rightarrow> nat \<Rightarrow> regex \<Rightarrow> bool" where
  "needs c n r \<longleftrightarrow> (\<forall>ps. parts_ok r ps \<longrightarrow> n \<le> count_list (concat ps) c)"

lemma count_list_append [simp]: "count_list (xs @ ys) c = count_list xs c + count_list ys c"
  by (induction xs) auto

lemma needs_None:
  assumes "needs c n r" "count_list s c < n"
  shows "rmatch r s = None"
proof (rule ccontr)
  assume "rmatch r s \<noteq> None"
  then obtain ps where ps: "parts_ok r ps" "startswith s (concat ps)" using rmatch_sound by blast
  then obtain t where "s = concat ps @ t" by (auto simp: startswith_iff)
  then have "count_list (concat ps) c \<le> count_list s c" by simp
  with assms ps(1) show False by (auto simp: needs_def)
qed

lemma proper_suffix_count: "x # u = a @ b \<Longrightarrow> a \<noteq> [] \<Longrightarrow> count_list b c \<le> count_list u c"
  by (cases a) auto

subsection \<open>The short name of a package\<close>

definition after_name :: regex where
  "after_name = lit ''-'' @ [Star not_newline] @ lit ''-'' @ [Lazy not_newline] @ lit ''.'' @ [Star not_newline]"

lemma needs_after_name: "needs (CHR ''-'') 2 after_name"
  by (auto simp: needs_def after_name_def)

lemma short_package_nvra:
  assumes "CHR 0x0A \<notin> set (n @ v @ r @ a)" "CHR ''-'' \<notin> set (v @ r @ a)"
  shows "short_package (n @ ''-'' @ v @ ''-'' @ r @ ''.'' @ a) = n"
proof -
  let ?u = "''-'' @ v @ ''-'' @ r @ ''.'' @ a"
  have "parts_ok after_name [''-'', v, ''-'', r, ''.'', a]"
    using assms(1) by (auto simp: after_name_def not_newline_def)
  from rmatch_complete [OF this, of "[]"] obtain ps where ps: "rmatch after_name ?u = Some ps" by auto
  have none: "rmatch after_name b = None" if b: "?u = a' @ b" "a' \<noteq> []" for a' b
  proof (rule needs_None [OF needs_after_name])
    have "CHR ''-'' # (v @ ''-'' @ r @ ''.'' @ a) = a' @ b" using b(1) by simp
    then have "count_list b (CHR ''-'') \<le> count_list (v @ ''-'' @ r @ ''.'' @ a) (CHR ''-'')"
      using b(2) by (rule proper_suffix_count)
    also have "\<dots> = 1" using assms(2) by (simp add: count_notin)
    finally show "count_list b (CHR ''-'') < 2" by simp
  qed
  have "rmatch (Star not_newline # after_name) (n @ ?u) = Some (n # ps)"
    by (rule rmatch_star_greedy [OF ps none]) (use assms(1) in \<open>auto simp: not_newline_def\<close>)
  then have "rmatch package_regex (n @ ?u) = Some (n # ps)" by (simp add: package_regex_def after_name_def)
  moreover have "rsearch package_regex (n @ ?u) = rmatch package_regex (n @ ?u)"
    using calculation by (cases "n @ ?u") auto
  ultimately show ?thesis by (simp add: short_package_def)
qed

subsection \<open>Each package is installed once\<close>

definition run_line :: "string \<Rightarrow> string" where
  "run_line p = (if short_package p = ''coreutils''
     then ''# Potential conflict with '' @ short_package p @ '' , '' @ p @ nl
     else ''RUN yum -y install '' @ short_package p @ '' # '' @ p @ nl)"

definition done_line :: "string \<Rightarrow> string" where
  "done_line p = ''# Already installed '' @ short_package p @ '' -> '' @ p @ nl"

fun install_lines :: "string list \<Rightarrow> string list \<Rightarrow> string list" where
  "install_lines seen [] = []"
| "install_lines seen (p # ps) = (if p \<in> set seen then done_line p else run_line p) # install_lines (p # seen) ps"

definition installed_ok :: "string list \<Rightarrow> docker_state \<Rightarrow> bool" where
  "installed_ok seen s \<longleftrightarrow> (\<forall>p. map_of (InstalledPackages s) p = (if p \<in> set seen then Some (short_package p) else None))"

lemma install_run:
  "installed_ok seen s \<Longrightarrow> \<exists>us s'. for_each ps InstallLinuxPackage s = (Inr us, s') \<and>
     dk_written s' = dk_written s @ install_lines seen ps \<and> installed_ok (rev ps @ seen) s'"
proof (induction ps arbitrary: seen s)
  case (Cons p ps)
  let ?line = "if p \<in> set seen then done_line p else run_line p"
  obtain s1 where s1: "InstallLinuxPackage p s = (Inr (), s1)" "dk_written s1 = dk_written s @ [?line]"
    "installed_ok (p # seen) s1"
  proof (cases "p \<in> set seen")
    case True
    let ?s = "s\<lparr>dk_written := dk_written s @ [done_line p]\<rparr>"
    have "InstallLinuxPackage p s = (Inr (), ?s)" using Cons.prems True
      by (simp add: InstallLinuxPackage_def installed_ok_def bnd_def dk_write_def done_line_def)
    moreover have "installed_ok (p # seen) ?s" using Cons.prems True by (auto simp: installed_ok_def)
    ultimately show ?thesis using that [of ?s] True by simp
  next
    case False
    let ?s = "s\<lparr>InstalledPackages := AList.update p (short_package p) (InstalledPackages s),
      dk_written := dk_written s @ [run_line p]\<rparr>"
    have "InstallLinuxPackage p s = (Inr (), ?s)" using Cons.prems False
      by (simp add: InstallLinuxPackage_def installed_ok_def bnd_def andthen_def Let_def dk_write_def run_line_def)
    moreover have "installed_ok (p # seen) ?s" using Cons.prems by (simp add: installed_ok_def)
    ultimately show ?thesis using that [of ?s] False by simp
  qed
  from Cons.IH [OF s1(3)] s1 show ?case by (auto simp: bnd_def)
qed simp

lemma run_count:
  "length (filter (\<lambda>l. startswith l ''RUN'') (install_lines seen ps)) =
     card ({p \<in> set ps. short_package p \<noteq> ''coreutils''} - set seen)"
proof (induction seen ps rule: install_lines.induct)
  case (2 seen p ps)
  let ?A = "\<lambda>ps. {p \<in> set ps. short_package p \<noteq> ''coreutils''}"
  have "?A (p # ps) - set seen = (if p \<in> set seen \<or> short_package p = ''coreutils'' then {} else {p}) \<union> (?A ps - set (p # seen))"
    by auto
  moreover have "card (insert p (?A ps - set (p # seen))) = Suc (card (?A ps - set (p # seen)))"
    by (intro card_insert_disjoint) auto
  ultimately show ?case using 2 by (auto simp: done_line_def run_line_def)
qed simp

subsection \<open>The context file\<close>

definition ini_line :: "string \<Rightarrow> string \<Rightarrow> string" where
  "ini_line k v = k @ ''='' @ v @ nl"

text \<open>The texts that survive the strip of the lines.\<close>

definition clean :: "string \<Rightarrow> bool" where
  "clean v \<longleftrightarrow> v = [] \<or> \<not> is_space (last v)"

lemma strip_ini_line:
  assumes "k \<noteq> []" "\<not> is_space (hd k)" "clean v"
  shows "py_strip (ini_line k v) = k @ ''='' @ v"
proof -
  have front: "dropWhile is_space (ini_line k v) = ini_line k v"
    using assms(1,2) by (cases k) (simp_all add: ini_line_def)
  have nl: "is_space (CHR 0x0A)" "\<not> is_space (CHR ''='')" by (simp_all add: is_space_def)
  have "dropWhile is_space (rev (ini_line k v)) = dropWhile is_space (rev v @ CHR ''='' # rev k)"
    using nl by (simp add: ini_line_def nl_def)
  also have "\<dots> = rev v @ CHR ''='' # rev k"
    using nl(2) assms(3) by (cases v rule: rev_cases) (auto simp: clean_def)
  finally show ?thesis unfolding py_strip_def front by simp
qed

lemma ini_loop_line:
  assumes "k \<noteq> []" "\<not> is_space (hd k)" "hd k \<noteq> CHR '';''" "CHR ''='' \<notin> set k" "clean v"
  shows "ini_loop (ini_line k v # ls) m = ini_loop ls (AList.update k v m)"
proof -
  let ?l = "k @ CHR ''='' # v"
  have "py_strip (ini_line k v) = ?l" using strip_ini_line [OF assms(1,2,5)] by simp
  moreover have f: "py_find ?l ''='' = int (length k)" by (rule py_find_char [OF assms(4)])
  moreover have "py_upto ?l (int (length k)) = k" "py_from ?l (int (length k) + 1) = v"
    using py_from_nat [of ?l "Suc (length k)"] by (simp_all del: py_from_nat add: add.commute)
  ultimately show ?thesis using assms(1,3) by (simp add: Let_def)
qed

lemma read_context:
  assumes "list_all clean [cwd m, ctx_Today x, hostname m, sys_platform m]"
  shows "ini_loop (ini_file m x) [] = [(''TopProcessId'', py_str_int (ctx_topProcessId x)),
    (''CurrentDirectory'', cwd m), (''CurrentDate'', ctx_Today x), (''CurrentHostname'', hostname m),
    (''CurrentOSType'', sys_platform m)]"
proof -
  have f: "ini_file m x = [ini_line ''TopProcessId'' (py_str_int (ctx_topProcessId x)),
      ini_line ''CurrentDirectory'' (cwd m), ini_line ''CurrentDate'' (ctx_Today x),
      ini_line ''CurrentHostname'' (hostname m), ini_line ''CurrentOSType'' (sys_platform m)]"
    by (simp add: ini_file_def ini_line_def)
  have c: "clean (py_str_int i)" for i
    using py_str_int_no_space [of "last (py_str_int i)" i] by (auto simp: clean_def)
  show ?thesis unfolding f using assms c
    by (simp add: ini_loop_line is_space_def del: ini_loop.simps(2))
qed

subsection \<open>The names of the files\<close>

lemma at_first:
  "c \<notin> set u \<Longrightarrow> takeWhile (\<lambda>x. x \<noteq> c) (u @ c # v) = u \<and> dropWhile (\<lambda>x. x \<noteq> c) (u @ c # v) = c # v"
  by (induction u) auto

lemma rsplit_at_last: "c \<notin> set b \<Longrightarrow> rsplit_at c (a @ c # b) = Some (a, b)"
  using at_first [of c "rev b" "rev a"] by (simp add: rsplit_at_def)

lemma basename_suffix: "CHR ''/'' \<notin> set b \<Longrightarrow> \<exists>a'. basename (a @ b) = a' @ b"
proof (cases "CHR ''/'' \<in> set a")
  case True
  assume b: "CHR ''/'' \<notin> set b"
  from True obtain u v where "a = u @ CHR ''/'' # v" "CHR ''/'' \<notin> set v" by (meson split_list_last)
  with b have "basename (a @ b) = v @ b"
    using rsplit_at_last [of "CHR ''/''" "v @ b" u] by (simp add: basename_def)
  then show ?thesis by blast
next
  case False
  assume "CHR ''/'' \<notin> set b"
  with False have "basename (a @ b) = a @ b" by (simp add: basename_def rsplit_at_def)
  then show ?thesis by blast
qed

lemma splitext_log:
  assumes "CHR ''.'' \<notin> set b" "CHR ''/'' \<notin> set b" "b \<noteq> []"
  shows "splitext (a @ b @ ''.log'') = (a @ b, ''.log'')"
proof -
  obtain a' where base: "basename (a @ (b @ ''.log'')) = a' @ (b @ ''.log'')"
    using basename_suffix [of "b @ ''.log''" a] assms(2) by auto
  have "rsplit_at (CHR ''.'') ((a' @ b) @ CHR ''.'' # ''log'') = Some (a' @ b, ''log'')"
    by (rule rsplit_at_last) simp
  moreover have "\<not> list_all (\<lambda>c. c = CHR ''.'') (a' @ b)"
    using assms(1,3) by (cases b) auto
  ultimately show ?thesis using base by (simp add: splitext_def)
qed

definition after_prefix :: regex where
  "after_prefix = lit ''.'' @ [Star not_dot] @ lit ''.'' @ [One is_digit, Star is_digit] @ lit ''.log''"

lemma needs_after_prefix: "needs (CHR ''.'') 3 after_prefix"
  using parts_ok_lit [of "''.log''" "[]"] by (auto simp: needs_def after_prefix_def)

lemma digits_of_pid:
  assumes "0 \<le> i"
  obtains d ds where "py_str_int i = d # ds" "list_all is_digit (d # ds)"
proof -
  have "is_digit c" if "c \<in> set (dec_nat n)" for c n
  proof -
    obtain d where "d < 10" "c = digit_char d" using dec_nat_digits [OF \<open>c \<in> set (dec_nat n)\<close>] by blast
    then have "of_char c = 48 + d" by (simp add: digit_char_def)
    with \<open>d < 10\<close> show ?thesis by (simp add: is_digit_def less_eq_char_def)
  qed
  then have "list_all is_digit (py_str_int i)" using assms by (auto simp: py_str_int_def list_all_iff)
  moreover have "py_str_int i \<noteq> []" by (simp add: py_str_int_def)
  ultimately show thesis using that by (cases "py_str_int i") auto
qed

lemma digit_not: "is_digit c \<Longrightarrow> c \<noteq> CHR ''.'' \<and> c \<noteq> CHR ''/''"
  by (auto simp: is_digit_def)

lemma tracer_of_log:
  assumes "CHR 0x0A \<notin> set p" "CHR ''.'' \<notin> set tracer" "0 \<le> i"
  shows "rmatch pid_log_regex (log_prefix p tracer i @ ''log'') \<noteq> None \<and>
    the (rmatch pid_log_regex (log_prefix p tracer i @ ''log'')) ! 2 = tracer"
proof -
  obtain d ds where d: "py_str_int i = d # ds" "list_all is_digit (d # ds)" using digits_of_pid [OF assms(3)] .
  let ?u = "''.'' @ tracer @ ''.'' @ (d # ds) @ ''.log''"
  have whole: "log_prefix p tracer i @ ''log'' = p @ ?u" by (simp add: log_prefix_def d(1))
  have "parts_ok after_prefix [''.'', tracer, ''.'', [d], ds, ''.'', ''l'', ''o'', ''g'']"
    using assms(2) d(2) parts_ok_lit [of "''.log''" "[]"]
    by (auto simp: after_prefix_def not_dot_def list_all_iff)
  from rmatch_complete [OF this, of "[]"] obtain ps where ps: "rmatch after_prefix ?u = Some ps" by auto
  have dots: "CHR ''.'' \<notin> set (d # ds)" using d(2) digit_not by (auto simp: list_all_iff)
  have none: "rmatch after_prefix b = None" if b: "?u = a' @ b" "a' \<noteq> []" for a' b
  proof (rule needs_None [OF needs_after_prefix])
    have "CHR ''.'' # (tracer @ ''.'' @ (d # ds) @ ''.log'') = a' @ b" using b(1) by simp
    then have "count_list b (CHR ''.'') \<le> count_list (tracer @ ''.'' @ (d # ds) @ ''.log'') (CHR ''.'')"
      using b(2) by (rule proper_suffix_count)
    also have "\<dots> = 2" using assms(2) dots by (auto simp: count_notin)
    finally show "count_list b (CHR ''.'') < 3" by simp
  qed
  have "rmatch (Star not_newline # after_prefix) (p @ ?u) = Some (p # ps)"
    by (rule rmatch_star_greedy [OF ps none]) (use assms(1) in \<open>auto simp: not_newline_def\<close>)
  then have m: "rmatch pid_log_regex (log_prefix p tracer i @ ''log'') = Some (p # ps)"
    unfolding whole by (simp add: pid_log_regex_def after_prefix_def)
  from rmatch_sound [OF ps] obtain q qs where q: "ps = ''.'' # q # ''.'' # qs" "\<forall>x \<in> set q. not_dot x"
    "startswith ?u (concat ps)"
    by (auto simp: after_prefix_def)
  then obtain t where split: "tracer @ CHR ''.'' # ((d # ds) @ ''.log'') = q @ CHR ''.'' # (concat qs @ t)"
    by (auto simp: startswith_iff)
  have "CHR ''.'' \<notin> set q" using q(2) by (auto simp: not_dot_def)
  then have "tracer = q" by (rule first_occurrence [OF split assms(2), THEN conjunct1])
  with m q(1) show ?thesis by simp
qed

subsection \<open>Properties\<close>

text \<open>
  C19. A replay finds the context of the run that it replays. The log and the context file that a traced
  run leaves are enough: from the name of the log \<^verbatim>\<open>DefaultTracer\<close> finds the tracer, and
  \<^verbatim>\<open>CreateEventLog\<close> reads back the log, the top process, the directory, the date, the host and the
  system of the traced run, whatever machine replays it, and knows whether it is the same machine.
\<close>

theorem replay_restores_context:
  assumes "opt_outputLogFilePrefix o' = Some p" "p \<noteq> []" "\<not> ctx_ReplayMode x" "0 \<le> ctx_topProcessId x"
    "list_all clean [cwd m, ctx_Today x, hostname m, sys_platform m]"
    "CHR 0x0A \<notin> set p" "CHR ''.'' \<notin> set tracer"
    "read_lines m2 = map_of (log_files m o' tracer x logStream)"
  shows "DefaultTracer (sys_platform m2) (Some (log_prefix p tracer (ctx_topProcessId x) @ ''log'')) None = Inr tracer \<and>
    CreateEventLog m2 [] (VInt (- 1)) (Some (log_prefix p tracer (ctx_topProcessId x) @ ''log'')) tracer =
      Inr (\<lparr>ctx_topProcessId = ctx_topProcessId x, ctx_CurrentDirectory = cwd m, ctx_Today = ctx_Today x,
            ctx_Hostname = hostname m, ctx_OSType = sys_platform m, ctx_ReplayMode = True,
            ctx_SameMachine = (hostname m = hostname m2)\<rparr>, logStream)"
proof -
  let ?pre = "log_prefix p tracer (ctx_topProcessId x)"
  let ?pid = "py_str_int (ctx_topProcessId x)"
  obtain d ds where d: "?pid = d # ds" "list_all is_digit (d # ds)" using digits_of_pid [OF assms(4)] .
  then have pid: "CHR ''.'' \<notin> set ?pid" "CHR ''/'' \<notin> set ?pid" "?pid \<noteq> []"
    using digit_not by (auto simp: list_all_iff)
  have pre: "?pre = (p @ ''.'' @ tracer @ ''.'') @ ?pid @ ''.''" by (simp add: log_prefix_def)
  have ext: "fst (splitext (?pre @ ''log'')) @ ''.ini'' = ?pre @ ''ini''"
    using splitext_log [OF pid, of "p @ ''.'' @ tracer @ ''.''"] unfolding pre by simp
  have lines: "read_lines m2 (?pre @ ''log'') = Some logStream" "read_lines m2 (?pre @ ''ini'') = Some (ini_file m x)"
    using assms(1-3) unfolding assms(8) log_files_def by (simp_all add: Let_def)
  have ini: "LoadIniFile m2 (?pre @ ''ini'') = [(''TopProcessId'', ?pid), (''CurrentDirectory'', cwd m),
      (''CurrentDate'', ctx_Today x), (''CurrentHostname'', hostname m), (''CurrentOSType'', sys_platform m)]"
    using lines(2) read_context [OF assms(5)] by (simp add: LoadIniFile_def)
  have some: "\<not> no_text (Some (?pre @ ''log''))" "no_text None" by (simp_all add: no_text_def)
  have "DefaultTracer (sys_platform m2) (Some (?pre @ ''log'')) None = Inr tracer"
    using tracer_of_log [OF assms(6,7,4)] some by (auto simp: DefaultTracer_def simp del: append_assoc)
  moreover have "valid_source [] (VInt (- 1)) (Some (?pre @ ''log''))" using some by (simp add: valid_source_def)
  ultimately show ?thesis
    unfolding CreateEventLog_def option.sel ext ini
    using some lines(1) by (auto simp: Let_def ini_get_def int_of_val_def)
qed

definition example_machine :: "string \<Rightarrow> machine" where
  "example_machine host = \<lparr>read_lines = (\<lambda>_. None), today = ''2018-11-02'', hostname = host,
     sys_platform = ''linux2'', cwd = ''/home/me'', popen = (\<lambda>_. (0, []))\<rparr>"

definition example_context :: run_context where
  "example_context = \<lparr>ctx_topProcessId = 4321, ctx_CurrentDirectory = ''/home/me'', ctx_Today = ''2018-11-02'',
     ctx_Hostname = ''vps'', ctx_OSType = ''linux2'', ctx_ReplayMode = False, ctx_SameMachine = True\<rparr>"

theorem replay_restores_context_witness:
  "\<exists>m2 x2. hostname m2 = ''laptop'' \<and> DefaultTracer (sys_platform m2) (Some (log_prefix ''out/run.1'' strace 4321 @ ''log'')) None = Inr strace \<and>
    CreateEventLog m2 [] (VInt (- 1)) (Some (log_prefix ''out/run.1'' strace 4321 @ ''log'')) strace = Inr (x2, [''line'']) \<and>
    ctx_topProcessId x2 = 4321 \<and> ctx_Hostname x2 = ''vps'' \<and> \<not> ctx_SameMachine x2"
proof -
  let ?o = "default_options\<lparr>opt_outputLogFilePrefix := Some ''out/run.1''\<rparr>"
  let ?m2 = "(example_machine ''laptop'')\<lparr>read_lines :=
    map_of (log_files (example_machine ''vps'') ?o strace example_context [''line''])\<rparr>"
  have c: "list_all clean [cwd (example_machine ''vps''), ctx_Today example_context, hostname (example_machine ''vps''),
      sys_platform (example_machine ''vps'')]" by code_simp
  have t: "CHR ''.'' \<notin> set strace" by code_simp
  have "opt_outputLogFilePrefix ?o = Some ''out/run.1''" "''out/run.1'' \<noteq> []" "\<not> ctx_ReplayMode example_context"
    "0 \<le> ctx_topProcessId example_context" "CHR 0x0A \<notin> set ''out/run.1''"
    "read_lines ?m2 = map_of (log_files (example_machine ''vps'') ?o strace example_context [''line''])"
    by (simp_all add: example_context_def)
  from replay_restores_context [OF this(1-4) c this(5) t this(6)]
  show ?thesis by (intro exI [of _ ?m2]) (auto simp: example_context_def example_machine_def)
qed

text \<open>
  Each package is installed once: for any list of packages and a Dockerfile that has installed none,
  \<^verbatim>\<open>InstallLinuxPackage\<close> writes for the first occurrence of a package its installation and for any
  other a comment, so that there are as many installations as there are different packages, those of
  \<open>coreutils\<close> apart, which are never installed.
\<close>

theorem packages_installed_once:
  assumes "InstalledPackages s = []"
  shows "\<exists>us s'. for_each ps InstallLinuxPackage s = (Inr us, s') \<and>
    dk_written s' = dk_written s @ install_lines [] ps \<and>
    length (filter (\<lambda>l. startswith l ''RUN'') (install_lines [] ps)) =
      card {p \<in> set ps. short_package p \<noteq> ''coreutils''}"
  using install_run [of "[]" s ps] assms run_count [of "[]" ps] by (simp add: installed_ok_def) blast

theorem packages_installed_once_witness:
  "\<exists>us s'. for_each [''bash-5.0.17-1.fc32.x86_64'', ''bash-5.0.17-1.fc32.x86_64''] InstallLinuxPackage
      \<lparr>dk_written = [], InstalledPackages = [], dk_made = [], dk_copied = [],
       dk_cache = FileToPackage_init ''/tmp'' ''h'' (\<lambda>_. NoCacheFile)\<rparr> = (Inr us, s') \<and>
    dk_written s' = [''RUN yum -y install bash # bash-5.0.17-1.fc32.x86_64'' @ nl,
      ''# Already installed bash -> bash-5.0.17-1.fc32.x86_64'' @ nl]"
proof -
  let ?ps = "[''bash-5.0.17-1.fc32.x86_64'', ''bash-5.0.17-1.fc32.x86_64'']"
  let ?s = "\<lparr>dk_written = [], InstalledPackages = [], dk_made = [], dk_copied = [],
       dk_cache = FileToPackage_init ''/tmp'' ''h'' (\<lambda>_. NoCacheFile)\<rparr>"
  have "install_lines [] ?ps = [''RUN yum -y install bash # bash-5.0.17-1.fc32.x86_64'' @ nl,
      ''# Already installed bash -> bash-5.0.17-1.fc32.x86_64'' @ nl]" by code_simp
  with packages_installed_once [of ?s ?ps] show ?thesis by auto
qed

text \<open>
  The short name of a package \<open>name-version-release.architecture\<close> is its name, also when the name
  itself has dashes.
\<close>

theorem short_package_name:
  assumes "CHR 0x0A \<notin> set (name @ version @ release @ arch)" "CHR ''-'' \<notin> set (version @ release @ arch)"
  shows "short_package (name @ ''-'' @ version @ ''-'' @ release @ ''.'' @ arch) = name"
  using short_package_nvra [OF assms] .

theorem short_package_name_witness:
  "short_package (''xorg-x11-server'' @ ''-'' @ ''1.20.8'' @ ''-'' @ ''1.fc32'' @ ''.'' @ ''x86_64'') = ''xorg-x11-server''"
  by (rule short_package_name) simp_all

text \<open>The C library is not seen as a library of the system: without a dash \<open>find\<close> returns -1.\<close>

lemma libc_not_detected: "\<not> IsSystemLib ''/lib64/libc.so.6''"
  by code_simp

text \<open>Two options that are tested under a name that \<open>getopt\<close> does not accept, and the other way round.\<close>

lemma undeclared_options:
  "read_options [(''--docker'', [])] default_options = Inl AssertionError"
  "read_options [(''--summary-format'', ''XML'')] default_options = Inl AssertionError"
  by (simp_all add: read_option_def)

end
