(* ===== verification/UpdateProps.thy ===== *)
theory UpdateProps
  imports Updates
begin

text \<open>
  The client of the updates: its thread and the main program as a step relation, whose invariant is that
  the server receives the triples in their order; and the attributes that the triples mirror.
\<close>

subsection \<open>The thread of the client and the main program\<close>

text \<open>
  The state of both: the client, the triple that has passed the test of \<^verbatim>\<open>AddDataToSend\<close> and waits for the
  lock, and all triples that have passed this test.
\<close>

record client_run =
  client :: http_client
  waiting :: "event option"
  accepted :: "event list"

inductive client_step :: "string option \<Rightarrow> client_run \<Rightarrow> client_run \<Rightarrow> bool" for srv where
  accept: "waiting s = None \<Longrightarrow> may_send srv (client s) \<Longrightarrow>
    client_step srv s (s\<lparr>waiting := Some t, accepted := accepted s @ [t]\<rparr>)"
| append: "waiting s = Some t \<Longrightarrow>
    client_step srv s (s\<lparr>client := append_triple t (client s), waiting := None\<rparr>)"
| take: "thread_alive (client s) \<Longrightarrow> strToSend (client s) = [] \<Longrightarrow>
    client_step srv s (s\<lparr>client := take_triples (client s)\<rparr>)"
| post: "thread_alive (client s) \<Longrightarrow> strToSend (client s) \<noteq> [] \<Longrightarrow>
    client_step srv s (s\<lparr>client := post_triples r (client s)\<rparr>)"

inductive_cases client_stepE: "client_step srv s s'"

definition client_start :: client_run where
  "client_start = \<lparr>client = HttpTriplesClient_init, waiting = None, accepted = []\<rparr>"

definition client_reached :: "string option \<Rightarrow> client_run \<Rightarrow> bool" where
  "client_reached srv = (client_step srv)\<^sup>*\<^sup>* client_start"

definition on_the_way :: "http_client \<Rightarrow> event list" where
  "on_the_way c = concat (m_posted c) @ strToSend c @ m_listTriples c"

definition of_option :: "'a option \<Rightarrow> 'a list" where
  "of_option x = (case x of None \<Rightarrow> [] | Some a \<Rightarrow> [a])"

lemma of_option_simps [simp]: "of_option None = []" "of_option (Some a) = [a]"
  by (simp_all add: of_option_def)

definition client_ok :: "client_run \<Rightarrow> bool" where
  "client_ok s \<longleftrightarrow>
     (thread_alive (client s) \<longleftrightarrow> m_valid (client s)) \<and>
     (m_valid (client s) \<longrightarrow> on_the_way (client s) @ of_option (waiting s) = accepted s) \<and>
     (\<exists>lost. concat (m_posted (client s)) @ lost = accepted s)"

lemma client_ok_step: "client_step srv s s' \<Longrightarrow> client_ok s \<Longrightarrow> client_ok s'"
proof (induction rule: client_step.induct)
  case (accept s t)
  then obtain lost where "concat (m_posted (client s)) @ (lost @ [t]) = accepted s @ [t]"
    by (auto simp: client_ok_def)
  then have "\<exists>lost. concat (m_posted (client s)) @ lost = accepted s @ [t]" by blast
  with accept show ?case by (simp add: client_ok_def)
next
  case (append s t)
  then show ?case by (auto simp: client_ok_def append_triple_def on_the_way_def)
next
  case (take s)
  then show ?case by (auto simp: client_ok_def take_triples_def on_the_way_def)
next
  case (post s r)
  let ?c = "client s"
  have v: "m_valid ?c" and all: "on_the_way ?c @ of_option (waiting s) = accepted s"
    using post by (simp_all add: client_ok_def)
  then have a: "(concat (m_posted ?c) @ strToSend ?c) @ (m_listTriples ?c @ of_option (waiting s)) = accepted s"
    "concat (m_posted ?c) @ (strToSend ?c @ m_listTriples ?c @ of_option (waiting s)) = accepted s"
    by (simp_all add: on_the_way_def)
  have "\<exists>lost. (concat (m_posted ?c) @ strToSend ?c) @ lost = accepted s" using a(1) by (rule exI)
  moreover have "\<exists>lost. concat (m_posted ?c) @ lost = accepted s" using a(2) by (rule exI)
  ultimately show ?case using post(2) v all post(1) by (cases r) (simp_all add: client_ok_def post_triples_def on_the_way_def)
qed

lemma client_reached_ok:
  assumes "client_reached srv s"
  shows "client_ok s"
  using assms unfolding client_reached_def
proof (induction rule: rtranclp_induct)
  case base
  show ?case by (simp add: client_start_def client_ok_def HttpTriplesClient_init_def on_the_way_def)
next
  case (step s s')
  from client_ok_step [OF step(2,3)] show ?case .
qed

text \<open>A client that is valid sends all that waits in two requests.\<close>

definition drained :: "http_client \<Rightarrow> http_client" where
  "drained c = post_triples Answered (take_triples (post_triples Answered c))"

lemma drained_all:
  "m_valid c \<Longrightarrow> concat (m_posted (drained c)) = on_the_way c \<and> m_valid (drained c) \<and>
   strToSend (drained c) = [] \<and> m_listTriples (drained c) = []"
  by (auto simp: drained_def post_triples_def take_triples_def on_the_way_def)

text \<open>The call of \<^verbatim>\<open>AddDataToSend\<close> and an iteration of \<^verbatim>\<open>run\<close> are runs of these steps.\<close>

lemma AddDataToSend_steps:
  assumes "waiting s = None"
  shows "(client_step srv)\<^sup>*\<^sup>* s (s\<lparr>client := AddDataToSend srv t (client s),
    accepted := (if may_send srv (client s) then accepted s @ [t] else accepted s)\<rparr>)"
proof (cases "may_send srv (client s)")
  case True
  let ?s = "s\<lparr>waiting := Some t, accepted := accepted s @ [t]\<rparr>"
  have "client_step srv s ?s" by (rule accept [OF assms True])
  moreover have "client_step srv ?s (?s\<lparr>client := append_triple t (client ?s), waiting := None\<rparr>)"
    by (rule append) simp
  ultimately have "(client_step srv)\<^sup>*\<^sup>* s (?s\<lparr>client := append_triple t (client ?s), waiting := None\<rparr>)" by auto
  then show ?thesis using True assms by (cases s) (simp add: AddDataToSend_def)
next
  case False
  then show ?thesis by (simp add: AddDataToSend_def)
qed

lemma run_once_steps:
  assumes "strToSend (client s) = []"
  shows "(client_step srv)\<^sup>*\<^sup>* s (s\<lparr>client := run_once r (client s)\<rparr>)"
proof (cases "thread_alive (client s)")
  case True
  let ?s = "s\<lparr>client := take_triples (client s)\<rparr>"
  have 1: "client_step srv s ?s" by (rule take [OF True assms])
  show ?thesis
  proof (cases "strToSend (client ?s) = []")
    case True
    with 1 \<open>thread_alive (client s)\<close> show ?thesis by (simp add: run_once_def post_triples_def)
  next
    case False
    have "client_step srv ?s (?s\<lparr>client := post_triples r (client ?s)\<rparr>)"
      by (rule post) (use False True in \<open>simp_all add: take_triples_def\<close>)
    with 1 have "(client_step srv)\<^sup>*\<^sup>* s (?s\<lparr>client := post_triples r (client ?s)\<rparr>)" by auto
    then show ?thesis using True by (simp add: run_once_def)
  qed
next
  case False
  then show ?thesis by (simp add: run_once_def)
qed

end
