(* ===== verification/Mirror.thy ===== *)
theory Mirror
  imports UpdateProps
begin

text \<open>
  The triples that dockit sends mirror the attributes of its objects: for each attribute of an object the
  last triple with the moniker of the object and the name of the attribute has the value of the attribute.
\<close>

subsection \<open>Equality of values\<close>

lemma jlit_eq_refl [simp]: "jlit_eq x x"
  by (simp add: jlit_eq_def)

lemma jlit_eq_trans: "jlit_eq x y \<Longrightarrow> jlit_eq y z \<Longrightarrow> jlit_eq x z"
  by (auto simp: jlit_eq_def)

lemma dict_le_refl: "dict_le d d"
  unfolding dict_le_def list_all_iff by (auto simp: map_of_eq_None_iff split: option.split)

lemma dict_le_iff: "dict_le d e \<longleftrightarrow> (\<forall>k x. map_of d k = Some x \<longrightarrow> (\<exists>y. map_of e k = Some y \<and> jlit_eq x y))"
proof
  assume l: "dict_le d e"
  show "\<forall>k x. map_of d k = Some x \<longrightarrow> (\<exists>y. map_of e k = Some y \<and> jlit_eq x y)"
  proof (intro allI impI)
    fix k x assume k: "map_of d k = Some x"
    then have "k \<in> set (map fst d)" by (force dest: map_of_SomeD)
    with l have "case (map_of d k, map_of e k) of (Some x, Some y) \<Rightarrow> jlit_eq x y | _ \<Rightarrow> False"
      unfolding dict_le_def list_all_iff by blast
    with k show "\<exists>y. map_of e k = Some y \<and> jlit_eq x y" by (auto split: option.splits)
  qed
next
  assume r: "\<forall>k x. map_of d k = Some x \<longrightarrow> (\<exists>y. map_of e k = Some y \<and> jlit_eq x y)"
  show "dict_le d e" unfolding dict_le_def list_all_iff
  proof
    fix k assume "k \<in> set (map fst d)"
    then obtain x where x: "map_of d k = Some x" by (cases "map_of d k") (auto simp: map_of_eq_None_iff)
    with r obtain y where "map_of e k = Some y" "jlit_eq x y" by blast
    with x show "case (map_of d k, map_of e k) of (Some x, Some y) \<Rightarrow> jlit_eq x y | _ \<Rightarrow> False" by simp
  qed
qed

lemma dict_le_trans: "dict_le d e \<Longrightarrow> dict_le e f \<Longrightarrow> dict_le d f"
  unfolding dict_le_iff using jlit_eq_trans by meson

lemma attr_eq_refl [simp]: "attr_eq v v"
  by (cases v) (auto simp: dict_le_refl intro: list_all2_refl)

lemma attr_eq_trans: "attr_eq u v \<Longrightarrow> attr_eq v w \<Longrightarrow> attr_eq u w"
proof (induction u v rule: attr_eq.induct)
  case (1 x y)
  then show ?case by (cases w) (auto intro: jlit_eq_trans)
next
  case (2 xs ys)
  then show ?case by (cases w) (auto elim: list_all2_trans [rotated] intro: jlit_eq_trans)
next
  case (3 d e)
  then show ?case by (cases w) (auto intro: dict_le_trans)
qed auto

subsection \<open>Monikers\<close>

fun keys_of :: "cim_object \<Rightarrow> string list \<Rightarrow> (string \<times> jlit) list pyres" where
  "keys_of x [] = Inr []"
| "keys_of x (k # ks) =
     (case object_key x k of
        Inl e \<Rightarrow> Inl e
      | Inr kv \<Rightarrow> (case keys_of x ks of Inl e \<Rightarrow> Inl e | Inr kvs \<Rightarrow> Inr (kv # kvs)))"

definition object_moniker :: "cim_object \<Rightarrow> (string \<times> jlit) list pyres" where
  "object_moniker x =
     (case keys_of x (m_Ontology (cim_class x)) of
        Inl e \<Rightarrow> Inl e
      | Inr kvs \<Rightarrow> Inr ((''entity_type'', JText (cim_class x)) # kvs))"

definition moniker_of :: "(string \<times> cim_object) list \<Rightarrow> string \<Rightarrow> (string \<times> jlit) list pyres" where
  "moniker_of os p = (case map_of os p of None \<Rightarrow> Inl NameError | Some x \<Rightarrow> object_moniker x)"

lemma keys_run: "for_each ks (\<lambda>k. of_res (object_key x k)) s = (keys_of x ks, s)"
  by (induction ks) (simp_all add: bnd_run split: sum.split)

lemma GetMonikerSurvol_run: "GetMonikerSurvol p s = (moniker_of (cim_objects s) p, s)"
  by (simp add: GetMonikerSurvol_def get_object_def bnd_run keys_run moniker_of_def object_moniker_def
      split: option.split sum.split)

definition json_of :: "(string \<times> cim_object) list \<Rightarrow> attr_val \<Rightarrow> jnode pyres" where
  "json_of os v =
     (case v of ALit l \<Rightarrow> Inr (JLit l) | AList ls \<Rightarrow> Inr (JArr ls) | ADict d \<Rightarrow> Inr (JObj d)
      | AObject q \<Rightarrow> map_sum id JObj (moniker_of os q))"

lemma attr_json_run: "attr_json v s = (json_of (cim_objects s) v, s)"
  by (cases v) (simp_all add: attr_json_def json_of_def bnd_run GetMonikerSurvol_run split: sum.split)

subsection \<open>The effect of an assignment\<close>

definition update_event :: "(string \<times> jlit) list \<Rightarrow> string \<Rightarrow> jnode \<Rightarrow> event" where
  "update_event m a j = \<lparr>ev_subject = Some (JObj m), ev_predicate = Some a, ev_object = Some j\<rparr>"

definition attr_value :: "cim_object \<Rightarrow> string \<Rightarrow> attr_val" where
  "attr_value x a = (case map_of (cim_attrs x) a of None \<Rightarrow> ALit JNull | Some v \<Rightarrow> v)"

definition put_attr :: "string \<Rightarrow> cim_object \<Rightarrow> string \<Rightarrow> attr_val \<Rightarrow> (string \<times> cim_object) list \<Rightarrow> (string \<times> cim_object) list" where
  "put_attr p x a v os = AList.update p (x\<lparr>cim_attrs := AList.update a v (cim_attrs x)\<rparr>) os"

text \<open>A client whose thread is alive and is not posting.\<close>

definition client_live :: "http_client \<Rightarrow> bool" where
  "client_live c \<longleftrightarrow> m_valid c \<and> thread_alive c \<and> strToSend c = []"

lemma AddDataToSend_way:
  assumes "client_live c" "u \<noteq> []"
  shows "on_the_way (AddDataToSend (Some u) e c) = on_the_way c @ [e]" "client_live (AddDataToSend (Some u) e c)"
  using assms by (simp_all add: AddDataToSend_def may_send_def append_triple_def on_the_way_def client_live_def)

lemma HttpUpdateRequest_run:
  "HttpUpdateRequest srv m a j s = (Inr (), s\<lparr>G_httpClient := AddDataToSend srv (update_event m a j) (G_httpClient s)\<rparr>)"
  by (simp add: HttpUpdateRequest_def update_event_def)

lemma SendUpdate_run:
  assumes "SendUpdateToServer (Some u) p a old v s = (Inr (), s')" "client_live (G_httpClient s)" "u \<noteq> []"
  shows "\<exists>m j olds. moniker_of (cim_objects s) p = Inr m \<and> json_of (cim_objects s) v = Inr j \<and>
    cim_objects s' = cim_objects s \<and> client_live (G_httpClient s') \<and>
    on_the_way (G_httpClient s') = on_the_way (G_httpClient s) @ map (update_event m a) (olds @ [j])"
proof -
  let ?c = "G_httpClient s"
  obtain m where m: "moniker_of (cim_objects s) p = Inr m"
    using assms(1) by (cases "moniker_of (cim_objects s) p") (auto simp: SendUpdateToServer_def bnd_run GetMonikerSurvol_run)
  obtain j where j: "json_of (cim_objects s) v = Inr j"
    using assms(1) m
    by (cases "json_of (cim_objects s) v"; cases old)
      (auto simp: SendUpdateToServer_def bnd_run GetMonikerSurvol_run attr_json_run HttpUpdateRequest_run split: sum.splits)
  note run = SendUpdateToServer_def bnd_run GetMonikerSurvol_run attr_json_run HttpUpdateRequest_run m j
  show ?thesis
  proof (cases "\<exists>q. old = AObject q")
    case False
    with assms(1) have "s' = s\<lparr>G_httpClient := AddDataToSend (Some u) (update_event m a j) ?c\<rparr>"
      by (cases old) (auto simp: run)
    with m j AddDataToSend_way [OF assms(2,3)] show ?thesis
      by (intro exI [of _ m] exI [of _ j] exI [of _ "[]"]) simp
  next
    case True
    then obtain q where q: "old = AObject q" by blast
    obtain m0 where m0: "moniker_of (cim_objects s) q = Inr m0"
      using assms(1) q by (cases "moniker_of (cim_objects s) q") (auto simp: run)
    let ?c1 = "AddDataToSend (Some u) (update_event m a (JObj m0)) ?c"
    have "s' = s\<lparr>G_httpClient := AddDataToSend (Some u) (update_event m a j) ?c1\<rparr>"
      using assms(1) q m0 by (auto simp: run)
    with m j AddDataToSend_way [OF assms(2,3)] AddDataToSend_way [OF _ assms(3), of ?c1] show ?thesis
      by (intro exI [of _ m] exI [of _ j] exI [of _ "[JObj m0]"]) simp
  qed
qed

text \<open>What an assignment sends: nothing, or triples of one attribute that end with the new value.\<close>

definition assigned ::
    "updates \<Rightarrow> string \<Rightarrow> string \<Rightarrow> attr_val \<Rightarrow> cim_object \<Rightarrow> updates \<Rightarrow> bool" where
  "assigned s p a v x s' \<longleftrightarrow>
     map_of (cim_objects s) p = Some x \<and> cim_objects s' = put_attr p x a v (cim_objects s) \<and>
     client_live (G_httpClient s') \<and>
     ((attr_eq (attr_value x a) v \<or> \<not> IsCIM a) \<and> on_the_way (G_httpClient s') = on_the_way (G_httpClient s) \<or>
      (\<exists>m j olds. moniker_of (cim_objects s') p = Inr m \<and> json_of (cim_objects s') v = Inr j \<and>
        on_the_way (G_httpClient s') = on_the_way (G_httpClient s) @ map (update_event m a) (olds @ [j])))"

lemma setattr_run:
  assumes "py_setattr (Some u) p a v s = (Inr (), s')" "client_live (G_httpClient s)" "u \<noteq> []"
  shows "\<exists>x. assigned s p a v x s'"
proof -
  obtain x where x: "map_of (cim_objects s) p = Some x"
    using assms(1) by (cases "map_of (cim_objects s) p") (auto simp: py_setattr_def get_object_def bnd_run)
  let ?s = "s\<lparr>cim_objects := put_attr p x a v (cim_objects s)\<rparr>"
  have run: "py_setattr (Some u) p a v s =
      (if \<not> attr_eq (attr_value x a) v \<and> IsCIM a then SendUpdateToServer (Some u) p a (attr_value x a) v else ret ()) ?s"
    using x assms(3) by (simp add: py_setattr_def get_object_def bnd_run put_attr_def attr_value_def)
  show ?thesis
  proof (cases "\<not> attr_eq (attr_value x a) v \<and> IsCIM a")
    case True
    then have "SendUpdateToServer (Some u) p a (attr_value x a) v ?s = (Inr (), s')" using run assms(1) by simp
    from SendUpdate_run [OF this _ assms(3)] assms(2) obtain m j olds where
      "moniker_of (cim_objects ?s) p = Inr m" "json_of (cim_objects ?s) v = Inr j" "cim_objects s' = cim_objects ?s"
      "client_live (G_httpClient s')"
      "on_the_way (G_httpClient s') = on_the_way (G_httpClient s) @ map (update_event m a) (olds @ [j])" by auto
    with x show ?thesis unfolding assigned_def by (intro exI [of _ x]) auto
  next
    case False
    then have "s' = ?s" using run assms(1) by (auto split: if_splits)
    with False x assms(2) show ?thesis unfolding assigned_def by (intro exI [of _ x]) auto
  qed
qed

subsection \<open>The mirror\<close>

text \<open>The value of the last triple with this subject and this predicate.\<close>

definition about :: "(string \<times> jlit) list \<Rightarrow> string \<Rightarrow> event \<Rightarrow> bool" where
  "about m a e \<longleftrightarrow> ev_subject e = Some (JObj m) \<and> ev_predicate e = Some a"

fun last_sent :: "event list \<Rightarrow> (string \<times> jlit) list \<Rightarrow> string \<Rightarrow> jnode option" where
  "last_sent [] m a = None"
| "last_sent (e # es) m a =
     (case last_sent es m a of Some j \<Rightarrow> Some j | None \<Rightarrow> if about m a e then ev_object e else None)"

lemma last_sent_append:
  "last_sent (es @ es') m a = (case last_sent es' m a of Some j \<Rightarrow> Some j | None \<Rightarrow> last_sent es m a)"
  by (induction es) (simp_all split: option.split)

lemma about_update [simp]: "about m a (update_event m' a' j) \<longleftrightarrow> m' = m \<and> a' = a"
  by (simp add: about_def update_event_def)

lemma last_sent_updates:
  "last_sent (map (update_event m a) (olds @ [j])) m' a' = (if m' = m \<and> a' = a then Some j else None)"
proof (induction olds)
  case Nil
  then show ?case by (auto simp: update_event_def about_def)
next
  case (Cons o olds)
  then show ?case by (auto simp del: map_append)
qed

text \<open>
  The runs of dockit with a server that answers: an object is created without attributes, its keys are
  set once, and differently for each object of a class; then its other attributes change at will, and
  the thread of the client wakes up at any time.
\<close>

inductive dockit_run :: "string \<Rightarrow> updates \<Rightarrow> bool" for u where
  start: "dockit_run u \<lparr>cim_objects = [], G_httpClient = HttpTriplesClient_init\<rparr>"
| create: "dockit_run u s \<Longrightarrow> map_of (cim_objects s) p = None \<Longrightarrow>
    (m_Ontology cls = [] \<Longrightarrow> \<forall>q. moniker_of (cim_objects s) q \<noteq> Inr [(''entity_type'', JText cls)]) \<Longrightarrow>
    dockit_run u (s\<lparr>cim_objects := AList.update p \<lparr>cim_class = cls, cim_attrs = []\<rparr> (cim_objects s)\<rparr>)"
| set_key: "dockit_run u s \<Longrightarrow> map_of (cim_objects s) p = Some x \<Longrightarrow> map_of (cim_attrs x) a = None \<Longrightarrow>
    py_setattr (Some u) p a v s = (Inr (), s') \<Longrightarrow>
    (\<And>p' m. p' \<noteq> p \<Longrightarrow> moniker_of (cim_objects s') p = Inr m \<Longrightarrow> moniker_of (cim_objects s') p' \<noteq> Inr m) \<Longrightarrow>
    dockit_run u s'"
| set_other: "dockit_run u s \<Longrightarrow> map_of (cim_objects s) p = Some x \<Longrightarrow> a \<notin> set (m_Ontology (cim_class x)) \<Longrightarrow>
    py_setattr (Some u) p a v s = (Inr (), s') \<Longrightarrow> dockit_run u s'"
| wake: "dockit_run u s \<Longrightarrow> dockit_run u (s\<lparr>G_httpClient := run_once Answered (G_httpClient s)\<rparr>)"

text \<open>An attribute and the last triple about it have the same value for \<^verbatim>\<open>==\<close>; no triple stands for None.\<close>

definition mirrored :: "(string \<times> cim_object) list \<Rightarrow> event list \<Rightarrow> (string \<times> jlit) list \<Rightarrow> string \<Rightarrow> attr_val \<Rightarrow> bool" where
  "mirrored os es m a v \<longleftrightarrow>
     (\<exists>v'. attr_eq v' v \<and>
        (case last_sent es m a of None \<Rightarrow> v' = ALit JNull | Some j \<Rightarrow> json_of os v' = Inr j))"

definition mirror :: "(string \<times> cim_object) list \<Rightarrow> event list \<Rightarrow> bool" where
  "mirror os es \<longleftrightarrow>
     (\<forall>e \<in> set es. \<exists>p m. ev_subject e = Some (JObj m) \<and> moniker_of os p = Inr m) \<and>
     (\<forall>p p' m. moniker_of os p = Inr m \<longrightarrow> moniker_of os p' = Inr m \<longrightarrow> p = p') \<and>
     (\<forall>p x a. map_of os p = Some x \<longrightarrow> IsCIM a \<longrightarrow>
        (case moniker_of os p of
           Inl _ \<Rightarrow> attr_eq (ALit JNull) (attr_value x a)
         | Inr m \<Rightarrow> mirrored os es m a (attr_value x a)))"

definition mirror_inv :: "updates \<Rightarrow> bool" where
  "mirror_inv s \<longleftrightarrow> client_live (G_httpClient s) \<and> mirror (cim_objects s) (on_the_way (G_httpClient s))"

lemma keys_of_cong: "(\<And>k. k \<in> set ks \<Longrightarrow> map_of (cim_attrs x) k = map_of (cim_attrs y) k) \<Longrightarrow> keys_of x ks = keys_of y ks"
  by (induction ks) (simp_all add: object_key_def cong: sum.case_cong)

lemma moniker_same:
  assumes "map_of os p = Some x" "a \<notin> set (m_Ontology (cim_class x))"
  shows "moniker_of (put_attr p x a v os) q = moniker_of os q"
proof (cases "q = p")
  case True
  have "keys_of (x\<lparr>cim_attrs := AList.update a v (cim_attrs x)\<rparr>) (m_Ontology (cim_class x)) =
      keys_of x (m_Ontology (cim_class x))"
    by (rule keys_of_cong) (use assms(2) in auto)
  with True assms(1) show ?thesis
    by (cases "keys_of x (m_Ontology (cim_class x))") (auto simp: moniker_of_def object_moniker_def put_attr_def)
next
  case False
  then show ?thesis by (simp add: moniker_of_def put_attr_def)
qed

text \<open>A moniker that an object has stays when an attribute that it had not, or that is no key, is set.\<close>

lemma moniker_stays:
  assumes "map_of os p = Some x" "map_of (cim_attrs x) a = None \<or> a \<notin> set (m_Ontology (cim_class x))"
    "moniker_of os q = Inr m"
  shows "moniker_of (put_attr p x a v os) q = Inr m"
proof (cases "q = p \<and> a \<in> set (m_Ontology (cim_class x))")
  case True
  then have "map_of (cim_attrs x) a = None" using assms(2) by simp
  moreover have "keys_of x ks = Inr kvs \<Longrightarrow> a \<in> set ks \<Longrightarrow> map_of (cim_attrs x) a \<noteq> None" for ks kvs
    by (induction ks arbitrary: kvs) (auto simp: object_key_def split: sum.splits option.splits)
  ultimately show ?thesis using True assms(1,3)
    by (auto simp: moniker_of_def object_moniker_def split: sum.splits)
next
  case False
  show ?thesis
  proof (cases "q = p")
    case True
    with False have "a \<notin> set (m_Ontology (cim_class x))" by simp
    with moniker_same [OF assms(1)] assms(3) show ?thesis by simp
  next
    case False
    then show ?thesis using assms(3) by (simp add: moniker_of_def put_attr_def)
  qed
qed

lemma json_stays:
  assumes "\<And>q m. moniker_of os q = Inr m \<Longrightarrow> moniker_of os' q = Inr m" "json_of os v = Inr j"
  shows "json_of os' v = Inr j"
  using assms by (cases v) (auto simp: json_of_def map_sum_def split: sum.splits)

lemma mirrored_stays:
  assumes "\<And>q m. moniker_of os q = Inr m \<Longrightarrow> moniker_of os' q = Inr m"
    "last_sent es' m a = last_sent es m a" "mirrored os es m a v"
  shows "mirrored os' es' m a v"
  using assms json_stays [OF assms(1)] unfolding mirrored_def by (auto split: option.splits)

subsection \<open>The assignments keep the mirror\<close>

text \<open>The two outcomes of an assignment as a table of the last triples.\<close>

definition sends :: "updates \<Rightarrow> string \<Rightarrow> string \<Rightarrow> attr_val \<Rightarrow> updates \<Rightarrow> (string \<times> jlit) list \<Rightarrow> jnode \<Rightarrow> bool" where
  "sends s p a v s' m j \<longleftrightarrow>
     moniker_of (cim_objects s') p = Inr m \<and> json_of (cim_objects s') v = Inr j \<and>
     (\<exists>olds. on_the_way (G_httpClient s') = on_the_way (G_httpClient s) @ map (update_event m a) (olds @ [j]))"

lemma sends_last:
  assumes "sends s p a v s' m j"
  shows "last_sent (on_the_way (G_httpClient s')) m' b =
    (if m' = m \<and> b = a then Some j else last_sent (on_the_way (G_httpClient s)) m' b)"
proof -
  obtain olds where "on_the_way (G_httpClient s') = on_the_way (G_httpClient s) @ map (update_event m a) (olds @ [j])"
    using assms by (auto simp: sends_def)
  then show ?thesis by (simp add: last_sent_append last_sent_updates del: map_append)
qed

lemma sends_subjects:
  "sends s p a v s' m j \<Longrightarrow> e \<in> set (on_the_way (G_httpClient s')) \<Longrightarrow>
   e \<in> set (on_the_way (G_httpClient s)) \<or> ev_subject e = Some (JObj m)"
  by (auto simp: sends_def update_event_def)

lemma assigned_cases:
  assumes "assigned s p a v x s'"
  obtains "attr_eq (attr_value x a) v \<or> \<not> IsCIM a" "on_the_way (G_httpClient s') = on_the_way (G_httpClient s)"
  | m j where "sends s p a v s' m j"
  using assms unfolding assigned_def sends_def by blast

lemma attr_value_put: "attr_value (x\<lparr>cim_attrs := AList.update a v (cim_attrs x)\<rparr>) b = (if b = a then v else attr_value x b)"
  by (simp add: attr_value_def)

lemma mirrored_trans: "mirrored os es m a v \<Longrightarrow> attr_eq v w \<Longrightarrow> mirrored os es m a w"
  unfolding mirrored_def using attr_eq_trans by blast

lemma mirrored_new: "last_sent es m a = Some j \<Longrightarrow> json_of os v = Inr j \<Longrightarrow> mirrored os es m a v"
  unfolding mirrored_def by (auto intro!: exI [of _ v])

lemma mirrored_none: "last_sent es m a = None \<Longrightarrow> attr_eq (ALit JNull) v \<Longrightarrow> mirrored os es m a v"
  unfolding mirrored_def by auto

text \<open>An assignment of an attribute that was not set, or of one that is no key, which gives no object the moniker of another one.\<close>

definition fair :: "updates \<Rightarrow> string \<Rightarrow> string \<Rightarrow> attr_val \<Rightarrow> cim_object \<Rightarrow> updates \<Rightarrow> bool" where
  "fair s p a v x s' \<longleftrightarrow>
     mirror_inv s \<and> assigned s p a v x s' \<and>
     (map_of (cim_attrs x) a = None \<or> a \<notin> set (m_Ontology (cim_class x))) \<and>
     (\<forall>p' m. p' \<noteq> p \<longrightarrow> moniker_of (cim_objects s') p = Inr m \<longrightarrow> moniker_of (cim_objects s') p' \<noteq> Inr m)"

lemma fair_objects:
  assumes "fair s p a v x s'"
  shows "map_of (cim_objects s) p = Some x" "cim_objects s' = put_attr p x a v (cim_objects s)"
  using assms by (simp_all add: fair_def assigned_def)

lemma fair_kept:
  assumes "fair s p a v x s'" "moniker_of (cim_objects s) q = Inr m"
  shows "moniker_of (cim_objects s') q = Inr m"
  using assms moniker_stays unfolding fair_objects(2) [OF assms(1)] by (auto simp: fair_def assigned_def)

lemma fair_others: "fair s p a v x s' \<Longrightarrow> q \<noteq> p \<Longrightarrow> moniker_of (cim_objects s') q = moniker_of (cim_objects s) q"
  by (simp add: fair_objects(2) put_attr_def moniker_of_def)

lemma fair_unique:
  assumes "fair s p a v x s'" "moniker_of (cim_objects s') p1 = Inr m" "moniker_of (cim_objects s') p2 = Inr m"
  shows "p1 = p2"
proof (cases "p1 = p \<or> p2 = p")
  case True
  have "\<forall>p' m. p' \<noteq> p \<longrightarrow> moniker_of (cim_objects s') p = Inr m \<longrightarrow> moniker_of (cim_objects s') p' \<noteq> Inr m"
    using assms(1) by (simp add: fair_def)
  with True assms(2,3) show ?thesis by metis
next
  case False
  have "mirror_inv s" using assms(1) by (simp add: fair_def)
  then have "moniker_of (cim_objects s) p1 = Inr m \<Longrightarrow> moniker_of (cim_objects s) p2 = Inr m \<Longrightarrow> p1 = p2"
    unfolding mirror_inv_def mirror_def by blast
  with False assms(2,3) fair_others [OF assms(1)] show ?thesis by simp
qed

lemma inv_mirrored:
  assumes "mirror_inv s" "map_of (cim_objects s) q = Some y" "IsCIM b" "moniker_of (cim_objects s) q = Inr m"
  shows "mirrored (cim_objects s) (on_the_way (G_httpClient s)) m b (attr_value y b)"
  using assms by (force simp: mirror_inv_def mirror_def)

lemma inv_unset:
  assumes "mirror_inv s" "map_of (cim_objects s) q = Some y" "IsCIM b" "moniker_of (cim_objects s) q = Inl e"
  shows "attr_eq (ALit JNull) (attr_value y b)"
  using assms by (force simp: mirror_inv_def mirror_def)

lemma inv_subject:
  assumes "mirror_inv s" "e \<in> set (on_the_way (G_httpClient s))"
  shows "\<exists>p m. ev_subject e = Some (JObj m) \<and> moniker_of (cim_objects s) p = Inr m"
  using assms by (force simp: mirror_inv_def mirror_def)

lemma last_sent_None: "\<forall>e \<in> set es. ev_subject e \<noteq> Some (JObj m) \<Longrightarrow> last_sent es m a = None"
  by (induction es) (auto simp: about_def)

text \<open>A moniker that appears with an assignment has no triple yet.\<close>

lemma fair_fresh:
  assumes "fair s p a v x s'" "moniker_of (cim_objects s) p = Inl e" "moniker_of (cim_objects s') p = Inr m"
  shows "last_sent (on_the_way (G_httpClient s)) m b = None"
proof (rule last_sent_None, intro ballI notI)
  fix ev assume "ev \<in> set (on_the_way (G_httpClient s))" "ev_subject ev = Some (JObj m)"
  with inv_subject [of s ev] assms(1) obtain q where q: "moniker_of (cim_objects s) q = Inr m"
    by (auto simp: fair_def)
  then have "q = p" using fair_unique [OF assms(1) fair_kept [OF assms(1) q] assms(3)] by simp
  with q assms(2) show False by simp
qed

text \<open>The mirror of one attribute after an assignment.\<close>

lemma fair_last:
  assumes "fair s p a v x s'" "moniker_of (cim_objects s') q = Inr m" "q \<noteq> p \<or> b \<noteq> a"
  shows "last_sent (on_the_way (G_httpClient s')) m b = last_sent (on_the_way (G_httpClient s)) m b"
proof -
  have "assigned s p a v x s'" using assms(1) by (simp add: fair_def)
  then show ?thesis
  proof (cases rule: assigned_cases)
    case 1
    then show ?thesis by simp
  next
    case (2 m' j)
    then have "moniker_of (cim_objects s') p = Inr m'" by (simp add: sends_def)
    with fair_unique [OF assms(1,2)] assms(3) sends_last [OF 2] show ?thesis by auto
  qed
qed

lemma fair_mirrored_other:
  assumes f: "fair s p a v x s'" and q: "map_of (cim_objects s') q = Some y" "IsCIM b"
    "moniker_of (cim_objects s') q = Inr m" "q \<noteq> p \<or> b \<noteq> a"
  shows "mirrored (cim_objects s') (on_the_way (G_httpClient s')) m b (attr_value y b)"
proof -
  have i: "mirror_inv s" using f by (simp add: fair_def)
  obtain y0 where y0: "map_of (cim_objects s) q = Some y0" "attr_value y0 b = attr_value y b"
    using q fair_objects [OF f] attr_value_put [where x = x and a = a and v = v and b = b]
    by (cases "q = p") (auto simp: put_attr_def)
  note l = fair_last [OF f q(3,4)]
  show ?thesis
  proof (cases "moniker_of (cim_objects s) q")
    case (Inl e)
    then have "q = p" using fair_others [OF f, of q] q(3) by auto
    with Inl q l fair_fresh [OF f, of e m b] inv_unset [OF i y0(1) q(2)] y0(2) show ?thesis
      by (auto intro: mirrored_none)
  next
    case (Inr m0)
    then have "m0 = m" using fair_kept [OF f Inr] q(3) by simp
    with inv_mirrored [OF i y0(1) q(2) Inr] y0(2) mirrored_stays [OF fair_kept [OF f] l] show ?thesis by simp
  qed
qed

lemma fair_mirrored_same:
  assumes f: "fair s p a v x s'" and m: "IsCIM a" "moniker_of (cim_objects s') p = Inr m"
  shows "mirrored (cim_objects s') (on_the_way (G_httpClient s')) m a v"
proof -
  have i: "mirror_inv s" and "assigned s p a v x s'" using f by (simp_all add: fair_def)
  from this(2) show ?thesis
  proof (cases rule: assigned_cases)
    case 1
    then have eq: "attr_eq (attr_value x a) v" using m(1) by simp
    show ?thesis
    proof (cases "moniker_of (cim_objects s) p")
      case (Inl e)
      with inv_unset [OF i fair_objects(1) [OF f] m(1)] fair_fresh [OF f Inl m(2), of a] 1(2) eq show ?thesis
        by (auto intro: mirrored_none attr_eq_trans)
    next
      case (Inr m0)
      then have "m0 = m" using fair_kept [OF f Inr] m(2) by simp
      moreover have "mirrored (cim_objects s') (on_the_way (G_httpClient s')) m0 a (attr_value x a)"
        by (rule mirrored_stays [OF fair_kept [OF f] _ inv_mirrored [OF i fair_objects(1) [OF f] m(1) Inr]]) (use 1(2) in auto)
      ultimately show ?thesis using mirrored_trans eq by blast
    qed
  next
    case (2 m' j)
    with m(2) sends_last [OF 2, of m a] show ?thesis by (auto simp: sends_def intro: mirrored_new)
  qed
qed

lemma fair_mirror: "fair s p a v x s' \<Longrightarrow> mirror_inv s'"
proof -
  assume f: "fair s p a v x s'"
  then have a: "assigned s p a v x s'" and i: "mirror_inv s" by (simp_all add: fair_def)
  have "\<exists>q m. ev_subject e = Some (JObj m) \<and> moniker_of (cim_objects s') q = Inr m"
    if "e \<in> set (on_the_way (G_httpClient s'))" for e
    using a
  proof (cases rule: assigned_cases)
    case 1
    with that inv_subject [OF i] fair_kept [OF f] show ?thesis by metis
  next
    case (2 m j)
    then have "moniker_of (cim_objects s') p = Inr m" by (simp add: sends_def)
    with sends_subjects [OF 2 that] inv_subject [OF i, of e] fair_kept [OF f] show ?thesis by metis
  qed
  moreover have "attr_eq (ALit JNull) (attr_value y b)"
    if y: "map_of (cim_objects s') q = Some y" "IsCIM b" "moniker_of (cim_objects s') q = Inl e" for q y b e
  proof -
    obtain e' where e': "moniker_of (cim_objects s) q = Inl e'"
      using fair_kept [OF f, of q] y(3) by (cases "moniker_of (cim_objects s) q") auto
    show ?thesis
    proof (cases "q = p")
      case True
      have "attr_eq (attr_value x a) v" if "b = a"
        by (rule assigned_cases [OF a]) (use True y that in \<open>auto simp: sends_def\<close>)
      moreover have "y = x\<lparr>cim_attrs := AList.update a v (cim_attrs x)\<rparr>"
        using True y(1) fair_objects [OF f] by (auto simp: put_attr_def)
      ultimately show ?thesis
        using True inv_unset [OF i fair_objects(1) [OF f] y(2)] e' attr_value_put [where x = x and a = a and v = v and b = b] attr_eq_trans
        by (auto split: if_splits)
    next
      case False
      then have "map_of (cim_objects s) q = Some y" using y(1) fair_objects(2) [OF f] by (simp add: put_attr_def)
      with inv_unset [OF i _ y(2) e'] show ?thesis by blast
    qed
  qed
  moreover have "mirrored (cim_objects s') (on_the_way (G_httpClient s')) m b (attr_value y b)"
    if y: "map_of (cim_objects s') q = Some y" "IsCIM b" "moniker_of (cim_objects s') q = Inr m" for q y b m
  proof (cases "q = p \<and> b = a")
    case True
    then have "attr_value y b = v" using y(1) fair_objects [OF f] attr_value_put [where x = x and a = a and v = v and b = b] by (auto simp: put_attr_def)
    with True fair_mirrored_same [OF f] y show ?thesis by simp
  next
    case False
    with fair_mirrored_other [OF f y] show ?thesis by blast
  qed
  ultimately show ?thesis
    using a fair_unique [OF f] unfolding mirror_inv_def mirror_def assigned_def by (simp split: sum.split)
qed

lemma mirror_start: "mirror_inv \<lparr>cim_objects = [], G_httpClient = HttpTriplesClient_init\<rparr>"
  by (simp add: mirror_inv_def mirror_def client_live_def HttpTriplesClient_init_def on_the_way_def moniker_of_def)

lemma mirror_create:
  assumes i: "mirror_inv s" and p: "map_of (cim_objects s) p = None"
    and single: "m_Ontology cls = [] \<Longrightarrow> \<forall>q. moniker_of (cim_objects s) q \<noteq> Inr [(''entity_type'', JText cls)]"
  shows "mirror_inv (s\<lparr>cim_objects := AList.update p \<lparr>cim_class = cls, cim_attrs = []\<rparr> (cim_objects s)\<rparr>)"
proof -
  let ?os = "AList.update p \<lparr>cim_class = cls, cim_attrs = []\<rparr> (cim_objects s)"
  let ?es = "on_the_way (G_httpClient s)"
  have new: "moniker_of ?os p = Inl AttributeError \<or>
      moniker_of ?os p = Inr [(''entity_type'', JText cls)] \<and> m_Ontology cls = []"
    by (cases "m_Ontology cls") (simp_all add: moniker_of_def object_moniker_def object_key_def)
  then have fresh: "moniker_of (cim_objects s) q \<noteq> Inr m" if "moniker_of ?os p = Inr m" for q m
    using single that by auto
  have old: "moniker_of ?os q = moniker_of (cim_objects s) q" if "q \<noteq> p" for q
    using that by (simp add: moniker_of_def)
  have kept: "moniker_of (cim_objects s) q = Inr m \<Longrightarrow> moniker_of ?os q = Inr m" for q m
    using old [of q] p by (cases "q = p") (simp_all add: moniker_of_def)
  have "case moniker_of ?os q of Inl _ \<Rightarrow> attr_eq (ALit JNull) (attr_value x a)
      | Inr m \<Rightarrow> mirrored ?os ?es m a (attr_value x a)"
    if x: "map_of ?os q = Some x" "IsCIM a" for q x a
  proof (cases "q = p")
    case True
    then have v: "attr_value x a = ALit JNull" using x(1) by (auto simp: attr_value_def)
    show ?thesis
    proof (cases "moniker_of ?os p")
      case (Inr m)
      have "last_sent ?es m a = None"
        using inv_subject [OF i] fresh [OF Inr] by (intro last_sent_None) fastforce
      with True Inr v show ?thesis by (simp add: mirrored_none)
    qed (use True v in simp)
  next
    case False
    then have q: "map_of (cim_objects s) q = Some x" using x(1) by simp
    show ?thesis
    proof (cases "moniker_of (cim_objects s) q")
      case (Inl e)
      with old [OF False] inv_unset [OF i q x(2) Inl] show ?thesis by simp
    next
      case (Inr m)
      with old [OF False] mirrored_stays [OF kept refl inv_mirrored [OF i q x(2) Inr]] show ?thesis by simp
    qed
  qed
  moreover have "\<exists>q m. ev_subject e = Some (JObj m) \<and> moniker_of ?os q = Inr m" if "e \<in> set ?es" for e
    using inv_subject [OF i that] kept by metis
  moreover have "q = q'" if qs: "moniker_of ?os q = Inr m" "moniker_of ?os q' = Inr m" for q q' m
  proof (cases "q = p \<or> q' = p")
    case True
    with qs have "\<forall>r. moniker_of (cim_objects s) r \<noteq> Inr m" using fresh by blast
    with qs old show ?thesis by metis
  next
    case False
    with qs old i show ?thesis unfolding mirror_inv_def mirror_def by metis
  qed
  ultimately have "mirror ?os ?es" unfolding mirror_def by blast
  then show ?thesis using i by (simp add: mirror_inv_def)
qed

lemma mirror_wake:
  assumes "mirror_inv s"
  shows "mirror_inv (s\<lparr>G_httpClient := run_once Answered (G_httpClient s)\<rparr>)"
proof -
  have "client_live (G_httpClient s)" using assms by (simp add: mirror_inv_def)
  then have "on_the_way (run_once Answered (G_httpClient s)) = on_the_way (G_httpClient s)"
    "client_live (run_once Answered (G_httpClient s))"
    by (simp_all add: run_once_def post_triples_def take_triples_def on_the_way_def client_live_def)
  with assms show ?thesis by (simp add: mirror_inv_def)
qed

lemma dockit_run_mirror:
  assumes "dockit_run u s" "u \<noteq> []"
  shows "mirror_inv s"
  using assms(1)
proof induction
  case start
  show ?case by (rule mirror_start)
next
  case (create s p cls)
  then show ?case by (blast intro: mirror_create)
next
  case (set_key s p x a v s')
  have "client_live (G_httpClient s)" using set_key.IH by (simp add: mirror_inv_def mirror_def)
  from setattr_run [OF set_key.hyps(4) this assms(2)] obtain y where "assigned s p a v y s'" by blast
  moreover from this have "y = x" using set_key.hyps(2) by (simp add: assigned_def)
  ultimately have "fair s p a v x s'" using set_key.IH set_key.hyps(3,5) by (simp add: fair_def)
  then show ?case by (rule fair_mirror)
next
  case (set_other s p x a v s')
  have "client_live (G_httpClient s)" using set_other.IH by (simp add: mirror_inv_def mirror_def)
  from setattr_run [OF set_other.hyps(4) this assms(2)] obtain y where "assigned s p a v y s'" by blast
  moreover from this have "y = x" using set_other.hyps(2) by (simp add: assigned_def)
  ultimately have asg: "assigned s p a v x s'" by simp
  then have o: "map_of (cim_objects s) p = Some x" "cim_objects s' = put_attr p x a v (cim_objects s)"
    by (simp_all add: assigned_def)
  have "moniker_of (cim_objects s') p' \<noteq> Inr m" if "p' \<noteq> p" "moniker_of (cim_objects s') p = Inr m" for p' m
    using set_other.IH moniker_same [OF o(1) set_other.hyps(3)] that unfolding o(2) mirror_inv_def mirror_def by metis
  with asg set_other.IH set_other.hyps(3) have "fair s p a v x s'" by (simp add: fair_def)
  then show ?case by (rule fair_mirror)
next
  case (wake s)
  then show ?case by (blast intro: mirror_wake)
qed

end
