(* ===== verification/AgentUrl.thy ===== *)
theory AgentUrl
  imports PyRegex
begin

text \<open>
  The texts by which the agent of Survol names its objects, from \<^verbatim>\<open>survol/lib_util.py\<close>: the URL of an
  object, its \<open>xid\<close> (the class, the host and the moniker), the moniker (the pairs of keys and values),
  and the display mode in a URL. Under Python 2 a text is a sequence of bytes; \<^verbatim>\<open>urllib.quote\<close> and
  \<^verbatim>\<open>urllib.unquote\<close> are written out. The modules' global \<^verbatim>\<open>uriRoot\<close> is an argument.
\<close>

abbreviation bsl :: char where
  "bsl \<equiv> CHR 0x5C"

definition py_replace :: "string \<Rightarrow> string \<Rightarrow> string \<Rightarrow> string" where
  "py_replace s old new = py_join new (split_str old 0 s)"

subsection \<open>\<^verbatim>\<open>urllib.quote\<close> and \<^verbatim>\<open>urllib.unquote\<close>\<close>

definition hex_digit :: "nat \<Rightarrow> char" where
  "hex_digit n = (if n < 10 then char_of (48 + n) else char_of (55 + n))"

definition hex_val :: "char \<Rightarrow> nat option" where
  "hex_val c = (case digit_val c of None \<Rightarrow> None | Some d \<Rightarrow> if d < 16 then Some d else None)"

definition always_safe :: "char \<Rightarrow> bool" where
  "always_safe c \<longleftrightarrow> word_char c \<or> c = CHR ''.'' \<or> c = CHR ''-''"

definition percent :: "char \<Rightarrow> string" where
  "percent c = (let n = of_char c :: nat in [CHR ''%'', hex_digit (n div 16), hex_digit (n mod 16)])"

definition urllib_quote :: "string \<Rightarrow> string \<Rightarrow> string" where
  "urllib_quote s safe = concat (map (\<lambda>c. if always_safe c \<or> c \<in> set safe then [c] else percent c) s)"

text \<open>An escape that is not followed by two hexadecimal digits is left as it is.\<close>

fun urllib_unquote :: "string \<Rightarrow> string" where
  "urllib_unquote [] = []"
| "urllib_unquote (c # a # b # s) =
     (case (if c = CHR ''%'' then hex_val a else None, hex_val b) of
        (Some x, Some y) \<Rightarrow> char_of (16 * x + y) # urllib_unquote s
      | _ \<Rightarrow> c # urllib_unquote (a # b # s))"
| "urllib_unquote (c # s) = c # urllib_unquote s"

subsection \<open>Monikers: the keys and the values of an object\<close>

text \<open>\<^verbatim>\<open>BuildMonikerPath\<close>; a dictionary is the list of its entries in the order of iteration.\<close>

definition pair_text :: "string \<times> string \<Rightarrow> string" where
  "pair_text kv = fst kv @ ''='' @ snd kv"

definition BuildMonikerPath :: "(string \<times> string) list \<Rightarrow> string" where
  "BuildMonikerPath d = py_join '','' (map pair_text d)"

text \<open>
  \<open>"(?:\\.|[^"])*"\<close> after its opening quote: the text up to the closing quote, and the rest. A
  backslash first takes the next character with it; if no closing quote is then found it stands for
  itself.
\<close>

fun quoted :: "string \<Rightarrow> (string \<times> string) option" where
  "quoted [] = None"
| "quoted (c # cs) =
     (case (case cs of
              [] \<Rightarrow> None
            | d # ds \<Rightarrow>
                if c = bsl \<and> not_newline d
                then map_option (\<lambda>pr. (c # d # fst pr, snd pr)) (quoted ds) else None) of
        Some pr \<Rightarrow> Some pr
      | None \<Rightarrow>
          if c = CHR 0x22 then Some ([c], cs)
          else map_option (\<lambda>pr. (c # fst pr, snd pr)) (quoted cs))"

declare quoted.simps(2) [simp del]

lemma quoted_append: "quoted s = Some pr \<Longrightarrow> s = fst pr @ snd pr \<and> fst pr \<noteq> []"
proof (induction s arbitrary: pr rule: quoted.induct)
  case (2 c cs)
  show ?case
  proof (cases "\<exists>d ds. cs = d # ds \<and> c = bsl \<and> not_newline d \<and> quoted ds \<noteq> None")
    case True
    then obtain d ds q where q: "cs = d # ds" "c = bsl" "not_newline d" "quoted ds = Some q" by blast
    with "2.IH"(1) [OF q(1) _ q(4)] "2.prems" show ?thesis by (auto simp: quoted.simps(2))
  next
    case False
    then have n: "(case cs of [] \<Rightarrow> None
        | d # ds \<Rightarrow> if c = bsl \<and> not_newline d
            then map_option (\<lambda>pr. (c # d # fst pr, snd pr)) (quoted ds) else None) = None"
      by (cases cs) (simp_all del: not_None_eq)
    with "2.prems" show ?thesis
      by (auto simp: quoted.simps(2) split: if_splits dest!: "2.IH"(2) [OF n])
  qed
qed simp

lemma quoted_shorter: "quoted s = Some (p, r) \<Longrightarrow> length r < length s"
  using quoted_append [of s "(p, r)"] by (cases p) auto

text \<open>\<open>(?:[^,"]|"(?:\\.|[^"])*")+\<close>: the longest word at the start of the text (empty: no match).\<close>

function moniker_word :: "string \<Rightarrow> string \<times> string" where
  "moniker_word s =
     (case s of
        [] \<Rightarrow> ([], [])
      | c # cs \<Rightarrow>
          if c = CHR '','' then ([], s)
          else if c = CHR 0x22 then
            (case quoted cs of
               None \<Rightarrow> ([], s)
             | Some (p, r) \<Rightarrow> (case moniker_word r of (w, t) \<Rightarrow> (c # p @ w, t)))
          else (case moniker_word cs of (w, t) \<Rightarrow> (c # w, t)))"
  by pat_completeness auto
termination
  by (relation "measure length") (auto dest: quoted_shorter)

declare moniker_word.simps [simp del]

lemma moniker_word_Nil [simp]: "moniker_word [] = ([], [])"
  by (simp add: moniker_word.simps)

lemma moniker_word_Cons:
  "moniker_word (c # cs) =
     (if c = CHR '','' then ([], c # cs)
      else if c = CHR 0x22 then
        (case quoted cs of
           None \<Rightarrow> ([], c # cs)
         | Some (p, r) \<Rightarrow> (case moniker_word r of (w, t) \<Rightarrow> (c # p @ w, t)))
      else (case moniker_word cs of (w, t) \<Rightarrow> (c # w, t)))"
  by (simp add: moniker_word.simps [of "c # cs"])

lemma moniker_word_append: "moniker_word s = (w, t) \<Longrightarrow> s = w @ t"
proof (induction s arbitrary: w t rule: moniker_word.induct)
  case (1 s)
  show ?case
  proof (cases s)
    case Nil
    with 1 show ?thesis by simp
  next
    case (Cons c cs)
    note ih = "1.IH" [OF Cons]
    from "1.prems" ih show ?thesis unfolding Cons moniker_word_Cons
      by (auto split: if_splits option.splits prod.splits dest: quoted_append)
  qed
qed

text \<open>\<open>re.findall\<close>: all words, one after the other; a position without a word is passed.\<close>

function moniker_words :: "string \<Rightarrow> string list" where
  "moniker_words s =
     (case s of
        [] \<Rightarrow> []
      | c # cs \<Rightarrow>
          (case moniker_word s of
             ([], _) \<Rightarrow> moniker_words cs
           | (w, r) \<Rightarrow> w # moniker_words r))"
  by pat_completeness auto
termination
  by (relation "measure length") (auto dest: moniker_word_append [OF sym])

declare moniker_words.simps [simp del]

definition quoted_pair :: regex where
  "quoted_pair = [One word_char, Star word_char] @ lit [CHR ''='', CHR 0x22] @ [dot_star] @ lit [CHR 0x22]"

definition plain_pair :: regex where
  "plain_pair = [One word_char, Star word_char] @ lit ''='' @ [dot_star]"

definition split_word :: "(string \<times> string) list \<Rightarrow> string \<Rightarrow> (string \<times> string) list" where
  "split_word resu w =
     (case rmatch quoted_pair w of
        Some ps \<Rightarrow> AList.update (ps ! 0 @ ps ! 1) (ps ! 4) resu
      | None \<Rightarrow>
          (case rmatch plain_pair w of
             Some ps \<Rightarrow> AList.update (ps ! 0 @ ps ! 1) (ps ! 3) resu
           | None \<Rightarrow> resu))"

definition SplitMoniker :: "string \<Rightarrow> (string \<times> string) list" where
  "SplitMoniker xid = foldl split_word [] (moniker_words xid)"

fun wql_conditions :: "string \<Rightarrow> (string \<times> string) list \<Rightarrow> string" where
  "wql_conditions delim [] = []"
| "wql_conditions delim (kv # kvs) =
     '' '' @ delim @ '' '' @ fst kv @ [CHR ''='', CHR 0x22] @ snd kv @ [CHR 0x22] @ wql_conditions ''and'' kvs"

definition SplitMonikToWQL :: "(string \<times> string) list \<Rightarrow> string \<Rightarrow> string" where
  "SplitMonikToWQL splitMonik className =
     ''select * from '' @ className @ '' '' @ wql_conditions ''where'' splitMonik"

subsection \<open>Building the URL of an object or of a class\<close>

definition EncodeEntityId :: "string \<Rightarrow> string \<Rightarrow> string" where
  "EncodeEntityId entity_type entity_id = ''xid='' @ entity_type @ ''.'' @ entity_id"

text \<open>The second argument of \<^verbatim>\<open>urllib.quote\<close> is the set of the safe characters, here the letters of "ascii".\<close>

definition EncodeUri :: "string \<Rightarrow> string" where
  "EncodeUri anStr =
     (let strTABLE = (if anStr \<noteq> [] then py_replace anStr [bsl, CHR ''L''] [bsl, bsl, CHR ''L''] else [])
      in urllib_quote strTABLE ''ascii'')"

definition xidCgiDelimiter :: string where
  "xidCgiDelimiter = ''?xid=''"

definition Scriptize :: "string \<Rightarrow> string \<Rightarrow> string \<Rightarrow> string \<Rightarrow> string" where
  "Scriptize uriRoot path entity_type entity_id =
     uriRoot @ path @ ''?'' @ EncodeEntityId entity_type entity_id"

definition ScriptizeCimom :: "string \<Rightarrow> string \<Rightarrow> string \<Rightarrow> string \<Rightarrow> string" where
  "ScriptizeCimom uriRoot path entity_type cimom =
     uriRoot @ path @ ''?'' @ EncodeEntityId (cimom @ ''/'' @ entity_type) []"

definition EntityClassUrl :: "string \<Rightarrow> string option \<Rightarrow> string \<Rightarrow> string \<Rightarrow> string \<Rightarrow> string" where
  "EntityClassUrl uriRoot entity_type entity_namespace entity_host category =
     (let t = (case entity_type of None \<Rightarrow> [] | Some t \<Rightarrow> t);
          monikerClass =
            (if category = ''WBEM'' then entity_host @ ''/'' @ entity_namespace @ '':'' @ t @ ''.''
             else if category = ''WMI'' then [bsl, bsl] @ entity_host @ [bsl] @ entity_namespace @ '':'' @ t @ ''.''
             else (if entity_host \<noteq> [] then entity_host @ ''@'' else []) @
                  (if entity_namespace \<noteq> [] then entity_namespace @ ''/:'' else []) @ t @ ''.'')
      in uriRoot @ ''/class_type_all.py'' @ xidCgiDelimiter @ EncodeUri monikerClass)"

definition EntityUriFromDict :: "string \<Rightarrow> string \<Rightarrow> (string \<times> string) list \<Rightarrow> string" where
  "EntityUriFromDict uriRoot entity_type entity_ids_kvp =
     Scriptize uriRoot ''/entity.py'' entity_type (py_join '','' (map pair_text entity_ids_kvp))"

text \<open>The first character of an empty moniker raises IndexError.\<close>

definition EntityScriptFromPath :: "string \<Rightarrow> bool \<Rightarrow> bool \<Rightarrow> bool \<Rightarrow> string pyres" where
  "EntityScriptFromPath monikerEntity is_class is_namespace is_hostname =
     (case monikerEntity of
        [] \<Rightarrow> Inl IndexError
      | c # _ \<Rightarrow>
          (let entIdx = (if c = bsl then 0 else if take 4 monikerEntity = ''http'' then 1 else 2)
           in Inr ((if is_hostname then [''namespaces_wmi.py'', ''namespaces_wbem.py'', ''entity.py'']
                    else if is_namespace then [''objtypes_wmi.py'', ''objtypes_wbem.py'', ''objtypes.py'']
                    else if is_class then [''class_wmi.py'', ''class_wbem.py'', ''class_type_all.py'']
                    else [''entity_wmi.py'', ''entity_wbem.py'', ''entity.py'']) ! entIdx)))"

definition EntityUrlFromMoniker :: "string \<Rightarrow> string \<Rightarrow> bool \<Rightarrow> bool \<Rightarrow> bool \<Rightarrow> string pyres" where
  "EntityUrlFromMoniker uriRoot monikerEntity is_class is_namespace is_hostname =
     (case EntityScriptFromPath monikerEntity is_class is_namespace is_hostname of
        Inl e \<Rightarrow> Inl e
      | Inr scriptPath \<Rightarrow> Inr (uriRoot @ ''/'' @ scriptPath @ xidCgiDelimiter @ EncodeUri monikerEntity))"

definition ComposeTypes :: "string \<Rightarrow> string \<Rightarrow> string" where
  "ComposeTypes t1 t2 = t1 @ ''/'' @ t2"

subsection \<open>Parsing the xid of an object\<close>

definition dash_char :: "char \<Rightarrow> bool" where
  "dash_char c \<longleftrightarrow> word_char c \<or> c = CHR ''-''"

definition host_char :: "char \<Rightarrow> bool" where
  "host_char c \<longleftrightarrow> word_char c \<or> c = CHR ''-'' \<or> c = CHR ''.''"

definition class_char :: "char \<Rightarrow> bool" where
  "class_char c \<longleftrightarrow> word_char c \<or> c = CHR ''/''"

definition class_start :: "char \<Rightarrow> bool" where
  "class_start c \<longleftrightarrow> word_char c \<and> \<not> (CHR ''0'' \<le> c \<and> c \<le> CHR ''9'')"

text \<open>
  \<open>([-0-9A-Za-z_]*\\?[-0-9A-Za-z_\.]*@)?([a-zA-Z_][a-z0-9A-Z_/]*)\.(.*)\<close>. An optional group is tried
  with all that follows, and left out when this fails.
\<close>

definition host_part :: regex where
  "host_part = [Star dash_char, Opt (\<lambda>c. c = bsl), Star host_char] @ lit ''@''"

definition class_part :: regex where
  "class_part = [One class_start, Star class_char] @ lit ''.'' @ [dot_star]"

definition ParseXidLocal :: "string \<Rightarrow> (string \<times> string \<times> string) option" where
  "ParseXidLocal xid =
     (case rmatch (host_part @ class_part) xid of
        Some ps \<Rightarrow> Some (ps ! 4 @ ps ! 5, urllib_unquote (ps ! 7), butlast (concat (take 4 ps)))
      | None \<Rightarrow>
          (case rmatch class_part xid of
             Some ps \<Rightarrow> Some (ps ! 0 @ ps ! 1, urllib_unquote (ps ! 3), [])
           | None \<Rightarrow> None))"

definition wmi_regex_local_part :: regex where
  "wmi_regex_local_part =
     [One word_char, Star word_char] @ lit [bsl] @ [Star (\<lambda>c. c \<noteq> CHR ''.'')] @ lit ''.'' @ [dot_star]"

definition wmi_regex :: regex where
  "wmi_regex = lit [bsl, bsl] @ [Opt (\<lambda>c. c = bsl), Star host_char] @ lit [bsl] @ wmi_regex_local_part"

text \<open>The dot after the name of the class is dropped, after the unquoting.\<close>

definition ParseXidWMI :: "string \<Rightarrow> (string \<times> string \<times> string) option" where
  "ParseXidWMI xid =
     (case rmatch wmi_regex xid of
        Some ps \<Rightarrow>
          Some (ps ! 5 @ ps ! 6 @ [bsl] @ ps ! 8, drop 1 (urllib_unquote (ps ! 9 @ ps ! 10)), ps ! 3)
      | None \<Rightarrow>
          (case rmatch wmi_regex_local_part xid of
             Some ps \<Rightarrow>
               Some (ps ! 0 @ ps ! 1 @ [bsl] @ ps ! 3, drop 1 (urllib_unquote (ps ! 4 @ ps ! 5)), [])
           | None \<Rightarrow> None))"

text \<open>\<open>(https?://[^/]*)/([^.]*)(\..*)?\<close>.\<close>

definition wbem_regex :: regex where
  "wbem_regex =
     lit ''http'' @ [Opt (\<lambda>c. c = CHR ''s'')] @ lit ''://'' @ [Star (\<lambda>c. c \<noteq> CHR ''/'')] @ lit ''/'' @
     [Star (\<lambda>c. c \<noteq> CHR ''.'')]"

definition ParseXidWBEM :: "string \<Rightarrow> (string \<times> string \<times> string) option" where
  "ParseXidWBEM xid =
     (case rmatch (wbem_regex @ lit ''.'' @ [dot_star]) xid of
        Some ps \<Rightarrow>
          Some (ps ! 10, drop 1 (urllib_unquote (ps ! 11 @ ps ! 12)), concat (take 9 ps))
      | None \<Rightarrow>
          (case rmatch wbem_regex xid of
             Some ps \<Rightarrow> Some (ps ! 10, [], concat (take 9 ps))
           | None \<Rightarrow> None))"

definition ParseXid :: "string \<Rightarrow> string \<times> string \<times> string" where
  "ParseXid xid =
     (case ParseXidLocal xid of
        Some r \<Rightarrow> r
      | None \<Rightarrow>
          (let x = urllib_unquote xid
           in case ParseXidWMI x of
                Some r \<Rightarrow> r
              | None \<Rightarrow> (case ParseXidWBEM x of Some r \<Rightarrow> r | None \<Rightarrow> ([], [], []))))"

definition ParseNamespaceType :: "string \<Rightarrow> string \<times> string \<times> string" where
  "ParseNamespaceType ns_entity_type =
     (let nsSplit = py_split (CHR '':'') ns_entity_type
      in if length nsSplit = 1 then ([], nsSplit ! 0, ns_entity_type)
         else (nsSplit ! 0, nsSplit ! 1, ns_entity_type))"

definition EntHostToIp :: "string \<Rightarrow> string" where
  "EntHostToIp entity_host =
     (case rmatch (lit ''http'' @ [Opt (\<lambda>c. c = CHR ''s'')] @ lit ''://'' @
             [Star (\<lambda>c. c \<noteq> CHR ''/'' \<and> c \<noteq> CHR '':''), dot_star]) entity_host of
        Some ps \<Rightarrow> ps ! 8
      | None \<Rightarrow>
          (case rmatch (lit [bsl, bsl] @ [Star host_char]) entity_host of
             Some ps \<Rightarrow> ps ! 2
           | None \<Rightarrow> entity_host))"

subsection \<open>The display mode in a URL\<close>

definition ConcatenateCgi :: "string \<Rightarrow> string \<Rightarrow> string" where
  "ConcatenateCgi url keyvalpair =
     (if py_rfind url ''?'' = -1 then url @ ''?'' @ keyvalpair else url @ ''&'' @ keyvalpair)"

definition UrlToSvg :: "string \<Rightarrow> string" where
  "UrlToSvg url = py_replace url ''&'' ''&amp;amp;''"

definition UrlNoAmp :: "string \<Rightarrow> string" where
  "UrlNoAmp url = py_replace (py_replace url ''&amp;'' ''&'') ''&amp;'' ''&''"

text \<open>\<open>(.*)([\?\&])mode=[^\&]*(.*)\<close>: the last mode of the URL.\<close>

definition cgi_sep :: "char \<Rightarrow> bool" where
  "cgi_sep c \<longleftrightarrow> c = CHR ''?'' \<or> c = CHR ''&''"

definition mode_part :: regex where
  "mode_part = One cgi_sep # lit ''mode='' @ [Star (\<lambda>c. c \<noteq> CHR ''&''), dot_star]"

definition AnyUriModed :: "string \<Rightarrow> string \<Rightarrow> string" where
  "AnyUriModed script otherMode =
     (case rmatch (dot_star # mode_part) script of
        Some ps \<Rightarrow>
          if otherMode \<noteq> [] then ps ! 0 @ ps ! 1 @ ''mode='' @ otherMode @ ps ! 8
          else if ps ! 1 = ''?'' then
            (if ps ! 8 \<noteq> [] then ps ! 0 @ ''?'' @ drop 1 (ps ! 8) else ps ! 0)
          else ps ! 0 @ ps ! 8
      | None \<Rightarrow> if otherMode \<noteq> [] then ConcatenateCgi script (''mode='' @ otherMode) else script)"

definition GetModeFromUrl :: "string \<Rightarrow> string" where
  "GetModeFromUrl url = (case rmatch (dot_star # mode_part) url of Some ps \<Rightarrow> ps ! 7 | None \<Rightarrow> [])"

subsection \<open>Titles\<close>

definition SplitTextTitleRest :: "string \<Rightarrow> string \<times> string" where
  "SplitTextTitleRest title =
     (let title_split = py_split (CHR 0x0A) (py_strip title)
      in (py_strip (title_split ! 0), py_strip (py_join '' '' (drop 1 title_split))))"

end
