(* ===== verification/Ontology.thy ===== *)
theory Ontology
  imports AgentUrl
begin

text \<open>
  The state of the agent, from \<^verbatim>\<open>survol/lib_util.py\<close> and \<^verbatim>\<open>survol/lib_uris.py\<close>: the globals of the module,
  the modules of the classes that were imported, the ontology (the keys of each class), and the URLs of
  the objects that depend on them. A list of keys is a Python list that its holders share, so it is named
  by its index in \<open>key_lists\<close>. A key is a text; some classes derive it from \<^verbatim>\<open>str\<close> to give it the
  methods \<^verbatim>\<open>ValueEncode\<close> and \<^verbatim>\<open>ValueDecode\<close>. The import of a module, the directories and the name service
  are the fields of \<open>agent_conf\<close>.
\<close>

record ontokey =
  key_name :: string
  ValueEncode :: "(string \<Rightarrow> string) option"
  ValueDecode :: "(string \<Rightarrow> string) option"

text \<open>
  A module of a class: what \<^verbatim>\<open>EntityOntology()[0]\<close> gives (AttributeError when there is no such function)
  and the functions that \<^verbatim>\<open>getattr\<close> finds, each named by a number.
\<close>

record agent_module =
  EntityOntology :: "ontokey list pyres"
  module_functions :: "(string \<times> nat) list"

record agent_conf =
  environ :: "(string \<times> string) list"
  getcwd :: string
  isdir :: "string \<Rightarrow> bool"
  gethostbyname :: "string \<Rightarrow> string option"
  gethostname :: string
  getservbyport :: "int \<Rightarrow> string option"
  sys_platform' :: string
  dict_order :: "string list \<Rightarrow> string list"
  import_module :: "string \<Rightarrow> string \<Rightarrow> agent_module pyres"

record agent =
  uriRoot :: string
  currentHostname :: string
  localIP :: string
  localOntology :: "(string \<times> nat) list"
  key_lists :: "ontokey list list"
  cacheEntityToModule :: "(string \<times> agent_module option) list"
  dictHierarchicalFunctionSearch :: "(string \<times> (string \<times> nat option) list) list"

abbreviation ImportError :: pyexc where
  "ImportError \<equiv> PyException ''ImportError''"

text \<open>
  The entries of a dictionary in the order in which Python iterates over it. A dictionary is kept as the
  list of its entries, each with its key (\<open>f\<close>), in the order of their insertion; Python 2 iterates in the
  order of its hash table, which is the parameter \<open>dict_order\<close> of the configuration.
\<close>

definition dict_items :: "agent_conf \<Rightarrow> ('a \<Rightarrow> string) \<Rightarrow> 'a list \<Rightarrow> 'a list" where
  "dict_items c f d =
     concat (map (\<lambda>k. case find (\<lambda>x. f x = k) d of None \<Rightarrow> [] | Some x \<Rightarrow> [x]) (dict_order c (map f d)))"

subsection \<open>The globals of the module\<close>

definition HttpPrefix :: "agent_conf \<Rightarrow> string pyres" where
  "HttpPrefix c =
     (case map_of (environ c) ''SERVER_NAME'' of
        None \<Rightarrow> Inl SystemExit
      | Some server_addr \<Rightarrow>
          (let server_port = (case map_of (environ c) ''SERVER_PORT'' of None \<Rightarrow> ''80'' | Some p \<Rightarrow> p)
           in Inr (''http://'' @ server_addr @ '':'' @ server_port)))"

definition UriRootHelper :: "agent_conf \<Rightarrow> string pyres" where
  "UriRootHelper c =
     (case map_of (environ c) ''SERVER_NAME'' of
        None \<Rightarrow> Inl SystemExit
      | Some _ \<Rightarrow>
          (let root = (case map_of (environ c) ''SCRIPT_NAME'' of
                         None \<Rightarrow> ''/CannotNotHappen''
                       | Some scriptNam \<Rightarrow>
                           (let idx = py_find scriptNam ''survol''
                            in if 0 \<le> idx then py_upto scriptNam idx @ ''survol''
                               else ''/NON_SURVOL_URL/'' @ scriptNam))
           in case HttpPrefix c of Inl e \<Rightarrow> Inl e | Inr p \<Rightarrow> Inr (p @ root)))"

definition HostName :: "agent_conf \<Rightarrow> string pyres" where
  "HostName c =
     (case map_of (environ c) ''SERVER_NAME'' of None \<Rightarrow> Inl KeyError | Some h \<Rightarrow> Inr (map to_lower h))"

text \<open>A host that is not found is its own address.\<close>

definition GlobalGetHostByName :: "agent_conf \<Rightarrow> string \<Rightarrow> string" where
  "GlobalGetHostByName c hostNam = (case gethostbyname c hostNam of Some ip \<Rightarrow> ip | None \<Rightarrow> hostNam)"

definition TopScriptsFunc :: "agent_conf \<Rightarrow> string pyres" where
  "TopScriptsFunc c =
     (let currDir = getcwd c; urlPrefix = ''survol''; idx = py_find currDir urlPrefix
      in if idx = -1 then Inr (currDir @ ''//'' @ urlPrefix)
         else if endswith currDir ''survol/survol'' then Inr currDir
         else if endswith currDir (''Survol'' @ [bsl] @ ''survol'') then Inr (currDir @ [bsl] @ ''survol'')
         else (let currDirShort = py_upto currDir (idx + 6)
               in if isdir c (currDirShort @ ''/sources_types'') then Inr currDirShort
                  else if isdir c (currDirShort @ ''/survol/sources_types'') then Inr (currDirShort @ ''/survol'')
                  else Inl (PyException (''TopScriptsFunc: Invalid currDir='' @ currDir))))"

text \<open>The import of \<^verbatim>\<open>lib_util\<close>: the globals in the order of the file.\<close>

definition lib_util_init :: "agent_conf \<Rightarrow> agent pyres" where
  "lib_util_init c =
     (case UriRootHelper c of
        Inl e \<Rightarrow> Inl e
      | Inr root \<Rightarrow>
          (case HostName c of
             Inl e \<Rightarrow> Inl e
           | Inr h \<Rightarrow>
               (case TopScriptsFunc c of
                  Inl e \<Rightarrow> Inl e
                | Inr _ \<Rightarrow>
                    Inr \<lparr>uriRoot = root, currentHostname = h, localIP = GlobalGetHostByName c h,
                         localOntology = [], key_lists = [], cacheEntityToModule = [([], None)],
                         dictHierarchicalFunctionSearch = []\<rparr>)))"

definition IsLocalAddress :: "agent_conf \<Rightarrow> string \<Rightarrow> (agent, bool) py" where
  "IsLocalAddress c anHostNam =
     (let hostOnly = EntHostToIp anHostNam
      in bnd (gets currentHostname) (\<lambda>current.
         bnd (gets localIP) (\<lambda>lip.
           if hostOnly \<in> set [[], ''localhost'', ''127.0.0.1'', current] then ret True
           else (let ipOnly = GlobalGetHostByName c hostOnly
                 in if ipOnly \<in> set [''0.0.0.0'', ''127.0.0.1'', lip] then ret True
                    else ret (map to_lower anHostNam = map to_lower (gethostname c))))))"

definition EntHostToIpReally :: "agent_conf \<Rightarrow> string \<Rightarrow> string" where
  "EntHostToIpReally c entity_host = GlobalGetHostByName c (EntHostToIp entity_host)"

definition SameHostOrLocal :: "string \<Rightarrow> string option \<Rightarrow> (agent, bool) py" where
  "SameHostOrLocal srv entHost =
     bnd (gets localIP) (\<lambda>lip.
       ret (entHost = Some srv \<or> ((entHost = None \<or> entHost \<in> set [Some [], Some ''0.0.0.0'']) \<and> lip = srv)))"

definition isPlatformLinux :: "agent_conf \<Rightarrow> bool" where
  "isPlatformLinux c = contains (sys_platform' c) ''linux''"

definition isPlatformWindows :: "agent_conf \<Rightarrow> bool" where
  "isPlatformWindows c = contains (sys_platform' c) ''win''"

subsection \<open>The modules of the classes\<close>

definition GetEntityModuleNoCacheNoCatch :: "agent_conf \<Rightarrow> string \<Rightarrow> agent_module pyres" where
  "GetEntityModuleNoCacheNoCatch c entity_type =
     (let entity_type_split = py_split (CHR ''/'') entity_type
      in if 1 < length entity_type_split
         then import_module c (''.'' @ last entity_type_split)
                (''sources_types.'' @ py_join ''.'' (butlast entity_type_split))
         else import_module c (''.'' @ entity_type) ''sources_types'')"

definition GetEntityModuleNoCache :: "agent_conf \<Rightarrow> string \<Rightarrow> agent_module option pyres" where
  "GetEntityModuleNoCache c entity_type =
     (case GetEntityModuleNoCacheNoCatch c entity_type of
        Inr m \<Rightarrow> Inr (Some m)
      | Inl e \<Rightarrow> if e = ImportError then Inr None else Inl e)"

definition GetEntityModuleNoCatch :: "agent_conf \<Rightarrow> string \<Rightarrow> (agent, agent_module option) py" where
  "GetEntityModuleNoCatch c entity_type =
     bnd (gets cacheEntityToModule) (\<lambda>cache.
       case map_of cache entity_type of
         Some m \<Rightarrow> ret m
       | None \<Rightarrow>
           bnd (of_res (GetEntityModuleNoCacheNoCatch c entity_type)) (\<lambda>m.
             andthen
               (modify (\<lambda>s. s\<lparr>cacheEntityToModule := AList.update entity_type (Some m) (cacheEntityToModule s)\<rparr>))
               (ret (Some m))))"

definition GetEntityModule :: "agent_conf \<Rightarrow> string \<Rightarrow> (agent, agent_module option) py" where
  "GetEntityModule c entity_type =
     bnd (gets cacheEntityToModule) (\<lambda>cache.
       case map_of cache entity_type of
         Some m \<Rightarrow> ret m
       | None \<Rightarrow>
           bnd (of_res (GetEntityModuleNoCache c entity_type)) (\<lambda>m.
             andthen
               (modify (\<lambda>s. s\<lparr>cacheEntityToModule := AList.update entity_type m (cacheEntityToModule s)\<rparr>))
               (ret m)))"

text \<open>
  The search of a function in the module of a class, then in the ones of the packages above it. The
  loop goes on with \<open>rfind(".", 0, lastDot)\<close>, which is less than \<open>lastDot\<close>.
\<close>

definition py_rfind_upto :: "string \<Rightarrow> string \<Rightarrow> nat \<Rightarrow> int" where
  "py_rfind_upto s p j = py_rfind (take j s) p"

lemma rfind_from_less:
  "p \<noteq> [] \<Longrightarrow> rfind_from p s k = -1 \<or> (int k \<le> rfind_from p s k \<and> rfind_from p s k < int (k + length s))"
  by (induction p s k rule: rfind_from.induct) (auto simp: Let_def)

lemma py_rfind_upto_less: "p \<noteq> [] \<Longrightarrow> 0 < j \<Longrightarrow> nat (py_rfind_upto s p j) < j"
  using rfind_from_less [of p "take j s" 0] by (auto simp: py_rfind_upto_def py_rfind_def)

function hierarchy_loop :: "agent_conf \<Rightarrow> string \<Rightarrow> string \<Rightarrow> nat \<Rightarrow> (agent, nat option) py" where
  "hierarchy_loop c typeWithoutNS gFuncName lastDot =
     (if lastDot = 0 then ret None
      else bnd (GetEntityModule c (take lastDot typeWithoutNS)) (\<lambda>entity_module.
        case Option.bind entity_module (\<lambda>m. map_of (module_functions m) gFuncName) of
          Some gFuncAddr \<Rightarrow> ret (Some gFuncAddr)
        | None \<Rightarrow> hierarchy_loop c typeWithoutNS gFuncName (nat (py_rfind_upto typeWithoutNS ''.'' lastDot))))"
  by pat_completeness auto
termination
  by (relation "measure (\<lambda>(c, t, g, n). n)") (auto intro: py_rfind_upto_less)

declare hierarchy_loop.simps [simp del]

definition HierarchicalFunctionSearchNoCache ::
    "agent_conf \<Rightarrow> string \<Rightarrow> string \<Rightarrow> (agent, nat option) py" where
  "HierarchicalFunctionSearchNoCache c typeWithoutNS gFuncName =
     hierarchy_loop c typeWithoutNS gFuncName (length typeWithoutNS)"

definition search_put :: "string \<Rightarrow> string \<Rightarrow> nat option \<Rightarrow> agent \<Rightarrow> agent" where
  "search_put g t f s =
     s\<lparr>dictHierarchicalFunctionSearch :=
       (case map_of (dictHierarchicalFunctionSearch s) g of
          Some d \<Rightarrow> AList.update g (AList.update t f d) (dictHierarchicalFunctionSearch s)
        | None \<Rightarrow> AList.update g [(t, f)] (dictHierarchicalFunctionSearch s))\<rparr>"

text \<open>The check raises a text, which is itself a TypeError.\<close>

definition HierarchicalFunctionSearch ::
    "agent_conf \<Rightarrow> string \<Rightarrow> string \<Rightarrow> (agent, nat option) py" where
  "HierarchicalFunctionSearch c typeWithoutNS function_name =
     (if 0 \<le> py_find typeWithoutNS ''.'' then raise TypeError
      else let t = py_replace typeWithoutNS ''/'' ''.''
           in bnd (gets dictHierarchicalFunctionSearch) (\<lambda>dict.
                case Option.bind (map_of dict function_name) (\<lambda>d. map_of d t) of
                  Some funcObj \<Rightarrow> ret funcObj
                | None \<Rightarrow>
                    bnd (HierarchicalFunctionSearchNoCache c t function_name) (\<lambda>funcObj.
                      andthen (modify (search_put function_name t funcObj)) (ret funcObj))))"

subsection \<open>The ontology\<close>

text \<open>A new Python list: its index is its name.\<close>

definition new_list :: "ontokey list \<Rightarrow> (agent, nat) py" where
  "new_list ks = (\<lambda>s. (Inr (length (key_lists s)), s\<lparr>key_lists := key_lists s @ [ks]\<rparr>))"

definition put_ontology :: "string \<Rightarrow> nat \<Rightarrow> (agent, unit) py" where
  "put_ontology t r = modify (\<lambda>s. s\<lparr>localOntology := AList.update t r (localOntology s)\<rparr>)"

text \<open>The list that is returned for a class without ontology is not the one that is stored.\<close>

definition ontology_domain :: "string \<Rightarrow> (agent, nat) py" where
  "ontology_domain entity_type =
     bnd (new_list []) (\<lambda>r. andthen (put_ontology entity_type r) (new_list []))"

definition OntologyClassKeys :: "agent_conf \<Rightarrow> string \<Rightarrow> (agent, nat) py" where
  "OntologyClassKeys c entity_type =
     bnd (gets localOntology) (\<lambda>onto.
       case map_of onto entity_type of
         Some r \<Rightarrow> ret r
       | None \<Rightarrow>
           bnd (GetEntityModule c entity_type) (\<lambda>entity_module.
             case entity_module of
               None \<Rightarrow> ontology_domain entity_type
             | Some m \<Rightarrow>
                 (case EntityOntology m of
                    Inr ks \<Rightarrow> bnd (new_list ks) (\<lambda>r. andthen (put_ontology entity_type r) (ret r))
                  | Inl e \<Rightarrow> if e = AttributeError then ontology_domain entity_type else raise e)))"

definition keys_at :: "nat \<Rightarrow> agent \<Rightarrow> ontokey list" where
  "keys_at r s = key_lists s ! r"

definition DecodeCgiArg :: "(string \<times> string) list \<Rightarrow> ontokey \<Rightarrow> (agent, string) py" where
  "DecodeCgiArg dictIds aKey =
     bnd (of_opt KeyError (map_of dictIds (key_name aKey))) (\<lambda>aValRaw.
       ret (case ValueDecode aKey of Some f \<Rightarrow> f aValRaw | None \<Rightarrow> aValRaw))"

definition EntityIdToArray :: "agent_conf \<Rightarrow> string \<Rightarrow> string \<Rightarrow> (agent, string list) py" where
  "EntityIdToArray c entity_type entity_id =
     bnd (OntologyClassKeys c entity_type) (\<lambda>r.
     bnd (gets (keys_at r)) (\<lambda>ontoKeys.
       for_each ontoKeys (DecodeCgiArg (SplitMoniker entity_id))))"

subsection \<open>The URL of an object from the values of its keys\<close>

text \<open>\<^verbatim>\<open>zip\<close> stops at the shorter list, so keys without a value are left out.\<close>

definition EntityUriDupl ::
    "agent_conf \<Rightarrow> string \<Rightarrow> string list \<Rightarrow> (string \<times> string) list \<Rightarrow> (agent, string) py" where
  "EntityUriDupl c entity_type entity_ids extra_args =
     bnd (OntologyClassKeys c entity_type) (\<lambda>r.
     bnd (gets (keys_at r)) (\<lambda>keys.
       let entity_id = py_join '','' (map pair_text (zip (map key_name keys) entity_ids)) @
             concat (map (\<lambda>kv. '','' @ pair_text kv) extra_args)
       in bnd (gets uriRoot) (\<lambda>root. ret (Scriptize root ''/entity.py'' entity_type entity_id))))"

definition EntityUri :: "agent_conf \<Rightarrow> string \<Rightarrow> string list \<Rightarrow> (agent, string) py" where
  "EntityUri c entity_type entity_ids = EntityUriDupl c entity_type entity_ids []"

text \<open>\<^verbatim>\<open>re.match(".*/survol/entity.py.*", ..)\<close> and \<^verbatim>\<open>re.match("[a-zA-Z_]*=", ..)\<close>.\<close>

definition entity_script_regex :: regex where
  "entity_script_regex = [dot_star] @ lit ''/survol/entity'' @ [One not_newline] @ lit ''py'' @ [dot_star]"

definition key_regex :: regex where
  "key_regex = [Star class_start] @ lit ''=''"

definition TopUrl :: "agent_conf \<Rightarrow> string \<Rightarrow> string \<Rightarrow> (agent, string) py" where
  "TopUrl c entityType entityId =
     (let scriptNam = (case map_of (environ c) ''SCRIPT_NAME'' of None \<Rightarrow> ''Hello.py'' | Some n \<Rightarrow> n)
      in bnd (gets uriRoot) (\<lambda>root.
           if re_match entity_script_regex scriptNam
              \<and> entityType \<noteq> [] \<and> \<not> (entityId = [] \<or> re_match key_regex entityId)
           then EntityUri c entityType [[]]
           else ret (root @ ''/entity.py'')))"

text \<open>
  \<^verbatim>\<open>LocalBox\<close> of \<^verbatim>\<open>lib_uris.py\<close>. The prefix of the class (\<^verbatim>\<open>TypeMake\<close>) is empty for a local object and the
  host and an at-sign for a remote one. When there are more values than keys, \<open>keys +=\<close> changes the list
  that the ontology returned.
\<close>

definition TruncateHostname :: "string \<Rightarrow> string" where
  "TruncateHostname hostDns =
     (let hostSplit = py_split (CHR ''.'') hostDns
      in if length hostSplit = 2 \<and> hostSplit ! 1 = ''home'' then hostSplit ! 0 else hostDns)"

definition MakeTheNodeFromScript :: "string \<Rightarrow> string \<Rightarrow> string \<Rightarrow> string \<Rightarrow> (agent, string) py" where
  "MakeTheNodeFromScript typeMake path entity_type entity_id =
     bnd (gets uriRoot) (\<lambda>root.
       ret (root @ path @ xidCgiDelimiter @ typeMake @ entity_type @ ''.'' @ entity_id))"

definition fake_key :: "nat \<Rightarrow> ontokey" where
  "fake_key i = \<lparr>key_name = ''Key_'' @ dec_nat i, ValueEncode = None, ValueDecode = None\<rparr>"

definition zip_dict :: "string list \<Rightarrow> string list \<Rightarrow> (string \<times> string) list" where
  "zip_dict ks vs = foldl (\<lambda>d (k, v). AList.update k v d) [] (zip ks vs)"

definition BuildEntity :: "agent_conf \<Rightarrow> string \<Rightarrow> string list \<Rightarrow> (agent, string) py" where
  "BuildEntity c entity_type entity_id_arr =
     bnd (OntologyClassKeys c entity_type) (\<lambda>r.
     bnd (gets (keys_at r)) (\<lambda>keys.
     bnd (if length keys < length entity_id_arr
          then modify (\<lambda>s. s\<lparr>key_lists :=
                 (key_lists s)[r := keys @ map fake_key [length keys ..< length entity_id_arr]]\<rparr>)
          else ret ()) (\<lambda>_.
     bnd (gets (keys_at r)) (\<lambda>keys'.
       ret (py_join '','' (map pair_text (dict_items c fst (zip_dict (map key_name keys') entity_id_arr))))))))"

definition UriMake :: "agent_conf \<Rightarrow> string \<Rightarrow> string \<Rightarrow> string list \<Rightarrow> (agent, string) py" where
  "UriMake c typeMake entity_type entity_id_arr =
     bnd (BuildEntity c entity_type entity_id_arr) (\<lambda>entity_id.
       MakeTheNodeFromScript typeMake ''/entity.py'' entity_type entity_id)"

definition UriPairEncode :: "ontokey \<times> string \<Rightarrow> string \<times> string" where
  "UriPairEncode kv =
     (key_name (fst kv), case ValueEncode (fst kv) of Some f \<Rightarrow> f (snd kv) | None \<Rightarrow> snd kv)"

definition UriMakeFromDict ::
    "agent_conf \<Rightarrow> string \<Rightarrow> string \<Rightarrow> (ontokey \<times> string) list \<Rightarrow> (agent, string) py" where
  "UriMakeFromDict c typeMake entity_type entity_id_dict =
     MakeTheNodeFromScript typeMake ''/entity.py'' entity_type
       (py_join '','' (map (\<lambda>kv. pair_text (UriPairEncode kv))
         (dict_items c (\<lambda>kv. key_name (fst kv)) entity_id_dict)))"

definition HostnameUri :: "agent_conf \<Rightarrow> string \<Rightarrow> string \<Rightarrow> (agent, string) py" where
  "HostnameUri c typeMake hostAddr =
     UriMake c typeMake ''CIM_ComputerSystem'' [map to_lower (TruncateHostname hostAddr)]"

definition PidUri :: "agent_conf \<Rightarrow> string \<Rightarrow> int \<Rightarrow> (agent, string) py" where
  "PidUri c typeMake pid = UriMake c typeMake ''CIM_Process'' [py_str_int pid]"

definition FileUri :: "agent_conf \<Rightarrow> string \<Rightarrow> string \<Rightarrow> (agent, string) py" where
  "FileUri c typeMake path =
     UriMake c typeMake ''CIM_DataFile'' [EncodeUri (py_replace path [bsl] ''/'')]"

definition SharedLibUri :: "agent_conf \<Rightarrow> string \<Rightarrow> string \<Rightarrow> (agent, string) py" where
  "SharedLibUri c typeMake soname = UriMake c typeMake ''CIM_DataFile'' [EncodeUri soname]"

definition SmbShareUri :: "agent_conf \<Rightarrow> string \<Rightarrow> string \<Rightarrow> (agent, string) py" where
  "SmbShareUri c typeMake smbshare =
     UriMake c typeMake ''smbshr''
       [if take 2 smbshare = ''//'' then ''%2F%2F'' @ drop 2 smbshare else smbshare]"

definition SmbFileUri :: "agent_conf \<Rightarrow> string \<Rightarrow> string \<Rightarrow> string \<Rightarrow> (agent, string) py" where
  "SmbFileUri c typeMake smbshare smbfile =
     UriMake c typeMake ''smbfile''
       [if smbfile \<noteq> [] \<and> hd smbfile \<noteq> CHR ''/'' then smbshare @ ''/'' @ smbfile else smbshare @ smbfile]"

text \<open>The name of the port in the list of the services, or its number.\<close>

definition AddrUri :: "agent_conf \<Rightarrow> string \<Rightarrow> string \<Rightarrow> int \<Rightarrow> string \<Rightarrow> (agent, string) py" where
  "AddrUri c typeMake addr port transport =
     (let portNam = (case getservbyport c port of Some n \<Rightarrow> n | None \<Rightarrow> py_str_int port)
      in bnd (IsLocalAddress c addr) (\<lambda>isLocal.
           UriMake c typeMake ''addr''
             [(if isLocal then ''127.0.0.1'' else addr) @ '':'' @ portNam @
                (if transport \<noteq> ''tcp'' then '':'' @ transport else [])]))"

definition UserUri :: "agent_conf \<Rightarrow> string \<Rightarrow> string \<Rightarrow> (agent, string) py" where
  "UserUri c typeMake username =
     (let userTp = (if isPlatformLinux c then ''user''
                    else if isPlatformWindows c then ''Win32_UserAccount'' else ''user'');
          splitUser = py_split bsl username
      in bnd (gets currentHostname) (\<lambda>current.
           if 1 < length splitUser
           then UriMake c typeMake userTp [splitUser ! 1, map to_lower (splitUser ! 0)]
           else UriMake c typeMake userTp [username, map to_lower (TruncateHostname current)]))"

subsection \<open>The display mode of the page\<close>

definition RequestUri :: "agent_conf \<Rightarrow> string" where
  "RequestUri c =
     (case map_of (environ c) ''REQUEST_URI'' of
        Some script \<Rightarrow> script
      | None \<Rightarrow>
          (case (map_of (environ c) ''SCRIPT_NAME'', map_of (environ c) ''QUERY_STRING'') of
             (Some script, Some queryString) \<Rightarrow> if queryString \<noteq> [] then script @ ''?'' @ queryString else script
           | _ \<Rightarrow> ''RequestUri: No value''))"

definition RequestUriModed :: "agent_conf \<Rightarrow> string \<Rightarrow> string pyres" where
  "RequestUriModed c otherMode =
     (case HttpPrefix c of Inl e \<Rightarrow> Inl e | Inr p \<Rightarrow> Inr (AnyUriModed (p @ RequestUri c) otherMode))"

definition RootUri :: "agent_conf \<Rightarrow> string pyres" where
  "RootUri c = (case RequestUriModed c [] of Inl e \<Rightarrow> Inl e | Inr u \<Rightarrow> Inr (py_replace u ''&'' ''&amp;''))"

text \<open>
  \<open>modes\<close> are the values of the CGI argument \<^verbatim>\<open>mode\<close>, as \<^verbatim>\<open>cgi.FieldStorage\<close> gives them: none is a KeyError,
  and several are a list, which has no \<^verbatim>\<open>value\<close>.
\<close>

definition GuessDisplayMode :: "agent_conf \<Rightarrow> string list \<Rightarrow> string" where
  "GuessDisplayMode c modes =
     (let mode = (case modes of [] \<Rightarrow> [] | [m] \<Rightarrow> m | _ \<Rightarrow> ''info'');
          script_mode = (case map_of (environ c) ''SCRIPT_NAME'' of None \<Rightarrow> [] | Some s \<Rightarrow> GetModeFromUrl s)
      in if mode \<noteq> [] then mode
         else case map_of (environ c) ''HTTP_REFERER'' of
                None \<Rightarrow> script_mode
              | Some referer \<Rightarrow>
                  (let modeReferer = GetModeFromUrl referer
                   in if modeReferer \<noteq> [] then (if modeReferer = ''edit'' then [] else modeReferer)
                      else script_mode))"

end
