(* ===== verification/Events.thy ===== *)
theory Events
  imports Ontology Triples
begin

text \<open>
  The store of events of the agent, from \<^verbatim>\<open>survol/lib_event.py\<close>. An event is appended to the file of its
  subject and to the file of its object, one line for each event; reading a file gives the triples and
  empties it.

  A file is here the list of the events of its lines, since \<^verbatim>\<open>json.dump\<close> writes no newline and
  \<^verbatim>\<open>json.loads\<close> reads back what it wrote. Whether a file can
  be opened at a moment (it may be locked) is the field \<open>can_open\<close>.
\<close>

datatype rdf_node = Link string | Literal jnode

type_synonym rdf_triple = "rdf_node \<times> string \<times> rdf_node"

record event_conf =
  ec_agent :: agent_conf
  tmpDir :: string
  can_open :: "string \<Rightarrow> nat \<Rightarrow> bool"

record event_state =
  ev_agent :: agent
  ev_dirs :: "string list"
  ev_files :: "(string \<times> event list) list"
  ev_attempts :: nat

definition on_agent :: "(agent, 'a) py \<Rightarrow> (event_state, 'a) py" where
  "on_agent m = (\<lambda>s. case m (ev_agent s) of (r, a) \<Rightarrow> (r, s\<lparr>ev_agent := a\<rparr>))"

abbreviation OSError :: pyexc where
  "OSError \<equiv> PyException ''OSError''"

subsection \<open>Names of files\<close>

definition events_file_extension :: string where
  "events_file_extension = ''.events''"

definition valid_filename_char :: "char \<Rightarrow> bool" where
  "valid_filename_char c \<longleftrightarrow> word_char c \<or> c \<in> set '',=-.() ''"

definition StringToFileName :: "string \<Rightarrow> string" where
  "StringToFileName orgFilNam =
     filter valid_filename_char
       (map (\<lambda>c. if c = CHR ''/'' \<or> c = bsl \<or> c = CHR '' '' then CHR ''_'' else c) orgFilNam)"

definition events_directory :: "event_conf \<Rightarrow> string" where
  "events_directory c = tmpDir c @ ''/Events/''"

definition event_text :: "string \<Rightarrow> (string \<times> jlit) list \<Rightarrow> string" where
  "event_text entity_type d =
     entity_type @ (if d = [] then [] else ''.'' @ py_join '','' (map (\<lambda>kv. pair_text (fst kv, jlit_text (snd kv))) d))"

definition event_file_name :: "string \<Rightarrow> (string \<times> jlit) list \<Rightarrow> string" where
  "event_file_name entity_type d =
     (let eventFilNam = event_text entity_type d;
          cut = (if 240 < length eventFilNam then take 240 eventFilNam else eventFilNam)
      in StringToFileName cut @ events_file_extension)"

text \<open>\<^verbatim>\<open>os.mkdir\<close> fails when the directory above does not exist; \<^verbatim>\<open>os.makedirs\<close> creates it.\<close>

definition dirname :: "string \<Rightarrow> string" where
  "dirname p = (let i = py_rfind p ''/'' in if i < 0 then [] else py_upto p i)"

definition os_mkdir :: "string \<Rightarrow> (event_state, unit) py" where
  "os_mkdir p =
     bnd (gets ev_dirs) (\<lambda>dirs.
       if p \<in> set dirs \<or> dirname p \<notin> set dirs then raise OSError
       else modify (\<lambda>s. s\<lparr>ev_dirs := ev_dirs s @ [p]\<rparr>))"

definition ancestors :: "string \<Rightarrow> string list" where
  "ancestors p = (let cs = py_split (CHR ''/'') p in map (\<lambda>n. py_join ''/'' (take n cs)) [1..<Suc (length cs)])"

definition os_makedirs :: "string \<Rightarrow> (event_state, unit) py" where
  "os_makedirs p =
     bnd (gets ev_dirs) (\<lambda>dirs.
       if p \<in> set dirs then raise OSError
       else modify (\<lambda>s. s\<lparr>ev_dirs := ev_dirs s @ filter (\<lambda>q. q \<notin> set (ev_dirs s)) (ancestors p)\<rparr>))"

definition EntityTypeIdsToEventFile ::
    "event_conf \<Rightarrow> string \<Rightarrow> (string \<times> jlit) list \<Rightarrow> (event_state, string) py" where
  "EntityTypeIdsToEventFile c entity_type entity_ids_dict =
     (let dirEntity = events_directory c @ entity_type
      in bnd (gets ev_dirs) (\<lambda>dirs.
         andthen (if dirEntity \<in> set dirs then ret () else os_mkdir dirEntity)
           (ret (event_file_name entity_type (dict_items (ec_agent c) fst entity_ids_dict)))))"

subsection \<open>The values of the keys of an object\<close>

text \<open>
  The class of a moniker. When it is no text, the name of the directory is a TypeError, and the name of
  the module an AttributeError.
\<close>

definition moniker_class :: "pyexc \<Rightarrow> (string \<times> jlit) list \<Rightarrow> string pyres" where
  "moniker_class exc d =
     (case map_of d ''entity_type'' of None \<Rightarrow> Inl KeyError | Some (JText t) \<Rightarrow> Inr t | Some _ \<Rightarrow> Inl exc)"

definition key_value :: "(string \<times> jlit) list \<Rightarrow> ontokey \<Rightarrow> (event_state, ontokey \<times> jlit) py" where
  "key_value d k = of_res (case map_of d (key_name k) of None \<Rightarrow> Inl KeyError | Some v \<Rightarrow> Inr (k, v))"

text \<open>The dictionary of the keys: a key that occurs twice is one entry, and its values are equal.\<close>

fun key_dict :: "(ontokey \<times> jlit) list \<Rightarrow> (ontokey \<times> jlit) list" where
  "key_dict [] = []"
| "key_dict (kv # kvs) = kv # filter (\<lambda>x. key_name (fst x) \<noteq> key_name (fst kv)) (key_dict kvs)"

definition class_keys :: "agent_conf \<Rightarrow> string \<Rightarrow> (agent, ontokey list) py" where
  "class_keys c t = bnd (OntologyClassKeys c t) (\<lambda>r. gets (keys_at r))"

definition moniker_values ::
    "event_conf \<Rightarrow> string \<Rightarrow> (string \<times> jlit) list \<Rightarrow> (event_state, (ontokey \<times> jlit) list) py" where
  "moniker_values c t d =
     bnd (on_agent (class_keys (ec_agent c) t)) (\<lambda>arrOnto.
     bnd (for_each arrOnto (key_value d)) (\<lambda>kvs. ret (key_dict kvs)))"

definition MonikerToEventFile :: "event_conf \<Rightarrow> (string \<times> jlit) list \<Rightarrow> (event_state, string) py" where
  "MonikerToEventFile c jsonMonik =
     bnd (of_res (moniker_class TypeError jsonMonik)) (\<lambda>entity_type.
     let dirEntity = tmpDir c @ ''/Events/'' @ entity_type
     in bnd (gets ev_dirs) (\<lambda>dirs.
        bnd (if dirEntity \<in> set dirs then ret () else os_makedirs dirEntity) (\<lambda>_.
        bnd (moniker_values c entity_type jsonMonik) (\<lambda>kvs.
        bnd (EntityTypeIdsToEventFile c entity_type (map (\<lambda>kv. (key_name (fst kv), snd kv)) kvs)) (\<lambda>eventFilNam.
          ret (dirEntity @ ''/'' @ eventFilNam))))))"

subsection \<open>Storing events\<close>

text \<open>An attempt to open a file.\<close>

definition try_open :: "event_conf \<Rightarrow> string \<Rightarrow> (event_state, bool) py" where
  "try_open c p = (\<lambda>s. (Inr (can_open c p (ev_attempts s)), s\<lparr>ev_attempts := Suc (ev_attempts s)\<rparr>))"

definition file_lines :: "event_state \<Rightarrow> string \<Rightarrow> event list" where
  "file_lines s p = (case map_of (ev_files s) p of None \<Rightarrow> [] | Some l \<Rightarrow> l)"

fun append_loop :: "event_conf \<Rightarrow> string \<Rightarrow> event \<Rightarrow> nat \<Rightarrow> (event_state, unit) py" where
  "append_loop c p e 0 = ret ()"
| "append_loop c p e (Suc maxTry) =
     bnd (try_open c p) (\<lambda>ok.
       if ok then modify (\<lambda>s. s\<lparr>ev_files := AList.update p (file_lines s p @ [e]) (ev_files s)\<rparr>)
       else append_loop c p e maxTry)"

definition AddEventToObject :: "event_conf \<Rightarrow> (string \<times> jlit) list \<Rightarrow> event \<Rightarrow> (event_state, unit) py" where
  "AddEventToObject c theObject jsonData =
     bnd (MonikerToEventFile c theObject) (\<lambda>eventFilNam. append_loop c eventFilNam jsonData 3)"

text \<open>A subject that is no dictionary has no \<open>["entity_type"]\<close>: TypeError.\<close>

definition data_store :: "event_conf \<Rightarrow> event \<Rightarrow> (event_state, unit) py" where
  "data_store c json_data =
     (case ev_subject json_data of
        None \<Rightarrow> raise KeyError
      | Some (JObj valSubject) \<Rightarrow>
          bnd (AddEventToObject c valSubject json_data) (\<lambda>_.
            case ev_object json_data of
              None \<Rightarrow> raise KeyError
            | Some (JObj valObject) \<Rightarrow> AddEventToObject c valObject json_data
            | Some _ \<Rightarrow> ret ())
      | Some _ \<Rightarrow> raise TypeError)"

definition data_store_list :: "event_conf \<Rightarrow> event list \<Rightarrow> (event_state, unit list) py" where
  "data_store_list c json_data_list = for_each json_data_list (\<lambda>e. try_except (data_store c e) (\<lambda>_. ret ()))"

subsection \<open>Reading events\<close>

definition MakeProp :: "string \<Rightarrow> string" where
  "MakeProp prp = py_replace (''http://primhillcomputers.com/ontologies/'' @ prp) '' '' ''_''"

text \<open>The values are printed with \<open>%s\<close>, after their encoding by the key.\<close>

definition UrlJsonToTxt :: "event_conf \<Rightarrow> (string \<times> jlit) list \<Rightarrow> (event_state, string) py" where
  "UrlJsonToTxt c valJson =
     bnd (of_res (moniker_class AttributeError valJson)) (\<lambda>entity_type.
     bnd (moniker_values c entity_type valJson) (\<lambda>kvs.
       on_agent (UriMakeFromDict (ec_agent c) [] entity_type (map (\<lambda>kv. (fst kv, jlit_text (snd kv))) kvs))))"

definition TripleJsonToRdf :: "event_conf \<Rightarrow> event \<Rightarrow> (event_state, rdf_triple) py" where
  "TripleJsonToRdf c jsonTriple =
     (case ev_subject jsonTriple of
        None \<Rightarrow> raise KeyError
      | Some (JObj valSubject) \<Rightarrow>
          bnd (UrlJsonToTxt c valSubject) (\<lambda>txtSubject.
            case ev_object jsonTriple of
              None \<Rightarrow> raise KeyError
            | Some valObject \<Rightarrow>
                bnd (case valObject of
                       JObj d \<Rightarrow> bnd (UrlJsonToTxt c d) (\<lambda>u. ret (Link u))
                     | _ \<Rightarrow> ret (Literal valObject)) (\<lambda>txtObject.
                  case ev_predicate jsonTriple of
                    None \<Rightarrow> raise KeyError
                  | Some p \<Rightarrow> ret (Link txtSubject, MakeProp p, txtObject)))
      | Some _ \<Rightarrow> raise TypeError)"

text \<open>The triples that are yielded before an exception, and whether there was one.\<close>

fun yield_lines :: "event_conf \<Rightarrow> event list \<Rightarrow> (event_state, rdf_triple list \<times> bool) py" where
  "yield_lines c [] = ret ([], False)"
| "yield_lines c (e # es) =
     try_except
       (bnd (TripleJsonToRdf c e) (\<lambda>t. bnd (yield_lines c es) (\<lambda>r. ret (t # fst r, snd r))))
       (\<lambda>_. ret ([], True))"

text \<open>The generator, read to its end. A file that does not exist cannot be opened with mode \<open>r+\<close>.\<close>

fun read_loop :: "event_conf \<Rightarrow> string \<Rightarrow> nat \<Rightarrow> (event_state, rdf_triple list) py" where
  "read_loop c p 0 = ret []"
| "read_loop c p (Suc maxTry) =
     bnd (try_open c p) (\<lambda>ok.
     bnd (gets (\<lambda>s. map_of (ev_files s) p)) (\<lambda>lines.
       if \<not> ok \<or> lines = None then read_loop c p maxTry
       else bnd (yield_lines c (the lines)) (\<lambda>r.
         if snd r then bnd (read_loop c p maxTry) (\<lambda>more. ret (fst r @ more))
         else andthen (modify (\<lambda>s. s\<lparr>ev_files := AList.update p [] (ev_files s)\<rparr>)) (ret (fst r)))))"

definition get_data_from_file :: "event_conf \<Rightarrow> string \<Rightarrow> (event_state, rdf_triple list) py" where
  "get_data_from_file c eventFilNam = read_loop c eventFilNam 3"

text \<open>
  \<^verbatim>\<open>data_retrieve\<close> asks for the length of a generator, which is a TypeError, before it has read anything.
\<close>

definition data_retrieve :: "event_conf \<Rightarrow> string \<Rightarrow> string list \<Rightarrow> (event_state, rdf_triple list) py" where
  "data_retrieve c entity_type entity_ids_arr =
     bnd (on_agent (class_keys (ec_agent c) entity_type)) (\<lambda>arrOnto.
     bnd (EntityTypeIdsToEventFile c entity_type
            (map (\<lambda>kv. (fst kv, JText (snd kv))) (zip_dict (map key_name arrOnto) entity_ids_arr))) (\<lambda>eventFilNam.
       raise TypeError))"

text \<open>
  \<^verbatim>\<open>os.walk\<close> lists the files below the directory of the events, here in the order of their creation. A
  path is taken as it is spelt, except that a component \<^verbatim>\<open>..\<close> leads to a directory that is not listed.
\<close>

definition outside :: "string \<Rightarrow> bool" where
  "outside p \<longleftrightarrow> ''..'' \<in> set (py_split (CHR ''/'') p)"

definition event_paths :: "event_conf \<Rightarrow> event_state \<Rightarrow> string list" where
  "event_paths c s =
     filter (\<lambda>p. startswith p (events_directory c) \<and> endswith p events_file_extension \<and> \<not> outside p)
       (map fst (ev_files s))"

definition data_retrieve_all :: "event_conf \<Rightarrow> (event_state, rdf_triple list) py" where
  "data_retrieve_all c =
     bnd (gets (event_paths c)) (\<lambda>paths.
     bnd (for_each paths (get_data_from_file c)) (\<lambda>ts. ret (concat ts)))"

end
