(* ===== verification/MonikerProps.thy ===== *)
theory MonikerProps
  imports AgentUrl
begin

text \<open>
  What the names of the agent promise, as texts: quoting is undone by unquoting, the class, the host and
  the moniker of an object are read back from its xid, a moniker is split into the keys and values that
  it was built of, and the mode of a URL can be set, replaced and removed.
\<close>

subsection \<open>Quoting\<close>

lemma hex_val_hex_digit [simp]: "n < 16 \<Longrightarrow> hex_val (hex_digit n) = Some n"
  by (auto simp: hex_val_def hex_digit_def digit_val_def Let_def)

lemma unquote_char [simp]: "c \<noteq> CHR ''%'' \<Longrightarrow> urllib_unquote (c # s) = c # urllib_unquote s"
  by (cases "c # s" rule: urllib_unquote.cases) simp_all

lemma unquote_percent [simp]: "urllib_unquote (percent c @ s) = c # urllib_unquote s"
proof -
  have "(of_char c :: nat) < 256" by simp
  then have "(of_char c :: nat) div 16 < 16" using less_mult_imp_div_less [of "of_char c" 16 16] by simp
  then show ?thesis by (simp add: percent_def Let_def)
qed

lemma unquote_quote:
  assumes "CHR ''%'' \<notin> set safe"
  shows "urllib_unquote (urllib_quote s safe) = s"
proof -
  have "c \<noteq> CHR ''%''" if "always_safe c \<or> c \<in> set safe" for c
    using that assms by (auto simp: always_safe_def word_char_def)
  then show ?thesis by (induction s) (auto simp: urllib_quote_def)
qed

lemma unquote_plain [simp]: "CHR ''%'' \<notin> set s \<Longrightarrow> urllib_unquote s = s"
  by (induction s) auto

text \<open>\<^verbatim>\<open>EncodeUri\<close> doubles the backslash before an L, which stays after the decoding.\<close>

lemma unquote_EncodeUri: "urllib_unquote (EncodeUri s) = py_replace s [bsl, CHR ''L''] [bsl, bsl, CHR ''L'']"
  by (auto simp: EncodeUri_def Let_def unquote_quote py_replace_def)

lemma windows_path_changed: "urllib_unquote (EncodeUri (''C:'' @ [bsl] @ ''Lib'')) = ''C:'' @ [bsl, bsl] @ ''Lib''"
  by (simp add: unquote_EncodeUri py_replace_def)

subsection \<open>The xid of an object\<close>

definition class_ok :: "string \<Rightarrow> bool" where
  "class_ok t \<longleftrightarrow> (case t of [] \<Rightarrow> False | c # cs \<Rightarrow> class_start c \<and> list_all class_char cs)"

definition host_ok :: "string \<Rightarrow> bool" where
  "host_ok h \<longleftrightarrow> list_all host_char h"

lemma class_chars: "class_ok t \<Longrightarrow> c \<in> set t \<Longrightarrow> class_char c"
  by (cases t) (auto simp: class_ok_def class_start_def class_char_def list_all_iff)

lemma class_char_not: "class_char c \<Longrightarrow> c \<noteq> CHR ''.'' \<and> c \<noteq> CHR ''@'' \<and> c \<noteq> CHR ''='' \<and> c \<noteq> CHR ''%''"
  by (auto simp: class_char_def word_char_def)

lemma host_char_not: "host_char c \<Longrightarrow> c \<noteq> CHR ''@'' \<and> c \<noteq> CHR ''=''"
  "dash_char c \<Longrightarrow> c \<noteq> CHR ''@'' \<and> c \<noteq> CHR ''=''"
  by (auto simp: host_char_def dash_char_def word_char_def)

lemma bsl_not: "bsl \<noteq> CHR ''@''" "bsl \<noteq> CHR ''=''"
  by simp_all

lemma no_dot: "class_ok t \<Longrightarrow> CHR ''.'' \<notin> set t"
  using class_chars class_char_not by blast

lemma parts_class:
  "parts_ok class_part ps \<Longrightarrow> \<exists>c cs q. ps = [[c], cs, ''.'', q] \<and> class_ok (c # cs)"
  by (auto simp: class_part_def class_ok_def list_all_iff)

lemma parts_host:
  "parts_ok (host_part @ r) ps \<Longrightarrow> \<exists>a b d qs. ps = [a, b, d, ''@''] @ qs \<and> parts_ok r qs \<and>
     CHR ''@'' \<notin> set (a @ b @ d) \<and> CHR ''='' \<notin> set (a @ b @ d)"
  unfolding host_part_def using host_char_not by (auto simp: bsl_not) blast+

lemma class_part_match:
  assumes "class_ok t" "CHR 0x0A \<notin> set q"
  shows "\<exists>c cs. t = c # cs \<and> rmatch class_part (t @ ''.'' @ q) = Some [[c], cs, ''.'', q]"
proof -
  obtain c cs where t: "t = c # cs" using assms(1) by (cases t) (auto simp: class_ok_def)
  have "parts_ok class_part [[c], cs, ''.'', q]"
    using assms by (auto simp: t class_part_def class_ok_def list_all_iff not_newline_def)
  from rmatch_complete [OF this, of "[]"] t obtain ps where ps: "rmatch class_part (t @ ''.'' @ q) = Some ps"
    by auto
  obtain d ds q' where d: "ps = [[d], ds, ''.'', q']" "class_ok (d # ds)"
    using rmatch_sound [OF ps] parts_class by blast
  have "class_part = [One class_start, Star class_char, One (\<lambda>x. x = CHR ''.'')] @ [dot_star]"
    by (simp add: class_part_def lit_def)
  with ps obtain u where u: "t @ ''.'' @ q = concat ps @ u" "u = [] \<or> \<not> not_newline (hd u)"
    using rmatch_last_star by metis
  then have "t @ CHR ''.'' # q = (d # ds) @ CHR ''.'' # (q' @ u)" by (simp add: d(1))
  then have "t = d # ds \<and> q = q' @ u" by (rule first_occurrence) (use assms(1) d(2) no_dot in blast)+
  moreover have "u = []" using u(2) calculation assms(2) by (cases u) (auto simp: not_newline_def)
  ultimately show ?thesis using ps d(1) t by auto
qed

lemma no_host:
  assumes "CHR ''@'' \<notin> set (takeWhile (\<lambda>c. c \<noteq> CHR ''='') s)"
  shows "rmatch (host_part @ r) s = None"
proof (rule ccontr)
  assume "rmatch (host_part @ r) s \<noteq> None"
  then obtain ps where ps: "parts_ok (host_part @ r) ps" "startswith s (concat ps)" using rmatch_sound by blast
  from parts_host [OF ps(1)] obtain a b d qs where q: "ps = [a, b, d, ''@''] @ qs"
    "CHR ''='' \<notin> set (a @ b @ d)" by blast
  from ps(2) obtain t where "s = concat ps @ t" by (auto simp: startswith_iff)
  with q(1) have "s = (a @ b @ d) @ CHR ''@'' # (concat qs @ t)" by simp
  with q(2) obtain h u where h: "s = h @ CHR ''@'' # u" "CHR ''='' \<notin> set h" by blast
  then have "\<forall>c \<in> set (h @ ''@''). c \<noteq> CHR ''=''" by auto
  from takeWhile_append2 [where P = "\<lambda>c. c \<noteq> CHR ''=''", of "h @ ''@''" u] this
  have "takeWhile (\<lambda>c. c \<noteq> CHR ''='') s = (h @ ''@'') @ takeWhile (\<lambda>c. c \<noteq> CHR ''='') u"
    unfolding h(1) by (simp del: takeWhile_append2)
  with assms show False by simp
qed

lemma ParseXidLocal_local:
  assumes "class_ok t" "CHR 0x0A \<notin> set q" "CHR ''@'' \<notin> set (takeWhile (\<lambda>c. c \<noteq> CHR ''='') q)"
  shows "ParseXidLocal (t @ ''.'' @ q) = Some (t, urllib_unquote q, [])"
proof -
  obtain c cs where m: "t = c # cs" "rmatch class_part (t @ ''.'' @ q) = Some [[c], cs, ''.'', q]"
    using class_part_match [OF assms(1,2)] by blast
  have "\<forall>x \<in> set (t @ ''.''). x \<noteq> CHR ''='' \<and> x \<noteq> CHR ''@''"
    using class_chars [OF assms(1)] class_char_not by auto
  then have "CHR ''@'' \<notin> set (takeWhile (\<lambda>c. c \<noteq> CHR ''='') ((t @ ''.'') @ q))"
    using assms(3) by (subst takeWhile_append2) auto
  then have "rmatch (host_part @ class_part) (t @ ''.'' @ q) = None" using no_host by simp
  with m show ?thesis by (simp add: ParseXidLocal_def)
qed

lemma ParseXidLocal_host:
  assumes "class_ok t" "host_ok h" "CHR 0x0A \<notin> set q"
  shows "ParseXidLocal (h @ ''@'' @ t @ ''.'' @ q) = Some (t, urllib_unquote q, h)"
proof -
  obtain c cs where t: "t = c # cs" using assms(1) by (cases t) (auto simp: class_ok_def)
  have "parts_ok (host_part @ class_part) ([[], [], h, ''@''] @ [[c], cs, ''.'', q])"
    using assms by (auto simp: t host_part_def class_part_def class_ok_def host_ok_def list_all_iff not_newline_def)
  from rmatch_complete [OF this, of "[]"] t
  obtain ps where ps: "rmatch (host_part @ class_part) (h @ ''@'' @ t @ ''.'' @ q) = Some ps" by auto
  obtain a b d e es q' where p: "ps = [a, b, d, ''@'', [e], es, ''.'', q']" "class_ok (e # es)"
    "CHR ''@'' \<notin> set (a @ b @ d)"
    using rmatch_sound [OF ps] parts_host parts_class by (metis append_Cons append_Nil)
  have "host_part @ class_part =
      (host_part @ [One class_start, Star class_char, One (\<lambda>x. x = CHR ''.'')]) @ [dot_star]"
    by (simp add: class_part_def lit_def)
  with ps obtain u where u: "h @ ''@'' @ t @ ''.'' @ q = concat ps @ u" "u = [] \<or> \<not> not_newline (hd u)"
    using rmatch_last_star by metis
  then have "h @ CHR ''@'' # (t @ ''.'' @ q) = (a @ b @ d) @ CHR ''@'' # ((e # es) @ ''.'' @ q' @ u)"
    by (simp add: p(1))
  then have 1: "h = a @ b @ d \<and> t @ ''.'' @ q = (e # es) @ ''.'' @ q' @ u"
    by (rule first_occurrence) (use assms(2) p(3) host_char_not in \<open>auto simp: host_ok_def list_all_iff\<close>)
  then have "t @ CHR ''.'' # q = (e # es) @ CHR ''.'' # (q' @ u)" by simp
  then have "t = e # es \<and> q = q' @ u" by (rule first_occurrence) (use assms(1) p(2) no_dot in blast)+
  moreover have "u = []" using u(2) calculation assms(3) by (cases u) (auto simp: not_newline_def)
  ultimately show ?thesis using ps p(1) 1 by (simp add: ParseXidLocal_def butlast_append)
qed

subsection \<open>Monikers\<close>

definition key_ok :: "string \<Rightarrow> bool" where
  "key_ok k \<longleftrightarrow> k \<noteq> [] \<and> list_all word_char k"

definition plain_value :: "string \<Rightarrow> bool" where
  "plain_value v \<longleftrightarrow> set v \<inter> {CHR '','', CHR 0x22, CHR 0x0A} = {}"

definition word_ok :: "string \<Rightarrow> bool" where
  "word_ok p \<longleftrightarrow> p \<noteq> [] \<and> (\<forall>r. (r = [] \<or> hd r = CHR '','') \<longrightarrow> moniker_word (p @ r) = (p, r))"

lemma moniker_word_plain:
  "set p \<inter> {CHR '','', CHR 0x22} = {} \<Longrightarrow> moniker_word (p @ r) = (let (w, t) = moniker_word r in (p @ w, t))"
  by (induction p) (auto simp: moniker_word_Cons split: prod.splits)

lemma moniker_word_sep: "r = [] \<or> hd r = CHR '','' \<Longrightarrow> moniker_word r = ([], r)"
  by (cases r) (auto simp: moniker_word_Cons)

lemma key_chars: "key_ok k \<Longrightarrow> c \<in> set k \<Longrightarrow> word_char c"
  by (auto simp: key_ok_def list_all_iff)

lemma key_char_not: "word_char c \<Longrightarrow> c \<noteq> CHR '','' \<and> c \<noteq> CHR 0x22 \<and> c \<noteq> CHR ''='' \<and> c \<noteq> CHR 0x0A \<and> c \<noteq> CHR ''@'' \<and> c \<noteq> CHR ''%''"
  by (auto simp: word_char_def)

lemma word_ok_plain: "key_ok k \<Longrightarrow> plain_value v \<Longrightarrow> word_ok (pair_text (k, v))"
proof -
  assume k: "key_ok k" and v: "plain_value v"
  have "set (k @ ''='' @ v) \<inter> {CHR '','', CHR 0x22} = {}"
    using key_chars [OF k] v key_char_not by (auto simp: plain_value_def)
  from moniker_word_plain [OF this] show ?thesis
    by (auto simp: word_ok_def pair_text_def moniker_word_sep)
qed

text \<open>A value in quotes may have commas.\<close>

lemma quoted_plain_char:
  "c \<noteq> bsl \<Longrightarrow> c \<noteq> CHR 0x22 \<Longrightarrow> quoted (c # cs) = map_option (\<lambda>pr. (c # fst pr, snd pr)) (quoted cs)"
  by (cases cs) (simp_all add: quoted.simps(2))

lemma quoted_end: "quoted (CHR 0x22 # r) = Some ([CHR 0x22], r)"
  by (cases r) (simp_all add: quoted.simps(2))

lemma quoted_simple:
  "set v \<inter> {bsl, CHR 0x22} = {} \<Longrightarrow> quoted (v @ CHR 0x22 # r) = Some (v @ [CHR 0x22], r)"
  by (induction v) (auto simp: quoted_plain_char quoted_end)

definition quoted_value :: "string \<Rightarrow> string" where
  "quoted_value v = CHR 0x22 # v @ [CHR 0x22]"

lemma word_ok_quoted:
  assumes "key_ok k" "set v \<inter> {bsl, CHR 0x22} = {}"
  shows "word_ok (pair_text (k, quoted_value v))"
proof -
  have "set (k @ ''='') \<inter> {CHR '','', CHR 0x22} = {}"
    using key_chars [OF assms(1)] key_char_not by auto
  note 1 = moniker_word_plain [OF this]
  have "moniker_word (CHR 0x22 # v @ CHR 0x22 # r) = (CHR 0x22 # v @ [CHR 0x22], r)"
    if "r = [] \<or> hd r = CHR '',''" for r
    using moniker_word_sep [OF that] by (simp add: moniker_word_Cons quoted_simple [OF assms(2)])
  then show ?thesis using 1 [of "CHR 0x22 # v @ CHR 0x22 # _"]
    by (auto simp: word_ok_def pair_text_def quoted_value_def)
qed

lemma moniker_words_ok: "word_ok p \<Longrightarrow> moniker_words p = [p]"
  "word_ok p \<Longrightarrow> moniker_words (p @ CHR '','' # s) = p # moniker_words s"
proof -
  assume p: "word_ok p"
  then obtain c cs where c: "p = c # cs" by (cases p) (auto simp: word_ok_def)
  have "moniker_word p = (p, [])" using p by (auto simp: word_ok_def dest: spec [where x = "[]"])
  then show "moniker_words p = [p]"
    using c by (subst moniker_words.simps) (simp add: moniker_words.simps [of "[]"])
  have "moniker_word (p @ CHR '','' # s) = (p, CHR '','' # s)"
    using p by (auto simp: word_ok_def)
  moreover have "moniker_words (CHR '','' # s) = moniker_words s"
    by (subst moniker_words.simps) (simp add: moniker_word_Cons)
  ultimately show "moniker_words (p @ CHR '','' # s) = p # moniker_words s"
    using c by (subst moniker_words.simps) simp
qed

lemma moniker_words_join: "list_all word_ok ps \<Longrightarrow> moniker_words (py_join '','' ps) = ps"
proof (induction ps)
  case Nil
  show ?case by (simp add: moniker_words.simps)
next
  case (Cons p ps)
  then show ?case by (cases ps) (auto simp: py_join_Cons moniker_words_ok)
qed

lemma split_word_plain:
  assumes "key_ok k" "plain_value v"
  shows "split_word d (pair_text (k, v)) = AList.update k v d"
proof -
  obtain c cs where k: "k = c # cs" using assms(1) by (cases k) (auto simp: key_ok_def)
  have "CHR 0x22 \<notin> set (k @ ''='' @ v)"
    using key_chars [OF assms(1)] assms(2) key_char_not by (auto simp: plain_value_def)
  moreover have "CHR 0x22 \<in> set (concat qs)" if "parts_ok quoted_pair qs" for qs
    using that by (auto simp: quoted_pair_def)
  ultimately have 1: "rmatch quoted_pair (k @ ''='' @ v) = None"
    using re_match_iff [of quoted_pair "k @ ''='' @ v"] unfolding re_match_def by (metis UnCI set_append)
  have "parts_ok plain_pair [[c], cs, ''='', v]"
    using assms by (auto simp: k plain_pair_def key_ok_def list_all_iff plain_value_def not_newline_def)
  from rmatch_complete [OF this, of "[]"] k obtain ps where ps: "rmatch plain_pair (k @ ''='' @ v) = Some ps"
    by auto
  from rmatch_sound [OF ps] obtain e es v' where e: "ps = [[e], es, ''='', v']" "list_all word_char (e # es)"
    by (auto simp: plain_pair_def list_all_iff)
  have "plain_pair = [One word_char, Star word_char, One (\<lambda>x. x = CHR ''='')] @ [dot_star]"
    by (simp add: plain_pair_def lit_def)
  with ps obtain u where u: "k @ ''='' @ v = concat ps @ u" "u = [] \<or> \<not> not_newline (hd u)"
    using rmatch_last_star by metis
  then have "k @ CHR ''='' # v = (e # es) @ CHR ''='' # (v' @ u)" by (simp add: e(1))
  then have "k = e # es \<and> v = v' @ u"
    by (rule first_occurrence)
      (use key_chars [OF assms(1)] e(2) key_char_not in \<open>auto simp: list_all_iff\<close>)
  moreover have "u = []" using u(2) calculation assms(2) by (cases u) (auto simp: not_newline_def plain_value_def)
  ultimately show ?thesis using 1 ps e(1) by (simp add: split_word_def pair_text_def)
qed

lemma sole_last: "v @ [c] = v' @ c # t \<Longrightarrow> c \<notin> set v \<Longrightarrow> v' = v \<and> t = []"
proof (induction v arbitrary: v')
  case Nil
  then show ?case by (cases v') auto
next
  case (Cons x v)
  then show ?case by (cases v') auto
qed

lemma split_word_quoted:
  assumes "key_ok k" "set v \<inter> {CHR 0x22, CHR 0x0A} = {}"
  shows "split_word d (pair_text (k, quoted_value v)) = AList.update k v d"
proof -
  obtain c cs where k: "k = c # cs" using assms(1) by (cases k) (auto simp: key_ok_def)
  let ?w = "k @ ''='' @ CHR 0x22 # v @ [CHR 0x22]"
  have "parts_ok quoted_pair [[c], cs, ''='', [CHR 0x22], v, [CHR 0x22]]"
    using assms by (auto simp: k quoted_pair_def key_ok_def list_all_iff not_newline_def lit_def)
  from rmatch_complete [OF this, of "[]"] k obtain ps where ps: "rmatch quoted_pair ?w = Some ps" by auto
  from rmatch_sound [OF ps] obtain e es v' t where e: "ps = [[e], es, ''='', [CHR 0x22], v', [CHR 0x22]]"
    "list_all word_char (e # es)" "?w = concat ps @ t"
    by (auto simp: quoted_pair_def list_all_iff lit_def startswith_iff)
  then have "k @ CHR ''='' # (CHR 0x22 # v @ [CHR 0x22]) = (e # es) @ CHR ''='' # (CHR 0x22 # v' @ CHR 0x22 # t)"
    by simp
  then have 1: "k = e # es \<and> CHR 0x22 # v @ [CHR 0x22] = CHR 0x22 # v' @ CHR 0x22 # t"
    by (rule first_occurrence)
      (use key_chars [OF assms(1)] e(2) key_char_not in \<open>auto simp: list_all_iff\<close>)
  with sole_last [of v "CHR 0x22" v' t] assms(2) have "v' = v" by auto
  with 1 ps e(1) show ?thesis by (simp add: split_word_def pair_text_def quoted_value_def)
qed

text \<open>An entry is written as \<open>k=t\<close> and read as the value \<open>v\<close> of \<open>k\<close>.\<close>

definition entry_ok :: "string \<times> string \<times> string \<Rightarrow> bool" where
  "entry_ok e \<longleftrightarrow> (case e of (k, t, v) \<Rightarrow>
     word_ok (pair_text (k, t)) \<and> (\<forall>d. split_word d (pair_text (k, t)) = AList.update k v d))"

lemma entry_plain: "key_ok k \<Longrightarrow> plain_value v \<Longrightarrow> entry_ok (k, v, v)"
  by (simp add: entry_ok_def word_ok_plain split_word_plain)

lemma entry_quoted:
  "key_ok k \<Longrightarrow> set v \<inter> {bsl, CHR 0x22, CHR 0x0A} = {} \<Longrightarrow> entry_ok (k, quoted_value v, v)"
  using word_ok_quoted [of k v] split_word_quoted [of k v] by (auto simp: entry_ok_def)

lemma foldl_entries:
  "list_all entry_ok es \<Longrightarrow> distinct (map fst d @ map fst es) \<Longrightarrow>
   foldl split_word d (map (\<lambda>(k, t, v). pair_text (k, t)) es) = d @ map (\<lambda>(k, t, v). (k, v)) es"
proof (induction es arbitrary: d)
  case (Cons e es)
  obtain k t v where e: "e = (k, t, v)" by (cases e) auto
  have "map_of d k = None" using Cons.prems(2) by (auto simp: e map_of_eq_None_iff)
  then have "split_word d (pair_text (k, t)) = d @ [(k, v)]"
    using Cons.prems(1) by (auto simp: e entry_ok_def keys_update_fresh)
  with Cons.IH [of "d @ [(k, v)]"] Cons.prems show ?case by (auto simp: e)
qed simp

lemma SplitMoniker_entries:
  assumes "list_all entry_ok es" "distinct (map fst es)"
  shows "SplitMoniker (py_join '','' (map (\<lambda>(k, t, v). pair_text (k, t)) es)) = map (\<lambda>(k, t, v). (k, v)) es"
proof -
  have "list_all word_ok (map (\<lambda>(k, t, v). pair_text (k, t)) es)"
    using assms(1) by (auto simp: list_all_iff entry_ok_def)
  with foldl_entries [OF assms(1), of "[]"] assms(2) show ?thesis
    by (simp add: SplitMoniker_def moniker_words_join)
qed

lemma SplitMoniker_plain:
  assumes "distinct (map fst d)" "\<forall>(k, v) \<in> set d. key_ok k \<and> plain_value v"
  shows "SplitMoniker (BuildMonikerPath d) = d"
proof -
  have "list_all entry_ok (map (\<lambda>(k, v). (k, v, v)) d)"
    using assms(2) by (auto simp: list_all_iff entry_plain)
  from SplitMoniker_entries [OF this] assms(1) show ?thesis
    by (simp add: BuildMonikerPath_def comp_def case_prod_unfold)
qed

end
