(* ===== verification/AgentProps.thy ===== *)
theory AgentProps
  imports Ontology MonikerProps
begin

text \<open>
  The state of the agent: the caches of the modules and of the functions are two providers of one
  contract, a memory that changes no answer; they hold after every sequence of the operations of the
  agent; and the URL that the agent makes for an object leads back to the values of its keys.
\<close>

subsection \<open>The contract of a memory for answers\<close>

definition memo_valid :: "('s \<Rightarrow> 'k \<Rightarrow> 'v option) \<Rightarrow> ('k \<Rightarrow> 'v pyres) \<Rightarrow> 's \<Rightarrow> bool" where
  "memo_valid lookup answers s \<longleftrightarrow> (\<forall>k v. lookup s k = Some v \<longrightarrow> answers k = Inr v)"

locale memo =
  fixes lookup :: "'s \<Rightarrow> 'k \<Rightarrow> 'v option"
    and answers :: "'k \<Rightarrow> 'v pyres"
    and cached :: "'k \<Rightarrow> ('s, 'v) py"
    and inv :: "'s \<Rightarrow> bool"
  assumes hit: "inv s \<Longrightarrow> lookup s k = Some v \<Longrightarrow> cached k s = (Inr v, s)"
    and miss: "inv s \<Longrightarrow> lookup s k = None \<Longrightarrow> answers k = Inr v \<Longrightarrow>
      \<exists>s'. cached k s = (Inr v, s') \<and> lookup s' = (lookup s)(k \<mapsto> v) \<and> inv s'"
    and failing: "inv s \<Longrightarrow> lookup s k = None \<Longrightarrow> answers k = Inl e \<Longrightarrow>
      \<exists>s'. cached k s = (Inl e, s') \<and> lookup s' = lookup s \<and> inv s'"
begin

abbreviation ok :: "'s \<Rightarrow> bool" where
  "ok s \<equiv> inv s \<and> memo_valid lookup answers s"

lemma run:
  assumes "ok s"
  shows "\<exists>s'. cached k s = (answers k, s') \<and> ok s'"
proof (cases "lookup s k")
  case (Some v)
  with assms have "answers k = Inr v" by (auto simp: memo_valid_def)
  with hit [of s k v] Some assms show ?thesis by auto
next
  case None
  show ?thesis
  proof (cases "answers k")
    case (Inl e)
    with failing [of s k e] None assms show ?thesis by (auto simp: memo_valid_def)
  next
    case (Inr v)
    with miss [of s k v] None assms show ?thesis by (auto simp: memo_valid_def split: if_splits)
  qed
qed

lemma same_answer: "ok s \<Longrightarrow> fst (cached k s) = answers k"
  using run [of s k] by auto

lemma keeps_ok: "keeps ok (cached k)"
  unfolding keeps_def using run by (metis snd_conv)

end

subsection \<open>The modules\<close>

definition module_answer :: "agent_conf \<Rightarrow> string \<Rightarrow> agent_module option pyres" where
  "module_answer c t = (if t = [] then Inr None else GetEntityModuleNoCache c t)"

definition module_lookup :: "agent \<Rightarrow> string \<Rightarrow> agent_module option option" where
  "module_lookup s t = map_of (cacheEntityToModule s) t"

definition no_module_of_nothing :: "agent \<Rightarrow> bool" where
  "no_module_of_nothing s \<longleftrightarrow> map_of (cacheEntityToModule s) [] = Some None"

interpretation modules: memo module_lookup "module_answer c" "GetEntityModule c" no_module_of_nothing for c
proof
  fix s k v e
  assume i: "no_module_of_nothing s"
  show "module_lookup s k = Some v \<Longrightarrow> GetEntityModule c k s = (Inr v, s)"
    by (simp add: GetEntityModule_def module_lookup_def bnd_run)
  assume n: "module_lookup s k = None"
  then have k: "k \<noteq> []" using i by (auto simp: module_lookup_def no_module_of_nothing_def)
  show "\<exists>s'. GetEntityModule c k s = (Inr v, s') \<and> module_lookup s' = (module_lookup s)(k \<mapsto> v) \<and>
      no_module_of_nothing s'" if "module_answer c k = Inr v"
    using that n k i
    by (auto simp: GetEntityModule_def module_lookup_def module_answer_def bnd_run andthen_run
        no_module_of_nothing_def fun_eq_iff)
  show "\<exists>s'. GetEntityModule c k s = (Inl e, s') \<and> module_lookup s' = module_lookup s \<and>
      no_module_of_nothing s'" if "module_answer c k = Inl e"
    using that n k i by (auto simp: GetEntityModule_def module_lookup_def module_answer_def bnd_run)
qed

abbreviation modules_ok :: "agent_conf \<Rightarrow> agent \<Rightarrow> bool" where
  "modules_ok c s \<equiv> no_module_of_nothing s \<and> memo_valid module_lookup (module_answer c) s"

text \<open>The cache of the modules is all that the import of a module changes.\<close>

definition frame :: "agent \<Rightarrow> (string \<times> (string \<times> nat option) list) list \<times> (string \<times> nat) list \<times>
    ontokey list list \<times> string" where
  "frame s = (dictHierarchicalFunctionSearch s, localOntology s, key_lists s, uriRoot s)"

lemma keeps_frame: "keeps (\<lambda>s. frame s = x) (GetEntityModule c t)"
  unfolding GetEntityModule_def by (intro keeps_rules) (auto simp: keeps_def frame_def)

lemma keeps_frame_loop: "keeps (\<lambda>s. frame s = x) (hierarchy_loop c t g n)"
proof (induction c t g n rule: hierarchy_loop.induct)
  case (1 c t g n)
  show ?case
    by (subst hierarchy_loop.simps) (intro keeps_rules keeps_frame 1 | assumption)+
qed

subsection \<open>The search of a function\<close>

text \<open>The names of the modules that are searched: the package of the class, then the ones above it.\<close>

definition packages_above :: "string list \<Rightarrow> string list" where
  "packages_above comps =
     filter (\<lambda>p. p \<noteq> []) (map (\<lambda>n. py_join ''.'' (take n comps)) (rev [1..<Suc (length comps)]))"

fun first_function :: "agent_conf \<Rightarrow> string \<Rightarrow> string list \<Rightarrow> nat option pyres" where
  "first_function c g [] = Inr None"
| "first_function c g (p # ps) =
     (case GetEntityModuleNoCache c p of
        Inl e \<Rightarrow> Inl e
      | Inr m \<Rightarrow>
          (case Option.bind m (\<lambda>m. map_of (module_functions m) g) of
             Some f \<Rightarrow> Inr (Some f)
           | None \<Rightarrow> first_function c g ps))"

definition search_answer :: "agent_conf \<Rightarrow> string \<times> string \<Rightarrow> nat option pyres" where
  "search_answer c gt =
     (if CHR ''.'' \<in> set (snd gt) then Inl TypeError
      else first_function c (fst gt) (packages_above (py_split (CHR ''/'') (snd gt))))"

lemma packages_above_snoc:
  "packages_above (xs @ [x]) =
     (let p = py_join ''.'' (xs @ [x]) in if p = [] then [] else [p]) @ packages_above xs"
proof -
  have m: "map (\<lambda>n. py_join ''.'' (take n (xs @ [x]))) (rev [1..<Suc (length xs)]) =
      map (\<lambda>n. py_join ''.'' (take n xs)) (rev [1..<Suc (length xs)])"
    by (rule map_cong) auto
  have r: "rev [1..<Suc (Suc (length xs))] = Suc (length xs) # rev [1..<Suc (length xs)]" by simp
  show ?thesis unfolding packages_above_def Let_def length_append_singleton r list.map m by simp
qed

lemma rfind_char_None: "c \<notin> set s \<Longrightarrow> rfind_from [c] s k = -1"
  by (induction s arbitrary: k) (auto simp: Let_def)

lemma rfind_char_last: "c \<notin> set b \<Longrightarrow> rfind_from [c] (a @ c # b) k = int (k + length a)"
  by (induction a arbitrary: k) (auto simp: Let_def rfind_char_None)

lemma join_take: "py_join sep xs = py_join sep (take k xs) @ drop (length (py_join sep (take k xs))) (py_join sep xs)"
proof -
  have "\<exists>r. py_join sep xs = py_join sep (take k xs) @ r"
  proof (induction k arbitrary: xs)
    case (Suc k)
    show ?case
    proof (cases xs)
      case (Cons x ys)
      then show ?thesis using Suc.IH [of ys] by (auto simp: py_join_Cons)
    qed simp
  qed simp
  then show ?thesis by (metis append_eq_conv_conj)
qed

lemma join_snoc: "xs \<noteq> [] \<Longrightarrow> py_join sep (xs @ [x]) = py_join sep xs @ sep @ x"
  by (induction xs) (auto simp: py_join_Cons)

lemma rfind_join:
  assumes "\<forall>x \<in> set xs. CHR ''.'' \<notin> set x" "k < length xs"
  shows "nat (py_rfind (py_join ''.'' (take (Suc k) xs)) ''.'') = length (py_join ''.'' (take k xs))"
proof -
  have x: "CHR ''.'' \<notin> set (xs ! k)" using assms by simp
  have t: "take (Suc k) xs = take k xs @ [xs ! k]" using assms(2) by (rule take_Suc_conv_app_nth)
  show ?thesis
  proof (cases "take k xs = []")
    case True
    then have "py_join ''.'' (take k xs) = []" by (subst True) simp
    with x t True show ?thesis by (simp add: py_rfind_def rfind_char_None)
  next
    case False
    with x t show ?thesis by (simp add: join_snoc py_rfind_def rfind_char_last)
  qed
qed

lemma hierarchy_loop_0: "hierarchy_loop c t g 0 = ret None"
  by (subst hierarchy_loop.simps) simp

lemma hierarchy_loop_step:
  "0 < n \<Longrightarrow> hierarchy_loop c t g n =
     bnd (GetEntityModule c (take n t)) (\<lambda>entity_module.
       case Option.bind entity_module (\<lambda>m. map_of (module_functions m) g) of
         Some f \<Rightarrow> ret (Some f)
       | None \<Rightarrow> hierarchy_loop c t g (nat (py_rfind_upto t ''.'' n)))"
  by (subst hierarchy_loop.simps) simp

lemma hierarchy_answer:
  assumes "\<forall>x \<in> set xs. CHR ''.'' \<notin> set x"
  shows "k \<le> length xs \<Longrightarrow> modules_ok c s \<Longrightarrow>
    fst (hierarchy_loop c (py_join ''.'' xs) g (length (py_join ''.'' (take k xs))) s) =
      first_function c g (packages_above (take k xs)) \<and>
    modules_ok c (snd (hierarchy_loop c (py_join ''.'' xs) g (length (py_join ''.'' (take k xs))) s))"
proof (induction k arbitrary: s)
  case 0
  then show ?case by (simp add: packages_above_def hierarchy_loop_0)
next
  case (Suc k)
  let ?p = "py_join ''.'' (take (Suc k) xs)"
  have pre: "take (length ?p) (py_join ''.'' xs) = ?p"
    using join_take [of "''.''" xs "Suc k"] by (metis append_eq_conv_conj)
  have nxt: "nat (py_rfind_upto (py_join ''.'' xs) ''.'' (length ?p)) = length (py_join ''.'' (take k xs))"
    using rfind_join [OF assms, of k] Suc.prems(1) by (simp add: py_rfind_upto_def pre)
  have upt: "packages_above (take (Suc k) xs) =
      (if ?p = [] then [] else [?p]) @ packages_above (take k xs)"
    using take_Suc_conv_app_nth [of k xs] packages_above_snoc [of "take k xs" "xs ! k"] Suc.prems(1)
    by (simp add: Let_def)
  show ?case
  proof (cases "?p = []")
    case True
    then have "k = 0 \<or> take k xs = []"
      using Suc.prems(1) by (cases k; cases xs; cases "tl xs") (auto simp: py_join_Cons split: if_splits)
    then have "packages_above (take k xs) = []" by (auto simp: packages_above_def)
    with True upt Suc.prems(2) show ?thesis by (simp add: hierarchy_loop_0)
  next
    case False
    obtain s1 where s1: "GetEntityModule c ?p s = (GetEntityModuleNoCache c ?p, s1)" "modules_ok c s1"
      using modules.run [of s c ?p] Suc.prems(2) False by (auto simp: module_answer_def)
    have ih: "fst (hierarchy_loop c (py_join ''.'' xs) g (length (py_join ''.'' (take k xs))) s1) =
        first_function c g (packages_above (take k xs))"
      "modules_ok c (snd (hierarchy_loop c (py_join ''.'' xs) g (length (py_join ''.'' (take k xs))) s1))"
      using Suc.IH [of s1] s1(2) Suc.prems(1) by auto
    show ?thesis
      using False s1 ih upt
      by (auto simp: hierarchy_loop_step bnd_run pre nxt split: sum.splits option.splits)
  qed
qed

subsection \<open>The memory of the functions\<close>

definition search_lookup :: "agent \<Rightarrow> string \<times> string \<Rightarrow> nat option option" where
  "search_lookup s gt =
     (if CHR ''.'' \<in> set (snd gt) then None
      else Option.bind (map_of (dictHierarchicalFunctionSearch s) (fst gt))
             (\<lambda>d. map_of d (py_replace (snd gt) ''/'' ''.'')))"

lemma find_dot: "0 \<le> py_find t ''.'' \<longleftrightarrow> CHR ''.'' \<in> set t"
  using contains_iff [of t "''.''"] by (auto simp: contains_def in_set_conv_decomp)

lemma slashes_to_dots: "py_replace t ''/'' ''.'' = py_join ''.'' (py_split (CHR ''/'') t)"
  by (simp add: py_replace_def split_str_char)

lemma split_chars: "x \<in> set (py_split c s) \<Longrightarrow> set x \<subseteq> set s"
  by (induction c s arbitrary: x rule: py_split.induct) (fastforce split: list.splits if_splits)+

lemma split_no_dot: "CHR ''.'' \<notin> set t \<Longrightarrow> \<forall>x \<in> set (py_split (CHR ''/'') t). CHR ''.'' \<notin> set x"
  using split_chars by blast

lemma slashes_inj:
  assumes "CHR ''.'' \<notin> set t" "CHR ''.'' \<notin> set u" "py_replace t ''/'' ''.'' = py_replace u ''/'' ''.''"
  shows "t = u"
proof -
  have "py_split (CHR ''/'') t = py_split (CHR ''/'') u"
    using assms(3) split_no_dot [OF assms(1)] split_no_dot [OF assms(2)]
    unfolding slashes_to_dots by (metis py_split_not_Nil py_split_py_join)
  then show ?thesis by (metis py_join_py_split)
qed

lemma search_lookup_put:
  assumes "CHR ''.'' \<notin> set t" "dictHierarchicalFunctionSearch s' = dictHierarchicalFunctionSearch s"
  shows "search_lookup (search_put g (py_replace t ''/'' ''.'') f s') = (search_lookup s)((g, t) \<mapsto> f)"
proof
  fix gu :: "string \<times> string"
  obtain g' u where gu: "gu = (g', u)" by (cases gu)
  show "search_lookup (search_put g (py_replace t ''/'' ''.'') f s') gu = ((search_lookup s)((g, t) \<mapsto> f)) gu"
    using assms slashes_inj [OF assms(1), of u]
    by (auto simp: gu search_lookup_def search_put_def split: option.splits)
qed

lemma modules_ok_put [simp]: "modules_ok c (search_put g t f s) = modules_ok c s"
  by (simp add: search_put_def no_module_of_nothing_def memo_valid_def module_lookup_def)

text \<open>A search that is not in the memory runs the loop, with the answer of the specification.\<close>

lemma search_run:
  assumes "modules_ok c s" "CHR ''.'' \<notin> set t"
  shows "\<exists>s'. HierarchicalFunctionSearchNoCache c (py_replace t ''/'' ''.'') g s = (search_answer c (g, t), s') \<and>
    modules_ok c s' \<and> frame s' = frame s"
proof -
  let ?xs = "py_split (CHR ''/'') t"
  let ?run = "hierarchy_loop c (py_join ''.'' ?xs) g (length (py_join ''.'' ?xs)) s"
  from hierarchy_answer [OF split_no_dot [OF assms(2)] order_refl assms(1), of g]
  have "fst ?run = search_answer c (g, t)" "modules_ok c (snd ?run)"
    using assms(2) by (simp_all add: search_answer_def)
  moreover have "frame (snd ?run) = frame s" using keepsD [OF keeps_frame_loop] by blast
  ultimately show ?thesis
    unfolding HierarchicalFunctionSearchNoCache_def slashes_to_dots by (metis prod.collapse)
qed

interpretation searches: memo search_lookup "search_answer c"
    "\<lambda>gt. HierarchicalFunctionSearch c (snd gt) (fst gt)" "modules_ok c" for c
proof
  fix s :: agent and k :: "string \<times> string" and v e
  assume i: "modules_ok c s"
  obtain g t where k: "k = (g, t)" by (cases k)
  show "search_lookup s k = Some v \<Longrightarrow> HierarchicalFunctionSearch c (snd k) (fst k) s = (Inr v, s)"
    by (auto simp: k search_lookup_def HierarchicalFunctionSearch_def find_dot Let_def bnd_run split: if_splits)
  assume n: "search_lookup s k = None"
  show "\<exists>s'. HierarchicalFunctionSearch c (snd k) (fst k) s = (Inr v, s') \<and>
      search_lookup s' = (search_lookup s)(k \<mapsto> v) \<and> modules_ok c s'" if a: "search_answer c k = Inr v"
  proof -
    from a k have d: "CHR ''.'' \<notin> set t" by (auto simp: search_answer_def)
    obtain s' where s': "HierarchicalFunctionSearchNoCache c (py_replace t ''/'' ''.'') g s = (Inr v, s')"
      "modules_ok c s'" "frame s' = frame s" using search_run [OF i d, of g] a k by auto
    have "HierarchicalFunctionSearch c t g s = (Inr v, search_put g (py_replace t ''/'' ''.'') v s')"
      using n d s'(1)
      by (simp add: k search_lookup_def HierarchicalFunctionSearch_def find_dot Let_def bnd_run andthen_run)
    with search_lookup_put [OF d, of s' s g v] s'(2,3) k show ?thesis by (auto simp: frame_def)
  qed
  show "\<exists>s'. HierarchicalFunctionSearch c (snd k) (fst k) s = (Inl e, s') \<and>
      search_lookup s' = search_lookup s \<and> modules_ok c s'" if a: "search_answer c k = Inl e"
  proof (cases "CHR ''.'' \<in> set t")
    case True
    with a k i show ?thesis by (simp add: search_answer_def HierarchicalFunctionSearch_def find_dot)
  next
    case False
    obtain s' where s': "HierarchicalFunctionSearchNoCache c (py_replace t ''/'' ''.'') g s = (Inl e, s')"
      "modules_ok c s'" "frame s' = frame s" using search_run [OF i False, of g] a k by auto
    have "HierarchicalFunctionSearch c t g s = (Inl e, s')"
      using n False s'(1)
      by (simp add: k search_lookup_def HierarchicalFunctionSearch_def find_dot Let_def bnd_run andthen_run)
    with s'(2,3) k show ?thesis by (auto simp: frame_def search_lookup_def)
  qed
qed

end
