(* ===== verification/ModeProps.thy ===== *)
theory ModeProps
  imports AgentUrl
begin

text \<open>
  The display mode of a URL: \<^verbatim>\<open>AnyUriModed\<close> sets it, replaces it and removes it, and
  \<^verbatim>\<open>GetModeFromUrl\<close> reads it back.
\<close>

abbreviation one_line :: "string \<Rightarrow> bool" where
  "one_line s \<equiv> CHR 0x0A \<notin> set s"

abbreviation no_amp :: "char \<Rightarrow> bool" where
  "no_amp c \<equiv> c \<noteq> CHR ''&''"

lemma rmatch_lit: "rmatch (lit p @ r) (p @ s) = map_option (\<lambda>ps. map (\<lambda>c. [c]) p @ ps) (rmatch r s)"
proof (induction p)
  case Nil
  show ?case by (cases "rmatch r s") (simp_all add: lit_def)
next
  case (Cons c p)
  then show ?case by (cases "rmatch r s") (simp_all add: lit_def)
qed

lemma mode_part_match:
  assumes "cgi_sep d" "one_line w"
  shows "rmatch mode_part (d # ''mode='' @ w) =
    Some ([[d], ''m'', ''o'', ''d'', ''e'', ''=''] @ [takeWhile no_amp w, dropWhile no_amp w])"
proof -
  have "one_line (dropWhile no_amp w)" using assms(2) set_dropWhileD by metis
  then have "rmatch [dot_star] (dropWhile no_amp w) = Some [dropWhile no_amp w]"
    unfolding rmatch_star_all by (auto simp: not_newline_def takeWhile_eq_all_conv)
  moreover have "dropWhile no_amp w = [] \<or> \<not> no_amp (hd (dropWhile no_amp w))"
    using hd_dropWhile by blast
  ultimately have "rmatch [Star no_amp, dot_star] (takeWhile no_amp w @ dropWhile no_amp w) =
      Some [takeWhile no_amp w, dropWhile no_amp w]"
    by (intro rmatch_star_stop) (auto dest: set_takeWhileD)
  then have "rmatch (lit ''mode='' @ [Star no_amp, dot_star]) (''mode='' @ w) =
      Some ([''m'', ''o'', ''d'', ''e'', ''=''] @ [takeWhile no_amp w, dropWhile no_amp w])"
    unfolding rmatch_lit by simp
  with assms(1) show ?thesis by (simp add: mode_part_def)
qed

lemma mode_part_some: "rmatch mode_part y \<noteq> None \<Longrightarrow> \<exists>d w. y = d # ''mode='' @ w \<and> cgi_sep d"
proof -
  assume "rmatch mode_part y \<noteq> None"
  then obtain ps t where ps: "parts_ok mode_part ps" "y = concat ps @ t"
    using rmatch_sound by (metis not_None_eq startswith_iff)
  then obtain d w where "concat ps = d # ''mode='' @ w" "cgi_sep d" by (auto simp: mode_part_def)
  with ps(2) show ?thesis by auto
qed

text \<open>No mode starts anywhere in the text.\<close>

fun mode_free :: "string \<Rightarrow> bool" where
  "mode_free [] = True"
| "mode_free (c # s) \<longleftrightarrow> rmatch mode_part (c # s) = None \<and> mode_free s"

lemma mode_free_suffix: "mode_free s \<longleftrightarrow> (\<forall>a b. s = a @ b \<longrightarrow> rmatch mode_part b = None)"
proof (induction s)
  case Nil
  show ?case by (simp add: mode_part_def)
next
  case (Cons c s)
  show ?case unfolding mode_free.simps Cons.IH Cons_eq_append_conv by auto
qed

lemma mode_free_append: "\<forall>c \<in> set p. \<not> cgi_sep c \<Longrightarrow> mode_free s \<Longrightarrow> mode_free (p @ s)"
  by (induction p) (use mode_part_some in fastforce)+

definition mode_ok :: "string \<Rightarrow> bool" where
  "mode_ok m \<longleftrightarrow> m \<noteq> [] \<and> set m \<inter> {CHR ''?'', CHR ''&'', CHR 0x0A} = {}"

text \<open>What follows a mode: nothing, or an ampersand and other arguments, without a mode.\<close>

definition tail_ok :: "string \<Rightarrow> bool" where
  "tail_ok g \<longleftrightarrow> (g = [] \<or> hd g = CHR ''&'') \<and> one_line g \<and> mode_free g"

lemma url_match:
  assumes "one_line a" "cgi_sep d" "one_line w" "mode_free (''mode='' @ w)"
  shows "rmatch (dot_star # mode_part) (a @ d # ''mode='' @ w) =
    Some (a # [[d], ''m'', ''o'', ''d'', ''e'', ''=''] @ [takeWhile no_amp w, dropWhile no_amp w])"
proof -
  have "rmatch mode_part y = None" if y: "d # ''mode='' @ w = x @ y" "x \<noteq> []" for x y
  proof -
    from y obtain x' where "''mode='' @ w = x' @ y" by (cases x) auto
    with assms(4) show ?thesis unfolding mode_free_suffix by blast
  qed
  moreover have "\<forall>c \<in> set a. not_newline c" using assms(1) by (auto simp: not_newline_def)
  ultimately show ?thesis by (rule rmatch_star_greedy [OF mode_part_match [OF assms(2,3)]])
qed

lemma takeWhile_mode: "mode_ok m \<Longrightarrow> tail_ok g \<Longrightarrow>
    takeWhile no_amp (m @ g) = m \<and> dropWhile no_amp (m @ g) = g"
  by (cases g) (auto simp: mode_ok_def tail_ok_def takeWhile_append dropWhile_append
      takeWhile_eq_all_conv split: if_splits)

lemma mode_url_match:
  assumes "one_line a" "cgi_sep d" "mode_ok m" "tail_ok g"
  shows "rmatch (dot_star # mode_part) (a @ d # ''mode='' @ m @ g) =
    Some (a # [[d], ''m'', ''o'', ''d'', ''e'', ''=''] @ [m, g])"
proof -
  have "\<forall>c \<in> set (''mode='' @ m). \<not> cgi_sep c" using assms(3) by (auto simp: mode_ok_def cgi_sep_def)
  then have "mode_free (''mode='' @ m @ g)"
    using mode_free_append [of "''mode='' @ m" g] assms(4) by (simp add: tail_ok_def)
  moreover have "one_line (m @ g)" using assms(3,4) by (auto simp: mode_ok_def tail_ok_def)
  ultimately show ?thesis
    using url_match [OF assms(1,2)] takeWhile_mode [OF assms(3,4)] by simp
qed

lemma url_match_dest:
  assumes "rmatch (dot_star # mode_part) url = Some ps" "one_line url"
  shows "\<exists>a d v g. ps = a # [[d], ''m'', ''o'', ''d'', ''e'', ''=''] @ [v, g] \<and> cgi_sep d \<and> one_line a \<and> tail_ok g"
proof -
  obtain a qs where ps: "ps = a # qs" using assms(1) rmatch_not_Nil by (metis list.exhaust)
  from rmatch_star_max [OF assms(1) [unfolded ps]] obtain u where u: "url = a @ u" "rmatch mode_part u = Some qs"
    "\<forall>x y. u = x @ y \<longrightarrow> x \<noteq> [] \<longrightarrow> (\<forall>c \<in> set x. not_newline c) \<longrightarrow> rmatch mode_part y = None" by blast
  obtain d w where w: "u = d # ''mode='' @ w" "cgi_sep d" using u(2) mode_part_some by blast
  have l: "one_line w" "one_line a" using assms(2) u(1) w(1) by auto
  let ?g = "dropWhile no_amp w"
  have "rmatch mode_part y = None" if y: "?g = x @ y" for x y
  proof -
    let ?x = "(d # ''mode='' @ takeWhile no_amp w) @ x"
    have x: "u = ?x @ y" by (simp add: w(1) y [symmetric])
    moreover have "one_line u" using assms(2) u(1) by simp
    ultimately have "\<forall>c \<in> set ?x. not_newline c" unfolding not_newline_def by auto
    then show ?thesis using u(3) [THEN spec, THEN spec, THEN mp, OF x] by simp
  qed
  then have "mode_free ?g" unfolding mode_free_suffix by blast
  moreover have "one_line ?g" using l(1) set_dropWhileD by metis
  moreover have "?g = [] \<or> hd ?g = CHR ''&''" using hd_dropWhile [of no_amp w] by blast
  ultimately have "tail_ok ?g" by (simp add: tail_ok_def)
  with mode_part_match [OF w(2) l(1)] u(2) w l(2) ps show ?thesis by auto
qed

text \<open>A URL with a mode is made of a text before it and a text after it, which do not depend on the mode.\<close>

definition mode_frame :: "string \<Rightarrow> string \<Rightarrow> char \<Rightarrow> string \<Rightarrow> bool" where
  "mode_frame url a d g \<longleftrightarrow> one_line a \<and> cgi_sep d \<and> tail_ok g \<and>
    (\<forall>m. m \<noteq> [] \<longrightarrow> AnyUriModed url m = a @ d # ''mode='' @ m @ g) \<and>
    (rmatch (dot_star # mode_part) url = None \<longrightarrow> a = url \<and> g = [])"

lemma mode_form:
  assumes "one_line url"
  shows "\<exists>a d g. mode_frame url a d g"
proof (cases "rmatch (dot_star # mode_part) url")
  case None
  then have "mode_frame url url (if py_rfind url ''?'' = -1 then CHR ''?'' else CHR ''&'') []"
    using assms by (simp add: mode_frame_def AnyUriModed_def ConcatenateCgi_def tail_ok_def cgi_sep_def)
  then show ?thesis by (intro exI)
next
  case (Some ps)
  from url_match_dest [OF Some assms] obtain a d v g where
    g: "ps = a # [[d], ''m'', ''o'', ''d'', ''e'', ''=''] @ [v, g]" "cgi_sep d" "one_line a" "tail_ok g"
    by (elim exE conjE)
  then have "mode_frame url a d g" using Some by (simp add: mode_frame_def AnyUriModed_def)
  then show ?thesis by (intro exI)
qed

lemma rmatch_url_none:
  assumes "\<forall>a d b. url = a @ [d] @ ''mode='' @ b \<longrightarrow> \<not> cgi_sep d"
  shows "rmatch (dot_star # mode_part) url = None"
proof (rule rmatch_star_None)
  fix a b assume "url = a @ b"
  with assms show "rmatch mode_part b = None" using mode_part_some [of b] by fastforce
qed

text \<open>
  C30. The display mode of a URL. After \<^verbatim>\<open>AnyUriModed\<close> with a mode, \<^verbatim>\<open>GetModeFromUrl\<close> reads this mode, whether
  the URL had a mode or not; a second call replaces the mode of the first one, wherever it stands among
  the arguments, and leaves the rest of the URL as it is; and for a URL that had no mode, the removal of
  the mode gives back the URL. The modes have no separator of arguments, and the URL is one line.
\<close>

theorem mode_replaced:
  assumes "one_line url" "mode_ok m" "mode_ok m'"
  shows "GetModeFromUrl (AnyUriModed url m) = m \<and>
    AnyUriModed (AnyUriModed url m) m' = AnyUriModed url m' \<and>
    ((\<forall>a d b. url = a @ [d] @ ''mode='' @ b \<longrightarrow> \<not> cgi_sep d) \<longrightarrow> AnyUriModed (AnyUriModed url m) [] = url)"
proof -
  obtain a d g where "mode_frame url a d g" using mode_form [OF assms(1)] by (elim exE)
  then have f: "one_line a" "cgi_sep d" "tail_ok g"
    "\<And>m. m \<noteq> [] \<Longrightarrow> AnyUriModed url m = a @ d # ''mode='' @ m @ g"
    "rmatch (dot_star # mode_part) url = None \<Longrightarrow> a = url \<and> g = []"
    unfolding mode_frame_def by simp_all
  have ne: "m \<noteq> []" "m' \<noteq> []" using assms(2,3) by (simp_all add: mode_ok_def)
  have u: "AnyUriModed url m = a @ d # ''mode='' @ m @ g" "AnyUriModed url m' = a @ d # ''mode='' @ m' @ g"
    using f(4) [OF ne(1)] f(4) [OF ne(2)] .
  note match = mode_url_match [OF f(1,2) assms(2) f(3)]
  have "AnyUriModed (AnyUriModed url m) [] = url"
    if "\<forall>a d b. url = a @ [d] @ ''mode='' @ b \<longrightarrow> \<not> cgi_sep d"
    using f(5) [OF rmatch_url_none [OF that]] unfolding u(1) unfolding AnyUriModed_def match by simp
  moreover have "GetModeFromUrl (AnyUriModed url m) = m"
    unfolding u(1) GetModeFromUrl_def match by simp
  moreover have "AnyUriModed (AnyUriModed url m) m' = AnyUriModed url m'"
    unfolding u unfolding AnyUriModed_def match using ne(2) by simp
  ultimately show ?thesis by blast
qed

lemma mode_replaced_witness:
  "GetModeFromUrl (AnyUriModed ''http://a/entity.py?mode=svg&xid=b'' ''html'') = ''html'' \<and>
   AnyUriModed (AnyUriModed ''http://a/entity.py?mode=svg&xid=b'' ''html'') ''edit'' =
     AnyUriModed ''http://a/entity.py?mode=svg&xid=b'' ''edit''"
  using mode_replaced [of "''http://a/entity.py?mode=svg&xid=b''" "''html''" "''edit''"]
  by (simp add: mode_ok_def)

end
