(* ===== verification/AgentTheorems.thy ===== *)
theory AgentTheorems
  imports AgentProps ModeProps "HOL-Library.Multiset"
begin

text \<open>
  The properties of the agent: the states that its operations reach, the memories in these states, and
  the way from an object to its URL and back.
\<close>

subsection \<open>The states of the agent\<close>

text \<open>The ontology names lists that exist.\<close>

definition keys_exist :: "agent \<Rightarrow> bool" where
  "keys_exist s \<longleftrightarrow> (\<forall>t r. map_of (localOntology s) t = Some r \<longrightarrow> r < length (key_lists s))"

definition agent_ok :: "agent_conf \<Rightarrow> agent \<Rightarrow> bool" where
  "agent_ok c s \<longleftrightarrow> modules_ok c s \<and> memo_valid search_lookup (search_answer c) s \<and> keys_exist s"

inductive reached :: "agent_conf \<Rightarrow> agent \<Rightarrow> bool" for c where
  start: "lib_util_init c = Inr s \<Longrightarrow> reached c s"
| module: "reached c s \<Longrightarrow> reached c (snd (GetEntityModule c t s))"
| module_nocatch: "reached c s \<Longrightarrow> reached c (snd (GetEntityModuleNoCatch c t s))"
| search: "reached c s \<Longrightarrow> reached c (snd (HierarchicalFunctionSearch c t g s))"
| ontology: "reached c s \<Longrightarrow> reached c (snd (OntologyClassKeys c t s))"
| array: "reached c s \<Longrightarrow> reached c (snd (EntityIdToArray c t i s))"
| uri: "reached c s \<Longrightarrow> reached c (snd (EntityUriDupl c t is extra s))"
| make: "reached c s \<Longrightarrow> reached c (snd (UriMake c p t is s))"

lemma lookup_frame: "frame s' = frame s \<Longrightarrow> search_lookup s' = search_lookup s"
  by (auto simp: frame_def search_lookup_def fun_eq_iff)

lemma agent_ok_frame:
  "agent_ok c s \<Longrightarrow> frame s' = frame s \<Longrightarrow> modules_ok c s' \<Longrightarrow> agent_ok c s'"
  unfolding agent_ok_def memo_valid_def lookup_frame by (simp add: keys_exist_def frame_def)

lemma ok_module [keeps_rules]: "keeps (agent_ok c) (GetEntityModule c t)"
proof (rule keepsI)
  fix s assume ok: "agent_ok c s"
  then have "modules_ok c (snd (GetEntityModule c t s))"
    using keepsD [OF modules.keeps_ok] by (simp add: agent_ok_def)
  moreover have "frame (snd (GetEntityModule c t s)) = frame s" using keepsD [OF keeps_frame] by blast
  ultimately show "agent_ok c (snd (GetEntityModule c t s))" using agent_ok_frame ok by blast
qed

lemma modules_ok_update:
  "modules_ok c s \<Longrightarrow> t \<noteq> [] \<Longrightarrow> GetEntityModuleNoCache c t = Inr m \<Longrightarrow>
   modules_ok c (s\<lparr>cacheEntityToModule := AList.update t m (cacheEntityToModule s)\<rparr>)"
  by (auto simp: no_module_of_nothing_def memo_valid_def module_lookup_def module_answer_def split: if_splits)

lemma ok_module_nocatch: "keeps (agent_ok c) (GetEntityModuleNoCatch c t)"
proof (rule keepsI)
  fix s assume ok: "agent_ok c s"
  show "agent_ok c (snd (GetEntityModuleNoCatch c t s))"
  proof (cases "map_of (cacheEntityToModule s) t")
    case (Some m)
    with ok show ?thesis by (simp add: GetEntityModuleNoCatch_def bnd_run)
  next
    case None
    with ok have t: "t \<noteq> []" by (auto simp: agent_ok_def no_module_of_nothing_def)
    show ?thesis
    proof (cases "GetEntityModuleNoCacheNoCatch c t")
      case (Inl e)
      with None ok show ?thesis by (simp add: GetEntityModuleNoCatch_def bnd_run)
    next
      case (Inr m)
      let ?s = "s\<lparr>cacheEntityToModule := AList.update t (Some m) (cacheEntityToModule s)\<rparr>"
      have "GetEntityModuleNoCache c t = Inr (Some m)" using Inr by (simp add: GetEntityModuleNoCache_def)
      from modules_ok_update [OF _ t this] ok have "modules_ok c ?s" unfolding agent_ok_def by blast
      then have "agent_ok c ?s" by (rule agent_ok_frame [OF ok, rotated]) (simp add: frame_def)
      with None Inr show ?thesis by (simp add: GetEntityModuleNoCatch_def bnd_run andthen_run)
    qed
  qed
qed

lemma frame_search_put: "localOntology (search_put g t f s) = localOntology s"
  "key_lists (search_put g t f s) = key_lists s"
  by (simp_all add: search_put_def)

lemma keys_exist_search: "keeps keys_exist (HierarchicalFunctionSearch c t g)"
proof -
  have "keeps keys_exist (hierarchy_loop c u g n)" for u n
  proof (rule keepsI)
    fix s assume "keys_exist s"
    moreover have "frame (snd (hierarchy_loop c u g n s)) = frame s" using keepsD [OF keeps_frame_loop] by blast
    ultimately show "keys_exist (snd (hierarchy_loop c u g n s))" by (simp add: keys_exist_def frame_def)
  qed
  then show ?thesis
    unfolding HierarchicalFunctionSearch_def HierarchicalFunctionSearchNoCache_def Let_def
    by (intro keeps_rules) (auto simp: keeps_def keys_exist_def frame_search_put)
qed

lemma ok_search: "keeps (agent_ok c) (HierarchicalFunctionSearch c t g)"
proof (rule keepsI)
  fix s assume ok: "agent_ok c s"
  let ?s = "snd (HierarchicalFunctionSearch c t g s)"
  have "modules_ok c ?s \<and> memo_valid search_lookup (search_answer c) ?s"
    using keepsD [OF searches.keeps_ok [of c "(g, t)"], of s] ok by (simp add: agent_ok_def)
  moreover have "keys_exist ?s" using keepsD [OF keys_exist_search] ok by (simp add: agent_ok_def)
  ultimately show "agent_ok c ?s" by (simp add: agent_ok_def)
qed

text \<open>The changes of the lists and of the ontology.\<close>

lemma ok_lists:
  "agent_ok c s \<Longrightarrow> length (key_lists s) \<le> length ls \<Longrightarrow> agent_ok c (s\<lparr>key_lists := ls\<rparr>)"
  by (fastforce simp: agent_ok_def memo_valid_def keys_exist_def no_module_of_nothing_def module_lookup_def
      search_lookup_def)

lemma ok_ontology:
  "agent_ok c s \<Longrightarrow> r < length (key_lists s) \<Longrightarrow> agent_ok c (s\<lparr>localOntology := AList.update t r (localOntology s)\<rparr>)"
  by (auto simp: agent_ok_def memo_valid_def keys_exist_def no_module_of_nothing_def module_lookup_def
      search_lookup_def)

lemma ok_new_list: "triple (agent_ok c) (new_list ks) (\<lambda>r s. agent_ok c s \<and> r < length (key_lists s)) (\<lambda>e. agent_ok c)"
  by (auto simp: triple_def new_list_def intro: ok_lists)

lemma ok_put: "triple (\<lambda>s. agent_ok c s \<and> r < length (key_lists s)) (put_ontology t r)
    (\<lambda>_ s. agent_ok c s \<and> r < length (key_lists s)) (\<lambda>e. agent_ok c)"
  by (auto simp: triple_def put_ontology_def intro: ok_ontology)

text \<open>The list of keys that is returned exists.\<close>

lemma ok_domain: "triple (agent_ok c) (ontology_domain t) (\<lambda>r s. agent_ok c s \<and> r < length (key_lists s)) (\<lambda>e. agent_ok c)"
  unfolding ontology_domain_def
  by (intro triple_bnd [OF ok_new_list] triple_andthen [OF ok_put] triple_conseq [OF ok_new_list]) auto

lemma ok_module_triple: "triple (agent_ok c) (GetEntityModule c t) (\<lambda>_. agent_ok c) (\<lambda>_. agent_ok c)"
  using ok_module keeps_triple by blast

lemma ok_keys: "triple (agent_ok c) (OntologyClassKeys c t) (\<lambda>r s. agent_ok c s \<and> r < length (key_lists s)) (\<lambda>e. agent_ok c)"
proof (rule triple_pre)
  fix s assume ok: "agent_ok c s"
  show "triple (\<lambda>x. x = s) (OntologyClassKeys c t) (\<lambda>r s. agent_ok c s \<and> r < length (key_lists s)) (\<lambda>e. agent_ok c)"
  proof (cases "map_of (localOntology s) t")
    case (Some r)
    with ok show ?thesis by (auto simp: triple_def OntologyClassKeys_def bnd_run agent_ok_def keys_exist_def)
  next
    case None
    let ?body = "bnd (GetEntityModule c t) (\<lambda>entity_module. case entity_module of
        None \<Rightarrow> ontology_domain t
      | Some m \<Rightarrow> (case EntityOntology m of
          Inr ks \<Rightarrow> bnd (new_list ks) (\<lambda>r. andthen (put_ontology t r) (ret r))
        | Inl e \<Rightarrow> if e = AttributeError then ontology_domain t else raise e))"
    have "triple (agent_ok c) ?body (\<lambda>r s. agent_ok c s \<and> r < length (key_lists s)) (\<lambda>e. agent_ok c)"
      by (intro triple_bnd [OF ok_module_triple])
        (auto split: option.splits sum.splits intro!: ok_domain triple_raise
          triple_bnd [OF ok_new_list] triple_andthen [OF ok_put] triple_ret)
    with ok None show ?thesis by (simp add: triple_def OntologyClassKeys_def bnd_run)
  qed
qed

lemma keeps_of_triple:
  assumes "triple I m (\<lambda>r s. I s \<and> Q r s) (\<lambda>_. I)"
  shows "keeps I m"
  unfolding keeps_triple by (rule triple_conseq [OF assms]) auto

lemma ok_keys_keeps [keeps_rules]: "keeps (agent_ok c) (OntologyClassKeys c t)"
  using ok_keys by (rule keeps_of_triple)

lemma ok_decode: "keeps (agent_ok c) (DecodeCgiArg d k)"
  unfolding DecodeCgiArg_def by (intro keeps_rules)

lemma ok_array: "keeps (agent_ok c) (EntityIdToArray c t i)"
  unfolding EntityIdToArray_def by (intro keeps_rules ok_decode)

lemma ok_uri: "keeps (agent_ok c) (EntityUriDupl c t is extra)"
  unfolding EntityUriDupl_def Let_def by (intro keeps_rules)

lemma ok_make: "keeps (agent_ok c) (UriMake c p t is)"
  unfolding UriMake_def BuildEntity_def MakeTheNodeFromScript_def
  by (intro keeps_rules) (auto simp: keeps_def intro: ok_lists)

lemma ok_init: "lib_util_init c = Inr s \<Longrightarrow> agent_ok c s"
  by (auto simp: lib_util_init_def agent_ok_def memo_valid_def keys_exist_def no_module_of_nothing_def
      module_lookup_def module_answer_def search_lookup_def split: sum.splits if_splits)

lemma reached_ok: "reached c s \<Longrightarrow> agent_ok c s"
  by (induction rule: reached.induct)
    (simp_all add: ok_init keepsD [OF ok_module] keepsD [OF ok_module_nocatch] keepsD [OF ok_search]
      keepsD [OF ok_keys_keeps] keepsD [OF ok_array] keepsD [OF ok_uri] keepsD [OF ok_make])

subsection \<open>From an object to its URL and back\<close>

text \<open>The second answer of the ontology is a list with the same keys, perhaps another one.\<close>

lemma ontology_again:
  assumes "OntologyClassKeys c t s = (Inr r, s1)"
  shows "\<exists>r'. OntologyClassKeys c t s1 = (Inr r', s1) \<and> keys_at r' s1 = keys_at r s1"
proof (cases "map_of (localOntology s) t")
  case (Some q)
  with assms show ?thesis by (auto simp: OntologyClassKeys_def bnd_run)
next
  case None
  obtain res s' where m: "GetEntityModule c t s = (res, s')" by (cases "GetEntityModule c t s")
  have f: "localOntology s' = localOntology s" "key_lists s' = key_lists s"
    using keepsD [OF keeps_frame [of "frame s" c t], of s] by (simp_all add: m frame_def)
  have known: "map_of (localOntology s1) t = Some q \<Longrightarrow> OntologyClassKeys c t s1 = (Inr q, s1)" for q
    by (simp add: OntologyClassKeys_def bnd_run)
  let ?n = "length (key_lists s)"
  have "map_of (localOntology s1) t = Some ?n \<and> keys_at ?n s1 = keys_at r s1"
    using assms None m f
    by (auto simp: OntologyClassKeys_def bnd_run ontology_domain_def new_list_def put_ontology_def andthen_run
        keys_at_def nth_append split: sum.splits option.splits if_splits)
  with known show ?thesis by blast
qed

lemma uriRoot_kept: "keeps (\<lambda>s. uriRoot s = x) (OntologyClassKeys c t)"
proof -
  have "keeps (\<lambda>s. uriRoot s = x) (GetEntityModule c t)"
    unfolding GetEntityModule_def by (intro keeps_rules) (auto simp: keeps_def)
  then show ?thesis
    unfolding OntologyClassKeys_def ontology_domain_def new_list_def put_ontology_def
    by (intro keeps_rules) (auto simp: keeps_def)
qed

definition decode_key :: "ontokey \<Rightarrow> string \<Rightarrow> string" where
  "decode_key k v = (case ValueDecode k of Some f \<Rightarrow> f v | None \<Rightarrow> v)"

lemma decode_all:
  "length ks = length ids \<Longrightarrow> \<forall>(k, v) \<in> set (zip ks ids). map_of d (key_name k) = Some v \<Longrightarrow>
   for_each ks (DecodeCgiArg d) s = (Inr (map2 decode_key ks ids), s)"
  by (induction ks ids rule: list_induct2) (auto simp: DecodeCgiArg_def bnd_run decode_key_def)

lemma set_py_join: "set (py_join sep xs) \<subseteq> set sep \<union> \<Union> (set ` set xs)"
  by (induction xs) (auto simp: py_join_Cons)

lemma zip_dict_distinct: "distinct ks \<Longrightarrow> length ks = length vs \<Longrightarrow> zip_dict ks vs = zip ks vs"
proof -
  have "distinct (map fst d @ map fst kvs) \<Longrightarrow> foldl (\<lambda>d (k, v). AList.update k v d) d kvs = d @ kvs"
    for d kvs :: "(string \<times> string) list"
  proof (induction kvs arbitrary: d)
    case (Cons kv kvs)
    then have "map_of d (fst kv) = None" by (auto simp: map_of_eq_None_iff)
    with Cons show ?case by (cases kv) (auto simp: keys_update_fresh)
  qed simp
  from this [of "[]" "zip ks vs"] show "distinct ks \<Longrightarrow> length ks = length vs \<Longrightarrow> zip_dict ks vs = zip ks vs"
    by (simp add: zip_dict_def)
qed

text \<open>
  The order of a dictionary is any order of its keys: the entries are all there, each once, whatever
  Python's hashes are.
\<close>

definition dict_order_ok :: "agent_conf \<Rightarrow> bool" where
  "dict_order_ok c \<longleftrightarrow> (\<forall>ks. mset (dict_order c ks) = mset ks)"

lemma find_entry: "distinct (map f d) \<Longrightarrow> x \<in> set d \<Longrightarrow> find (\<lambda>y. f y = f x) d = Some x"
  by (induction d) (auto simp: image_iff)

lemma mset_dict_items:
  assumes "dict_order_ok c" "distinct (map f d)"
  shows "mset (dict_items c f d) = mset d"
proof -
  let ?g = "\<lambda>k. case find (\<lambda>x. f x = k) d of None \<Rightarrow> [] | Some x \<Rightarrow> [x]"
  have sum: "mset (concat (map ?g ks)) = sum_mset (image_mset (\<lambda>k. mset (?g k)) (mset ks))" for ks
    by (induction ks) simp_all
  have "concat (map ?g (map f e)) = e" if "set e \<subseteq> set d" for e
    using that find_entry [OF assms(2)] by (induction e) auto
  then have d: "concat (map ?g (map f d)) = d" by blast
  have "mset (dict_items c f d) = mset (concat (map ?g (map f d)))"
    unfolding dict_items_def sum using assms(1) by (simp add: dict_order_ok_def)
  then show ?thesis by (simp only: d)
qed

text \<open>What a text of pairs needs does not depend on their order.\<close>

lemma dict_items_pairs:
  assumes "dict_order_ok c" "distinct (map fst d)"
  shows "set (dict_items c fst d) = set d" "distinct (map fst (dict_items c fst d))"
    "map_of (dict_items c fst d) = map_of d"
proof -
  note m = mset_dict_items [OF assms]
  show 1: "set (dict_items c fst d) = set d" using m by (rule mset_eq_setD)
  have "mset (map fst (dict_items c fst d)) = mset (map fst d)" using m by (simp only: mset_map)
  then show 2: "distinct (map fst (dict_items c fst d))" using assms(2) mset_eq_imp_distinct_iff by blast
  show "map_of (dict_items c fst d) = map_of d" using map_of_inject_set [OF 2 assms(2)] 1 by blast
qed

text \<open>
  Values that are encoded: \<^verbatim>\<open>ParseXid\<close> unquotes the moniker at once, and this unquotes each value, because
  neither the comma nor the equal sign can be a part of an escape.
\<close>

lemma unquote_sep: "hex_val c = None \<Longrightarrow> c \<noteq> CHR ''%'' \<Longrightarrow>
  urllib_unquote (a @ c # b) = urllib_unquote a @ c # urllib_unquote b"
proof (induction a rule: urllib_unquote.induct)
  case (2 x y z s)
  then show ?case by (simp split: option.splits)
next
  case "3_1"
  then show ?case by (cases b) simp_all
next
  case "3_2"
  then show ?case by (cases b) (auto split: option.splits)
qed simp

lemma no_hex [simp]: "hex_val (CHR '','') = None" "hex_val (CHR ''='') = None" "hex_val (CHR 0x0A) = None"
  by (simp_all add: hex_val_def digit_val_def)

lemma unquote_key: "key_ok k \<Longrightarrow> urllib_unquote k = k"
  using key_chars [of k] key_char_not by (intro unquote_plain) blast

definition decoded_pairs :: "(string \<times> string) list \<Rightarrow> (string \<times> string) list" where
  "decoded_pairs d = map (\<lambda>kv. (fst kv, urllib_unquote (snd kv))) d"

lemma unquote_moniker:
  "\<forall>kv \<in> set d. key_ok (fst kv) \<Longrightarrow> urllib_unquote (BuildMonikerPath d) = BuildMonikerPath (decoded_pairs d)"
proof (induction d)
  case (Cons kv d)
  have "urllib_unquote (pair_text kv) = pair_text (fst kv, urllib_unquote (snd kv))"
    using Cons.prems by (simp add: pair_text_def unquote_sep unquote_key)
  with Cons show ?case
    by (cases d) (simp_all add: BuildMonikerPath_def decoded_pairs_def py_join_Cons unquote_sep)
qed (simp add: BuildMonikerPath_def decoded_pairs_def)

definition uri_text :: "string \<Rightarrow> bool" where
  "uri_text v \<longleftrightarrow> plain_value (urllib_unquote v)"

lemma uri_text_newline: "uri_text v \<Longrightarrow> CHR 0x0A \<notin> set v"
proof
  assume "uri_text v" "CHR 0x0A \<in> set v"
  moreover obtain a b where "v = a @ CHR 0x0A # b" using calculation(2) by (meson split_list)
  ultimately show False by (simp add: uri_text_def plain_value_def unquote_sep)
qed

definition pairs_ok :: "(string \<times> string) list \<Rightarrow> bool" where
  "pairs_ok d \<longleftrightarrow> distinct (map fst d) \<and> (\<forall>kv \<in> set d. key_ok (fst kv) \<and> uri_text (snd kv))"

lemma moniker_no_at:
  assumes "\<forall>kv \<in> set d. key_ok (fst kv)"
  shows "CHR ''@'' \<notin> set (takeWhile (\<lambda>c. c \<noteq> CHR ''='') (BuildMonikerPath d))"
proof (cases d)
  case (Cons kv e)
  obtain k v where kv: "kv = (k, v)" by (cases kv)
  have "\<exists>r. BuildMonikerPath d = k @ CHR ''='' # r"
    by (cases "e = []") (simp_all add: BuildMonikerPath_def Cons kv py_join_Cons pair_text_def)
  then obtain r where r: "BuildMonikerPath d = k @ CHR ''='' # r" by blast
  have "key_ok k" using assms by (auto simp: Cons kv)
  then have "\<forall>c \<in> set k. c \<noteq> CHR ''='' \<and> c \<noteq> CHR ''@''" using key_chars key_char_not by blast
  then have "takeWhile (\<lambda>c. c \<noteq> CHR ''='') (BuildMonikerPath d) = k" "CHR ''@'' \<notin> set k"
    unfolding r by (auto simp: takeWhile_append)
  then show ?thesis by simp
qed (simp add: BuildMonikerPath_def)

lemma moniker_no_newline:
  assumes "pairs_ok d"
  shows "CHR 0x0A \<notin> set (BuildMonikerPath d)"
proof -
  have "CHR 0x0A \<notin> set (pair_text kv)" if "kv \<in> set d" for kv
    using that assms key_chars [of "fst kv"] key_char_not uri_text_newline [of "snd kv"]
    by (auto simp: pairs_ok_def pair_text_def)
  then show ?thesis using set_py_join [of "'',''" "map pair_text d"] by (fastforce simp: BuildMonikerPath_def)
qed

lemma moniker_read:
  assumes "pairs_ok d"
  shows "SplitMoniker (BuildMonikerPath (decoded_pairs d)) = decoded_pairs d"
  using assms by (intro SplitMoniker_plain) (auto simp: pairs_ok_def decoded_pairs_def uri_text_def o_def)

definition at_host :: "string \<Rightarrow> string" where
  "at_host h = (if h = [] then [] else h @ ''@'')"

lemma xid_parsed:
  assumes "class_ok t" "host_ok h" "pairs_ok d"
  shows "ParseXid (at_host h @ t @ ''.'' @ BuildMonikerPath d) = (t, BuildMonikerPath (decoded_pairs d), h)"
proof -
  have k: "\<forall>kv \<in> set d. key_ok (fst kv)" using assms(3) by (auto simp: pairs_ok_def)
  show ?thesis
    using ParseXidLocal_local [OF assms(1) moniker_no_newline [OF assms(3)] moniker_no_at [OF k]]
      ParseXidLocal_host [OF assms(1,2) moniker_no_newline [OF assms(3)]] unquote_moniker [OF k]
    by (auto simp: ParseXid_def at_host_def)
qed

text \<open>The values come back from the moniker, in whatever order the pairs were written.\<close>

lemma moniker_values_read:
  assumes "OntologyClassKeys c t s = (Inr r, s1)" "distinct (map key_name (keys_at r s1))"
    "\<forall>k \<in> set (keys_at r s1). key_ok (key_name k)" "length ids = length (keys_at r s1)"
    "\<forall>v \<in> set ids. uri_text v" "set d = set (zip (map key_name (keys_at r s1)) ids)" "distinct (map fst d)"
  shows "pairs_ok d"
    "EntityIdToArray c t (BuildMonikerPath (decoded_pairs d)) s1 =
      (Inr (map2 decode_key (keys_at r s1) (map urllib_unquote ids)), s1)"
proof -
  let ?ks = "keys_at r s1"
  have "key_ok k \<and> uri_text v" if "(k, v) \<in> set (zip (map key_name ?ks) ids)" for k v
    using assms(3,5) set_zip_leftD [OF that] set_zip_rightD [OF that] by auto
  then show ok: "pairs_ok d" using assms(6,7) by (fastforce simp: pairs_ok_def)
  obtain q where q: "OntologyClassKeys c t s1 = (Inr q, s1)" "keys_at q s1 = ?ks"
    using ontology_again [OF assms(1)] by blast
  have "map_of (decoded_pairs d) (key_name k) = Some v" if kv: "(k, v) \<in> set (zip ?ks (map urllib_unquote ids))" for k v
  proof (rule map_of_is_SomeI)
    show "distinct (map fst (decoded_pairs d))" using assms(7) by (simp add: decoded_pairs_def o_def)
    obtain w where w: "v = urllib_unquote w" "(k, w) \<in> set (zip ?ks ids)" using kv by (auto simp: zip_map2)
    then have "(key_name k, w) \<in> set d" unfolding assms(6) by (force simp: zip_map1)
    then show "(key_name k, v) \<in> set (decoded_pairs d)" using w(1) by (force simp: decoded_pairs_def)
  qed
  then have "for_each ?ks (DecodeCgiArg (decoded_pairs d)) s1 = (Inr (map2 decode_key ?ks (map urllib_unquote ids)), s1)"
    using assms(4) by (intro decode_all) auto
  then show "EntityIdToArray c t (BuildMonikerPath (decoded_pairs d)) s1 =
      (Inr (map2 decode_key ?ks (map urllib_unquote ids)), s1)"
    using q moniker_read [OF ok] by (simp add: EntityIdToArray_def bnd_run)
qed

text \<open>An agent without a module, that knows one class of files.\<close>

definition sample_conf :: agent_conf where
  "sample_conf = \<lparr>environ = [(''SERVER_NAME'', ''rchateau''), (''SCRIPT_NAME'', ''/survol/entity.py'')],
     getcwd = ''/home/survol/survol'', isdir = (\<lambda>_. False), gethostbyname = (\<lambda>_. None),
     gethostname = ''rchateau'', getservbyport = (\<lambda>_. None), sys_platform' = ''linux2'', dict_order = rev,
     import_module = (\<lambda>m p. if m = ''.table'' \<and> p = ''sources_types.oracle''
       then Inr \<lparr>EntityOntology = Inr [\<lparr>key_name = ''Db'', ValueEncode = None, ValueDecode = None\<rparr>,
                 \<lparr>key_name = ''Schema'', ValueEncode = None, ValueDecode = Some (map to_lower)\<rparr>],
               module_functions = [(''Graphic_shape'', 7)]\<rparr>
       else Inl ImportError)\<rparr>"

definition sample_agent :: agent where
  "sample_agent = \<lparr>uriRoot = ''http://rchateau:80/survol'', currentHostname = ''rchateau'',
     localIP = ''rchateau'', localOntology = [], key_lists = [], cacheEntityToModule = [([], None)],
     dictHierarchicalFunctionSearch = []\<rparr>"

text \<open>
  C4. The URLs of an object lead back to the object. When the keys of a class are names that differ, there
  are as many values as keys, and the values, once unquoted, have no comma, double quote or newline,
  \<^verbatim>\<open>UriMake\<close> (for a local object or for one of the host \<open>h\<close>), which writes the keys in the order of a Python 2
  dictionary, whatever it is, and \<^verbatim>\<open>EntityUri\<close>, which writes them in the order of the ontology, make URLs whose
  \<open>xid\<close> is read by \<^verbatim>\<open>ParseXid\<close> as the class, a moniker and the host; and \<^verbatim>\<open>EntityIdToArray\<close>, by which the scripts
  read their arguments, gives from both monikers the same values in the order of the keys: the values that
  were written, unquoted (the names of files are written quoted) and decoded by the keys that have a
  \<^verbatim>\<open>ValueDecode\<close>. The two URLs of an object can differ as texts.
\<close>

theorem uri_roundtrip:
  assumes "OntologyClassKeys c t s = (Inr r, s1)" "class_ok t" "host_ok h" "dict_order_ok c"
    "distinct (map key_name (keys_at r s1))" "\<forall>k \<in> set (keys_at r s1). key_ok (key_name k)"
    "length ids = length (keys_at r s1)" "\<forall>v \<in> set ids. uri_text v"
  shows "\<exists>xid id xid' id'. UriMake c (at_host h) t ids s = (Inr (uriRoot s @ ''/entity.py?xid='' @ xid), s1) \<and>
    ParseXid xid = (t, id, h) \<and>
    EntityIdToArray c t id s1 = (Inr (map2 decode_key (keys_at r s1) (map urllib_unquote ids)), s1) \<and>
    EntityUri c t ids s = (Inr (uriRoot s @ ''/entity.py?xid='' @ xid'), s1) \<and>
    ParseXid xid' = (t, id', []) \<and>
    EntityIdToArray c t id' s1 = (Inr (map2 decode_key (keys_at r s1) (map urllib_unquote ids)), s1)"
proof -
  let ?d = "zip (map key_name (keys_at r s1)) ids"
  have fst: "distinct (map fst ?d)" using assms(5,7) by simp
  note items = dict_items_pairs [OF assms(4) fst]
  note read = moniker_values_read [OF assms(1,5-8)]
  have root: "uriRoot s1 = uriRoot s" using keepsD [OF uriRoot_kept [of "uriRoot s" c t], of s] assms(1) by simp
  have "zip_dict (map key_name (keys_at r s1)) ids = ?d" using assms(5,7) by (intro zip_dict_distinct) simp_all
  then have 1: "UriMake c (at_host h) t ids s =
      (Inr (uriRoot s @ ''/entity.py?xid='' @ at_host h @ t @ ''.'' @ BuildMonikerPath (dict_items c fst ?d)), s1)"
    using assms(1,7) root
    by (simp add: UriMake_def BuildEntity_def MakeTheNodeFromScript_def bnd_run xidCgiDelimiter_def
        BuildMonikerPath_def)
  have 2: "EntityUri c t ids s =
      (Inr (uriRoot s @ ''/entity.py?xid='' @ at_host [] @ t @ ''.'' @ BuildMonikerPath ?d), s1)"
    using assms(1) root
    by (simp add: EntityUri_def EntityUriDupl_def bnd_run Scriptize_def EncodeEntityId_def at_host_def
        BuildMonikerPath_def)
  have "host_ok []" by (simp add: host_ok_def)
  note 3 = xid_parsed [OF assms(2,3) read(1) [OF items(1,2)]] xid_parsed [OF assms(2) this read(1) [OF refl fst]]
  show ?thesis using 1 2 3 read(2) [OF items(1,2)] read(2) [OF refl fst] by blast
qed

definition sample_table :: agent where
  "sample_table =
     (let ks = [\<lparr>key_name = ''Db'', ValueEncode = None, ValueDecode = None\<rparr>,
                \<lparr>key_name = ''Schema'', ValueEncode = None, ValueDecode = Some (map to_lower)\<rparr>]
      in sample_agent\<lparr>localOntology := [(''oracle/table'', 0)], key_lists := [ks],
           cacheEntityToModule := [([], None), (''oracle/table'',
             Some \<lparr>EntityOntology = Inr ks, module_functions = [(''Graphic_shape'', 7)]\<rparr>)]\<rparr>)"

lemma sample_keys: "OntologyClassKeys sample_conf ''oracle/table'' sample_agent = (Inr 0, sample_table)"
  by (simp add: OntologyClassKeys_def GetEntityModule_def GetEntityModuleNoCache_def
      GetEntityModuleNoCacheNoCatch_def sample_conf_def sample_agent_def sample_table_def bnd_run andthen_run
      new_list_def put_ontology_def Let_def)

lemma sample_order: "dict_order_ok sample_conf"
  by (simp add: dict_order_ok_def sample_conf_def)

text \<open>A name with a quoted slash.\<close>

lemma uri_roundtrip_witness:
  "\<exists>xid id. UriMake sample_conf (at_host ''remote'') ''oracle/table'' [''X%2FE'', ''SYS''] sample_agent =
      (Inr (''http://rchateau:80/survol/entity.py?xid='' @ xid), sample_table) \<and>
    ParseXid xid = (''oracle/table'', id, ''remote'') \<and>
    EntityIdToArray sample_conf ''oracle/table'' id sample_table = (Inr [''X/E'', map to_lower ''SYS''], sample_table)"
proof -
  obtain k1 k2 where k: "keys_at 0 sample_table = [k1, k2]" "key_name k1 = ''Db''" "key_name k2 = ''Schema''"
    "decode_key k1 ''X/E'' = ''X/E''" "decode_key k2 ''SYS'' = map to_lower ''SYS''"
    by (simp add: sample_table_def keys_at_def decode_key_def Let_def)
  have u: "urllib_unquote ''X%2FE'' = ''X/E''" "urllib_unquote ''SYS'' = ''SYS''" by code_simp+
  have root: "uriRoot sample_agent @ ''/entity.py?xid='' @ xid = ''http://rchateau:80/survol/entity.py?xid='' @ xid" for xid
    by (simp add: sample_agent_def)
  have 1: "class_ok ''oracle/table''" "host_ok ''remote''"
    by (simp_all add: class_ok_def host_ok_def class_start_def class_char_def host_char_def word_char_def less_eq_char_def)
  have 2: "distinct (map key_name (keys_at 0 sample_table))" "\<forall>k \<in> set (keys_at 0 sample_table). key_ok (key_name k)"
    "length [''X%2FE'', ''SYS''] = length (keys_at 0 sample_table)" "\<forall>v \<in> set [''X%2FE'', ''SYS'']. uri_text v"
    by (simp_all only: k uri_text_def list.set u ball_simps)
      (simp_all add: k key_ok_def word_char_def plain_value_def u)
  from uri_roundtrip [OF sample_keys 1 sample_order 2] show ?thesis
    unfolding root by (simp only: k u list.map zip_Cons_Cons zip_Nil prod.case) blast
qed

subsection \<open>The memories of the agent\<close>

text \<open>
  C21. The memories of the agent change no answer. In every state that the operations of the agent reach,
  in any order and also after ones that raised, the search of a function gives what the search of the
  specification gives, which tries the module of the class and then the packages above it, without a
  memory; and the module of a class is the one that its import gives. An import that raises anything but
  ImportError raises again each time.
\<close>

theorem memories_transparent:
  assumes "reached c s"
  shows "fst (HierarchicalFunctionSearch c t g s) = search_answer c (g, t) \<and>
    fst (GetEntityModule c t s) = module_answer c t"
  using searches.same_answer [where c = c and s = s and k = "(g, t)"]
    modules.same_answer [where c = c and s = s and k = t] reached_ok [OF assms]
  by (simp add: agent_ok_def)

lemma memories_transparent_witness:
  "fst (HierarchicalFunctionSearch sample_conf ''oracle/table'' ''Graphic_shape''
     (snd (GetEntityModule sample_conf ''oracle'' sample_agent))) =
   search_answer sample_conf (''Graphic_shape'', ''oracle/table'')"
proof -
  have "lib_util_init sample_conf = Inr sample_agent"
    by (simp add: lib_util_init_def sample_conf_def sample_agent_def UriRootHelper_def HttpPrefix_def HostName_def
        TopScriptsFunc_def GlobalGetHostByName_def Let_def py_find_def endswith_def to_lower_def py_upto_def clip_def)
  then have "reached sample_conf (snd (GetEntityModule sample_conf ''oracle'' sample_agent))"
    by (intro reached.intros)
  from memories_transparent [OF this] show ?thesis by blast
qed

subsection \<open>Defects\<close>

text \<open>
  \<^verbatim>\<open>BuildEntity\<close> with more values than keys changes the keys of the class in the ontology: from then on
  \<^verbatim>\<open>EntityIdToArray\<close> raises KeyError for the objects of the class, which it could read before.
\<close>

definition shared_agent :: agent where
  "shared_agent = sample_agent\<lparr>localOntology := [(''f'', 0)],
     key_lists := [[\<lparr>key_name = ''N'', ValueEncode = None, ValueDecode = None\<rparr>]]\<rparr>"

lemma ontology_keys_grow:
  "fst (EntityIdToArray sample_conf ''f'' ''N=a'' shared_agent) = Inr [''a'']"
  "fst (EntityIdToArray sample_conf ''f'' ''N=a'' (snd (BuildEntity sample_conf ''f'' [''a'', ''b''] shared_agent))) =
    Inl KeyError"
proof -
  have d: "SplitMoniker ''N=a'' = [(''N'', ''a'')]"
    using moniker_read [of "[(''N'', ''a'')]"]
    by (simp add: pairs_ok_def decoded_pairs_def key_ok_def uri_text_def plain_value_def word_char_def
        BuildMonikerPath_def pair_text_def)
  show "fst (EntityIdToArray sample_conf ''f'' ''N=a'' shared_agent) = Inr [''a'']"
    by (simp add: EntityIdToArray_def OntologyClassKeys_def shared_agent_def bnd_run keys_at_def d DecodeCgiArg_def)
  show "fst (EntityIdToArray sample_conf ''f'' ''N=a'' (snd (BuildEntity sample_conf ''f'' [''a'', ''b''] shared_agent))) =
    Inl KeyError"
    by (simp add: EntityIdToArray_def BuildEntity_def OntologyClassKeys_def shared_agent_def bnd_run keys_at_def d
        DecodeCgiArg_def fake_key_def)
qed

text \<open>The platform of macOS, \<^verbatim>\<open>darwin\<close>, is taken for Windows.\<close>

lemma darwin_is_windows: "sys_platform' c = ''darwin'' \<Longrightarrow> isPlatformWindows c"
  by (simp add: isPlatformWindows_def contains_def py_find_def)

text \<open>
  The comment of \<^verbatim>\<open>SplitMoniker\<close> promises that an escaped quote is decoded; it stays as it is. A value in
  quotes that ends with a backslash takes the next key with it.
\<close>

lemma escapes_stay:
  "SplitMoniker (''Id='' @ [CHR 0x22] @ ''NT ='' @ [bsl, CHR 0x22] @ ''A'' @ [CHR 0x22]) =
    [(''Id'', ''NT ='' @ [bsl, CHR 0x22] @ ''A'')]"
  by code_simp

lemma backslash_swallows_key:
  "SplitMoniker (''d='' @ quoted_value (''C:'' @ [bsl]) @ '',e='' @ quoted_value ''f'') =
    [(''d'', ''C:'' @ [bsl, CHR 0x22] @ '',e='')]"
  by code_simp

end
