(* ===== verification/EventProps.thy ===== *)
theory EventProps
  imports Events AgentTheorems
begin

text \<open>
  The store of events: the ontology as a third memory that changes no answer, the path of the file of an
  object as a function of its moniker, and the lemmas of one operation: what an append and a read do to
  the files.
\<close>

subsection \<open>The ontology is a memory\<close>

definition ontology_answer :: "agent_conf \<Rightarrow> string \<Rightarrow> ontokey list pyres" where
  "ontology_answer c t =
     (case module_answer c t of
        Inl e \<Rightarrow> Inl e
      | Inr None \<Rightarrow> Inr []
      | Inr (Some m) \<Rightarrow>
          (case EntityOntology m of
             Inr ks \<Rightarrow> Inr ks
           | Inl e \<Rightarrow> if e = AttributeError then Inr [] else Inl e))"

definition ontology_lookup :: "agent \<Rightarrow> string \<Rightarrow> ontokey list option" where
  "ontology_lookup s t = map_option (\<lambda>r. keys_at r s) (map_of (localOntology s) t)"

definition ontology_inv :: "agent_conf \<Rightarrow> agent \<Rightarrow> bool" where
  "ontology_inv c s \<longleftrightarrow> modules_ok c s \<and> keys_exist s"

lemma ontology_lookup_new:
  assumes "localOntology s' = AList.update t (length (key_lists s)) (localOntology s)"
    and "key_lists s' = key_lists s @ ks # zs" "keys_exist s"
  shows "ontology_lookup s' = (ontology_lookup s)(t \<mapsto> ks)" "keys_exist s'"
proof -
  have old: "map_of (localOntology s) u = Some r \<Longrightarrow> r < length (key_lists s)" for u r
    using assms(3) by (auto simp: keys_exist_def)
  show "ontology_lookup s' = (ontology_lookup s)(t \<mapsto> ks)"
  proof
    show "ontology_lookup s' u = ((ontology_lookup s)(t \<mapsto> ks)) u" for u
      using assms(1,2) old [of u]
      by (cases "map_of (localOntology s) u") (auto simp: ontology_lookup_def keys_at_def nth_append)
  qed
  show "keys_exist s'"
    using assms(1,2) by (auto simp: keys_exist_def dest!: old split: if_splits)
qed

lemma modules_ok_frame: "cacheEntityToModule s' = cacheEntityToModule s \<Longrightarrow> modules_ok c s' = modules_ok c s"
  by (simp add: no_module_of_nothing_def memo_valid_def module_lookup_def)

interpretation ontology: memo ontology_lookup "ontology_answer c" "class_keys c" "ontology_inv c" for c
proof
  fix s k v e
  assume i: "ontology_inv c s"
  show "ontology_lookup s k = Some v \<Longrightarrow> class_keys c k s = (Inr v, s)"
    by (auto simp: class_keys_def OntologyClassKeys_def bnd_run ontology_lookup_def)
  assume n: "ontology_lookup s k = None"
  then have none: "map_of (localOntology s) k = None" by (simp add: ontology_lookup_def)
  obtain s' where m: "GetEntityModule c k s = (module_answer c k, s')" "modules_ok c s'"
    using modules.run [of s c k] i by (auto simp: ontology_inv_def)
  have f: "localOntology s' = localOntology s" "key_lists s' = key_lists s"
    using keepsD [OF keeps_frame [of "frame s" c k], of s] by (simp_all add: m frame_def)
  have ex: "keys_exist s'" using i f by (simp add: ontology_inv_def keys_exist_def)
  have same: "ontology_lookup s' = ontology_lookup s"
    using f by (simp add: ontology_lookup_def keys_at_def fun_eq_iff)
  note run = class_keys_def OntologyClassKeys_def ontology_domain_def new_list_def put_ontology_def bnd_run
    andthen_run none m(1) keys_at_def
  show "\<exists>s'. class_keys c k s = (Inr v, s') \<and> ontology_lookup s' = (ontology_lookup s)(k \<mapsto> v) \<and>
      ontology_inv c s'" if a: "ontology_answer c k = Inr v"
  proof -
    let ?t = "\<lambda>zs. s'\<lparr>localOntology := AList.update k (length (key_lists s)) (localOntology s'),
      key_lists := key_lists s' @ v # zs\<rparr>"
    have "class_keys c k s = (Inr v, ?t []) \<or> class_keys c k s = (Inr v, ?t [[]])"
      using a f by (auto simp: ontology_answer_def run nth_append split: sum.splits option.splits if_splits)
    then obtain zs where "class_keys c k s = (Inr v, ?t zs)" by blast
    moreover have "ontology_lookup (?t zs) = (ontology_lookup s)(k \<mapsto> v)" "keys_exist (?t zs)"
      unfolding same [symmetric] by (rule ontology_lookup_new [OF _ _ ex]; simp add: f)+
    moreover have "modules_ok c (?t zs)" using m(2) by (subst modules_ok_frame [of _ s']) simp_all
    ultimately show ?thesis unfolding ontology_inv_def by blast
  qed
  show "\<exists>s'. class_keys c k s = (Inl e, s') \<and> ontology_lookup s' = ontology_lookup s \<and>
      ontology_inv c s'" if a: "ontology_answer c k = Inl e"
    using a m ex same unfolding ontology_inv_def
    by (auto simp: ontology_answer_def run split: sum.splits option.splits if_splits)
qed

abbreviation ontology_ok :: "agent_conf \<Rightarrow> agent \<Rightarrow> bool" where
  "ontology_ok c s \<equiv> ontology_inv c s \<and> memo_valid ontology_lookup (ontology_answer c) s"

lemma class_keys_root: "keeps (\<lambda>s. uriRoot s = x) (class_keys c t)"
  unfolding class_keys_def by (intro keeps_rules uriRoot_kept)

subsection \<open>The path of the file of an object\<close>

abbreviation store_ok :: "event_conf \<Rightarrow> event_state \<Rightarrow> bool" where
  "store_ok c s \<equiv> ontology_ok (ec_agent c) (ev_agent s)"

abbreviation store_root :: "event_state \<Rightarrow> string" where
  "store_root s \<equiv> uriRoot (ev_agent s)"

definition values_of :: "(string \<times> jlit) list \<Rightarrow> ontokey list \<Rightarrow> (ontokey \<times> jlit) list pyres" where
  "values_of d ks =
     (if \<forall>k \<in> set ks. map_of d (key_name k) \<noteq> None
      then Inr (map (\<lambda>k. (k, the (map_of d (key_name k)))) ks) else Inl KeyError)"

definition class_values :: "event_conf \<Rightarrow> string \<Rightarrow> (string \<times> jlit) list \<Rightarrow> (ontokey \<times> jlit) list pyres" where
  "class_values c t d =
     (case ontology_answer (ec_agent c) t of
        Inl e \<Rightarrow> Inl e
      | Inr ks \<Rightarrow> map_sum id key_dict (values_of d ks))"

definition moniker_path :: "event_conf \<Rightarrow> (string \<times> jlit) list \<Rightarrow> string pyres" where
  "moniker_path c d =
     (case moniker_class TypeError d of
        Inl e \<Rightarrow> Inl e
      | Inr t \<Rightarrow>
          map_sum id (\<lambda>kvs. tmpDir c @ ''/Events/'' @ t @ ''/'' @
              event_file_name t (dict_items (ec_agent c) fst (map (\<lambda>kv. (key_name (fst kv), snd kv)) kvs)))
            (class_values c t d))"

definition same_files :: "event_state \<Rightarrow> event_state \<Rightarrow> bool" where
  "same_files s s' \<longleftrightarrow> ev_files s' = ev_files s \<and> ev_attempts s' = ev_attempts s \<and> store_root s' = store_root s"

lemma same_files_refl [simp]: "same_files s s"
  by (simp add: same_files_def)

lemma same_files_trans: "same_files s s' \<Longrightarrow> same_files s' s'' \<Longrightarrow> same_files s s''"
  by (simp add: same_files_def)

lemma key_values_run: "for_each ks (key_value d) s = (values_of d ks, s)"
proof (induction ks arbitrary: s)
  case Nil
  show ?case by (simp add: values_of_def)
next
  case (Cons k ks)
  then show ?case by (cases "map_of d (key_name k)") (auto simp: values_of_def key_value_def bnd_run)
qed

lemma class_keys_run:
  assumes "store_ok c s"
  shows "\<exists>s'. on_agent (class_keys (ec_agent c) t) s = (ontology_answer (ec_agent c) t, s') \<and>
    store_ok c s' \<and> same_files s s' \<and> ev_dirs s' = ev_dirs s"
proof -
  obtain a where a: "class_keys (ec_agent c) t (ev_agent s) = (ontology_answer (ec_agent c) t, a)"
      "ontology_ok (ec_agent c) a"
    using ontology.run [of "ec_agent c" "ev_agent s" t] assms by auto
  moreover have "uriRoot a = store_root s"
    using keepsD [OF class_keys_root [of "store_root s" "ec_agent c" t], of "ev_agent s"] a(1) by simp
  ultimately show ?thesis by (simp add: on_agent_def same_files_def)
qed

lemma moniker_values_run:
  assumes "store_ok c s"
  shows "\<exists>s'. moniker_values c t d s = (class_values c t d, s') \<and> store_ok c s' \<and> same_files s s' \<and>
    ev_dirs s' = ev_dirs s"
proof -
  obtain s' where s': "on_agent (class_keys (ec_agent c) t) s = (ontology_answer (ec_agent c) t, s')"
      "store_ok c s'" "same_files s s'" "ev_dirs s' = ev_dirs s"
    using class_keys_run [OF assms] by blast
  then show ?thesis
    by (auto simp: moniker_values_def class_values_def bnd_run key_values_run split: sum.split)
qed

lemma own_ancestor: "p \<in> set (ancestors p)"
proof -
  let ?cs = "py_split (CHR ''/'') p"
  have "py_join ''/'' (take (length ?cs) ?cs) = p" by simp
  moreover have "length ?cs \<in> set [1..<Suc (length ?cs)]" by (cases ?cs) auto
  ultimately show ?thesis unfolding ancestors_def Let_def set_map by (metis (no_types, lifting) image_eqI)
qed

text \<open>The directory of the class exists when the name of the file is made.\<close>

lemma event_directory_made:
  "\<exists>s'. (if p \<in> set (ev_dirs s) then ret () else os_makedirs p) s = (Inr (), s') \<and>
    p \<in> set (ev_dirs s') \<and> ev_agent s' = ev_agent s \<and> same_files s s'"
  using own_ancestor [of p] by (auto simp: os_makedirs_def same_files_def)

lemma MonikerToEventFile_run:
  assumes "store_ok c s"
  shows "\<exists>s'. MonikerToEventFile c d s = (moniker_path c d, s') \<and> store_ok c s' \<and> same_files s s'"
proof (cases "moniker_class TypeError d")
  case (Inl e)
  then show ?thesis using assms by (simp add: MonikerToEventFile_def moniker_path_def)
next
  case (Inr t)
  let ?p = "tmpDir c @ ''/Events/'' @ t"
  obtain s1 where 1: "(if ?p \<in> set (ev_dirs s) then ret () else os_makedirs ?p) s = (Inr (), s1)"
      "?p \<in> set (ev_dirs s1)" "ev_agent s1 = ev_agent s" "same_files s s1"
    using event_directory_made [of ?p s] by blast
  obtain s2 where 2: "moniker_values c t d s1 = (class_values c t d, s2)" "store_ok c s2" "same_files s1 s2"
      "ev_dirs s2 = ev_dirs s1"
    using moniker_values_run [of c s1 t d] assms 1(3) by auto
  have m: "MonikerToEventFile c d s = (moniker_path c d, s2)"
    using Inr 1 2
    by (simp add: MonikerToEventFile_def moniker_path_def EntityTypeIdsToEventFile_def events_directory_def
        Let_def bnd_run andthen_run del: append.simps append_Cons split: sum.split)
  show ?thesis using m 2(2) same_files_trans [OF 1(4) 2(3)] by blast
qed

subsection \<open>The triple of an event\<close>

definition url_of :: "event_conf \<Rightarrow> string \<Rightarrow> (string \<times> jlit) list \<Rightarrow> string pyres" where
  "url_of c root d =
     (case moniker_class AttributeError d of
        Inl e \<Rightarrow> Inl e
      | Inr t \<Rightarrow>
          map_sum id (\<lambda>kvs. root @ ''/entity.py'' @ xidCgiDelimiter @ t @ ''.'' @
              py_join '','' (map (\<lambda>kv. pair_text (UriPairEncode kv))
                (dict_items (ec_agent c) (\<lambda>kv. key_name (fst kv)) (map (\<lambda>kv. (fst kv, jlit_text (snd kv))) kvs))))
            (class_values c t d))"

definition object_of :: "event_conf \<Rightarrow> string \<Rightarrow> jnode \<Rightarrow> rdf_node pyres" where
  "object_of c root v = (case v of JObj d \<Rightarrow> map_sum id Link (url_of c root d) | _ \<Rightarrow> Inr (Literal v))"

definition triple_of :: "event_conf \<Rightarrow> string \<Rightarrow> event \<Rightarrow> rdf_triple pyres" where
  "triple_of c root e =
     (case ev_subject e of
        None \<Rightarrow> Inl KeyError
      | Some (JObj d) \<Rightarrow>
          (case url_of c root d of
             Inl x \<Rightarrow> Inl x
           | Inr u \<Rightarrow>
               (case ev_object e of
                  None \<Rightarrow> Inl KeyError
                | Some v \<Rightarrow>
                    (case object_of c root v of
                       Inl x \<Rightarrow> Inl x
                     | Inr n \<Rightarrow>
                         (case ev_predicate e of None \<Rightarrow> Inl KeyError | Some p \<Rightarrow> Inr (Link u, MakeProp p, n)))))
      | Some _ \<Rightarrow> Inl TypeError)"

lemma UrlJsonToTxt_run:
  assumes "store_ok c s"
  shows "\<exists>s'. UrlJsonToTxt c d s = (url_of c (store_root s) d, s') \<and> store_ok c s' \<and> same_files s s'"
proof (cases "moniker_class AttributeError d")
  case (Inl e)
  then show ?thesis using assms by (simp add: UrlJsonToTxt_def url_of_def)
next
  case (Inr t)
  obtain s' where s': "moniker_values c t d s = (class_values c t d, s')" "store_ok c s'" "same_files s s'"
    using moniker_values_run [OF assms] by blast
  have "UrlJsonToTxt c d s = (url_of c (store_root s) d, s')"
    using Inr s' by (auto simp: UrlJsonToTxt_def url_of_def bnd_run on_agent_def UriMakeFromDict_def
        MakeTheNodeFromScript_def same_files_def o_def split: sum.split)
  with s' show ?thesis by blast
qed

lemma object_run:
  assumes "store_ok c s"
  shows "\<exists>s'. (case v of JObj d \<Rightarrow> bnd (UrlJsonToTxt c d) (\<lambda>u. ret (Link u)) | _ \<Rightarrow> ret (Literal v)) s =
    (object_of c (store_root s) v, s') \<and> store_ok c s' \<and> same_files s s'"
proof (cases v)
  case (JObj d)
  with UrlJsonToTxt_run [OF assms, of d] show ?thesis
    by (auto simp: object_of_def bnd_run split: sum.split)
qed (use assms in \<open>simp_all add: object_of_def\<close>)

lemma TripleJsonToRdf_run:
  assumes "store_ok c s"
  shows "\<exists>s'. TripleJsonToRdf c e s = (triple_of c (store_root s) e, s') \<and> store_ok c s' \<and> same_files s s'"
proof (cases "\<exists>d. ev_subject e = Some (JObj d)")
  case False
  then show ?thesis using assms
    by (cases "ev_subject e") (auto simp: TripleJsonToRdf_def triple_of_def split: jnode.splits)
next
  case True
  then obtain d where d: "ev_subject e = Some (JObj d)" by blast
  obtain s1 where 1: "UrlJsonToTxt c d s = (url_of c (store_root s) d, s1)" "store_ok c s1" "same_files s s1"
    using UrlJsonToTxt_run [OF assms] by blast
  then have root: "store_root s1 = store_root s" by (simp add: same_files_def)
  show ?thesis
  proof (cases "ev_object e")
    case None
    with d 1 show ?thesis by (auto simp: TripleJsonToRdf_def triple_of_def bnd_run split: sum.split)
  next
    case (Some v)
    obtain s2 where 2: "(case v of JObj d \<Rightarrow> bnd (UrlJsonToTxt c d) (\<lambda>u. ret (Link u)) | _ \<Rightarrow> ret (Literal v)) s1 =
        (object_of c (store_root s) v, s2)" "store_ok c s2" "same_files s1 s2"
      using object_run [OF 1(2), of v] root by auto
    have "same_files s s2" using same_files_trans 1(3) 2(3) by blast
    with d Some 1 2 show ?thesis
      by (auto simp: TripleJsonToRdf_def triple_of_def bnd_run split: sum.split option.split)
  qed
qed

subsection \<open>Appending and reading\<close>

text \<open>Of three attempts to open a file that follow each other, one succeeds.\<close>

definition openable :: "event_conf \<Rightarrow> bool" where
  "openable c \<longleftrightarrow> (\<forall>p n. can_open c p n \<or> can_open c p (Suc n) \<or> can_open c p (Suc (Suc n)))"

text \<open>A run that ends in a store with the files \<open>q\<close>, the same URL of the agent and valid memories.\<close>

definition ends :: "event_conf \<Rightarrow> event_state \<Rightarrow> (string \<Rightarrow> event list) \<Rightarrow> event_state \<Rightarrow> bool" where
  "ends c s q s' \<longleftrightarrow> store_ok c s' \<and> store_root s' = store_root s \<and> file_lines s' = q"

lemma ends_trans: "ends c s q s' \<Longrightarrow> ends c s' q' s'' \<Longrightarrow> ends c s q' s''"
  by (simp add: ends_def)

lemma ends_same: "store_ok c s \<Longrightarrow> store_ok c s' \<Longrightarrow> same_files s s' \<Longrightarrow> ends c s (file_lines s) s'"
  by (simp add: ends_def same_files_def file_lines_def fun_eq_iff)

lemma file_lines_update:
  "file_lines (s\<lparr>ev_attempts := n, ev_files := AList.update p l (ev_files s)\<rparr>) = (file_lines s)(p := l)"
  "file_lines (s\<lparr>ev_files := AList.update p l (ev_files s)\<rparr>) = (file_lines s)(p := l)"
  by (auto simp: file_lines_def fun_eq_iff)

lemma file_lines_attempts [simp]: "file_lines (s\<lparr>ev_attempts := n\<rparr>) = file_lines s"
  by (simp add: file_lines_def fun_eq_iff)

lemma append_run:
  assumes "openable c" "store_ok c s"
  shows "\<exists>s'. append_loop c p e 3 s = (Inr (), s') \<and> ends c s ((file_lines s)(p := file_lines s p @ [e])) s'"
proof -
  have "can_open c p (ev_attempts s) \<or> can_open c p (Suc (ev_attempts s)) \<or> can_open c p (Suc (Suc (ev_attempts s)))"
    using assms(1) by (simp add: openable_def)
  then show ?thesis
    using assms(2)
    by (auto simp: numeral_3_eq_3 try_open_def bnd_run ends_def file_lines_update)
qed

lemma AddEventToObject_run:
  assumes "openable c" "store_ok c s"
  shows "\<exists>s'. AddEventToObject c d e s = (map_sum id (\<lambda>_. ()) (moniker_path c d), s') \<and>
    ends c s (case moniker_path c d of Inl _ \<Rightarrow> file_lines s
              | Inr p \<Rightarrow> (file_lines s)(p := file_lines s p @ [e])) s'"
proof -
  obtain s1 where 1: "MonikerToEventFile c d s = (moniker_path c d, s1)" "store_ok c s1" "same_files s s1"
    using MonikerToEventFile_run [OF assms(2)] by blast
  have f: "ends c s (file_lines s) s1" by (rule ends_same [OF assms(2) 1(2,3)])
  show ?thesis
  proof (cases "moniker_path c d")
    case (Inl x)
    with 1 f show ?thesis by (simp add: AddEventToObject_def bnd_run)
  next
    case (Inr p)
    obtain s2 where "append_loop c p e 3 s1 = (Inr (), s2)"
        "ends c s1 ((file_lines s1)(p := file_lines s1 p @ [e])) s2"
      using append_run [OF assms(1) 1(2)] by blast
    with 1 Inr f ends_trans [OF f] show ?thesis
      by (auto simp: AddEventToObject_def bnd_run ends_def)
  qed
qed

end
