(* ===== verification/EventTheorems.thy ===== *)
theory EventTheorems
  imports EventProps
begin

text \<open>
  The properties of the store of events: it is a set of queues, one for each file; the names of the files
  are bounded and hold only the characters of the whitelist.
\<close>

subsection \<open>Writing and reading as operations on queues\<close>

type_synonym queues = "string \<Rightarrow> event list"

text \<open>The files where an event is written: the one of the subject, then the one of an object that is a moniker.\<close>

definition path_list :: "event_conf \<Rightarrow> (string \<times> jlit) list \<Rightarrow> string list" where
  "path_list c d = (case moniker_path c d of Inl _ \<Rightarrow> [] | Inr p \<Rightarrow> [p])"

definition posted :: "event_conf \<Rightarrow> event \<Rightarrow> string list" where
  "posted c e =
     (case ev_subject e of
        Some (JObj d) \<Rightarrow>
          (case moniker_path c d of
             Inl _ \<Rightarrow> []
           | Inr p \<Rightarrow> p # (case ev_object e of Some (JObj d') \<Rightarrow> path_list c d' | _ \<Rightarrow> []))
      | _ \<Rightarrow> [])"

fun enqueue :: "event \<Rightarrow> string list \<Rightarrow> queues \<Rightarrow> queues" where
  "enqueue e [] q = q"
| "enqueue e (p # ps) q = enqueue e ps (q(p := q p @ [e]))"

definition put_events :: "event_conf \<Rightarrow> event list \<Rightarrow> queues \<Rightarrow> queues" where
  "put_events c es q = fold (\<lambda>e. enqueue e (posted c e)) es q"

lemma enqueue_at: "enqueue e ps q p = q p @ replicate (count_list ps p) e"
  by (induction ps arbitrary: q) (auto simp: replicate_append_same)

lemma put_events_at:
  "put_events c es q p = q p @ concat (map (\<lambda>e. replicate (count_list (posted c e) p) e) es)"
  by (induction es arbitrary: q) (simp_all add: put_events_def enqueue_at)

lemma data_store_run:
  assumes "openable c" "store_ok c s"
  shows "\<exists>r s'. data_store c e s = (r, s') \<and> ends c s (enqueue e (posted c e) (file_lines s)) s'"
proof (cases "\<exists>d. ev_subject e = Some (JObj d)")
  case False
  then have "\<exists>r. data_store c e s = (r, s) \<and> posted c e = []"
    by (cases "ev_subject e") (auto simp: data_store_def posted_def split: jnode.splits)
  then show ?thesis using assms(2) by (auto simp: ends_def)
next
  case True
  then obtain d where d: "ev_subject e = Some (JObj d)" by blast
  obtain s1 where 1: "AddEventToObject c d e s = (map_sum id (\<lambda>_. ()) (moniker_path c d), s1)"
      "ends c s (case moniker_path c d of Inl _ \<Rightarrow> file_lines s
              | Inr p \<Rightarrow> (file_lines s)(p := file_lines s p @ [e])) s1"
    using AddEventToObject_run [OF assms] by blast
  show ?thesis
  proof (cases "moniker_path c d")
    case (Inl x)
    with 1 d show ?thesis by (auto simp: data_store_def posted_def bnd_run)
  next
    case (Inr p)
    with 1 have e1: "ends c s ((file_lines s)(p := file_lines s p @ [e])) s1" by simp
    show ?thesis
    proof (cases "\<exists>d'. ev_object e = Some (JObj d')")
      case False
      with 1 Inr d e1 show ?thesis
        by (cases "ev_object e") (auto simp: data_store_def posted_def bnd_run split: jnode.splits)
    next
      case True
      then obtain d' where d': "ev_object e = Some (JObj d')" by blast
      have "store_ok c s1" using e1 by (simp add: ends_def)
      from AddEventToObject_run [OF assms(1) this, of d' e] obtain s2 where
        2: "AddEventToObject c d' e s1 = (map_sum id (\<lambda>_. ()) (moniker_path c d'), s2)"
          "ends c s1 (case moniker_path c d' of Inl _ \<Rightarrow> file_lines s1
              | Inr p \<Rightarrow> (file_lines s1)(p := file_lines s1 p @ [e])) s2" by blast
      have "ends c s (enqueue e (posted c e) (file_lines s)) s2"
        using 2(2) ends_trans [OF e1] e1 d d' Inr
        by (auto simp: posted_def path_list_def ends_def split: sum.splits)
      with 1(1) 2(1) d d' Inr show ?thesis by (auto simp: data_store_def bnd_run)
    qed
  qed
qed

lemma data_store_list_run:
  assumes "openable c" "store_ok c s"
  shows "\<exists>us s'. data_store_list c es s = (Inr us, s') \<and> ends c s (put_events c es (file_lines s)) s'"
  using assms(2)
proof (induction es arbitrary: s)
  case Nil
  then show ?case by (simp add: data_store_list_def put_events_def ends_def)
next
  case (Cons e es)
  obtain r s1 where 1: "data_store c e s = (r, s1)" "ends c s (enqueue e (posted c e) (file_lines s)) s1"
    using data_store_run [OF assms(1) Cons.prems] by blast
  then obtain u where u: "try_except (data_store c e) (\<lambda>_. ret ()) s = (Inr u, s1)" by (cases r) simp_all
  have "store_ok c s1" using 1(2) by (simp add: ends_def)
  from Cons.IH [OF this] obtain us s2 where 2: "data_store_list c es s1 = (Inr us, s2)"
      "ends c s1 (put_events c es (file_lines s1)) s2" by blast
  have "ends c s (put_events c (e # es) (file_lines s)) s2"
    using ends_trans [OF 1(2) 2(2)] 1(2) by (simp add: put_events_def ends_def)
  with u 2(1) show ?case by (simp add: data_store_list_def bnd_run)
qed

subsection \<open>Reading a file\<close>

definition readable :: "event_conf \<Rightarrow> string \<Rightarrow> event \<Rightarrow> bool" where
  "readable c root e \<longleftrightarrow> (\<exists>t. triple_of c root e = Inr t)"

definition triples :: "event_conf \<Rightarrow> string \<Rightarrow> event list \<Rightarrow> rdf_triple list" where
  "triples c root es = concat (map (\<lambda>e. case triple_of c root e of Inl _ \<Rightarrow> [] | Inr t \<Rightarrow> [t]) es)"

lemma yield_run:
  assumes "store_ok c s" "\<forall>e \<in> set es. readable c (store_root s) e"
  shows "\<exists>s'. yield_lines c es s = (Inr (triples c (store_root s) es, False), s') \<and> store_ok c s' \<and> same_files s s'"
  using assms
proof (induction es arbitrary: s)
  case Nil
  then show ?case by (simp add: triples_def)
next
  case (Cons e es)
  obtain s1 where 1: "TripleJsonToRdf c e s = (triple_of c (store_root s) e, s1)" "store_ok c s1" "same_files s s1"
    using TripleJsonToRdf_run [OF Cons.prems(1)] by blast
  have root: "store_root s1 = store_root s" using 1(3) by (simp add: same_files_def)
  obtain t where t: "triple_of c (store_root s) e = Inr t" using Cons.prems(2) by (auto simp: readable_def)
  obtain s2 where 2: "yield_lines c es s1 = (Inr (triples c (store_root s) es, False), s2)" "store_ok c s2"
      "same_files s1 s2"
    using Cons.IH [OF 1(2)] Cons.prems(2) root by auto
  have "yield_lines c (e # es) s = (Inr (triples c (store_root s) (e # es), False), s2)"
    using 1(1) 2(1) t by (simp add: triples_def try_except_def bnd_run)
  with 2 same_files_trans [OF 1(3) 2(3)] show ?case by blast
qed

lemma read_missing:
  "map_of (ev_files s) p = None \<Longrightarrow> read_loop c p n s = (Inr [], s\<lparr>ev_attempts := ev_attempts s + n\<rparr>)"
  by (induction n arbitrary: s) (auto simp: try_open_def bnd_run)

lemma read_run:
  assumes "openable c" "store_ok c s" "\<forall>e \<in> set (file_lines s p). readable c (store_root s) e"
  shows "\<exists>s'. get_data_from_file c p s = (Inr (triples c (store_root s) (file_lines s p)), s') \<and>
    ends c s ((file_lines s)(p := [])) s'"
proof (cases "map_of (ev_files s) p")
  case None
  then have "file_lines s p = []" by (simp add: file_lines_def)
  then show ?thesis using read_missing [OF None] assms(2)
    by (auto simp: get_data_from_file_def triples_def ends_def fun_eq_iff)
next
  case (Some es)
  then have es: "file_lines s p = es" by (simp add: file_lines_def)
  have taken: "\<exists>s'. read_loop c p (Suc m) s1 = (Inr (triples c (store_root s) es), s') \<and>
      ends c s ((file_lines s)(p := [])) s'"
    if o: "can_open c p (ev_attempts s1)" and at: "s1 = s\<lparr>ev_attempts := n\<rparr>" for s1 m n
  proof -
    let ?s = "s1\<lparr>ev_attempts := Suc (ev_attempts s1)\<rparr>"
    obtain s2 where 2: "yield_lines c es ?s = (Inr (triples c (store_root s) es, False), s2)" "store_ok c s2"
        "same_files ?s s2"
      using yield_run [of c ?s es] assms(2,3) es at by auto
    have "ends c s ((file_lines s)(p := [])) (s2\<lparr>ev_files := AList.update p [] (ev_files s2)\<rparr>)"
      using 2(2,3) at by (auto simp: ends_def file_lines_update same_files_def file_lines_def fun_eq_iff)
    with 2(1) Some o at show ?thesis by (auto simp: try_open_def bnd_run andthen_run)
  qed
  let ?n = "ev_attempts s"
  have skip: "\<not> can_open c p (ev_attempts s1) \<Longrightarrow>
      read_loop c p (Suc m) s1 = read_loop c p m (s1\<lparr>ev_attempts := Suc (ev_attempts s1)\<rparr>)" for s1 m
    by (simp add: try_open_def bnd_run)
  consider "can_open c p ?n" | "\<not> can_open c p ?n" "can_open c p (Suc ?n)"
    | "\<not> can_open c p ?n" "\<not> can_open c p (Suc ?n)" "can_open c p (Suc (Suc ?n))"
    using assms(1) unfolding openable_def by blast
  then show ?thesis
  proof cases
    case 1
    then show ?thesis using taken [of s ?n 2] es
      by (simp add: get_data_from_file_def numeral_3_eq_3 numeral_2_eq_2 del: read_loop.simps)
  next
    case 2
    then show ?thesis using taken [of "s\<lparr>ev_attempts := Suc ?n\<rparr>" "Suc ?n" 1] es skip [of s 2]
      by (simp add: get_data_from_file_def numeral_3_eq_3 numeral_2_eq_2 del: read_loop.simps)
  next
    case 3
    then show ?thesis
      using taken [of "s\<lparr>ev_attempts := Suc (Suc ?n)\<rparr>" "Suc (Suc ?n)" 0] es skip [of s 2]
        skip [of "s\<lparr>ev_attempts := Suc ?n\<rparr>" 1]
      by (simp add: get_data_from_file_def numeral_3_eq_3 numeral_2_eq_2 del: read_loop.simps)
  qed
qed

text \<open>A line that is no triple stops the reading: the triples before it were already given.\<close>

lemma yield_bad:
  assumes "store_ok c s" "\<not> list_all (readable c (store_root s)) es"
  shows "\<exists>s'. yield_lines c es s = (Inr (triples c (store_root s) (takeWhile (readable c (store_root s)) es), True), s') \<and>
    store_ok c s' \<and> same_files s s'"
  using assms
proof (induction es arbitrary: s)
  case (Cons e es)
  obtain s1 where 1: "TripleJsonToRdf c e s = (triple_of c (store_root s) e, s1)" "store_ok c s1" "same_files s s1"
    using TripleJsonToRdf_run [OF Cons.prems(1)] by blast
  have root: "store_root s1 = store_root s" using 1(3) by (simp add: same_files_def)
  show ?case
  proof (cases "triple_of c (store_root s) e")
    case (Inl x)
    with 1 show ?thesis by (auto simp: triples_def readable_def try_except_def bnd_run)
  next
    case (Inr t)
    then have e: "readable c (store_root s) e" unfolding readable_def by blast
    with Cons.prems(2) have "\<not> list_all (readable c (store_root s1)) es" unfolding root by simp
    from Cons.IH [OF 1(2) this] obtain s2 where 2: "yield_lines c es s1 =
        (Inr (triples c (store_root s) (takeWhile (readable c (store_root s)) es), True), s2)" "store_ok c s2"
        "same_files s1 s2" unfolding root by blast
    have "yield_lines c (e # es) s =
        (Inr (triples c (store_root s) (takeWhile (readable c (store_root s)) (e # es)), True), s2)"
      using 1(1) 2(1) Inr e by (simp add: triples_def try_except_def bnd_run)
    with 2 same_files_trans [OF 1(3) 2(3)] show ?thesis by blast
  qed
qed simp

lemma read_bad_loop:
  assumes "map_of (ev_files s) p = Some es" "store_ok c s" "\<not> list_all (readable c (store_root s)) es"
  shows "\<exists>k s'. read_loop c p n s =
      (Inr (concat (replicate k (triples c (store_root s) (takeWhile (readable c (store_root s)) es)))), s') \<and>
    k \<le> n \<and> ((\<exists>i < n. can_open c p (ev_attempts s + i)) \<longrightarrow> 0 < k) \<and> ends c s (file_lines s) s'"
  using assms
proof (induction n arbitrary: s)
  case 0
  then show ?case by (auto simp: ends_def)
next
  case (Suc n)
  let ?s = "s\<lparr>ev_attempts := Suc (ev_attempts s)\<rparr>"
  show ?case
  proof (cases "can_open c p (ev_attempts s)")
    case False
    obtain k s' where k: "read_loop c p n ?s =
        (Inr (concat (replicate k (triples c (store_root s) (takeWhile (readable c (store_root s)) es)))), s')"
      "k \<le> n" "(\<exists>i < n. can_open c p (ev_attempts ?s + i)) \<longrightarrow> 0 < k" "ends c ?s (file_lines ?s) s'"
      using Suc.IH [of ?s] Suc.prems by auto
    have "0 < k" if "i < Suc n" "can_open c p (ev_attempts s + i)" for i
      using that k(3) False by (cases i) auto
    moreover have "ends c s (file_lines s) s'" using k(4) by (simp add: ends_def)
    ultimately show ?thesis using k(1,2) False by (auto simp: try_open_def bnd_run)
  next
    case True
    obtain s2 where 2: "yield_lines c es ?s =
        (Inr (triples c (store_root s) (takeWhile (readable c (store_root s)) es), True), s2)" "store_ok c s2"
        "same_files ?s s2"
      using yield_bad [of c ?s es] Suc.prems by auto
    then have e: "ends c s (file_lines s) s2" "map_of (ev_files s2) p = Some es" "store_root s2 = store_root s"
      using Suc.prems(1) by (auto simp: ends_def same_files_def file_lines_def fun_eq_iff)
    obtain k s' where k: "read_loop c p n s2 =
        (Inr (concat (replicate k (triples c (store_root s) (takeWhile (readable c (store_root s)) es)))), s')"
      "k \<le> n" "ends c s2 (file_lines s2) s'"
      using Suc.IH [OF e(2) 2(2)] Suc.prems(3) e(3) by auto
    have "ends c s (file_lines s) s'" using e(1) k(3) by (simp add: ends_def)
    moreover have "read_loop c p (Suc n) s =
        (Inr (concat (replicate (Suc k) (triples c (store_root s) (takeWhile (readable c (store_root s)) es)))), s')"
      using True 2(1) k(1) Suc.prems(1) by (simp add: try_open_def bnd_run)
    ultimately show ?thesis using k(2) by blast
  qed
qed

text \<open>
  What a reading of a file takes: all its triples, or, when a line is no triple, the triples before it, once
  for each of the \<open>n\<close> attempts that could open the file, and then the lines stay in the file.
\<close>

definition take_queue :: "event_conf \<Rightarrow> string \<Rightarrow> nat \<Rightarrow> event list \<Rightarrow> rdf_triple list \<times> event list" where
  "take_queue c root n es =
     (if list_all (readable c root) es then (triples c root es, [])
      else (concat (replicate n (triples c root (takeWhile (readable c root) es))), es))"

abbreviation attempts :: "nat \<Rightarrow> bool" where
  "attempts n \<equiv> 1 \<le> n \<and> n \<le> 3"

lemma get_data_run:
  assumes "openable c" "store_ok c s"
  shows "\<exists>n s'. attempts n \<and>
    get_data_from_file c p s = (Inr (fst (take_queue c (store_root s) n (file_lines s p))), s') \<and>
    ends c s ((file_lines s)(p := snd (take_queue c (store_root s) n (file_lines s p)))) s'"
proof (cases "list_all (readable c (store_root s)) (file_lines s p)")
  case True
  with read_run [OF assms, of p] show ?thesis
    by (intro exI [of _ 1]) (simp add: take_queue_def list_all_iff)
next
  case False
  then have "map_of (ev_files s) p = Some (file_lines s p)" by (auto simp: file_lines_def split: option.splits)
  from read_bad_loop [OF this assms(2) False, of 3] obtain k s' where
    k: "get_data_from_file c p s =
        (Inr (concat (replicate k (triples c (store_root s) (takeWhile (readable c (store_root s)) (file_lines s p))))), s')"
      "k \<le> 3" "(\<exists>i < 3. can_open c p (ev_attempts s + i)) \<longrightarrow> 0 < k" "ends c s (file_lines s) s'"
    unfolding get_data_from_file_def by blast
  have "can_open c p (ev_attempts s + 0) \<or> can_open c p (ev_attempts s + 1) \<or> can_open c p (ev_attempts s + 2)"
    using assms(1) by (simp add: openable_def numeral_2_eq_2)
  moreover have "(0::nat) < 3" "(1::nat) < 3" "(2::nat) < 3" by simp_all
  ultimately have "0 < k" using k(3) by blast
  with k False show ?thesis by (intro exI [of _ k] exI [of _ s']) (simp add: take_queue_def)
qed

subsection \<open>Scripts that write and read\<close>

text \<open>The requests that reach the store: \<^verbatim>\<open>event_put.py\<close> stores a list of events and a page reads a file.\<close>

datatype event_op = Put "event list" | Take string

fun event_request :: "event_conf \<Rightarrow> event_op \<Rightarrow> (event_state, rdf_triple list) py" where
  "event_request c (Put es) = bnd (data_store_list c es) (\<lambda>_. ret [])"
| "event_request c (Take p) = get_data_from_file c p"

text \<open>
  What the requests give when the files are queues; with each request comes the number of attempts that could
  open the file, of the three at most.
\<close>

fun queue_run :: "event_conf \<Rightarrow> string \<Rightarrow> (nat \<times> event_op) list \<Rightarrow> queues \<Rightarrow> rdf_triple list list \<times> queues" where
  "queue_run c root [] q = ([], q)"
| "queue_run c root ((n, Put es) # ops) q =
     (case queue_run c root ops (put_events c es q) of (ts, q') \<Rightarrow> ([] # ts, q'))"
| "queue_run c root ((n, Take p) # ops) q =
     (case queue_run c root ops (q(p := snd (take_queue c root n (q p)))) of
        (ts, q') \<Rightarrow> (fst (take_queue c root n (q p)) # ts, q'))"

lemma requests_run:
  assumes "openable c" "store_ok c s"
  shows "\<exists>ns ts q s'. length ns = length ops \<and> list_all attempts ns \<and>
    queue_run c (store_root s) (zip ns ops) (file_lines s) = (ts, q) \<and>
    for_each ops (event_request c) s = (Inr ts, s') \<and> ends c s q s'"
  using assms(2)
proof (induction ops arbitrary: s)
  case Nil
  then show ?case by (simp add: ends_def)
next
  case (Cons op ops)
  obtain n t q1 s1 where 1: "attempts n" "event_request c op s = (Inr t, s1)" "ends c s q1 s1"
    "\<And>r. queue_run c (store_root s) ((n, op) # r) (file_lines s) =
      (case queue_run c (store_root s) r q1 of (ts, q') \<Rightarrow> (t # ts, q'))"
  proof (cases op)
    case (Put es)
    obtain us s1 where "data_store_list c es s = (Inr us, s1)" "ends c s (put_events c es (file_lines s)) s1"
      using data_store_list_run [OF assms(1) Cons.prems(1)] by blast
    with Put show ?thesis by (intro that [of 1 "[]" s1]) (simp_all add: bnd_run)
  next
    case (Take p)
    with get_data_run [OF assms(1) Cons.prems(1), of p] show ?thesis by (auto intro: that)
  qed
  then have s1: "store_ok c s1" "store_root s1 = store_root s" "file_lines s1 = q1" by (simp_all add: ends_def)
  obtain ns ts q s2 where 2: "length ns = length ops" "list_all attempts ns"
      "queue_run c (store_root s) (zip ns ops) q1 = (ts, q)"
      "for_each ops (event_request c) s1 = (Inr ts, s2)" "ends c s1 q s2"
    using Cons.IH [OF s1(1)] s1(2,3) by auto
  have "for_each (op # ops) (event_request c) s = (Inr (t # ts), s2)" using 1(2) 2(4) by (simp add: bnd_run)
  with 1 2 ends_trans [OF 1(3) 2(5)] show ?case by (intro exI [of _ "n # ns"]) auto
qed

text \<open>The events sent to a file, and the triples that the readings of a file gave.\<close>

fun sent :: "event_conf \<Rightarrow> string \<Rightarrow> event_op list \<Rightarrow> event list" where
  "sent c p [] = []"
| "sent c p (Put es # ops) = concat (map (\<lambda>e. replicate (count_list (posted c e) p) e) es) @ sent c p ops"
| "sent c p (Take p' # ops) = sent c p ops"

fun received :: "string \<Rightarrow> event_op list \<Rightarrow> rdf_triple list list \<Rightarrow> rdf_triple list" where
  "received p (Take p' # ops) (ts # tss) = (if p' = p then ts else []) @ received p ops tss"
| "received p (Put es # ops) (ts # tss) = received p ops tss"
| "received p _ _ = []"

lemma triples_append [simp]: "triples c root (es @ es') = triples c root es @ triples c root es'"
  by (simp add: triples_def)

lemma triples_Nil [simp]: "triples c root [] = []"
  by (simp add: triples_def)

lemma queue_run_conserves:
  "queue_run c root ops q = (ts, q') \<Longrightarrow> list_all (readable c root) (q p @ sent c p (map snd ops)) \<Longrightarrow>
   received p (map snd ops) ts @ triples c root (q' p) =
     triples c root (q p) @ triples c root (sent c p (map snd ops)) \<and> list_all (readable c root) (q' p)"
proof (induction c root ops q arbitrary: ts rule: queue_run.induct)
  case (2 c root n es ops q)
  then obtain ts0 where t: "queue_run c root ops (put_events c es q) = (ts0, q')" "ts = [] # ts0"
    by (auto split: prod.splits)
  from "2.IH" [OF t(1)] t(2) "2.prems"(2) put_events_at [of c es q p] show ?case by simp
next
  case (3 c root n p' ops q)
  then obtain ts0 where t: "queue_run c root ops (q(p' := snd (take_queue c root n (q p')))) = (ts0, q')"
      "ts = fst (take_queue c root n (q p')) # ts0"
    by (auto split: prod.splits)
  from "3.IH" [OF t(1)] t(2) "3.prems"(2) show ?case
    by (cases "p' = p") (simp_all add: take_queue_def)
qed simp

lemma ok_fresh: "lib_util_init c = Inr a \<Longrightarrow> ontology_ok c a"
  by (auto simp: lib_util_init_def ontology_inv_def no_module_of_nothing_def memo_valid_def module_lookup_def
      module_answer_def keys_exist_def ontology_lookup_def split: sum.splits option.splits if_splits)

definition empty_store :: "agent \<Rightarrow> event_state" where
  "empty_store a = \<lparr>ev_agent = a, ev_dirs = [], ev_files = [], ev_attempts = 0\<rparr>"


text \<open>A process that writes to a file, whose second attempt always succeeds.\<close>

definition sample_events :: event_conf where
  "sample_events = \<lparr>ec_agent = sample_conf, tmpDir = ''/tmp'', can_open = (\<lambda>p n. odd n)\<rparr>"

definition sample_table_id :: "(string \<times> jlit) list" where
  "sample_table_id = [(''entity_type'', JText ''oracle/table''), (''Db'', JText ''XE''), (''Schema'', JText ''SYS'')]"

definition sample_event :: event where
  "sample_event = \<lparr>ev_subject = Some (JObj sample_table_id), ev_predicate = Some ''rows'',
     ev_object = Some (JLit (JInt 5))\<rparr>"

lemma sample_init: "lib_util_init sample_conf = Inr sample_agent"
  by (simp add: lib_util_init_def sample_conf_def sample_agent_def UriRootHelper_def HttpPrefix_def HostName_def
      TopScriptsFunc_def GlobalGetHostByName_def Let_def py_find_def endswith_def to_lower_def py_upto_def clip_def)

lemma sample_class: "class_values sample_events ''oracle/table'' sample_table_id =
    Inr [(\<lparr>key_name = ''Db'', ValueEncode = None, ValueDecode = None\<rparr>, JText ''XE''),
         (\<lparr>key_name = ''Schema'', ValueEncode = None, ValueDecode = Some (map to_lower)\<rparr>, JText ''SYS'')]"
  by (simp add: class_values_def ontology_answer_def module_answer_def GetEntityModuleNoCache_def
      GetEntityModuleNoCacheNoCatch_def sample_events_def sample_conf_def sample_table_id_def values_of_def Let_def)

lemma sample_readable: "readable sample_events root sample_event"
  using sample_class
  by (simp add: readable_def triple_of_def sample_event_def url_of_def moniker_class_def object_of_def
      sample_table_id_def)

lemma sample_started_events:
  "openable sample_events" "lib_util_init (ec_agent sample_events) = Inr sample_agent"
  by (simp add: openable_def sample_events_def) (simp add: sample_events_def sample_init)


subsection \<open>Reading all the files\<close>

lemma read_files_run:
  assumes "openable c" "store_ok c s" "distinct ps"
  shows "\<exists>ns s'. length ns = length ps \<and> list_all attempts ns \<and>
    for_each ps (get_data_from_file c) s =
      (Inr (map2 (\<lambda>n p. fst (take_queue c (store_root s) n (file_lines s p))) ns ps), s') \<and>
    ends c s (\<lambda>p. if p \<in> set ps then snd (take_queue c (store_root s) 1 (file_lines s p)) else file_lines s p) s'"
  using assms(2-)
proof (induction ps arbitrary: s)
  case Nil
  then show ?case by (simp add: ends_def)
next
  case (Cons p ps)
  let ?t = "\<lambda>n p. take_queue c (store_root s) n (file_lines s p)"
  have any: "snd (?t n q) = snd (?t 1 q)" for n q by (simp add: take_queue_def)
  obtain n s1 where 1: "attempts n" "get_data_from_file c p s = (Inr (fst (?t n p)), s1)"
      "ends c s ((file_lines s)(p := snd (?t 1 p))) s1"
    using get_data_run [OF assms(1) Cons.prems(1), of p] any by metis
  then have s1: "store_ok c s1" "store_root s1 = store_root s" "file_lines s1 = (file_lines s)(p := snd (?t 1 p))"
    by (simp_all add: ends_def)
  obtain ns s2 where 2: "length ns = length ps" "list_all attempts ns"
      "for_each ps (get_data_from_file c) s1 =
        (Inr (map2 (\<lambda>n p. fst (take_queue c (store_root s1) n (file_lines s1 p))) ns ps), s2)"
      "ends c s1 (\<lambda>q. if q \<in> set ps then snd (take_queue c (store_root s1) 1 (file_lines s1 q)) else file_lines s1 q) s2"
    using Cons.IH [OF s1(1)] Cons.prems(2) by auto
  have "map2 (\<lambda>n p. fst (take_queue c (store_root s1) n (file_lines s1 p))) ns ps = map2 (\<lambda>n p. fst (?t n p)) ns ps"
    using Cons.prems(2) s1(2,3) by (auto dest: set_zip_rightD)
  moreover have "(\<lambda>q. if q \<in> set ps then snd (take_queue c (store_root s1) 1 (file_lines s1 q)) else file_lines s1 q) =
      (\<lambda>q. if q \<in> set (p # ps) then snd (?t 1 q) else file_lines s q)"
    using Cons.prems(2) s1(2,3) by (auto simp: fun_eq_iff)
  then have "ends c s (\<lambda>q. if q \<in> set (p # ps) then snd (?t 1 q) else file_lines s q) s2"
    using ends_trans [OF 1(3) 2(4)] by simp
  ultimately show ?case using 1 2(1-3) by (intro exI [of _ "n # ns"] exI [of _ s2]) (simp add: bnd_run)
qed

text \<open>A file has one entry in the store, whatever was done.\<close>

definition files_once :: "event_state \<Rightarrow> bool" where
  "files_once s \<longleftrightarrow> distinct (map fst (ev_files s))"

lemma once_modify [keeps_rules]: "keeps files_once (modify (\<lambda>s. s\<lparr>ev_files := AList.update p (f s) (ev_files s)\<rparr>))"
  by (rule keeps_modify) (simp add: files_once_def distinct_update)

lemma once_try_open [keeps_rules]: "keeps files_once (try_open c p)"
  by (simp add: keeps_def try_open_def files_once_def)

lemma once_agent [keeps_rules]: "keeps files_once (on_agent m)"
  by (simp add: keeps_def on_agent_def files_once_def split: prod.split)

lemma once_dirs [keeps_rules]: "keeps files_once (modify (\<lambda>s. s\<lparr>ev_dirs := f s\<rparr>))"
  by (simp add: keeps_def files_once_def)

lemma once_values [keeps_rules]: "keeps files_once (moniker_values c t d)"
  unfolding moniker_values_def key_value_def by (intro keeps_rules)

lemma once_append [keeps_rules]: "keeps files_once (append_loop c p e n)"
proof (induction n)
  case (Suc n)
  then show ?case unfolding append_loop.simps by (intro keeps_rules)
qed (simp add: keeps_def)

lemma once_moniker [keeps_rules]: "keeps files_once (MonikerToEventFile c d)"
  unfolding MonikerToEventFile_def EntityTypeIdsToEventFile_def os_mkdir_def os_makedirs_def Let_def
  by (intro keeps_rules)

lemma once_store [keeps_rules]: "keeps files_once (data_store_list c es)"
  unfolding data_store_list_def data_store_def AddEventToObject_def
  by (intro keeps_rules) (auto split: option.split jnode.split intro!: keeps_rules)

lemma once_url [keeps_rules]: "keeps files_once (UrlJsonToTxt c d)"
  unfolding UrlJsonToTxt_def by (intro keeps_rules)

lemma once_yield [keeps_rules]: "keeps files_once (yield_lines c es)"
proof (induction es)
  case (Cons e es)
  then show ?case unfolding yield_lines.simps TripleJsonToRdf_def
    by (intro keeps_rules) (auto split: option.split jnode.split intro!: keeps_rules)
qed (simp add: keeps_def)

lemma once_read [keeps_rules]: "keeps files_once (read_loop c p n)"
proof (induction n)
  case (Suc n)
  then show ?case unfolding read_loop.simps by (intro keeps_rules)
qed (simp add: keeps_def)

lemma once_request [keeps_rules]: "keeps files_once (event_request c op)"
  by (cases op) (auto simp: get_data_from_file_def intro!: keeps_rules)

lemma file_lines_known: "file_lines s p \<noteq> [] \<Longrightarrow> p \<in> set (map fst (ev_files s))"
  by (auto simp: file_lines_def split: option.splits dest!: map_of_SomeD) (force)

text \<open>A file that holds events is one that an event was sent to, and lies in the directory of the events.\<close>

lemma queue_run_sent:
  "queue_run c root ops q = (ts, q') \<Longrightarrow> q' p \<noteq> [] \<Longrightarrow> q p \<noteq> [] \<or> sent c p (map snd ops) \<noteq> []"
proof (induction c root ops q arbitrary: ts rule: queue_run.induct)
  case (2 c root n es ops q)
  then obtain ts0 where t: "queue_run c root ops (put_events c es q) = (ts0, q')" by (auto split: prod.splits)
  from "2.IH" [OF t "2.prems"(2)] put_events_at [of c es q p] show ?case by auto
next
  case (3 c root n p' ops q)
  then obtain ts0 where t: "queue_run c root ops (q(p' := snd (take_queue c root n (q p')))) = (ts0, q')"
    by (auto split: prod.splits)
  from "3.IH" [OF t "3.prems"(2)] show ?case by (cases "p' = p") (auto simp: take_queue_def split: if_splits)
qed simp

lemma moniker_path_shape:
  assumes "moniker_path c d = Inr p"
  shows "startswith p (events_directory c) \<and> endswith p events_file_extension"
proof -
  obtain t kvs where p: "p = tmpDir c @ ''/Events/'' @ t @ ''/'' @ event_file_name t kvs"
    using assms by (auto simp: moniker_path_def map_sum_def split: sum.splits)
  obtain n where "event_file_name t kvs = n @ events_file_extension"
    by (simp add: event_file_name_def Let_def)
  then have "p = events_directory c @ t @ ''/'' @ n @ events_file_extension"
    by (simp add: p events_directory_def)
  then show ?thesis unfolding startswith_iff endswith_iff by (metis append.assoc)
qed

lemma sent_shape: "sent c p ops \<noteq> [] \<Longrightarrow> startswith p (events_directory c) \<and> endswith p events_file_extension"
proof (induction ops)
  case (Cons op ops)
  have "p \<in> set (posted c e) \<Longrightarrow> \<exists>d. moniker_path c d = Inr p" for e
    by (auto simp: posted_def path_list_def split: option.splits jnode.splits sum.splits)
  with moniker_path_shape have 1: "p \<in> set (posted c e) \<Longrightarrow>
      startswith p (events_directory c) \<and> endswith p events_file_extension" for e by blast
  show ?case using Cons 1 by (cases op) (auto simp: count_list_0_iff)
qed simp

text \<open>
  C34. \<^verbatim>\<open>data_retrieve_all\<close> after such a sequence of requests, when of any three attempts to open a file one
  succeeds, reads each file of events below the directory once. It gives the triples of a file and empties it,
  if each event in it gives a triple; otherwise it gives the triples before the first event that does not, once
  for each of the one to three attempts that opened the file, and keeps the lines of the file. So it leaves no
  event in any file whose events all give a triple, except in the files that a class with a component \<^verbatim>\<open>..\<close> puts
  outside of the directory of the events.
\<close>

theorem retrieve_all_drains:
  assumes "openable c" "lib_util_init (ec_agent c) = Inr a"
    "for_each ops (event_request c) (empty_store a) = (Inr ts, s)"
  shows "\<exists>ns s'. length ns = length (event_paths c s) \<and> list_all attempts ns \<and>
    data_retrieve_all c s =
      (Inr (concat (map2 (\<lambda>n p. fst (take_queue c (uriRoot a) n (file_lines s p))) ns (event_paths c s))), s') \<and>
    distinct (event_paths c s) \<and>
    (\<forall>p. outside p \<or> file_lines s' p =
       (if list_all (readable c (uriRoot a)) (file_lines s p) then [] else file_lines s p))"
proof -
  have q0: "file_lines (empty_store a) = (\<lambda>_. [])" by (simp add: empty_store_def file_lines_def fun_eq_iff)
  have root0: "store_root (empty_store a) = uriRoot a" by (simp add: empty_store_def)
  obtain ms q where 1: "length ms = length ops" "queue_run c (uriRoot a) (zip ms ops) (\<lambda>_. []) = (ts, q)"
      "ends c (empty_store a) q s"
    using requests_run [of c "empty_store a" ops] assms ok_fresh [OF assms(2)] q0
    by (auto simp: empty_store_def)
  then have s: "store_ok c s" "store_root s = uriRoot a" "file_lines s = q" by (simp_all add: ends_def root0)
  have "keeps files_once (for_each ops (event_request c))" by (intro keeps_rules)
  moreover have "files_once (empty_store a)" by (simp add: files_once_def empty_store_def)
  ultimately have "files_once s" using assms(3) by (rule keepsE)
  then have d: "distinct (event_paths c s)" by (simp add: files_once_def event_paths_def)
  obtain ns s' where 2: "length ns = length (event_paths c s)" "list_all attempts ns"
      "for_each (event_paths c s) (get_data_from_file c) s =
        (Inr (map2 (\<lambda>n p. fst (take_queue c (uriRoot a) n (q p))) ns (event_paths c s)), s')"
      "ends c s (\<lambda>p. if p \<in> set (event_paths c s) then snd (take_queue c (uriRoot a) 1 (q p)) else q p) s'"
    using read_files_run [OF assms(1) s(1) d] unfolding s(2,3) by blast
  have "\<forall>p. outside p \<or> file_lines s' p = (if list_all (readable c (uriRoot a)) (q p) then [] else q p)"
  proof
    fix p
    have "q p \<noteq> [] \<Longrightarrow> \<not> outside p \<Longrightarrow> p \<in> set (event_paths c s)"
      using queue_run_sent [OF 1(2), of p] sent_shape [of c p ops] file_lines_known [of s p] s(3) 1(1)
      by (auto simp: event_paths_def)
    then show "outside p \<or> file_lines s' p = (if list_all (readable c (uriRoot a)) (q p) then [] else q p)"
      using 2(4) by (auto simp: ends_def take_queue_def)
  qed
  moreover have "data_retrieve_all c s =
      (Inr (concat (map2 (\<lambda>n p. fst (take_queue c (uriRoot a) n (q p))) ns (event_paths c s))), s')"
    using 2(3) by (simp add: data_retrieve_all_def bnd_run)
  ultimately show ?thesis using 2(1,2) d unfolding s(3) by blast
qed

lemma retrieve_all_drains_witness:
  "\<exists>ts s rs s'. for_each [Put [sample_event]] (event_request sample_events) (empty_store sample_agent) = (Inr ts, s) \<and>
    data_retrieve_all sample_events s = (Inr rs, s')"
proof -
  have "store_ok sample_events (empty_store sample_agent)"
    using ok_fresh [OF sample_started_events(2)] by (simp add: empty_store_def)
  from requests_run [OF sample_started_events(1) this, of "[Put [sample_event]]"] obtain ts s where
    "for_each [Put [sample_event]] (event_request sample_events) (empty_store sample_agent) = (Inr ts, s)"
    by blast
  with retrieve_all_drains [OF sample_started_events this] show ?thesis by blast
qed

subsection \<open>Names of the files\<close>

lemma StringToFileName_chars: "set (StringToFileName s) \<subseteq> Collect valid_filename_char - {CHR ''/''}"
  by (auto simp: StringToFileName_def valid_filename_char_def word_char_def)

lemma extension_chars: "list_all (\<lambda>c. valid_filename_char c \<and> c \<noteq> CHR ''/'') events_file_extension"
  by (simp add: events_file_extension_def valid_filename_char_def word_char_def)

lemma StringToFileName_length: "length (StringToFileName s) \<le> length s"
  unfolding StringToFileName_def by (rule order_trans [OF length_filter_le]) simp

text \<open>
  C35. The name of the file of any object has at most 247 characters, ends with the extension of the events,
  and holds only characters of the whitelist, so no slash.
\<close>

theorem event_file_bounds:
  "length (event_file_name t d) \<le> 247 \<and> endswith (event_file_name t d) events_file_extension \<and>
   set (event_file_name t d) \<subseteq> Collect valid_filename_char - {CHR ''/''}"
proof -
  let ?x = "event_text t d"
  let ?n = "StringToFileName (if 240 < length ?x then take 240 ?x else ?x)"
  have n: "event_file_name t d = ?n @ events_file_extension" by (simp add: event_file_name_def Let_def)
  have "length ?n \<le> 240" by (rule order_trans [OF StringToFileName_length]) simp
  then have "length (event_file_name t d) \<le> 247" unfolding n by (simp add: events_file_extension_def)
  moreover have "endswith (event_file_name t d) events_file_extension" unfolding n endswith_iff by blast
  moreover have "set events_file_extension \<subseteq> Collect valid_filename_char - {CHR ''/''}"
    using extension_chars unfolding list_all_iff by blast
  ultimately show ?thesis
    unfolding n set_append using StringToFileName_chars [of "if 240 < length ?x then take 240 ?x else ?x"] by blast
qed

subsection \<open>Defects\<close>

text \<open>\<^verbatim>\<open>data_retrieve\<close> never gives an event: it takes the length of a generator.\<close>

lemma data_retrieve_fails: "\<exists>e s'. data_retrieve c t ids s = (Inl e, s') \<and> ev_files s' = ev_files s"
proof -
  obtain r a where "class_keys (ec_agent c) t (ev_agent s) = (r, a)" by (cases "class_keys (ec_agent c) t (ev_agent s)")
  then show ?thesis
    by (cases r) (auto simp: data_retrieve_def on_agent_def bnd_run EntityTypeIdsToEventFile_def Let_def andthen_run
        os_mkdir_def)
qed

text \<open>
  A line that is no triple, after one that is: the first triple is given at each of the three attempts, and
  the file keeps its lines, for the next reading.
\<close>

lemma bad_line_repeats:
  assumes "\<forall>n. can_open c p n" "store_ok c s" "map_of (ev_files s) p = Some [e, b]"
    "triple_of c (store_root s) e = Inr t" "triple_of c (store_root s) b = Inl x"
  shows "\<exists>s'. get_data_from_file c p s = (Inr [t, t, t], s') \<and> ev_files s' = ev_files s"
proof -
  have once: "\<exists>s2. yield_lines c [e, b] s1 = (Inr ([t], True), s2) \<and> store_ok c s2 \<and> same_files s1 s2"
    if s1: "store_ok c s1" "store_root s1 = store_root s" for s1
  proof -
    obtain s2 where 2: "TripleJsonToRdf c e s1 = (Inr t, s2)" "store_ok c s2" "same_files s1 s2"
      using TripleJsonToRdf_run [OF s1(1), of e] s1(2) assms(4) by auto
    obtain s3 where 3: "TripleJsonToRdf c b s2 = (Inl x, s3)" "store_ok c s3" "same_files s2 s3"
      using TripleJsonToRdf_run [OF 2(2), of b] 2(3) s1(2) assms(5) by (auto simp: same_files_def)
    have "yield_lines c [e, b] s1 = (Inr ([t], True), s3)" using 2(1) 3(1) by (simp add: try_except_def bnd_run)
    with 3 same_files_trans [OF 2(3) 3(3)] show ?thesis by blast
  qed
  have "\<exists>s'. read_loop c p n s1 = (Inr (replicate n t), s') \<and> ev_files s' = ev_files s"
    if "store_ok c s1" "store_root s1 = store_root s" "ev_files s1 = ev_files s" for n s1
    using that
  proof (induction n arbitrary: s1)
    case (Suc n)
    let ?s = "s1\<lparr>ev_attempts := Suc (ev_attempts s1)\<rparr>"
    obtain s2 where 2: "yield_lines c [e, b] ?s = (Inr ([t], True), s2)" "store_ok c s2" "same_files ?s s2"
      using once [of ?s] Suc.prems by auto
    with Suc.IH [of s2] Suc.prems obtain s3 where "read_loop c p n s2 = (Inr (replicate n t), s3)"
        "ev_files s3 = ev_files s" by (auto simp: same_files_def)
    with 2(1) assms(1,3) Suc.prems show ?case by (simp add: try_open_def bnd_run del: yield_lines.simps)
  qed simp
  from this [OF assms(2), of 3] show ?thesis by (simp add: get_data_from_file_def numeral_3_eq_3 del: read_loop.simps)
qed

text \<open>Two objects may have one file: the characters that are no part of a name are replaced or dropped.\<close>

lemma files_collide: "StringToFileName ''a/b c:'' = StringToFileName ''a_b/c''"
  by (simp add: StringToFileName_def valid_filename_char_def word_char_def)

text \<open>The class of a moniker is not checked, and its directory may lie anywhere.\<close>

lemma class_leaves_directory:
  assumes "class_values c ''../../etc'' d = Inr kvs" "map_of d ''entity_type'' = Some (JText ''../../etc'')"
  shows "\<exists>n. moniker_path c d = Inr (tmpDir c @ ''/Events/../../etc/'' @ n)"
  using assms by (simp add: moniker_path_def moniker_class_def)

end
