(* ===== verification/UpdateTheorems.thy ===== *)
theory UpdateTheorems
  imports Mirror EventTheorems
begin

text \<open>
  The updates from dockit to the files of the agent: the server receives the triples in their order, and
  what the agent reads from the file of an object are the attributes of the object in dockit.
\<close>

subsection \<open>The client\<close>

text \<open>
  C14. Whatever the interleaving of the main program and of the thread of the client, and whatever becomes
  of the requests, the server receives a prefix of the triples that \<^verbatim>\<open>AddDataToSend\<close> accepted, in their
  order and once each. As long as no request has failed none is lost: those that it has not received are
  about to be posted, in the list, or waiting for the lock, and two answered requests send them.
\<close>

theorem client_in_order:
  assumes "client_reached srv s"
  shows "(\<exists>lost. concat (m_posted (client s)) @ lost = accepted s) \<and>
    (m_valid (client s) \<longrightarrow>
       on_the_way (client s) @ of_option (waiting s) = accepted s \<and>
       concat (m_posted (drained (client s))) @ of_option (waiting s) = accepted s)"
  using client_reached_ok [OF assms] drained_all [of "client s"] by (auto simp: client_ok_def)

definition sample_triple :: event where
  "sample_triple = \<lparr>ev_subject = None, ev_predicate = Some ''Name'', ev_object = None\<rparr>"

definition sample_client :: client_run where
  "sample_client = \<lparr>client = \<lparr>m_listTriples = [], m_valid = False, thread_alive = False, strToSend = [],
     m_posted = []\<rparr>, waiting = None, accepted = [sample_triple]\<rparr>"

lemma client_in_order_witness:
  "client_reached (Some ''http://agent'') sample_client \<and>
   (\<exists>lost. concat (m_posted (client sample_client)) @ lost = accepted sample_client)"
proof -
  let ?srv = "Some ''http://agent''"
  let ?c = "\<lparr>m_listTriples = [sample_triple], m_valid = True, thread_alive = True, strToSend = [], m_posted = []\<rparr>"
  let ?s = "\<lparr>client = ?c, waiting = None, accepted = [sample_triple]\<rparr>"
  have "AddDataToSend ?srv sample_triple HttpTriplesClient_init = ?c" "may_send ?srv HttpTriplesClient_init"
    by (simp_all add: AddDataToSend_def may_send_def append_triple_def HttpTriplesClient_init_def)
  then have 1: "(client_step ?srv)\<^sup>*\<^sup>* client_start ?s"
    using AddDataToSend_steps [of client_start ?srv sample_triple] by (simp add: client_start_def)
  have 2: "(client_step ?srv)\<^sup>*\<^sup>* ?s sample_client"
    using run_once_steps [of ?s ?srv NotReceived]
    by (simp add: run_once_def take_triples_def post_triples_def sample_client_def)
  have "client_reached ?srv sample_client" using rtranclp_trans [OF 1 2] by (simp add: client_reached_def)
  with client_in_order [OF this] show ?thesis by blast
qed

subsection \<open>From the attributes to the files of the agent\<close>

definition stored :: "event_conf \<Rightarrow> string \<Rightarrow> event list \<Rightarrow> event list" where
  "stored c f es = concat (map (\<lambda>e. replicate (count_list (posted c e) f) e) es)"

lemma last_sent_replicate:
  "last_sent (replicate n e @ es) m b =
     (case last_sent es m b of Some j \<Rightarrow> Some j | None \<Rightarrow> if 0 < n \<and> about m b e then ev_object e else None)"
  by (induction n) (auto split: option.split)

text \<open>All triples with a subject are in the file of the subject.\<close>

lemma last_sent_stored:
  assumes "moniker_path c m = Inr f"
  shows "last_sent (stored c f es) m b = last_sent es m b"
proof (induction es)
  case Nil
  show ?case by (simp add: stored_def)
next
  case (Cons e es)
  have "0 < count_list (posted c e) f" if "about m b e"
    using that assms by (auto simp: about_def posted_def)
  with Cons show ?case by (auto simp: stored_def last_sent_replicate split: option.split)
qed

text \<open>The posted lists are put into the store one after the other.\<close>

lemma puts_run:
  assumes "openable c" "store_ok c s"
  shows "\<exists>ts s'. for_each (map Put bs) (event_request c) s = (Inr ts, s') \<and>
    ends c s (put_events c (concat bs) (file_lines s)) s'"
  using assms(2)
proof (induction bs arbitrary: s)
  case Nil
  then show ?case by (simp add: put_events_def ends_def)
next
  case (Cons es bs)
  obtain us s1 where 1: "data_store_list c es s = (Inr us, s1)" "ends c s (put_events c es (file_lines s)) s1"
    using data_store_list_run [OF assms(1) Cons.prems] by blast
  then have s1: "store_ok c s1" "file_lines s1 = put_events c es (file_lines s)" by (simp_all add: ends_def)
  obtain ts s2 where 2: "for_each (map Put bs) (event_request c) s1 = (Inr ts, s2)"
      "ends c s1 (put_events c (concat bs) (file_lines s1)) s2" using Cons.IH [OF s1(1)] by blast
  have "put_events c (concat (es # bs)) q = put_events c (concat bs) (put_events c es q)" for q
    by (simp add: put_events_def)
  with 1 2 s1(2) ends_trans [OF 1(2) 2(2)] show ?case by (simp add: bnd_run)
qed


text \<open>A process with its number and its name, and an agent that knows the class of processes.\<close>

definition process_conf :: agent_conf where
  "process_conf = sample_conf\<lparr>import_module := (\<lambda>m p. if m = ''.CIM_Process'' \<and> p = ''sources_types''
     then Inr \<lparr>EntityOntology = Inr [\<lparr>key_name = ''Handle'', ValueEncode = None, ValueDecode = None\<rparr>],
            module_functions = []\<rparr>
     else Inl ImportError)\<rparr>"

definition process_events :: event_conf where
  "process_events = \<lparr>ec_agent = process_conf, tmpDir = ''/tmp'', can_open = (\<lambda>p n. True)\<rparr>"

definition process_id :: "(string \<times> jlit) list" where
  "process_id = [(''entity_type'', JText ''CIM_Process''), (''Handle'', JInt 5)]"

definition process_attrs5 :: "(string \<times> attr_val) list" where
  "process_attrs5 = [(''Handle'', ALit (JInt 5))]"

definition process_state :: "(string \<times> attr_val) list \<Rightarrow> event list \<Rightarrow> updates" where
  "process_state attrs es = \<lparr>cim_objects = [(''P'', \<lparr>cim_class = ''CIM_Process'', cim_attrs = attrs\<rparr>)],
     G_httpClient = HttpTriplesClient_init\<lparr>m_listTriples := es\<rparr>\<rparr>"

definition handle_event :: event where
  "handle_event = update_event process_id ''Handle'' (JLit (JInt 5))"

definition name_event :: event where
  "name_event = update_event process_id ''Name'' (JLit (JText ''bash''))"

lemma process_handle_set: "py_setattr (Some ''http://agent'') ''P'' ''Handle'' (ALit (JInt 5)) (process_state [] []) =
    (Inr (), process_state process_attrs5 [handle_event])"
  by (simp add: py_setattr_def get_object_def bnd_run process_state_def process_attrs5_def handle_event_def
      IsCIM_def SendUpdateToServer_def GetMonikerSurvol_run moniker_of_def object_moniker_def m_Ontology_def
      object_key_def attr_json_def HttpUpdateRequest_run AddDataToSend_def may_send_def append_triple_def
      HttpTriplesClient_init_def process_id_def jlit_eq_def jlit_num_def startswith_def)

lemma process_name_set: "py_setattr (Some ''http://agent'') ''P'' ''Name'' (ALit (JText ''bash''))
      (process_state process_attrs5 [handle_event]) =
    (Inr (), process_state (process_attrs5 @ [(''Name'', ALit (JText ''bash''))]) [handle_event, name_event])"
  by (simp add: py_setattr_def get_object_def bnd_run process_state_def process_attrs5_def name_event_def
      IsCIM_def SendUpdateToServer_def GetMonikerSurvol_run moniker_of_def object_moniker_def m_Ontology_def
      object_key_def attr_json_def HttpUpdateRequest_run AddDataToSend_def may_send_def append_triple_def
      HttpTriplesClient_init_def process_id_def jlit_eq_def jlit_num_def startswith_def)

definition named_process :: updates where
  "named_process = process_state (process_attrs5 @ [(''Name'', ALit (JText ''bash''))]) [handle_event, name_event]"

lemma process_run: "dockit_run ''http://agent'' named_process"
proof -
  have "dockit_run ''http://agent'' (process_state [] [])"
    using dockit_run.create [OF dockit_run.start, where p = "''P''" and cls = "''CIM_Process''" and u = "''http://agent''"]
    by (simp add: m_Ontology_def process_state_def HttpTriplesClient_init_def)
  then have "dockit_run ''http://agent'' (process_state process_attrs5 [handle_event])"
    by (rule dockit_run.set_key [OF _ _ _ process_handle_set]) (auto simp: process_state_def moniker_of_def)
  moreover have "map_of (cim_objects (process_state process_attrs5 [handle_event])) ''P'' =
      Some \<lparr>cim_class = ''CIM_Process'', cim_attrs = process_attrs5\<rparr>"
    by (simp add: process_state_def)
  ultimately show ?thesis unfolding named_process_def
    by (rule dockit_run.set_other [OF _ _ _ process_name_set]) (simp add: m_Ontology_def)
qed

lemma process_class: "class_values process_events ''CIM_Process'' process_id =
    Inr [(\<lparr>key_name = ''Handle'', ValueEncode = None, ValueDecode = None\<rparr>, JInt 5)]"
  by (simp add: class_values_def ontology_answer_def module_answer_def GetEntityModuleNoCache_def
      GetEntityModuleNoCacheNoCatch_def process_events_def process_conf_def process_id_def values_of_def Let_def)

lemma process_init: "lib_util_init (ec_agent process_events) = Inr sample_agent"
  by (simp add: process_events_def process_conf_def lib_util_init_def sample_conf_def sample_agent_def UriRootHelper_def
      HttpPrefix_def HostName_def TopScriptsFunc_def GlobalGetHostByName_def Let_def py_find_def endswith_def
      to_lower_def py_upto_def clip_def)


subsection \<open>Defects\<close>

text \<open>
  An attribute that is a dictionary, such as \<^verbatim>\<open>EnvironmentVariables\<close>, is taken by the agent for the
  moniker of an object. It has no class, so that the event cannot be read: with \<open>bad_line_repeats\<close> the file
  of the process is never emptied again.
\<close>

lemma dictionary_unreadable: "map_of d ''entity_type'' = None \<Longrightarrow> \<not> readable c root (update_event m a (JObj d))"
  by (simp add: readable_def triple_of_def update_event_def object_of_def url_of_def moniker_class_def
      split: sum.split)

text \<open>A request that fails loses its triples: they were taken out of the list before it.\<close>

lemma failed_request_loses:
  "client_live c \<Longrightarrow> m_listTriples c \<noteq> [] \<Longrightarrow>
   on_the_way (run_once NotReceived c) = concat (m_posted c) \<and> \<not> m_valid (run_once NotReceived c)"
  by (simp add: run_once_def take_triples_def post_triples_def on_the_way_def client_live_def)

end
