(* ===== verification/Base64.thy ===== *)
theory Base64
  imports PyRegex
begin

text \<open>
  The encoding of the URLs that are parameters of other URLs, \<^verbatim>\<open>Base64Encode\<close> and \<^verbatim>\<open>Base64Decode\<close> of
  \<^verbatim>\<open>survol/lib_util.py\<close>, with the functions of the module \<^verbatim>\<open>base64\<close> of Python 2 that they use. A text is a
  list of bytes.
\<close>

subsection \<open>The module base64\<close>

definition b64_char :: "nat \<Rightarrow> char" where
  "b64_char n =
     (if n < 26 then char_of (n + 65)
      else if n < 52 then char_of (n + 71)
      else if n < 62 then char_of (n - 4)
      else if n = 62 then CHR ''-'' else CHR ''_'')"

fun urlsafe_b64encode :: "string \<Rightarrow> string" where
  "urlsafe_b64encode [] = []"
| "urlsafe_b64encode [a] =
     [b64_char (of_char a div 4), b64_char (of_char a mod 4 * 16), CHR ''='', CHR ''='']"
| "urlsafe_b64encode [a, b] =
     [b64_char (of_char a div 4), b64_char (of_char a mod 4 * 16 + of_char b div 16),
      b64_char (of_char b mod 16 * 4), CHR ''='']"
| "urlsafe_b64encode (a # b # c # s) =
     [b64_char (of_char a div 4), b64_char (of_char a mod 4 * 16 + of_char b div 16),
      b64_char (of_char b mod 16 * 4 + of_char c div 64), b64_char (of_char c mod 64)] @ urlsafe_b64encode s"

text \<open>The value of a character; those of the standard alphabet are also read.\<close>

definition b64_val :: "char \<Rightarrow> nat option" where
  "b64_val ch =
     (let n = of_char ch :: nat in
        if 65 \<le> n \<and> n \<le> 90 then Some (n - 65)
        else if 97 \<le> n \<and> n \<le> 122 then Some (n - 71)
        else if 48 \<le> n \<and> n \<le> 57 then Some (n + 4)
        else if ch = CHR ''-'' \<or> ch = CHR ''+'' then Some 62
        else if ch = CHR ''_'' \<or> ch = CHR ''/'' then Some 63
        else None)"

text \<open>
  The decoder takes six bits after the other: the number of characters modulo four, the bits that wait
  and how many they are. Other characters are skipped. A pad ends the text when it stands in the third
  place before another pad, or in the fourth; at the end no bit may wait.
\<close>

definition next_is_pad :: "string \<Rightarrow> bool" where
  "next_is_pad s =
     (case filter (\<lambda>ch. ch = CHR ''='' \<or> b64_val ch \<noteq> None) s of [] \<Rightarrow> False | ch # _ \<Rightarrow> ch = CHR ''='')"

fun a2b_base64 :: "string \<Rightarrow> nat \<Rightarrow> nat \<Rightarrow> nat \<Rightarrow> string option" where
  "a2b_base64 [] quad_pos leftchar leftbits = (if leftbits = 0 then Some [] else None)"
| "a2b_base64 (ch # s) quad_pos leftchar leftbits =
     (if ch = CHR ''='' then
        if quad_pos < 2 \<or> (quad_pos = 2 \<and> \<not> next_is_pad s) then a2b_base64 s quad_pos leftchar leftbits
        else Some []
      else case b64_val ch of
        None \<Rightarrow> a2b_base64 s quad_pos leftchar leftbits
      | Some v \<Rightarrow>
          (let bits = leftbits + 6; left = leftchar * 64 + v; pos = (quad_pos + 1) mod 4
           in if 8 \<le> bits
              then map_option ((#) (char_of (left div 2 ^ (bits - 8))))
                     (a2b_base64 s pos (left mod 2 ^ (bits - 8)) (bits - 8))
              else a2b_base64 s pos left bits))"

subsection \<open>The functions of lib_util\<close>

definition Base64Encode :: "string \<Rightarrow> string" where
  "Base64Encode txt = urlsafe_b64encode txt"

definition Base64Decode :: "string \<Rightarrow> string" where
  "Base64Decode txt =
     (let missing_padding = length txt mod 4;
          padded = (if missing_padding \<noteq> 0 then txt @ replicate (4 - missing_padding) (CHR ''='') else txt)
      in case a2b_base64 padded 0 0 0 of
           Some resu \<Rightarrow> resu
         | None \<Rightarrow> padded @ '':'' @ ''Incorrect padding'')"

subsection \<open>Round trip\<close>

lemma of_char_char_of: "(of_char (char_of (n::nat) :: char) :: nat) = n mod 256"
  by simp

lemma b64_val_char: "n < 64 \<Longrightarrow> b64_val (b64_char n) = Some n"
  by (auto simp: b64_char_def b64_val_def Let_def)

lemma b64_char_not_pad: "n < 64 \<Longrightarrow> b64_char n \<noteq> CHR ''=''"
proof
  assume n: "n < 64" "b64_char n = CHR ''=''"
  have "b64_val (CHR ''='') = None" by (simp add: b64_val_def)
  with b64_val_char [OF n(1)] n(2) show False by simp
qed

lemma of_char_less: "(of_char (a::char) :: nat) < 256"
  by (rule nat_of_char_less_256)

lemma take_char:
  "n < 64 \<Longrightarrow> a2b_base64 (b64_char n # s) q l b =
     (if 8 \<le> b + 6
      then map_option ((#) (char_of ((l * 64 + n) div 2 ^ (b - 2))))
        (a2b_base64 s ((q + 1) mod 4) ((l * 64 + n) mod 2 ^ (b - 2)) (b - 2))
      else a2b_base64 s ((q + 1) mod 4) (l * 64 + n) (b + 6))"
  using b64_val_char [of n] b64_char_not_pad [of n] by (simp add: Let_def)

lemma quad_arith:
  assumes "a < 256" "b < 256" "c < (256::nat)"
  shows "a div 4 < 64" "a mod 4 * 16 + b div 16 < 64" "b mod 16 * 4 + c div 64 < 64" "c mod 64 < 64"
    "(a div 4 * 64 + (a mod 4 * 16 + b div 16)) div 16 = a"
    "(a div 4 * 64 + (a mod 4 * 16 + b div 16)) mod 16 = b div 16"
    "(b div 16 * 64 + (b mod 16 * 4 + c div 64)) div 4 = b"
    "(b div 16 * 64 + (b mod 16 * 4 + c div 64)) mod 4 = c div 64"
    "c div 64 * 64 + c mod 64 = c"
proof -
  show "a div 4 < 64" "c mod 64 < 64" using assms by (simp_all add: less_mult_imp_div_less)
  have b: "b div 16 < 16" and c: "c div 64 < 4" using assms by (simp_all add: less_mult_imp_div_less)
  then show "a mod 4 * 16 + b div 16 < 64" "b mod 16 * 4 + c div 64 < 64"
    using mod_less_divisor [of 4 a] mod_less_divisor [of 16 b] by linarith+
  have 1: "a div 4 * 64 + (a mod 4 * 16 + b div 16) = a * 16 + b div 16"
    using div_mult_mod_eq [of a 4] by linarith
  show "(a div 4 * 64 + (a mod 4 * 16 + b div 16)) div 16 = a"
    "(a div 4 * 64 + (a mod 4 * 16 + b div 16)) mod 16 = b div 16"
    unfolding 1 using b by simp_all
  have 2: "b div 16 * 64 + (b mod 16 * 4 + c div 64) = b * 4 + c div 64"
    using div_mult_mod_eq [of b 16] by linarith
  show "(b div 16 * 64 + (b mod 16 * 4 + c div 64)) div 4 = b"
    "(b div 16 * 64 + (b mod 16 * 4 + c div 64)) mod 4 = c div 64"
    unfolding 2 using c by simp_all
  show "c div 64 * 64 + c mod 64 = c" by simp
qed

lemma decode_encode: "a2b_base64 (urlsafe_b64encode s) 0 0 0 = Some s"
proof (induction s rule: urlsafe_b64encode.induct)
  case (2 a)
  note q = quad_arith [OF of_char_less [of a] _ _, of 0 0]
  show ?case using q by (simp add: take_char del: a2b_base64.simps(2)) (simp add: next_is_pad_def)
next
  case (3 a b)
  note q = quad_arith [OF of_char_less [of a] of_char_less [of b], of 0]
  show ?case using q by (simp add: take_char del: a2b_base64.simps(2)) (simp add: next_is_pad_def)
next
  case (4 a b c s)
  note q = quad_arith [OF of_char_less [of a] of_char_less [of b] of_char_less [of c]]
  show ?case using q 4 by (simp add: take_char del: a2b_base64.simps(2))
qed simp

abbreviation no_pad :: "char \<Rightarrow> bool" where
  "no_pad ch \<equiv> ch \<noteq> CHR ''=''"

lemma b64_char_safe: "n < 64 \<Longrightarrow> word_char (b64_char n) \<or> b64_char n = CHR ''-''"
  by (auto simp: b64_char_def word_char_def Let_def)

lemma quad_safe:
  fixes a b c :: char
  defines "n1 \<equiv> of_char a div 4" and "n2 \<equiv> of_char a mod 4 * 16 + of_char b div 16"
    and "n3 \<equiv> of_char b mod 16 * 4 + of_char c div 64" and "n4 \<equiv> of_char c mod 64"
  shows "list_all (\<lambda>n. (word_char (b64_char n) \<or> b64_char n = CHR ''-'') \<and> no_pad (b64_char n)) [n1, n2, n3, n4]"
  using quad_arith(1-4) [OF of_char_less [of a] of_char_less [of b] of_char_less [of c]] b64_char_safe b64_char_not_pad
  by (simp add: n1_def n2_def n3_def n4_def)

text \<open>The cases of one and of two bytes are those with null bytes after them.\<close>

lemma null_div: "(of_char (CHR 0x00) :: nat) div n = 0"
  by simp

lemma encoded:
  "length (urlsafe_b64encode s) mod 4 = 0 \<and>
   set (urlsafe_b64encode s) \<subseteq> {ch. word_char ch \<or> ch = CHR ''-'' \<or> ch = CHR ''=''} \<and>
   (\<exists>n. n = length (filter no_pad (urlsafe_b64encode s)) mod 4 \<and>
     urlsafe_b64encode s = filter no_pad (urlsafe_b64encode s) @ (if n = 0 then [] else replicate (4 - n) (CHR ''='')))"
proof (induction s rule: urlsafe_b64encode.induct)
  case (2 a)
  show ?case using quad_safe [of a "CHR 0x00" "CHR 0x00"] by (simp add: numeral_2_eq_2)
next
  case (3 a b)
  show ?case using quad_safe [of a b "CHR 0x00"] by simp
next
  case (4 a b c s)
  then show ?case using quad_safe [of a b c] by simp
qed simp

text \<open>
  \<^verbatim>\<open>Base64Decode\<close> reads back every text that \<^verbatim>\<open>Base64Encode\<close> wrote, also when the pads at its end were
  lost, as in a URL; and an encoded text has only letters, digits, the dash, the underscore and pads, so that it
  can be a parameter of a URL as it is.
\<close>

theorem base64_roundtrip:
  "Base64Decode (Base64Encode txt) = txt \<and>
   Base64Decode (filter no_pad (Base64Encode txt)) = txt \<and>
   set (Base64Encode txt) \<subseteq> {ch. word_char ch \<or> ch = CHR ''-'' \<or> ch = CHR ''=''}"
proof -
  let ?e = "urlsafe_b64encode txt"
  define f where "f = filter no_pad ?e"
  obtain n where "n = length f mod 4" "?e = f @ (if n = 0 then [] else replicate (4 - n) (CHR ''=''))"
    using encoded [of "txt"] unfolding f_def by blast
  with decode_encode [of "txt"] have "Base64Decode f = txt"
    by (cases "n = 0") (simp_all add: Base64Decode_def Let_def)
  moreover have "Base64Decode ?e = txt" using encoded [of "txt"] decode_encode by (simp add: Base64Decode_def)
  ultimately show ?thesis using decode_encode encoded [of "txt"] by (simp add: Base64Encode_def f_def)
qed

end
