(* ===== verification/Credentials.thy ===== *)
theory Credentials
  imports AgentUrl
begin

text \<open>
  The passwords of the agent, from \<^verbatim>\<open>survol/lib_credentials.py\<close>: a dictionary of dictionaries, by type and
  by name, that is kept in a file as JSON and in memory. A file holds the document that
  \<^verbatim>\<open>json.load\<close> would give; one that is missing or is no such document is not in the list of the files.
  The model is one of ASCII texts: Python 2 reads them back as \<^verbatim>\<open>unicode\<close> objects, which are equal to the texts
  that were written, also as keys. A text with other characters is read back as another key, and \<^verbatim>\<open>json.dump\<close>
  raises on one that is no UTF-8; both are left out.
\<close>

type_synonym cred_names = "(string \<times> string \<times> string) list"
type_synonym cred_doc = "(string \<times> cred_names) list"

record cred_conf =
  cred_environ :: "(string \<times> string) list"
  gblTopScripts :: string
  writable :: "string \<Rightarrow> bool"

record cred_state =
  credentials :: "cred_doc option"
  cred_files :: "(string \<times> cred_doc) list"

subsection \<open>The document\<close>

definition CredFilNam :: "cred_conf \<Rightarrow> string" where
  "CredFilNam c =
     (let filNamOnly = ''SurvolCredentials.json''
      in case map_of (cred_environ c) ''HOME'' of
           Some h \<Rightarrow> h @ ''/'' @ filNamOnly
         | None \<Rightarrow>
             (case map_of (cred_environ c) ''HOMEPATH'' of
                Some h \<Rightarrow> h @ [CHR 0x5C] @ filNamOnly
              | None \<Rightarrow> gblTopScripts c @ ''/../../'' @ filNamOnly))"

definition BuildCredDocument :: "cred_conf \<Rightarrow> (cred_state, cred_doc) py" where
  "BuildCredDocument c =
     bnd (gets cred_files) (\<lambda>fs. ret (case map_of fs (CredFilNam c) of None \<Rightarrow> [] | Some d \<Rightarrow> d))"

text \<open>An empty document is built again at each call.\<close>

definition CredDocument :: "cred_conf \<Rightarrow> (cred_state, cred_doc) py" where
  "CredDocument c =
     bnd (gets credentials) (\<lambda>m.
       case m of
         Some (e # d) \<Rightarrow> ret (e # d)
       | _ \<Rightarrow> bnd (BuildCredDocument c) (\<lambda>d. andthen (modify (\<lambda>s. s\<lparr>credentials := Some d\<rparr>)) (ret d)))"

definition py_upper :: "string \<Rightarrow> string" where
  "py_upper s = map to_upper s"

definition upper_names :: "cred_names \<Rightarrow> cred_names" where
  "upper_names arrType = foldl (\<lambda>d kv. AList.update (py_upper (fst kv)) (snd kv) d) [] arrType"

text \<open>None is returned for an unknown type, and a pair of empty texts for an unknown name.\<close>

definition GetCredentials :: "cred_conf \<Rightarrow> string \<Rightarrow> string option \<Rightarrow> (cred_state, (string \<times> string) option) py" where
  "GetCredentials c credType credName0 =
     (let credName = (case credName0 of None \<Rightarrow> [] | Some n \<Rightarrow> n)
      in bnd (CredDocument c) (\<lambda>doc.
           if doc = [] then ret (Some ([], []))
           else case map_of doc credType of
             None \<Rightarrow> ret None
           | Some arrType \<Rightarrow>
               (case map_of arrType credName of
                  Some cred \<Rightarrow> ret (Some cred)
                | None \<Rightarrow>
                    (case map_of (upper_names arrType) (py_upper credName) of
                       Some cred \<Rightarrow> ret (Some cred)
                     | None \<Rightarrow> ret (Some ([], []))))))"

definition GetCredentialsNames :: "cred_conf \<Rightarrow> string \<Rightarrow> (cred_state, string list) py" where
  "GetCredentialsNames c credType =
     bnd (CredDocument c) (\<lambda>doc. ret (case map_of doc credType of None \<Rightarrow> [] | Some a \<Rightarrow> map fst a))"

definition GetCredentialsTypes :: "cred_conf \<Rightarrow> (cred_state, string list) py" where
  "GetCredentialsTypes c = bnd (CredDocument c) (\<lambda>doc. ret (map fst doc))"

definition Cred_DumpToFile :: "cred_conf \<Rightarrow> cred_doc \<Rightarrow> (cred_state, unit) py" where
  "Cred_DumpToFile c d =
     (if writable c (CredFilNam c) then modify (\<lambda>s. s\<lparr>cred_files := AList.update (CredFilNam c) d (cred_files s)\<rparr>)
      else raise (PyException ''IOError''))"

text \<open>The dictionary that \<^verbatim>\<open>CredDocument\<close> returned is changed in place.\<close>

definition put_credential :: "string \<Rightarrow> string \<Rightarrow> string \<times> string \<Rightarrow> cred_doc \<Rightarrow> cred_doc" where
  "put_credential credType credName up doc =
     AList.update credType
       (AList.update credName up (case map_of doc credType of None \<Rightarrow> [] | Some a \<Rightarrow> a)) doc"

definition AddCredential :: "cred_conf \<Rightarrow> string \<Rightarrow> string \<Rightarrow> string \<Rightarrow> string \<Rightarrow> (cred_state, unit) py" where
  "AddCredential c credType credName credUsr credPwd =
     bnd (CredDocument c) (\<lambda>doc.
       let d = put_credential credType credName (credUsr, credPwd) doc
       in andthen (modify (\<lambda>s. s\<lparr>credentials := Some d\<rparr>)) (Cred_DumpToFile c d))"

text \<open>The document in memory is left as it was.\<close>

definition UpdatesCredentials :: "cred_conf \<Rightarrow> cred_doc \<Rightarrow> (cred_state, unit) py" where
  "UpdatesCredentials c credMapOut = Cred_DumpToFile c credMapOut"

definition KeyUrlCgiEncode :: "string \<Rightarrow> string" where
  "KeyUrlCgiEncode aKeyUrl =
     py_replace (py_replace aKeyUrl ''http://'' ''http:%2F%2F'') ''https://'' ''https:%2F%2F''"

subsection \<open>What was added is found\<close>

text \<open>The answer for a document: the exact name first, then the name without regard to the case.\<close>

definition credential_of :: "cred_doc \<Rightarrow> string \<Rightarrow> string \<Rightarrow> (string \<times> string) option" where
  "credential_of doc t n =
     (if doc = [] then Some ([], [])
      else case map_of doc t of
        None \<Rightarrow> None
      | Some a \<Rightarrow>
          (case map_of a n of
             Some cred \<Rightarrow> Some cred
           | None \<Rightarrow>
               (case map_of (rev (map (\<lambda>kv. (py_upper (fst kv), snd kv)) a)) (py_upper n) of
                  Some cred \<Rightarrow> Some cred
                | None \<Rightarrow> Some ([], []))))"

lemma foldl_update_map: "map_of (foldl (\<lambda>d kv. AList.update (f kv) (snd kv) d) d0 a) k =
    (case map_of (rev (map (\<lambda>kv. (f kv, snd kv)) a)) k of None \<Rightarrow> map_of d0 k | Some v \<Rightarrow> Some v)"
  by (induction a arbitrary: d0) (auto simp: map_add_def split: option.splits)

lemma upper_names_map: "map_of (upper_names a) k = map_of (rev (map (\<lambda>kv. (py_upper (fst kv), snd kv)) a)) k"
  by (simp add: upper_names_def foldl_update_map split: option.split)

lemma GetCredentials_run:
  "fst (CredDocument c s) = Inr doc \<Longrightarrow>
   fst (GetCredentials c t (Some n) s) = Inr (credential_of doc t n)"
  by (cases "CredDocument c s")
    (auto simp: GetCredentials_def credential_of_def upper_names_map bnd_run split: option.split)

lemma put_credential_not_Nil [simp]: "put_credential t n up doc \<noteq> []"
proof
  assume "put_credential t n up doc = []"
  then have "map_of (put_credential t n up doc) t = None" by simp
  then show False by (simp add: put_credential_def)
qed

lemma credential_put:
  "credential_of (put_credential t n up doc) t n = Some up"
  "(t', n') \<noteq> (t, n) \<Longrightarrow> map_of doc t' = Some a \<Longrightarrow> map_of a n' = Some v \<Longrightarrow>
   credential_of (put_credential t n up doc) t' n' = Some v"
  by (auto simp: credential_of_def) (auto simp: put_credential_def)

definition restarted :: "cred_state \<Rightarrow> cred_state" where
  "restarted s = s\<lparr>credentials := None\<rparr>"

text \<open>
  C37. A password that \<^verbatim>\<open>AddCredential\<close> stored is found by \<^verbatim>\<open>GetCredentials\<close> with its type and name, in the
  same process and in one that starts later and reads the file, and the passwords stored before under
  other names are still found, when the file can be written and the document before it can be read. The
  texts are ASCII.
\<close>

theorem credentials_stored:
  assumes "writable c (CredFilNam c)" "fst (CredDocument c s) = Inr doc"
  shows "\<exists>s'. AddCredential c t n usr pwd s = (Inr (), s') \<and>
    (\<forall>s'' \<in> {s', restarted s'}.
       fst (GetCredentials c t (Some n) s'') = Inr (Some (usr, pwd)) \<and>
       (\<forall>t' a n' v. map_of doc t' = Some a \<longrightarrow> map_of a n' = Some v \<longrightarrow> (t', n') \<noteq> (t, n) \<longrightarrow>
          fst (GetCredentials c t' (Some n') s'') = Inr (Some v)))"
proof -
  obtain s1 where 1: "CredDocument c s = (Inr doc, s1)" using assms(2) by (cases "CredDocument c s") auto
  let ?d = "put_credential t n (usr, pwd) doc"
  let ?s = "s1\<lparr>credentials := Some ?d, cred_files := AList.update (CredFilNam c) ?d (cred_files s1)\<rparr>"
  have add: "AddCredential c t n usr pwd s = (Inr (), ?s)"
    using 1 assms(1) by (simp add: AddCredential_def bnd_run andthen_run Cred_DumpToFile_def Let_def)
  have "fst (CredDocument c s'') = Inr ?d" if "s'' \<in> {?s, restarted ?s}" for s''
    using that put_credential_not_Nil [of t n "(usr, pwd)" doc]
    by (cases ?d) (auto simp: CredDocument_def BuildCredDocument_def restarted_def bnd_run andthen_run)
  then have "fst (GetCredentials c t' (Some n') s'') = Inr (credential_of ?d t' n')"
    if "s'' \<in> {?s, restarted ?s}" for s'' t' n'
    using GetCredentials_run that by blast
  with add credential_put show ?thesis by (intro exI [of _ ?s]) auto
qed

definition sample_creds :: cred_conf where
  "sample_creds = \<lparr>cred_environ = [(''HOME'', ''/root'')], gblTopScripts = [], writable = (\<lambda>_. True)\<rparr>"

lemma credentials_stored_witness:
  "\<exists>s'. AddCredential sample_creds ''Oracle'' ''XE'' ''scott'' ''tiger'' \<lparr>credentials = None, cred_files = []\<rparr> = (Inr (), s') \<and>
    fst (GetCredentials sample_creds ''Oracle'' (Some ''XE'') (restarted s')) = Inr (Some (''scott'', ''tiger''))"
proof -
  let ?s = "\<lparr>credentials = None, cred_files = []\<rparr>"
  have "writable sample_creds (CredFilNam sample_creds)" by (simp add: sample_creds_def)
  moreover have "fst (CredDocument sample_creds ?s) = Inr []"
    by (simp add: CredDocument_def BuildCredDocument_def bnd_run andthen_run)
  ultimately have "\<exists>s'. AddCredential sample_creds ''Oracle'' ''XE'' ''scott'' ''tiger'' ?s = (Inr (), s') \<and>
      (\<forall>s'' \<in> {s', restarted s'}. fst (GetCredentials sample_creds ''Oracle'' (Some ''XE'') s'') = Inr (Some (''scott'', ''tiger'')))"
    using credentials_stored by meson
  then show ?thesis by blast
qed

subsection \<open>Defects\<close>

text \<open>The passwords that \<^verbatim>\<open>UpdatesCredentials\<close> writes are not seen by the process that wrote them.\<close>

lemma updates_not_seen:
  assumes "credentials s = Some doc" "doc \<noteq> []" "UpdatesCredentials c d s = (Inr (), s')"
  shows "fst (GetCredentials c t (Some n) s') = Inr (credential_of doc t n)"
proof -
  have "credentials s' = Some doc"
    using assms(1,3) by (auto simp: UpdatesCredentials_def Cred_DumpToFile_def split: if_splits)
  then have "fst (CredDocument c s') = Inr doc" using assms(2) by (cases doc) (auto simp: CredDocument_def)
  then show ?thesis by (rule GetCredentials_run)
qed

text \<open>For an unknown type there is no pair to unpack, unless the document is empty.\<close>

lemma unknown_type_is_none: "doc \<noteq> [] \<Longrightarrow> map_of doc t = None \<Longrightarrow> credential_of doc t n = None"
  by (simp add: credential_of_def)

end
