(* ===== verification/Patterns.thy ===== *)
theory Patterns
  imports Ontology
begin

text \<open>
  The graphic parameters of the classes, from \<^verbatim>\<open>survol/lib_patterns.py\<close>: shape, colours, border and corners,
  found in the module of a class or of a package above it, kept in a cache that starts with the known
  classes, and the text by which a node is written for Graphviz.

  \<open>page_state\<close> holds the agent and the caches of the pages; \<open>page_conf\<close> what they ask: the functions of the
  modules, which the agent names by numbers, \<open>natural_sorted\<close>, the function of the module natsort, or
  \<^verbatim>\<open>sorted\<close> without it, and \<open>html_unescape\<close>, the \<^verbatim>\<open>unescape\<close> of the module HTMLParser.
\<close>

datatype gval = GText string | GInt int | GBool bool

fun gval_str :: "gval \<Rightarrow> string" where
  "gval_str (GText s) = s"
| "gval_str (GInt i) = py_str_int i"
| "gval_str (GBool b) = (if b then ''True'' else ''False'')"

fun gval_truth :: "gval \<Rightarrow> bool" where
  "gval_truth (GText s) = (s \<noteq> [])"
| "gval_truth (GInt i) = (i \<noteq> 0)"
| "gval_truth (GBool b) = b"

record page_conf =
  pg_conf :: agent_conf
  call_graphic :: "nat \<Rightarrow> gval pyres"
  call_name :: "nat \<Rightarrow> string list \<Rightarrow> string pyres"
  call_alias :: "nat \<Rightarrow> string list \<Rightarrow> string \<Rightarrow> string \<Rightarrow> string pyres"
  natural_sorted :: "string list \<Rightarrow> string list"
  html_unescape :: "string \<Rightarrow> string"

record page_state =
  pg_agent :: agent
  dictGraphParams :: "(string \<times> gval list) list"
  CacheMap :: "(string \<times> string) list"
  dictTypeToPatterns :: "(string \<times> string list) list"
  dictNodeToUniversalAlias :: "(string \<times> string) list"

definition on_page :: "(agent, 'a) py \<Rightarrow> (page_state, 'a) py" where
  "on_page m = (\<lambda>s. case m (pg_agent s) of (r, a) \<Rightarrow> (r, s\<lparr>pg_agent := a\<rparr>))"

definition graph_params :: "string \<Rightarrow> string \<Rightarrow> string \<Rightarrow> int \<Rightarrow> bool \<Rightarrow> gval list" where
  "graph_params shape colorfill colorbg border is_rounded =
     [GText shape, GText colorfill, GText colorbg, GInt border, GBool is_rounded]"

definition known_params :: "(string \<times> gval list) list" where
  "known_params =
     [(''addr'', graph_params ''rarrow'' ''#FFFF99'' ''#FFFF99'' 0 False),
      (''CIM_Process'', graph_params ''component'' ''#99FF88'' ''#99FF88'' 0 False),
      (''CIM_Directory'', graph_params ''folder'' ''#8899FF'' ''#8899FF'' 0 False),
      (''CIM_DataFile'', graph_params ''note'' ''#88BBFF'' ''#88BBFF'' 0 False),
      (''group'', graph_params ''plain'' ''#88BBFF'' ''#88BBFF'' 0 False),
      (''CIM_ComputerSystem'', graph_params ''signature'' ''#CCFFCC'' ''#CCFFCC'' 0 False),
      (''memmap'', graph_params ''tab'' ''#CCFFCC'' ''#CCFFCC'' 0 False),
      (''CIM_LogicalDisk'', graph_params ''box3d'' ''#FFCCFF'' ''#FFCC66'' 0 False),
      (''smbfile'', graph_params ''tab'' ''#99CCFF'' ''#FFCC66'' 0 True),
      (''smbserver'', graph_params ''tab'' ''#99CCFF'' ''#FFCC66'' 0 True),
      (''smbshr'', graph_params ''tab'' ''#99CCFF'' ''#FFCC66'' 0 True),
      (''linker_symbol'', graph_params ''none'' ''#99FFCC'' ''#FFCC66'' 0 False),
      (''user'', graph_params ''octagon'' ''#EEAAAA'' ''#FFCC66'' 0 False),
      (''Win32_Service'', graph_params ''component'' ''#EEAAAA'' ''#FFCC66'' 0 False),
      (''Win32_UserAccount'', graph_params ''octagon'' ''#EEAAAA'' ''#FFCC66'' 0 True)]"

definition dfltGraphParams :: "gval list" where
  "dfltGraphParams = graph_params ''none'' ''#FFFFFF'' ''#99BB88'' 1 False"

definition vecGraphFunctions :: "string list" where
  "vecGraphFunctions =
     [''Graphic_shape'', ''Graphic_colorfill'', ''Graphic_colorbg'', ''Graphic_border'', ''Graphic_is_rounded'']"

definition page_start :: "agent \<Rightarrow> page_state" where
  "page_start a = \<lparr>pg_agent = a, dictGraphParams = known_params, CacheMap = [], dictTypeToPatterns = [],
     dictNodeToUniversalAlias = []\<rparr>"

subsection \<open>The parameters of a class\<close>

definition graph_param :: "page_conf \<Rightarrow> string \<Rightarrow> string \<times> gval \<Rightarrow> (page_state, gval) py" where
  "graph_param c typeWithoutNS gd =
     bnd (on_page (HierarchicalFunctionSearchNoCache (pg_conf c) typeWithoutNS (fst gd))) (\<lambda>grphFunc.
       case grphFunc of None \<Rightarrow> ret (snd gd) | Some f \<Rightarrow> of_res (call_graphic c f))"

definition TypeToGraphParamsNoCache :: "page_conf \<Rightarrow> string \<Rightarrow> (page_state, gval list) py" where
  "TypeToGraphParamsNoCache c typeWithoutNS =
     for_each (zip vecGraphFunctions dfltGraphParams) (graph_param c typeWithoutNS)"

definition cached_params :: "page_conf \<Rightarrow> string \<Rightarrow> (page_state, gval list) py" where
  "cached_params c t =
     bnd (gets dictGraphParams) (\<lambda>dict.
       case map_of dict t of
         Some vecGraph \<Rightarrow> ret vecGraph
       | None \<Rightarrow>
           bnd (TypeToGraphParamsNoCache c t) (\<lambda>vecGraph.
             andthen (modify (\<lambda>s. s\<lparr>dictGraphParams := AList.update t vecGraph (dictGraphParams s)\<rparr>))
               (ret vecGraph)))"

definition TypeToGraphParams :: "page_conf \<Rightarrow> string \<Rightarrow> (page_state, gval list) py" where
  "TypeToGraphParams c typeWithoutNS =
     (if 0 \<le> py_find typeWithoutNS ''.'' then raise TypeError
      else cached_params c (py_replace typeWithoutNS ''/'' ''.''))"

definition EntityClassToColor :: "page_conf \<Rightarrow> string \<Rightarrow> (page_state, gval) py" where
  "EntityClassToColor c subEntityGraphicClass =
     (if subEntityGraphicClass \<noteq> []
      then bnd (TypeToGraphParams c subEntityGraphicClass) (\<lambda>arrAttrs. of_opt IndexError (py_nth arrAttrs 1))
      else ret (GText ''#FFFFFF''))"

subsection \<open>Lighter colours\<close>

definition hex_digits :: string where
  "hex_digits = ''0123456789ABCDEF''"

definition Lighter :: "char \<Rightarrow> char pyres" where
  "Lighter X =
     (case hex_val X of
        None \<Rightarrow> Inl ValueError
      | Some d \<Rightarrow> Inr (hex_digits ! (if d < 13 then d + 2 else if d = 14 then 15 else d)))"

text \<open>The colour is indexed up to 6: a shorter text is an IndexError.\<close>

definition ColorLighterNocache :: "string \<Rightarrow> string pyres" where
  "ColorLighterNocache objColor =
     (if length objColor < 7 then
        (if list_all (\<lambda>i. i < length objColor \<longrightarrow> hex_val (objColor ! i) \<noteq> None) [1, 3, 5]
         then Inl IndexError else Inl ValueError)
      else case (Lighter (objColor ! 1), Lighter (objColor ! 3), Lighter (objColor ! 5)) of
        (Inr r, Inr g, Inr b) \<Rightarrow> Inr [CHR ''#'', r, objColor ! 2, g, objColor ! 4, b, objColor ! 6]
      | _ \<Rightarrow> Inl ValueError)"

definition ColorLighter :: "string \<Rightarrow> (page_state, string) py" where
  "ColorLighter objColor =
     bnd (gets CacheMap) (\<lambda>cache.
       case map_of cache objColor of
         Some lig \<Rightarrow> ret lig
       | None \<Rightarrow>
           bnd (of_res (ColorLighterNocache objColor)) (\<lambda>lig.
             andthen (modify (\<lambda>s. s\<lparr>CacheMap := AList.update objColor lig (CacheMap s)\<rparr>)) (ret lig)))"

subsection \<open>The text of a node\<close>

definition pattern_text :: "gval list \<Rightarrow> bool \<Rightarrow> string pyres" where
  "pattern_text tp withUri =
     (case tp of
        GText shape # GText colorfill # GText colorbg # border # is_rounded # _ \<Rightarrow>
          (let style = (if gval_truth is_rounded then ''style=\"rounded,filled\"'' else ''style=\"filled\"'')
           in Inr (''%s [ shape='' @ shape @ '', tooltip=\"%s\", '' @ style @ '' fillcolor=\"'' @ colorfill @
                 ''\" color=%s label=< <table color=\"'' @ ''#000000'' @ ''\"'' @
                 '' cellborder='' @ [CHR 0x27] @ ''0'' @ [CHR 0x27] @ '' cellspacing='' @ [CHR 0x27] @ ''0'' @ [CHR 0x27] @
                 '' border='' @ [CHR 0x27] @ gval_str border @ [CHR 0x27] @ ''><tr>'' @
                 (if withUri then ''<td href=\"%s\" bgcolor=\"'' else ''<td bgcolor=\"'') @ colorbg @
                 ''\" colspan=\"%d\">%s</td></tr>''))
      | _ \<Rightarrow> (if length tp < 5 then Inl IndexError else Inl TypeError))"

definition BuildPatternNode :: "gval list \<Rightarrow> string list pyres" where
  "BuildPatternNode tp =
     (case pattern_text tp True of
        Inl e \<Rightarrow> Inl e
      | Inr u \<Rightarrow> (case pattern_text tp False of Inl e \<Rightarrow> Inl e | Inr n \<Rightarrow> Inr [u, n]))"

definition PatternNode :: "page_conf \<Rightarrow> string \<Rightarrow> (page_state, string list) py" where
  "PatternNode c typeFull =
     bnd (gets dictTypeToPatterns) (\<lambda>dict.
       case map_of dict typeFull of
         Some p \<Rightarrow> ret p
       | None \<Rightarrow>
           bnd (TypeToGraphParams c (last (py_split (CHR '':'') typeFull))) (\<lambda>arrayGraphParams.
           bnd (of_res (BuildPatternNode arrayGraphParams)) (\<lambda>pattArray.
             andthen (modify (\<lambda>s. s\<lparr>dictTypeToPatterns := AList.update typeFull pattArray (dictTypeToPatterns s)\<rparr>))
               (ret pattArray))))"

text \<open>The operator \<^verbatim>\<open>%\<close> of Python for \<^verbatim>\<open>%s\<close> and \<^verbatim>\<open>%d\<close>; the arguments must all be used.\<close>

datatype fmt_arg = FStr string | FInt int

fun fmt_text :: "fmt_arg \<Rightarrow> string" where
  "fmt_text (FStr s) = s"
| "fmt_text (FInt i) = py_str_int i"

fun py_percent :: "string \<Rightarrow> fmt_arg list \<Rightarrow> string pyres" where
  "py_percent [] args = (if args = [] then Inr [] else Inl TypeError)"
| "py_percent [c] args =
     (if c = CHR ''%'' then Inl ValueError else if args = [] then Inr [c] else Inl TypeError)"
| "py_percent (c # d # s) args =
     (if c \<noteq> CHR ''%'' then map_sum id ((#) c) (py_percent (d # s) args)
      else if d = CHR ''%'' then map_sum id ((#) CHR ''%'') (py_percent s args)
      else case args of
        [] \<Rightarrow> Inl TypeError
      | a # as \<Rightarrow>
          if d = CHR ''s'' then map_sum id ((@) (fmt_text a)) (py_percent s as)
          else if d = CHR ''d'' then
            (case a of FInt i \<Rightarrow> map_sum id ((@) (py_str_int i)) (py_percent s as) | FStr _ \<Rightarrow> Inl TypeError)
          else Inl ValueError)"

text \<open>
  What \<^verbatim>\<open>WritePatterned\<close> writes to the stream: the node with its lines in their order. \<open>WritePatterned\<close> takes a
  dictionary of lines by texts and sorts its keys; a dictionary by numbers from 0 on is the list of its lines.
\<close>

definition write_rows ::
    "page_conf \<Rightarrow> string \<Rightarrow> string \<Rightarrow> string \<Rightarrow> string \<Rightarrow> string \<Rightarrow> int \<Rightarrow> string \<Rightarrow> string list
      \<Rightarrow> (page_state, string) py" where
  "write_rows c typ subjNamTab helpText color labHRef numFields labText rows =
     bnd (PatternNode c typ) (\<lambda>pattArray.
     bnd (of_res (if labHRef \<noteq> []
            then py_percent (pattArray ! 0)
                   [FStr subjNamTab, FStr helpText, FStr color, FStr labHRef, FInt numFields, FStr labText]
            else py_percent (pattArray ! 1)
                   [FStr subjNamTab, FStr helpText, FStr color, FInt numFields, FStr labText])) (\<lambda>title.
       ret (title @ concat (map (\<lambda>row. ''<tr>'' @ row @ ''</tr>'') rows) @ ''</table> > ] '' @ [CHR 0x0A])))"

definition WritePatterned ::
    "page_conf \<Rightarrow> string \<Rightarrow> string \<Rightarrow> string \<Rightarrow> string \<Rightarrow> string \<Rightarrow> int \<Rightarrow> string \<Rightarrow> (string \<times> string) list
      \<Rightarrow> (page_state, string) py" where
  "WritePatterned c typ subjNamTab helpText color labHRef numFields labText dictLines =
     write_rows c typ subjNamTab helpText color labHRef numFields labText
       (map (\<lambda>key. the (map_of dictLines key)) (natural_sorted c (map fst dictLines)))"

end
