(* ===== verification/PatternProps.thy ===== *)
theory PatternProps
  imports Patterns AgentTheorems
begin

text \<open>
  The caches of the graphic parameters are memories of the locale \<open>memo\<close>: they change no answer. Then the
  text of a node can always be written when the functions of the modules give values of their types.
\<close>

subsection \<open>The answers without caches\<close>

definition function_answer :: "agent_conf \<Rightarrow> string \<Rightarrow> string \<Rightarrow> nat option pyres" where
  "function_answer c t g = first_function c g (packages_above (py_split (CHR ''.'') t))"

lemma function_run:
  assumes "modules_ok c s"
  shows "\<exists>s'. HierarchicalFunctionSearchNoCache c t g s = (function_answer c t g, s') \<and> modules_ok c s'"
proof -
  let ?xs = "py_split (CHR ''.'') t"
  have "\<forall>x \<in> set ?xs. CHR ''.'' \<notin> set x" using py_split_no_sep by blast
  from hierarchy_answer [OF this order_refl assms, of g] show ?thesis
    unfolding HierarchicalFunctionSearchNoCache_def function_answer_def
    by (metis (no_types, lifting) order_refl prod.collapse py_join_py_split take_all)
qed

fun each_res :: "('a \<Rightarrow> 'b pyres) \<Rightarrow> 'a list \<Rightarrow> 'b list pyres" where
  "each_res f [] = Inr []"
| "each_res f (x # xs) =
     (case f x of Inl e \<Rightarrow> Inl e | Inr y \<Rightarrow> (case each_res f xs of Inl e \<Rightarrow> Inl e | Inr ys \<Rightarrow> Inr (y # ys)))"

definition param_answer :: "page_conf \<Rightarrow> string \<Rightarrow> string \<times> gval \<Rightarrow> gval pyres" where
  "param_answer c t gd =
     (case function_answer (pg_conf c) t (fst gd) of
        Inl e \<Rightarrow> Inl e
      | Inr None \<Rightarrow> Inr (snd gd)
      | Inr (Some f) \<Rightarrow> call_graphic c f)"

definition params_answer :: "page_conf \<Rightarrow> string \<Rightarrow> gval list pyres" where
  "params_answer c t =
     (case map_of known_params t of
        Some v \<Rightarrow> Inr v
      | None \<Rightarrow> each_res (param_answer c t) (zip vecGraphFunctions dfltGraphParams))"

abbreviation page_ok :: "page_conf \<Rightarrow> page_state \<Rightarrow> bool" where
  "page_ok c s \<equiv> modules_ok (pg_conf c) (pg_agent s)"

lemma param_run:
  assumes "page_ok c s"
  shows "\<exists>s'. graph_param c t gd s = (param_answer c t gd, s') \<and> page_ok c s' \<and>
    dictGraphParams s' = dictGraphParams s \<and> dictTypeToPatterns s' = dictTypeToPatterns s"
proof -
  obtain a where "HierarchicalFunctionSearchNoCache (pg_conf c) t (fst gd) (pg_agent s) =
      (function_answer (pg_conf c) t (fst gd), a)" "modules_ok (pg_conf c) a"
    using function_run [OF assms] by blast
  then show ?thesis
    by (auto simp: graph_param_def param_answer_def on_page_def bnd_run split: sum.split option.split)
qed

lemma params_run:
  assumes "page_ok c s"
  shows "\<exists>s'. for_each gds (graph_param c t) s = (each_res (param_answer c t) gds, s') \<and> page_ok c s' \<and>
    dictGraphParams s' = dictGraphParams s \<and> dictTypeToPatterns s' = dictTypeToPatterns s"
  using assms
proof (induction gds arbitrary: s)
  case Nil
  then show ?case by simp
next
  case (Cons gd gds)
  obtain s1 where 1: "graph_param c t gd s = (param_answer c t gd, s1)" "page_ok c s1"
      "dictGraphParams s1 = dictGraphParams s" "dictTypeToPatterns s1 = dictTypeToPatterns s"
    using param_run [OF Cons.prems] by blast
  obtain s2 where 2: "for_each gds (graph_param c t) s1 = (each_res (param_answer c t) gds, s2)" "page_ok c s2"
      "dictGraphParams s2 = dictGraphParams s1" "dictTypeToPatterns s2 = dictTypeToPatterns s1"
    using Cons.IH [OF 1(2)] by blast
  show ?case using 1 2 by (cases "param_answer c t gd") (auto simp: bnd_run split: sum.split)
qed

subsection \<open>The caches\<close>

definition params_lookup :: "page_state \<Rightarrow> string \<Rightarrow> gval list option" where
  "params_lookup s t = map_of (dictGraphParams s) t"

definition params_inv :: "page_conf \<Rightarrow> page_state \<Rightarrow> bool" where
  "params_inv c s \<longleftrightarrow> page_ok c s \<and> (\<forall>t v. map_of known_params t = Some v \<longrightarrow> params_lookup s t = Some v)"

interpretation params: memo params_lookup "params_answer c" "cached_params c" "params_inv c" for c
proof
  fix s k v e
  assume i: "params_inv c s"
  show "params_lookup s k = Some v \<Longrightarrow> cached_params c k s = (Inr v, s)"
    by (simp add: cached_params_def params_lookup_def bnd_run)
  assume n: "params_lookup s k = None"
  then have known: "map_of known_params k = None"
    using i by (cases "map_of known_params k") (auto simp: params_inv_def)
  have "page_ok c s" using i by (simp add: params_inv_def)
  from params_run [OF this, of "zip vecGraphFunctions dfltGraphParams" k] obtain s' where
    s': "TypeToGraphParamsNoCache c k s = (params_answer c k, s')" "page_ok c s'" "dictGraphParams s' = dictGraphParams s"
    by (auto simp: TypeToGraphParamsNoCache_def params_answer_def known)
  show "\<exists>s'. cached_params c k s = (Inr v, s') \<and> params_lookup s' = (params_lookup s)(k \<mapsto> v) \<and> params_inv c s'"
    if "params_answer c k = Inr v"
    using that s' n i known
    by (auto simp: cached_params_def params_lookup_def bnd_run andthen_run params_inv_def fun_eq_iff)
  show "\<exists>s'. cached_params c k s = (Inl e, s') \<and> params_lookup s' = params_lookup s \<and> params_inv c s'"
    if "params_answer c k = Inl e"
    using that s' n i by (auto simp: cached_params_def params_lookup_def bnd_run params_inv_def fun_eq_iff)
qed

definition node_answer :: "page_conf \<Rightarrow> string \<Rightarrow> string list pyres" where
  "node_answer c typeFull =
     (let t = last (py_split (CHR '':'') typeFull)
      in if 0 \<le> py_find t ''.'' then Inl TypeError
         else case params_answer c (py_replace t ''/'' ''.'') of
           Inl e \<Rightarrow> Inl e
         | Inr v \<Rightarrow> BuildPatternNode v)"

definition node_lookup :: "page_state \<Rightarrow> string \<Rightarrow> string list option" where
  "node_lookup s t = map_of (dictTypeToPatterns s) t"

abbreviation params_ok :: "page_conf \<Rightarrow> page_state \<Rightarrow> bool" where
  "params_ok c s \<equiv> params_inv c s \<and> memo_valid params_lookup (params_answer c) s"

lemma cached_params_patterns: "keeps (\<lambda>s. dictTypeToPatterns s = d) (cached_params c t)"
proof -
  have "keeps (\<lambda>s. dictTypeToPatterns s = d) (graph_param c t gd)" for gd
    unfolding graph_param_def on_page_def
    by (intro keeps_rules) (auto simp: keeps_def split: prod.split)
  then show ?thesis unfolding cached_params_def TypeToGraphParamsNoCache_def
    by (intro keeps_rules) (auto simp: keeps_def)
qed

interpretation patterns: memo node_lookup "node_answer c" "PatternNode c" "params_ok c" for c
proof
  fix s k v e
  assume i: "params_ok c s"
  show "node_lookup s k = Some v \<Longrightarrow> PatternNode c k s = (Inr v, s)"
    by (simp add: PatternNode_def node_lookup_def bnd_run)
  assume n: "node_lookup s k = None"
  let ?t = "last (py_split (CHR '':'') k)"
  obtain s1 where 1: "cached_params c (py_replace ?t ''/'' ''.'') s = (params_answer c (py_replace ?t ''/'' ''.''), s1)"
      "params_ok c s1"
    using params.run [OF i, of "py_replace ?t ''/'' ''.''"] by blast
  have d: "dictTypeToPatterns s1 = dictTypeToPatterns s"
    using keepsD [OF cached_params_patterns [of "dictTypeToPatterns s" c "py_replace ?t ''/'' ''.''"], of s] 1(1) by simp
  have ok: "params_ok c (s1\<lparr>dictTypeToPatterns := x\<rparr>)" for x
    using 1(2) by (simp add: params_inv_def params_lookup_def memo_valid_def)
  note run = PatternNode_def node_lookup_def node_answer_def TypeToGraphParams_def bnd_run andthen_run Let_def 1(1)
  show "\<exists>s'. PatternNode c k s = (Inr v, s') \<and> node_lookup s' = (node_lookup s)(k \<mapsto> v) \<and> params_ok c s'"
    if "node_answer c k = Inr v"
    using that n d ok by (auto simp: run fun_eq_iff split: if_splits sum.splits)
  show "\<exists>s'. PatternNode c k s = (Inl e, s') \<and> node_lookup s' = node_lookup s \<and> params_ok c s'"
    if "node_answer c k = Inl e"
    using that n d i 1(2) by (auto simp: run fun_eq_iff split: if_splits sum.splits)
qed

subsection \<open>The text of a node\<close>

lemma percent_plain: "CHR ''%'' \<notin> set p \<Longrightarrow> py_percent (p @ s) args = map_sum id ((@) p) (py_percent s args)"
proof (induction p)
  case Nil
  then show ?case by (cases "py_percent s args") auto
next
  case (Cons c p)
  show ?case
  proof (cases "p @ s")
    case Nil
    with Cons.prems show ?thesis by auto
  next
    case (Cons d r)
    have "py_percent (c # p @ s) args = map_sum id ((#) c) (py_percent (p @ s) args)"
      using Cons Cons.prems by (cases "p @ s") auto
    with Cons.IH Cons.prems show ?thesis by (cases "py_percent s args") auto
  qed
qed

lemma percent_s: "py_percent (''%s'' @ s) (a # args) = map_sum id ((@) (fmt_text a)) (py_percent s args)"
  by simp

lemma percent_d: "py_percent (''%d'' @ s) (FInt i # args) = map_sum id ((@) (py_str_int i)) (py_percent s args)"
  by simp

lemma percent_end: "CHR ''%'' \<notin> set p \<Longrightarrow> py_percent p [] = Inr p"
  using percent_plain [of p "[]" "[]"] by simp

lemma percent_pieces:
  assumes "list_all (\<lambda>q. CHR ''%'' \<notin> set q) [q1, q2, q3, q4, q5, q6]"
  shows "py_percent (''%s'' @ q1 @ ''%s'' @ q2 @ ''%s'' @ q3 @ (if u then ''%s'' else []) @ q4 @ ''%d'' @ q5 @ ''%s'' @ q6)
      ([FStr a1, FStr a2, FStr a3] @ (if u then [FStr a4] else []) @ [FInt i, FStr a5]) =
    Inr (a1 @ q1 @ a2 @ q2 @ a3 @ q3 @ (if u then a4 else []) @ q4 @ py_str_int i @ q5 @ a5 @ q6)"
  using assms by (cases u) (simp_all add: percent_plain percent_end)

text \<open>The pieces of the text between its arguments.\<close>

definition piece_style :: "gval \<Rightarrow> string \<Rightarrow> string" where
  "piece_style r cf = ''\", '' @ (if gval_truth r then ''style=\"rounded,filled\"'' else ''style=\"filled\"'') @
     '' fillcolor=\"'' @ cf @ ''\" color=''"

definition piece_table :: "gval \<Rightarrow> bool \<Rightarrow> string" where
  "piece_table b u = '' label=< <table color=\"#000000\" cellborder='' @ [CHR 0x27] @ ''0'' @ [CHR 0x27] @
     '' cellspacing='' @ [CHR 0x27] @ ''0'' @ [CHR 0x27] @ '' border='' @ [CHR 0x27] @ gval_str b @ [CHR 0x27] @
     ''><tr><td'' @ (if u then '' href=\"'' else [])"

definition piece_color :: "string \<Rightarrow> bool \<Rightarrow> string" where
  "piece_color cb u = (if u then ''\"'' else []) @ '' bgcolor=\"'' @ cb @ ''\" colspan=\"''"

lemma pattern_pieces:
  "pattern_text [GText sh, GText cf, GText cb, b, r] u =
     Inr (''%s'' @ ('' [ shape='' @ sh @ '', tooltip=\"'') @ ''%s'' @ piece_style r cf @ ''%s'' @
       piece_table b u @ (if u then ''%s'' else []) @ piece_color cb u @ ''%d'' @ ''\">'' @ ''%s'' @ ''</td></tr>'')"
  by (simp add: pattern_text_def piece_style_def piece_table_def piece_color_def Let_def)

text \<open>What a node is, written without a format: its name, its parameters, its cells.\<close>

fun node_title :: "gval list \<Rightarrow> string \<Rightarrow> string \<Rightarrow> string \<Rightarrow> string \<Rightarrow> int \<Rightarrow> string \<Rightarrow> string" where
  "node_title [GText shape, GText colorfill, GText colorbg, border, is_rounded] nam hint color href n lab =
     nam @ '' [ shape='' @ shape @ '', tooltip=\"'' @ hint @ piece_style is_rounded colorfill @ color @
     piece_table border (href \<noteq> []) @ href @ piece_color colorbg (href \<noteq> []) @ py_str_int n @ ''\">'' @ lab @ ''</td></tr>''"
| "node_title _ nam hint color href n lab = []"

lemma pattern_written:
  assumes "CHR ''%'' \<notin> set sh" "CHR ''%'' \<notin> set cf" "CHR ''%'' \<notin> set cb" "CHR ''%'' \<notin> set (gval_str b)"
    "pattern_text [GText sh, GText cf, GText cb, b, r] (href \<noteq> []) = Inr p"
  shows "py_percent p ([FStr nam, FStr hint, FStr color] @ (if href \<noteq> [] then [FStr href] else []) @ [FInt n, FStr lab]) =
    Inr (node_title [GText sh, GText cf, GText cb, b, r] nam hint color href n lab)"
proof -
  let ?u = "href \<noteq> []"
  have 1: "CHR ''%'' \<notin> set ('' [ shape='' @ sh @ '', tooltip=\"'')" "CHR ''%'' \<notin> set (piece_style r cf)"
    "CHR ''%'' \<notin> set (piece_table b ?u)" "CHR ''%'' \<notin> set (piece_color cb ?u)"
    "CHR ''%'' \<notin> set ''\">''" "CHR ''%'' \<notin> set ''</td></tr>''"
    using assms(1-4) by (simp_all add: piece_style_def piece_table_def piece_color_def)
  have p: "p = ''%s'' @ ('' [ shape='' @ sh @ '', tooltip=\"'') @ ''%s'' @ piece_style r cf @ ''%s'' @
       piece_table b ?u @ (if ?u then ''%s'' else []) @ piece_color cb ?u @ ''%d'' @ ''\">'' @ ''%s'' @ ''</td></tr>''"
    using assms(5) unfolding pattern_pieces by (simp only: sum.inject)
  have "list_all (\<lambda>q. CHR ''%'' \<notin> set q) ['' [ shape='' @ sh @ '', tooltip=\"'', piece_style r cf, piece_table b ?u,
      piece_color cb ?u, ''\">'', ''</td></tr>'']" using 1 by simp
  note percent_pieces [OF this, of ?u nam hint color href n lab]
  moreover have "(if ?u then href else []) @ s = href @ s" for s by simp
  ultimately show ?thesis unfolding p node_title.simps by (simp only: append.assoc)
qed

subsection \<open>The types of the parameters\<close>

text \<open>A shape and two colours are texts, and no parameter has a percent sign.\<close>

definition fits :: "string \<Rightarrow> gval \<Rightarrow> bool" where
  "fits g v \<longleftrightarrow> CHR ''%'' \<notin> set (gval_str v) \<and> (g \<in> set (take 3 vecGraphFunctions) \<longrightarrow> (\<exists>s. v = GText s))"

definition typed_params :: "gval list \<Rightarrow> bool" where
  "typed_params vs \<longleftrightarrow> list_all2 fits vecGraphFunctions vs"

text \<open>The functions of the modules return, with values of these types, and the modules can be imported.\<close>

definition typed_functions :: "page_conf \<Rightarrow> bool" where
  "typed_functions c \<longleftrightarrow>
     (\<forall>t. list_all (\<lambda>g. case function_answer (pg_conf c) t g of
        Inl _ \<Rightarrow> False | Inr None \<Rightarrow> True
      | Inr (Some f) \<Rightarrow> (case call_graphic c f of Inl _ \<Rightarrow> False | Inr v \<Rightarrow> fits g v)) vecGraphFunctions)"

lemma border_texts: "py_str_int 0 = ''0''" "py_str_int 1 = ''1''"
  by code_simp+

lemma typed_default: "typed_params dfltGraphParams"
  by (simp add: typed_params_def dfltGraphParams_def graph_params_def vecGraphFunctions_def fits_def border_texts)

lemma typed_known: "list_all (\<lambda>kv. typed_params (snd kv)) known_params"
  by (simp add: typed_params_def known_params_def graph_params_def vecGraphFunctions_def fits_def
      border_texts)

lemma typed_each:
  "list_all2 fits gs ds \<Longrightarrow>
   list_all (\<lambda>g. case function_answer (pg_conf c) t g of
        Inl _ \<Rightarrow> False | Inr None \<Rightarrow> True
      | Inr (Some f) \<Rightarrow> (case call_graphic c f of Inl _ \<Rightarrow> False | Inr v \<Rightarrow> fits g v)) gs \<Longrightarrow>
   \<exists>vs. each_res (param_answer c t) (zip gs ds) = Inr vs \<and> list_all2 fits gs vs"
proof (induction gs ds rule: list_all2_induct)
  case Nil
  then show ?case by simp
next
  case (Cons g gs d ds)
  then obtain vs where "each_res (param_answer c t) (zip gs ds) = Inr vs" "list_all2 fits gs vs" by auto
  with Cons show ?case by (auto simp: param_answer_def split: sum.splits option.splits)
qed

lemma typed_answer:
  assumes "typed_functions c"
  shows "\<exists>vs. params_answer c t = Inr vs \<and> typed_params vs"
proof (cases "map_of known_params t")
  case (Some v)
  then have "(t, v) \<in> set known_params" by (rule map_of_SomeD)
  with typed_known have "typed_params v" by (auto simp: list_all_iff)
  with Some show ?thesis by (simp add: params_answer_def)
next
  case None
  with typed_each [of vecGraphFunctions dfltGraphParams c t] typed_default assms show ?thesis
    by (simp add: params_answer_def typed_params_def typed_functions_def)
qed

lemma typed_node:
  assumes "typed_functions c" "CHR ''.'' \<notin> set cls"
  shows "\<exists>vs u n. node_answer c cls = Inr [u, n] \<and> typed_params vs \<and>
    pattern_text vs True = Inr u \<and> pattern_text vs False = Inr n \<and>
    params_answer c (py_replace (last (py_split (CHR '':'') cls)) ''/'' ''.'') = Inr vs"
proof -
  let ?t = "last (py_split (CHR '':'') cls)"
  have "set ?t \<subseteq> set cls" by (rule split_chars [where c = "CHR '':''"]) simp
  then have t: "\<not> 0 \<le> py_find ?t ''.''" using assms(2) by (auto simp: find_dot)
  obtain vs where vs: "params_answer c (py_replace ?t ''/'' ''.'') = Inr vs" "typed_params vs"
    using typed_answer [OF assms(1)] by blast
  then obtain sh cf cb b r where v: "vs = [GText sh, GText cf, GText cb, b, r]"
    by (auto simp: typed_params_def vecGraphFunctions_def fits_def list_all2_Cons1)
  obtain u n where "pattern_text vs True = Inr u" "pattern_text vs False = Inr n"
    unfolding v pattern_pieces by blast
  then show ?thesis using vs t by (auto simp: node_answer_def BuildPatternNode_def Let_def)
qed

text \<open>
  C38. \<^verbatim>\<open>WritePatterned\<close> is type correct, and what it writes does not depend on the caches: when the graphic
  functions of the modules return texts for the shape and the colours, without percent sign, then in every
  valid state of the caches, for every class, with and without a URL, the format that \<^verbatim>\<open>BuildPatternNode\<close>
  made takes exactly the arguments that it gets, and the node is written with the parameters of its class,
  its arguments in their places, its lines and the end of its table.
\<close>

theorem node_written:
  assumes "typed_functions c" "params_ok c s" "memo_valid node_lookup (node_answer c) s" "CHR ''.'' \<notin> set cls"
  shows "\<exists>vs s'. params_answer c (py_replace (last (py_split (CHR '':'') cls)) ''/'' ''.'') = Inr vs \<and> typed_params vs \<and>
    WritePatterned c cls nam hint color href n lab rows s =
      (Inr (node_title vs nam hint color href n lab @
        concat (map (\<lambda>key. ''<tr>'' @ the (map_of rows key) @ ''</tr>'') (natural_sorted c (map fst rows))) @
        ''</table> > ] '' @ [CHR 0x0A]), s') \<and>
    params_ok c s' \<and> memo_valid node_lookup (node_answer c) s'"
proof -
  obtain vs u p where p: "node_answer c cls = Inr [u, p]" "typed_params vs" "pattern_text vs True = Inr u"
      "pattern_text vs False = Inr p" "params_answer c (py_replace (last (py_split (CHR '':'') cls)) ''/'' ''.'') = Inr vs"
    using typed_node [OF assms(1,4)] by blast
  obtain s' where s': "PatternNode c cls s = (Inr [u, p], s')" "params_ok c s'" "memo_valid node_lookup (node_answer c) s'"
    using patterns.run [of c s cls] assms(2,3) p(1) by auto
  obtain sh cf cb b r where v: "vs = [GText sh, GText cf, GText cb, b, r]" "CHR ''%'' \<notin> set sh"
      "CHR ''%'' \<notin> set cf" "CHR ''%'' \<notin> set cb" "CHR ''%'' \<notin> set (gval_str b)"
    using p(2) by (auto simp: typed_params_def vecGraphFunctions_def fits_def list_all2_Cons1)
  note written = pattern_written [OF v(2-5), of r href _ nam hint color n lab, folded v(1)]
  have "(if href \<noteq> []
      then py_percent ([u, p] ! 0) [FStr nam, FStr hint, FStr color, FStr href, FInt n, FStr lab]
      else py_percent ([u, p] ! 1) [FStr nam, FStr hint, FStr color, FInt n, FStr lab]) =
      Inr (node_title vs nam hint color href n lab)"
    using written [of u] written [of p] p(3,4) by (cases "href = []") auto
  with p(2,5) s' show ?thesis by (auto simp: WritePatterned_def write_rows_def bnd_run comp_def)
qed

definition sample_page :: page_conf where
  "sample_page = \<lparr>pg_conf = sample_conf, call_graphic = (\<lambda>_. Inr (GText ''egg'')), call_name = (\<lambda>_ _. Inl TypeError),
     call_alias = (\<lambda>_ _ _ _. Inl TypeError), natural_sorted = (\<lambda>ks. ks), html_unescape = (\<lambda>s. s)\<rparr>"

lemma sample_modules: "\<exists>m. GetEntityModuleNoCache sample_conf t = Inr m"
  by (auto simp: GetEntityModuleNoCache_def GetEntityModuleNoCacheNoCatch_def sample_conf_def Let_def)

lemma sample_typed: "typed_functions sample_page"
proof -
  have "\<exists>f. first_function sample_conf g ps = Inr f" for g ps
  proof (induction ps)
    case Nil
    then show ?case by simp
  next
    case (Cons p ps)
    then show ?case using sample_modules [of p] by (auto split: option.split)
  qed
  note functions_return = this
  show ?thesis
    unfolding typed_functions_def function_answer_def
  proof (intro allI, unfold list_all_iff, intro ballI)
    fix t g
    obtain f where "first_function sample_conf g (packages_above (py_split (CHR ''.'') t)) = Inr f"
      using functions_return by blast
    then show "case first_function (pg_conf sample_page) g (packages_above (py_split (CHR ''.'') t)) of
        Inl _ \<Rightarrow> False | Inr None \<Rightarrow> True
      | Inr (Some f) \<Rightarrow> (case call_graphic sample_page f of Inl _ \<Rightarrow> False | Inr v \<Rightarrow> fits g v)"
      by (cases f) (simp_all add: sample_page_def fits_def)
  qed
qed

lemma node_written_witness:
  "\<exists>vs s'. params_answer sample_page ''oracle.table'' = Inr vs \<and>
    WritePatterned sample_page ''oracle/table'' ''N1'' ''SYS'' ''red'' [] 2 ''emp'' [(''k'', ''<td>1</td>'')]
      (page_start sample_agent) =
      (Inr (node_title vs ''N1'' ''SYS'' ''red'' [] 2 ''emp'' @ ''<tr><td>1</td></tr></table> > ] '' @ [CHR 0x0A]), s')"
proof -
  let ?rows = "[(''k'', ''<td>1</td>'')]"
  have "params_ok sample_page (page_start sample_agent)"
    by (auto simp: params_inv_def params_lookup_def memo_valid_def page_start_def params_answer_def sample_agent_def
        no_module_of_nothing_def module_lookup_def module_answer_def split: if_splits)
  moreover have "memo_valid node_lookup (node_answer sample_page) (page_start sample_agent)"
    by (simp add: memo_valid_def node_lookup_def page_start_def)
  moreover have "CHR ''.'' \<notin> set ''oracle/table''" by simp
  ultimately obtain vs s' where
    "params_answer sample_page (py_replace (last (py_split (CHR '':'') ''oracle/table'')) ''/'' ''.'') = Inr vs"
    "WritePatterned sample_page ''oracle/table'' ''N1'' ''SYS'' ''red'' [] 2 ''emp'' ?rows (page_start sample_agent) =
      (Inr (node_title vs ''N1'' ''SYS'' ''red'' [] 2 ''emp'' @
        concat (map (\<lambda>key. ''<tr>'' @ the (map_of ?rows key) @ ''</tr>'') (natural_sorted sample_page (map fst ?rows))) @
        ''</table> > ] '' @ [CHR 0x0A]), s')"
    using node_written [OF sample_typed, where nam = "''N1''" and hint = "''SYS''" and color = "''red''" and
        href = "[]" and n = 2 and lab = "''emp''" and rows = ?rows] by blast
  moreover have "py_replace (last (py_split (CHR '':'') ''oracle/table'')) ''/'' ''.'' = ''oracle.table''"
    by code_simp
  ultimately show ?thesis by (simp add: sample_page_def)
qed

end
