(* ===== verification/Naming.thy ===== *)
theory Naming
  imports Patterns Paths
begin

text \<open>
  The names that the pages show for a URL, from \<^verbatim>\<open>survol/lib_naming.py\<close>: the label of an object and its
  alias, the title of a script, the class that chooses the graphic parameters; and the universal alias of
  a node with its cache, from \<^verbatim>\<open>survol/lib_exports.py\<close>. \<^verbatim>\<open>urlparse\<close> of Python 2 is written out. The functions
  \<^verbatim>\<open>EntityName\<close> and \<^verbatim>\<open>UniversalAlias\<close> of the modules are numbers, their calls the fields \<open>call_name\<close> and
  \<open>call_alias\<close> of \<open>page_conf\<close>. A missing host or address is the empty text, which the code treats alike.
\<close>

subsection \<open>\<^verbatim>\<open>urlparse\<close>\<close>

record url_parts =
  u_scheme :: string
  u_netloc :: string
  u_path :: string
  u_params :: string
  u_query :: string
  u_fragment :: string

definition cut_at :: "char \<Rightarrow> string \<Rightarrow> string \<times> string" where
  "cut_at c s = (takeWhile (\<lambda>x. x \<noteq> c) s, drop 1 (dropWhile (\<lambda>x. x \<noteq> c) s))"

definition scheme_char :: "char \<Rightarrow> bool" where
  "scheme_char c \<longleftrightarrow> (word_char c \<and> c \<noteq> CHR ''_'') \<or> c \<in> set ''+-.''"

text \<open>A number after the colon is a port, and the text before it then no scheme, but for \<open>http\<close>.\<close>

definition split_scheme :: "string \<Rightarrow> string \<times> string" where
  "split_scheme url =
     (let s = takeWhile (\<lambda>c. c \<noteq> CHR '':'') url; rest = drop (length s + 1) url
      in if CHR '':'' \<in> set url \<and> s \<noteq> [] \<and>
            (s = ''http'' \<or>
             (list_all scheme_char s \<and> (rest = [] \<or> \<not> list_all (\<lambda>c. CHR ''0'' \<le> c \<and> c \<le> CHR ''9'') rest)))
         then (map to_lower s, rest) else ([], url))"

definition split_netloc :: "string \<Rightarrow> string \<times> string" where
  "split_netloc url =
     (if take 2 url = ''//'' then
        (let in_netloc = (\<lambda>c. c \<notin> set ''/?#'')
         in (takeWhile in_netloc (drop 2 url), dropWhile in_netloc (drop 2 url)))
      else ([], url))"

definition uses_params :: "string list" where
  "uses_params = [[], ''ftp'', ''hdl'', ''prospero'', ''http'', ''https'', ''shttp'', ''rtsp'', ''rtspu'', ''sip'',
     ''sips'', ''mms'', ''sftp'', ''tel'']"

text \<open>The parameters are those of the last component of the path.\<close>

definition split_params :: "string \<Rightarrow> string \<times> string" where
  "split_params path =
     (let b = basename path; dir = take (length path - length b) path; cut = cut_at (CHR '';'') b
      in (dir @ fst cut, snd cut))"

definition survol_urlparse :: "string \<Rightarrow> url_parts pyres" where
  "survol_urlparse url =
     (let sc = split_scheme url; nl = split_netloc (snd sc); fr = cut_at (CHR ''#'') (snd nl);
          qu = cut_at (CHR ''?'') (fst fr);
          pa = (if fst sc \<in> set uses_params then split_params (fst qu) else (fst qu, []))
      in if (CHR ''['' \<in> set (fst nl)) \<noteq> (CHR '']'' \<in> set (fst nl)) then Inl ValueError
         else Inr \<lparr>u_scheme = fst sc, u_netloc = fst nl, u_path = fst pa, u_params = snd pa,
                   u_query = snd qu, u_fragment = snd fr\<rparr>)"

definition url_repr :: "url_parts \<Rightarrow> string" where
  "url_repr u =
     ''ParseResult(scheme='' @ repr_str (u_scheme u) @ '', netloc='' @ repr_str (u_netloc u) @ '', path='' @
     repr_str (u_path u) @ '', params='' @ repr_str (u_params u) @ '', query='' @ repr_str (u_query u) @
     '', fragment='' @ repr_str (u_fragment u) @ '')''"

subsection \<open>The label of an object\<close>

definition UriToTitle :: "url_parts \<Rightarrow> string" where
  "UriToTitle uprs =
     (let basna = EncodeUri (basename (u_path uprs))
      in if u_netloc uprs \<noteq> [] then u_netloc uprs @ ''/'' @ basna else basna)"

text \<open>\<^verbatim>\<open>TypeToGraphParams\<close> never returns \<^verbatim>\<open>None\<close>, so that the class is never added to the label.\<close>

definition EntityArrToLabel :: "page_conf \<Rightarrow> string \<Rightarrow> string list \<Rightarrow> (page_state, string) py" where
  "EntityArrToLabel c entity_type entity_ids_arr =
     bnd (on_page (HierarchicalFunctionSearch (pg_conf c) entity_type ''EntityName'')) (\<lambda>funcEntityName.
       case funcEntityName of
         Some f \<Rightarrow> of_res (call_name c f entity_ids_arr)
       | None \<Rightarrow> bnd (TypeToGraphParams c entity_type) (\<lambda>_. ret (py_join '','' entity_ids_arr)))"

definition EntityArrToAlias :: "page_conf \<Rightarrow> string \<Rightarrow> string list \<Rightarrow> string \<Rightarrow> (page_state, string) py" where
  "EntityArrToAlias c entity_type entity_ids_arr force_entity_ip_addr =
     bnd (on_page (HierarchicalFunctionSearch (pg_conf c) entity_type ''UniversalAlias'')) (\<lambda>funcUniversalAlias.
       case funcUniversalAlias of
         Some f \<Rightarrow> of_res (call_alias c f entity_ids_arr force_entity_ip_addr entity_type)
       | None \<Rightarrow> ret (force_entity_ip_addr @ ''@'' @ entity_type @ '':'' @ py_join '','' entity_ids_arr))"

definition label_ids :: "(string \<times> string) list \<Rightarrow> ontokey list \<Rightarrow> string list" where
  "label_ids splitKV ontoKeys =
     map (\<lambda>k. case map_of splitKV (key_name k) of Some v \<Rightarrow> v | None \<Rightarrow> key_name k @ ''?'') ontoKeys"

definition extra_keys :: "(string \<times> string) list \<Rightarrow> ontokey list \<Rightarrow> string" where
  "extra_keys splitKV ontoKeys =
     concat (map (\<lambda>(k, v). if k \<in> key_name ` set ontoKeys then [] else '' '' @ k @ ''='' @ v) splitKV)"

definition EntityToLabel :: "page_conf \<Rightarrow> string \<Rightarrow> string \<Rightarrow> string \<Rightarrow> (page_state, string) py" where
  "EntityToLabel c entity_type entity_ids_concat force_entity_ip_addr =
     (if entity_ids_concat = [] then ret entity_type
      else let splitKV = SplitMoniker entity_ids_concat
           in bnd (on_page (bnd (OntologyClassKeys (pg_conf c) entity_type) (\<lambda>r. gets (keys_at r)))) (\<lambda>ontoKeys.
              bnd (if force_entity_ip_addr \<noteq> []
                   then EntityArrToAlias c entity_type (label_ids splitKV ontoKeys) force_entity_ip_addr
                   else EntityArrToLabel c entity_type (label_ids splitKV ontoKeys)) (\<lambda>entity_label.
                ret (entity_label @ extra_keys splitKV ontoKeys))))"

subsection \<open>The title of a script\<close>

definition scripts_to_titles :: "(string \<times> string) list" where
  "scripts_to_titles =
     [(''portal_wbem.py'', ''WBEM server ''), (''portal_wmi.py'', ''WMI server ''), (''class_wbem.py'', ''WBEM class''),
      (''class_wmi.py'', ''WMI class''), (''file_directory.py'', ''Directory content''),
      (''objtypes.py'', ''Classes hierarchy''), (''objtypes_wbem.py'', ''WBEM subclasses''),
      (''objtypes_wmi.py'', ''WMI subclasses''), (''namespaces_wbem.py'', ''WBEM namespaces''),
      (''namespaces_wmi.py'', ''WMI namespaces''), (''entity.py'', []), (''entity_wbem.py'', ''WBEM''),
      (''entity_wmi.py'', ''WMI'')]"

definition ModeToMimeType :: "string \<Rightarrow> string" where
  "ModeToMimeType urlMode = drop 5 urlMode"

definition script_title :: "string \<Rightarrow> string \<Rightarrow> string" where
  "script_title filScript entity_suffix =
     (let entity_label = (case map_of scripts_to_titles filScript of Some t \<Rightarrow> t | None \<Rightarrow> filScript @ ''...'')
      in if entity_suffix = [] then entity_label
         else if entity_label \<noteq> [] then entity_suffix @ '' ('' @ entity_label @ '')''
         else entity_suffix)"

text \<open>The class of \<^verbatim>\<open>class_type_all.py\<close> may be missing: the name of its module is then split, an AttributeError.\<close>

definition KnownScriptToTitle :: "page_conf \<Rightarrow> string \<Rightarrow> string \<Rightarrow> string \<Rightarrow> string option \<Rightarrow> (page_state, string) py" where
  "KnownScriptToTitle c filScript uriMode entity_host entity_suffix =
     (let suffix = (case entity_suffix of None \<Rightarrow> [] | Some s \<Rightarrow> s)
      in if filScript = ''entity_mime.py''
         then ret ((if suffix = [] then ''None'' else suffix) @ '' ('' @ ModeToMimeType uriMode @ '')'')
         else if filScript = ''class_type_all.py''
         then (case entity_suffix of
                 None \<Rightarrow> raise AttributeError
               | Some t \<Rightarrow>
                   bnd (on_page (bnd (OntologyClassKeys (pg_conf c) t) (\<lambda>r. gets (keys_at r)))) (\<lambda>moduOntology.
                     ret (t @ (if moduOntology \<noteq> [] then '' (Class)'' else '' (Domain)''))))
         else if entity_host \<noteq> []
         then bnd (on_page (IsLocalAddress (pg_conf c) entity_host)) (\<lambda>isLocal.
                ret (script_title filScript suffix @ (if isLocal then [] else '' at '' @ entity_host)))
         else ret (script_title filScript suffix))"

subsection \<open>The name of a URL\<close>

text \<open>
  \<open>^.*/enumerate_([a-z0-9A-Z_]*)\.py$\<close>: as the class has no slash, it is in the last component. The dollar also
  matches before a newline at the end.
\<close>

definition enumerate_class :: "string \<Rightarrow> string option" where
  "enumerate_class uri =
     (let u = (if uri \<noteq> [] \<and> last uri = CHR 0x0A then butlast uri else uri); b = basename u
      in if CHR ''/'' \<in> set u \<and> CHR 0x0A \<notin> set u \<and> startswith b ''enumerate_'' \<and> endswith b ''.py'' \<and>
            13 \<le> length b \<and> list_all word_char (take (length b - 13) (drop 10 b))
         then Some (take (length b - 13) (drop 10 b)) else None)"

definition entity_uri_name ::
    "page_conf \<Rightarrow> string \<Rightarrow> string \<Rightarrow> string \<Rightarrow> url_parts \<Rightarrow> bool \<Rightarrow> string \<Rightarrow> (page_state, string \<times> string \<times> string) py" where
  "entity_uri_name c uriWithMode uri uriMode uprs longDisplay force_entity_ip_addr =
     (let filScript = basename (u_path uprs)
      in if startswith (u_query uprs) ''xid='' then
           (case ParseXid (drop 4 (u_query uprs)) of (entity_type, entity_id, entity_host) \<Rightarrow>
            case ParseNamespaceType entity_type of (namSpac, entity_type_NoNS, _) \<Rightarrow>
              bnd (if entity_type_NoNS \<noteq> [] \<or> entity_id \<noteq> []
                   then EntityToLabel c entity_type_NoNS entity_id force_entity_ip_addr
                   else ret namSpac) (\<lambda>label.
              let entity_label = (if label = [] then entity_type else label)
              in bnd (if longDisplay then KnownScriptToTitle c filScript uriMode entity_host (Some entity_label)
                      else ret entity_label) (\<lambda>entity_label.
                   ret (entity_label, entity_type, entity_id))))
         else bnd (gets (\<lambda>s. uriRoot (pg_agent s))) (\<lambda>uriRoot.
           if startswith uri uriRoot then
             (case enumerate_class uri of
                Some cls \<Rightarrow> ret (cls @ '' enumeration'', cls, [])
              | None \<Rightarrow>
                  bnd (KnownScriptToTitle c filScript uriMode [] None) (\<lambda>entity_label.
                    ret (entity_label, ComposeTypes ''CIM_DataFile'' ''script'', [])))
           else if hd (py_split (CHR '':'') uri) \<in> set [''ftp'', ''http'', ''https'', ''urn'', ''mail'']
           then ret (uriWithMode, [], [])
           else ret (py_replace (UriToTitle uprs) ''%20'' '' '', [], ''PLAINTEXTONLY'')))"

text \<open>
  The URL of the CGI script holds the script in an argument. \<open>cgi_query\<close> gives the script and the query
  without it: the last argument \<open>script\<close> is the one that is kept.
\<close>

fun cgi_query :: "string list \<Rightarrow> string \<Rightarrow> string \<Rightarrow> string \<Rightarrow> string \<times> string" where
  "cgi_query [] scriptRebuilt queryRebuild queryDelim = (scriptRebuilt, queryRebuild)"
| "cgi_query (oneSplt # spltCgiArgs) scriptRebuilt queryRebuild queryDelim =
     (let spltKV = py_split (CHR ''='') oneSplt
      in if hd spltKV = ''script'' then cgi_query spltCgiArgs (py_join ''='' (tl spltKV)) queryRebuild queryDelim
         else cgi_query spltCgiArgs scriptRebuilt (queryRebuild @ queryDelim @ oneSplt) ''&'')"

definition cgi_script :: "url_parts \<Rightarrow> string \<times> string" where
  "cgi_script uprs = cgi_query (py_split (CHR ''&'') (UrlNoAmp (u_query uprs))) [] [] ''?''"

definition urlRebuilt :: "url_parts \<Rightarrow> string" where
  "urlRebuilt uprs = u_scheme uprs @ ''://'' @ u_netloc uprs @ fst (cgi_script uprs) @ snd (cgi_script uprs)"

text \<open>The rebuilt URL is shorter than the one that held it, so that the search of the script ends.\<close>

lemma split_shorter:
  "old \<noteq> [] \<Longrightarrow> length new \<le> length old \<Longrightarrow>
   length (py_join new (split_str old k s)) + min k (length s) \<le> length s"
proof (induction old k s rule: split_str.induct)
  case (1 old k)
  then show ?case by simp
next
  case (2 old k x xs)
  then show ?case by auto
next
  case (3 old x xs)
  show ?case
  proof (cases "startswith (x # xs) old")
    case True
    then have "length old \<le> Suc (length xs)" by (auto simp: startswith_def dest: arg_cong [of _ _ length])
    with True 3 show ?thesis
      by (cases "split_str old (length old - 1) xs") (auto simp: py_join_Cons)
  next
    case False
    with 3 show ?thesis by (cases "split_str old 0 xs") (auto simp: py_join_Cons split: if_splits)
  qed
qed

lemma replace_shorter: "old \<noteq> [] \<Longrightarrow> length new \<le> length old \<Longrightarrow> length (py_replace s old new) \<le> length s"
  using split_shorter [of old new 0 s] by (simp add: py_replace_def)

lemma UrlNoAmp_shorter: "length (UrlNoAmp u) \<le> length u"
  using replace_shorter [of "''&amp;''" "''&''" u] replace_shorter [of "''&amp;''" "''&''" "py_replace u ''&amp;'' ''&''"]
  by (simp add: UrlNoAmp_def)

lemma unmoded_shorter: "length (AnyUriModed u []) \<le> length u"
proof (cases "rmatch (dot_star # mode_part) u")
  case None
  then show ?thesis by (simp add: AnyUriModed_def)
next
  case (Some ps)
  then have "parts_ok (dot_star # mode_part) ps" "startswith u (concat ps)" using rmatch_sound by blast+
  then obtain g where "u = concat ps @ g" "length ps = 9"
    by (auto simp: parts_ok_def mode_part_def lit_def startswith_def list_all2_lengthD [symmetric]
        dest!: list_all2_lengthD) (metis append_take_drop_id)
  then show ?thesis using Some
    by (auto simp: AnyUriModed_def length_Suc_conv eval_nat_numeral)
qed

lemma basename_shorter: "length (basename p) \<le> length p"
  by (auto simp: basename_def rsplit_at_def length_takeWhile_le [of _ "rev p", simplified])

lemma parsed_shorter:
  assumes "survol_urlparse url = Inr u"
  shows "length (u_scheme u) + length (u_netloc u) + length (u_path u) + length (u_query u) \<le> length url"
proof -
  have cut: "length (fst (cut_at c s)) + length (snd (cut_at c s)) \<le> length s" for c s
    using takeWhile_dropWhile_id [of "\<lambda>x. x \<noteq> c" s] unfolding cut_at_def
    by (metis diff_le_self fst_conv length_append length_drop nat_add_left_cancel_le snd_conv)
  have sc: "length (fst (split_scheme url)) + length (snd (split_scheme url)) \<le> length url"
    using length_takeWhile_le [of "\<lambda>c. c \<noteq> CHR '':''" url] by (auto simp: split_scheme_def Let_def)
  have nl: "length (fst (split_netloc s)) + length (snd (split_netloc s)) \<le> length s" for s
  proof -
    have "length (takeWhile P (drop 2 s)) + length (dropWhile P (drop 2 s)) = length (drop 2 s)" for P
      by (metis length_append takeWhile_dropWhile_id)
    then show ?thesis by (auto simp: split_netloc_def Let_def)
  qed
  have pa: "length (fst (split_params s)) \<le> length s" for s
    using cut [of "CHR '';''" "basename s"] basename_shorter [of s] by (auto simp: split_params_def Let_def)
  let ?nl = "split_netloc (snd (split_scheme url))"
  let ?fr = "cut_at (CHR ''#'') (snd ?nl)"
  let ?qu = "cut_at (CHR ''?'') (fst ?fr)"
  have u: "u_scheme u = fst (split_scheme url)" "u_netloc u = fst ?nl" "u_query u = snd ?qu"
    "length (u_path u) \<le> length (fst ?qu)"
    using assms pa [of "fst ?qu"] by (auto simp: survol_urlparse_def Let_def split: if_splits)
  show ?thesis unfolding u(1-3)
    using u(4) sc nl [of "snd (split_scheme url)"] cut [of "CHR ''#''" "snd ?nl"] cut [of "CHR ''?''" "fst ?fr"] by linarith
qed

lemma cgi_query_shorter:
  "length d = 1 \<Longrightarrow> length (fst (cgi_query xs s q d)) + length (snd (cgi_query xs s q d)) \<le>
   length s + length q + sum_list (map (\<lambda>x. length x + 1) xs)"
proof (induction xs s q d rule: cgi_query.induct)
  case (2 x xs s q d)
  let ?kv = "py_split (CHR ''='') x"
  have "length (py_join ''='' (tl ?kv)) \<le> length x"
    using py_join_py_split [of "CHR ''=''" x] by (cases ?kv) (auto simp: py_join_Cons split: if_splits)
  moreover note 2(1) [OF refl] 2(2) [OF refl] 2(3)
  ultimately show ?case by (auto simp: Let_def)
qed simp

lemma split_length: "sum_list (map (\<lambda>x. length x + 1) (py_split c s)) = length s + 1"
  by (induction c s rule: py_split.induct) (auto split: list.splits)

lemma rebuilt_shorter:
  assumes "survol_urlparse url = Inr u" "basename (u_path u) = ''survolcgi.py''"
  shows "length (urlRebuilt u) < length url"
proof -
  have "12 \<le> length (u_path u)" using basename_shorter [of "u_path u"] assms(2) by simp
  moreover have "length (fst (cgi_script u)) + length (snd (cgi_script u)) \<le> length (u_query u) + 1"
    using cgi_query_shorter [of "''?''" "py_split (CHR ''&'') (UrlNoAmp (u_query u))" "[]" "[]"]
      UrlNoAmp_shorter [of "u_query u"] by (simp add: cgi_script_def split_length [simplified])
  ultimately show ?thesis using parsed_shorter [OF assms(1)] by (simp add: urlRebuilt_def)
qed

function ParseEntityUri ::
      "page_conf \<Rightarrow> string \<Rightarrow> bool \<Rightarrow> string \<Rightarrow> (page_state, string \<times> string \<times> string) py"
  and ParseEntitySurvolUri ::
      "page_conf \<Rightarrow> url_parts \<Rightarrow> bool \<Rightarrow> string \<Rightarrow> (page_state, string \<times> string \<times> string) py" where
  "ParseEntityUri c uriWithMode longDisplay force_entity_ip_addr =
     (let uriWithModeClean = UrlNoAmp uriWithMode; uri = AnyUriModed uriWithModeClean []
      in case survol_urlparse uri of
           Inl e \<Rightarrow> raise e
         | Inr uprs \<Rightarrow>
             if basename (u_path uprs) = ''survolcgi.py''
             then ParseEntitySurvolUri c uprs longDisplay force_entity_ip_addr
             else entity_uri_name c uriWithMode uri (GetModeFromUrl uriWithModeClean) uprs
                    longDisplay force_entity_ip_addr)"
| "ParseEntitySurvolUri c uprs longDisplay force_entity_ip_addr =
     (if fst (cgi_script uprs) \<noteq> []
      then ParseEntityUri c (urlRebuilt uprs) longDisplay force_entity_ip_addr
      else ret (''Incomplete CGI script:'' @ url_repr uprs, ''Unknown subjEntityGraphicClass'', ''Unknown entity_id''))"
  by pat_completeness auto

termination
proof (relation "measure (\<lambda>x. case x of
      Inl (c, u, l, f) \<Rightarrow> 2 * length u + 1
    | Inr (c, p, l, f) \<Rightarrow> if fst (cgi_script p) \<noteq> [] then 2 * length (urlRebuilt p) + 2 else 0)", goal_cases)
  case (2 c u l f x xa b)
  then have "length (urlRebuilt b) < length xa" by (intro rebuilt_shorter) auto
  also have "length xa \<le> length u"
    using 2(1,2) unmoded_shorter [of x] UrlNoAmp_shorter [of u] by simp
  finally show ?case by simp
qed simp_all

declare ParseEntityUri.simps [simp del] ParseEntitySurvolUri.simps [simp del]

definition ParseEntityUriShort :: "page_conf \<Rightarrow> string \<Rightarrow> (page_state, string \<times> string \<times> string) py" where
  "ParseEntityUriShort c uri = ParseEntityUri c uri False []"

subsection \<open>The universal alias of a node\<close>

definition MakeUniversalAliasNoCache :: "page_conf \<Rightarrow> string \<Rightarrow> (page_state, string) py" where
  "MakeUniversalAliasNoCache c anObj =
     bnd (of_res (survol_urlparse anObj)) (\<lambda>parsed_url.
       let entity_host = hd (py_split (CHR '':'') (u_netloc parsed_url))
       in bnd (ParseEntityUri c anObj True (map to_lower entity_host)) (\<lambda>(labText, _, _). ret labText))"

definition NodeToUniversalAlias :: "page_conf \<Rightarrow> string \<Rightarrow> (page_state, string) py" where
  "NodeToUniversalAlias c anObject =
     bnd (gets dictNodeToUniversalAlias) (\<lambda>dict.
       case map_of dict anObject of
         Some uniAlias \<Rightarrow> ret uniAlias
       | None \<Rightarrow>
           bnd (MakeUniversalAliasNoCache c anObject) (\<lambda>uniAlias.
             andthen (modify (\<lambda>s. s\<lparr>dictNodeToUniversalAlias :=
                 AList.update anObject uniAlias (dictNodeToUniversalAlias s)\<rparr>)) (ret uniAlias)))"

end
