(* ===== verification/Exports.thy ===== *)
theory Exports
  imports Naming
begin

text \<open>
  The graphs of the pages and their documents, from \<^verbatim>\<open>survol/lib_exports.py\<close>, \<^verbatim>\<open>survol/lib_properties.py\<close>
  and \<^verbatim>\<open>survol/lib_kbase.py\<close>: the JSON document of a graph for the D3 interface, the tree of the scripts for
  its menus, the texts of labels, and the legend of a page in SVG. A node is a URL or a literal; a graph of
  rdflib is the list of its triples, in the order in which it is traversed. A document is the value that is
  passed to \<^verbatim>\<open>json.dumps\<close>.
\<close>

datatype rlit = LVal gval | LOther string string

datatype rnode = RUrl string | RLit rlit

type_synonym rtriple = "rnode \<times> string \<times> rnode"

text \<open>A value of another type is its type and its text.\<close>

fun rlit_text :: "rlit \<Rightarrow> string" where
  "rlit_text (LVal v) = gval_str v"
| "rlit_text (LOther typ_name s) = s"

fun node_text :: "rnode \<Rightarrow> string" where
  "node_text (RUrl u) = u"
| "node_text (RLit v) = rlit_text v"

fun IsLiteral :: "rnode \<Rightarrow> bool" where
  "IsLiteral (RLit _) = True"
| "IsLiteral (RUrl _) = False"

fun IsLink :: "rnode \<Rightarrow> bool" where
  "IsLink (RUrl _) = True"
| "IsLink (RLit _) = False"

text \<open>A set is the list of its elements in the order of insertion.\<close>

definition add_elem :: "'a \<Rightarrow> 'a list \<Rightarrow> 'a list" where
  "add_elem x xs = (if x \<in> set xs then xs else xs @ [x])"

subsection \<open>The properties\<close>

definition primns_slash :: string where
  "primns_slash = ''http://primhillcomputers.com/ontologies/''"

definition page_prop :: "string \<Rightarrow> string" where
  "page_prop prp = py_replace (primns_slash @ prp) '' '' ''_''"

definition sortPrefix :: string where
  "sortPrefix = ''----''"

definition property_script :: string where
  "property_script = page_prop ''script''"

definition property_information :: string where
  "property_information = page_prop (sortPrefix @ ''Information'')"

definition property_alias :: string where
  "property_alias = page_prop ''alias''"

definition property_socket_end :: string where
  "property_socket_end = page_prop ''socket_end''"

definition property_data :: "string list" where
  "property_data = map page_prop [''Data1'', ''Data2'', ''Data3'']"

definition prop_color :: "string \<Rightarrow> string" where
  "prop_color prop =
     (if prop = property_script then ''GREEN''
      else if prop = property_data ! 0 then ''BLUE''
      else if prop = property_socket_end then ''ORANGE''
      else if prop = property_alias then ''RED'' else ''PURPLE'')"

definition AntiPredicateUri :: "string \<Rightarrow> string" where
  "AntiPredicateUri uri = drop (length primns_slash) uri"

definition PropToShortPropNam :: "string \<Rightarrow> string" where
  "PropToShortPropNam collapsProp =
     (let shortNam = py_replace (py_replace (last (py_split (CHR ''/'') collapsProp)) ''.'' ''_'') '' '' ''_''
      in if startswith shortNam sortPrefix then drop (length sortPrefix) shortNam else shortNam)"

subsection \<open>The texts of labels\<close>

definition TruncateInSpace :: "string \<Rightarrow> nat \<Rightarrow> string" where
  "TruncateInSpace labText maxLenLab =
     (if maxLenLab < length labText then
        (let idx = py_find_at labText '' '' maxLenLab
         in if idx < 0 then
              (let idxSemiColon = py_find_at labText '';'' maxLenLab
               in if idxSemiColon < 0 then take maxLenLab labText else py_upto labText (idxSemiColon + 1))
            else py_upto labText idx)
      else labText)"

definition maxHtmlTitleLenPerCol :: nat where
  "maxHtmlTitleLenPerCol = 40"

definition withBrDelim :: string where
  "withBrDelim = ''<BR ALIGN=\"LEFT\" />''"

text \<open>The loop over the words: \<open>totLen\<close> is the number of letters of the line, without its spaces.\<close>

fun wrap_words :: "nat \<Rightarrow> string list \<Rightarrow> string \<Rightarrow> string \<Rightarrow> nat \<Rightarrow> string" where
  "wrap_words maxLen [] resu currLine totLen =
     (if currLine \<noteq> [] then (if resu \<noteq> [] then resu @ withBrDelim else resu) @ currLine else resu)"
| "wrap_words maxLen (currStr # splt) resu currLine totLen =
     (if totLen + length currStr < maxLen
      then wrap_words maxLen splt resu (currLine @ '' '' @ currStr) (totLen + length currStr)
      else wrap_words maxLen splt ((if resu \<noteq> [] then resu @ withBrDelim else resu) @ currLine) currStr (length currStr))"

definition StrWithBr :: "string \<Rightarrow> nat \<Rightarrow> string" where
  "StrWithBr aStr colspan =
     (let maxHtmlTitleLen = colspan * maxHtmlTitleLenPerCol
      in if length aStr < maxHtmlTitleLen then aStr
         else wrap_words maxHtmlTitleLen (py_split (CHR '' '') aStr) [] [] 0)"

definition DotBold :: "string \<Rightarrow> string" where
  "DotBold str = ''<b>'' @ str @ ''</b>''"

definition DotUL :: "string \<Rightarrow> string" where
  "DotUL str = ''<u>'' @ str @ ''</u>''"

definition DotIt :: "string \<Rightarrow> string" where
  "DotIt str = ''<i>'' @ str @ ''</i>''"

subsection \<open>The graph as a JSON document\<close>

definition ScriptForJson :: "string \<Rightarrow> bool" where
  "ScriptForJson url =
     (if contains url ''survol/entity.py'' \<or> contains url ''survol/entity_wmi.py''
         \<or> contains url ''survol/entity_wbem.py'' \<or> contains url ''survol/entity_info_only.py''
         \<or> contains url ''survol/survolcgi.py?script=/entity.py''
         \<or> contains url ''survol/survolcgi.py?script=/entity_info_only.py'' then True
      else \<not> contains url ''survol/'')"

record node_json =
  m_label :: string
  m_class :: string
  m_color :: gval
  m_info_list :: "string list"
  m_info_dict :: "(string \<times> gval) list"
  m_index :: nat
  m_survol_url :: string
  m_survol_universal_alias :: string

definition node_url :: "page_conf \<Rightarrow> string \<Rightarrow> string" where
  "node_url c rdf_node =
     py_replace (html_unescape c rdf_node) ''primhillcomputers.com:80/survol/survolcgi''
       ''primhillcomputers.com:80/cgi-bin/survol/survolcgi''"

definition NodeJson_init :: "page_conf \<Rightarrow> rnode \<Rightarrow> nat \<Rightarrow> (page_state, node_json) py" where
  "NodeJson_init c rdf_node NodeJsonNumber =
     bnd (ParseEntityUri c (node_text rdf_node) False []) (\<lambda>(entity_label, entity_graphic_class, _).
     bnd (TypeToGraphParams c entity_graphic_class) (\<lambda>arrayGraphParams.
     bnd (of_opt IndexError (py_nth arrayGraphParams 1)) (\<lambda>color.
     bnd (NodeToUniversalAlias c (node_text rdf_node)) (\<lambda>uniAlias.
       ret \<lparr>m_label = py_strip entity_label, m_class = entity_graphic_class, m_color = color,
            m_info_list = [entity_graphic_class], m_info_dict = [], m_index = NodeJsonNumber,
            m_survol_url = node_url c (node_text rdf_node), m_survol_universal_alias = uniAlias\<rparr>))))"

text \<open>The state of the loop over the graph: the number of the next node, the cache of the nodes, the links.\<close>

record json_graph =
  NodeJsonNumber :: nat
  dictNod2Json :: "(rnode \<times> node_json) list"
  json_links :: "(string \<times> string \<times> string) list"

definition NodeToJsonObj :: "page_conf \<Rightarrow> rnode \<Rightarrow> json_graph \<Rightarrow> (page_state, node_json \<times> json_graph) py" where
  "NodeToJsonObj c theNod g =
     (case map_of (dictNod2Json g) theNod of
        Some jsonObj \<Rightarrow> ret (jsonObj, g)
      | None \<Rightarrow>
          bnd (NodeJson_init c theNod (NodeJsonNumber g)) (\<lambda>jsonObj.
            ret (jsonObj, g\<lparr>NodeJsonNumber := NodeJsonNumber g + 1,
                            dictNod2Json := dictNod2Json g @ [(theNod, jsonObj)]\<rparr>)))"

definition upd_node :: "rnode \<Rightarrow> (node_json \<Rightarrow> node_json) \<Rightarrow> json_graph \<Rightarrow> json_graph" where
  "upd_node nod f g =
     g\<lparr>dictNod2Json := map (\<lambda>(k, v). (k, if k = nod then f v else v)) (dictNod2Json g)\<rparr>"

text \<open>A value that is no text and no integer is shown as the name of its type.\<close>

fun info_value :: "rlit \<Rightarrow> gval" where
  "info_value (LVal v) = v"
| "info_value (LOther typ_name s) = GText typ_name"

fun json_step :: "page_conf \<Rightarrow> rtriple \<Rightarrow> json_graph \<Rightarrow> (page_state, json_graph) py" where
  "json_step c (subj, pred, obj) g =
     (if pred = property_script then ret g
      else if \<not> ScriptForJson (node_text subj) \<or> \<not> ScriptForJson (node_text obj) then ret g
      else bnd (NodeToJsonObj c subj g) (\<lambda>(subjObj, g1).
        let propNam = PropToShortPropNam pred
        in case obj of
             RUrl _ \<Rightarrow>
               bnd (NodeToJsonObj c obj g1) (\<lambda>(objObj, g2).
                 ret (g2\<lparr>json_links := json_links g2 @ [(m_survol_url subjObj, m_survol_url objObj, propNam)]\<rparr>))
           | RLit v \<Rightarrow>
               ret (upd_node subj (if pred = property_information
                      then (\<lambda>n. n\<lparr>m_info_list := m_info_list n @ [rlit_text v]\<rparr>)
                      else (\<lambda>n. n\<lparr>m_info_dict := AList.update propNam (info_value v) (m_info_dict n)\<rparr>)) g1)))"

fun json_loop :: "page_conf \<Rightarrow> rtriple list \<Rightarrow> json_graph \<Rightarrow> (page_state, json_graph) py" where
  "json_loop c [] g = ret g"
| "json_loop c (t # grph) g = bnd (json_step c t g) (\<lambda>g'. json_loop c grph g')"

record node_doc =
  nd_id :: string
  nd_name :: string
  nd_alias :: string
  nd_fill :: gval
  nd_entity_class :: string
  nd_info_list :: "string list"
  nd_info_dict :: "(string \<times> gval) list"

record graph_doc =
  gd_page_title :: string
  gd_nodes :: "node_doc option list"
  gd_links :: "(string \<times> string \<times> string) list"

definition node_doc_of :: "page_conf \<Rightarrow> node_json \<Rightarrow> node_doc" where
  "node_doc_of c nodObj =
     \<lparr>nd_id = m_survol_url nodObj, nd_name = html_unescape c (m_label nodObj),
      nd_alias = m_survol_universal_alias nodObj, nd_fill = m_color nodObj, nd_entity_class = m_class nodObj,
      nd_info_list = m_info_list nodObj, nd_info_dict = m_info_dict nodObj\<rparr>"

definition Grph2Json :: "page_conf \<Rightarrow> string \<Rightarrow> rtriple list \<Rightarrow> (page_state, graph_doc) py" where
  "Grph2Json c page_title grph =
     bnd (json_loop c grph \<lparr>NodeJsonNumber = 0, dictNod2Json = [], json_links = []\<rparr>) (\<lambda>g.
       ret \<lparr>gd_page_title = page_title,
            gd_nodes = foldl (\<lambda>nodes (_, nodObj). nodes[m_index nodObj := Some (node_doc_of c nodObj)])
                         (replicate (length (dictNod2Json g)) None) (dictNod2Json g),
            gd_links = json_links g\<rparr>)"

end
