(* ===== verification/Cgi.thy ===== *)
theory Cgi
  imports Exports
begin

text \<open>
  The requests to the agent, from the class \<^verbatim>\<open>CgiEnv\<close> of \<^verbatim>\<open>survol/lib_common.py\<close> and from
  \<^verbatim>\<open>survol/lib_edition_parameters.py\<close>: the CGI arguments of a script, its parameters with their default
  values, the form in which a user edits them, the links to the same page with other parameters, and the
  messages of errors. \<^verbatim>\<open>cgi.FieldStorage\<close> and \<^verbatim>\<open>cgi.escape\<close> of Python 2 are written out, for a request that
  has no body (GET). The output is the standard output, as in \<^verbatim>\<open>OutputMachineCgi\<close>; the encoding of texts as
  UTF-8 and the messages on stderr are not modelled.

  A \<^verbatim>\<open>CgiEnv\<close> and a graph are Python objects that several holders share and change: each is named by its
  index in the lists \<open>cgi_envs\<close> and \<open>graphs\<close> of the state.
\<close>

subsection \<open>\<^verbatim>\<open>cgi.FieldStorage\<close>\<close>

definition plus_to_space :: "string \<Rightarrow> string" where
  "plus_to_space s = map (\<lambda>c. if c = CHR ''+'' then CHR '' '' else c) s"

text \<open>A pair without an equal sign, or with an empty value, is left out.\<close>

definition qsl_pair :: "string \<Rightarrow> (string \<times> string) option" where
  "qsl_pair name_value =
     (if CHR ''='' \<notin> set name_value then None
      else (let nv = cut_at (CHR ''='') name_value
            in if snd nv = [] then None
               else Some (urllib_unquote (plus_to_space (fst nv)), urllib_unquote (plus_to_space (snd nv)))))"

definition parse_qsl :: "string \<Rightarrow> (string \<times> string) list" where
  "parse_qsl qs = List.map_filter qsl_pair (concat (map (py_split (CHR '';'')) (py_split (CHR ''&'') qs)))"

type_synonym field_list = "(string \<times> string) list"

definition getlist :: "field_list \<Rightarrow> string \<Rightarrow> string list" where
  "getlist args key = map snd (filter (\<lambda>kv. fst kv = key) args)"

text \<open>\<open>args[key].value\<close>: several values are a list, which has no attribute \<^verbatim>\<open>value\<close>.\<close>

definition field_value :: "field_list \<Rightarrow> string \<Rightarrow> string pyres" where
  "field_value args key =
     (case getlist args key of [] \<Rightarrow> Inl KeyError | [v] \<Rightarrow> Inr v | _ \<Rightarrow> Inl AttributeError)"

definition field_keys :: "field_list \<Rightarrow> string list" where
  "field_keys args = foldl (\<lambda>ks kv. add_elem (fst kv) ks) [] args"

definition cgi_escape :: "string \<Rightarrow> string" where
  "cgi_escape s = py_replace (py_replace (py_replace s ''&'' ''&amp;'') ''<'' ''&lt;'') ''>'' ''&gt;''"

subsection \<open>The state\<close>

text \<open>
  \<open>main_doc\<close> is the docstring of the main module, \<open>modules_doc\<close> those of the modules in \<^verbatim>\<open>sys.modules\<close>,
  \<open>module_doc\<close> that of the module of a class, \<open>lib_common_file\<close> the name of the file \<^verbatim>\<open>lib_common.py\<close> as
  its functions know it, \<open>node_order\<close> the order in which Python iterates over a set or a dictionary of nodes, and
  \<open>json_dumps\<close> the function of this name for a dictionary of texts.
\<close>

record cgi_conf =
  cg_page :: page_conf
  argv :: "string list"
  main_doc :: "string option"
  modules_doc :: "string \<Rightarrow> string option option"
  module_doc :: "agent_module \<Rightarrow> string option"
  lib_common_file :: string
  getpid :: int
  sys_version :: string
  recursion_limit :: nat
  node_order :: "rnode list \<Rightarrow> rnode list"
  json_dumps :: "(string \<times> string) list \<Rightarrow> string"

abbreviation cg_agent_conf :: "cgi_conf \<Rightarrow> agent_conf" where
  "cg_agent_conf c \<equiv> pg_conf (cg_page c)"

record cgi_env =
  m_parameters :: "(string \<times> gval) list"
  m_parameterized_links :: "(string \<times> string) list"
  m_page_title :: "string option"
  m_calling_url :: string
  m_can_process_remote :: bool
  m_arguments :: field_list
  m_entity_type :: string
  m_entity_id :: string
  m_entity_host :: string
  m_entity_id_dict :: "(string \<times> string) list"
  m_graph :: "nat option"
  m_layoutParams :: "(string \<times> string list) option"

record cgi_state =
  cg_pages :: page_state
  cg_out :: string
  modeOVH :: bool
  graphs :: "rtriple list list"
  cgi_envs :: "cgi_env list"
  globalMergeMode :: bool
  globalCgiEnvList :: "nat list"
  globalGraph :: "nat option"
  globalErrorMessageEnabled :: bool

definition on_pages :: "(page_state, 'a) py \<Rightarrow> (cgi_state, 'a) py" where
  "on_pages m = (\<lambda>s. case m (cg_pages s) of (r, p) \<Rightarrow> (r, s\<lparr>cg_pages := p\<rparr>))"

abbreviation on_agent :: "(agent, 'a) py \<Rightarrow> (cgi_state, 'a) py" where
  "on_agent m \<equiv> on_pages (on_page m)"

definition FieldStorage :: "cgi_conf \<Rightarrow> field_list" where
  "FieldStorage c =
     parse_qsl (case map_of (environ (cg_agent_conf c)) ''QUERY_STRING'' of
       Some qs \<Rightarrow> qs
     | None \<Rightarrow> (case drop 1 (argv c) of [] \<Rightarrow> [] | arg # _ \<Rightarrow> arg))"

definition cgi_mode :: "cgi_conf \<Rightarrow> string" where
  "cgi_mode c = GuessDisplayMode (cg_agent_conf c) (getlist (FieldStorage c) ''mode'')"

text \<open>\<^verbatim>\<open>modeOVH\<close> is set when the module is imported.\<close>

definition modeOVH_init :: "cgi_conf \<Rightarrow> bool" where
  "modeOVH_init c =
     (case map_of (environ (cg_agent_conf c)) ''SCRIPT_NAME'' of
        Some s \<Rightarrow> endswith s ''/survolcgi.py''
      | None \<Rightarrow> True)"

definition cgi_start :: "cgi_conf \<Rightarrow> page_state \<Rightarrow> cgi_state" where
  "cgi_start c p = \<lparr>cg_pages = p, cg_out = [], modeOVH = modeOVH_init c, graphs = [], cgi_envs = [],
     globalMergeMode = False, globalCgiEnvList = [], globalGraph = None, globalErrorMessageEnabled = True\<rparr>"

subsection \<open>The output and the errors\<close>

definition WrtAsUtf :: "string \<Rightarrow> (cgi_state, unit) py" where
  "WrtAsUtf str = modify (\<lambda>s. s\<lparr>cg_out := cg_out s @ str\<rparr>)"

definition py_print :: "string \<Rightarrow> (cgi_state, unit) py" where
  "py_print str = WrtAsUtf (str @ [CHR 0x0A])"

definition HttpHeaderClassic :: "string \<Rightarrow> (string \<times> string) list \<Rightarrow> (cgi_state, unit) py" where
  "HttpHeaderClassic contentType extraArgs =
     WrtAsUtf (''Content-Type: '' @ contentType @ ''; charset=utf-8'' @ [CHR 0x0A] @
       concat (map (\<lambda>(k, v). k @ '': '' @ v @ [CHR 0x0A]) extraArgs) @ [CHR 0x0A])"

definition WrtHeader :: "string \<Rightarrow> (string \<times> string) list \<Rightarrow> (cgi_state, unit) py" where
  "WrtHeader mimeType extraArgs = HttpHeaderClassic mimeType extraArgs"

definition WriteJsonHeader :: "string \<Rightarrow> bool \<Rightarrow> (cgi_state, unit) py" where
  "WriteJsonHeader bufJson withContentLength =
     andthen (WrtHeader ''application/json''
       ([(''Access-Control-Allow-Origin'', ''*''), (''Access-Control-Allow-Methods'', ''POST,GET,OPTIONS''),
         (''Access-Control-Allow-Headers'', ''Origin, X-Requested-With, Content-Type, Accept'')] @
        (if withContentLength
         then [(''Content-Length'', py_str_int (int (length bufJson + length (filter (\<lambda>ch. ch = CHR 0x0A) bufJson))))]
         else [])))
     (WrtAsUtf bufJson)"

definition WriteJsonError :: "cgi_conf \<Rightarrow> string \<Rightarrow> (cgi_state, 'a) py" where
  "WriteJsonError c message =
     andthen (WriteJsonHeader (json_dumps c [(''status'', ''error''), (''message'', message)]) True)
       (raise SystemExit)"

definition InfoMessageHtml :: "cgi_conf \<Rightarrow> string \<Rightarrow> (cgi_state, unit) py" where
  "InfoMessageHtml c message =
     andthen (WrtHeader ''text/html'' [])
     (andthen (WrtAsUtf (''<html><head><title>Error: Process='' @ py_str_int (getpid c) @ ''</title></head>''))
     (andthen (WrtAsUtf ''<body>'')
     (andthen (WrtAsUtf (''<b>'' @ message @ ''</b><br>''))
     (andthen (WrtAsUtf ''<table>'')
     (andthen (WrtAsUtf (''<tr><td>Cwd</td><td>'' @ getcwd (cg_agent_conf c) @ ''</td></tr>''))
     (andthen (WrtAsUtf (''<tr><td>OS</td><td>'' @ sys_platform' (cg_agent_conf c) @ ''</td></tr>''))
     (andthen (WrtAsUtf (''<tr><td>Version</td><td>'' @ sys_version c @ ''</td></tr>''))
     (andthen (WrtAsUtf ''</table>'')
     (bnd (gets (uriRoot \<circ> pg_agent \<circ> cg_pages)) (\<lambda>root.
      andthen (WrtAsUtf (''<a href=\"'' @ root @ ''/edit_configuration.py\">Setup</a>.<br>''))
     (andthen (WrtAsUtf (''<a href=\"'' @ root @ ''/print_environment_variables.py\">Environment variables</a>.<br>''))
     (bnd (on_agent (TopUrl (cg_agent_conf c) [] [])) (\<lambda>homeUrl.
      andthen (WrtAsUtf (''<a href=\"'' @ homeUrl @ ''\">Return home</a>.<br>''))
        (WrtAsUtf ([CHR 0x0A, CHR 0x09] @ ''</body></html>'' @ [CHR 0x0A, CHR 0x09])))))))))))))))"

text \<open>The exception KeyError of the block is that of the missing variable only.\<close>

definition ErrorMessageHtml :: "cgi_conf \<Rightarrow> string \<Rightarrow> (cgi_state, 'a) py" where
  "ErrorMessageHtml c message =
     bnd (gets globalErrorMessageEnabled) (\<lambda>enabled.
       if enabled
       then (case map_of (environ (cg_agent_conf c)) ''QUERY_STRING'' of
               Some qry \<Rightarrow>
                 if endswith qry ''mode=json'' then WriteJsonError c message
                 else andthen (InfoMessageHtml c message) (raise SystemExit)
             | None \<Rightarrow> andthen (InfoMessageHtml c message) (raise SystemExit))
       else raise (PyException (''ErrorMessageHtml raised:'' @ cgi_escape message @ [CHR 0x0A])))"

definition ErrorMessageEnable :: "bool \<Rightarrow> (cgi_state, unit) py" where
  "ErrorMessageEnable flag = modify (\<lambda>s. s\<lparr>globalErrorMessageEnabled := flag\<rparr>)"

subsection \<open>The constructor of \<^verbatim>\<open>CgiEnv\<close>\<close>

text \<open>
  \<open>caller\<close> is the file name of the code that calls the constructor. A \<^verbatim>\<open>strip\<close> of a docstring that is
  missing is an AttributeError, which is caught.
\<close>

definition GetCallingModuleDoc :: "cgi_conf \<Rightarrow> string \<Rightarrow> bool \<Rightarrow> bool \<Rightarrow> string" where
  "GetCallingModuleDoc c caller ovh mergeMode =
     (if ovh \<or> mergeMode
      then (let filnam = py_replace (py_replace caller [bsl] ''.'') ''/'' ''.'';
                filnam = py_upto filnam (-3);
                htbinIdx = py_find filnam ''survol.'';
                filnam = py_from filnam (htbinIdx + 7);
                filnam = (if ovh then drop 7 filnam else filnam)
            in case modules_doc c filnam of
                 None \<Rightarrow> filnam @ '':No doc''
               | Some None \<Rightarrow> ''Caught when getting doc:'' @ [CHR 0x27] @ ''NoneType'' @ [CHR 0x27] @ '' object has no attribute '' @ [CHR 0x27] @ ''strip'' @ [CHR 0x27]
               | Some (Some theDoc) \<Rightarrow> py_strip theDoc)
      else (case main_doc c of
              None \<Rightarrow> ''No doc''
            | Some page_title \<Rightarrow> if page_title \<noteq> [] then py_strip page_title else ''No doc''))"

definition GetXid :: "field_list \<Rightarrow> (string \<times> string \<times> string) pyres" where
  "GetXid args =
     (case field_value args ''xid'' of
        Inr xid \<Rightarrow> Inr (ParseXid xid)
      | Inl e \<Rightarrow> if e = KeyError then Inr ([], [], []) else Inl e)"

text \<open>The title of the page: the first line of the docstring, the label of the object, the docstring of its class.\<close>

definition env_title :: "cgi_conf \<Rightarrow> string \<Rightarrow> (cgi_state, string) py" where
  "env_title c caller =
     bnd (gets (\<lambda>s. GetCallingModuleDoc c caller (modeOVH s) (globalMergeMode s))) (\<lambda>docModuAll.
       let first_line = hd (py_split (CHR 0x0A) docModuAll)
       in bnd (on_pages (ParseEntityUri (cg_page c) (RequestUri (cg_agent_conf c)) False [])) (\<lambda>(fullTitle, entity_class, entity_id).
         if entity_id \<noteq> []
         then bnd (on_agent (GetEntityModule (cg_agent_conf c) entity_class)) (\<lambda>entity_module.
           let entDoc = (case entity_module of None \<Rightarrow> None | Some m \<Rightarrow> module_doc c m)
           in ret (first_line @ '' '' @ fullTitle @
                (case entDoc of None \<Rightarrow> [] | Some d \<Rightarrow> if d \<noteq> [] then [CHR 0x0A] @ d else [])))
         else ret first_line))"

text \<open>\<^verbatim>\<open>globals()\<close> are those of \<^verbatim>\<open>lib_common.py\<close>, which has no \<^verbatim>\<open>CanProcessRemote\<close>.\<close>

definition globalCanProcessRemote :: bool where
  "globalCanProcessRemote = False"

definition TestRemoteIfPossible :: "cgi_conf \<Rightarrow> cgi_env \<Rightarrow> bool \<Rightarrow> (cgi_state, unit) py" where
  "TestRemoteIfPossible c env can_process_remote =
     (if can_process_remote then ret ()
      else bnd (on_agent (IsLocalAddress (cg_agent_conf c) (m_entity_host env))) (\<lambda>local.
        if local then ret ()
        else ErrorMessageHtml c (''Script '' @ (case argv c of [] \<Rightarrow> [] | a # _ \<Rightarrow> a) @
               '' cannot handle remote hosts on host='' @ m_entity_host env)))"

definition new_env :: "cgi_env \<Rightarrow> (cgi_state, nat) py" where
  "new_env env = (\<lambda>s. (Inr (length (cgi_envs s)), s\<lparr>cgi_envs := cgi_envs s @ [env]\<rparr>))"

definition env_at :: "nat \<Rightarrow> cgi_state \<Rightarrow> cgi_env" where
  "env_at i s = cgi_envs s ! i"

definition upd_env :: "nat \<Rightarrow> (cgi_env \<Rightarrow> cgi_env) \<Rightarrow> (cgi_state, unit) py" where
  "upd_env i f = modify (\<lambda>s. s\<lparr>cgi_envs := (cgi_envs s)[i := f (cgi_envs s ! i)]\<rparr>)"

subsection \<open>The parameters of a script\<close>

text \<open>\<^verbatim>\<open>type(dfltValue)(paramVal)\<close> on a text; \<^verbatim>\<open>bool\<close> of a text is true when it is not empty.\<close>

fun param_convert :: "gval \<Rightarrow> string \<Rightarrow> gval pyres" where
  "param_convert (GText _) paramVal = Inr (GText paramVal)"
| "param_convert (GInt _) paramVal =
     (case py_int paramVal of None \<Rightarrow> Inl ValueError | Some i \<Rightarrow> Inr (GInt i))"
| "param_convert (GBool _) paramVal = Inr (GBool (paramVal \<noteq> []))"

definition GetParameters :: "nat \<Rightarrow> string \<Rightarrow> (cgi_state, gval) py" where
  "GetParameters i paramkey =
     bnd (gets (env_at i)) (\<lambda>env.
       case field_value (m_arguments env) paramkey of
         Inr paramVal \<Rightarrow>
           (case map_of (m_parameters env) paramkey of
              Some dfltValue \<Rightarrow> of_res (param_convert dfltValue paramVal)
            | None \<Rightarrow> ret (GText paramVal))
       | Inl e \<Rightarrow>
           if e \<noteq> KeyError then raise e
           else (case map_of (m_parameters env) paramkey of
                   Some dfltValue \<Rightarrow>
                     if getlist (m_arguments env) ''edimodtype'' \<noteq> []
                     then andthen (upd_env i (\<lambda>env. env\<lparr>m_parameters := AList.update paramkey (GBool False) (m_parameters env)\<rparr>))
                            (ret (GBool False))
                     else ret dfltValue
                 | None \<Rightarrow> ret (GText [])))"

text \<open>
  The form: its controls are written line by line. \<open>TextBox\<close> and \<open>CheckBox\<close> are shown to the user,
  \<open>HiddenType\<close> and \<open>HiddenArg\<close> are not.
\<close>

datatype form_item =
    Html string
  | TextBox string string
  | CheckBox string bool
  | HiddenType string
  | HiddenArg string string

fun item_line :: "form_item \<Rightarrow> string" where
  "item_line (Html line) = line"
| "item_line (TextBox name value) =
     ''<td><input type=\"text\" name=\"'' @ name @ ''\" value=\"'' @ value @ ''\"></td>''"
| "item_line (CheckBox name checked) =
     ''<td><input type=\"checkbox\" name=\"'' @ name @ ''\" value=\"True\"'' @
     (if checked then '' checked'' else []) @ ''></td>''"
| "item_line (HiddenType entity_type) = ''<input type=\"hidden\" name=\"edimodtype\" value=\"'' @ entity_type @ ''\">''"
| "item_line (HiddenArg name value) =
     ''<input type=\"hidden\" name=\"'' @ name @ ''\" value='' @ [CHR 0x27] @ value @ [CHR 0x27] @ ''>''"

definition put_item :: "form_item \<Rightarrow> (cgi_state, form_item list) py" where
  "put_item item = andthen (py_print (item_line item)) (ret [item])"

definition put_items :: "form_item list \<Rightarrow> (cgi_state, form_item list) py" where
  "put_items items = andthen (for_each items put_item) (ret items)"

definition object_items :: "cgi_env \<Rightarrow> form_item list" where
  "object_items env =
     (if m_entity_type env \<noteq> []
      then Html (''<tr><td colspan=2>'' @ m_entity_type env @ ''</td>'') #
           concat (map (\<lambda>(kvKey, kvVal).
             [Html ''<tr>'', Html (''<td>'' @ kvKey @ ''</td>''), TextBox (''edimodargs_'' @ kvKey) kvVal, Html ''</tr>''])
             (m_entity_id_dict env))
      else [])"

fun param_control :: "string \<Rightarrow> gval \<Rightarrow> form_item" where
  "param_control param_key (GBool b) = CheckBox param_key b"
| "param_control param_key v = TextBox param_key (gval_str v)"

definition param_items :: "nat \<Rightarrow> string \<Rightarrow> (cgi_state, form_item list) py" where
  "param_items i param_key =
     bnd (put_items [Html ''<tr>'', Html (''<td>'' @ param_key @ ''</td>'')]) (\<lambda>before.
     bnd (GetParameters i param_key) (\<lambda>param_val.
     bnd (put_items [param_control param_key param_val, Html ''</tr>'']) (\<lambda>after.
       ret (before @ after))))"

definition argument_items :: "cgi_env \<Rightarrow> string list \<Rightarrow> form_item list" where
  "argument_items env argKeys =
     concat (map (\<lambda>key.
       if key \<in> set (map fst (m_parameters env)) then []
       else if m_entity_type env \<noteq> [] \<and> key \<in> set (map (\<lambda>(kvKey, _). ''edimodargs_'' @ kvKey) (m_entity_id_dict env)) then []
       else (let argList = getlist (m_arguments env) key
             in if key = ''mode'' \<and> hd argList = ''edit'' then []
                else if length argList = 1 then [HiddenArg key (hd argList)]
                else map (HiddenArg (key @ ''[]'')) argList)) argKeys)"

definition FormEditionParameters :: "string \<Rightarrow> nat \<Rightarrow> (cgi_state, form_item list) py" where
  "FormEditionParameters formActionNoMode i =
     bnd (gets (env_at i)) (\<lambda>env.
       let argKeys = field_keys (m_arguments env)
       in bnd (put_items ([Html (''<form name=\"myform\" action=\"'' @ formActionNoMode @ ''\" method=\"GET\">''),
                           Html ''<table class=\"table_script_parameters\">''] @ object_items env)) (\<lambda>items1.
          bnd (for_each (map fst (m_parameters env)) (param_items i)) (\<lambda>items2.
          bnd (gets (env_at i)) (\<lambda>env'.
          bnd (put_items (Html ''<tr><td colspan=2>'' #
                 (if ''edimodtype'' \<notin> set argKeys then [HiddenType (m_entity_type env)] else []) @
                 argument_items env' argKeys @
                 [Html ''<input type=\"submit\" value=\"Submit\">'', Html ''</form>'', Html ''</td></tr>'', Html ''</table>''])) (\<lambda>items3.
            ret (items1 @ concat items2 @ items3))))))"

definition DisplayHtmlTextHeader :: "string \<Rightarrow> (cgi_state, unit) py" where
  "DisplayHtmlTextHeader page_title =
     andthen (WrtHeader ''text/html'' [])
     (andthen (WrtAsUtf ''<head>'')
     (andthen (WrtAsUtf (''<title>'' @ page_title @ ''</title>''))
     (andthen (WrtAsUtf ([CHR 0x0A, CHR 0x09, CHR 0x09] @ ''<link rel='' @ [CHR 0x27] @ ''stylesheet'' @ [CHR 0x27] @
         '' type='' @ [CHR 0x27] @ ''text/css'' @ [CHR 0x27] @ '' href=/ui/css/html_exports.css>'' @
        [CHR 0x0A, CHR 0x09, CHR 0x09] @ ''<link rel='' @ [CHR 0x27] @ ''stylesheet'' @ [CHR 0x27] @
         '' type='' @ [CHR 0x27] @ ''text/css'' @ [CHR 0x27] @ '' href='' @ [CHR 0x27] @ ''/survol/www/css/html_exports.css'' @ [CHR 0x27] @ ''>'' @
        [CHR 0x0A, CHR 0x09, CHR 0x09] @ ''<link rel='' @ [CHR 0x27] @ ''stylesheet'' @ [CHR 0x27] @
         '' type='' @ [CHR 0x27] @ ''text/css'' @ [CHR 0x27] @ '' href='' @ [CHR 0x27] @ ''../survol/www/css/html_exports.css'' @ [CHR 0x27] @ ''>'' @
        [CHR 0x0A, CHR 0x09, CHR 0x09]))
       (WrtAsUtf ''</head>''))))"

text \<open>\<^verbatim>\<open>sys.exit(0)\<close> ends the script once the form is written.\<close>

definition EditionMode :: "cgi_conf \<Rightarrow> nat \<Rightarrow> (cgi_state, 'a) py" where
  "EditionMode c i =
     bnd (of_opt KeyError (map_of (environ (cg_agent_conf c)) ''SCRIPT_NAME'')) (\<lambda>formAction.
     bnd (gets (env_at i)) (\<lambda>env.
     bnd (of_opt TypeError (m_page_title env)) (\<lambda>title.
     andthen (DisplayHtmlTextHeader (title @ '' - parameters''))
     (andthen (py_print ''<body>'')
     (andthen (py_print (''<h3>'' @ title @ ''</h3><br>''))
     (andthen (FormEditionParameters formAction i)
     (andthen (py_print ''</body>'')
     (andthen (py_print ''</html>'')
        (raise SystemExit)))))))))"

definition CgiEnv_init :: "cgi_conf \<Rightarrow> string \<Rightarrow> (string \<times> gval) list \<Rightarrow> bool \<Rightarrow> (cgi_state, nat) py" where
  "CgiEnv_init c caller parameters can_process_remote =
     (let mode = cgi_mode c; args = FieldStorage c;
          can_process_remote' = (if can_process_remote \<noteq> globalCanProcessRemote then True else can_process_remote)
      in bnd (env_title c caller) (\<lambda>title.
         bnd (of_res (GetXid args)) (\<lambda>(entity_type, entity_id, entity_host).
           let env = \<lparr>m_parameters = parameters, m_parameterized_links = [], m_page_title = Some title,
                 m_calling_url = RequestUri (cg_agent_conf c), m_can_process_remote = can_process_remote',
                 m_arguments = args, m_entity_type = entity_type, m_entity_id = entity_id,
                 m_entity_host = entity_host, m_entity_id_dict = SplitMoniker entity_id, m_graph = None,
                 m_layoutParams = None\<rparr>
           in andthen (TestRemoteIfPossible c env can_process_remote')
             (bnd (new_env env) (\<lambda>i.
               if mode = ''edit'' then EditionMode c i else ret i)))))"

subsection \<open>The object of the page\<close>

text \<open>The value of the first key of the class, or else of the first key of the moniker.\<close>

definition moniker_value :: "(string \<times> string) list \<Rightarrow> ontokey list \<Rightarrow> string option" where
  "moniker_value splitKV entOnto =
     (case entOnto of
        [] \<Rightarrow> map_option snd (case splitKV of [] \<Rightarrow> None | kv # _ \<Rightarrow> Some kv)
      | keyFirst # _ \<Rightarrow>
          (case map_of splitKV (key_name keyFirst) of
             Some v \<Rightarrow> Some v
           | None \<Rightarrow> map_option snd (case splitKV of [] \<Rightarrow> None | kv # _ \<Rightarrow> Some kv)))"

definition GetId :: "cgi_conf \<Rightarrow> nat \<Rightarrow> (cgi_state, string) py" where
  "GetId c i =
     bnd (gets (env_at i)) (\<lambda>env.
       if m_entity_type env = [] then ret []
       else bnd (try_except
           (bnd (on_agent (OntologyClassKeys (cg_agent_conf c) (m_entity_type env))) (\<lambda>l.
            bnd (gets (keys_at l \<circ> pg_agent \<circ> cg_pages)) (\<lambda>entOnto.
              ret (moniker_value (SplitMoniker (m_entity_id env)) entOnto))))
           (\<lambda>e. if e = KeyError then ret None else raise e)) (\<lambda>v.
         case v of Some v \<Rightarrow> ret v | None \<Rightarrow> EditionMode c i))"

definition GetHost :: "cgi_env \<Rightarrow> string" where
  "GetHost env = m_entity_host env"

definition GetNamespaceType :: "cgi_env \<Rightarrow> string \<times> string \<times> string" where
  "GetNamespaceType env = ParseNamespaceType (m_entity_type env)"

subsection \<open>Links to the page with other parameters\<close>

definition argument_texts :: "field_list \<Rightarrow> (string \<times> string) list pyres" where
  "argument_texts args =
     (if \<exists>k \<in> set (field_keys args). length (getlist args k) \<noteq> 1 then Inl AttributeError
      else Inr (map (\<lambda>k. (k, urllib_quote (hd (getlist args k)) ''/'')) (field_keys args)))"

fun put_params :: "cgi_conf \<Rightarrow> (string \<times> gval) list \<Rightarrow> (string \<times> gval) list \<Rightarrow> (string \<times> string) list \<Rightarrow>
    (cgi_state, (string \<times> string) list) py" where
  "put_params c parameters [] prmsCopy = ret prmsCopy"
| "put_params c parameters ((paramKey, paramVal) # paramsMap) prmsCopy =
     (if map_of parameters paramKey = None
      then ErrorMessageHtml c (''Parameter '' @ paramKey @ '' should be defined for a link'')
      else put_params c parameters paramsMap (AList.update paramKey (gval_str paramVal) prmsCopy))"

definition param_pair :: "string \<times> string \<Rightarrow> string" where
  "param_pair kv = fst kv @ ''='' @ py_replace (snd kv) ''/'' ''%2F''"

definition AddParameterizedLinks :: "cgi_conf \<Rightarrow> nat \<Rightarrow> string \<Rightarrow> (string \<times> gval) list \<Rightarrow> (cgi_state, unit) py" where
  "AddParameterizedLinks c i urlLabel paramsMap =
     bnd (gets (env_at i)) (\<lambda>env.
     bnd (of_res (argument_texts (FieldStorage c))) (\<lambda>args.
     bnd (put_params c (m_parameters env) paramsMap args) (\<lambda>prmsCopy.
       let idxCgi = py_find (m_calling_url env) ''?'';
           labelledUrl = (if idxCgi < 0 then m_calling_url env else py_upto (m_calling_url env) idxCgi);
           kvPairsConcat = py_join ''&amp;amp;'' (map param_pair prmsCopy)
       in upd_env i (\<lambda>env. env\<lparr>m_parameterized_links :=
            AList.update urlLabel (labelledUrl @ ''?'' @ kvPairsConcat) (m_parameterized_links env)\<rparr>))))"

subsection \<open>The graph of a page\<close>

definition new_graph :: "(cgi_state, nat) py" where
  "new_graph = (\<lambda>s. (Inr (length (graphs s)), s\<lparr>graphs := graphs s @ [[]]\<rparr>))"

definition GetGraph :: "nat \<Rightarrow> (cgi_state, nat option) py" where
  "GetGraph i =
     bnd (gets globalMergeMode) (\<lambda>merge.
     bnd (if merge then gets globalGraph else bnd new_graph (\<lambda>g. ret (Some g))) (\<lambda>g.
       andthen (upd_env i (\<lambda>env. env\<lparr>m_graph := g\<rparr>)) (ret g)))"

definition graph_add :: "nat \<Rightarrow> rtriple \<Rightarrow> (cgi_state, unit) py" where
  "graph_add g t = modify (\<lambda>s. s\<lparr>graphs := (graphs s)[g := add_elem t (graphs s ! g)]\<rparr>)"

text \<open>Graphs of the same object by several agents: the nodes with the same universal alias are linked.\<close>

fun HasUnivAlias :: "rnode \<Rightarrow> bool" where
  "HasUnivAlias (RLit _) = False"
| "HasUnivAlias (RUrl anObject) =
     (contains anObject ''entity.py'' \<or> contains anObject ''entity_wbem.py'' \<or> contains anObject ''entity_wmi.py'')"

definition PrepareBinding :: "cgi_conf \<Rightarrow> rnode \<Rightarrow> (string \<times> rnode list) list \<Rightarrow> (cgi_state, (string \<times> rnode list) list) py" where
  "PrepareBinding c anObject dictUniToObjs =
     (if \<not> HasUnivAlias anObject then ret dictUniToObjs
      else bnd (on_pages (NodeToUniversalAlias (cg_page c) (node_text anObject))) (\<lambda>uniDescr.
        ret (AList.update uniDescr
          (add_elem anObject (case map_of dictUniToObjs uniDescr of None \<Rightarrow> [] | Some objs \<Rightarrow> objs)) dictUniToObjs)))"

fun binding_loop :: "cgi_conf \<Rightarrow> rtriple list \<Rightarrow> (string \<times> rnode list) list \<Rightarrow> (cgi_state, (string \<times> rnode list) list) py" where
  "binding_loop c [] dict = ret dict"
| "binding_loop c ((aSubj, aPred, anObj) # grph) dict =
     bnd (PrepareBinding c aSubj dict) (\<lambda>dict1. bnd (PrepareBinding c anObj dict1) (binding_loop c grph))"

fun link_nodes :: "nat \<Rightarrow> rnode list \<Rightarrow> (cgi_state, unit) py" where
  "link_nodes g (nodePrevious # otherNode # relatedNodes) =
     andthen (graph_add g (nodePrevious, property_alias, otherNode)) (link_nodes g (otherNode # relatedNodes))"
| "link_nodes g _ = ret ()"

definition BindIdenticalNodes :: "cgi_conf \<Rightarrow> nat \<Rightarrow> (cgi_state, unit) py" where
  "BindIdenticalNodes c i =
     bnd (gets (env_at i)) (\<lambda>env.
     bnd (of_opt AttributeError (m_graph env)) (\<lambda>g.
     bnd (gets (\<lambda>s. graphs s ! g)) (\<lambda>grph.
     bnd (binding_loop c grph []) (\<lambda>dictUniToObjs.
     bnd (for_each (map snd dictUniToObjs) (link_nodes g)) (\<lambda>_. ret ())))))"

end
