(* ===== verification/Pages.thy ===== *)
theory Pages
  imports Cgi Base64
begin

text \<open>
  The output of a page, from \<^verbatim>\<open>survol/lib_exports.py\<close> and \<^verbatim>\<open>survol/lib_common.py\<close>: the tree of the scripts
  of an object for the contextual menu, the legend of a page for Graphviz, and the choice of the format. A
  menu and a JSON document are the values that are passed to \<^verbatim>\<open>json.dumps\<close>. What is written by code that is
  not modelled here (the pages in HTML, rdflib, the nodes in SVG, for which see \<open>DotGraph\<close>) is a constructor of
  \<open>page_out\<close> with its arguments.
\<close>

subsection \<open>The menu of the scripts\<close>

datatype menu_item = MenuItem (menu_name: rlit) (menu_url: rnode) (menu_items: "(rnode \<times> menu_item) list option")

record menu_graph =
  NodesToItems :: "(rnode \<times> rnode list) list"
  NodesWithParent :: "rnode list"
  SubjectNodes :: "rnode list"
  NodesToNames :: "(rnode \<times> rlit) list"

text \<open>The exception is the TypeError of \<^verbatim>\<open>raise\<close> with a text.\<close>

definition menu_step :: "rtriple \<Rightarrow> menu_graph \<Rightarrow> menu_graph pyres" where
  "menu_step t g =
     (case t of (subj, pred, obj) \<Rightarrow>
        if pred = property_script
        then Inr (g\<lparr>NodesToItems := AList.update subj
                      ((case map_of (NodesToItems g) subj of None \<Rightarrow> [] | Some l \<Rightarrow> l) @ [obj]) (NodesToItems g),
                    NodesToNames := (if IsLiteral obj then AList.update obj (LVal (GText (node_text obj))) (NodesToNames g)
                                     else NodesToNames g),
                    NodesWithParent := add_elem obj (NodesWithParent g),
                    SubjectNodes := add_elem subj (SubjectNodes g)\<rparr>)
        else if pred = property_information
        then (case obj of
                RLit v \<Rightarrow> Inr (g\<lparr>NodesToNames := AList.update subj v (NodesToNames g)\<rparr>)
              | RUrl _ \<Rightarrow> Inl TypeError)
        else Inr g)"

fun menu_loop :: "rtriple list \<Rightarrow> menu_graph \<Rightarrow> menu_graph pyres" where
  "menu_loop [] g = Inr g"
| "menu_loop (t # grph) g = (case menu_step t g of Inl e \<Rightarrow> Inl e | Inr g' \<Rightarrow> menu_loop grph g')"

text \<open>The first argument is the recursion limit of Python.\<close>

fun AddStuff :: "nat \<Rightarrow> menu_graph \<Rightarrow> rnode list \<Rightarrow> ('s, (rnode \<times> menu_item) list) py" where
  "AddStuff 0 g theNodList = raise too_deep"
| "AddStuff (Suc n) g theNodList =
     bnd (for_each theNodList (\<lambda>oneRdfNod.
       let name = (case map_of (NodesToNames g) oneRdfNod of None \<Rightarrow> LVal (GText ''No name'') | Some v \<Rightarrow> v)
       in case map_of (NodesToItems g) oneRdfNod of
            None \<Rightarrow> ret (oneRdfNod, MenuItem name oneRdfNod None)
          | Some lstItem \<Rightarrow>
              bnd (AddStuff n g lstItem) (\<lambda>items. ret (oneRdfNod, MenuItem name oneRdfNod (Some items)))))
       (\<lambda>listJsonItems. ret (foldl (\<lambda>d (k, v). AList.update k v d) [] listJsonItems))"

text \<open>
  The top-level nodes are a set, and their items a dictionary: \<open>order\<close> is the order in which Python iterates
  over them.
\<close>

definition Grph2Menu :: "(rnode list \<Rightarrow> rnode list) \<Rightarrow> nat \<Rightarrow> rtriple list \<Rightarrow> ('s, (rnode \<times> menu_item) list) py" where
  "Grph2Menu order limit grph =
     bnd (of_res (menu_loop grph \<lparr>NodesToItems = [], NodesWithParent = [], SubjectNodes = [], NodesToNames = []\<rparr>)) (\<lambda>g.
     bnd (AddStuff limit g (order (filter (\<lambda>n. n \<notin> set (NodesWithParent g)) (SubjectNodes g)))) (\<lambda>menuJson.
       case order (map fst menuJson) of
         [] \<Rightarrow> ret []
       | oneMenuKey # _ \<Rightarrow>
           bnd (of_opt KeyError (map_of menuJson oneMenuKey)) (\<lambda>item. of_opt KeyError (menu_items item))))"

subsection \<open>The legend of a page\<close>

definition sq :: "string \<Rightarrow> string" where
  "sq s = [CHR 0x27] @ s @ [CHR 0x27]"

definition FontString :: "agent_conf \<Rightarrow> string" where
  "FontString c =
     (if isPlatformWindows c then ''fontname=\"DejaVu Sans\"''
      else ''fontpath=\"/usr/share/fonts\" fontname=\"DejaVuSans\"'')"

definition ModedUrl :: "cgi_conf \<Rightarrow> string \<Rightarrow> string pyres" where
  "ModedUrl c otherMode = RequestUriModed (cg_agent_conf c) otherMode"

definition htbinPrefixScript :: string where
  "htbinPrefixScript = ''/survol''"

definition UrlWWW :: "cgi_conf \<Rightarrow> string \<Rightarrow> string pyres" where
  "UrlWWW c pageHtml =
     (case ModedUrl c [] of
        Inl e \<Rightarrow> Inl e
      | Inr callingUrl \<Rightarrow>
          (let urlHost = py_upto callingUrl (py_find callingUrl htbinPrefixScript);
               d3UrlDir = (if contains urlHost ''primhillcomputers.com'' then ''/../ui'' else ''/survol/www'')
           in Inr (urlHost @ d3UrlDir @ ''/'' @ pageHtml)))"

definition UrlToMergeD3 :: "cgi_conf \<Rightarrow> string pyres" where
  "UrlToMergeD3 c =
     (case ModedUrl c [] of
        Inl e \<Rightarrow> Inl e
      | Inr callingUrl \<Rightarrow>
          (let urlWithoutHost = py_from callingUrl (py_find callingUrl htbinPrefixScript);
               htbinPrefixMergeScript = ''/survol/merge_scripts.py'';
               urlWithoutHostB64 = (if startswith urlWithoutHost htbinPrefixMergeScript
                 then drop (length htbinPrefixMergeScript) urlWithoutHost
                 else ''?url='' @ Base64Encode callingUrl)
           in case UrlWWW c ''index.htm'' of Inl e \<Rightarrow> Inl e | Inr u \<Rightarrow> Inr (u @ urlWithoutHostB64)))"

text \<open>A link of the legend; the calls that may fail are made before the text is written.\<close>

definition UrlForDot :: "string \<Rightarrow> string" where
  "UrlForDot mdUrl = UrlToSvg (py_replace mdUrl [bsl, bsl] [bsl, bsl, bsl])"

definition format_cell :: "string \<times> string \<Rightarrow> string" where
  "format_cell ut = ''<td align='' @ sq ''left'' @ '' href='' @ sq (UrlForDot (fst ut)) @ ''>'' @ DotUL (snd ut) @ ''</td>''"

definition LegendAddAlternateDisplayLinks :: "cgi_conf \<Rightarrow> ('s, string) py" where
  "LegendAddAlternateDisplayLinks c =
     bnd (of_res (ModedUrl c ''html'')) (\<lambda>urlHtml.
     bnd (of_res (ModedUrl c ''json'')) (\<lambda>urlJson.
     bnd (of_res (ModedUrl c ''rdf'')) (\<lambda>urlRdf.
     bnd (of_res (UrlToMergeD3 c)) (\<lambda>urlD3.
       ret (''<tr><td colspan='' @ sq ''4'' @ ''><table border='' @ sq ''0'' @ ''>'' @ ''<tr><td>(</td>'' @
         py_join ''<td>,</td>'' (map format_cell [(urlHtml, ''HTML''), (urlJson, ''JSON''), (urlRdf, ''RDF''), (urlD3, ''D3'')]) @
         ''<td>)</td></tr>'' @ ''</table></td></tr>'')))))"

definition parameter_row :: "cgi_conf \<Rightarrow> string \<times> gval \<Rightarrow> ('s, string) py" where
  "parameter_row c kv =
     (case kv of (keyParam, valParam) \<Rightarrow>
        bnd (case field_value (FieldStorage c) keyParam of
               Inr v \<Rightarrow> ret v
             | Inl e \<Rightarrow> if e = KeyError then ret (gval_str valParam) else raise e) (\<lambda>actualParam.
          ret (''<tr><td colspan=\"2\">'' @ keyParam @ '':</td><td colspan=\"2\">'' @ DotIt actualParam @ ''</td></tr>'')))"

definition legend_link :: "string \<Rightarrow> string \<Rightarrow> string" where
  "legend_link url label = ''<tr><td colspan='' @ sq ''4'' @ '' href='' @ sq url @ '' align='' @ sq ''left'' @ ''>'' @
     DotBold (DotUL label) @ ''</td></tr>''"

definition LegendAddParametersLinks ::
    "cgi_conf \<Rightarrow> (string \<times> gval) list \<Rightarrow> (string \<times> string) list \<Rightarrow> ('s, string) py" where
  "LegendAddParametersLinks c parameters parameterized_links =
     bnd (if parameters \<noteq> []
          then bnd (of_res (ModedUrl c ''edit'')) (\<lambda>urlEdit.
               bnd (for_each parameters (parameter_row c)) (\<lambda>rows.
                 ret (legend_link (UrlToSvg urlEdit) ''Edit script parameters'' @ concat rows)))
          else ret []) (\<lambda>params_text.
       ret (params_text @ concat (map (\<lambda>(urlLabel, paramUrl). legend_link paramUrl urlLabel) parameterized_links)))"

definition LegendFooter :: "cgi_conf \<Rightarrow> string \<Rightarrow> (cgi_state, string) py" where
  "LegendFooter c topUrl =
     bnd (of_res (UrlWWW c ''help.htm'')) (\<lambda>help_url.
     bnd (gets (uriRoot \<circ> pg_agent \<circ> cg_pages)) (\<lambda>root.
       ret (''<tr>'' @
         ''<td align=\"left\" href=\"'' @ topUrl @ ''\">'' @ DotBold (DotUL ''Home'') @ ''</td>'' @
         concat (map (\<lambda>(url, label). ''<td href='' @ sq url @ '' align='' @ sq ''left'' @ ''>'' @ DotBold (DotUL label) @ ''</td>'')
           [(root @ ''/edit_configuration.py'', ''Setup''), (root @ ''/edit_credentials.py'', ''Credentials''),
            (UrlToSvg help_url, ''Help'')]) @ ''</tr>'')))"

definition WriteDotLegend :: "cgi_conf \<Rightarrow> string \<Rightarrow> string \<Rightarrow> string option \<Rightarrow> bool \<Rightarrow> (string \<times> gval) list \<Rightarrow>
    (string \<times> string) list \<Rightarrow> (cgi_state, string) py" where
  "WriteDotLegend c page_title topUrl errMsg isSubServer parameters parameterized_links =
     (case SplitTextTitleRest page_title of (page_title_first, page_title_rest) \<Rightarrow>
       let page_title_full = DotBold (StrWithBr page_title_first 2) @ withBrDelim @ StrWithBr page_title_rest 2
       in bnd (LegendAddAlternateDisplayLinks c) (\<lambda>formats.
          bnd (LegendAddParametersLinks c parameters parameterized_links) (\<lambda>links.
          bnd (LegendFooter c topUrl) (\<lambda>footer.
          bnd (if isSubServer
               then bnd (of_res (ModedUrl c ''stop'')) (\<lambda>urlStop.
                 ret (''<tr><td colspan=\"2\" href=\"'' @ UrlToSvg urlStop @ ''\">'' @ DotUL ''Stop subserver'' @ ''</td></tr>''))
               else ret []) (\<lambda>stop_row.
            ret (''node [shape=plaintext '' @ FontString (cg_agent_conf c) @ '' ]'' @
              [CHR 0x0A] @ ''  subgraph cluster_01 {'' @ [CHR 0x0A] @
              ''    subgraph_cluster_key [shape=none, label=<<table border=\"1\" cellpadding=\"0\" cellspacing=\"0\" cellborder=\"0\">'' @
              ''<tr><td colspan='' @ sq ''4'' @ ''>'' @ page_title_full @ ''</td></tr>'' @ formats @ links @ footer @
              (case errMsg of
                 None \<Rightarrow> []
               | Some e \<Rightarrow> if e = [] then []
                   else ''<tr><td align=\"left\"  balign=\"left\" colspan=\"2\">'' @ StrWithBr (DotBold ''Error: '' @ e) 2 @ ''</td></tr>'') @
              stop_row @ [CHR 0x0A] @ ''      </table>>]'' @ [CHR 0x0A] @ ''  }'' @ [CHR 0x0A] @ '' '' @ [CHR 0x09]))))))"

subsection \<open>The head of the page for Graphviz\<close>

definition dot_line :: "string \<Rightarrow> string \<Rightarrow> string" where
  "dot_line key value = '' '' @ key @ ''=\"'' @ value @ ''\"; '' @ [CHR 0x0A]"

definition dot_style :: "string \<Rightarrow> string \<times> string" where
  "dot_style layout_style =
     (if layout_style = ''LAYOUT_RECT'' then (''dot'', dot_line ''splines'' ''ortho'' @ dot_line ''rankdir'' ''LR'')
      else if layout_style = ''LAYOUT_RECT_RL'' then (''dot'', dot_line ''splines'' ''ortho'' @ dot_line ''rankdir'' ''RL'')
      else if layout_style = ''LAYOUT_RECT_TB'' then (''dot'', dot_line ''splines'' ''ortho'' @ dot_line ''rankdir'' ''TB'')
      else if layout_style = ''LAYOUT_TWOPI'' then (''twopi'', dot_line ''rankdir'' ''LR'')
      else if layout_style = ''LAYOUT_SPLINE'' then (''fdp'', dot_line ''splines'' ''spline'' @ dot_line ''rankdir'' ''LR'')
      else (''fdp'', dot_line ''rankdir'' ''LR''))"

text \<open>The layout of \<^verbatim>\<open>dot\<close>, and the text that is written.\<close>

definition WriteDotHeader :: "agent_conf \<Rightarrow> string \<Rightarrow> string \<Rightarrow> string \<times> string" where
  "WriteDotHeader c page_title layout_style =
     (let dot_layout = fst (dot_style layout_style)
      in (dot_layout, ''digraph \"'' @ page_title @ ''\" { '' @ [CHR 0x0A] @ snd (dot_style layout_style) @
            dot_line ''layout'' dot_layout @ '' node [ '' @ FontString c @ '' ] ; '' @ [CHR 0x0A]))"

subsection \<open>The format of the page\<close>

text \<open>
  \<open>OutSvg\<close> has the layout, the text of the file before its nodes, the graph and the collapsed properties
  for \<^verbatim>\<open>Rdf2Dot\<close>.
\<close>

datatype page_out =
    OutHtml nat string "string option" "nat list"
  | OutJson graph_doc
  | OutMenu "(rnode \<times> menu_item) list"
  | OutRdf "rtriple list"
  | OutSvg string string "rtriple list" "string list"

definition OutCgiMode :: "cgi_conf \<Rightarrow> nat \<Rightarrow> string \<Rightarrow> string \<Rightarrow> string option \<Rightarrow> (cgi_state, page_out) py" where
  "OutCgiMode c i topUrl mode errorMsg =
     andthen (BindIdenticalNodes c i)
     (bnd (gets (env_at i)) (\<lambda>env.
      bnd (of_opt AttributeError (m_graph env)) (\<lambda>g.
      bnd (gets (\<lambda>s. graphs s ! g)) (\<lambda>grph.
      bnd (of_opt AttributeError (m_layoutParams env)) (\<lambda>(layout_style, collapsed_properties).
      bnd (of_opt TypeError (m_page_title env)) (\<lambda>pageTitle.
        if mode = ''html'' then bnd (gets globalCgiEnvList) (\<lambda>envs. ret (OutHtml i topUrl errorMsg envs))
        else if mode = ''json'' then bnd (on_pages (Grph2Json (cg_page c) pageTitle grph)) (\<lambda>doc. ret (OutJson doc))
        else if mode = ''menu'' then bnd (Grph2Menu (node_order c) (recursion_limit c) grph) (\<lambda>menu. ret (OutMenu menu))
        else if mode = ''rdf'' then ret (OutRdf grph)
        else (case WriteDotHeader (cg_agent_conf c) pageTitle layout_style of (dot_layout, head_text) \<Rightarrow>
          bnd (WriteDotLegend c pageTitle topUrl errorMsg False (m_parameters env) (m_parameterized_links env)) (\<lambda>legend.
            ret (OutSvg dot_layout (head_text @ legend) grph collapsed_properties)))))))))"

text \<open>In the mode of merging, the page is kept for \<^verbatim>\<open>MergeOutCgiRdf\<close>.\<close>

definition OutCgiRdf :: "cgi_conf \<Rightarrow> nat \<Rightarrow> string \<Rightarrow> string list \<Rightarrow> (cgi_state, page_out option) py" where
  "OutCgiRdf c i dot_layout collapsed_properties =
     andthen (upd_env i (\<lambda>env. env\<lparr>m_layoutParams := Some (dot_layout, collapsed_properties)\<rparr>))
     (bnd (gets (env_at i)) (\<lambda>env.
      let mode = cgi_mode c
      in bnd (on_agent (TopUrl (cg_agent_conf c) (m_entity_type env) (m_entity_id env))) (\<lambda>topUrl.
         andthen (if m_page_title env = None
                  then upd_env i (\<lambda>env. env\<lparr>m_page_title := Some ''PAGE TITLE SHOULD BE SET''\<rparr>) else ret ())
         (bnd (gets globalMergeMode) (\<lambda>merge.
            if merge then andthen (modify (\<lambda>s. s\<lparr>globalCgiEnvList := globalCgiEnvList s @ [i]\<rparr>)) (ret None)
            else bnd (OutCgiMode c i topUrl mode None) (\<lambda>out. ret (Some out)))))))"

end
