(* ===== verification/Merge.thy ===== *)
theory Merge
  imports Pages
begin

text \<open>
  The merge of several pages into one, from \<^verbatim>\<open>survol/merge_scripts.py\<close> and \<^verbatim>\<open>survol/lib_common.py\<close>: the
  script of each URL is imported and run with the variables of the environment that its URL gives, adds its
  triples to the shared graph, and leaves its \<^verbatim>\<open>CgiEnv\<close> in a list; then one page is written. The import of a
  script (\<open>import_script\<close>, with the package and the name) and the text of an exception (\<open>exc_text\<close>) are
  parameters; the main function of a script is a computation on the state, given the environment.
\<close>

record merge_conf =
  import_script :: "string \<Rightarrow> string \<Rightarrow> (cgi_conf \<Rightarrow> (cgi_state, unit) py) pyres"
  exc_text :: "pyexc \<Rightarrow> string"

definition CgiEnvMergeMode :: "(cgi_state, unit) py" where
  "CgiEnvMergeMode =
     bnd new_graph (\<lambda>g. modify (\<lambda>s. s\<lparr>globalMergeMode := True, globalCgiEnvList := [], globalGraph := Some g\<rparr>))"

subsection \<open>The script of a URL\<close>

definition split_query :: "string \<Rightarrow> string \<times> string" where
  "split_query complete_url =
     (let urlSplit = py_split (CHR ''?'') complete_url
      in (urlSplit ! 0, if 1 < length urlSplit then urlSplit ! 1 else []))"

definition script_path :: "string \<Rightarrow> string" where
  "script_path urlNoArgs =
     (let idxHtbin = py_find urlNoArgs ''sources_types/''
      in if idxHtbin = -1
         then (let idxSurvol = py_find urlNoArgs ''survol/''
               in if idxSurvol = -1 then ''INVALID_MERGED_URL'' else py_from urlNoArgs (idxSurvol + 7))
         else py_from urlNoArgs idxHtbin)"

definition GetScriptModule ::
    "merge_conf \<Rightarrow> string \<Rightarrow> string \<Rightarrow> (cgi_conf \<Rightarrow> (cgi_state, unit) py) option pyres" where
  "GetScriptModule mc currentModule fil =
     (if py_from fil (-3) \<noteq> ''.py'' then Inr None
      else (case import_script mc currentModule (if currentModule \<noteq> [] then ''.'' @ py_upto fil (-3) else py_upto fil (-3)) of
              Inl e \<Rightarrow> Inl e
            | Inr main \<Rightarrow> Inr (Some main)))"

definition set_environ :: "(string \<times> string) list \<Rightarrow> cgi_conf \<Rightarrow> cgi_conf" where
  "set_environ vars c =
     c\<lparr>cg_page := (cg_page c)\<lparr>pg_conf := (pg_conf (cg_page c))\<lparr>environ :=
        foldl (\<lambda>env (k, v). AList.update k v env) (environ (cg_agent_conf c)) vars\<rparr>\<rparr>\<rparr>"

definition inject_url :: "string \<Rightarrow> cgi_conf \<Rightarrow> cgi_conf" where
  "inject_url complete_url c =
     (case split_query complete_url of (urlNoArgs, cgiQueryString) \<Rightarrow>
        set_environ [(''REQUEST_URI'', urllib_unquote complete_url),
                     (''SCRIPT_NAME'', basename (script_path urlNoArgs)), (''QUERY_STRING'', cgiQueryString)] c)"

definition script_of :: "merge_conf \<Rightarrow> string \<Rightarrow> (cgi_conf \<Rightarrow> (cgi_state, unit) py) option pyres" where
  "script_of mc complete_url =
     (let urlPathShort = script_path (fst (split_query complete_url))
      in GetScriptModule mc (py_replace (dirname urlPathShort) ''/'' ''.'') (basename urlPathShort))"

subsection \<open>The loop over the URLs\<close>

text \<open>SystemExit is no \<^verbatim>\<open>Exception\<close>. The result is the environment that is left, and the messages of errors.\<close>

fun merge_loop :: "merge_conf \<Rightarrow> string list \<Rightarrow> cgi_conf \<Rightarrow> string \<Rightarrow> (cgi_state, cgi_conf \<times> string) py" where
  "merge_loop mc [] c cumulatedError = ret (c, cumulatedError)"
| "merge_loop mc (urlfil # urls) c cumulatedError =
     (let complete_url = Base64Decode urlfil; urlNoArgs = fst (split_query complete_url);
          urlFilNam = basename (script_path urlNoArgs); c' = inject_url complete_url c
      in case script_of mc complete_url of
           Inl e \<Rightarrow> if e = SystemExit then raise e else merge_loop mc urls c cumulatedError
         | Inr None \<Rightarrow> merge_loop mc urls c (''merge_scripts.py Cannot import complete_url='' @ complete_url)
         | Inr (Some main) \<Rightarrow>
             bnd (try_except (andthen (ErrorMessageEnable False) (andthen (main c') (ret None)))
                   (\<lambda>e. if e = SystemExit then raise e else ret (Some e))) (\<lambda>r.
               case r of
                 None \<Rightarrow> andthen (ErrorMessageEnable True) (merge_loop mc urls c' cumulatedError)
               | Some e \<Rightarrow> merge_loop mc urls c'
                   ((if cumulatedError \<noteq> [] then cumulatedError @ '' ; '' else cumulatedError) @
                    '' url='' @ urlNoArgs @ '' / '' @ urlFilNam @ '':'' @ exc_text mc e)))"

subsection \<open>The merged page\<close>

record merged =
  mg_title :: string
  mg_layout :: string
  mg_collapsed :: "string list"
  mg_params :: "(string \<times> gval) list"
  mg_links :: "(string \<times> string) list"

definition dict_update :: "('k \<times> 'v) list \<Rightarrow> ('k \<times> 'v) list \<Rightarrow> ('k \<times> 'v) list" where
  "dict_update d other = foldl (\<lambda>d (k, v). AList.update k v d) d other"

definition merge_env :: "bool \<Rightarrow> cgi_env \<Rightarrow> merged \<Rightarrow> merged pyres" where
  "merge_env is_first theCgiEnv g =
     (case (m_page_title theCgiEnv, m_layoutParams theCgiEnv) of
        (Some title, Some (layout_style, collapsed_properties)) \<Rightarrow>
          (case SplitTextTitleRest title of (page_title_first, page_title_rest) \<Rightarrow>
             Inr (g\<lparr>mg_title := mg_title g @ (if is_first then [] else '', '') @ page_title_first @
                        (if page_title_rest \<noteq> [] then '' ('' @ page_title_rest @ '')'' else []),
                    mg_layout := layout_style,
                    mg_collapsed := mg_collapsed g @ collapsed_properties,
                    mg_params := dict_update (mg_params g) (m_parameters theCgiEnv),
                    mg_links := dict_update (mg_links g) (m_parameterized_links theCgiEnv)\<rparr>))
      | _ \<Rightarrow> Inl AttributeError)"

fun merge_envs :: "bool \<Rightarrow> cgi_env list \<Rightarrow> merged \<Rightarrow> merged pyres" where
  "merge_envs is_first [] g = Inr g"
| "merge_envs is_first (e # es) g = (case merge_env is_first e g of Inl x \<Rightarrow> Inl x | Inr g' \<Rightarrow> merge_envs False es g')"

definition MergeOutCgiRdf :: "cgi_conf \<Rightarrow> string \<Rightarrow> string \<Rightarrow> (cgi_state, page_out) py" where
  "MergeOutCgiRdf c theMode cumulatedError =
     bnd (gets (\<lambda>s. map (\<lambda>i. env_at i s) (globalCgiEnvList s))) (\<lambda>envs.
     bnd (of_res (merge_envs True envs
            \<lparr>mg_title = ''Merge of '' @ py_str_int (int (length envs)) @ '' scripts:'' @ [CHR 0x0A], mg_layout = [],
             mg_collapsed = [], mg_params = [], mg_links = []\<rparr>)) (\<lambda>g.
     bnd (on_agent (TopUrl (cg_agent_conf c) [] [])) (\<lambda>topUrl.
     bnd (CgiEnv_init c (lib_common_file c) [] False) (\<lambda>i.
     bnd (gets globalGraph) (\<lambda>graph.
     andthen (upd_env i (\<lambda>env. env\<lparr>m_graph := graph, m_page_title := Some (mg_title g),
         m_layoutParams := Some (mg_layout g, foldl (\<lambda>xs x. add_elem x xs) [] (mg_collapsed g)),
         m_arguments := FieldStorage c, m_parameters := mg_params g, m_parameterized_links := mg_links g,
         m_entity_type := [], m_entity_id := [], m_entity_host := []\<rparr>))
       (OutCgiMode c i topUrl theMode (Some cumulatedError)))))))"

definition merge_main :: "merge_conf \<Rightarrow> cgi_conf \<Rightarrow> (cgi_state, page_out) py" where
  "merge_main mc c =
     andthen CgiEnvMergeMode
     (bnd (merge_loop mc (getlist (FieldStorage c) ''url'') c []) (\<lambda>(c', cumulatedError).
        MergeOutCgiRdf (set_environ [(''REQUEST_URI'', RequestUri (cg_agent_conf c))] c') (cgi_mode c) cumulatedError))"

end
