(* ===== verification/NamingProps.thy ===== *)
theory NamingProps
  imports Naming PatternProps
begin

text \<open>
  The names of the objects: the URL that the agent makes for an object is parsed into its parts, its label
  is the list of the values of its keys, and its universal alias is the name of the host, the class and
  the values, whatever the agent that made the URL.
\<close>

subsection \<open>The parts of the URL of an object\<close>

definition plain_url_char :: "char \<Rightarrow> bool" where
  "plain_url_char c \<longleftrightarrow> c \<notin> {CHR ''#'', CHR ''?'', CHR ''&'', CHR '';'', CHR ''['', CHR '']'', CHR 0x0A}"

text \<open>The root of the URLs of an agent: the protocol, the address and a path.\<close>

definition agent_root :: "string \<Rightarrow> string \<Rightarrow> bool" where
  "agent_root root net \<longleftrightarrow> list_all plain_url_char net \<and> CHR ''/'' \<notin> set net \<and>
     (\<exists>p. root = ''http://'' @ net @ p \<and> (p = [] \<or> hd p = CHR ''/'') \<and> list_all plain_url_char p)"

lemma plain_chars:
  "list_all plain_url_char s \<Longrightarrow> c \<in> {CHR ''#'', CHR ''?'', CHR ''&'', CHR '';'', CHR ''['', CHR '']'', CHR 0x0A} \<Longrightarrow> c \<notin> set s"
  by (induction s) (auto simp: plain_url_char_def)

lemma root_plain: "agent_root root net \<Longrightarrow> list_all plain_url_char (root @ ''/entity.py'')"
proof -
  assume "agent_root root net"
  then obtain p where p: "root = ''http://'' @ net @ p" "list_all plain_url_char net" "list_all plain_url_char p"
    unfolding agent_root_def by blast
  show ?thesis unfolding p(1) list_all_append using p(2,3) by (simp add: plain_url_char_def)
qed

lemma replace_absent: "old = c # r \<Longrightarrow> c \<notin> set s \<Longrightarrow> py_replace s old new = s"
proof -
  assume "old = c # r" "c \<notin> set s"
  then have "split_str old 0 s = [s]"
    by (induction s) (auto simp: startswith_def split: list.splits)
  then show ?thesis by (simp add: py_replace_def)
qed

lemma UrlNoAmp_plain: "CHR ''&'' \<notin> set u \<Longrightarrow> UrlNoAmp u = u"
  by (simp add: UrlNoAmp_def replace_absent)

lemma cut_at_first: "c \<notin> set a \<Longrightarrow> cut_at c (a @ c # b) = (a, b)"
  by (auto simp: cut_at_def takeWhile_append dropWhile_append takeWhile_eq_all_conv)

lemma cut_at_none: "c \<notin> set a \<Longrightarrow> cut_at c a = (a, [])"
proof -
  assume "c \<notin> set a"
  then have "takeWhile (\<lambda>x. x \<noteq> c) a = a" "dropWhile (\<lambda>x. x \<noteq> c) a = []" by (auto simp: takeWhile_eq_all_conv)
  note plain = this
  show ?thesis unfolding cut_at_def plain by simp
qed

lemma basename_last: "CHR ''/'' \<notin> set b \<Longrightarrow> basename (a @ CHR ''/'' # b) = b"
  by (auto simp: basename_def rsplit_at_def takeWhile_append takeWhile_eq_all_conv)

lemma unmoded:
  assumes "set u \<inter> {CHR ''&'', CHR ''?''} = {}" "set v \<inter> {CHR ''&'', CHR ''?''} = {}"
  shows "rmatch (dot_star # mode_part) (u @ ''?xid='' @ v) = None"
proof (rule rmatch_url_none, intro allI impI notI)
  fix a d b assume e: "u @ ''?xid='' @ v = a @ [d] @ ''mode='' @ b" and d: "cgi_sep d"
  have "d = CHR ''?'' \<or> d = CHR ''&''" using d by (auto simp: cgi_sep_def)
  moreover have "d \<noteq> CHR ''&''" using arg_cong [OF e, of set] assms by auto
  ultimately have "u @ CHR ''?'' # (''xid='' @ v) = a @ CHR ''?'' # (''mode='' @ b)" using e by simp
  then obtain us where "u = a @ us \<and> us @ CHR ''?'' # (''xid='' @ v) = CHR ''?'' # (''mode='' @ b) \<or>
      a = u @ us \<and> CHR ''?'' # (''xid='' @ v) = us @ CHR ''?'' # (''mode='' @ b)"
    unfolding append_eq_append_conv2 by blast
  moreover have "CHR ''?'' \<notin> set u" "CHR ''?'' \<notin> set v" using assms by auto
  ultimately show False by (cases us) (auto simp: Cons_eq_append_conv)
qed

lemma urlparse_agent:
  assumes "agent_root root net" "list_all plain_url_char x"
  shows "survol_urlparse (root @ ''/entity.py?xid='' @ x) =
    Inr \<lparr>u_scheme = ''http'', u_netloc = net, u_path = drop (7 + length net) root @ ''/entity.py'', u_params = [],
      u_query = ''xid='' @ x, u_fragment = []\<rparr>"
proof -
  obtain p where p: "root = ''http://'' @ net @ p" "p = [] \<or> hd p = CHR ''/''" "list_all plain_url_char p"
    "list_all plain_url_char net" "CHR ''/'' \<notin> set net"
    using assms(1) by (auto simp: agent_root_def)
  let ?rest = "''/entity.py?xid='' @ x"
  have "drop (length (''http://'' @ net)) ((''http://'' @ net) @ p) = p"
    by (rule append_eq_conv_conj [THEN iffD1, THEN conjunct2, OF refl, symmetric])
  moreover have "length (''http://'' @ net) = 7 + length net" by simp
  ultimately have len: "drop (7 + length net) root = p" unfolding p(1) by (simp only: append_assoc)
  have sc: "split_scheme (root @ ?rest) = (''http'', ''//'' @ net @ p @ ?rest)"
    by (simp add: p(1) split_scheme_def Let_def to_lower_def)
  let ?in = "\<lambda>c. c \<notin> set ''/?#''"
  have plain: "\<forall>c \<in> set net. ?in c" using p(4,5) by (auto simp: plain_url_char_def list_all_iff)
  obtain y where y: "p @ ?rest = CHR ''/'' # y" using p(2) by (cases p) auto
  then have "takeWhile ?in (net @ p @ ?rest) = net" "dropWhile ?in (net @ p @ ?rest) = p @ ?rest"
    unfolding y using plain by (auto simp: takeWhile_append2 dropWhile_append2)
  then have nl: "split_netloc (''//'' @ net @ p @ ?rest) = (net, p @ ?rest)"
    unfolding split_netloc_def Let_def by simp
  have no: "CHR ''#'' \<notin> set (p @ ?rest)" "CHR ''?'' \<notin> set (p @ ''/entity.py'')"
    using p(3) assms(2) by (auto simp: plain_url_char_def list_all_iff)
  have qu: "cut_at (CHR ''?'') (p @ ?rest) = (p @ ''/entity.py'', ''xid='' @ x)"
    using cut_at_first [OF no(2), of "''xid='' @ x"] by simp
  have base: "basename (p @ ''/entity.py'') = ''entity.py''" using basename_last [of "''entity.py''" p] by simp
  have pa: "split_params (p @ ''/entity.py'') = (p @ ''/entity.py'', [])"
    using cut_at_none [of "CHR '';''" "''entity.py''"] by (simp add: split_params_def base Let_def)
  have br: "CHR ''['' \<notin> set net" "CHR '']'' \<notin> set net" using p(4) by (auto simp: plain_url_char_def list_all_iff)
  show ?thesis
    unfolding survol_urlparse_def sc Let_def fst_conv snd_conv nl cut_at_none [OF no(1)] qu pa
    using br len by (simp add: uses_params_def)
qed

lemma url_of_agent:
  assumes "agent_root root net" "list_all plain_url_char x"
  shows "UrlNoAmp (root @ ''/entity.py?xid='' @ x) = root @ ''/entity.py?xid='' @ x"
    "AnyUriModed (root @ ''/entity.py?xid='' @ x) [] = root @ ''/entity.py?xid='' @ x"
    "GetModeFromUrl (root @ ''/entity.py?xid='' @ x) = []"
proof -
  have r: "set (root @ ''/entity.py'') \<inter> {CHR ''&'', CHR ''?''} = {}"
    using plain_chars [OF root_plain [OF assms(1)]] by blast
  have x: "set x \<inter> {CHR ''&'', CHR ''?''} = {}" using plain_chars [OF assms(2)] by blast
  have "CHR ''&'' \<notin> set (root @ ''/entity.py'')" "CHR ''&'' \<notin> set (''?xid='' @ x)" using r x by auto
  then have "CHR ''&'' \<notin> set ((root @ ''/entity.py'') @ ''?xid='' @ x)" unfolding set_append by blast
  then show "UrlNoAmp (root @ ''/entity.py?xid='' @ x) = root @ ''/entity.py?xid='' @ x"
    using UrlNoAmp_plain by simp
  have "rmatch (dot_star # mode_part) (root @ ''/entity.py?xid='' @ x) = None"
    using unmoded [OF r x] by simp
  then show "AnyUriModed (root @ ''/entity.py?xid='' @ x) [] = root @ ''/entity.py?xid='' @ x"
    "GetModeFromUrl (root @ ''/entity.py?xid='' @ x) = []"
    by (simp_all add: AnyUriModed_def GetModeFromUrl_def)
qed

subsection \<open>The label and the alias of an object\<close>

text \<open>A class without its own function: the search in the modules finds none.\<close>

abbreviation no_function :: "page_conf \<Rightarrow> string \<Rightarrow> string \<Rightarrow> bool" where
  "no_function c t g \<equiv> search_answer (pg_conf c) (g, t) = Inr None"

text \<open>
  An object: its class, the keys of the class and their values, and its moniker, which has the pairs of keys
  and values in any order, because the agent that wrote it iterated over a dictionary.
\<close>

definition object_of ::
    "page_conf \<Rightarrow> page_state \<Rightarrow> string \<Rightarrow> ontokey list \<Rightarrow> string list \<Rightarrow> (string \<times> string) list \<Rightarrow> bool" where
  "object_of c s t ks ids d \<longleftrightarrow> agent_ok (pg_conf c) (pg_agent s) \<and> class_ok t \<and> ks \<noteq> [] \<and>
     (\<exists>r a. OntologyClassKeys (pg_conf c) t (pg_agent s) = (Inr r, a) \<and> keys_at r a = ks) \<and>
     distinct (map key_name ks) \<and> list_all (\<lambda>k. key_ok (key_name k)) ks \<and> length ids = length ks \<and>
     list_all (\<lambda>v. uri_text v \<and> list_all plain_url_char v) ids \<and>
     mset d = mset (zip (map key_name ks) ids)"

definition object_url :: "string \<Rightarrow> string \<Rightarrow> (string \<times> string) list \<Rightarrow> string" where
  "object_url root t d = root @ ''/entity.py?xid='' @ t @ ''.'' @ BuildMonikerPath d"

lemma object_pairs:
  assumes "object_of c s t ks ids d"
  shows "set d = set (zip (map key_name ks) ids)" "distinct (map fst d)" "pairs_ok d"
proof -
  note m = assms [unfolded object_of_def]
  show 1: "set d = set (zip (map key_name ks) ids)" using m mset_eq_setD by blast
  have "mset (map fst d) = mset (map fst (zip (map key_name ks) ids))" using m by (simp only: mset_map)
  moreover have "distinct (map fst (zip (map key_name ks) ids))" using m by simp
  ultimately show 2: "distinct (map fst d)" using mset_eq_imp_distinct_iff by blast
  have "key_ok k \<and> uri_text v" if "(k, v) \<in> set d" for k v
    using m set_zip_leftD [OF that [unfolded 1]] set_zip_rightD [OF that [unfolded 1]] by (auto simp: list_all_iff)
  with 2 show "pairs_ok d" by (auto simp: pairs_ok_def)
qed

lemma label_ids_object:
  assumes "object_of c s t ks ids d"
  shows "label_ids (decoded_pairs d) ks = map urllib_unquote ids" "extra_keys (decoded_pairs d) ks = []"
proof -
  note m = assms [unfolded object_of_def] and p = object_pairs [OF assms]
  have 1: "distinct (map fst (decoded_pairs d))" using p(2) by (simp add: decoded_pairs_def o_def)
  show "label_ids (decoded_pairs d) ks = map urllib_unquote ids"
  proof (rule nth_equalityI)
    fix i assume "i < length (label_ids (decoded_pairs d) ks)"
    then have i: "i < length ks" by (simp add: label_ids_def)
    have "(key_name (ks ! i), ids ! i) \<in> set d"
      using i m unfolding p(1) by (auto simp: set_zip intro!: exI [of _ i])
    then have "(key_name (ks ! i), urllib_unquote (ids ! i)) \<in> set (decoded_pairs d)"
      by (force simp: decoded_pairs_def)
    then have "map_of (decoded_pairs d) (key_name (ks ! i)) = Some (urllib_unquote (ids ! i))"
      using 1 by (intro map_of_is_SomeI)
    with i m show "label_ids (decoded_pairs d) ks ! i = map urllib_unquote ids ! i" by (simp add: label_ids_def)
  qed (use m in \<open>simp add: label_ids_def\<close>)
  have "fst kv \<in> key_name ` set ks" if kv: "kv \<in> set (decoded_pairs d)" for kv
  proof -
    obtain v where "(fst kv, v) \<in> set d" using kv by (auto simp: decoded_pairs_def)
    then have "fst kv \<in> set (map key_name ks)" unfolding p(1) by (rule set_zip_leftD)
    then show ?thesis by simp
  qed
  then show "extra_keys (decoded_pairs d) ks = []" by (fastforce simp: extra_keys_def)
qed

lemma plain_moniker:
  assumes "object_of c s t ks ids d"
  shows "list_all plain_url_char (t @ ''.'' @ BuildMonikerPath d)"
proof -
  note p = object_pairs [OF assms]
  have w: "plain_url_char x" if "word_char x" for x using that by (auto simp: word_char_def plain_url_char_def)
  have "list_all plain_url_char (pair_text kv)" if kv: "kv \<in> set d" for kv
  proof -
    obtain k v where e: "kv = (k, v)" by (cases kv)
    have "key_ok k" using kv p(3) by (auto simp: e pairs_ok_def)
    moreover have "list_all plain_url_char v"
      using assms set_zip_rightD [OF kv [unfolded e p(1)]] by (auto simp: object_of_def list_all_iff)
    moreover have "plain_url_char (CHR ''='')" by (simp add: plain_url_char_def)
    ultimately show ?thesis using w key_chars by (fastforce simp: e pair_text_def list_all_iff)
  qed
  moreover have "plain_url_char (CHR '','')" by (simp add: plain_url_char_def)
  ultimately have "list_all plain_url_char (BuildMonikerPath d)"
    using set_py_join [of "'',''" "map pair_text d"]
    unfolding BuildMonikerPath_def list_all_iff by fastforce
  moreover have "list_all plain_url_char t"
    using assms class_chars [of t] w unfolding object_of_def list_all_iff class_char_def
    by (auto simp: plain_url_char_def)
  ultimately show ?thesis by (simp add: plain_url_char_def)
qed

lemma moniker_not_Nil: "object_of c s t ks ids d \<Longrightarrow> BuildMonikerPath (decoded_pairs d) \<noteq> []"
proof -
  assume a: "object_of c s t ks ids d"
  then have "size d = size (zip (map key_name ks) ids)" "ks \<noteq> []" "length ids = length ks"
    unfolding object_of_def by (metis size_mset)+
  then have "d \<noteq> []" by auto
  then show ?thesis by (cases d) (simp_all add: BuildMonikerPath_def decoded_pairs_def py_join_Cons pair_text_def)
qed

text \<open>The alias, before the cache: the keys come from the ontology, and no function is found.\<close>

lemma alias_label:
  assumes "object_of c s t ks ids d" "no_function c t ''UniversalAlias''" "f \<noteq> []"
  shows "\<exists>s'. EntityToLabel c t (BuildMonikerPath (decoded_pairs d)) f s =
      (Inr (f @ ''@'' @ t @ '':'' @ py_join '','' (map urllib_unquote ids)), s') \<and>
    agent_ok (pg_conf c) (pg_agent s') \<and> dictNodeToUniversalAlias s' = dictNodeToUniversalAlias s"
proof -
  obtain r a where o: "OntologyClassKeys (pg_conf c) t (pg_agent s) = (Inr r, a)" "keys_at r a = ks"
    using assms(1) by (auto simp: object_of_def)
  have ok: "agent_ok (pg_conf c) a"
    using keepsD [OF ok_keys_keeps, of "pg_conf c" "pg_agent s" t] assms(1) o(1) by (simp add: object_of_def)
  then have "modules_ok (pg_conf c) a \<and> memo_valid search_lookup (search_answer (pg_conf c)) a"
    by (simp add: agent_ok_def)
  from searches.run [OF this, of "(''UniversalAlias'', t)"] obtain b where
    b: "HierarchicalFunctionSearch (pg_conf c) t ''UniversalAlias'' a = (Inr None, b)" using assms(2) by auto
  have "agent_ok (pg_conf c) b" using keepsD [OF ok_search, of "pg_conf c" a t "''UniversalAlias''"] ok b by simp
  moreover note moniker_read [OF object_pairs(3) [OF assms(1)]]
  ultimately show ?thesis
    using moniker_not_Nil [OF assms(1)] o b assms(3) label_ids_object [OF assms(1)]
    by (simp add: EntityToLabel_def EntityArrToAlias_def on_page_def bnd_run Let_def)
qed

definition host_of :: "string \<Rightarrow> string" where
  "host_of net = map to_lower (hd (py_split (CHR '':'') net))"

definition object_alias :: "string \<Rightarrow> string \<Rightarrow> string list \<Rightarrow> string" where
  "object_alias net t ids = host_of net @ ''@'' @ t @ '':'' @ py_join '','' ids"

lemma to_lower_at: "to_lower x = CHR ''@'' \<Longrightarrow> x = CHR ''@''"
  by (auto simp: to_lower_def Let_def split: if_splits dest!: arg_cong [where f = "of_char :: char \<Rightarrow> nat"])

lemma class_no_colon: "class_ok t \<Longrightarrow> py_split (CHR '':'') t = [t]"
proof -
  assume "class_ok t"
  then have "CHR '':'' \<notin> set t" using class_chars by (fastforce simp: class_char_def word_char_def)
  then show ?thesis by (induction t) auto
qed

lemma ParseXid_object:
  assumes "object_of c s t ks ids d"
  shows "ParseXid (t @ ''.'' @ BuildMonikerPath d) = (t, BuildMonikerPath (decoded_pairs d), [])"
  using xid_parsed [of t "[]", OF _ _ object_pairs(3) [OF assms]] assms
  by (simp add: object_of_def host_ok_def at_host_def)

text \<open>The URL of an object is one of an entity, and its name is the label of the object.\<close>

lemma parse_object:
  assumes "object_of c s t ks ids d" "agent_root root net"
    "EntityToLabel c t (BuildMonikerPath (decoded_pairs d)) f s = (Inr label, s')" "label \<noteq> []"
  shows "ParseEntityUri c (object_url root t d) longDisplay f s =
    (Inr (label, t, BuildMonikerPath (decoded_pairs d)), s')"
proof -
  let ?m = "BuildMonikerPath d" and ?n = "BuildMonikerPath (decoded_pairs d)"
  let ?x = "t @ ''.'' @ ?m"
  have x: "list_all plain_url_char ?x" using plain_moniker [OF assms(1)] .
  have u: "object_url root t d = root @ ''/entity.py?xid='' @ ?x" by (simp add: object_url_def)
  note url = url_of_agent [OF assms(2) x] urlparse_agent [OF assms(2) x]
  have base: "basename (drop (7 + length net) root @ ''/entity.py'') = ''entity.py''"
    using basename_last [of "''entity.py''" "drop (7 + length net) root"] by simp
  have ns: "ParseNamespaceType t = ([], t, t)"
    using assms(1) class_no_colon [of t] by (simp add: ParseNamespaceType_def object_of_def)
  have title: "script_title ''entity.py'' label = label" using assms(4) by (simp add: script_title_def scripts_to_titles_def)
  have ne: "?n \<noteq> []" using moniker_not_Nil [OF assms(1)] .
  have px: "ParseXid (t @ CHR ''.'' # ?m) = (t, ?n, [])" using ParseXid_object [OF assms(1)] by simp
  have "startswith (''xid='' @ ?x) ''xid=''" by (simp add: startswith_def)
  then show ?thesis
    unfolding u ParseEntityUri.simps url Let_def
    using assms(3,4) ne
    by (simp add: base entity_uri_name_def px ns bnd_run KnownScriptToTitle_def title Let_def)
qed

lemma alias_computed:
  assumes "object_of c s t ks ids d" "no_function c t ''UniversalAlias''" "agent_root root net" "host_of net \<noteq> []"
    "map_of (dictNodeToUniversalAlias s) (object_url root t d) = None"
  shows "\<exists>s'. NodeToUniversalAlias c (object_url root t d) s = (Inr (object_alias net t (map urllib_unquote ids)), s') \<and>
    agent_ok (pg_conf c) (pg_agent s') \<and>
    map_of (dictNodeToUniversalAlias s') =
      (map_of (dictNodeToUniversalAlias s))(object_url root t d \<mapsto> object_alias net t (map urllib_unquote ids))"
proof -
  obtain s' where s': "EntityToLabel c t (BuildMonikerPath (decoded_pairs d)) (host_of net) s =
      (Inr (object_alias net t (map urllib_unquote ids)), s')"
    "agent_ok (pg_conf c) (pg_agent s')" "dictNodeToUniversalAlias s' = dictNodeToUniversalAlias s"
    using alias_label [OF assms(1,2,4)] by (auto simp: object_alias_def)
  have "object_alias net t (map urllib_unquote ids) \<noteq> []" by (simp add: object_alias_def)
  note parsed = parse_object [OF assms(1,3) s'(1) this, of True]
  have "survol_urlparse (object_url root t d) = Inr \<lparr>u_scheme = ''http'', u_netloc = net,
      u_path = drop (7 + length net) root @ ''/entity.py'', u_params = [],
      u_query = ''xid='' @ t @ ''.'' @ BuildMonikerPath d, u_fragment = []\<rparr>"
    using urlparse_agent [OF assms(3) plain_moniker [OF assms(1)]] by (simp add: object_url_def)
  then have "MakeUniversalAliasNoCache c (object_url root t d) s = (Inr (object_alias net t (map urllib_unquote ids)), s')"
    using parsed by (simp add: MakeUniversalAliasNoCache_def bnd_run host_of_def Let_def)
  with assms(5) s'(2,3) show ?thesis
    by (simp add: NodeToUniversalAlias_def bnd_run andthen_run)
qed

lemma join_inj:
  assumes "py_join [c] xs = py_join [c] ys" "\<forall>x \<in> set xs. c \<notin> set x" "\<forall>y \<in> set ys. c \<notin> set y" "xs \<noteq> []" "ys \<noteq> []"
  shows "xs = ys"
  using py_split_py_join [OF assms(4,2)] py_split_py_join [OF assms(5,3)] unfolding assms(1) by (rule trans [OF sym])

lemma object_alias_eq:
  assumes "object_of c s t ks is d" "object_of c' s' t' ks' is' d'" "CHR ''@'' \<notin> set net" "CHR ''@'' \<notin> set net'"
    and "ids = map urllib_unquote is" "ids' = map urllib_unquote is'"
  shows "object_alias net t ids = object_alias net' t' ids' \<longleftrightarrow> host_of net = host_of net' \<and> t = t' \<and> ids = ids'"
proof
  assume e: "object_alias net t ids = object_alias net' t' ids'"
  have h: "CHR ''@'' \<notin> set (host_of n)" if "CHR ''@'' \<notin> set n" for n
  proof -
    have "set (hd (py_split (CHR '':'') n)) \<subseteq> set n" by (rule split_chars [where c = "CHR '':''"]) simp
    with that have "\<forall>x \<in> set (hd (py_split (CHR '':'') n)). to_lower x \<noteq> CHR ''@''"
      using to_lower_at by blast
    then show ?thesis by (auto simp: host_of_def)
  qed
  have col: "CHR '':'' \<notin> set u" if "class_ok u" for u
    using class_chars [OF that] by (fastforce simp: class_char_def word_char_def)
  have 1: "host_of net = host_of net' \<and> t @ CHR '':'' # py_join '','' ids = t' @ CHR '':'' # py_join '','' ids'"
    using e h [OF assms(3)] h [OF assms(4)] unfolding object_alias_def
    by (intro first_occurrence [where c = "CHR ''@''"]) simp_all
  then have 2: "t = t' \<and> py_join '','' ids = py_join '','' ids'"
    using assms(1,2) col by (intro first_occurrence [where c = "CHR '':''"]) (auto simp: object_of_def)
  have comma: "\<forall>v \<in> set ids. CHR '','' \<notin> set v" "\<forall>v \<in> set ids'. CHR '','' \<notin> set v"
    using assms(1,2,5,6) by (auto simp: object_of_def uri_text_def plain_value_def list_all_iff)
  moreover have "ids \<noteq> []" "ids' \<noteq> []" using assms(1,2,5,6) by (auto simp: object_of_def)
  ultimately have "ids = ids'" using 2 by (intro join_inj [of "CHR '',''" ids ids']) auto
  with 1 2 show "host_of net = host_of net' \<and> t = t' \<and> ids = ids'" by blast
qed (simp add: object_alias_def)

text \<open>The URL that \<^verbatim>\<open>UriMake\<close> gives is one of the object, with the pairs in the order of its dictionary.\<close>

lemma object_url_made:
  assumes "object_of c s t ks ids d" "dict_order_ok (pg_conf c)"
  shows "\<exists>e a. UriMake (pg_conf c) [] t ids (pg_agent s) = (Inr (object_url (uriRoot (pg_agent s)) t e), a) \<and>
    object_of c s t ks ids e"
proof -
  obtain r a where o: "OntologyClassKeys (pg_conf c) t (pg_agent s) = (Inr r, a)" "keys_at r a = ks"
    "length ids = length ks" "distinct (map key_name ks)" using assms(1) by (auto simp: object_of_def)
  let ?z = "zip (map key_name ks) ids"
  have "uriRoot a = uriRoot (pg_agent s)"
    using keepsD [OF uriRoot_kept [of "uriRoot (pg_agent s)" "pg_conf c" t], of "pg_agent s"] o(1) by simp
  moreover have "zip_dict (map key_name ks) ids = ?z" using o(3,4) by (intro zip_dict_distinct) simp_all
  ultimately have "UriMake (pg_conf c) [] t ids (pg_agent s) =
      (Inr (object_url (uriRoot (pg_agent s)) t (dict_items (pg_conf c) fst ?z)), a)" using o
    by (simp add: UriMake_def BuildEntity_def MakeTheNodeFromScript_def bnd_run xidCgiDelimiter_def BuildMonikerPath_def
        object_url_def)
  moreover have "mset (dict_items (pg_conf c) fst ?z) = mset ?z"
    using o(3,4) by (intro mset_dict_items [OF assms(2)]) simp
  then have "object_of c s t ks ids (dict_items (pg_conf c) fst ?z)" using assms(1) unfolding object_of_def by auto
  ultimately show ?thesis by blast
qed


lemma sample_started: "lib_util_init sample_conf = Inr sample_agent"
  by (simp add: lib_util_init_def sample_conf_def sample_agent_def UriRootHelper_def HttpPrefix_def HostName_def
      TopScriptsFunc_def GlobalGetHostByName_def Let_def py_find_def endswith_def to_lower_def py_upto_def clip_def)

definition sample_pairs :: "(string \<times> string) list" where
  "sample_pairs = [(''Db'', ''X%2FE''), (''Schema'', ''EMP'')]"

lemma sample_object:
  assumes "mset d = mset sample_pairs"
  shows "object_of sample_page (page_start sample_agent) ''oracle/table'' (keys_at 0 sample_table) [''X%2FE'', ''EMP''] d"
proof -
  have "agent_ok sample_conf sample_agent" using sample_started by (rule ok_init)
  moreover have "keys_at 0 sample_table \<noteq> []" "distinct (map key_name (keys_at 0 sample_table))"
    "list_all (\<lambda>k. key_ok (key_name k)) (keys_at 0 sample_table)" "length [''X%2FE'', ''EMP''] = length (keys_at 0 sample_table)"
    "zip (map key_name (keys_at 0 sample_table)) [''X%2FE'', ''EMP''] = sample_pairs"
    by (simp_all add: sample_table_def sample_pairs_def keys_at_def Let_def key_ok_def word_char_def)
  moreover have "class_ok ''oracle/table''" by (simp add: class_ok_def class_start_def class_char_def word_char_def)
  moreover have "urllib_unquote ''X%2FE'' = ''X/E''" "urllib_unquote ''EMP'' = ''EMP''" by code_simp+
  then have "list_all (\<lambda>v. uri_text v \<and> list_all plain_url_char v) [''X%2FE'', ''EMP'']"
    by (simp add: uri_text_def plain_value_def plain_url_char_def)
  ultimately show ?thesis
    using sample_keys assms by (auto simp: object_of_def sample_page_def page_start_def)
qed

lemma sample_no_alias: "no_function sample_page ''oracle/table'' ''UniversalAlias''"
  by (simp add: search_answer_def packages_above_def GetEntityModuleNoCache_def GetEntityModuleNoCacheNoCatch_def
      sample_page_def sample_conf_def upt_rec)


end
