(* ===== verification/ExportProps.thy ===== *)
theory ExportProps
  imports Exports NamingProps
begin

text \<open>
  The JSON document of a graph: its nodes are the nodes of the triples that are kept, each once and in the
  order of their first use, its links are the triples between them, and the literals are in the information
  of their subjects. The texts of labels are cut into lines without the loss of a letter.
\<close>

subsection \<open>What the document must hold\<close>

fun kept :: "rtriple \<Rightarrow> bool" where
  "kept (subj, pred, obj) \<longleftrightarrow>
     pred \<noteq> property_script \<and> ScriptForJson (node_text subj) \<and> ScriptForJson (node_text obj)"

fun used_by :: "rtriple \<Rightarrow> rnode list \<Rightarrow> rnode list" where
  "used_by (subj, pred, obj) ns =
     (if \<not> kept (subj, pred, obj) then ns
      else if IsLink obj then add_elem obj (add_elem subj ns) else add_elem subj ns)"

definition used_nodes :: "rtriple list \<Rightarrow> rnode list" where
  "used_nodes grph = foldl (\<lambda>ns t. used_by t ns) [] grph"

definition id_of :: "page_conf \<Rightarrow> rnode \<Rightarrow> string" where
  "id_of c n = node_url c (node_text n)"

definition links_of :: "page_conf \<Rightarrow> rtriple list \<Rightarrow> (string \<times> string \<times> string) list" where
  "links_of c grph =
     map (\<lambda>(subj, pred, obj). (id_of c subj, id_of c obj, PropToShortPropNam pred))
       (filter (\<lambda>(subj, pred, obj). kept (subj, pred, obj) \<and> IsLink obj) grph)"

text \<open>The texts of the property information of a node, and its other literals by the name of the property.\<close>

definition infos_of :: "rnode \<Rightarrow> rtriple list \<Rightarrow> string list" where
  "infos_of n grph = map (\<lambda>(subj, pred, obj). node_text obj)
     (filter (\<lambda>(subj, pred, obj). kept (subj, pred, obj) \<and> subj = n \<and> IsLiteral obj \<and> pred = property_information) grph)"

fun node_value :: "rnode \<Rightarrow> gval" where
  "node_value (RLit v) = info_value v"
| "node_value (RUrl u) = GText u"

definition values_of :: "rnode \<Rightarrow> rtriple list \<Rightarrow> (string \<times> gval) list" where
  "values_of n grph = map (\<lambda>(subj, pred, obj). (PropToShortPropNam pred, node_value obj))
     (filter (\<lambda>(subj, pred, obj). kept (subj, pred, obj) \<and> subj = n \<and> IsLiteral obj \<and> pred \<noteq> property_information) grph)"

subsection \<open>The loop\<close>

definition entry_ok :: "page_conf \<Rightarrow> rtriple list \<Rightarrow> rnode \<Rightarrow> node_json \<Rightarrow> bool" where
  "entry_ok c past n v \<longleftrightarrow> m_survol_url v = id_of c n \<and> m_info_list v = m_class v # infos_of n past \<and>
     map_of (m_info_dict v) = map_of (rev (values_of n past))"

definition json_inv :: "page_conf \<Rightarrow> rtriple list \<Rightarrow> rnode list \<Rightarrow> json_graph \<Rightarrow> bool" where
  "json_inv c past ns g \<longleftrightarrow> map fst (dictNod2Json g) = ns \<and> distinct ns \<and>
     NodeJsonNumber g = length ns \<and> map (m_index \<circ> snd) (dictNod2Json g) = [0 ..< length ns] \<and>
     (\<forall>(n, v) \<in> set (dictNod2Json g). entry_ok c past n v) \<and>
     (\<forall>n. n \<notin> set ns \<longrightarrow> infos_of n past = [] \<and> values_of n past = [])"

lemma distinct_add_elem: "distinct xs \<Longrightarrow> distinct (add_elem x xs)"
  by (simp add: add_elem_def)

lemma set_add_elem [simp]: "set (add_elem x xs) = insert x (set xs)"
  by (auto simp: add_elem_def)

definition returns_on :: "page_conf \<Rightarrow> (page_state \<Rightarrow> bool) \<Rightarrow> rnode \<Rightarrow> bool" where
  "returns_on c I n \<longleftrightarrow> (\<forall>k s. I s \<longrightarrow> (\<exists>v s'. NodeJson_init c n k s = (Inr v, s') \<and> I s'))"

lemma NodeJson_init_fields:
  assumes "NodeJson_init c n k s = (Inr v, s')"
  shows "m_survol_url v = id_of c n" "m_info_list v = [m_class v]" "m_info_dict v = []" "m_index v = k"
  using assms by (auto simp: NodeJson_init_def id_of_def bnd_eq_Inr ret_def split: prod.splits)

lemma NodeToJsonObj_run:
  assumes "json_inv c past ns g" "returns_on c I n" "I s"
  shows "\<exists>v g' s'. NodeToJsonObj c n g s = (Inr (v, g'), s') \<and> I s' \<and> json_inv c past (add_elem n ns) g' \<and>
    m_survol_url v = id_of c n \<and> json_links g' = json_links g"
proof (cases "map_of (dictNod2Json g) n")
  case (Some v)
  then have "(n, v) \<in> set (dictNod2Json g)" by (rule map_of_SomeD)
  moreover from this have "n \<in> set ns" using assms(1) unfolding json_inv_def by force
  ultimately show ?thesis using Some assms(1,3)
    by (auto simp: NodeToJsonObj_def add_elem_def json_inv_def entry_ok_def)
next
  case None
  obtain v s' where v: "NodeJson_init c n (NodeJsonNumber g) s = (Inr v, s')" "I s'"
    using assms(2,3) unfolding returns_on_def by blast
  have n: "n \<notin> set ns" using None assms(1) unfolding json_inv_def map_of_eq_None_iff by force
  let ?g = "g\<lparr>NodeJsonNumber := NodeJsonNumber g + 1, dictNod2Json := dictNod2Json g @ [(n, v)]\<rparr>"
  have "NodeToJsonObj c n g s = (Inr (v, ?g), s')" using None v(1) by (simp add: NodeToJsonObj_def bnd_run)
  moreover have "json_inv c past (add_elem n ns) ?g"
    using assms(1) n NodeJson_init_fields [OF v(1)] by (auto simp: json_inv_def add_elem_def entry_ok_def)
  ultimately show ?thesis using v(2) NodeJson_init_fields(1) [OF v(1)] by auto
qed

lemma past_step:
  "infos_of n (past @ [(subj, pred, obj)]) = infos_of n past @
     (if kept (subj, pred, obj) \<and> subj = n \<and> IsLiteral obj \<and> pred = property_information then [node_text obj] else [])"
  "values_of n (past @ [(subj, pred, obj)]) = values_of n past @
     (if kept (subj, pred, obj) \<and> subj = n \<and> IsLiteral obj \<and> pred \<noteq> property_information
      then [(PropToShortPropNam pred, node_value obj)] else [])"
  "links_of c (past @ [(subj, pred, obj)]) = links_of c past @
     (if kept (subj, pred, obj) \<and> IsLink obj then [(id_of c subj, id_of c obj, PropToShortPropNam pred)] else [])"
  by (auto simp: infos_of_def values_of_def links_of_def)

declare kept.simps [simp del]

lemma json_inv_same:
  assumes "json_inv c past ns g" "\<And>n. infos_of n (past @ [t]) = infos_of n past" "\<And>n. values_of n (past @ [t]) = values_of n past"
  shows "json_inv c (past @ [t]) ns g"
  using assms by (simp add: json_inv_def entry_ok_def)

lemma json_step_run:
  assumes "json_inv c past ns g" "json_links g = links_of c past" "I s"
    "\<And>n. n \<in> set (used_by t ns) \<Longrightarrow> returns_on c I n"
  shows "\<exists>g' s'. json_step c t g s = (Inr g', s') \<and> I s' \<and> json_inv c (past @ [t]) (used_by t ns) g' \<and>
    json_links g' = links_of c (past @ [t])"
proof -
  obtain subj pred obj where t: "t = (subj, pred, obj)" by (cases t)
  show ?thesis
  proof (cases "kept t")
    case False
    then have "json_step c t g s = (Inr g, s)" by (auto simp: t kept.simps)
    with False assms(1-3) show ?thesis
      by (intro exI [of _ g] exI [of _ s] conjI json_inv_same) (simp_all add: t past_step)
  next
    case True
    then have "subj \<in> set (used_by t ns)" by (auto simp: t)
    from NodeToJsonObj_run [OF assms(1) assms(4) [OF this] assms(3)] obtain v g1 s1 where
      1: "NodeToJsonObj c subj g s = (Inr (v, g1), s1)" "I s1" "json_inv c past (add_elem subj ns) g1"
      "m_survol_url v = id_of c subj" "json_links g1 = json_links g" by blast
    show ?thesis
    proof (cases obj)
      case (RUrl u)
      then have "obj \<in> set (used_by t ns)" using True by (auto simp: t)
      from NodeToJsonObj_run [OF 1(3) assms(4) [OF this] 1(2)] obtain v2 g2 s2 where
        2: "NodeToJsonObj c obj g1 s1 = (Inr (v2, g2), s2)" "I s2" "json_inv c past (add_elem obj (add_elem subj ns)) g2"
        "m_survol_url v2 = id_of c obj" "json_links g2 = json_links g1" by blast
      let ?g = "g2\<lparr>json_links := json_links g2 @ [(m_survol_url v, m_survol_url v2, PropToShortPropNam pred)]\<rparr>"
      have "json_step c t g s = (Inr ?g, s2)"
        using True 1(1) 2(1) RUrl by (simp add: t kept.simps bnd_run Let_def)
      moreover have "json_inv c (past @ [t]) (used_by t ns) ?g"
        using 2(3) True RUrl by (auto simp: t past_step json_inv_def entry_ok_def)
      ultimately show ?thesis using 1 2 True RUrl assms(2) by (auto simp: t past_step)
    next
      case (RLit l)
      let ?f = "if pred = property_information then (\<lambda>n. n\<lparr>m_info_list := m_info_list n @ [rlit_text l]\<rparr>)
        else (\<lambda>n. n\<lparr>m_info_dict := AList.update (PropToShortPropNam pred) (info_value l) (m_info_dict n)\<rparr>)"
      have run: "json_step c t g s = (Inr (upd_node subj ?f g1), s1)"
        using True 1(1) RLit by (simp add: t kept.simps bnd_run Let_def)
      have keys: "map fst (map (\<lambda>(k, w). (k, if k = subj then ?f w else w)) xs) = map fst xs"
        "map (m_index \<circ> snd) (map (\<lambda>(k, w). (k, if k = subj then ?f w else w)) xs) = map (m_index \<circ> snd) xs" for xs
        by (induction xs) auto
      have "entry_ok c (past @ [t]) n (if n = subj then ?f w else w)" if "entry_ok c past n w" for n w
        using that True RLit by (auto simp: entry_ok_def t past_step update_conv')
      then have "json_inv c (past @ [t]) (used_by t ns) (upd_node subj ?f g1)"
        using 1(3) True RLit keys [of "dictNod2Json g1"]
        by (fastforce simp: json_inv_def upd_node_def t past_step)
      then show ?thesis using run 1 True RLit assms(2) by (auto simp: t past_step upd_node_def)
    qed
  qed
qed

lemma used_nodes_snoc: "used_nodes (past @ [t]) = used_by t (used_nodes past)"
  by (simp add: used_nodes_def)

lemma used_by_more: "set ns \<subseteq> set (used_by t ns)"
  by (cases t) auto

lemma used_nodes_more: "set (used_nodes past) \<subseteq> set (used_nodes (past @ grph))"
proof (induction grph rule: rev_induct)
  case (snoc t grph)
  then show ?case using used_by_more [of "used_nodes (past @ grph)" t]
    unfolding append_assoc [symmetric] used_nodes_snoc by blast
qed simp

lemma json_loop_run:
  assumes "json_inv c past (used_nodes past) g" "json_links g = links_of c past" "I s"
    "\<And>n. n \<in> set (used_nodes (past @ grph)) \<Longrightarrow> returns_on c I n"
  shows "\<exists>g' s'. json_loop c grph g s = (Inr g', s') \<and> I s' \<and> json_inv c (past @ grph) (used_nodes (past @ grph)) g' \<and>
    json_links g' = links_of c (past @ grph)"
  using assms
proof (induction grph arbitrary: past g s)
  case Nil
  then show ?case by auto
next
  case (Cons t grph)
  have "n \<in> set (used_by t (used_nodes past)) \<Longrightarrow> returns_on c I n" for n
    using Cons.prems(4) used_nodes_more [of "past @ [t]" grph] by (auto simp: used_nodes_snoc)
  from json_step_run [OF Cons.prems(1-3) this] obtain g1 s1 where
    1: "json_step c t g s = (Inr g1, s1)" "I s1" "json_inv c (past @ [t]) (used_nodes (past @ [t])) g1"
    "json_links g1 = links_of c (past @ [t])" unfolding used_nodes_snoc by blast
  from Cons.IH [OF 1(3,4,2)] Cons.prems(4) show ?case using 1(1) by (simp add: bnd_run)
qed

lemma fill_slots:
  "map (m_index \<circ> snd) d = [k ..< k + length d] \<Longrightarrow> length xs = k + length d \<Longrightarrow>
   foldl (\<lambda>nodes (_, v). nodes[m_index v := Some (f v)]) xs d = take k xs @ map (Some \<circ> f \<circ> snd) d"
proof (induction d arbitrary: k xs)
  case (Cons e d)
  obtain n v where e: "e = (n, v)" by (cases e)
  have i: "m_index v = k" "map (m_index \<circ> snd) d = [Suc k ..< Suc k + length d]"
  proof -
    have "[k ..< k + length (e # d)] = k # [Suc k ..< Suc k + length d]"
      by (simp add: upt_conv_Cons del: upt_Suc)
    with Cons.prems(1) show "m_index v = k" "map (m_index \<circ> snd) d = [Suc k ..< Suc k + length d]"
      by (simp_all only: list.map list.inject o_def e snd_conv)
  qed
  have "take (Suc k) (xs[k := Some (f v)]) = take k xs @ [Some (f v)]"
    using Cons.prems(2) by (simp add: take_Suc_conv_app_nth)
  with Cons.IH [OF i(2), of "xs[k := Some (f v)]"] Cons.prems(2) i(1) show ?case by (simp add: e)
qed simp

text \<open>
  C10. The JSON document of a graph is closed and complete. When the names of the nodes can be read,
  \<^verbatim>\<open>Grph2Json\<close> returns a document in which every slot of the list of the nodes is filled, with the nodes of
  the kept triples, each once and in the order of their first use; the links are exactly the kept triples
  between two URLs, in their order, and each end of a link is the identifier of a node of the document; the
  information of a node is its class and the texts of its property information, and for each other property
  its last literal.
\<close>

theorem json_document:
  assumes "I s" "\<forall>n \<in> set (used_nodes grph). returns_on c I n"
  shows "\<exists>doc vs s'. Grph2Json c page_title grph s = (Inr doc, s') \<and> I s' \<and>
    gd_nodes doc = map Some vs \<and> map nd_id vs = map (id_of c) (used_nodes grph) \<and> distinct (used_nodes grph) \<and>
    gd_links doc = links_of c grph \<and>
    (\<forall>(src, tgt, prp) \<in> set (gd_links doc). src \<in> nd_id ` set vs \<and> tgt \<in> nd_id ` set vs) \<and>
    list_all2 (\<lambda>n v. nd_info_list v = nd_entity_class v # infos_of n grph \<and>
      map_of (nd_info_dict v) = map_of (rev (values_of n grph))) (used_nodes grph) vs"
proof -
  let ?g = "\<lparr>NodeJsonNumber = 0, dictNod2Json = [], json_links = []\<rparr>"
  have "json_inv c [] (used_nodes []) ?g"
    by (simp add: json_inv_def used_nodes_def infos_of_def values_of_def)
  from json_loop_run [where past = "[]" and grph = grph and c = c and g = ?g and I = I and s = s] this assms obtain g s' where
    g: "json_loop c grph ?g s = (Inr g, s')" "I s'" "json_inv c grph (used_nodes grph) g" "json_links g = links_of c grph"
    by (auto simp: links_of_def)
  let ?d = "dictNod2Json g"
  let ?vs = "map (node_doc_of c \<circ> snd) ?d"
  have d: "map fst ?d = used_nodes grph" "distinct (used_nodes grph)" "map (m_index \<circ> snd) ?d = [0 ..< 0 + length ?d]"
    "\<forall>(n, v) \<in> set ?d. entry_ok c grph n v"
    using g(3) map_eq_imp_length_eq [of fst ?d id "used_nodes grph"] by (auto simp: json_inv_def)
  have ids: "map nd_id ?vs = map (id_of c) (used_nodes grph)"
    using d(4) unfolding d(1) [symmetric] by (fastforce simp: node_doc_of_def entry_ok_def)
  have "subj \<in> set (used_nodes grph) \<and> obj \<in> set (used_nodes grph)"
    if "(subj, pred, obj) \<in> set grph" "kept (subj, pred, obj)" "IsLink obj" for subj pred obj
  proof -
    note kept_link = that
    from split_list [OF that(1)] obtain p q where "grph = (p @ [(subj, pred, obj)]) @ q" by auto
    with used_nodes_more [of "p @ [(subj, pred, obj)]" q] kept_link(2,3) show ?thesis by (auto simp: used_nodes_snoc)
  qed
  then have ends: "src \<in> id_of c ` set (used_nodes grph) \<and> tgt \<in> id_of c ` set (used_nodes grph)"
    if "(src, tgt, prp) \<in> set (links_of c grph)" for src tgt prp
    using that by (fastforce simp: links_of_def)
  have im: "nd_id ` set ?vs = id_of c ` set (used_nodes grph)" using arg_cong [OF ids, of set] by (simp add: image_image)
  have infos: "list_all2 (\<lambda>n v. nd_info_list v = nd_entity_class v # infos_of n grph \<and>
      map_of (nd_info_dict v) = map_of (rev (values_of n grph))) (used_nodes grph) ?vs"
    using d(4) unfolding d(1) [symmetric]
    by (auto simp: list_all2_conv_all_nth node_doc_of_def entry_ok_def dest!: nth_mem split: prod.splits)
  have closed: "\<forall>(src, tgt, prp) \<in> set (links_of c grph). src \<in> nd_id ` set ?vs \<and> tgt \<in> nd_id ` set ?vs"
    unfolding im using ends by blast
  let ?doc = "\<lparr>gd_page_title = page_title, gd_nodes = map Some ?vs, gd_links = links_of c grph\<rparr>"
  have "Grph2Json c page_title grph s = (Inr ?doc, s')"
    using g(1,4) fill_slots [OF d(3), of "replicate (length ?d) None" "node_doc_of c"]
    by (simp add: Grph2Json_def bnd_run comp_assoc)
  then show ?thesis using g(2) ids d(2) closed infos by (intro exI conjI) (assumption | simp only: graph_doc.simps)+
qed

text \<open>A URL outside of the agent is its own name.\<close>

definition external_url :: "string \<Rightarrow> string \<Rightarrow> bool" where
  "external_url root u \<longleftrightarrow>
     (let v = AnyUriModed (UrlNoAmp u) []
      in survol_urlparse u \<noteq> Inl ValueError \<and>
         (case survol_urlparse v of
            Inl e \<Rightarrow> False
          | Inr p \<Rightarrow> basename (u_path p) \<noteq> ''survolcgi.py'' \<and> \<not> startswith (u_query p) ''xid='') \<and>
         \<not> startswith v root \<and> hd (py_split (CHR '':'') v) \<in> set [''ftp'', ''http'', ''https'', ''urn'', ''mail''])"

lemma external_name:
  assumes "external_url (uriRoot (pg_agent s)) u"
  shows "ParseEntityUri c u l f s = (Inr (u, [], []), s)"
  using assms unfolding external_url_def ParseEntityUri.simps Let_def
  by (auto simp: entity_uri_name_def bnd_run Let_def split: sum.splits)

lemma uriRoot_params: "keeps (\<lambda>s. uriRoot (pg_agent s) = x) (TypeToGraphParams c t)"
proof -
  have "keeps (\<lambda>a. uriRoot a = x) (HierarchicalFunctionSearchNoCache d u g)" for d u g
  proof (rule keepsI)
    fix a :: agent assume "uriRoot a = x"
    then show "uriRoot (snd (HierarchicalFunctionSearchNoCache d u g a)) = x"
      using keepsD [OF keeps_frame_loop [of "frame a" d u g "length u"], of a]
      by (simp add: frame_def HierarchicalFunctionSearchNoCache_def)
  qed
  then have "keeps (\<lambda>s. uriRoot (pg_agent s) = x) (on_page (HierarchicalFunctionSearchNoCache d u g))" for d u g
    unfolding keeps_def on_page_def by (metis (mono_tags, lifting) case_prod_beta page_state.select_convs(1)
        page_state.surjective page_state.update_convs(1) snd_conv)
  then have "keeps (\<lambda>s. uriRoot (pg_agent s) = x) (graph_param c u gd)" for u gd
    unfolding graph_param_def by (intro keeps_rules) (auto simp: keeps_def)
  then show ?thesis
    unfolding TypeToGraphParams_def cached_params_def TypeToGraphParamsNoCache_def
    by (intro keeps_rules) (auto simp: keeps_def)
qed

lemma external_returns:
  assumes "typed_functions c" "external_url root u"
  shows "returns_on c (\<lambda>s. params_ok c s \<and> uriRoot (pg_agent s) = root) (RUrl u)"
  unfolding returns_on_def
proof (intro allI impI)
  fix k s assume s: "params_ok c s \<and> uriRoot (pg_agent s) = root"
  obtain vs where vs: "params_answer c [] = Inr vs" "typed_params vs" using typed_answer [OF assms(1)] by blast
  obtain x y zs where "vs = x # y # zs" using vs(2) by (auto simp: typed_params_def vecGraphFunctions_def list_all2_Cons1)
  then have nth: "py_nth vs 1 = Some y" by (simp add: py_nth_def)
  obtain s1 where "cached_params c [] s = (params_answer c [], s1)" "params_ok c s1"
    using params.run [of c s "[]"] s by auto
  then have s1: "TypeToGraphParams c [] s = (Inr vs, s1)" "params_ok c s1"
    using vs(1) by (simp_all add: TypeToGraphParams_def py_find_def py_replace_def)
  have root: "uriRoot (pg_agent s1) = root"
    using keepsD [OF uriRoot_params [of root c "[]"], of s] s s1(1) by simp
  obtain p where "survol_urlparse u = Inr p"
    using assms(2) by (cases "survol_urlparse u") (auto simp: external_url_def Let_def survol_urlparse_def split: if_splits)
  then obtain a s2 where s2: "NodeToUniversalAlias c u s1 = (Inr a, s2)" "params_ok c s2" "uriRoot (pg_agent s2) = root"
    using s1(2) root external_name [of s1 u c True] assms(2)
    by (cases "map_of (dictNodeToUniversalAlias s1) u")
      (auto simp: NodeToUniversalAlias_def MakeUniversalAliasNoCache_def bnd_run andthen_run params_inv_def
        params_lookup_def memo_valid_def Let_def)
  show "\<exists>v s'. NodeJson_init c (RUrl u) k s = (Inr v, s') \<and> params_ok c s' \<and> uriRoot (pg_agent s') = root"
    using external_name [of s u c False "[]"] assms(2) s s1(1) s2 nth by (simp add: NodeJson_init_def bnd_run)
qed

lemma json_document_witness:
  "\<exists>doc vs s'. Grph2Json sample_page ''A page''
      [(RUrl ''http://a.org/x'', ''http://p/knows'', RUrl ''http://b.org/y''),
       (RUrl ''http://a.org/x'', property_information, RLit (LVal (GText ''first'')))] (page_start sample_agent) =
      (Inr doc, s') \<and> gd_nodes doc = map Some vs \<and> length vs = 2 \<and>
    gd_links doc = [(''http://a.org/x'', ''http://b.org/y'', ''knows'')]"
proof -
  let ?grph = "[(RUrl ''http://a.org/x'', ''http://p/knows'', RUrl ''http://b.org/y''),
       (RUrl ''http://a.org/x'', property_information, RLit (LVal (GText ''first'')))]"
  have scr: "ScriptForJson ''http://a.org/x''" "ScriptForJson ''http://b.org/y''" "ScriptForJson ''first''"
    "''http://p/knows'' \<noteq> property_script" "property_information \<noteq> property_script"
    "PropToShortPropNam ''http://p/knows'' = ''knows''"
    by code_simp+
  have ext: "external_url ''http://rchateau:80/survol'' ''http://a.org/x''"
    "external_url ''http://rchateau:80/survol'' ''http://b.org/y''" by code_simp+
  have k: "kept (RUrl ''http://a.org/x'', ''http://p/knows'', RUrl ''http://b.org/y'')"
    "kept (RUrl ''http://a.org/x'', property_information, RLit (LVal (GText ''first'')))"
    using scr by (simp_all add: kept.simps)
  have used: "used_nodes ?grph = [RUrl ''http://a.org/x'', RUrl ''http://b.org/y'']"
    using k by (simp add: used_nodes_def add_elem_def)
  have root: "params_ok sample_page (page_start sample_agent)" "uriRoot (pg_agent (page_start sample_agent)) = ''http://rchateau:80/survol''"
    by (auto simp: params_inv_def params_lookup_def memo_valid_def page_start_def params_answer_def sample_agent_def
        no_module_of_nothing_def module_lookup_def module_answer_def split: if_splits)
  have id: "id_of sample_page (RUrl ''http://a.org/x'') = ''http://a.org/x''"
    "id_of sample_page (RUrl ''http://b.org/y'') = ''http://b.org/y''"
    unfolding id_of_def node_url_def by (simp_all add: sample_page_def py_replace_def startswith_def)
  have links: "links_of sample_page ?grph = [(''http://a.org/x'', ''http://b.org/y'', ''knows'')]"
    using k id scr(6) by (simp add: links_of_def)
  let ?I = "\<lambda>s. params_ok sample_page s \<and> uriRoot (pg_agent s) = ''http://rchateau:80/survol''"
  have "\<forall>n \<in> set (used_nodes ?grph). returns_on sample_page ?I n"
    unfolding used using external_returns [OF sample_typed ext(1)] external_returns [OF sample_typed ext(2)] by simp
  from json_document [where I = ?I, OF conjI [OF root] this, of "''A page''"]
  obtain doc vs s' where "Grph2Json sample_page ''A page'' ?grph (page_start sample_agent) = (Inr doc, s')"
    "gd_nodes doc = map Some vs" "map nd_id vs = map (id_of sample_page) (used_nodes ?grph)"
    "gd_links doc = links_of sample_page ?grph"
    by (elim exE conjE) blast
  moreover from this have "length vs = 2" unfolding used by (metis length_map list.size(3) length_Cons numeral_2_eq_2)
  ultimately show ?thesis unfolding links by blast
qed

subsection \<open>The lines of a label\<close>

text \<open>The letters of a text, without its spaces.\<close>

definition solid :: "string \<Rightarrow> string" where
  "solid s = filter (\<lambda>c. c \<noteq> CHR '' '') s"

lemma solid_simps [simp]: "solid [] = []" "solid (a @ b) = solid a @ solid b" "solid (CHR '' '' # s) = solid s"
  by (simp_all add: solid_def)

definition line_ok :: "nat \<Rightarrow> string list \<Rightarrow> string \<Rightarrow> bool" where
  "line_ok m W l \<longleftrightarrow> length (solid l) < m \<or> l \<in> set W"

lemma wrap_words_lines:
  assumes "\<forall>w \<in> set ws. w \<in> set W \<and> solid w = w" "length (solid cur) = tot" "cur = [] \<or> line_ok m W cur" "0 < m"
  shows "\<exists>ls. wrap_words m ws resu cur tot =
      (if resu = [] then py_join withBrDelim ls else if ls = [] then resu else resu @ withBrDelim @ py_join withBrDelim ls) \<and>
    solid (concat ls) = solid cur @ concat ws \<and> (\<forall>l \<in> set ls. line_ok m W l)"
  using assms
proof (induction m ws resu cur tot rule: wrap_words.induct)
  case (1 m resu cur tot)
  then show ?case by (intro exI [of _ "if cur = [] then [] else [cur]"]) auto
next
  case (2 m w ws resu cur tot)
  have w: "w \<in> set W" "solid w = w" "\<forall>w \<in> set ws. w \<in> set W \<and> solid w = w" using "2.prems"(1) by auto
  show ?case
  proof (cases "tot + length w < m")
    case True
    have "length (solid (cur @ '' '' @ w)) = tot + length w" "line_ok m W (cur @ '' '' @ w)"
      using True "2.prems"(2) w(2) by (simp_all add: line_ok_def)
    from "2.IH"(1) [OF True w(3) this(1) _ "2.prems"(4)] this(2) True w(2) show ?thesis by auto
  next
    case False
    have "length (solid w) = length w" "line_ok m W w" using w by (simp_all add: line_ok_def)
    from "2.IH"(2) [OF False w(3) this(1) _ "2.prems"(4)] this(2) obtain ls where ls:
      "wrap_words m ws ((if resu \<noteq> [] then resu @ withBrDelim else resu) @ cur) w (length w) =
        (let r = (if resu \<noteq> [] then resu @ withBrDelim else resu) @ cur in
         if r = [] then py_join withBrDelim ls else if ls = [] then r else r @ withBrDelim @ py_join withBrDelim ls)"
      "solid (concat ls) = solid w @ concat ws" "\<forall>l \<in> set ls. line_ok m W l" unfolding Let_def by blast
    show ?thesis
    proof (cases "resu = [] \<and> cur = []")
      case True
      with ls False w(2) show ?thesis by (intro exI [of _ ls]) auto
    next
      case c: False
      have "line_ok m W cur" using "2.prems"(3,4) by (cases "cur = []") (auto simp: line_ok_def)
      with ls c \<open>\<not> tot + length w < m\<close> w(2) show ?thesis
        by (intro exI [of _ "cur # ls"]) (auto simp: py_join_Cons Let_def withBrDelim_def)
    qed
  qed
qed

lemma split_words_solid: "\<forall>w \<in> set (py_split (CHR '' '') s). solid w = w" "concat (py_split (CHR '' '') s) = solid s"
  by (induction s) (auto simp: solid_def split: list.splits)

text \<open>
  Cutting a text into lines loses no letter: a text that is short enough is unchanged, and another one
  is lines joined by the line break, whose letters without the spaces are those of the text, in their order,
  and each of which has fewer letters than the limit or is a single word of the text. Spaces are not counted,
  neither by the code nor here.
\<close>

theorem StrWithBr_lines:
  assumes "0 < colspan"
  shows "(length s < colspan * maxHtmlTitleLenPerCol \<and> StrWithBr s colspan = s) \<or>
    (\<exists>ls. StrWithBr s colspan = py_join withBrDelim ls \<and> solid (concat ls) = solid s \<and>
      (\<forall>l \<in> set ls. length (solid l) < colspan * maxHtmlTitleLenPerCol \<or> l \<in> set (py_split (CHR '' '') s)))"
proof (cases "length s < colspan * maxHtmlTitleLenPerCol")
  case True
  then show ?thesis by (simp add: StrWithBr_def)
next
  case False
  have "0 < colspan * maxHtmlTitleLenPerCol" using assms by (simp add: maxHtmlTitleLenPerCol_def)
  with wrap_words_lines [of "py_split (CHR '' '') s" "py_split (CHR '' '') s" "[]" 0 "colspan * maxHtmlTitleLenPerCol" "[]"]
    False split_words_solid show ?thesis by (simp add: StrWithBr_def Let_def line_ok_def)
qed

theorem StrWithBr_lines_witness:
  "\<exists>ls. StrWithBr ''The processes of the machine which listen on a port'' 1 = py_join withBrDelim ls \<and>
    solid (concat ls) = ''Theprocessesofthemachinewhichlistenonaport'' \<and> (\<forall>l \<in> set ls. length (solid l) < 40)"
proof -
  let ?s = "''The processes of the machine which listen on a port''"
  have "\<forall>w \<in> set (py_split (CHR '' '') ?s). length (solid w) < 40" by (simp add: solid_def)
  moreover have "solid ?s = ''Theprocessesofthemachinewhichlistenonaport''" by (simp add: solid_def)
  ultimately show ?thesis using StrWithBr_lines [of 1 ?s] by (auto simp: maxHtmlTitleLenPerCol_def)
qed

text \<open>A line may be as long as twice the limit, because its spaces are not counted.\<close>

lemma line_over_limit:
  "StrWithBr (concat (replicate 39 ''a '')) 1 = '' '' @ concat (replicate 39 ''a '')"
  by code_simp

end
