(* ===== verification/CgiProps.thy ===== *)
theory CgiProps
  imports Merge ExportProps
begin

text \<open>
  The query strings of the requests: what is quoted is read back by \<^verbatim>\<open>cgi.FieldStorage\<close>, and the link that
  \<^verbatim>\<open>AddParameterizedLinks\<close> makes for a page with other parameters is read as these parameters.
\<close>

subsection \<open>The pairs of a query\<close>

definition query_char :: "char \<Rightarrow> bool" where
  "query_char ch \<longleftrightarrow> ch \<notin> {CHR ''&'', CHR '';'', CHR ''='', CHR ''+'', CHR ''%''}"

lemma query_plain: "list_all query_char s \<Longrightarrow> urllib_unquote (plus_to_space s) = s"
  "list_all query_char s \<Longrightarrow> CHR ''='' \<notin> set s"
proof -
  assume s: "list_all query_char s"
  then have "plus_to_space s = s" by (induction s) (auto simp: plus_to_space_def query_char_def)
  moreover have "CHR ''%'' \<notin> set s" using s by (auto simp: list_all_iff query_char_def)
  ultimately show "urllib_unquote (plus_to_space s) = s" by simp
  show "CHR ''='' \<notin> set s" using s by (auto simp: list_all_iff query_char_def)
qed

text \<open>A text that is the quotation of a value.\<close>

definition quotes :: "string \<Rightarrow> string \<Rightarrow> bool" where
  "quotes q v \<longleftrightarrow> CHR ''&'' \<notin> set q \<and> CHR '';'' \<notin> set q \<and> urllib_unquote (plus_to_space q) = v"

lemma quotes_plain: "list_all query_char v \<Longrightarrow> quotes v v"
proof -
  assume v: "list_all query_char v"
  then have "CHR ''&'' \<notin> set v" "CHR '';'' \<notin> set v" by (auto simp: list_all_iff query_char_def)
  with query_plain(1) [OF v] show ?thesis unfolding quotes_def by blast
qed

lemma percent_chars: "set (percent ch) \<subseteq> insert (CHR ''%'') (Collect word_char)"
proof -
  have hex: "word_char (AgentUrl.hex_digit n)" if "n < 16" for n
  proof -
    have "(of_char (AgentUrl.hex_digit n) :: nat) = (if n < 10 then 48 + n else 55 + n)"
      using that by (cases "n < 10") (simp_all only: AgentUrl.hex_digit_def if_True if_False of_char_char_of mod_less)
    with that show ?thesis by (auto simp: word_char_def Let_def)
  qed
  have "(of_char ch :: nat) < 256" by simp
  then have "(of_char ch :: nat) div 16 < 16" using less_mult_imp_div_less [of "of_char ch" 16 16] by simp
  then show ?thesis by (simp add: percent_def Let_def hex)
qed

lemma quote_chars: "set (urllib_quote v safe) \<subseteq> {CHR ''.'', CHR ''-'', CHR ''%''} \<union> Collect word_char \<union> set safe"
  using percent_chars by (fastforce simp: urllib_quote_def always_safe_def)

lemma quotes_quote: "quotes (urllib_quote v []) v"
proof -
  have "CHR ''+'' \<notin> set (urllib_quote v [])" "CHR ''&'' \<notin> set (urllib_quote v [])" "CHR '';'' \<notin> set (urllib_quote v [])"
    using quote_chars [of v "[]"] by (auto simp: word_char_def)
  moreover from this(1) have "plus_to_space (urllib_quote v []) = urllib_quote v []"
    by (auto simp: plus_to_space_def intro!: map_idI)
  ultimately show ?thesis by (simp add: quotes_def unquote_quote)
qed

lemma replace_skip: "CHR ''/'' \<notin> set p \<Longrightarrow> py_replace (p @ s) ''/'' r = p @ py_replace s ''/'' r"
proof (induction p)
  case (Cons x p)
  then show ?case by (cases "split_str ''/'' 0 (p @ s)") (auto simp: py_replace_def startswith_def py_join_Cons)
qed simp

lemma quote_slashes: "py_replace (urllib_quote v ''/'') ''/'' ''%2F'' = urllib_quote v []"
proof (induction v)
  case (Cons ch v)
  have slash: "py_replace (CHR ''/'' # s) ''/'' r = r @ py_replace s ''/'' r" for s r
    by (simp add: py_replace_def startswith_def py_join_Cons)
  have "percent (CHR ''/'') = ''%2F''" by code_simp
  moreover have "always_safe ch \<Longrightarrow> ch \<noteq> CHR ''/''" by (auto simp: always_safe_def word_char_def)
  moreover have "CHR ''/'' \<notin> set (percent ch)" using percent_chars [of ch] by (auto simp: word_char_def)
  ultimately show ?case
    using Cons replace_skip [of "percent ch"] replace_skip [of "[ch]"] slash
    by (auto simp: urllib_quote_def)
qed (simp add: urllib_quote_def py_replace_def)

text \<open>The pairs of a query string are read one by one.\<close>

lemma parse_qsl_join:
  assumes "\<forall>p \<in> set ps. CHR ''&'' \<notin> set p \<and> CHR '';'' \<notin> set p"
  shows "parse_qsl (py_join ''&'' ps) = List.map_filter qsl_pair ps"
proof (cases "ps = []")
  case False
  have "py_split (CHR '';'') p = [p]" if "CHR '';'' \<notin> set p" for p
    using py_split_py_join [of "[p]" "CHR '';''"] that by simp
  then have "concat (map (py_split (CHR '';'')) ps) = ps" using assms by (induction ps) auto
  with False assms show ?thesis by (simp add: parse_qsl_def py_split_py_join)
qed (simp add: parse_qsl_def qsl_pair_def List.map_filter_def)

lemma qsl_pair_quoted:
  assumes "quotes qk k" "quotes qv v" "CHR ''='' \<notin> set qk"
  shows "qsl_pair (qk @ ''='' @ qv) = (if qv = [] then None else Some (k, v))"
proof -
  have "cut_at (CHR ''='') (qk @ CHR ''='' # qv) = (qk, qv)" using assms(3) by (rule cut_at_first)
  with assms show ?thesis by (simp add: qsl_pair_def quotes_def)
qed

subsection \<open>Links with other parameters\<close>

lemma split_amp: "CHR ''&'' \<notin> set x \<Longrightarrow> split_str ''&amp;amp;'' 0 (x @ ''&amp;amp;'' @ r) = x # split_str ''&amp;amp;'' 0 r"
  by (induction x) (auto simp: startswith_def eval_nat_numeral)

lemma split_amp_last: "CHR ''&'' \<notin> set x \<Longrightarrow> split_str ''&amp;amp;'' 0 x = [x]"
  by (induction x) (auto simp: startswith_def)

lemma replace_amp: "\<forall>p \<in> set ps. CHR ''&'' \<notin> set p \<Longrightarrow> py_replace (py_join ''&amp;amp;'' ps) ''&amp;amp;'' ''&'' = py_join ''&'' ps"
proof -
  assume ps: "\<forall>p \<in> set ps. CHR ''&'' \<notin> set p"
  have "ps \<noteq> [] \<Longrightarrow> split_str ''&amp;amp;'' 0 (py_join ''&amp;amp;'' ps) = ps"
    using ps
  proof (induction ps)
    case (Cons p ps)
    then have p: "CHR ''&'' \<notin> set p" and ps: "\<forall>p \<in> set ps. CHR ''&'' \<notin> set p" by simp_all
    show ?case
    proof (cases "ps = []")
      case False
      then show ?thesis by (simp only: py_join_Cons if_False split_amp [OF p] Cons.IH [OF False ps])
    qed (simp add: split_amp_last [OF p])
  qed simp
  then show ?thesis by (cases "ps = []") (simp_all add: py_replace_def)
qed

text \<open>A text of a link stands for a value.\<close>

definition shown :: "string \<Rightarrow> string \<Rightarrow> bool" where
  "shown q v \<longleftrightarrow> quotes (py_replace q ''/'' ''%2F'') v \<and> py_replace q ''/'' ''%2F'' \<noteq> []"

definition shows_pair :: "string \<times> string \<Rightarrow> string \<times> string \<Rightarrow> bool" where
  "shows_pair a b \<longleftrightarrow> fst a = fst b \<and> shown (snd a) (snd b)"

lemma shown_quote: "v \<noteq> [] \<Longrightarrow> shown (urllib_quote v ''/'') v"
proof -
  assume "v \<noteq> []"
  then have "urllib_quote v [] \<noteq> []" by (cases v) (auto simp: urllib_quote_def percent_def Let_def)
  then show ?thesis unfolding shown_def quote_slashes using quotes_quote by blast
qed

lemma shown_plain:
  assumes "list_all query_char v" "v \<noteq> []"
  shows "shown v v"
proof -
  have slash: "py_replace (CHR ''/'' # s) ''/'' r = r @ py_replace s ''/'' r" for s r
    by (simp add: py_replace_def startswith_def py_join_Cons)
  have other: "ch \<noteq> CHR ''/'' \<Longrightarrow> py_replace (ch # s) ''/'' r = ch # py_replace s ''/'' r" for ch s r
    using replace_skip [of "[ch]" s r] by simp
  have "quotes (py_replace v ''/'' ''%2F'') v"
    using assms(1)
  proof (induction v)
    case Nil
    then show ?case by (simp add: py_replace_def quotes_def plus_to_space_def)
  next
    case (Cons ch v)
    have p: "percent (CHR ''/'') = ''%2F''" by code_simp
    have "urllib_unquote (''%2F'' @ x) = CHR ''/'' # urllib_unquote x" for x
      unfolding p [symmetric] by (rule unquote_percent)
    with Cons show ?case
      by (cases "ch = CHR ''/''") (auto simp: slash other quotes_def plus_to_space_def query_char_def)
  qed
  moreover have "py_replace v ''/'' ''%2F'' \<noteq> []"
    using assms(2) by (cases v; cases "hd v = CHR ''/''") (auto simp: slash other)
  ultimately show ?thesis by (simp add: shown_def)
qed

lemma shows_update: "list_all2 shows_pair d e \<Longrightarrow> shown q v \<Longrightarrow> list_all2 shows_pair (AList.update k q d) (AList.update k v e)"
proof (induction rule: list_all2_induct)
  case (Cons a d b e)
  then show ?case by (cases a; cases b) (auto simp: shows_pair_def [of "(_, _)"])
qed (simp add: shows_pair_def)

lemma put_params_run:
  "\<forall>(k, v) \<in> set m. map_of ps k \<noteq> None \<and> list_all query_char (gval_str v) \<and> gval_str v \<noteq> [] \<Longrightarrow> list_all2 shows_pair d e \<Longrightarrow>
   \<exists>d'. put_params c ps m d s = (Inr d', s) \<and> list_all2 shows_pair d' (dict_update e (map (\<lambda>(k, v). (k, gval_str v)) m))"
proof (induction m arbitrary: d e)
  case (Cons kv m)
  obtain k v where kv: "kv = (k, v)" by fastforce
  have "list_all2 shows_pair (AList.update k (gval_str v) d) (AList.update k (gval_str v) e)"
    using Cons.prems kv by (intro shows_update shown_plain) auto
  from Cons.IH [OF _ this] Cons.prems(1) kv show ?case by (auto simp: dict_update_def)
qed (simp add: dict_update_def)

lemma pair_read:
  assumes "shows_pair a b" "list_all query_char (fst b)"
  shows "CHR ''&'' \<notin> set (param_pair a)" "CHR '';'' \<notin> set (param_pair a)" "qsl_pair (param_pair a) = Some b"
proof -
  have k: "quotes (fst b) (fst b)" "CHR ''='' \<notin> set (fst b)" using assms(2) by (rule quotes_plain, rule query_plain(2))
  have a: "fst a = fst b" and v: "quotes (py_replace (snd a) ''/'' ''%2F'') (snd b)" "py_replace (snd a) ''/'' ''%2F'' \<noteq> []"
    using assms(1) by (simp_all add: shows_pair_def shown_def)
  show "CHR ''&'' \<notin> set (param_pair a)" "CHR '';'' \<notin> set (param_pair a)"
    using k(1) v(1) a by (simp_all add: quotes_def param_pair_def)
  show "qsl_pair (param_pair a) = Some b"
    unfolding param_pair_def a qsl_pair_quoted [OF k(1) v(1) k(2)] using v(2) by simp
qed

lemma pairs_read:
  assumes "list_all2 shows_pair d e" "\<forall>k \<in> fst ` set e. list_all query_char k"
  shows "parse_qsl (py_replace (py_join ''&amp;amp;'' (map param_pair d)) ''&amp;amp;'' ''&'') = e"
proof -
  have read: "(\<forall>p \<in> set (map param_pair d). CHR ''&'' \<notin> set p \<and> CHR '';'' \<notin> set p) \<and> List.map_filter qsl_pair (map param_pair d) = e"
    using assms
  proof (induction rule: list_all2_induct)
    case (Cons a d b e)
    then show ?case using pair_read [of a b] by (simp add: List.map_filter_def)
  qed (simp add: List.map_filter_def)
  then have "py_replace (py_join ''&amp;amp;'' (map param_pair d)) ''&amp;amp;'' ''&'' = py_join ''&'' (map param_pair d)"
    by (intro replace_amp) blast
  moreover have "parse_qsl (py_join ''&'' (map param_pair d)) = List.map_filter qsl_pair (map param_pair d)"
    using read by (intro parse_qsl_join) blast
  ultimately show ?thesis using read by simp
qed

lemma unquote_not_Nil [simp]: "urllib_unquote s = [] \<longleftrightarrow> s = []"
  by (cases s rule: urllib_unquote.cases) (auto split: option.splits prod.splits)

lemma field_not_empty: "(k, v) \<in> set (parse_qsl qs) \<Longrightarrow> v \<noteq> []"
  by (auto simp: parse_qsl_def List.map_filter_def qsl_pair_def Let_def plus_to_space_def split: if_splits)

lemma getlist_distinct: "distinct (map fst args) \<Longrightarrow> (k, v) \<in> set args \<Longrightarrow> getlist args k = [v]"
  by (induction args) (auto simp: getlist_def filter_empty_conv image_iff)

lemma field_keys_distinct: "distinct (map fst args) \<Longrightarrow> field_keys args = map fst args"
proof -
  have "distinct (ks @ map fst args) \<Longrightarrow> foldl (\<lambda>ks kv. add_elem (fst kv) ks) ks args = ks @ map fst args" for ks
    by (induction args arbitrary: ks) (auto simp: add_elem_def)
  then show "distinct (map fst args) \<Longrightarrow> ?thesis" by (simp add: field_keys_def)
qed

lemma argument_texts_shown:
  assumes "distinct (map fst (FieldStorage c))"
  shows "\<exists>d. argument_texts (FieldStorage c) = Inr d \<and> list_all2 shows_pair d (FieldStorage c)"
proof -
  let ?args = "FieldStorage c" and ?f = "\<lambda>k. (k, urllib_quote (hd (getlist (FieldStorage c) k)) ''/'')"
  have v: "snd kv \<noteq> []" if "kv \<in> set ?args" for kv
    using that field_not_empty [of "fst kv" "snd kv"] unfolding FieldStorage_def by simp
  have one: "getlist ?args (fst kv) = [snd kv]" if "kv \<in> set ?args" for kv
    using getlist_distinct [OF assms] that by simp
  have "list_all2 shows_pair (map ?f (map fst ?args)) ?args"
    unfolding list_all2_map1 list_all2_same using one v by (simp add: shows_pair_def shown_quote)
  moreover have "argument_texts ?args = Inr (map ?f (map fst ?args))"
    unfolding argument_texts_def field_keys_distinct [OF assms] using one by auto
  ultimately show ?thesis by blast
qed

lemma find_question: "(if py_find u ''?'' < 0 then u else py_upto u (py_find u ''?'')) = takeWhile (\<lambda>ch. ch \<noteq> CHR ''?'') u"
proof -
  have "find_from ''?'' u n = (if CHR ''?'' \<in> set u then int (n + length (takeWhile (\<lambda>ch. ch \<noteq> CHR ''?'') u)) else -1)" for n
    by (induction u arbitrary: n) (auto simp: startswith_def)
  note find = this [of 0, folded py_find_def]
  show ?thesis
  proof (cases "CHR ''?'' \<in> set u")
    case True
    have "take (length (takeWhile (\<lambda>ch. ch \<noteq> CHR ''?'') u)) u = takeWhile (\<lambda>ch. ch \<noteq> CHR ''?'') u"
      by (metis takeWhile_eq_take)
    moreover have "min (length (takeWhile (\<lambda>ch. ch \<noteq> CHR ''?'') u)) (length u) = length (takeWhile (\<lambda>ch. ch \<noteq> CHR ''?'') u)"
      using length_takeWhile_le by (rule min_absorb1)
    ultimately show ?thesis using True find by (simp add: py_upto_def py_slice_def clip_def)
  next
    case False
    then have "takeWhile (\<lambda>ch. ch \<noteq> CHR ''?'') u = u" by (auto simp: takeWhile_eq_all_conv)
    note all = this
    show ?thesis unfolding all find using False by simp
  qed
qed

text \<open>
  C16. Following a link of a page is the page with the changed arguments. When no argument of the request is
  repeated, and the names of the arguments and the new values are not empty and have no character with a
  meaning in a query, \<^verbatim>\<open>AddParameterizedLinks\<close> keeps under the label a URL with the path of the page; its
  query, once the entities of Graphviz are read as the character that they stand for, is parsed by
  \<^verbatim>\<open>cgi.FieldStorage\<close> as the arguments of the request, updated with the parameters of the link. The values
  of the arguments of the request may be any texts.
\<close>

theorem link_roundtrip:
  assumes "i < length (cgi_envs s)" "distinct (map fst (FieldStorage c))"
    "\<forall>k \<in> fst ` set (FieldStorage c). list_all query_char k"
    "\<forall>(k, v) \<in> set paramsMap. map_of (m_parameters (env_at i s)) k \<noteq> None \<and> list_all query_char k \<and>
       list_all query_char (gval_str v) \<and> gval_str v \<noteq> []"
  shows "\<exists>q s'. AddParameterizedLinks c i urlLabel paramsMap s = (Inr (), s') \<and>
    map_of (m_parameterized_links (env_at i s')) urlLabel =
      Some (takeWhile (\<lambda>ch. ch \<noteq> CHR ''?'') (m_calling_url (env_at i s)) @ ''?'' @ q) \<and>
    parse_qsl (py_replace q ''&amp;amp;'' ''&'') = dict_update (FieldStorage c) (map (\<lambda>(k, v). (k, gval_str v)) paramsMap)"
proof -
  obtain d where d: "argument_texts (FieldStorage c) = Inr d" "list_all2 shows_pair d (FieldStorage c)"
    using argument_texts_shown [OF assms(2)] by blast
  let ?e = "dict_update (FieldStorage c) (map (\<lambda>(k, v). (k, gval_str v)) paramsMap)"
  obtain d' where d': "put_params c (m_parameters (env_at i s)) paramsMap d s = (Inr d', s)" "list_all2 shows_pair d' ?e"
    using put_params_run [OF _ d(2), of paramsMap "m_parameters (env_at i s)" c s] assms(4) by blast
  have "fst ` set (dict_update e m) = fst ` set e \<union> fst ` set m" for e m :: "(string \<times> string) list"
  proof (induction m arbitrary: e)
    case (Cons kv m)
    have "set (map fst (AList.update k v e)) = insert k (set (map fst e))" for k v
      unfolding update_keys by auto
    with Cons show ?case by (cases kv) (simp add: dict_update_def)
  qed (simp add: dict_update_def)
  then have keys: "fst ` set ?e = fst ` set (FieldStorage c) \<union> fst ` set paramsMap" by (simp add: image_image case_prod_unfold)
  have "\<forall>k \<in> fst ` set paramsMap. list_all query_char k" using assms(4) by fastforce
  with assms(3) have "\<forall>k \<in> fst ` set ?e. list_all query_char k" unfolding keys by blast
  note read = pairs_read [OF d'(2) this]
  let ?q = "py_join ''&amp;amp;'' (map param_pair d')" and ?u = "m_calling_url (env_at i s)"
  let ?s' = "s\<lparr>cgi_envs := (cgi_envs s)[i := (cgi_envs s ! i)\<lparr>m_parameterized_links :=
    AList.update urlLabel (takeWhile (\<lambda>ch. ch \<noteq> CHR ''?'') ?u @ ''?'' @ ?q) (m_parameterized_links (cgi_envs s ! i))\<rparr>]\<rparr>"
  have "AddParameterizedLinks c i urlLabel paramsMap s = (Inr (), ?s')"
    unfolding AddParameterizedLinks_def Let_def find_question 
    by (simp only: bnd_def gets_def of_res_def d(1) d'(1) [unfolded env_at_def] upd_env_def modify_def prod.case sum.case env_at_def)
  moreover have "map_of (m_parameterized_links (env_at i ?s')) urlLabel = Some (takeWhile (\<lambda>ch. ch \<noteq> CHR ''?'') ?u @ ''?'' @ ?q)"
    using assms(1) by (simp add: env_at_def update_conv)
  ultimately show ?thesis using read by blast
qed

definition sample_cgi :: cgi_conf where
  "sample_cgi = \<lparr>cg_page = sample_page, argv = [''entity.py''], main_doc = Some ''Overview'', modules_doc = (\<lambda>_. None),
     module_doc = (\<lambda>_. None), lib_common_file = ''lib_common.py'', getpid = 1, sys_version = ''2.7'', recursion_limit = 1000, node_order = rev,
     json_dumps = (\<lambda>_. [])\<rparr>"

text \<open>A request for the first page of a long list.\<close>

definition request :: "string \<Rightarrow> cgi_conf" where
  "request qs = set_environ [(''QUERY_STRING'', qs), (''SCRIPT_NAME'', ''/survol/entity.py'')] sample_cgi"

definition sample_env :: "cgi_conf \<Rightarrow> (string \<times> gval) list \<Rightarrow> cgi_env" where
  "sample_env c params = \<lparr>m_parameters = params, m_parameterized_links = [], m_page_title = Some ''Overview'',
     m_calling_url = RequestUri (cg_agent_conf c), m_can_process_remote = False, m_arguments = FieldStorage c,
     m_entity_type = ''CIM_Process'', m_entity_id = ''Handle=1'', m_entity_host = [],
     m_entity_id_dict = [(''Handle'', ''1'')], m_graph = None, m_layoutParams = None\<rparr>"

definition sample_state :: "cgi_conf \<Rightarrow> (string \<times> gval) list \<Rightarrow> cgi_state" where
  "sample_state c params = (cgi_start c (page_start sample_agent))\<lparr>cgi_envs := [sample_env c params]\<rparr>"

lemma link_roundtrip_witness:
  "let c = request ''xid=CIM_Process.Handle%3D1&Start index=0'' in
   \<exists>q s'. AddParameterizedLinks c 0 ''Next'' [(''Start index'', GInt 800)] (sample_state c [(''Start index'', GInt 0)]) = (Inr (), s') \<and>
    map_of (m_parameterized_links (env_at 0 s')) ''Next'' = Some (''/survol/entity.py?'' @ q) \<and>
    parse_qsl (py_replace q ''&amp;amp;'' ''&'') = [(''xid'', ''CIM_Process.Handle=1''), (''Start index'', ''800'')]"
proof -
  let ?c = "request ''xid=CIM_Process.Handle%3D1&Start index=0''"
  let ?s = "sample_state ?c [(''Start index'', GInt 0)]"
  have fs: "FieldStorage ?c = [(''xid'', ''CIM_Process.Handle=1''), (''Start index'', ''0'')]" by code_simp
  have "map_of (m_parameters (env_at 0 ?s)) ''Start index'' \<noteq> None" "0 < length (cgi_envs ?s)"
    by (simp_all add: env_at_def sample_state_def sample_env_def)
  moreover have "list_all query_char ''Start index''" "list_all query_char ''xid''" "list_all query_char (gval_str (GInt 800))"
    "gval_str (GInt 800) = ''800''" by code_simp+
  moreover have "takeWhile (\<lambda>ch. ch \<noteq> CHR ''?'') (m_calling_url (env_at 0 ?s)) = ''/survol/entity.py''" by code_simp
  ultimately show ?thesis
    using link_roundtrip [of 0 ?s ?c "[(''Start index'', GInt 800)]" "''Next''"]
    by (simp add: fs dict_update_def)
qed

end
