(* ===== verification/FormPage.thy ===== *)
theory FormPage
  imports CgiProps
begin

text \<open>
  How a browser reads the form of the parameters: the tags of the printed page, their attributes, the controls
  that they are, and what is sent for them. This is the part of HTML that the pages of the edition use: quoted
  attribute values without character references. The lines that \<^verbatim>\<open>FormEditionParameters\<close> prints are read
  back as the controls that they were printed for, unless a name or a value has the quote that encloses it.
\<close>

subsection \<open>The tags of a page\<close>

text \<open>
  The tags that are complete, as the texts between the angle brackets, and the tag that is being read, with
  the quote that is open in it.
\<close>

type_synonym html_state = "string list \<times> (string \<times> char option) option"

fun html_step :: "html_state \<Rightarrow> char \<Rightarrow> html_state" where
  "html_step (ts, None) ch = (ts, if ch = CHR ''<'' then Some ([], None) else None)"
| "html_step (ts, Some (w, None)) ch =
     (if ch = CHR ''>'' then (ts @ [w], None)
      else (ts, Some (w @ [ch], if ch = CHR 0x22 \<or> ch = CHR 0x27 then Some ch else None)))"
| "html_step (ts, Some (w, Some q)) ch = (ts, Some (w @ [ch], if ch = q then None else Some q))"

definition html_tags :: "string \<Rightarrow> string list" where
  "html_tags text = fst (foldl html_step ([], None) text)"

text \<open>The attributes of a tag: a name, perhaps with a value, in quotes or up to the next space.\<close>

definition name_part :: "char \<Rightarrow> bool" where
  "name_part ch \<longleftrightarrow> ch \<noteq> CHR '' '' \<and> ch \<noteq> CHR ''=''"

lemma shorter_rest: "dropWhile f cs = x # xs \<Longrightarrow> length xs < length cs"
  using length_dropWhile_le [of f cs] by simp

function tag_attrs :: "string \<Rightarrow> (string \<times> string) list" where
  "tag_attrs [] = []"
| "tag_attrs (c # cs) =
     (if c = CHR '' '' then tag_attrs cs
      else (let name = c # takeWhile name_part cs; r = dropWhile name_part cs
            in case r of
                 e # q # r' \<Rightarrow>
                   if e = CHR '' '' then (name, []) # tag_attrs r
                   else if q = CHR 0x22 \<or> q = CHR 0x27
                   then (name, takeWhile (\<lambda>x. x \<noteq> q) r') # tag_attrs (drop 1 (dropWhile (\<lambda>x. x \<noteq> q) r'))
                   else (name, takeWhile (\<lambda>x. x \<noteq> CHR '' '') (q # r')) # tag_attrs (dropWhile (\<lambda>x. x \<noteq> CHR '' '') (q # r'))
               | _ \<Rightarrow> [(name, [])]))"
  by pat_completeness auto

termination
proof (relation "measure length")
  fix c e q :: char and cs r' xs n r
  assume r: "r = dropWhile name_part cs" "r = e # xs" "xs = q # r'"
  have len: "Suc (Suc (length r')) \<le> length cs"
    using length_dropWhile_le [of name_part cs] unfolding r(1) [symmetric] r(2,3) by simp
  show "(r, c # cs) \<in> measure length" using r(1) length_dropWhile_le [of name_part cs] by simp
  show "(drop 1 (dropWhile (\<lambda>x. x \<noteq> q) r'), c # cs) \<in> measure length"
    using len length_dropWhile_le [of "\<lambda>x. x \<noteq> q" r'] by simp
  show "(dropWhile (\<lambda>x. x \<noteq> CHR '' '') (q # r'), c # cs) \<in> measure length"
    using len length_dropWhile_le [of "\<lambda>x. x \<noteq> CHR '' ''" "q # r'"] by simp
qed auto

declare tag_attrs.simps(2) [simp del]

subsection \<open>The controls of a page\<close>

datatype control =
    TextField string string
  | Box string string bool
  | Hidden string string

text \<open>A control without a name is not sent, and a button only when it has one. The value of a box is \<open>on\<close> by default.\<close>

definition control_of :: "string \<Rightarrow> control list" where
  "control_of w =
     (let tag = takeWhile (\<lambda>x. x \<noteq> CHR '' '') w; attrs = tag_attrs (drop (length tag) w);
          attr = (\<lambda>k d. case map_of attrs k of None \<Rightarrow> d | Some v \<Rightarrow> v);
          name = attr ''name'' []; kind = attr ''type'' ''text''
      in if tag \<noteq> ''input'' \<or> name = [] \<or> kind = ''submit'' then []
         else if kind = ''checkbox'' then [Box name (attr ''value'' ''on'') (''checked'' \<in> set (map fst attrs))]
         else if kind = ''hidden'' then [Hidden name (attr ''value'' [])]
         else [TextField name (attr ''value'' [])])"

definition browser_form :: "string \<Rightarrow> control list" where
  "browser_form text = concat (map control_of (html_tags text))"

text \<open>
  What the user leaves in the texts and the boxes (\<open>ed\<close> and \<open>ck\<close>, which see the name and the shown value) is
  sent, and the hidden fields as they are.
\<close>

fun sent_control :: "(string \<Rightarrow> string \<Rightarrow> string) \<Rightarrow> (string \<Rightarrow> bool \<Rightarrow> bool) \<Rightarrow> control \<Rightarrow> (string \<times> string) list" where
  "sent_control ed ck (TextField name value) = [(name, ed name value)]"
| "sent_control ed ck (Box name value checked) = (if ck name checked then [(name, value)] else [])"
| "sent_control ed ck (Hidden name value) = [(name, value)]"

definition send_page :: "(string \<Rightarrow> string \<Rightarrow> string) \<Rightarrow> (string \<Rightarrow> bool \<Rightarrow> bool) \<Rightarrow> string \<Rightarrow> (string \<times> string) list" where
  "send_page ed ck text = concat (map (sent_control ed ck) (browser_form text))"

subsection \<open>Reading the lines of the form\<close>

text \<open>What is meant to be sent for a line.\<close>

fun submit_item :: "(string \<Rightarrow> string \<Rightarrow> string) \<Rightarrow> (string \<Rightarrow> bool \<Rightarrow> bool) \<Rightarrow> form_item \<Rightarrow> (string \<times> string) list" where
  "submit_item ed ck (Html _) = []"
| "submit_item ed ck (TextBox name value) = [(name, ed name value)]"
| "submit_item ed ck (CheckBox name checked) = (if ck name checked then [(name, ''True'')] else [])"
| "submit_item ed ck (HiddenType entity_type) = [(''edimodtype'', entity_type)]"
| "submit_item ed ck (HiddenArg name value) = [(name, value)]"

definition submit :: "(string \<Rightarrow> string \<Rightarrow> string) \<Rightarrow> (string \<Rightarrow> bool \<Rightarrow> bool) \<Rightarrow> form_item list \<Rightarrow> (string \<times> string) list" where
  "submit ed ck items = concat (map (submit_item ed ck) items)"

definition form_page :: "form_item list \<Rightarrow> string" where
  "form_page items = concat (map (\<lambda>x. item_line x @ [CHR 0x0A]) items)"

text \<open>Values that stand in the quotes \<open>q\<close> as they are, and texts between tags.\<close>

definition plain_in :: "char \<Rightarrow> string \<Rightarrow> bool" where
  "plain_in q v \<longleftrightarrow> set v \<inter> {q, CHR ''&'', CHR 0x0A, CHR 0x0D} = {}"

definition plain_name :: "string \<Rightarrow> bool" where
  "plain_name n \<longleftrightarrow> n \<noteq> [] \<and> plain_in (CHR 0x22) n"

fun plain_item :: "form_item \<Rightarrow> bool" where
  "plain_item (Html line) = True"
| "plain_item (TextBox name value) = (plain_name name \<and> plain_in (CHR 0x22) value)"
| "plain_item (CheckBox name checked) = plain_name name"
| "plain_item (HiddenType entity_type) = plain_in (CHR 0x22) entity_type"
| "plain_item (HiddenArg name value) = (plain_name name \<and> plain_in (CHR 0x27) value)"

definition reads_as :: "string \<Rightarrow> string list \<Rightarrow> bool" where
  "reads_as text tags \<longleftrightarrow> (\<forall>ts. foldl html_step (ts, None) text = (ts @ tags, None))"

lemma reads_append: "reads_as a ts \<Longrightarrow> reads_as b us \<Longrightarrow> reads_as (a @ b) (ts @ us)"
  by (simp add: reads_as_def)

lemma reads_tags: "reads_as text ts \<Longrightarrow> html_tags text = ts"
  by (simp add: reads_as_def html_tags_def)

lemma fold_outside: "CHR ''<'' \<notin> set v \<Longrightarrow> foldl html_step (ts, None) v = (ts, None)"
  by (induction v) auto

lemma fold_quoted: "q \<notin> set v \<Longrightarrow> foldl html_step (ts, Some (w, Some q)) v = (ts, Some (w @ v, Some q))"
  by (induction v arbitrary: w) auto

lemma while_quote: "q \<notin> set v \<Longrightarrow> takeWhile (\<lambda>x. x \<noteq> q) (v @ q # r) = v"
  "q \<notin> set v \<Longrightarrow> dropWhile (\<lambda>x. x \<noteq> q) (v @ q # r) = q # r"
  by (induction v) auto

lemmas read_simps = reads_as_def fold_quoted fold_outside plain_in_def plain_name_def
lemmas control_simps = control_of_def tag_attrs.simps(2) name_part_def while_quote plain_in_def plain_name_def Let_def

text \<open>A line without a control.\<close>

definition html_line :: "string \<Rightarrow> bool" where
  "html_line line \<longleftrightarrow> (\<exists>tags. reads_as line tags \<and> concat (map control_of tags) = [])"

lemma cell_line: "CHR ''<'' \<notin> set k \<Longrightarrow> html_line (''<td>'' @ k @ ''</td>'')"
  unfolding html_line_def by (intro exI [of _ "[''td'', ''/td'']"]) (simp add: read_simps control_of_def)

lemma class_line: "CHR ''<'' \<notin> set t \<Longrightarrow> html_line (''<tr><td colspan=2>'' @ t @ ''</td>'')"
  unfolding html_line_def
  by (intro exI [of _ "[''tr'', ''td colspan=2'', ''/td'']"]) (simp add: read_simps control_of_def)

lemma form_line: "CHR 0x22 \<notin> set a \<Longrightarrow> html_line (''<form name=\"myform\" action=\"'' @ a @ ''\" method=\"GET\">'')"
  unfolding html_line_def
  by (intro exI [of _ "[''form name=\"myform\" action=\"'' @ a @ ''\" method=\"GET\"'']"])
    (simp add: read_simps control_of_def)

lemma fixed_lines: "html_line ''<table class=\"table_script_parameters\">''" "html_line ''<tr>''" "html_line ''</tr>''"
  "html_line ''<tr><td colspan=2>''" "html_line ''<input type=\"submit\" value=\"Submit\">''" "html_line ''</form>''"
  "html_line ''</td></tr>''" "html_line ''</table>''"
  unfolding html_line_def
  by (rule exI, rule conjI, simp add: reads_as_def, (simp add: control_simps)?)+

lemma read_item:
  assumes "plain_item it" "\<And>line. it = Html line \<Longrightarrow> html_line line"
  shows "\<exists>tags. reads_as (item_line it) tags \<and>
    concat (map (sent_control ed ck) (concat (map control_of tags))) = submit_item ed ck it"
proof (cases it)
  case (Html line)
  with assms(2) [OF Html] show ?thesis by (auto simp: html_line_def)
next
  case (TextBox n v)
  with assms(1) show ?thesis
    by (intro exI [of _ "[''td'', ''input type=\"text\" name=\"'' @ n @ ''\" value=\"'' @ v @ ''\"'', ''/td'']"])
      (simp add: read_simps, simp add: control_simps)
next
  case (CheckBox n b)
  with assms(1) show ?thesis
    by (intro exI [of _ "[''td'', ''input type=\"checkbox\" name=\"'' @ n @ ''\" value=\"True\"'' @
          (if b then '' checked'' else []), ''/td'']"])
      (cases b; simp add: read_simps, simp add: control_simps)
next
  case (HiddenType t)
  with assms(1) show ?thesis
    by (intro exI [of _ "[''input type=\"hidden\" name=\"edimodtype\" value=\"'' @ t @ ''\"'']"])
      (simp add: read_simps, simp add: control_simps)
next
  case (HiddenArg n v)
  with assms(1) show ?thesis
    by (intro exI [of _ "[''input type=\"hidden\" name=\"'' @ n @ ''\" value='' @ [CHR 0x27] @ v @ [CHR 0x27]]"])
      (simp add: read_simps, simp add: control_simps)
qed

text \<open>The browser sends what the lines were printed for.\<close>

lemma page_read:
  "list_all plain_item items \<Longrightarrow> (\<And>line. Html line \<in> set items \<Longrightarrow> html_line line) \<Longrightarrow>
   \<exists>tags. reads_as (form_page items) tags \<and>
     concat (map (sent_control ed ck) (concat (map control_of tags))) = submit ed ck items"
proof (induction items)
  case Nil
  show ?case by (intro exI [of _ "[]"]) (simp add: form_page_def reads_as_def submit_def)
next
  case (Cons it items)
  obtain ts where 1: "reads_as (item_line it) ts"
    "concat (map (sent_control ed ck) (concat (map control_of ts))) = submit_item ed ck it"
    using read_item [of it ed ck] Cons.prems by auto
  obtain us where 2: "reads_as (form_page items) us"
    "concat (map (sent_control ed ck) (concat (map control_of us))) = submit ed ck items"
    using Cons by auto
  have "reads_as [CHR 0x0A] []" by (simp add: reads_as_def)
  from reads_append [OF reads_append [OF 1(1) this] 2(1)] 1(2) 2(2) show ?case
    by (intro exI [of _ "ts @ us"]) (simp add: form_page_def submit_def)
qed

lemma send_form_page:
  "list_all plain_item items \<Longrightarrow> (\<And>line. Html line \<in> set items \<Longrightarrow> html_line line) \<Longrightarrow>
   send_page ed ck (form_page items) = submit ed ck items"
  using page_read [of items ed ck] by (auto simp: send_page_def browser_form_def reads_tags)

text \<open>A value with the quote that encloses it is cut: the browser shows and sends the part before the quote.\<close>

lemma quoted_value_cut:
  "send_page (\<lambda>n x. x) ck (form_page [TextBox ''Filter'' (''a '' @ [CHR 0x22] @ ''b'' @ [CHR 0x22])]) =
    [(''Filter'', ''a '')]"
  by code_simp

end
