(* ===== verification/FormProps.thy ===== *)
theory FormProps
  imports FormPage
begin

text \<open>
  The round trip through the form of the parameters: what \<^verbatim>\<open>FormEditionParameters\<close> writes, a user edits and a
  browser sends is what \<^verbatim>\<open>GetParameters\<close> gives to the script.
\<close>

subsection \<open>The form of the parameters\<close>

text \<open>A browser writes spaces as plus signs and other special characters as escapes.\<close>

definition form_encode :: "string \<Rightarrow> string" where
  "form_encode s = concat (map (\<lambda>ch. if ch = CHR '' '' then ''+'' else if always_safe ch then [ch] else percent ch) s)"

definition form_query :: "(string \<times> string) list \<Rightarrow> string" where
  "form_query ps = py_join ''&'' (map (\<lambda>(k, v). form_encode k @ ''='' @ form_encode v) ps)"

lemma form_encode_quotes: "quotes (form_encode s) s" "CHR ''='' \<notin> set (form_encode s)" "form_encode s = [] \<longleftrightarrow> s = []"
proof -
  have safe: "always_safe ch \<Longrightarrow> ch \<noteq> CHR ''%'' \<and> ch \<noteq> CHR ''+'' \<and> ch \<noteq> CHR ''&'' \<and> ch \<noteq> CHR '';'' \<and> ch \<noteq> CHR ''=''" for ch
    by (auto simp: always_safe_def word_char_def)
  have plus: "plus_to_space (percent ch) = percent ch" for ch
    using percent_chars [of ch] by (auto simp: plus_to_space_def word_char_def intro!: map_idI)
  have app: "plus_to_space (a @ b) = plus_to_space a @ plus_to_space b" for a b by (simp add: plus_to_space_def)
  have chars: "CHR ''&'' \<notin> set (percent ch)" "CHR '';'' \<notin> set (percent ch)" "CHR ''='' \<notin> set (percent ch)" for ch
    using percent_chars [of ch] by (auto simp: word_char_def)
  have "urllib_unquote (plus_to_space (form_encode s)) = s"
  proof (induction s)
    case (Cons ch s)
    let ?r = "plus_to_space (form_encode s)"
    consider "ch = CHR '' ''" | "ch \<noteq> CHR '' ''" "always_safe ch" | "ch \<noteq> CHR '' ''" "\<not> always_safe ch" by blast
    then show ?case
    proof cases
      case 1
      then have "plus_to_space (form_encode (ch # s)) = CHR '' '' # ?r" by (simp add: form_encode_def plus_to_space_def)
      then show ?thesis using Cons 1 by simp
    next
      case 2
      then have "plus_to_space (form_encode (ch # s)) = ch # ?r" using safe [of ch] by (simp add: form_encode_def plus_to_space_def)
      then show ?thesis using Cons 2 safe [of ch] by simp
    next
      case 3
      then have "form_encode (ch # s) = percent ch @ form_encode s" by (simp add: form_encode_def)
      then have "plus_to_space (form_encode (ch # s)) = percent ch @ ?r" by (simp only: app plus)
      then show ?thesis using Cons by simp
    qed
  qed (simp add: form_encode_def plus_to_space_def)
  then show "quotes (form_encode s) s" "CHR ''='' \<notin> set (form_encode s)"
    unfolding quotes_def using chars safe by (auto simp: form_encode_def)
  show "form_encode s = [] \<longleftrightarrow> s = []" 
    by (cases s) (auto simp: form_encode_def percent_def Let_def)
qed

lemma form_query_read: "parse_qsl (form_query ps) = filter (\<lambda>(k, v). v \<noteq> []) ps"
proof -
  have pair: "qsl_pair (form_encode k @ ''='' @ form_encode v) = (if v = [] then None else Some (k, v))" for k v
    unfolding qsl_pair_quoted [OF form_encode_quotes(1) form_encode_quotes(1) form_encode_quotes(2)] form_encode_quotes(3) ..
  have "\<forall>p \<in> set (map (\<lambda>(k, v). form_encode k @ ''='' @ form_encode v) ps). CHR ''&'' \<notin> set p \<and> CHR '';'' \<notin> set p"
    using form_encode_quotes(1) by (auto simp: quotes_def)
  then have "parse_qsl (form_query ps) = List.map_filter qsl_pair (map (\<lambda>(k, v). form_encode k @ ''='' @ form_encode v) ps)"
    unfolding form_query_def by (rule parse_qsl_join)
  also have "\<dots> = filter (\<lambda>(k, v). v \<noteq> []) ps"
    by (induction ps) (auto simp: List.map_filter_def pair [simplified])
  finally show ?thesis .
qed

text \<open>The value of a parameter, as a function of the \<^verbatim>\<open>CgiEnv\<close>.\<close>

definition param_value :: "cgi_env \<Rightarrow> string \<Rightarrow> gval pyres" where
  "param_value env k =
     (case field_value (m_arguments env) k of
        Inr p \<Rightarrow> (case map_of (m_parameters env) k of Some d \<Rightarrow> param_convert d p | None \<Rightarrow> Inr (GText p))
      | Inl e \<Rightarrow>
          if e \<noteq> KeyError then Inl e
          else (case map_of (m_parameters env) k of
                  Some d \<Rightarrow> Inr (if getlist (m_arguments env) ''edimodtype'' \<noteq> [] then GBool False else d)
                | None \<Rightarrow> Inr (GText [])))"

text \<open>Two environments that differ in the value of one parameter at most.\<close>

definition same_but :: "nat \<Rightarrow> string \<Rightarrow> cgi_state \<Rightarrow> cgi_state \<Rightarrow> bool" where
  "same_but i k s t \<longleftrightarrow> length (cgi_envs t) = length (cgi_envs s) \<and>
     (\<exists>p. env_at i t = (env_at i s)\<lparr>m_parameters := p\<rparr> \<and> fst ` set p = fst ` set (m_parameters (env_at i s)) \<and> (\<forall>k'. k' \<noteq> k \<longrightarrow> map_of p k' = map_of (m_parameters (env_at i s)) k'))"

lemma GetParameters_value:
  assumes "i < length (cgi_envs s)"
  shows "\<exists>t. GetParameters i k s = (param_value (env_at i s) k, t) \<and> same_but i k s t"
proof -
  have "same_but i k s s" unfolding same_but_def by (intro conjI exI [of _ "m_parameters (env_at i s)"]) simp_all
  moreover have "same_but i k s (s\<lparr>cgi_envs := (cgi_envs s)[i := (cgi_envs s ! i)\<lparr>m_parameters := AList.update k v (m_parameters (cgi_envs s ! i))\<rparr>]\<rparr>)"
    if "map_of (m_parameters (cgi_envs s ! i)) k = Some d" for v d
  proof -
    have "k \<in> fst ` set (m_parameters (cgi_envs s ! i))" using that by (metis domI dom_map_of_conv_image_fst)
    then have "set (map fst (AList.update k v (m_parameters (cgi_envs s ! i)))) = set (map fst (m_parameters (cgi_envs s ! i)))"
      unfolding update_keys by auto
    with assms show ?thesis
      unfolding same_but_def by (intro conjI exI [of _ "AList.update k v (m_parameters (env_at i s))"]) (simp_all add: env_at_def update_conv)
  qed
  ultimately show ?thesis
    by (auto simp: GetParameters_def param_value_def upd_env_def env_at_def andthen_run split: sum.splits option.splits)
qed

lemma same_but_value: "same_but i k s t \<Longrightarrow> k' \<noteq> k \<Longrightarrow> param_value (env_at i t) k' = param_value (env_at i s) k'"
proof -
  assume "same_but i k s t" "k' \<noteq> k"
  then obtain p where p: "env_at i t = (env_at i s)\<lparr>m_parameters := p\<rparr>" "map_of p k' = map_of (m_parameters (env_at i s)) k'"
    unfolding same_but_def by blast
  show ?thesis unfolding param_value_def p(1) using p(2)
    by (cases "field_value (m_arguments (env_at i s)) k'"; cases "map_of (m_parameters (env_at i s)) k'") simp_all
qed

lemma form_page_simps [simp]: "form_page [] = []" "form_page (xs @ ys) = form_page xs @ form_page ys"
  by (simp_all add: form_page_def)

lemma put_items_run: "put_items items s = (Inr items, s\<lparr>cg_out := cg_out s @ form_page items\<rparr>)"
proof -
  have "\<exists>r. for_each items put_item s = (Inr r, s\<lparr>cg_out := cg_out s @ form_page items\<rparr>)"
  proof (induction items arbitrary: s)
    case Nil
    show ?case by (intro exI [of _ "[]"]) simp
  next
    case (Cons x xs)
    have "put_item x s = (Inr [x], s\<lparr>cg_out := cg_out s @ item_line x @ [CHR 0x0A]\<rparr>)"
      by (simp add: put_item_def py_print_def WrtAsUtf_def andthen_run)
    with Cons [of "s\<lparr>cg_out := cg_out s @ item_line x @ [CHR 0x0A]\<rparr>"] show ?case by (auto simp: form_page_def)
  qed
  then show ?thesis by (auto simp: put_items_def andthen_run)
qed

lemma GetParameters_out: "cg_out (snd (GetParameters i k s)) = cg_out s"
  by (auto simp: GetParameters_def upd_env_def andthen_run split: sum.splits option.splits)

text \<open>The items of the parameters: one control for each, with the value that the parameter has.\<close>

lemma same_but_out [simp]: "same_but i k (s\<lparr>cg_out := out\<rparr>) t = same_but i k s t" "same_but i k s (t\<lparr>cg_out := out\<rparr>) = same_but i k s t"
  by (simp_all add: same_but_def env_at_def)

lemma env_at_out [simp]: "env_at i (s\<lparr>cg_out := out\<rparr>) = env_at i s"
  by (simp add: env_at_def)

definition cell :: "string \<Rightarrow> string" where
  "cell k = ''<td>'' @ k @ ''</td>''"

lemma param_items_run:
  assumes "param_items i k s = (Inr items, t)" "i < length (cgi_envs s)"
  shows "\<exists>v. param_value (env_at i s) k = Inr v \<and> submit ed ck items = submit_item ed ck (param_control k v) \<and> same_but i k s t"
    "cg_out t = cg_out s @ form_page items" "Html line \<in> set items \<Longrightarrow> line \<in> {''<tr>'', ''</tr>'', cell k}"
proof -
  let ?b = "[Html ''<tr>'', Html (''<td>'' @ k @ ''</td>'')]"
  let ?s = "s\<lparr>cg_out := cg_out s @ form_page ?b\<rparr>"
  obtain u where u: "GetParameters i k ?s = (param_value (env_at i s) k, u)" "same_but i k s u"
    using GetParameters_value [of i ?s k] assms(2) by auto
  have out: "cg_out u = cg_out s @ form_page ?b" using GetParameters_out [of i k ?s] u(1) by simp
  obtain v where v: "param_value (env_at i s) k = Inr v"
    using assms(1) put_items_run [of ?b s] u(1) by (cases "param_value (env_at i s) k") (simp_all add: param_items_def)
  let ?a = "[param_control k v, Html ''</tr>'']"
  from assms(1) put_items_run [of ?b s] u(1) put_items_run [of ?a u] v
  have it: "items = ?b @ ?a" "t = u\<lparr>cg_out := cg_out u @ form_page ?a\<rparr>"
    by (simp_all add: param_items_def)
  show "\<exists>v. param_value (env_at i s) k = Inr v \<and> submit ed ck items = submit_item ed ck (param_control k v) \<and> same_but i k s t"
    using u(2) v unfolding it by (simp add: submit_def)
  show "cg_out t = cg_out s @ form_page items" unfolding it using out by (simp only: form_page_simps) simp
  show "line \<in> {''<tr>'', ''</tr>'', cell k}" if "Html line \<in> set items"
    using that unfolding it by (cases v) (auto simp: cell_def)
qed

lemma params_page:
  "for_each ks (param_items i) s = (Inr itemss, t) \<Longrightarrow> i < length (cgi_envs s) \<Longrightarrow>
   cg_out t = cg_out s @ form_page (concat itemss) \<and>
   (\<forall>line. Html line \<in> set (concat itemss) \<longrightarrow> line \<in> {''<tr>'', ''</tr>''} \<union> cell ` set ks)"
proof (induction ks arbitrary: s itemss)
  case (Cons k ks)
  from Cons.prems(1) obtain items itemss' u where u: "param_items i k s = (Inr items, u)"
    "for_each ks (param_items i) u = (Inr itemss', t)" "itemss = items # itemss'"
    by (auto simp: bnd_eq_Inr)
  have "same_but i k s u" using param_items_run(1) [OF u(1) Cons.prems(2)] by blast
  then have "i < length (cgi_envs u)" using Cons.prems(2) by (simp add: same_but_def)
  with Cons.IH [OF u(2)] param_items_run(2,3) [OF u(1) Cons.prems(2)] u(3) show ?case by auto
qed simp

lemma submit_simps [simp]: "submit ed ck [] = []" "submit ed ck (x # xs) = submit_item ed ck x @ submit ed ck xs"
  "submit ed ck (xs @ ys) = submit ed ck xs @ submit ed ck ys"
  by (simp_all add: submit_def)

lemma getlist_simps [simp]: "getlist [] k = []" "getlist (xs @ ys) k = getlist xs k @ getlist ys k"
  "getlist ((k', v) # xs) k = (if k' = k then v # getlist xs k else getlist xs k)"
  by (simp_all add: getlist_def)

lemma control_name: "k' \<noteq> k \<Longrightarrow> getlist (submit_item ed ck (param_control k' v)) k = []"
  by (cases v) simp_all

lemma all_params_run:
  "for_each ks (param_items i) s = (Inr itemss, t) \<Longrightarrow> i < length (cgi_envs s) \<Longrightarrow> distinct ks \<Longrightarrow>
   length (cgi_envs t) = length (cgi_envs s) \<and> (\<exists>p. env_at i t = (env_at i s)\<lparr>m_parameters := p\<rparr> \<and> fst ` set p = fst ` set (m_parameters (env_at i s))) \<and>
   (\<forall>k. if k \<in> set ks
        then \<exists>v. param_value (env_at i s) k = Inr v \<and> getlist (submit ed ck (concat itemss)) k = getlist (submit_item ed ck (param_control k v)) k
        else getlist (submit ed ck (concat itemss)) k = [])"
proof (induction ks arbitrary: s itemss)
  case Nil
  then show ?case by (auto intro: exI [of _ "m_parameters (env_at i s)"])
next
  case (Cons k ks)
  from Cons.prems(1) obtain items itemss' u where u: "param_items i k s = (Inr items, u)"
    "for_each ks (param_items i) u = (Inr itemss', t)" "itemss = items # itemss'"
    by (auto simp: bnd_eq_Inr)
  obtain v where v: "param_value (env_at i s) k = Inr v" "submit ed ck items = submit_item ed ck (param_control k v)" "same_but i k s u"
    using param_items_run(1) [OF u(1) Cons.prems(2)] by blast
  have len: "length (cgi_envs u) = length (cgi_envs s)" using v(3) by (simp add: same_but_def)
  note IH = Cons.IH [OF u(2)]
  have keep: "k' \<noteq> k \<Longrightarrow> param_value (env_at i u) k' = param_value (env_at i s) k'" for k' by (rule same_but_value [OF v(3)])
  have "\<exists>p. env_at i u = (env_at i s)\<lparr>m_parameters := p\<rparr> \<and> fst ` set p = fst ` set (m_parameters (env_at i s))"
    using v(3) by (auto simp: same_but_def)
  moreover have "length (cgi_envs t) = length (cgi_envs u)"
    "\<exists>p. env_at i t = (env_at i u)\<lparr>m_parameters := p\<rparr> \<and> fst ` set p = fst ` set (m_parameters (env_at i u))"
    using IH Cons.prems(2,3) len by auto
  moreover have "if k' \<in> set (k # ks)
        then \<exists>v. param_value (env_at i s) k' = Inr v \<and> getlist (submit ed ck (concat itemss)) k' = getlist (submit_item ed ck (param_control k' v)) k'
        else getlist (submit ed ck (concat itemss)) k' = []" for k'
  proof (cases "k' = k")
    case True
    have "k \<notin> set ks" using Cons.prems(3) by simp
    then have "getlist (submit ed ck (concat itemss')) k = []" using IH Cons.prems(2,3) len by auto
    with True v(1,2) u(3) show ?thesis by simp
  next
    case False
    have "if k' \<in> set ks
        then \<exists>v. param_value (env_at i u) k' = Inr v \<and> getlist (submit ed ck (concat itemss')) k' = getlist (submit_item ed ck (param_control k' v)) k'
        else getlist (submit ed ck (concat itemss')) k' = []"
      using IH Cons.prems(2,3) len by auto
    then show ?thesis using False v(2) u(3) keep [OF False] control_name [OF False [symmetric]]
      by (cases "k' \<in> set ks") simp_all
  qed
  ultimately show ?case using len by auto
qed

text \<open>The hidden arguments never have the name of a parameter.\<close>

lemma hidden_names:
  assumes "k \<in> fst ` set (m_parameters env)" "\<not> endswith k ''[]''"
  shows "getlist (submit ed ck (argument_items env keys)) k = []"
proof -
  have other: "key @ ''[]'' \<noteq> k" for key using assms(2) by (auto simp: endswith_def)
  have many: "getlist (submit ed ck (map (HiddenArg (key @ ''[]'')) vs)) k = []" for key vs
    using other by (induction vs) simp_all
  show ?thesis
  proof (induction keys)
    case (Cons key keys)
    have "getlist (submit ed ck (argument_items env [key])) k = []"
    proof (cases "key \<in> fst ` set (m_parameters env)")
      case False
      with assms(1) have "key \<noteq> k" by blast
      with many show ?thesis by (simp add: argument_items_def Let_def)
    qed (simp add: argument_items_def)
    moreover have "argument_items env (key # keys) = argument_items env [key] @ argument_items env keys"
      by (simp add: argument_items_def)
    ultimately show ?case using Cons by simp
  qed (simp add: argument_items_def)
qed

lemma object_names: "\<not> startswith k ''edimodargs_'' \<Longrightarrow> getlist (submit ed ck (object_items env)) k = []"
proof -
  assume "\<not> startswith k ''edimodargs_''"
  then have other: "''edimodargs_'' @ kv \<noteq> k" for kv by (auto simp: startswith_def)
  have "getlist (submit ed ck (concat (map (\<lambda>(kvKey, kvVal).
      [Html ''<tr>'', Html (''<td>'' @ kvKey @ ''</td>''), TextBox (''edimodargs_'' @ kvKey) kvVal, Html ''</tr>'']) d))) k = []" for d
    using other by (induction d) (auto simp del: append_Cons)
  then show ?thesis by (simp add: object_items_def)
qed

text \<open>The form says that it is one: the new request has an argument \<^verbatim>\<open>edimodtype\<close>.\<close>

lemma edimode_sent:
  assumes "m_entity_type env \<noteq> []" "''edimodtype'' \<notin> fst ` set (m_parameters env)"
    "length (getlist (m_arguments env) ''edimodtype'') \<le> 1" "\<forall>(k, v) \<in> set (m_arguments env). v \<noteq> []"
  shows "\<exists>v. v \<noteq> [] \<and> v \<in> set (getlist (submit ed ck
    ((if ''edimodtype'' \<notin> set (field_keys (m_arguments env)) then [HiddenType (m_entity_type env)] else []) @
     argument_items env (field_keys (m_arguments env)))) ''edimodtype'')"
proof (cases "''edimodtype'' \<in> set (field_keys (m_arguments env))")
  case False
  then show ?thesis using assms(1) by (intro exI [of _ "m_entity_type env"]) simp
next
  case True
  have "set (foldl (\<lambda>ks kv. add_elem (fst kv) ks) ks args) = set ks \<union> fst ` set args" for ks and args :: field_list
    by (induction args arbitrary: ks) auto
  then have "set (field_keys (m_arguments env)) = fst ` set (m_arguments env)" by (simp add: field_keys_def)
  with True obtain v where v: "(''edimodtype'', v) \<in> set (m_arguments env)" by auto
  then have "v \<in> set (getlist (m_arguments env) ''edimodtype'')" by (force simp: getlist_def)
  with assms(3) have one: "getlist (m_arguments env) ''edimodtype'' = [v]" by (cases "getlist (m_arguments env) ''edimodtype''") auto
  have no: "''edimodargs_'' @ kv \<noteq> ''edimodtype''" for kv :: string by simp
  have "argument_items env [''edimodtype''] = [HiddenArg ''edimodtype'' v]"
    using assms(2) one no by (auto simp: argument_items_def)
  moreover obtain ks1 ks2 where "field_keys (m_arguments env) = ks1 @ ''edimodtype'' # ks2" using True by (auto simp: in_set_conv_decomp)
  moreover have "argument_items env (ks1 @ ''edimodtype'' # ks2) = argument_items env ks1 @ argument_items env [''edimodtype''] @ argument_items env ks2"
    by (simp add: argument_items_def)
  ultimately show ?thesis using v assms(4) by (intro exI [of _ v]) auto
qed

text \<open>
  What a script gets for a parameter with the default \<open>d\<close> that the form showed as \<open>v\<close>: an empty text is not
  sent, so that it is taken for a box that is not checked.
\<close>

fun submitted_value :: "(string \<Rightarrow> string \<Rightarrow> string) \<Rightarrow> (string \<Rightarrow> bool \<Rightarrow> bool) \<Rightarrow> string \<Rightarrow> gval \<Rightarrow> gval \<Rightarrow> gval pyres" where
  "submitted_value ed ck k d (GBool b) = (if ck k b then param_convert d ''True'' else Inr (GBool False))"
| "submitted_value ed ck k d v = (if ed k (gval_str v) = [] then Inr (GBool False) else param_convert d (ed k (gval_str v)))"

lemma submitted_list:
  "getlist (filter (\<lambda>(k, v). v \<noteq> []) ps) k = filter (\<lambda>v. v \<noteq> []) (getlist ps k)"
  by (induction ps) (auto simp: getlist_def)

lemma submitted_control:
  assumes "getlist args k = filter (\<lambda>v. v \<noteq> []) (getlist (submit_item ed ck (param_control k v)) k)"
    "getlist args ''edimodtype'' \<noteq> []" "map_of params k = Some d"
  shows "param_value (env\<lparr>m_parameters := params, m_arguments := args\<rparr>) k = submitted_value ed ck k d v"
  using assms by (cases v) (auto simp: param_value_def field_value_def)

fun same_type :: "gval \<Rightarrow> gval \<Rightarrow> bool" where
  "same_type (GText _) (GText _) = True"
| "same_type (GInt _) (GInt _) = True"
| "same_type (GBool _) (GBool _) = True"
| "same_type _ _ = False"

lemma unchanged_value:
  "same_type d v \<Longrightarrow> gval_str v \<noteq> [] \<Longrightarrow> submitted_value (\<lambda>n x. x) (\<lambda>n b. b) k d v = Inr v"
  by (cases "(d, v)" rule: same_type.cases) auto

definition form_head :: "string \<Rightarrow> string list" where
  "form_head action =
     [''<form name=\"myform\" action=\"'' @ action @ ''\" method=\"GET\">'', ''<table class=\"table_script_parameters\">'']"

definition form_tail :: "string list" where
  "form_tail = [''<input type=\"submit\" value=\"Submit\">'', ''</form>'', ''</td></tr>'', ''</table>'']"

lemma FormEditionParameters_items:
  assumes "FormEditionParameters action i s = (Inr items, t)" "i < length (cgi_envs s)"
  shows "\<exists>itemss u u' out1. u = s\<lparr>cg_out := out1\<rparr> \<and>
    for_each (map fst (m_parameters (env_at i s))) (param_items i) u = (Inr itemss, u') \<and>
    items = map Html (form_head action) @ object_items (env_at i s) @ concat itemss @ [Html ''<tr><td colspan=2>''] @
      (if ''edimodtype'' \<notin> set (field_keys (m_arguments (env_at i s))) then [HiddenType (m_entity_type (env_at i s))] else []) @
      argument_items (env_at i u') (field_keys (m_arguments (env_at i s))) @ map Html form_tail \<and>
    cg_out t = cg_out s @ form_page items"
proof -
  let ?f = "map Html (form_head action) @ object_items (env_at i s)" and ?keys = "field_keys (m_arguments (env_at i s))"
  let ?s = "s\<lparr>cg_out := cg_out s @ form_page ?f\<rparr>"
  note 1 = put_items_run [of ?f s]
  obtain r u' where u': "for_each (map fst (m_parameters (env_at i s))) (param_items i) ?s = (r, u')" by fastforce
  show ?thesis
  proof (cases r)
    case (Inl e)
    with 1 u' have "fst (FormEditionParameters action i s) = Inl e"
      unfolding FormEditionParameters_def Let_def by (simp add: form_head_def)
    with assms show ?thesis by simp
  next
    case (Inr itemss)
    let ?l = "Html ''<tr><td colspan=2>'' #
      (if ''edimodtype'' \<notin> set ?keys then [HiddenType (m_entity_type (env_at i s))] else []) @
      argument_items (env_at i u') ?keys @ map Html form_tail"
    have "FormEditionParameters action i s = (Inr (?f @ concat itemss @ ?l), u'\<lparr>cg_out := cg_out u' @ form_page ?l\<rparr>)"
      unfolding FormEditionParameters_def Let_def using 1 u' Inr put_items_run [of ?l u']
      by (simp add: form_head_def form_tail_def del: if_image_distrib)
    with assms have it: "items = ?f @ concat itemss @ ?l" "t = u'\<lparr>cg_out := cg_out u' @ form_page ?l\<rparr>" by simp_all
    have "cg_out u' = cg_out ?s @ form_page (concat itemss)"
      using params_page [of _ i ?s itemss u'] u' Inr assms(2) by simp
    then have "cg_out t = cg_out s @ form_page items" unfolding it by (simp only: form_page_simps) simp
    with u' Inr it(1) show ?thesis
      by (intro exI [of _ itemss] exI [of _ ?s] exI [of _ u'] exI [of _ "cg_out s @ form_page ?f"]) simp
  qed
qed

text \<open>The other lines of the form have no control, when the names in them have no angle bracket.\<close>

definition plain_names :: "string \<Rightarrow> cgi_env \<Rightarrow> bool" where
  "plain_names action env \<longleftrightarrow> CHR 0x22 \<notin> set action \<and>
     list_all (\<lambda>n. CHR ''<'' \<notin> set n) (m_entity_type env # map fst (m_entity_id_dict env) @ map fst (m_parameters env))"

lemma dict_lines:
  "Html line \<in> set (concat (map (\<lambda>(kvKey, kvVal).
      [Html ''<tr>'', Html (''<td>'' @ kvKey @ ''</td>''), TextBox (''edimodargs_'' @ kvKey) kvVal, Html ''</tr>'']) d)) \<Longrightarrow>
   line \<in> {''<tr>'', ''</tr>''} \<union> cell ` fst ` set d"
proof (induction d)
  case (Cons kv d)
  obtain k v where "kv = (k, v)" by (cases kv)
  moreover have "Html line = Html l \<Longrightarrow> line = l" for l by simp
  ultimately show ?case using Cons unfolding cell_def by (simp del: append.simps append_Cons) blast
qed simp

lemma object_lines:
  assumes "plain_names action env" "Html line \<in> set (object_items env)"
  shows "html_line line"
proof -
  have "line \<in> {''<tr>'', ''</tr>''} \<union> cell ` fst ` set (m_entity_id_dict env)"
    if "line \<noteq> ''<tr><td colspan=2>'' @ m_entity_type env @ ''</td>''"
    using assms(2) that unfolding object_items_def
    by (intro dict_lines) (cases "m_entity_type env = []"; simp only: if_True if_False not_True_eq_False
        not_False_eq_True list.set empty_iff insert_iff form_item.inject simp_thms)
  moreover have "html_line (cell k)" if "k \<in> fst ` set (m_entity_id_dict env)" for k
    using assms(1) that cell_line [of k] by (auto simp: plain_names_def cell_def list_all_iff)
  moreover have "html_line (''<tr><td colspan=2>'' @ m_entity_type env @ ''</td>'')"
    using assms(1) by (intro class_line) (simp add: plain_names_def)
  ultimately show ?thesis using fixed_lines by blast
qed

lemma argument_lines: "Html line \<notin> set (argument_items env keys)"
  by (auto simp: argument_items_def Let_def split: if_splits)

lemma form_lines:
  assumes "FormEditionParameters action i s = (Inr items, t)" "i < length (cgi_envs s)"
    "plain_names action (env_at i s)" "Html line \<in> set items"
  shows "html_line line"
proof -
  obtain itemss u u' out1 where it: "u = s\<lparr>cg_out := out1\<rparr>"
    "for_each (map fst (m_parameters (env_at i s))) (param_items i) u = (Inr itemss, u')"
    "items = map Html (form_head action) @ object_items (env_at i s) @ concat itemss @ [Html ''<tr><td colspan=2>''] @
      (if ''edimodtype'' \<notin> set (field_keys (m_arguments (env_at i s))) then [HiddenType (m_entity_type (env_at i s))] else []) @
      argument_items (env_at i u') (field_keys (m_arguments (env_at i s))) @ map Html form_tail"
    using FormEditionParameters_items [OF assms(1,2)] by blast
  have "i < length (cgi_envs u)" using assms(2) it(1) by simp
  note cells = params_page [OF it(2) this]
  consider "line \<in> set (form_head action)" | "Html line \<in> set (object_items (env_at i s))" | "Html line \<in> set (concat itemss)"
    | "line \<in> set (''<tr><td colspan=2>'' # form_tail)"
    using assms(4) argument_lines [of line "env_at i u'"] unfolding it(3) by (auto split: if_splits)
  then show ?thesis
  proof cases
    case 1
    then show ?thesis using assms(3) form_line [of action] fixed_lines by (auto simp: form_head_def plain_names_def)
  next
    case 2
    then show ?thesis by (rule object_lines [OF assms(3)])
  next
    case 3
    then have "line \<in> {''<tr>'', ''</tr>''} \<union> cell ` fst ` set (m_parameters (env_at i s))" using cells by auto
    then show ?thesis using assms(3) fixed_lines cell_line by (auto simp: plain_names_def cell_def list_all_iff)
  next
    case 4
    then show ?thesis using fixed_lines by (auto simp: form_tail_def)
  qed
qed

lemma html_submits [simp]: "submit ed ck (map Html ls) = []"
  by (induction ls) simp_all

text \<open>
  C7. Editing the parameters of a script in its form gives the script the values that the user set, except the
  empty texts. The form of a page about an object is printed; the browser reads the printed text, the user
  changes the texts and the boxes in any way, and the browser sends the form. Then for each parameter
  \<^verbatim>\<open>GetParameters\<close> of the new page gives the state of its box, or its text converted to the type of the default
  value; for a text that was left empty it gives False, not the default value, since empty texts are not sent.
  When the user changes nothing and the shown text is not empty, it gives the value that the form showed, which
  is the one that \<^verbatim>\<open>GetParameters\<close> gave on the first page. The values in the form must be plain: the form does not
  encode them, so none may have the quote that encloses it (a double quote, a single quote for a hidden
  argument), an ampersand or a line break; the names must not be empty or have an angle bracket, and those of
  the parameters must not be the ones that the form uses itself.
\<close>

theorem form_roundtrip:
  assumes "FormEditionParameters action i s = (Inr items, t)" "i < length (cgi_envs s)"
    "m_entity_type (env_at i s) \<noteq> []" "distinct (map fst (m_parameters (env_at i s)))"
    "\<forall>k \<in> fst ` set (m_parameters (env_at i s)). k \<noteq> ''edimodtype'' \<and> \<not> startswith k ''edimodargs_'' \<and> \<not> endswith k ''[]''"
    "m_arguments (env_at i s) = parse_qsl qs" "length (getlist (parse_qsl qs) ''edimodtype'') \<le> 1"
    "list_all plain_item items" "plain_names action (env_at i s)"
    "j < length (cgi_envs u)"
    "env_at j u = env\<lparr>m_parameters := m_parameters (env_at i s),
       m_arguments := parse_qsl (form_query (send_page ed ck (drop (length (cg_out s)) (cg_out t))))\<rparr>"
    "map_of (m_parameters (env_at i s)) k = Some d"
  shows "\<exists>v. fst (GetParameters i k s) = Inr v \<and> fst (GetParameters j k u) = submitted_value ed ck k d v \<and>
    (ed = (\<lambda>n x. x) \<and> ck = (\<lambda>n b. b) \<and> same_type d v \<and> gval_str v \<noteq> [] \<longrightarrow> fst (GetParameters j k u) = Inr v)"
proof -
  let ?e = "env_at i s"
  obtain itemss s1 s2 out1 where items: "s1 = s\<lparr>cg_out := out1\<rparr>"
    "for_each (map fst (m_parameters ?e)) (param_items i) s1 = (Inr itemss, s2)"
    "items = map Html (form_head action) @ object_items ?e @ concat itemss @ [Html ''<tr><td colspan=2>''] @
      (if ''edimodtype'' \<notin> set (field_keys (m_arguments ?e)) then [HiddenType (m_entity_type ?e)] else []) @
      argument_items (env_at i s2) (field_keys (m_arguments ?e)) @ map Html form_tail"
    "cg_out t = cg_out s @ form_page items"
    using FormEditionParameters_items [OF assms(1,2)] by blast
  have "send_page ed ck (form_page items) = submit ed ck items"
    by (rule send_form_page [OF assms(8) form_lines [OF assms(1,2,9)]])
  then have page: "send_page ed ck (drop (length (cg_out s)) (cg_out t)) = submit ed ck items" unfolding items(4) by simp
  have k: "k \<in> fst ` set (m_parameters ?e)" using assms(12) by (metis domI dom_map_of_conv_image_fst)
  then have names: "k \<noteq> ''edimodtype''" "\<not> startswith k ''edimodargs_''" "\<not> endswith k ''[]''" using assms(5) by blast+
  have e1: "env_at i s1 = ?e" "i < length (cgi_envs s1)" using items(1) assms(2) by simp_all
  note run = all_params_run [OF items(2) e1(2) assms(4), of ed ck, unfolded e1(1)]
  obtain p where p: "env_at i s2 = ?e\<lparr>m_parameters := p\<rparr>" "fst ` set p = fst ` set (m_parameters ?e)"
    using run by blast
  obtain v where v: "param_value ?e k = Inr v"
    "getlist (submit ed ck (concat itemss)) k = getlist (submit_item ed ck (param_control k v)) k"
    using run k by (metis list.set_map)
  have hidden: "getlist (submit ed ck (argument_items (env_at i s2) keys)) k = []" for keys
    using k p by (intro hidden_names names) simp_all
  have "getlist (submit ed ck items) k = getlist (submit_item ed ck (param_control k v)) k"
    unfolding items(3) using v(2) hidden object_names [OF names(2)] names(1) by simp
  then have sent: "getlist (parse_qsl (form_query (submit ed ck items))) k =
      filter (\<lambda>v. v \<noteq> []) (getlist (submit_item ed ck (param_control k v)) k)"
    unfolding form_query_read submitted_list by simp
  have ne: "\<forall>(k, v) \<in> set (parse_qsl qs). v \<noteq> []" using field_not_empty by blast
  have "m_entity_type (env_at i s2) = m_entity_type ?e" "m_arguments (env_at i s2) = m_arguments ?e"
    "''edimodtype'' \<notin> fst ` set (m_parameters (env_at i s2))" "\<forall>(k, v) \<in> set (m_arguments (env_at i s2)). v \<noteq> []"
    using p assms(5) ne assms(6) by auto
  note same = this(1,2) and sent_by = edimode_sent [of "env_at i s2" ed ck, OF _ this(3) _ this(4)]
  obtain t where t: "t \<noteq> []" "t \<in> set (getlist (submit ed ck
      ((if ''edimodtype'' \<notin> set (field_keys (m_arguments ?e)) then [HiddenType (m_entity_type ?e)] else []) @
       argument_items (env_at i s2) (field_keys (m_arguments ?e)))) ''edimodtype'')"
    using sent_by [unfolded same] assms(3,7) unfolding assms(6) by blast
  then have "t \<in> set (getlist (submit ed ck items) ''edimodtype'')" unfolding items(3) by simp
  with t(1) have "t \<in> set (getlist (parse_qsl (form_query (submit ed ck items))) ''edimodtype'')"
    unfolding form_query_read submitted_list by simp
  then have edit: "getlist (parse_qsl (form_query (submit ed ck items))) ''edimodtype'' \<noteq> []" by force
  have "fst (GetParameters j k u) = param_value (env_at j u) k" using GetParameters_value [OF assms(10)] by (metis fst_conv)
  also have "\<dots> = submitted_value ed ck k d v"
    unfolding assms(11) page using sent edit assms(12) by (rule submitted_control)
  finally have "fst (GetParameters j k u) = submitted_value ed ck k d v" .
  moreover have "fst (GetParameters i k s) = Inr v" using GetParameters_value [OF assms(2)] v(1) by (metis fst_conv)
  ultimately show ?thesis using unchanged_value by metis
qed

text \<open>A page that shows a maximum of 20 and a box that is not checked: the user writes 50 and checks the box.\<close>

definition sample_params :: "(string \<times> gval) list" where
  "sample_params = [(''Max'', GInt 10), (''All'', GBool False)]"

definition sample_shown :: cgi_state where
  "sample_shown = sample_state (request ''xid=CIM_Process.Handle%3D1&Max=20&mode=edit'') sample_params"

definition sample_form :: "form_item list \<times> string" where
  "sample_form = (case FormEditionParameters ''/survol/entity.py'' 0 sample_shown of
     (Inr items, t) \<Rightarrow> (items, drop (length (cg_out sample_shown)) (cg_out t)) | _ \<Rightarrow> ([], []))"

lemma sample_form_plain: "list_all plain_item (fst sample_form)"
  by code_simp

lemma form_roundtrip_witness:
  "\<exists>items t. FormEditionParameters ''/survol/entity.py'' 0 sample_shown = (Inr items, t) \<and>
    fst (GetParameters 0 ''Max'' (sample_state (request (form_query
      (send_page (\<lambda>n x. ''50'') (\<lambda>n b. True) (drop (length (cg_out sample_shown)) (cg_out t))))) sample_params)) = Inr (GInt 50)"
proof -
  let ?qs = "''xid=CIM_Process.Handle%3D1&Max=20&mode=edit''"
  have "\<not> isl (fst (FormEditionParameters ''/survol/entity.py'' 0 sample_shown))" by code_simp
  then obtain items t where f: "FormEditionParameters ''/survol/entity.py'' 0 sample_shown = (Inr items, t)"
    by (metis isl_def obj_sumE prod.collapse)
  then have plain: "list_all plain_item items" using sample_form_plain by (simp add: sample_form_def)
  let ?q = "form_query (send_page (\<lambda>n x. ''50'') (\<lambda>n b. True) (drop (length (cg_out sample_shown)) (cg_out t)))"
  have fs: "FieldStorage (request q) = parse_qsl q" for q
    by (simp add: FieldStorage_def request_def set_environ_def update_conv)
  have env: "env_at 0 (sample_state (request q) ps) = sample_env (request q) ps" "0 < length (cgi_envs (sample_state (request q) ps))" for q ps
    by (simp_all add: env_at_def sample_state_def)
  have e: "m_parameters (sample_env (request q) ps) = ps" "m_arguments (sample_env (request q) ps) = parse_qsl q"
    "m_entity_type (sample_env (request q) ps) = ''CIM_Process''" for q ps
    unfolding fs [symmetric] by (simp_all add: sample_env_def)
  have shown: "env_at 0 sample_shown = sample_env (request ?qs) sample_params" "0 < length (cgi_envs sample_shown)"
    unfolding sample_shown_def by (rule env)+
  have new: "env_at 0 (sample_state (request ?q) sample_params) =
      (sample_env (request ?q) sample_params)\<lparr>m_parameters := m_parameters (env_at 0 sample_shown), m_arguments := parse_qsl ?q\<rparr>"
    unfolding env shown e fs [symmetric] by (simp add: sample_env_def)
  have 1: "length (getlist (parse_qsl ?qs) ''edimodtype'') \<le> 1" by code_simp
  have 2: "fst (GetParameters 0 ''Max'' sample_shown) = Inr (GInt 20)" by code_simp
  have 3: "submitted_value (\<lambda>n x. ''50'') (\<lambda>n b. True) ''Max'' (GInt 10) (GInt 20) = Inr (GInt 50)" by code_simp
  have 4: "plain_names ''/survol/entity.py'' (env_at 0 sample_shown)" by code_simp
  have "\<exists>v. fst (GetParameters 0 ''Max'' sample_shown) = Inr v \<and>
      fst (GetParameters 0 ''Max'' (sample_state (request ?q) sample_params)) = submitted_value (\<lambda>n x. ''50'') (\<lambda>n b. True) ''Max'' (GInt 10) v"
    using form_roundtrip [OF f shown(2) _ _ _ _ 1 plain 4 env(2) new, of "''Max''" "GInt 10"]
    by (simp add: shown e sample_params_def startswith_def endswith_def) blast
  with 2 3 f show ?thesis by auto
qed

end
