(* ===== verification/PageProps.thy ===== *)
theory PageProps
  imports FormProps
begin

text \<open>
  What the requests and the pages promise: a script that only knows its own machine does not run for the
  object of another one; the nodes of the same object are linked; the menu of an object is the tree of its
  scripts; the merge of several pages is the sum of their graphs.
\<close>

subsection \<open>The objects of other machines\<close>

definition never :: "('s, 'a) py \<Rightarrow> bool" where
  "never m \<longleftrightarrow> (\<forall>s. isl (fst (m s)))"

lemma never_rules: "never (raise e)" "(\<And>a. never (f a)) \<Longrightarrow> never (bnd m f)" "never n \<Longrightarrow> never (andthen m n)"
  by (auto simp: never_def bnd_def andthen_def split: prod.splits sum.splits)

lemma neverD: "never m \<Longrightarrow> m s \<noteq> (Inr a, t)"
  unfolding never_def by (metis fst_conv sum.disc(2))

lemma error_raises: "never (ErrorMessageHtml c m)"
  unfolding ErrorMessageHtml_def WriteJsonError_def
  by (auto intro!: never_rules split: option.splits)

lemma edition_raises: "never (EditionMode c i)"
  unfolding EditionMode_def by (intro never_rules)

lemma error_no_unit: "ErrorMessageHtml c m s \<noteq> (Inr (x :: unit), t)"
  and edition_no_nat: "EditionMode c i s \<noteq> (Inr (n :: nat), t)"
  by (rule neverD, rule error_raises, rule neverD, rule edition_raises)

lemma local_keeps: "IsLocalAddress c h a = (r, b) \<Longrightarrow> b = a"
  by (auto simp: IsLocalAddress_def Let_def split: if_splits)

lemma test_remote:
  assumes "TestRemoteIfPossible c env False s = (Inr (), t)"
  shows "fst (IsLocalAddress (cg_agent_conf c) (m_entity_host env) (pg_agent (cg_pages t))) = Inr True"
proof -
  obtain r a where r: "IsLocalAddress (cg_agent_conf c) (m_entity_host env) (pg_agent (cg_pages s)) = (r, a)" by fastforce
  then have a: "a = pg_agent (cg_pages s)" by (rule local_keeps)
  have run: "on_agent (IsLocalAddress (cg_agent_conf c) (m_entity_host env)) s = (r, s)"
    using r a by (simp add: on_pages_def on_page_def)
  show ?thesis
  proof (cases r)
    case (Inl e)
    with assms run show ?thesis by (simp add: TestRemoteIfPossible_def)
  next
    case (Inr b)
    with assms run error_no_unit have "b \<and> t = s" by (auto simp: TestRemoteIfPossible_def split: if_splits)
    with r Inr show ?thesis by simp
  qed
qed

text \<open>
  C18. A script that cannot process remote hosts never gets the object of one. When the constructor of
  \<^verbatim>\<open>CgiEnv\<close> returns for such a script, the object is the one of the argument \<^verbatim>\<open>xid\<close> of the request, and its
  host is an address of the machine of the agent; the parameters are those of the script. A request for
  another host, or for the form of the parameters, ends in an error or an exit.
\<close>

theorem remote_refused:
  assumes "CgiEnv_init c caller params False s = (Inr i, t)"
  shows "i < length (cgi_envs t) \<and>
    GetXid (FieldStorage c) = Inr (m_entity_type (env_at i t), m_entity_id (env_at i t), m_entity_host (env_at i t)) \<and>
    m_parameters (env_at i t) = params \<and> cgi_mode c \<noteq> ''edit'' \<and>
    fst (IsLocalAddress (cg_agent_conf c) (m_entity_host (env_at i t)) (pg_agent (cg_pages t))) = Inr True"
proof -
  let ?env = "\<lambda>title et ei eh. \<lparr>m_parameters = params, m_parameterized_links = [], m_page_title = Some title,
    m_calling_url = RequestUri (cg_agent_conf c), m_can_process_remote = False, m_arguments = FieldStorage c,
    m_entity_type = et, m_entity_id = ei, m_entity_host = eh, m_entity_id_dict = SplitMoniker ei, m_graph = None,
    m_layoutParams = None\<rparr>"
  from assms obtain title et ei eh u v where
    xid: "GetXid (FieldStorage c) = Inr (et, ei, eh)" and
    test: "TestRemoteIfPossible c (?env title et ei eh) False u = (Inr (), v)" and
    new: "bnd (new_env (?env title et ei eh)) (\<lambda>i. if cgi_mode c = ''edit'' then EditionMode c i else ret i) v = (Inr i, t)"
    unfolding CgiEnv_init_def Let_def globalCanProcessRemote_def
    by (auto simp: bnd_eq_Inr andthen_def of_res_def split: prod.splits)
  let ?e = "?env title et ei eh"
  have mode: "cgi_mode c \<noteq> ''edit''"
    using new edition_no_nat by (auto simp: new_env_def)
  with new have t: "i = length (cgi_envs v)" "t = v\<lparr>cgi_envs := cgi_envs v @ [?e]\<rparr>" by (simp_all add: new_env_def)
  then have "env_at i t = ?e" by (simp add: env_at_def)
  with xid test_remote [OF test] mode t show ?thesis by simp
qed

lemma remote_refused_witness:
  "\<exists>i t. CgiEnv_init (request ''xid=CIM_Process.Handle%3D1'') ''/survol/entity.py'' [] False
      (cgi_start sample_cgi (page_start sample_agent)) = (Inr i, t) \<and>
    m_entity_type (env_at i t) = ''CIM_Process'' \<and> m_entity_id (env_at i t) = ''Handle=1'' \<and>
    fst (IsLocalAddress (cg_agent_conf (request ''xid=CIM_Process.Handle%3D1'')) (m_entity_host (env_at i t)) (pg_agent (cg_pages t))) = Inr True"
proof -
  let ?c = "request ''xid=CIM_Process.Handle%3D1''" and ?s = "cgi_start sample_cgi (page_start sample_agent)"
  have "\<not> isl (fst (CgiEnv_init ?c ''/survol/entity.py'' [] False ?s))" by code_simp
  then obtain i t where r: "CgiEnv_init ?c ''/survol/entity.py'' [] False ?s = (Inr i, t)"
    by (metis isl_def obj_sumE prod.collapse)
  have "GetXid (FieldStorage ?c) = Inr (''CIM_Process'', ''Handle=1'', [])" by code_simp
  with remote_refused [OF r] r show ?thesis by auto
qed

subsection \<open>The nodes of the same object\<close>

definition graph_nodes :: "rtriple list \<Rightarrow> rnode set" where
  "graph_nodes grph = (\<Union>(subj, pred, obj) \<in> set grph. {subj, obj})"

text \<open>The alias of each node that has one is found, in any state that the search of aliases can reach.\<close>

definition alias_found :: "page_conf \<Rightarrow> (page_state \<Rightarrow> bool) \<Rightarrow> (rnode \<Rightarrow> string) \<Rightarrow> rnode \<Rightarrow> bool" where
  "alias_found pc I A n \<longleftrightarrow> (\<forall>p. I p \<longrightarrow> (\<exists>p'. NodeToUniversalAlias pc (node_text n) p = (Inr (A n), p') \<and> I p'))"

definition dict_ok :: "(rnode \<Rightarrow> string) \<Rightarrow> rnode set \<Rightarrow> (string \<times> rnode list) list \<Rightarrow> bool" where
  "dict_ok A N d \<longleftrightarrow> distinct (map fst d) \<and> (\<forall>(a, objs) \<in> set d. objs \<noteq> [] \<and> (\<forall>n \<in> set objs. n \<in> N \<and> A n = a)) \<and>
     (\<forall>n \<in> N. \<exists>objs. (A n, objs) \<in> set d \<and> n \<in> set objs)"

definition pages_only :: "cgi_state \<Rightarrow> cgi_state \<Rightarrow> bool" where
  "pages_only s t \<longleftrightarrow> (\<exists>p. t = s\<lparr>cg_pages := p\<rparr>)"

lemma dict_ok_put:
  assumes "dict_ok A N d"
  shows "dict_ok A (insert n N) (AList.update (A n) (add_elem n (case map_of d (A n) of None \<Rightarrow> [] | Some objs \<Rightarrow> objs)) d)"
proof -
  have dist: "distinct (map fst d)" using assms by (simp add: dict_ok_def)
  let ?o = "add_elem n (case map_of d (A n) of None \<Rightarrow> [] | Some objs \<Rightarrow> objs)"
  let ?d = "AList.update (A n) ?o d"
  have dist': "distinct (map fst ?d)" using dist by (rule distinct_update)
  have in_d: "(a, objs) \<in> set ?d \<longleftrightarrow> (if a = A n then objs = ?o else (a, objs) \<in> set d)" for a objs
  proof -
    have "(a, objs) \<in> set ?d \<longleftrightarrow> map_of ?d a = Some objs" unfolding map_of_eq_Some_iff [OF dist'] ..
    also have "\<dots> \<longleftrightarrow> (if a = A n then objs = ?o else map_of d a = Some objs)" by (auto simp: update_conv)
    finally show ?thesis unfolding map_of_eq_Some_iff [OF dist] .
  qed
  have old: "m \<in> set (case map_of d (A n) of None \<Rightarrow> [] | Some objs \<Rightarrow> objs) \<longleftrightarrow> m \<in> N \<and> A m = A n" for m
  proof (cases "map_of d (A n)")
    case None
    then have "(A n, objs) \<notin> set d" for objs using dist by (metis map_of_eq_Some_iff option.discI)
    with None assms show ?thesis by (auto simp: dict_ok_def)
  next
    case (Some objs)
    then have mem: "(A n, objs) \<in> set d" by (rule map_of_SomeD)
    have "m \<in> N \<and> A m = A n" if "m \<in> set objs" using assms mem that unfolding dict_ok_def by blast
    moreover have "m \<in> set objs" if m: "m \<in> N" "A m = A n"
    proof -
      obtain objs' where "(A m, objs') \<in> set d" "m \<in> set objs'" using assms m(1) unfolding dict_ok_def by blast
      with mem m(2) show ?thesis using eq_key_imp_eq_value [OF dist] by metis
    qed
    ultimately show ?thesis unfolding Some option.case by blast
  qed
  have "objs \<noteq> [] \<and> (\<forall>m \<in> set objs. m \<in> insert n N \<and> A m = a)" if "(a, objs) \<in> set ?d" for a objs
  proof (cases "a = A n")
    case True
    with that have "objs = ?o" using in_d by simp
    then have "set objs = insert n {m. m \<in> N \<and> A m = A n}" using old by auto
    then show ?thesis using True by auto
  next
    case False
    with that have "(a, objs) \<in> set d" using in_d by simp
    with assms show ?thesis unfolding dict_ok_def by blast
  qed
  moreover have "\<exists>objs. (A m, objs) \<in> set ?d \<and> m \<in> set objs" if "m \<in> insert n N" for m
  proof (cases "A m = A n")
    case True
    then have "m \<in> set ?o" using that old by auto
    with True in_d show ?thesis by auto
  next
    case False
    with that assms obtain objs where "(A m, objs) \<in> set d" "m \<in> set objs" unfolding dict_ok_def by blast
    with False in_d show ?thesis by auto
  qed
  ultimately show ?thesis unfolding dict_ok_def using dist' by blast
qed

lemma PrepareBinding_run:
  assumes "dict_ok A N d" "I (cg_pages s)" "HasUnivAlias n \<Longrightarrow> alias_found (cg_page c) I A n"
  shows "\<exists>d' t. PrepareBinding c n d s = (Inr d', t) \<and> pages_only s t \<and> I (cg_pages t) \<and>
    dict_ok A (if HasUnivAlias n then insert n N else N) d'"
proof (cases "HasUnivAlias n")
  case True
  with assms(2,3) obtain p where p: "NodeToUniversalAlias (cg_page c) (node_text n) (cg_pages s) = (Inr (A n), p)" "I p"
    unfolding alias_found_def by blast
  then have "on_pages (NodeToUniversalAlias (cg_page c) (node_text n)) s = (Inr (A n), s\<lparr>cg_pages := p\<rparr>)"
    by (simp add: on_pages_def)
  with True p(2) dict_ok_put [OF assms(1), of n] show ?thesis
    by (intro exI conjI) (auto simp: PrepareBinding_def pages_only_def)
next
  case False
  have "pages_only s s" unfolding pages_only_def by (intro exI [of _ "cg_pages s"]) simp
  with False assms show ?thesis by (auto simp: PrepareBinding_def)
qed

lemma pages_only_trans: "pages_only s t \<Longrightarrow> pages_only t u \<Longrightarrow> pages_only s u"
  by (auto simp: pages_only_def)

lemma binding_loop_run:
  "dict_ok A N d \<Longrightarrow> I (cg_pages s) \<Longrightarrow> \<forall>n \<in> graph_nodes grph. HasUnivAlias n \<longrightarrow> alias_found (cg_page c) I A n \<Longrightarrow>
   \<exists>d' t. binding_loop c grph d s = (Inr d', t) \<and> pages_only s t \<and> dict_ok A (N \<union> {n \<in> graph_nodes grph. HasUnivAlias n}) d'"
proof (induction grph arbitrary: N d s)
  case Nil
  have "pages_only s s" unfolding pages_only_def by (intro exI [of _ "cg_pages s"]) simp
  with Nil show ?case by (simp add: graph_nodes_def)
next
  case (Cons tr grph)
  obtain subj pred obj where tr: "tr = (subj, pred, obj)" by (cases tr)
  have nodes: "graph_nodes (tr # grph) = {subj, obj} \<union> graph_nodes grph" by (simp add: graph_nodes_def tr)
  let ?M = "\<lambda>n N. if HasUnivAlias n then insert n N else N"
  obtain d1 t1 where 1: "PrepareBinding c subj d s = (Inr d1, t1)" "pages_only s t1" "I (cg_pages t1)" "dict_ok A (?M subj N) d1"
    using PrepareBinding_run [where I = I, OF Cons.prems(1,2), where n = subj and c = c] Cons.prems(3) nodes by blast
  obtain d2 t2 where 2: "PrepareBinding c obj d1 t1 = (Inr d2, t2)" "pages_only t1 t2" "I (cg_pages t2)" "dict_ok A (?M obj (?M subj N)) d2"
    using PrepareBinding_run [where I = I, OF 1(4,3), where n = obj and c = c] Cons.prems(3) nodes by blast
  obtain d3 t3 where 3: "binding_loop c grph d2 t2 = (Inr d3, t3)" "pages_only t2 t3"
    "dict_ok A (?M obj (?M subj N) \<union> {n \<in> graph_nodes grph. HasUnivAlias n}) d3"
    using Cons.IH [OF 2(4,3)] Cons.prems(3) nodes by blast
  have "?M obj (?M subj N) \<union> {n \<in> graph_nodes grph. HasUnivAlias n} = N \<union> {n \<in> graph_nodes (tr # grph). HasUnivAlias n}"
    unfolding nodes by auto
  with 3(3) have ok: "dict_ok A (N \<union> {n \<in> graph_nodes (tr # grph). HasUnivAlias n}) d3" by simp
  have "pages_only s t3" using 1(2) 2(2) 3(2) by (blast intro: pages_only_trans)
  with ok 1(1) 2(1) 3(1) tr show ?case by auto
qed

text \<open>The links of a list of nodes join each one to the next.\<close>

definition chain_links :: "rnode list \<Rightarrow> rtriple list" where
  "chain_links ns = map (\<lambda>(n, m). (n, property_alias, m)) (zip ns (tl ns))"

lemma link_nodes_run:
  "g < length (graphs s) \<Longrightarrow> \<exists>G. link_nodes g ns s = (Inr (), s\<lparr>graphs := (graphs s)[g := G]\<rparr>) \<and>
     set G = set (graphs s ! g) \<union> set (chain_links ns)"
proof (induction ns arbitrary: s)
  case Nil
  show ?case by (intro exI [of _ "graphs s ! g"]) (simp add: chain_links_def)
next
  case (Cons n ns)
  show ?case
  proof (cases ns)
    case Nil
    then show ?thesis by (intro exI [of _ "graphs s ! g"]) (simp add: chain_links_def)
  next
    case m: (Cons m ms)
    let ?s = "s\<lparr>graphs := (graphs s)[g := add_elem (n, property_alias, m) (graphs s ! g)]\<rparr>"
    have "graph_add g (n, property_alias, m) s = (Inr (), ?s)" by (simp add: graph_add_def)
    moreover obtain G where "link_nodes g ns ?s = (Inr (), ?s\<lparr>graphs := (graphs ?s)[g := G]\<rparr>)"
      "set G = set (graphs ?s ! g) \<union> set (chain_links ns)"
      using Cons.IH [of ?s] Cons.prems by auto
    ultimately show ?thesis using Cons.prems m by (intro exI [of _ G]) (auto simp: andthen_run chain_links_def)
  qed
qed

lemma link_all_run:
  "g < length (graphs s) \<Longrightarrow> \<exists>G r. for_each nss (link_nodes g) s = (Inr r, s\<lparr>graphs := (graphs s)[g := G]\<rparr>) \<and>
     set G = set (graphs s ! g) \<union> (\<Union>ns \<in> set nss. set (chain_links ns))"
proof (induction nss arbitrary: s)
  case Nil
  show ?case by (intro exI [of _ "graphs s ! g"]) simp
next
  case (Cons ns nss)
  obtain G where G: "link_nodes g ns s = (Inr (), s\<lparr>graphs := (graphs s)[g := G]\<rparr>)" "set G = set (graphs s ! g) \<union> set (chain_links ns)"
    using link_nodes_run [OF Cons.prems] by blast
  let ?s = "s\<lparr>graphs := (graphs s)[g := G]\<rparr>"
  have "g < length (graphs ?s)" using Cons.prems by simp
  from Cons.IH [OF this] obtain H r where H: "for_each nss (link_nodes g) ?s = (Inr r, ?s\<lparr>graphs := (graphs ?s)[g := H]\<rparr>)"
    "set H = set (graphs ?s ! g) \<union> (\<Union>ns \<in> set nss. set (chain_links ns))" by blast
  have "for_each (ns # nss) (link_nodes g) s = (Inr (() # r), s\<lparr>graphs := (graphs s)[g := H]\<rparr>)"
    using G(1) H(1) by simp
  moreover have "set H = set (graphs s ! g) \<union> (\<Union>ns \<in> set (ns # nss). set (chain_links ns))"
    using H(2) G(2) Cons.prems by auto
  ultimately show ?case by blast
qed

definition linked :: "rtriple set \<Rightarrow> (rnode \<times> rnode) set" where
  "linked L = {(n, m). (n, property_alias, m) \<in> L \<or> (m, property_alias, n) \<in> L}"

lemma chain_connected: "n \<in> set ns \<Longrightarrow> m \<in> set ns \<Longrightarrow> set (chain_links ns) \<subseteq> L \<Longrightarrow> (n, m) \<in> (linked L)\<^sup>*"
proof (induction ns arbitrary: n m)
  case (Cons x ns)
  have sym: "(a, b) \<in> (linked L)\<^sup>* \<Longrightarrow> (b, a) \<in> (linked L)\<^sup>*" for a b
    by (metis (mono_tags, lifting) case_prod_conv converseI linked_def mem_Collect_eq rtrancl_converseD subrelI subset_antisym converse.cases)
  show ?case
  proof (cases ns)
    case Nil
    with Cons.prems show ?thesis by simp
  next
    case y: (Cons y ns')
    have "set (chain_links ns) \<subseteq> L" "(x, y) \<in> linked L"
      using Cons.prems(3) y by (auto simp: chain_links_def linked_def)
    then have "z \<in> set ns \<Longrightarrow> (x, z) \<in> (linked L)\<^sup>*" for z
      using Cons.IH [of y z] y by (auto intro: converse_rtrancl_into_rtrancl)
    then have "z \<in> set (x # ns) \<Longrightarrow> (x, z) \<in> (linked L)\<^sup>*" for z by auto
    with Cons.prems(1,2) sym show ?thesis by (meson rtrancl_trans)
  qed
qed simp

text \<open>
  C8. After \<^verbatim>\<open>BindIdenticalNodes\<close> two nodes of objects are connected by alias links exactly when they have
  the same universal alias, that is, when they are the same object for several agents. The triples of the
  graph stay, only alias links are added, each between two nodes with the same alias, and no other graph and
  no \<^verbatim>\<open>CgiEnv\<close> is changed. The hypothesis is that the alias of each object of the graph can be computed.
\<close>

theorem identical_nodes:
  assumes "m_graph (env_at i s) = Some g" "g < length (graphs s)" "I (cg_pages s)"
    "\<forall>n \<in> graph_nodes (graphs s ! g). HasUnivAlias n \<longrightarrow> alias_found (cg_page c) I A n"
  shows "\<exists>t G L. BindIdenticalNodes c i s = (Inr (), t) \<and> cgi_envs t = cgi_envs s \<and> graphs t = (graphs s)[g := G] \<and>
    set G = set (graphs s ! g) \<union> L \<and>
    (\<forall>(n, p, m) \<in> L. p = property_alias \<and> n \<in> graph_nodes (graphs s ! g) \<and> m \<in> graph_nodes (graphs s ! g) \<and> A n = A m) \<and>
    (\<forall>n \<in> graph_nodes (graphs s ! g). \<forall>m \<in> graph_nodes (graphs s ! g). HasUnivAlias n \<and> HasUnivAlias m \<longrightarrow>
       ((n, m) \<in> (linked L)\<^sup>* \<longleftrightarrow> A n = A m))"
proof -
  let ?N = "{n \<in> graph_nodes (graphs s ! g). HasUnivAlias n}"
  have "dict_ok A {} []" by (simp add: dict_ok_def)
  from binding_loop_run [where I = I, OF this assms(3,4)] obtain d t1 where
    d: "binding_loop c (graphs s ! g) [] s = (Inr d, t1)" "pages_only s t1" "dict_ok A ?N d" by auto
  have t1: "graphs t1 = graphs s" "cgi_envs t1 = cgi_envs s" using d(2) by (auto simp: pages_only_def)
  obtain G r where G: "for_each (map snd d) (link_nodes g) t1 = (Inr r, t1\<lparr>graphs := (graphs t1)[g := G]\<rparr>)"
    "set G = set (graphs t1 ! g) \<union> (\<Union>ns \<in> set (map snd d). set (chain_links ns))"
    using link_all_run [of g t1 "map snd d"] assms(2) t1(1) by auto
  let ?L = "\<Union>ns \<in> set (map snd d). set (chain_links ns)" and ?t = "t1\<lparr>graphs := (graphs t1)[g := G]\<rparr>"
  have run: "BindIdenticalNodes c i s = (Inr (), ?t)"
    unfolding BindIdenticalNodes_def using assms(1) d(1) G(1) by (simp add: of_opt_def)
  have edge: "p = property_alias \<and> n \<in> ?N \<and> m \<in> ?N \<and> A n = A m" if "(n, p, m) \<in> ?L" for n p m
  proof -
    from that obtain a ns where ns: "(a, ns) \<in> set d" "(n, p, m) \<in> set (chain_links ns)" by auto
    then have "n \<in> set ns" "m \<in> set ns" "p = property_alias"
      by (cases ns; auto simp: chain_links_def dest: set_zip_leftD set_zip_rightD)+
    with ns(1) d(3) show ?thesis unfolding dict_ok_def by fastforce
  qed
  have "(n, m) \<in> (linked ?L)\<^sup>* \<longleftrightarrow> A n = A m" if nm: "n \<in> ?N" "m \<in> ?N" for n m
  proof
    assume "(n, m) \<in> (linked ?L)\<^sup>*"
    then show "A n = A m"
    proof induction
      case (step y z)
      then have "(y, property_alias, z) \<in> ?L \<or> (z, property_alias, y) \<in> ?L" unfolding linked_def by blast
      then have "A y = A z"
      proof
        assume "(y, property_alias, z) \<in> ?L"
        from edge [OF this] show ?thesis by blast
      next
        assume "(z, property_alias, y) \<in> ?L"
        from edge [OF this] show ?thesis by metis
      qed
      with step.IH show ?case by simp
    qed simp
  next
    assume same: "A n = A m"
    note found = d(3) [unfolded dict_ok_def, THEN conjunct2, THEN conjunct2, rule_format]
    obtain ns ms where "(A n, ns) \<in> set d" "n \<in> set ns" "(A m, ms) \<in> set d" "m \<in> set ms"
      using found [OF nm(1)] found [OF nm(2)] by blast
    moreover have "distinct (map fst d)" using d(3) by (simp add: dict_ok_def)
    ultimately have "m \<in> set ns" using same eq_key_imp_eq_value by metis
    moreover have "set (chain_links ns) \<subseteq> ?L" using \<open>(A n, ns) \<in> set d\<close> by fastforce
    ultimately show "(n, m) \<in> (linked ?L)\<^sup>*" using \<open>n \<in> set ns\<close> by (intro chain_connected)
  qed
  note same = this
  have t: "cgi_envs ?t = cgi_envs s" "graphs ?t = (graphs s)[g := G]" "set G = set (graphs s ! g) \<union> ?L"
    using G(2) t1 by simp_all
  show ?thesis
  proof (intro exI conjI)
    show "BindIdenticalNodes c i s = (Inr (), ?t)" "cgi_envs ?t = cgi_envs s" "graphs ?t = (graphs s)[g := G]"
      "set G = set (graphs s ! g) \<union> ?L" using run t by blast+
    show "\<forall>(n, p, m) \<in> ?L. p = property_alias \<and> n \<in> graph_nodes (graphs s ! g) \<and> m \<in> graph_nodes (graphs s ! g) \<and> A n = A m"
      using edge by blast
    show "\<forall>n \<in> graph_nodes (graphs s ! g). \<forall>m \<in> graph_nodes (graphs s ! g). HasUnivAlias n \<and> HasUnivAlias m \<longrightarrow>
       ((n, m) \<in> (linked ?L)\<^sup>* \<longleftrightarrow> A n = A m)" using same by blast
  qed
qed

lemma identical_nodes_witness:
  "\<exists>s t G L. graphs s = [[(RUrl ''http://a/survol/entity.py?xid=x@y.z=1'', ''http://p/knows'', RUrl ''http://b/survol/entity.py?xid=x@y.z=1'')]] \<and>
    BindIdenticalNodes sample_cgi 0 s = (Inr (), t) \<and> graphs t = [G] \<and> set G = set (graphs s ! 0) \<union> L \<and>
    (RUrl ''http://a/survol/entity.py?xid=x@y.z=1'', RUrl ''http://b/survol/entity.py?xid=x@y.z=1'') \<in> (linked L)\<^sup>*"
proof -
  let ?u = "''http://a/survol/entity.py?xid=x@y.z=1''" and ?v = "''http://b/survol/entity.py?xid=x@y.z=1''"
  let ?p = "(page_start sample_agent)\<lparr>dictNodeToUniversalAlias := [(?u, ''x:y:1''), (?v, ''x:y:1'')]\<rparr>"
  let ?g = "[(RUrl ?u, ''http://p/knows'', RUrl ?v)]"
  let ?s = "(cgi_start sample_cgi ?p)\<lparr>cgi_envs := [(sample_env sample_cgi [])\<lparr>m_graph := Some 0\<rparr>], graphs := [?g]\<rparr>"
  let ?A = "\<lambda>n :: rnode. ''x:y:1''"
  have "NodeToUniversalAlias (cg_page sample_cgi) ?u ?p = (Inr ''x:y:1'', ?p)" "NodeToUniversalAlias (cg_page sample_cgi) ?v ?p = (Inr ''x:y:1'', ?p)"
    by (simp_all add: NodeToUniversalAlias_def)
  then have "\<forall>n \<in> graph_nodes ?g. HasUnivAlias n \<longrightarrow> alias_found (cg_page sample_cgi) ((=) ?p) ?A n"
    by (simp add: graph_nodes_def alias_found_def)
  moreover have "HasUnivAlias (RUrl ?u)" "HasUnivAlias (RUrl ?v)" by code_simp+
  moreover have "m_graph (env_at 0 ?s) = Some 0" "0 < length (graphs ?s)" "?p = cg_pages ?s" "graphs ?s ! 0 = ?g"
    by (simp_all add: env_at_def cgi_start_def)
  ultimately obtain t G L where t: "BindIdenticalNodes sample_cgi 0 ?s = (Inr (), t)" "graphs t = (graphs ?s)[0 := G]"
    "set G = set ?g \<union> L" "(RUrl ?u, RUrl ?v) \<in> (linked L)\<^sup>*"
    using identical_nodes [of 0 ?s 0 "(=) ?p" sample_cgi ?A] by (simp add: graph_nodes_def) blast
  then show ?thesis by (intro exI [of _ ?s] exI [of _ t] exI [of _ G] exI [of _ L]) simp
qed

subsection \<open>The menu of the scripts\<close>

definition scripts :: "rtriple list \<Rightarrow> rnode \<Rightarrow> rnode list" where
  "scripts grph n = map (\<lambda>(subj, pred, obj). obj) (filter (\<lambda>(subj, pred, obj). subj = n \<and> pred = property_script) grph)"

fun name_entries :: "rtriple \<Rightarrow> (rnode \<times> rlit) list" where
  "name_entries (subj, pred, obj) =
     (if pred = property_script then (if IsLiteral obj then [(obj, LVal (GText (node_text obj)))] else [])
      else if pred = property_information then (case obj of RLit v \<Rightarrow> [(subj, v)] | RUrl _ \<Rightarrow> []) else [])"

text \<open>The name of a script is the last information about it; a directory of scripts is a literal, its own name.\<close>

definition script_name :: "rtriple list \<Rightarrow> rnode \<Rightarrow> rlit" where
  "script_name grph n =
     (case map_of (rev (concat (map name_entries grph))) n of None \<Rightarrow> LVal (GText ''No name'') | Some v \<Rightarrow> v)"

text \<open>The scripts that are under no other one, in the order of the graph.\<close>

definition top_scripts :: "rtriple list \<Rightarrow> rnode list" where
  "top_scripts grph = filter (\<lambda>n. \<forall>(subj, pred, obj) \<in> set grph. pred = property_script \<longrightarrow> obj \<noteq> n)
     (foldl (\<lambda>ns (subj, pred, obj). if pred = property_script then add_elem subj ns else ns) [] grph)"

inductive menu_of :: "rtriple list \<Rightarrow> rnode \<Rightarrow> menu_item \<Rightarrow> bool" for grph where
  leaf: "scripts grph n = [] \<Longrightarrow> menu_of grph n (MenuItem (script_name grph n) n None)"
| directory: "scripts grph n \<noteq> [] \<Longrightarrow> list_all2 (\<lambda>m kid. fst kid = m \<and> menu_of grph m (snd kid)) (scripts grph n) kids \<Longrightarrow>
    menu_of grph n (MenuItem (script_name grph n) n (Some kids))"

definition menu_inv :: "rtriple list \<Rightarrow> menu_graph \<Rightarrow> bool" where
  "menu_inv past g \<longleftrightarrow>
     (\<forall>n. map_of (NodesToItems g) n = (if scripts past n = [] then None else Some (scripts past n))) \<and>
     set (NodesWithParent g) = {obj. \<exists>subj. (subj, property_script, obj) \<in> set past} \<and>
     SubjectNodes g = foldl (\<lambda>ns (subj, pred, obj). if pred = property_script then add_elem subj ns else ns) [] past \<and>
     map_of (NodesToNames g) = map_of (rev (concat (map name_entries past)))"

lemma script_not_information: "property_script \<noteq> property_information"
  by code_simp

lemma menu_step_run:
  assumes "menu_inv past g" "case t of (subj, pred, obj) \<Rightarrow> pred = property_information \<longrightarrow> IsLiteral obj"
  shows "\<exists>g'. menu_step t g = Inr g' \<and> menu_inv (past @ [t]) g'"
proof -
  obtain subj pred obj where t: "t = (subj, pred, obj)" by (cases t)
  have items: "map_of (NodesToItems g) n = (if scripts past n = [] then None else Some (scripts past n))" for n
    using assms(1) by (simp add: menu_inv_def)
  consider "pred = property_script" | "pred = property_information" | "pred \<noteq> property_script" "pred \<noteq> property_information" by blast
  then show ?thesis
  proof cases
    case 1
    have snoc: "scripts (past @ [t]) n = (if n = subj then scripts past n @ [obj] else scripts past n)" for n
      using 1 t by (simp add: scripts_def)
    let ?g = "g\<lparr>NodesToItems := AList.update subj (scripts past subj @ [obj]) (NodesToItems g),
      NodesToNames := (if IsLiteral obj then AList.update obj (LVal (GText (node_text obj))) (NodesToNames g) else NodesToNames g),
      NodesWithParent := add_elem obj (NodesWithParent g), SubjectNodes := add_elem subj (SubjectNodes g)\<rparr>"
    have "menu_step t g = Inr ?g" using 1 items [of subj] t by (simp add: menu_step_def)
    moreover have "menu_inv (past @ [t]) ?g"
      using assms(1) 1 t unfolding menu_inv_def snoc by (auto simp: update_conv fun_eq_iff)
    ultimately show ?thesis by blast
  next
    case 2
    then obtain v where v: "obj = RLit v" using assms(2) t by (cases obj) auto
    have "scripts (past @ [t]) n = scripts past n" for n using 2 t script_not_information by (auto simp: scripts_def)
    moreover have "menu_step t g = Inr (g\<lparr>NodesToNames := AList.update subj v (NodesToNames g)\<rparr>)"
      using 2 t v script_not_information by (simp add: menu_step_def)
    moreover have "menu_inv (past @ [t]) (g\<lparr>NodesToNames := AList.update subj v (NodesToNames g)\<rparr>)"
      using assms(1) 2 t v script_not_information \<open>\<And>n. scripts (past @ [t]) n = scripts past n\<close>
      unfolding menu_inv_def by (auto simp: update_conv fun_eq_iff)
    ultimately show ?thesis by blast
  next
    case 3
    have "scripts (past @ [t]) n = scripts past n" for n using 3 t by (auto simp: scripts_def)
    moreover have "menu_step t g = Inr g" using 3 t by (simp add: menu_step_def)
    moreover have "menu_inv (past @ [t]) g"
      using assms(1) 3 t \<open>\<And>n. scripts (past @ [t]) n = scripts past n\<close> unfolding menu_inv_def by auto
    ultimately show ?thesis by blast
  qed
qed

lemma menu_loop_run:
  "menu_inv past g \<Longrightarrow> \<forall>(subj, pred, obj) \<in> set grph. pred = property_information \<longrightarrow> IsLiteral obj \<Longrightarrow>
   \<exists>g'. menu_loop grph g = Inr g' \<and> menu_inv (past @ grph) g'"
proof (induction grph arbitrary: past g)
  case (Cons t grph)
  obtain g1 where g1: "menu_step t g = Inr g1" "menu_inv (past @ [t]) g1"
    using menu_step_run [OF Cons.prems(1), of t] Cons.prems(2) by auto
  from Cons.IH [OF g1(2)] Cons.prems(2) g1(1) show ?case by simp
qed simp

lemma for_each_pure:
  "\<forall>x \<in> set xs. \<exists>y. f x s = (Inr y, s) \<and> P x y \<Longrightarrow> \<exists>ys. for_each xs f s = (Inr ys, s) \<and> list_all2 P xs ys"
proof (induction xs)
  case (Cons x xs)
  then obtain y ys where "f x s = (Inr y, s)" "P x y" "for_each xs f s = (Inr ys, s)" "list_all2 P xs ys" by auto
  then show ?case by (intro exI [of _ "y # ys"]) simp
qed simp

lemma collect_distinct: "distinct (map fst (d @ kvs)) \<Longrightarrow> foldl (\<lambda>d (k, v). AList.update k v d) d kvs = d @ kvs"
proof (induction kvs arbitrary: d)
  case (Cons kv kvs)
  have "k \<notin> fst ` set d \<Longrightarrow> AList.update k v d = d @ [(k, v)]" for k v by (induction d) auto
  with Cons.IH [of "d @ [kv]"] Cons.prems show ?case by (cases kv) auto
qed simp

lemma scripts_distinct: "distinct grph \<Longrightarrow> distinct (scripts grph n)"
  by (auto simp: scripts_def distinct_map inj_on_def)

lemma AddStuff_run:
  assumes "menu_inv grph g" "distinct grph" "\<forall>(subj, pred, obj) \<in> set grph. pred = property_script \<longrightarrow> h obj < h subj"
  shows "\<forall>n \<in> set ns. h n < k \<Longrightarrow> distinct ns \<Longrightarrow> ns \<noteq> [] \<Longrightarrow>
    \<exists>kids. AddStuff k g ns s = (Inr kids, s) \<and> list_all2 (\<lambda>m kid. fst kid = m \<and> menu_of grph m (snd kid)) ns kids"
proof (induction k arbitrary: ns)
  case 0
  then obtain n where "n \<in> set ns" by (cases ns) auto
  with 0 show ?case by blast
next
  case (Suc k)
  let ?P = "\<lambda>m kid. fst kid = m \<and> menu_of grph m (snd kid)"
  let ?f = "\<lambda>oneRdfNod. let name = (case map_of (NodesToNames g) oneRdfNod of None \<Rightarrow> LVal (GText ''No name'') | Some v \<Rightarrow> v)
       in case map_of (NodesToItems g) oneRdfNod of
            None \<Rightarrow> ret (oneRdfNod, MenuItem name oneRdfNod None)
          | Some lstItem \<Rightarrow>
              bnd (AddStuff k g lstItem) (\<lambda>items. ret (oneRdfNod, MenuItem name oneRdfNod (Some items)))"
  have name: "(case map_of (NodesToNames g) n of None \<Rightarrow> LVal (GText ''No name'') | Some v \<Rightarrow> v) = script_name grph n" for n
    using assms(1) by (simp add: menu_inv_def script_name_def)
  have items: "map_of (NodesToItems g) n = (if scripts grph n = [] then None else Some (scripts grph n))" for n
    using assms(1) by (simp add: menu_inv_def)
  have "\<exists>kid. ?f n s = (Inr kid, s) \<and> ?P n kid" if n: "n \<in> set ns" for n
  proof (cases "scripts grph n = []")
    case True
    then show ?thesis unfolding Let_def name items by (auto intro: menu_of.leaf)
  next
    case False
    have "\<forall>m \<in> set (scripts grph n). h m < h n" using assms(3) by (fastforce simp: scripts_def)
    with n Suc.prems(1) have "\<forall>m \<in> set (scripts grph n). h m < k" by fastforce
    from Suc.IH [OF this scripts_distinct [OF assms(2)] False] obtain kids where
      "AddStuff k g (scripts grph n) s = (Inr kids, s)" "list_all2 ?P (scripts grph n) kids" by blast
    with False show ?thesis unfolding Let_def name items by (auto intro: menu_of.directory)
  qed
  then obtain kids where kids: "for_each ns ?f s = (Inr kids, s)" "list_all2 ?P ns kids"
    using for_each_pure [of ns ?f s ?P] by blast
  have "map fst kids = ns" using kids(2) by (induction rule: list_all2_induct) auto
  then have "foldl (\<lambda>d (k, v). AList.update k v d) [] kids = kids" using collect_distinct [of "[]" kids] Suc.prems(2) by simp
  with kids show ?case by (intro exI [of _ kids]) simp
qed

lemma tops_fold:
  "set (foldl (\<lambda>ns (subj, pred, obj). if pred = property_script then add_elem subj ns else ns) ns grph) =
     set ns \<union> {subj. \<exists>obj. (subj, property_script, obj) \<in> set grph}"
proof (induction grph arbitrary: ns)
  case (Cons t grph)
  obtain subj pred obj where t: "t = (subj, pred, obj)" by (cases t)
  show ?case unfolding t foldl_Cons prod.case Cons.IH by (cases "pred = property_script") auto
qed simp

lemma tops_distinct:
  "distinct ns \<Longrightarrow> distinct (foldl (\<lambda>ns (subj, pred, obj). if pred = property_script then add_elem subj ns else ns) ns grph)"
  by (induction grph arbitrary: ns) (auto simp: distinct_add_elem)


inductive_cases menu_of_directory: "menu_of grph n (MenuItem name url (Some kids))"

lemma menu_of_kids: "menu_of grph n (MenuItem name url (Some kids)) \<Longrightarrow> map fst kids = scripts grph n"
proof (erule menu_of_directory)
  assume "list_all2 (\<lambda>m kid. fst kid = m \<and> menu_of grph m (snd kid)) (scripts grph n) kids"
  then show ?thesis by (induction rule: list_all2_induct) auto
qed


text \<open>Only one of several scripts that are under no other one is kept; which one depends on the order of a Python set.\<close>

lemma one_menu_kept:
  "Grph2Menu id 10 [(RUrl ''a'', property_script, RUrl ''ps.py''), (RUrl ''b'', property_script, RUrl ''top.py'')] () =
     (Inr [(RUrl ''ps.py'', MenuItem (LVal (GText ''No name'')) (RUrl ''ps.py'') None)], ())"
  "Grph2Menu (sort_key (\<lambda>n. n \<noteq> RUrl ''b'')) 10 [(RUrl ''a'', property_script, RUrl ''ps.py''), (RUrl ''b'', property_script, RUrl ''top.py'')] () =
     (Inr [(RUrl ''top.py'', MenuItem (LVal (GText ''No name'')) (RUrl ''top.py'') None)], ())"
  by code_simp+

subsection \<open>The merge of several pages\<close>

definition in_merge :: "nat \<Rightarrow> cgi_state \<Rightarrow> bool" where
  "in_merge g s \<longleftrightarrow> globalMergeMode s \<and> globalGraph s = Some g \<and> g < length (graphs s)"

definition added :: "nat \<Rightarrow> cgi_state \<Rightarrow> cgi_state \<Rightarrow> rtriple list \<Rightarrow> nat list \<Rightarrow> bool" where
  "added g s t ts envs \<longleftrightarrow> in_merge g t \<and> graphs t ! g = foldl (\<lambda>G tr. add_elem tr G) (graphs s ! g) ts \<and>
     globalCgiEnvList t = globalCgiEnvList s @ envs"

text \<open>The variables of the environment, as a function, and a configuration with another environment.\<close>

definition with_environ :: "(string \<times> string) list \<Rightarrow> cgi_conf \<Rightarrow> cgi_conf" where
  "with_environ env c = c\<lparr>cg_page := (cg_page c)\<lparr>pg_conf := (pg_conf (cg_page c))\<lparr>environ := env\<rparr>\<rparr>\<rparr>"

abbreviation getenv :: "cgi_conf \<Rightarrow> string \<Rightarrow> string option" where
  "getenv c \<equiv> map_of (environ (cg_agent_conf c))"

text \<open>The variables that the script of a URL sees: those of the merge, and the three that describe its request.\<close>

definition url_environ :: "string \<Rightarrow> (string \<Rightarrow> string option) \<Rightarrow> string \<Rightarrow> string option" where
  "url_environ url env =
     (let complete_url = Base64Decode url; urlNoArgs = fst (split_query complete_url)
      in env(''REQUEST_URI'' \<mapsto> urllib_unquote complete_url, ''SCRIPT_NAME'' \<mapsto> basename (script_path urlNoArgs),
             ''QUERY_STRING'' \<mapsto> snd (split_query complete_url)))"

text \<open>
  What the merge relies on: the main function of a script, given the variables of the environment (the rest of
  the configuration \<open>c0\<close> stays the same), adds the triples \<open>tr\<close> of these variables to the shared graph, also
  when it raises an exception later, does not leave the process once the messages of errors are disabled, and
  registers one page when it ends normally, which is when \<open>ok\<close> holds for these variables.
\<close>

definition script_adds :: "nat \<Rightarrow> cgi_conf \<Rightarrow> (cgi_conf \<Rightarrow> (cgi_state, unit) py) \<Rightarrow>
    ((string \<Rightarrow> string option) \<Rightarrow> rtriple list) \<Rightarrow> ((string \<Rightarrow> string option) \<Rightarrow> bool) \<Rightarrow> bool" where
  "script_adds g c0 main tr ok \<longleftrightarrow> (\<forall>env s. in_merge g s \<and> \<not> globalErrorMessageEnabled s \<longrightarrow>
     (\<exists>r t envs. main (with_environ env c0) s = (r, t) \<and> r \<noteq> Inl SystemExit \<and> added g s t (tr (map_of env)) envs \<and>
        (if ok (map_of env) then r = Inr () \<and> length envs = 1 else isl r \<and> envs = [])))"

text \<open>A URL whose script can be merged, or cannot be imported; then what it adds, and whether it says nothing.\<close>

definition url_ok :: "merge_conf \<Rightarrow> nat \<Rightarrow> cgi_conf \<Rightarrow> (string \<Rightarrow> (string \<Rightarrow> string option) \<Rightarrow> rtriple list) \<Rightarrow>
    (string \<Rightarrow> (string \<Rightarrow> string option) \<Rightarrow> bool) \<Rightarrow> string \<Rightarrow> bool" where
  "url_ok mc g c0 tr ok url \<longleftrightarrow>
     (case script_of mc (Base64Decode url) of
        Inl e \<Rightarrow> e \<noteq> SystemExit
      | Inr None \<Rightarrow> True
      | Inr (Some main) \<Rightarrow> script_adds g c0 main (tr url) (ok url))"

definition url_triples :: "merge_conf \<Rightarrow> (string \<Rightarrow> string option) \<Rightarrow>
    (string \<Rightarrow> (string \<Rightarrow> string option) \<Rightarrow> rtriple list) \<Rightarrow> string \<Rightarrow> rtriple list" where
  "url_triples mc env tr url =
     (case script_of mc (Base64Decode url) of Inr (Some _) \<Rightarrow> tr url (url_environ url env) | _ \<Rightarrow> [])"

definition url_page :: "merge_conf \<Rightarrow> (string \<Rightarrow> string option) \<Rightarrow>
    (string \<Rightarrow> (string \<Rightarrow> string option) \<Rightarrow> bool) \<Rightarrow> string \<Rightarrow> bool" where
  "url_page mc env ok url =
     (case script_of mc (Base64Decode url) of Inr (Some _) \<Rightarrow> ok url (url_environ url env) | _ \<Rightarrow> False)"

definition url_silent :: "merge_conf \<Rightarrow> (string \<Rightarrow> string option) \<Rightarrow>
    (string \<Rightarrow> (string \<Rightarrow> string option) \<Rightarrow> bool) \<Rightarrow> string \<Rightarrow> bool" where
  "url_silent mc env ok url =
     (case script_of mc (Base64Decode url) of Inl _ \<Rightarrow> True | Inr None \<Rightarrow> False
      | Inr (Some _) \<Rightarrow> ok url (url_environ url env))"

text \<open>The environment while the loop runs: only the variables of the request have changed.\<close>

definition merge_env_ok :: "cgi_conf \<Rightarrow> cgi_conf \<Rightarrow> bool" where
  "merge_env_ok c0 c \<longleftrightarrow> c = with_environ (environ (cg_agent_conf c)) c0 \<and>
     (\<forall>k. k \<notin> {''REQUEST_URI'', ''SCRIPT_NAME'', ''QUERY_STRING''} \<longrightarrow> getenv c k = getenv c0 k)"

lemma merge_env_refl: "merge_env_ok c c"
  by (simp add: merge_env_ok_def with_environ_def)

lemma with_environ_simps [simp]: "with_environ e (with_environ e' c) = with_environ e c"
  "environ (cg_agent_conf (with_environ e c)) = e"
  by (simp_all add: with_environ_def)

lemma inject_url_with:
  "\<exists>e. inject_url (Base64Decode url) c = with_environ e c \<and> map_of e = url_environ url (getenv c)"
proof -
  obtain u q where sq: "split_query (Base64Decode url) = (u, q)" by (cases "split_query (Base64Decode url)")
  let ?e = "AList.update ''QUERY_STRING'' q (AList.update ''SCRIPT_NAME'' (basename (script_path u))
    (AList.update ''REQUEST_URI'' (urllib_unquote (Base64Decode url)) (environ (cg_agent_conf c))))"
  have "inject_url (Base64Decode url) c = with_environ ?e c"
    by (simp add: inject_url_def sq set_environ_def with_environ_def)
  moreover have "map_of ?e = url_environ url (getenv c)"
    by (simp add: url_environ_def sq Let_def update_conv del: fun_upd_apply)
  ultimately show ?thesis by blast
qed

lemma inject_url_environ:
  assumes "merge_env_ok c0 c"
  shows "merge_env_ok c0 (inject_url (Base64Decode url) c)"
    "getenv (inject_url (Base64Decode url) c) = url_environ url (getenv c0)"
proof -
  obtain e where e: "inject_url (Base64Decode url) c = with_environ e c" "map_of e = url_environ url (getenv c)"
    using inject_url_with by blast
  obtain x where c: "c = with_environ x c0" using assms unfolding merge_env_ok_def by blast
  have same: "k \<notin> {''REQUEST_URI'', ''SCRIPT_NAME'', ''QUERY_STRING''} \<Longrightarrow> getenv c k = getenv c0 k" for k
    using assms unfolding merge_env_ok_def by blast
  have env: "map_of e = url_environ url (getenv c0)"
    unfolding e(2) url_environ_def Let_def using same by (auto simp: fun_eq_iff)
  have "with_environ e c = with_environ e c0" by (subst c) simp
  with e(1) have w: "inject_url (Base64Decode url) c = with_environ e c0" by (rule trans)
  show "getenv (inject_url (Base64Decode url) c) = url_environ url (getenv c0)" unfolding w by (simp add: env)
  show "merge_env_ok c0 (inject_url (Base64Decode url) c)"
    unfolding w merge_env_ok_def by (simp add: env) (simp add: url_environ_def Let_def)
qed

lemma added_trans:
  "added g s t ts is \<Longrightarrow> added g t u ts' js \<Longrightarrow> added g s u (ts @ ts') (is @ js)"
  by (simp add: added_def)

lemma added_none: "in_merge g s \<Longrightarrow> added g s s [] []"
  by (simp add: added_def)

text \<open>One round of the loop with a script that was imported.\<close>

lemma merge_script_run:
  assumes "in_merge g s" "merge_env_ok c0 c" "script_of mc (Base64Decode url) = Inr (Some main)"
    "script_adds g c0 main tr ok"
  shows "\<exists>t envs e'. merge_loop mc (url # urls) c e s =
      merge_loop mc urls (inject_url (Base64Decode url) c) (if ok (url_environ url (getenv c0)) then e else e') t \<and>
    added g s t (tr (url_environ url (getenv c0))) envs \<and>
    length envs = (if ok (url_environ url (getenv c0)) then 1 else 0) \<and> e' \<noteq> []"
proof -
  let ?s = "s\<lparr>globalErrorMessageEnabled := False\<rparr>" and ?c = "inject_url (Base64Decode url) c"
  let ?env = "url_environ url (getenv c0)"
  note env = inject_url_environ [OF assms(2), of url]
  have c: "with_environ (environ (cg_agent_conf ?c)) c0 = ?c" using env(1) by (simp add: merge_env_ok_def)
  have "in_merge g ?s \<and> \<not> globalErrorMessageEnabled ?s" using assms(1) by (simp add: in_merge_def)
  note runs = assms(4) [unfolded script_adds_def, rule_format, OF this, of "environ (cg_agent_conf ?c)", unfolded c env(2)]
  obtain r t envs where r: "main ?c ?s = (r, t)" "r \<noteq> Inl SystemExit" "added g ?s t (tr ?env) envs"
    "if ok ?env then r = Inr () \<and> length envs = 1 else isl r \<and> envs = []"
    using runs by (elim exE conjE)
  have st: "added g s t (tr ?env) envs" using r(3) by (simp add: added_def)
  show ?thesis
  proof (cases "ok ?env")
    case True
    let ?t = "t\<lparr>globalErrorMessageEnabled := True\<rparr>"
    have "merge_loop mc (url # urls) c e s = merge_loop mc urls ?c e ?t"
      using assms(3) r(1,4) True by (simp add: Let_def andthen_run try_except_def ErrorMessageEnable_def)
    moreover have "added g s ?t (tr ?env) envs" using st by (simp add: added_def in_merge_def)
    ultimately show ?thesis using True r(4) by (intro exI [of _ ?t] exI [of _ envs] exI [of _ "''x''"]) simp
  next
    case False
    then obtain x where x: "r = Inl x" "x \<noteq> SystemExit" "envs = []" using r(2,4) by (cases r) auto
    let ?e = "(if e \<noteq> [] then e @ '' ; '' else e) @ '' url='' @ fst (split_query (Base64Decode url)) @ '' / '' @
      basename (script_path (fst (split_query (Base64Decode url)))) @ '':'' @ exc_text mc x"
    have "merge_loop mc (url # urls) c e s = merge_loop mc urls ?c ?e t"
      using assms(3) r(1) x by (simp add: Let_def andthen_run try_except_def ErrorMessageEnable_def)
    with st x(3) False show ?thesis by (intro exI [of _ t] exI [of _ envs] exI [of _ ?e]) simp
  qed
qed

lemma merge_loop_run:
  "in_merge g s \<Longrightarrow> merge_env_ok c0 c \<Longrightarrow> \<forall>url \<in> set urls. url_ok mc g c0 tr ok url \<Longrightarrow>
   \<exists>c' err t envs. merge_loop mc urls c e s = (Inr (c', err), t) \<and>
     added g s t (concat (map (url_triples mc (getenv c0) tr) urls)) envs \<and>
     length envs = length (filter (url_page mc (getenv c0) ok) urls) \<and>
     (err = [] \<longleftrightarrow> e = [] \<and> (\<forall>url \<in> set urls. url_silent mc (getenv c0) ok url))"
proof (induction urls arbitrary: c e s)
  case Nil
  then show ?case by (simp add: added_def)
next
  case (Cons url urls)
  let ?env = "getenv c0"
  have ok: "url_ok mc g c0 tr ok url" "\<forall>url \<in> set urls. url_ok mc g c0 tr ok url" using Cons.prems(3) by simp_all
  obtain t1 c1 e1 envs1 where 1: "merge_loop mc (url # urls) c e s = merge_loop mc urls c1 e1 t1" "merge_env_ok c0 c1"
    "added g s t1 (url_triples mc ?env tr url) envs1" "length envs1 = (if url_page mc ?env ok url then 1 else 0)"
    "e1 = [] \<longleftrightarrow> e = [] \<and> url_silent mc ?env ok url"
  proof (cases "script_of mc (Base64Decode url)")
    case (Inl x)
    with ok(1) Cons.prems(2) added_none [OF Cons.prems(1)] show ?thesis
      by (intro that [of c e s "[]"]) (simp_all add: url_ok_def url_triples_def url_page_def url_silent_def Let_def)
  next
    case (Inr m)
    show ?thesis
    proof (cases m)
      case None
      with Inr Cons.prems(2) added_none [OF Cons.prems(1)] show ?thesis
        by (intro that [of c "''merge_scripts.py Cannot import complete_url='' @ Base64Decode url" s "[]"])
          (simp_all add: url_triples_def url_page_def url_silent_def Let_def)
    next
      case (Some main)
      then have sc: "script_of mc (Base64Decode url) = Inr (Some main)" using Inr by simp
      with ok(1) have "script_adds g c0 main (tr url) (ok url)" by (simp add: url_ok_def)
      from merge_script_run [OF Cons.prems(1,2) sc this, of urls e] obtain t envs e' where
        "merge_loop mc (url # urls) c e s =
          merge_loop mc urls (inject_url (Base64Decode url) c) (if ok url (url_environ url ?env) then e else e') t"
        "added g s t (tr url (url_environ url ?env)) envs"
        "length envs = (if ok url (url_environ url ?env) then 1 else 0)" "e' \<noteq> []" by blast
      with sc inject_url_environ(1) [OF Cons.prems(2), of url] show ?thesis
        by (intro that [of "inject_url (Base64Decode url) c" "if ok url (url_environ url ?env) then e else e'" t envs])
          (simp_all add: url_triples_def url_page_def url_silent_def del: merge_loop.simps)
    qed
  qed
  have "in_merge g t1" using 1(3) by (simp add: added_def)
  from Cons.IH [OF this 1(2) ok(2), of e1] obtain c' err t envs where t:
    "merge_loop mc urls c1 e1 t1 = (Inr (c', err), t)"
    "added g t1 t (concat (map (url_triples mc ?env tr) urls)) envs"
    "length envs = length (filter (url_page mc ?env ok) urls)"
    "err = [] \<longleftrightarrow> e1 = [] \<and> (\<forall>url \<in> set urls. url_silent mc ?env ok url)" by blast
  have "added g s t (concat (map (url_triples mc ?env tr) (url # urls))) (envs1 @ envs)"
    using added_trans [OF 1(3) t(2)] by simp
  with 1 t show ?case
    by (intro exI [of _ c'] exI [of _ err] exI [of _ t] exI [of _ "envs1 @ envs"]) (auto simp del: merge_loop.simps)
qed

text \<open>
  C15. The merge of several pages is the sum of their graphs, whatever the scripts that fail. From a new shared
  graph, the loop over the URLs returns when each script that can be imported keeps to the contract
  \<open>script_adds\<close> and no import leaves the process. The shared graph then holds the triples that each imported
  script adds for the environment of its own request (\<^verbatim>\<open>REQUEST_URI\<close>, \<^verbatim>\<open>SCRIPT_NAME\<close> and \<^verbatim>\<open>QUERY_STRING\<close> of its
  URL, whatever the URLs before it), in the order of the URLs and each once; one page is registered for each
  script that succeeded; and the message of errors is empty exactly when each script was imported and
  succeeded, or its import raised an exception, which leaves no message.
\<close>

theorem merge_sums_graphs:
  assumes "\<forall>url \<in> set urls. url_ok mc (length (graphs s)) c tr ok url"
  shows "\<exists>c' err t. andthen CgiEnvMergeMode (merge_loop mc urls c []) s = (Inr (c', err), t) \<and>
    graphs t ! length (graphs s) = foldl (\<lambda>G tr. add_elem tr G) [] (concat (map (url_triples mc (getenv c) tr) urls)) \<and>
    globalGraph t = Some (length (graphs s)) \<and>
    length (globalCgiEnvList t) = length (filter (url_page mc (getenv c) ok) urls) \<and>
    (err = [] \<longleftrightarrow> (\<forall>url \<in> set urls. url_silent mc (getenv c) ok url))"
proof -
  let ?g = "length (graphs s)"
  let ?s = "s\<lparr>graphs := graphs s @ [[]], globalMergeMode := True, globalCgiEnvList := [], globalGraph := Some ?g\<rparr>"
  have start: "CgiEnvMergeMode s = (Inr (), ?s)" by (simp add: CgiEnvMergeMode_def new_graph_def)
  have "in_merge ?g ?s" by (simp add: in_merge_def)
  from merge_loop_run [OF this merge_env_refl assms, of "[]"] obtain c' err t envs where
    t: "merge_loop mc urls c [] ?s = (Inr (c', err), t)"
    "added ?g ?s t (concat (map (url_triples mc (getenv c) tr) urls)) envs"
    "length envs = length (filter (url_page mc (getenv c) ok) urls)"
    "err = [] \<longleftrightarrow> (\<forall>url \<in> set urls. url_silent mc (getenv c) ok url)"
    by blast
  from start t show ?thesis
    by (intro exI [of _ c'] exI [of _ err] exI [of _ t]) (simp add: andthen_run added_def in_merge_def)
qed

text \<open>
  A script that adds a triple with its arguments, and registers a page, or fails when it has none.
\<close>

definition env_text :: "(string \<Rightarrow> string option) \<Rightarrow> string \<Rightarrow> string" where
  "env_text env k = (case env k of None \<Rightarrow> [] | Some v \<Rightarrow> v)"

definition query_triple :: "(string \<Rightarrow> string option) \<Rightarrow> rtriple" where
  "query_triple env = (RUrl (env_text env ''SCRIPT_NAME''), ''p'', RUrl (env_text env ''QUERY_STRING''))"

definition has_query :: "(string \<Rightarrow> string option) \<Rightarrow> bool" where
  "has_query env \<longleftrightarrow> env_text env ''QUERY_STRING'' \<noteq> []"

definition sample_script :: "cgi_conf \<Rightarrow> (cgi_state, unit) py" where
  "sample_script c =
     bnd (new_env (sample_env c [])) (\<lambda>i.
     bnd (GetGraph i) (\<lambda>g.
     andthen (case g of None \<Rightarrow> raise AttributeError | Some g \<Rightarrow> graph_add g (query_triple (getenv c)))
       (if has_query (getenv c) then modify (\<lambda>s. s\<lparr>globalCgiEnvList := globalCgiEnvList s @ [i]\<rparr>)
        else ErrorMessageHtml c ''failed'')))"

lemma sample_script_adds: "script_adds g c0 sample_script (\<lambda>env. [query_triple env]) has_query"
  unfolding script_adds_def
proof (intro allI impI)
  fix env s
  assume s: "in_merge g s \<and> \<not> globalErrorMessageEnabled s"
  have "getenv (with_environ env c0) = map_of env" by (simp add: with_environ_def)
  with s show "\<exists>r t envs. sample_script (with_environ env c0) s = (r, t) \<and> r \<noteq> Inl SystemExit \<and>
      added g s t [query_triple (map_of env)] envs \<and>
      (if has_query (map_of env) then r = Inr () \<and> length envs = 1 else isl r \<and> envs = [])"
    by (cases "has_query (map_of env)") (auto simp: sample_script_def new_env_def GetGraph_def graph_add_def upd_env_def
      andthen_run bnd_run in_merge_def added_def ErrorMessageHtml_def)
qed

definition sample_merge :: merge_conf where
  "sample_merge = \<lparr>import_script = (\<lambda>pkg nam. Inr sample_script), exc_text = (\<lambda>e. ''failed'')\<rparr>"

lemma Base64_id: "Base64Decode (Base64Encode x) = x"
  using encoded [of x] decode_encode by (simp add: Base64Decode_def Base64Encode_def)

definition url_a :: string where "url_a = ''/survol/sources_types/a.py?xid=1''"
definition url_b :: string where "url_b = ''/survol/sources_types/b.py''"

lemma sample_urls:
  "split_query url_a = (''/survol/sources_types/a.py'', ''xid=1'')" "split_query url_b = (''/survol/sources_types/b.py'', [])"
  "basename (script_path ''/survol/sources_types/a.py'') = ''a.py''" "basename (script_path ''/survol/sources_types/b.py'') = ''b.py''"
  by code_simp+

lemma sample_imports: "script_of sample_merge url_a = Inr (Some sample_script)" "script_of sample_merge url_b = Inr (Some sample_script)"
proof -
  have "py_from ''a.py'' (-3) = ''.py''" "py_from ''b.py'' (-3) = ''.py''" by code_simp+
  then show "script_of sample_merge url_a = Inr (Some sample_script)" "script_of sample_merge url_b = Inr (Some sample_script)"
    by (simp_all add: script_of_def GetScriptModule_def Let_def sample_urls sample_merge_def)
qed

lemma merge_sums_graphs_witness:
  "\<exists>c' err t. andthen CgiEnvMergeMode (merge_loop sample_merge [Base64Encode url_a, Base64Encode url_b] sample_cgi [])
      (cgi_start sample_cgi (page_start sample_agent)) = (Inr (c', err), t) \<and>
    graphs t ! 0 = [(RUrl ''a.py'', ''p'', RUrl ''xid=1''), (RUrl ''b.py'', ''p'', RUrl [])] \<and> err \<noteq> []"
proof -
  let ?s = "cgi_start sample_cgi (page_start sample_agent)" and ?env = "getenv sample_cgi"
  let ?tr = "\<lambda>url env. [query_triple env]" and ?ok = "\<lambda>url. has_query"
  let ?urls = "[Base64Encode url_a, Base64Encode url_b]"
  have "\<forall>url \<in> set ?urls. url_ok sample_merge (length (graphs ?s)) sample_cgi ?tr ?ok url"
    by (simp add: url_ok_def Base64_id sample_imports sample_script_adds)
  from merge_sums_graphs [OF this] obtain c' err t where
    t: "andthen CgiEnvMergeMode (merge_loop sample_merge ?urls sample_cgi []) ?s = (Inr (c', err), t)"
      "graphs t ! length (graphs ?s) =
        foldl (\<lambda>G tr. add_elem tr G) [] (concat (map (url_triples sample_merge ?env ?tr) ?urls))"
      "err = [] \<longleftrightarrow> (\<forall>url \<in> set ?urls. url_silent sample_merge ?env ?ok url)" by (elim exE conjE) (rule that)
  have "url_triples sample_merge ?env ?tr (Base64Encode url_a) = [(RUrl ''a.py'', ''p'', RUrl ''xid=1'')]"
    "url_triples sample_merge ?env ?tr (Base64Encode url_b) = [(RUrl ''b.py'', ''p'', RUrl [])]"
    "\<not> url_silent sample_merge ?env ?ok (Base64Encode url_b)"
    by (simp_all add: url_triples_def url_silent_def Base64_id sample_imports url_environ_def Let_def sample_urls
        query_triple_def env_text_def has_query_def)
  then have "graphs t ! 0 = [(RUrl ''a.py'', ''p'', RUrl ''xid=1''), (RUrl ''b.py'', ''p'', RUrl [])]" "err \<noteq> []"
    using t(2,3) by (simp_all add: cgi_start_def add_elem_def del: merge_loop.simps)
  with t(1) show ?thesis by blast
qed

end
