(* ===== verification/Dot.thy ===== *)
theory Dot
  imports Pages
begin

text \<open>
  The graph of a page as text for Graphviz, \<^verbatim>\<open>Rdf2Dot\<close> of \<^verbatim>\<open>survol/lib_export_dot.py\<close> with \<^verbatim>\<open>ToPlural\<close> of
  \<^verbatim>\<open>survol/lib_grammar.py\<close>, and the whole text that \<^verbatim>\<open>Grph2Svg\<close> gives to Graphviz. What is written is a
  list of edges and nodes, each with its text. A node keeps its name and its lines beside its text, an edge the
  names of its ends.

  \<open>dot_conf\<close> holds what is asked of other code: the order of the triples and of the fields of a node, which is
  the one of the nodes of rdflib, \<^verbatim>\<open>compute_qname\<close> of the graph (the local name, \<open>None\<close> for an exception),
  \<^verbatim>\<open>json.loads\<close> (\<open>None\<close> for its ValueError) and the value of a literal that is no text and no integer.
\<close>

subsection \<open>Values and numbers\<close>

text \<open>\<open>PNum\<close> is a number or a truth value, by its text; \<open>POther\<close> an object of another type, by its text.\<close>

datatype pval =
    PNone
  | PNum string
  | PText string
  | PLink string
  | PDict "(string \<times> pval) list"
  | PList "pval list"
  | POther string

record dot_conf =
  dc_pages :: page_conf
  sorted_graph :: "rtriple list \<Rightarrow> rtriple list"
  sorted_fields :: "(string \<times> rnode) list \<Rightarrow> (string \<times> rnode) list"
  compute_qname :: "string \<Rightarrow> string option"
  json_loads :: "string \<Rightarrow> pval option"
  other_value :: "string \<Rightarrow> string \<Rightarrow> pval"
  dc_limit :: nat

fun lit_value :: "dot_conf \<Rightarrow> rlit \<Rightarrow> pval" where
  "lit_value c (LVal (GText s)) = PText s"
| "lit_value c (LVal v) = PNum (gval_str v)"
| "lit_value c (LOther typ_name s) = other_value c typ_name s"

text \<open>Whether \<^verbatim>\<open>float(s)\<close> returns.\<close>

definition is_digit :: "char \<Rightarrow> bool" where
  "is_digit c \<longleftrightarrow> CHR ''0'' \<le> c \<and> c \<le> CHR ''9''"

definition exponent_ok :: "string \<Rightarrow> bool" where
  "exponent_ok s =
     (case s of
        [] \<Rightarrow> True
      | e # r \<Rightarrow> to_lower e = CHR ''e'' \<and> snd (strip_sign r) \<noteq> [] \<and> list_all is_digit (snd (strip_sign r)))"

definition py_float_ok :: "string \<Rightarrow> bool" where
  "py_float_ok s =
     (let t = snd (strip_sign (py_strip s)); whole = takeWhile is_digit t; r = dropWhile is_digit t;
          frac = (case r of CHR ''.'' # r' \<Rightarrow> takeWhile is_digit r' | _ \<Rightarrow> []);
          r2 = (case r of CHR ''.'' # r' \<Rightarrow> dropWhile is_digit r' | _ \<Rightarrow> r)
      in map to_lower t \<in> {''nan'', ''inf'', ''infinity''} \<or> (whole @ frac \<noteq> [] \<and> exponent_ok r2))"

definition py_capitalize :: "string \<Rightarrow> string" where
  "py_capitalize s = (case s of [] \<Rightarrow> [] | c # cs \<Rightarrow> to_upper c # map to_lower cs)"

definition is_alpha :: "char \<Rightarrow> bool" where
  "is_alpha c \<longleftrightarrow> (CHR ''a'' \<le> c \<and> c \<le> CHR ''z'') \<or> (CHR ''A'' \<le> c \<and> c \<le> CHR ''Z'')"

text \<open>The name is not empty: an empty one is an IndexError.\<close>

definition ToPlural :: "string \<Rightarrow> nat \<Rightarrow> string pyres" where
  "ToPlural eltNam numNodLst =
     (if numNodLst = 1 then Inr eltNam
      else if eltNam = [] then Inl IndexError
      else if \<not> is_alpha (last eltNam) then Inr eltNam
      else if last eltNam = CHR ''s'' then
        (if 1 < length eltNam \<and> last (butlast eltNam) \<noteq> CHR ''s'' then Inr eltNam else Inr (eltNam @ ''es''))
      else if last eltNam = CHR ''y'' then Inr (butlast eltNam @ ''ies'')
      else Inr (eltNam @ ''s''))"

subsection \<open>The title of a link\<close>

definition yawn_1 :: regex where
  "yawn_1 = dot_star # lit ''/yawn/''"

definition yawn_2 :: regex where
  "yawn_2 = dot_star # lit ''%2Fyawn%2F''"

text \<open>\<open>.*/([^.]+).py\<close>: the name is in the third and the fourth atom.\<close>

definition script_name :: regex where
  "script_name = dot_star # One (\<lambda>x. x = CHR ''/'') # One (\<lambda>x. x \<noteq> CHR ''.'') # Star (\<lambda>x. x \<noteq> CHR ''.'') #
     One not_newline # lit ''py''"

definition basNamToTxt :: "(string \<times> string) list" where
  "basNamToTxt =
     [(''objtypes_wbem'', ''WBEM hier.''), (''file_directory'', ''Subdir''), (''file_to_mime'', ''MIME''),
      (''objtypes_wmi'', ''WMI tree''), (''class_type_all'', ''Cross class''), (''dir_to_html'', ''DIR'')]"

definition ExternalToTitle :: "page_conf \<Rightarrow> string \<Rightarrow> (page_state, string) py" where
  "ExternalToTitle c extUrl =
     (if re_match yawn_1 extUrl \<or> re_match yawn_2 extUrl then ret ''Yawn''
      else case rmatch script_name extUrl of
             None \<Rightarrow> ret (''Literal:'' @ extUrl)
           | Some ps \<Rightarrow>
               (let pyNam = ps ! 2 @ ps ! 3
                in if pyNam = ''entity'' then bnd (ParseEntityUri c extUrl True []) (\<lambda>(objNam, _, _). ret objNam)
                   else case map_of basNamToTxt pyNam of
                          Some t \<Rightarrow> ret t
                        | None \<Rightarrow> ret (py_capitalize (py_replace pyNam ''_'' '' ''))))"

subsection \<open>A value as HTML\<close>

definition td_left :: "string \<Rightarrow> string" where
  "td_left s = ''<td align='' @ sq ''left'' @ '' balign='' @ sq ''left'' @ '' border='' @ sq ''0'' @ ''>'' @ s @ ''</td>''"

definition table_of :: "string \<Rightarrow> string" where
  "table_of s = ''<table border='' @ sq ''0'' @ ''>'' @ s @ ''</table>''"

definition tr_of :: "string \<Rightarrow> string" where
  "tr_of s = ''<tr>'' @ s @ ''</tr>''"

text \<open>A text that is no number may be a JSON document.\<close>

definition is_number :: "string \<Rightarrow> bool" where
  "is_number s \<longleftrightarrow> py_int s \<noteq> None \<or> py_float_ok s"

text \<open>The second argument is the number of the nested calls that Python allows.\<close>

fun FormatElementAux :: "dot_conf \<Rightarrow> nat \<Rightarrow> pval \<Rightarrow> nat \<Rightarrow> (page_state, string) py"
  and FormatElement :: "dot_conf \<Rightarrow> nat \<Rightarrow> pval \<Rightarrow> nat \<Rightarrow> (page_state, string) py"
  and FormatPair :: "dot_conf \<Rightarrow> nat \<Rightarrow> string \<Rightarrow> pval \<Rightarrow> nat \<Rightarrow> (page_state, string) py" where
  "FormatElementAux c 0 val depth = raise too_deep"
| "FormatElementAux c (Suc n) val depth =
     (let text_html = (\<lambda>s. if is_number s then ret s
            else case json_loads c s of
                   Some decodVal \<Rightarrow> FormatElementAux c n decodVal (depth + 1)
                 | None \<Rightarrow> ret (StrWithBr (cgi_escape s) 1))
      in case val of
           PNone \<Rightarrow> ret []
         | PNum s \<Rightarrow> ret s
         | PDict kvs \<Rightarrow>
             bnd (for_each kvs (\<lambda>(subKey, subVal). FormatPair c n subKey subVal (depth + 1))) (\<lambda>tds.
               ret (table_of (concat (map (\<lambda>td. if td = [] then [] else tr_of td) tds))))
         | PList vs \<Rightarrow>
             if vs = [] then ret ''{&#x2205;}''
             else bnd (for_each vs (\<lambda>subElement. FormatElement c n subElement (depth + 1))) (\<lambda>tds.
               ret (if depth mod 2 = 0 then table_of (concat (map tr_of tds)) else table_of (tr_of (concat tds))))
         | PText s \<Rightarrow> text_html s
         | PLink s \<Rightarrow> text_html s
         | POther s \<Rightarrow> ret (StrWithBr (cgi_escape s) 1))"
| "FormatElement c 0 val depth = raise too_deep"
| "FormatElement c (Suc n) val depth =
     (case val of
        PLink u \<Rightarrow>
          bnd (ExternalToTitle (dc_pages c) u) (\<lambda>title.
            ret (''<td align='' @ sq ''left'' @ '' balign='' @ sq ''left'' @ '' border='' @ sq ''0'' @ '' href='' @ sq u @ ''>'' @
              DotUL (''FormatElement '' @ title) @ ''</td>''))
      | _ \<Rightarrow> bnd (FormatElementAux c n val depth) (\<lambda>resStr. ret (td_left resStr)))"
| "FormatPair c 0 key val depth = raise too_deep"
| "FormatPair c (Suc n) key val depth =
     bnd (FormatElement c n val (depth + 1)) (\<lambda>colSecond.
       ret (''<td align='' @ sq ''left'' @ '' valign='' @ sq ''top'' @ '' border='' @ sq ''0'' @ ''>'' @ DotBold key @ ''</td>'' @
         colSecond))"

definition FlatPropertertiesList :: "string list" where
  "FlatPropertertiesList = property_data"

definition IsFlatProperty :: "string \<Rightarrow> bool" where
  "IsFlatProperty key \<longleftrightarrow> key \<in> set FlatPropertertiesList"

definition qname :: "dot_conf \<Rightarrow> string \<Rightarrow> string" where
  "qname c x = (case compute_qname c x of Some q \<Rightarrow> q | None \<Rightarrow> x)"

definition field_td :: "dot_conf \<Rightarrow> string \<times> rnode \<Rightarrow> (page_state, string) py" where
  "field_td c kv =
     (case kv of (key, val) \<Rightarrow>
        if key = property_information then
          ret (''<td align='' @ sq ''left'' @ '' balign='' @ sq ''left'' @ '' colspan='' @ sq ''2'' @ ''>'' @
            StrWithBr (node_text val) 2 @ ''</td>'')
        else if IsFlatProperty key then
          bnd (ParseEntityUri (dc_pages c) (node_text val) True []) (\<lambda>(urlTxt, _, _).
            ret (''<td href=\"'' @ node_text val @ ''\" align=\"left\" colspan=\"2\">'' @ DotUL (StrWithBr urlTxt 2) @ ''</td>''))
        else FormatPair c (dc_limit c) (qname c key)
               (case val of RLit v \<Rightarrow> lit_value c v | RUrl u \<Rightarrow> PLink u) 0)"

text \<open>The lines of a node, by the numbers from 0 on.\<close>

definition FieldsToHtmlVertical :: "dot_conf \<Rightarrow> (string \<times> rnode) list \<Rightarrow> (page_state, string list) py" where
  "FieldsToHtmlVertical c the_fields = for_each (sorted_fields c the_fields) (field_td c)"

end
