(* ===== verification/DotGraph.thy ===== *)
theory DotGraph
  imports Dot
begin

text \<open>
  The edges and the nodes that \<^verbatim>\<open>Rdf2Dot\<close> of \<^verbatim>\<open>survol/lib_export_dot.py\<close> writes. The objects of a collapsed
  property are the lines of a table of their subject, so that the end of an edge is the name of a node, or the
  name of a table and the port of one of its lines.
\<close>

text \<open>An edge has its two ends, a node its name and its lines; both have the text that is written.\<close>

datatype dot_item =
    DotEdge string string string
  | DotNode string "string list" string

fun dot_text :: "dot_item \<Rightarrow> string" where
  "dot_text (DotEdge a b s) = s"
| "dot_text (DotNode a rows s) = s"

text \<open>
  The labels of the nodes; for each collapsed property the objects of each subject; for the label of an object
  in a table the label of its subject, by property; the fields of each node; what was written.
\<close>

record dot_graph =
  dictRdf2Dot :: "(rnode \<times> string) list"
  collapsedSubjects :: "(string \<times> (rnode \<times> rnode list) list) list"
  collapsedLabels :: "(string \<times> (string \<times> string) list) list"
  fieldsSet :: "(rnode \<times> (string \<times> rnode) list) list"
  dot_stream :: "dot_item list"

text \<open>A missing key of a \<^verbatim>\<open>defaultdict(list)\<close> is an empty list.\<close>

definition dget :: "('k \<times> 'v list) list \<Rightarrow> 'k \<Rightarrow> 'v list" where
  "dget d k = (case map_of d k of None \<Rightarrow> [] | Some l \<Rightarrow> l)"

definition dot_write :: "dot_item \<Rightarrow> dot_graph \<Rightarrow> dot_graph" where
  "dot_write i g = g\<lparr>dot_stream := dot_stream g @ [i]\<rparr>"

definition nd_label :: "nat \<Rightarrow> string" where
  "nd_label i = ''nd_'' @ dec_nat i"

definition RdfNodeToDotLabel :: "rnode \<Rightarrow> dot_graph \<Rightarrow> string \<times> dot_graph" where
  "RdfNodeToDotLabel x g =
     (case map_of (dictRdf2Dot g) x of
        Some l \<Rightarrow> (l, g)
      | None \<Rightarrow>
          (let nodelabel = nd_label (length (dictRdf2Dot g))
           in (nodelabel, g\<lparr>dictRdf2Dot := dictRdf2Dot g @ [(x, nodelabel)]\<rparr>)))"

definition CollapsedLabel :: "string \<Rightarrow> string \<Rightarrow> string" where
  "CollapsedLabel collapsPropNam subjNam = ''R_'' @ collapsPropNam @ ''_'' @ subjNam"

text \<open>\<open>None\<close> is the KeyError, which the callers catch.\<close>

definition SubjNamFromCollapsed :: "string \<Rightarrow> string \<Rightarrow> dot_graph \<Rightarrow> string option" where
  "SubjNamFromCollapsed collapsPropNam subjNam g =
     (case map_of (collapsedLabels g) subjNam of
        None \<Rightarrow> None
      | Some d \<Rightarrow>
          map_option (\<lambda>collapsedSubjNam. CollapsedLabel collapsPropNam collapsedSubjNam @ '':'' @ subjNam)
            (map_of d collapsPropNam))"

definition RdfNodeToDotLabelExtended :: "rnode \<Rightarrow> string option \<Rightarrow> dot_graph \<Rightarrow> string \<times> dot_graph" where
  "RdfNodeToDotLabelExtended obj prop g =
     (case RdfNodeToDotLabel obj g of (objNam, g1) \<Rightarrow>
       (case map_of (collapsedLabels g1) objNam of
          None \<Rightarrow> objNam
        | Some dictOfProps \<Rightarrow>
            (let found = Option.bind prop (\<lambda>p.
                   map_option (\<lambda>s. (PropToShortPropNam p, s)) (map_of dictOfProps (PropToShortPropNam p)));
                 (propNam, subjNam) = (case found of Some ps \<Rightarrow> ps | None \<Rightarrow> hd dictOfProps)
             in CollapsedLabel propNam subjNam @ '':'' @ objNam), g1))"

subsection \<open>The first pass: the objects in tables\<close>

fun collapse_step :: "string list \<Rightarrow> rtriple \<Rightarrow> dot_graph \<Rightarrow> dot_graph" where
  "collapse_step props (subj, prop, obj) g =
     (if prop \<in> set props then
        (let (subjNam, g1) = RdfNodeToDotLabel subj g;
             propNam = PropToShortPropNam prop;
             objects = dget (collapsedSubjects g1) propNam;
             g2 = g1\<lparr>collapsedSubjects := AList.update propNam
                        (AList.update subj (dget objects subj @ [obj]) objects) (collapsedSubjects g1)\<rparr>;
             (objNam, g3) = RdfNodeToDotLabel obj g2
         in g3\<lparr>collapsedLabels := AList.update objNam
                  (AList.update propNam subjNam (dget (collapsedLabels g3) objNam)) (collapsedLabels g3)\<rparr>)
      else g)"

subsection \<open>The second pass: the edges and the fields\<close>

definition edge_text :: "bool \<Rightarrow> string \<Rightarrow> string \<Rightarrow> string \<Rightarrow> string \<Rightarrow> string" where
  "edge_text both subjNam objNam col label =
     [CHR 0x09] @ subjNam @ '' -> '' @ objNam @ '' [ '' @ (if both then ''dir=both '' else []) @ ''color='' @ col @
     '', label=< <font point-size='' @ sq ''10'' @ '' color='' @ sq ''#336633'' @ ''>'' @ label @ ''</font> > ] ;'' @ [CHR 0x0A]"

definition dot_edge :: "bool \<Rightarrow> string \<Rightarrow> string \<Rightarrow> string \<Rightarrow> string \<Rightarrow> dot_item" where
  "dot_edge both subjNam objNam col label = DotEdge subjNam objNam (edge_text both subjNam objNam col label)"

definition add_field :: "rnode \<Rightarrow> string \<times> rnode \<Rightarrow> dot_graph \<Rightarrow> dot_graph" where
  "add_field subj kv g = g\<lparr>fieldsSet := AList.update subj (dget (fieldsSet g) subj @ [kv]) (fieldsSet g)\<rparr>"

text \<open>A node of rdflib is never \<^verbatim>\<open>None\<close>, so that the case of \<^verbatim>\<open>None\<close> has no counterpart here.\<close>

fun edge_step :: "dot_conf \<Rightarrow> rtriple set \<Rightarrow> string list \<Rightarrow> rtriple \<Rightarrow> dot_graph \<Rightarrow> dot_graph" where
  "edge_step c grph props (subj, prop, obj) g =
     (if prop \<in> set props then g
      else
        (let (subjNam, g1) = RdfNodeToDotLabelExtended subj None g; col = prop_color prop
         in if \<not> IsLink obj then add_field subj (prop, obj) g1
            else if prop = property_socket_end then
              (let (objNam, g2) = RdfNodeToDotLabelExtended obj (Some prop) g1
               in if (obj, prop, subj) \<in> grph then
                    (if subjNam < objNam then dot_write (dot_edge True subjNam objNam col (qname c prop)) g2 else g2)
                  else dot_write (dot_edge False subjNam objNam col (qname c prop)) g2)
            else if IsFlatProperty prop then add_field subj (prop, obj) g1
            else
              (let (objNam, g2) = RdfNodeToDotLabelExtended obj (Some prop) g1;
                   subjNam2 = (case SubjNamFromCollapsed (PropToShortPropNam prop) subjNam g2 of
                                 Some s \<Rightarrow> s | None \<Rightarrow> subjNam)
               in dot_write (dot_edge False subjNam2 objNam col (qname c prop)) g2)))"

subsection \<open>The tables\<close>

text \<open>The columns: the links to data first, then the other properties in their order, without the information.\<close>

definition fields_keys :: "dot_graph \<Rightarrow> rnode list \<Rightarrow> string list" where
  "fields_keys g nodLst =
     (let rawFieldsKeys = remdups (concat (map (\<lambda>obj. map fst (dget (fieldsSet g) obj)) nodLst))
      in filter (\<lambda>k. k \<in> set rawFieldsKeys) FlatPropertertiesList @
         sort (filter (\<lambda>k. \<not> IsFlatProperty k \<and> k \<noteq> property_information) rawFieldsKeys))"

fun key_index :: "string list \<Rightarrow> string \<Rightarrow> nat option" where
  "key_index [] k = None"
| "key_index (x # xs) k = (if x = k then Some 0 else map_option Suc (key_index xs k))"

definition table_cell :: "dot_conf \<Rightarrow> string \<Rightarrow> string \<times> rnode \<Rightarrow> (page_state, string) py" where
  "table_cell c td_bgcolor kv =
     (case kv of (key, val) \<Rightarrow>
        if IsFlatProperty key then
          (case val of
             RLit v \<Rightarrow>
               (case lit_value c v of
                  PList vs \<Rightarrow>
                    bnd (FormatElementAux c (dc_limit c) (PList vs) 0) (\<lambda>strHtml.
                      ret (td_bgcolor @ ''align=\"left\">'' @ strHtml @ ''</td>''))
                | _ \<Rightarrow> ret (td_bgcolor @ ''align=\"left\">'' @ rlit_text v @ ''</td>''))
           | RUrl u \<Rightarrow>
               bnd (ParseEntityUri (dc_pages c) u True []) (\<lambda>(valTitle, _, _).
                 ret (td_bgcolor @ ''href=\"'' @ u @ ''\" align=\"left\" >'' @ DotUL valTitle @ ''</td>'')))
        else if py_float_ok (node_text val) then ret (td_bgcolor @ ''align=\"right\">'' @ node_text val @ ''</td>'')
        else ret (td_bgcolor @ ''align=\"left\">'' @ StrWithBr (node_text val) 1 @ ''</td>''))"

text \<open>The columns of an object and its title, the texts of its information. The column 0 is set afterwards.\<close>

fun row_cells :: "dot_conf \<Rightarrow> string \<Rightarrow> string list \<Rightarrow> (string \<times> rnode) list \<Rightarrow> string list \<Rightarrow> string
    \<Rightarrow> (page_state, string list \<times> string) py" where
  "row_cells c td_bgcolor fieldsKeys [] columns title = ret (columns, title)"
| "row_cells c td_bgcolor fieldsKeys ((key, val) # flds) columns title =
     (if key = property_information then row_cells c td_bgcolor fieldsKeys flds columns (title @ node_text val)
      else bnd (table_cell c td_bgcolor (key, val)) (\<lambda>tmpCell.
           bnd (of_opt KeyError (key_index fieldsKeys key)) (\<lambda>idxKey.
             row_cells c td_bgcolor fieldsKeys flds (columns[idxKey + 1 := tmpCell]) title)))"

text \<open>The first title \<open>Title\<close>, \<open>Title/2\<close>, \<open>Title/3\<close> that is free; the search ends, as the titles differ.\<close>

definition title_number :: "string \<Rightarrow> nat \<Rightarrow> string" where
  "title_number title_key title_idx = title_key @ ''/'' @ dec_nat title_idx"

lemma title_number_inj: "title_number t i = title_number t j \<Longrightarrow> i = j"
  using dec_nat_inj by (simp add: title_number_def)

function free_title :: "string list \<Rightarrow> string \<Rightarrow> nat \<Rightarrow> string" where
  "free_title taken title_key title_idx =
     (if title_number title_key title_idx \<in> set taken then free_title taken title_key (title_idx + 1)
      else title_number title_key title_idx)"
  by pat_completeness auto
termination
proof (relation "measure (\<lambda>(taken, t, i). card {j. i \<le> j \<and> title_number t j \<in> set taken})", goal_cases)
  case (2 taken t i)
  let ?left = "\<lambda>k. {j. k \<le> j \<and> title_number t j \<in> set taken}"
  have "finite (title_number t -` set taken)"
    by (rule finite_vimageI) (auto intro: injI title_number_inj)
  then have "finite (?left i)" by (rule rev_finite_subset) auto
  moreover have "?left (i + 1) \<subseteq> ?left i" "i \<in> ?left i" "i \<notin> ?left (i + 1)" using 2 by auto
  then have "?left (i + 1) \<subset> ?left i" by blast
  ultimately show ?case by (simp add: psubset_card_mono)
qed simp

declare free_title.simps [simp del]

definition title_uniq :: "string list \<Rightarrow> string \<Rightarrow> string" where
  "title_uniq taken title_key = (if title_key \<in> set taken then free_title taken title_key 2 else title_key)"

definition row_color :: "dot_conf \<Rightarrow> string \<Rightarrow> string \<Rightarrow> (page_state, string) py" where
  "row_color c objUri subEntityGraphicClass =
     (if \<not> contains objUri ''entity.py'' then ret ''#FFFFFF''
      else bnd (EntityClassToColor (dc_pages c) subEntityGraphicClass) (\<lambda>col.
             case col of GText s \<Rightarrow> ret s | _ \<Rightarrow> raise TypeError))"

definition amp_escaped :: "string \<Rightarrow> string" where
  "amp_escaped s = py_replace s ''&'' ''&amp;''"

definition td_color :: "string \<Rightarrow> string" where
  "td_color col = ''<td BGCOLOR=\"'' @ col @ ''\" ''"

definition key_cell :: "string \<Rightarrow> string \<Rightarrow> string \<Rightarrow> string \<Rightarrow> string \<Rightarrow> string" where
  "key_cell td_bgcolor_light subObjId subEntityId subNodUri title_key =
     td_bgcolor_light @ ''port=\"'' @ subObjId @ ''\"'' @
     (if subEntityId \<noteq> ''PLAINTEXTONLY''
      then '' href=\"'' @ subNodUri @ ''\" align=\"LEFT\" >'' @ title_key @ ''</td>''
      else '' align=\"LEFT\" >'' @ cgi_escape subNodUri @ ''</td>'')"

text \<open>The line of an object in a table, with its title and the class of the object.\<close>

definition table_row :: "dot_conf \<Rightarrow> string list \<Rightarrow> (string \<times> rnode) list \<Rightarrow> rnode \<Rightarrow> string
    \<Rightarrow> (page_state, string \<times> string \<times> string) py" where
  "table_row c fieldsKeys flds objUri subObjId =
     bnd (ParseEntityUriShort (dc_pages c) (node_text objUri)) (\<lambda>(subObjNam, subEntityGraphicClass, subEntityId).
     bnd (row_color c (node_text objUri) subEntityGraphicClass) (\<lambda>objColor.
     bnd (ColorLighter objColor) (\<lambda>objColorLight.
       let td_bgcolor = td_color objColor
       in bnd (row_cells c td_bgcolor fieldsKeys flds (replicate (length fieldsKeys + 1) (td_bgcolor @ '' ></td>'')) [])
            (\<lambda>(columns, title).
              let title_key = (if title \<noteq> [] then title else subObjNam)
              in ret (title_key,
                   concat (columns[0 := key_cell (td_color objColorLight) subObjId subEntityId
                     (amp_escaped (node_text objUri)) title_key]),
                   subEntityGraphicClass)))))"

text \<open>The lines of a table, by their titles, and the class of the last object.\<close>

fun table_rows :: "dot_conf \<Rightarrow> string list \<Rightarrow> rnode list \<Rightarrow> (string \<times> string) list \<Rightarrow> string \<Rightarrow> dot_graph
    \<Rightarrow> (page_state, (string \<times> string) list \<times> string \<times> dot_graph) py" where
  "table_rows c fieldsKeys [] dictHtmlLines lastClass g = ret (dictHtmlLines, lastClass, g)"
| "table_rows c fieldsKeys (objUri # nodLst) dictHtmlLines lastClass g =
     (case RdfNodeToDotLabel objUri g of (subObjId, g1) \<Rightarrow>
        bnd (table_row c fieldsKeys (dget (fieldsSet g1) objUri) objUri subObjId) (\<lambda>(title_key, line, cls).
          table_rows c fieldsKeys nodLst
            (AList.update (title_uniq (map fst dictHtmlLines) title_key) line dictHtmlLines) cls g1))"

definition table_header :: "dot_conf \<Rightarrow> string list \<Rightarrow> string \<Rightarrow> string" where
  "table_header c fieldsKeys txtElements =
     ''<td border=\"1\">'' @ DotBold txtElements @ ''</td>'' @
     concat (map (\<lambda>key. ''<td border='' @ sq ''1'' @ ''>'' @
       DotBold (py_capitalize (py_replace (qname c key) ''_'' '' '')) @ ''</td>'') fieldsKeys)"

text \<open>The node of a table: its title, its header with an empty key, and its lines.\<close>

definition write_table :: "dot_conf \<Rightarrow> string \<Rightarrow> string \<Rightarrow> string \<Rightarrow> string \<times> string \<times> string \<Rightarrow> nat \<Rightarrow> string list
    \<Rightarrow> (string \<times> string) list \<Rightarrow> string \<Rightarrow> (page_state, dot_item) py" where
  "write_table c propNam subjNamTab subjUrl parsed numNodLst fieldsKeys dictHtmlLines lastClass =
     (case parsed of (labText, subjEntityGraphicClass, entity_id) \<Rightarrow>
        let eltNam = last (py_split (CHR ''/'') lastClass)
        in bnd (of_res (ToPlural (if eltNam = [] then ''script'' else eltNam) numNodLst)) (\<lambda>eltNamPlural.
           let header = table_header c fieldsKeys (dec_nat numNodLst @ '' '' @ eltNamPlural);
               dictLines = AList.update [] header dictHtmlLines;
               helpText = (if subjEntityGraphicClass \<noteq> []
                 then ''List of '' @ subjEntityGraphicClass @ '' objects in '' @ labText
                 else ''List of scripts in '' @ labText);
               labTextWithBr = StrWithBr (TruncateInSpace labText 30) 1 @ '': '' @ propNam;
               subjUrlClean = (if entity_id = ''PLAINTEXTONLY'' then [] else amp_escaped subjUrl)
           in bnd (WritePatterned (dc_pages c) subjEntityGraphicClass subjNamTab helpText ''\"#000000\"'' subjUrlClean
                    (int (length fieldsKeys) + 1) labTextWithBr dictLines) (\<lambda>s.
                ret (DotNode subjNamTab (map snd dictLines) s))))"

text \<open>
  The table of the objects of a subject, and the edge from the subject to it. The list of objects is never
  empty, so that \<open>lastClass\<close> is a class of an object.
\<close>

definition collapsed_table :: "dot_conf \<Rightarrow> string \<Rightarrow> rnode \<times> rnode list \<Rightarrow> dot_graph \<Rightarrow> (page_state, dot_graph) py" where
  "collapsed_table c propNam subj_objs g =
     (case subj_objs of (subjUrl, nodLst) \<Rightarrow> case RdfNodeToDotLabel subjUrl g of (subjNam, g1) \<Rightarrow>
       (let subjNamTab = CollapsedLabel propNam subjNam;
            subjNam2 = (case SubjNamFromCollapsed propNam subjNam g1 of Some s \<Rightarrow> s | None \<Rightarrow> subjNam);
            g2 = dot_write (dot_edge False subjNam2 subjNamTab ''GREEN'' propNam) g1;
            fieldsKeys = fields_keys g2 nodLst
        in bnd (ParseEntityUri (dc_pages c) (node_text subjUrl) True []) (\<lambda>parsed.
           bnd (table_rows c fieldsKeys nodLst [] [] g2) (\<lambda>(dictHtmlLines, lastClass, g3).
           bnd (write_table c propNam subjNamTab (node_text subjUrl) parsed (length nodLst) fieldsKeys dictHtmlLines lastClass)
             (\<lambda>item. ret (dot_write item g3))))))"

fun collapsed_tables :: "dot_conf \<Rightarrow> string \<Rightarrow> (rnode \<times> rnode list) list \<Rightarrow> dot_graph \<Rightarrow> (page_state, dot_graph) py" where
  "collapsed_tables c propNam [] g = ret g"
| "collapsed_tables c propNam (so # sos) g =
     bnd (collapsed_table c propNam so g) (collapsed_tables c propNam sos)"

definition ProcessCollapsedProperties :: "dot_conf \<Rightarrow> string \<Rightarrow> dot_graph \<Rightarrow> (page_state, dot_graph) py" where
  "ProcessCollapsedProperties c propNam g = collapsed_tables c propNam (dget (collapsedSubjects g) propNam) g"

fun process_properties :: "dot_conf \<Rightarrow> string list \<Rightarrow> dot_graph \<Rightarrow> (page_state, dot_graph) py" where
  "process_properties c [] g = ret g"
| "process_properties c (p # props) g =
     bnd (ProcessCollapsedProperties c (PropToShortPropNam p) g) (process_properties c props)"

subsection \<open>The other nodes\<close>

definition dot_node :: "dot_conf \<Rightarrow> dot_graph \<Rightarrow> rnode \<times> string \<Rightarrow> (page_state, dot_item list) py" where
  "dot_node c g nl =
     (case nl of (objRdfNode, objLabel) \<Rightarrow>
        if map_of (collapsedLabels g) objLabel \<noteq> None then ret []
        else bnd (FieldsToHtmlVertical c (dget (fieldsSet g) objRdfNode)) (\<lambda>objPropsAsHtml.
             bnd (ParseEntityUri (dc_pages c) (urllib_unquote (node_text objRdfNode)) True [])
               (\<lambda>(labText, objEntityGraphClass, entity_id).
             let labTextNoAmp = py_strip (py_replace labText ''&amp;amp;'' '' '');
                 labTextClean = StrWithBr labTextNoAmp 1;
                 helpText = (if objEntityGraphClass \<noteq> [] then labTextNoAmp @ '' is a '' @ objEntityGraphClass
                   else if startswith labTextClean ''http'' then ''External URL '' @ labTextNoAmp
                   else ''Script '' @ labTextNoAmp)
             in bnd (write_rows (dc_pages c) objEntityGraphClass objLabel helpText ''\"#000000\"''
                      (amp_escaped (node_text objRdfNode)) 2 labTextClean objPropsAsHtml) (\<lambda>s.
                  ret [DotNode objLabel objPropsAsHtml s]))))"

text \<open>The dictionary of the collapsed properties starts with their names.\<close>

definition dot_start :: "string list \<Rightarrow> dot_graph" where
  "dot_start props =
     \<lparr>dictRdf2Dot = [], collapsedSubjects = map (\<lambda>p. (PropToShortPropNam p, [])) props, collapsedLabels = [],
      fieldsSet = [], dot_stream = []\<rparr>"

definition Rdf2Dot :: "dot_conf \<Rightarrow> rtriple list \<Rightarrow> string list \<Rightarrow> (page_state, dot_item list) py" where
  "Rdf2Dot c grph props =
     (let sortedGrph = sorted_graph c grph;
          g1 = fold (collapse_step props) sortedGrph (dot_start props);
          g2 = fold (edge_step c (set grph) props) sortedGrph g1
      in bnd (process_properties c props g2) (\<lambda>g3.
         bnd (for_each (dictRdf2Dot g3) (dot_node c g3)) (\<lambda>nodes. ret (dot_stream g3 @ concat nodes))))"

text \<open>
  The layout and the text of the file that \<^verbatim>\<open>Grph2Svg\<close> passes to Graphviz, from the fields of \<open>OutSvg\<close>: the head with
  the legend, the nodes and the edges, and the end of the graph.
\<close>

definition dot_file :: "string \<Rightarrow> dot_item list \<Rightarrow> string" where
  "dot_file head_text items = head_text @ concat (map dot_text items) @ ''}'' @ [CHR 0x0A]"

definition Grph2Svg :: "dot_conf \<Rightarrow> string \<Rightarrow> string \<Rightarrow> rtriple list \<Rightarrow> string list \<Rightarrow> (page_state, string \<times> string) py" where
  "Grph2Svg c dot_layout head_text grph collapsed_properties =
     bnd (Rdf2Dot c grph collapsed_properties) (\<lambda>items. ret (dot_layout, dot_file head_text items))"

end
