(* ===== verification/DotProps.thy ===== *)
theory DotProps
  imports DotGraph PatternProps
begin

text \<open>
  The text for Graphviz is a drawing of the graph: each end of an edge is a node that is written, or the port of
  a line of a table that is written, and the edges and the lines of the tables are those of the triples.
\<close>

subsection \<open>Labels\<close>

definition labels_ok :: "dot_graph \<Rightarrow> bool" where
  "labels_ok g \<longleftrightarrow> distinct (map fst (dictRdf2Dot g)) \<and>
     map snd (dictRdf2Dot g) = map nd_label [0..<length (dictRdf2Dot g)]"

abbreviation lab :: "dot_graph \<Rightarrow> rnode \<Rightarrow> string option" where
  "lab g \<equiv> map_of (dictRdf2Dot g)"

lemma nd_label_inj: "nd_label i = nd_label j \<Longrightarrow> i = j"
  by (simp add: nd_label_def dec_nat_inj)

lemma labels_distinct: "labels_ok g \<Longrightarrow> distinct (map snd (dictRdf2Dot g))"
  by (auto simp: labels_ok_def distinct_map intro!: inj_onI dest: nd_label_inj)

lemma lab_inj: "labels_ok g \<Longrightarrow> lab g m = Some l \<Longrightarrow> lab g n = Some l \<Longrightarrow> m = n"
  using labels_distinct [of g] by (fastforce dest!: map_of_SomeD simp: distinct_map inj_on_def)

lemma lab_form: "labels_ok g \<Longrightarrow> lab g n = Some l \<Longrightarrow> \<exists>i. l = nd_label i"
  unfolding labels_ok_def by (metis (no_types, lifting) map_of_SomeD image_eqI set_map imageE snd_conv)

text \<open>What later steps keep: the labels, and the tables of the first pass.\<close>

definition grows :: "dot_graph \<Rightarrow> dot_graph \<Rightarrow> bool" where
  "grows g h \<longleftrightarrow> (labels_ok g \<longrightarrow> labels_ok h) \<and> lab g \<subseteq>\<^sub>m lab h \<and> set (dot_stream g) \<subseteq> set (dot_stream h) \<and>
     collapsedSubjects h = collapsedSubjects g \<and> collapsedLabels h = collapsedLabels g"

lemma grows_refl [simp]: "grows g g"
  by (simp add: grows_def)

lemma grows_trans: "grows f g \<Longrightarrow> grows g h \<Longrightarrow> grows f h"
  by (auto simp: grows_def dest: map_le_trans)

lemma grows_lab: "grows g h \<Longrightarrow> lab g n = Some l \<Longrightarrow> lab h n = Some l"
  by (auto simp: grows_def map_le_def dom_def)

lemma label_run:
  assumes "RdfNodeToDotLabel n g = (l, h)"
  shows "lab h n = Some l" "grows g h" "fieldsSet h = fieldsSet g" "dot_stream h = dot_stream g"
proof -
  have "labels_ok h" if "lab g n = None" "labels_ok g"
    using assms that by (auto simp: RdfNodeToDotLabel_def labels_ok_def map_of_eq_None_iff Let_def)
  with assms show "lab h n = Some l" "grows g h" "fieldsSet h = fieldsSet g" "dot_stream h = dot_stream g"
    by (auto simp: RdfNodeToDotLabel_def grows_def map_le_def map_add_def dom_def Let_def split: option.splits)
qed

lemma write_grows [simp]: "grows g (dot_write i g)"
  by (auto simp: grows_def dot_write_def labels_ok_def)

lemma write_fields [simp]: "fieldsSet (dot_write i g) = fieldsSet g"
  "dictRdf2Dot (dot_write i g) = dictRdf2Dot g" "dot_stream (dot_write i g) = dot_stream g @ [i]"
  by (simp_all add: dot_write_def)

subsection \<open>The first pass\<close>

text \<open>\<open>in_table g p s o\<close>: the object with the label \<open>o\<close> is in the table of the subject with the label \<open>s\<close>.\<close>

definition in_table :: "dot_graph \<Rightarrow> string \<Rightarrow> string \<Rightarrow> string \<Rightarrow> bool" where
  "in_table g p s o' \<longleftrightarrow> (\<exists>subj obj. lab g subj = Some s \<and> lab g obj = Some o' \<and>
     obj \<in> set (dget (dget (collapsedSubjects g) p) subj))"

definition tables_ok :: "dot_graph \<Rightarrow> bool" where
  "tables_ok g \<longleftrightarrow> (\<forall>o' d. map_of (collapsedLabels g) o' = Some d \<longrightarrow>
     d \<noteq> [] \<and> (\<forall>p s. map_of d p = Some s \<longrightarrow> in_table g p s o'))"

text \<open>The tables hold the triples of the collapsed properties.\<close>

definition tables_of :: "string list \<Rightarrow> rtriple set \<Rightarrow> dot_graph \<Rightarrow> bool" where
  "tables_of props T g \<longleftrightarrow>
     (\<forall>p subj obj. obj \<in> set (dget (dget (collapsedSubjects g) p) subj) \<longleftrightarrow>
        (\<exists>q \<in> set props. PropToShortPropNam q = p \<and> (subj, q, obj) \<in> T)) \<and>
     (\<forall>(subj, q, obj) \<in> T. q \<in> set props \<longrightarrow> lab g subj \<noteq> None \<and> lab g obj \<noteq> None) \<and>
     (\<forall>p. distinct (map fst (dget (collapsedSubjects g) p)) \<and> [] \<notin> snd ` set (dget (collapsedSubjects g) p))"

lemma grows_same: "grows g h \<Longrightarrow> collapsedSubjects h = collapsedSubjects g"
    "grows g h \<Longrightarrow> collapsedLabels h = collapsedLabels g" "grows g h \<Longrightarrow> labels_ok g \<Longrightarrow> labels_ok h"
    "grows g h \<Longrightarrow> i \<in> set (dot_stream g) \<Longrightarrow> i \<in> set (dot_stream h)"
  by (auto simp: grows_def)

lemma in_table_grows:
  assumes "grows g h" "in_table g p s o'"
  shows "in_table h p s o'"
proof -
  from assms(2) obtain subj obj where "lab g subj = Some s" "lab g obj = Some o'"
      "obj \<in> set (dget (dget (collapsedSubjects g) p) subj)" unfolding in_table_def by blast
  with assms(1) show ?thesis unfolding in_table_def grows_same(1) [OF assms(1)]
    using grows_lab [OF assms(1)] by blast
qed

lemma tables_ok_grows:
  assumes "grows g h" "tables_ok g"
  shows "tables_ok h"
  using assms(2) in_table_grows [OF assms(1)] unfolding tables_ok_def grows_same(2) [OF assms(1)] by blast

lemma tables_of_grows: "grows g h \<Longrightarrow> tables_of props T g \<Longrightarrow> tables_of props T h"
  unfolding tables_of_def using grows_lab [of g h] grows_same(1) [of g h] by (auto 0 4 split: prod.splits)

lemma dget_update: "dget (AList.update k v d) k' = (if k' = k then v else dget d k')"
  by (simp add: dget_def update_conv)

lemma update_values: "kv \<in> set (AList.update k v d) \<Longrightarrow> kv = (k, v) \<or> kv \<in> set d"
  by (induction d) (auto split: if_splits)

lemma update_nonempty: "AList.update k v d \<noteq> []"
  by (cases d) auto

definition first_ok :: "string list \<Rightarrow> rtriple set \<Rightarrow> dot_graph \<Rightarrow> bool" where
  "first_ok props T g \<longleftrightarrow> labels_ok g \<and> tables_ok g \<and> tables_of props T g"

lemma first_start: "first_ok props {} (dot_start props)"
proof -
  have "dget (map (\<lambda>p. (PropToShortPropNam p, [] :: (rnode \<times> rnode list) list)) props) p = []" for p :: string
    by (auto simp: dget_def dest: map_of_SomeD split: option.splits)
  moreover have "dget [] s = ([] :: rnode list)" for s :: rnode by (simp add: dget_def)
  ultimately show ?thesis by (simp add: first_ok_def dot_start_def labels_ok_def tables_ok_def tables_of_def)
qed

lemma put_in_table:
  assumes "first_ok props T g" "prop \<in> set props" "lab g subj = Some sn" "lab g obj = Some ol"
  shows "first_ok props (insert (subj, prop, obj) T)
    (g\<lparr>collapsedSubjects := AList.update (PropToShortPropNam prop)
         (AList.update subj (dget (dget (collapsedSubjects g) (PropToShortPropNam prop)) subj @ [obj])
           (dget (collapsedSubjects g) (PropToShortPropNam prop))) (collapsedSubjects g),
       collapsedLabels := AList.update ol (AList.update (PropToShortPropNam prop) sn (dget (collapsedLabels g) ol))
         (collapsedLabels g)\<rparr>)" (is "first_ok props ?T ?h")
proof -
  let ?p = "PropToShortPropNam prop"
  have labels: "labels_ok g" "tables_ok g" "tables_of props T g" using assms(1) by (auto simp: first_ok_def)
  have objects: "o' \<in> set (dget (dget (collapsedSubjects ?h) p) s) \<longleftrightarrow>
      o' \<in> set (dget (dget (collapsedSubjects g) p) s) \<or> (p = ?p \<and> s = subj \<and> o' = obj)" for o' p s
    by (auto simp: dget_update)
  have more: "in_table g p s o' \<Longrightarrow> in_table ?h p s o'" for p s o'
    unfolding in_table_def objects by auto
  have new: "in_table ?h ?p sn ol" unfolding in_table_def objects using assms(3,4) by auto
  have "d \<noteq> [] \<and> (\<forall>p s. map_of d p = Some s \<longrightarrow> in_table ?h p s o')"
    if d: "map_of (collapsedLabels ?h) o' = Some d" for o' d
  proof (cases "o' = ol")
    case True
    with d have d': "d = AList.update ?p sn (dget (collapsedLabels g) ol)" by (simp add: update_conv)
    have "in_table ?h p s ol" if "map_of d p = Some s" for p s
    proof (cases "p = ?p")
      case True
      with that d' have "s = sn" by (simp add: update_conv)
      with new True show ?thesis by simp
    next
      case False
      with that d' have "map_of (dget (collapsedLabels g) ol) p = Some s" by (simp add: update_conv)
      then obtain e where "map_of (collapsedLabels g) ol = Some e" "map_of e p = Some s"
        by (auto simp: dget_def split: option.splits)
      with labels(2) have "in_table g p s ol" by (auto simp: tables_ok_def)
      then show ?thesis by (rule more)
    qed
    with d' True show ?thesis by (simp add: update_nonempty)
  next
    case False
    with d have "map_of (collapsedLabels g) o' = Some d" by (simp add: update_conv)
    with labels(2) have "d \<noteq> []" "\<forall>p s. map_of d p = Some s \<longrightarrow> in_table g p s o'" by (auto simp: tables_ok_def)
    with more show ?thesis by blast
  qed
  then have "tables_ok ?h" by (simp add: tables_ok_def)
  moreover have "tables_of props ?T ?h"
  proof -
    have "distinct (map fst (dget (collapsedSubjects ?h) p)) \<and> [] \<notin> snd ` set (dget (collapsedSubjects ?h) p)" for p
      using labels(3) by (auto simp: tables_of_def dget_update distinct_update dest!: update_values)
    then show ?thesis
      using labels(3) assms(2-4) unfolding tables_of_def objects by (auto split: prod.splits)
  qed
  moreover have "labels_ok ?h" using labels(1) by (simp add: labels_ok_def)
  ultimately show ?thesis by (simp add: first_ok_def)
qed

lemma first_grows: "grows g h \<Longrightarrow> first_ok props T g \<Longrightarrow> first_ok props T h"
  using tables_ok_grows tables_of_grows by (auto simp: first_ok_def grows_same)

lemma collapse_ok:
  assumes "first_ok props T g"
  shows "first_ok props (insert t T) (collapse_step props t g)"
proof -
  obtain subj pr obj where t: "t = (subj, pr, obj)" by (cases t)
  show ?thesis
  proof (cases "pr \<in> set props")
    case False
    with assms t show ?thesis by (auto simp: first_ok_def tables_of_def)
  next
    case True
    obtain sn g1 where s: "RdfNodeToDotLabel subj g = (sn, g1)" by fastforce
    let ?p = "PropToShortPropNam pr"
    let ?cs = "AList.update ?p (AList.update subj (dget (dget (collapsedSubjects g1) ?p) subj @ [obj])
      (dget (collapsedSubjects g1) ?p)) (collapsedSubjects g1)"
    obtain ol g3 where o: "RdfNodeToDotLabel obj g1 = (ol, g3)" by fastforce
    have swap: "RdfNodeToDotLabel obj (g1\<lparr>collapsedSubjects := ?cs\<rparr>) = (ol, g3\<lparr>collapsedSubjects := ?cs\<rparr>)"
      using o by (auto simp: RdfNodeToDotLabel_def Let_def split: option.splits)
    have "grows g g3" using label_run(2) [OF s] label_run(2) [OF o] by (rule grows_trans)
    then have "first_ok props T g3" using assms by (rule first_grows)
    moreover have "lab g3 subj = Some sn" using label_run(1) [OF s] label_run(2) [OF o] by (rule grows_lab [rotated])
    moreover note label_run(1) [OF o]
    moreover have "collapsedSubjects g3 = collapsedSubjects g1" using label_run(2) [OF o] by (rule grows_same)
    ultimately have "first_ok props (insert (subj, pr, obj) T)
        (g3\<lparr>collapsedSubjects := ?cs,
            collapsedLabels := AList.update ol (AList.update ?p sn (dget (collapsedLabels g3) ol)) (collapsedLabels g3)\<rparr>)"
      using put_in_table [OF _ True, of T g3 subj sn obj ol] by simp
    with t True s swap show ?thesis by (simp add: Let_def)
  qed
qed

lemma first_pass: "first_ok props T g \<Longrightarrow> first_ok props (T \<union> set ts) (fold (collapse_step props) ts g)"
proof (induction ts arbitrary: T g)
  case (Cons t ts)
  then show ?case using Cons.IH [OF collapse_ok [OF Cons.prems]] by simp
qed simp

lemmas first_pass_ok = first_pass [OF first_start, simplified]

subsection \<open>The second pass\<close>

text \<open>
  \<open>end_of g e l\<close>: the end \<open>e\<close> of an edge stands for the node with the label \<open>l\<close>, by this label, or by the port of
  a line when the node is in a table.
\<close>

definition end_of :: "dot_graph \<Rightarrow> string \<Rightarrow> string \<Rightarrow> bool" where
  "end_of g e l \<longleftrightarrow> (\<exists>n. lab g n = Some l) \<and>
     (if map_of (collapsedLabels g) l = None then e = l
      else \<exists>p s. e = CollapsedLabel p s @ '':'' @ l \<and> in_table g p s l)"

lemma end_of_grows:
  assumes "grows g h" "end_of g e l"
  shows "end_of h e l"
  using assms(2) grows_lab [OF assms(1)] in_table_grows [OF assms(1)] grows_same(2) [OF assms(1)]
  unfolding end_of_def by (auto split: if_splits) blast

lemma extended_run:
  assumes "RdfNodeToDotLabelExtended n pr g = (e, h)" "tables_ok g"
  shows "grows g h" "fieldsSet h = fieldsSet g" "dot_stream h = dot_stream g"
    "\<exists>l. lab h n = Some l \<and> end_of h e l"
proof -
  obtain l where l: "RdfNodeToDotLabel n g = (l, h)" and
    e: "e = (case map_of (collapsedLabels h) l of None \<Rightarrow> l
      | Some d \<Rightarrow> (let found = Option.bind pr (\<lambda>p. map_option (\<lambda>s. (PropToShortPropNam p, s)) (map_of d (PropToShortPropNam p)));
             (p, s) = (case found of Some ps \<Rightarrow> ps | None \<Rightarrow> hd d)
         in CollapsedLabel p s @ '':'' @ l))"
    using assms(1) by (auto simp: RdfNodeToDotLabelExtended_def split: prod.splits)
  note run = label_run [OF l]
  have ok: "tables_ok h" using run(2) assms(2) by (rule tables_ok_grows)
  have "end_of h e l"
  proof (cases "map_of (collapsedLabels h) l")
    case None
    with e run(1) show ?thesis by (auto simp: end_of_def)
  next
    case (Some d)
    then have d: "d \<noteq> []" "\<And>p s. map_of d p = Some s \<Longrightarrow> in_table h p s l" using ok by (auto simp: tables_ok_def)
    from d(1) have hd_d: "map_of d (fst (hd d)) = Some (snd (hd d))" by (cases d) auto
    have "\<exists>p s. e = CollapsedLabel p s @ '':'' @ l \<and> map_of d p = Some s"
      using e Some hd_d by (auto simp: Let_def bind_eq_Some_conv split: option.splits prod.splits)
    with d(2) Some run(1) show ?thesis by (auto simp: end_of_def)
  qed
  with run show "grows g h" "fieldsSet h = fieldsSet g" "dot_stream h = dot_stream g"
    "\<exists>l. lab h n = Some l \<and> end_of h e l" by auto
qed

text \<open>The end of an edge is never the key of a table: the second search of the table finds nothing.\<close>

lemma collapsed_label_no_node:
  assumes "labels_ok g" "tables_ok g" "map_of (collapsedLabels g) l = Some d"
  shows "\<exists>n. lab g n = Some l" "\<exists>i. l = nd_label i"
proof -
  from assms have "d \<noteq> []" "\<forall>p s. map_of d p = Some s \<longrightarrow> in_table g p s l" by (auto simp: tables_ok_def)
  moreover from this(1) have "map_of d (fst (hd d)) = Some (snd (hd d))" by (cases d) auto
  ultimately show n: "\<exists>n. lab g n = Some l" by (auto simp: in_table_def)
  then show "\<exists>i. l = nd_label i" using lab_form assms(1) by blast
qed

lemma end_no_key:
  assumes "labels_ok g" "tables_ok g" "end_of g e l"
  shows "SubjNamFromCollapsed p e g = None"
proof (cases "map_of (collapsedLabels g) e")
  case None
  then show ?thesis by (simp add: SubjNamFromCollapsed_def)
next
  case (Some d)
  with assms(3) have "map_of (collapsedLabels g) l \<noteq> None" by (auto simp: end_of_def split: if_splits)
  with assms(3) obtain q s where "e = CollapsedLabel q s @ '':'' @ l" by (auto simp: end_of_def)
  moreover obtain i where "e = nd_label i" using collapsed_label_no_node(2) [OF assms(1,2) Some] by blast
  ultimately show ?thesis by (simp add: CollapsedLabel_def nd_label_def)
qed

text \<open>An edge is the one of a triple, or the one from a subject to its table.\<close>

fun edge_ok :: "rtriple set \<Rightarrow> dot_graph \<Rightarrow> dot_item \<Rightarrow> bool" where
  "edge_ok T g (DotNode a rows s) = True"
| "edge_ok T g (DotEdge a b s) = (\<exists>subj l. lab g subj = Some l \<and> end_of g a l \<and>
     ((\<exists>pr obj m. (subj, pr, obj) \<in> T \<and> lab g obj = Some m \<and> end_of g b m) \<or>
      (\<exists>p rows t. b = CollapsedLabel p l \<and> DotNode b rows t \<in> set (dot_stream g))))"

lemma edge_ok_grows:
  assumes "grows g h" "T \<subseteq> U" "edge_ok T g i"
  shows "edge_ok U h i"
proof (cases i)
  case (DotEdge a b s)
  with assms(3) show ?thesis
    using grows_lab [OF assms(1)] end_of_grows [OF assms(1)] grows_same(4) [OF assms(1)] assms(2) by simp blast
qed simp

text \<open>The triples that are drawn as edges, and the edge of a triple.\<close>

definition is_edge :: "string list \<Rightarrow> rtriple \<Rightarrow> bool" where
  "is_edge props t \<longleftrightarrow> (case t of (subj, pr, obj) \<Rightarrow>
     pr \<notin> set props \<and> IsLink obj \<and> pr \<noteq> property_socket_end \<and> \<not> IsFlatProperty pr)"

definition edge_drawn :: "dot_graph \<Rightarrow> rnode \<Rightarrow> rnode \<Rightarrow> bool" where
  "edge_drawn g subj obj \<longleftrightarrow> (\<exists>l m a b s. lab g subj = Some l \<and> lab g obj = Some m \<and> end_of g a l \<and> end_of g b m \<and>
     DotEdge a b s \<in> set (dot_stream g))"

lemma edge_drawn_grows: "grows g h \<Longrightarrow> edge_drawn g s t \<Longrightarrow> edge_drawn h s t"
  unfolding edge_drawn_def using grows_lab [of g h] end_of_grows [of g h] grows_same(4) [of g h] by blast

definition drawn_of :: "string list \<Rightarrow> rtriple set \<Rightarrow> dot_graph \<Rightarrow> bool" where
  "drawn_of props T g \<longleftrightarrow> (\<forall>(subj, pr, obj) \<in> T.
     (pr \<notin> set props \<longrightarrow> \<not> IsLink obj \<longrightarrow> (pr, obj) \<in> set (dget (fieldsSet g) subj)) \<and>
     (is_edge props (subj, pr, obj) \<longrightarrow> edge_drawn g subj obj))"

definition more_fields :: "dot_graph \<Rightarrow> dot_graph \<Rightarrow> bool" where
  "more_fields g h \<longleftrightarrow> (\<forall>n. set (dget (fieldsSet g) n) \<subseteq> set (dget (fieldsSet h) n))"

lemma drawn_of_grows: "grows g h \<Longrightarrow> more_fields g h \<Longrightarrow> drawn_of props T g \<Longrightarrow> drawn_of props T h"
  unfolding drawn_of_def more_fields_def using edge_drawn_grows [of g h] by blast

lemma add_field_run: "grows g (add_field n kv g)" "more_fields g (add_field n kv g)"
    "kv \<in> set (dget (fieldsSet (add_field n kv g)) n)" "dot_stream (add_field n kv g) = dot_stream g"
  by (auto simp: add_field_def grows_def labels_ok_def more_fields_def dget_update)

definition second_ok :: "string list \<Rightarrow> rtriple set \<Rightarrow> dot_graph \<Rightarrow> bool" where
  "second_ok props T g \<longleftrightarrow> labels_ok g \<and> tables_ok g \<and> drawn_of props T g \<and> (\<forall>i \<in> set (dot_stream g). edge_ok T g i)"

lemma second_insert:
  assumes "second_ok props T g" "grows g h" "more_fields g h"
    "\<forall>i \<in> set (dot_stream h). i \<in> set (dot_stream g) \<or> edge_ok (insert t T) h i" "drawn_of props {t} h"
  shows "second_ok props (insert t T) h"
proof -
  have "drawn_of props T h" using assms(1-3) drawn_of_grows by (auto simp: second_ok_def)
  with assms(5) have "drawn_of props (insert t T) h" by (simp add: drawn_of_def)
  moreover have "\<forall>i \<in> set (dot_stream h). edge_ok (insert t T) h i"
    using assms(1,4) edge_ok_grows [OF assms(2) subset_insertI] unfolding second_ok_def by blast
  ultimately show ?thesis using assms(1,2) tables_ok_grows grows_same(3) by (auto simp: second_ok_def)
qed

lemma edge_step_ok:
  assumes "second_ok props T g"
  shows "second_ok props (insert t T) (edge_step c grph props t g) \<and> grows g (edge_step c grph props t g)"
proof -
  obtain subj pr obj where t: "t = (subj, pr, obj)" by (cases t)
  obtain a g1 where a: "RdfNodeToDotLabelExtended subj None g = (a, g1)" by fastforce
  obtain b g2 where b: "RdfNodeToDotLabelExtended obj (Some pr) g1 = (b, g2)" by fastforce
  have ok: "labels_ok g" "tables_ok g" using assms by (auto simp: second_ok_def)
  note ra = extended_run [OF a ok(2)]
  have ok1: "labels_ok g1" "tables_ok g1" using ok ra(1) tables_ok_grows grows_same(3) by blast+
  note rb = extended_run [OF b ok1(2)]
  have ok2: "labels_ok g2" "tables_ok g2" using ok1 rb(1) tables_ok_grows grows_same(3) by blast+
  have g2: "grows g g2" using ra(1) rb(1) by (rule grows_trans)
  obtain l where l: "lab g2 subj = Some l" "end_of g2 a l" using ra(4) rb(1) grows_lab end_of_grows by blast
  obtain m where m: "lab g2 obj = Some m" "end_of g2 b m" using rb(4) by blast
  have f2: "fieldsSet g2 = fieldsSet g" "dot_stream g2 = dot_stream g" using ra(2,3) rb(2,3) by simp_all
  have field: "second_ok props (insert t T) (add_field subj kv g1) \<and> grows g (add_field subj kv g1)"
    if "\<not> is_edge props t" "IsLink obj \<or> kv = (pr, obj)" for kv
  proof -
    have gr: "grows g (add_field subj kv g1)" using ra(1) add_field_run(1) by (rule grows_trans)
    moreover have "more_fields g (add_field subj kv g1)" using add_field_run(2) [where g = g1] ra(2) by (simp add: more_fields_def)
    moreover have "drawn_of props {t} (add_field subj kv g1)"
      using that add_field_run(3) [of kv subj g1] t by (auto simp: drawn_of_def)
    ultimately show ?thesis using assms ra(3) by (auto intro!: second_insert simp: add_field_run(4))
  qed
  have edge: "second_ok props (insert t T) (dot_write (DotEdge a b s) g2) \<and> grows g (dot_write (DotEdge a b s) g2)"
    if "IsLink obj" for s
  proof -
    let ?h = "dot_write (DotEdge a b s) g2"
    have gr: "grows g2 ?h" by (rule write_grows)
    have ends: "end_of ?h a l" "end_of ?h b m" using l(2) m(2) end_of_grows [OF gr] by blast+
    have "edge_drawn ?h subj obj" using l(1) m(1) ends unfolding edge_drawn_def by auto
    with that t have drawn: "drawn_of props {t} ?h" by (simp add: drawn_of_def)
    have "edge_ok (insert t T) ?h (DotEdge a b s)" using ends l(1) m(1) t by simp blast
    with f2(2) have stream: "\<forall>i \<in> set (dot_stream ?h). i \<in> set (dot_stream g) \<or> edge_ok (insert t T) ?h i"
      by (simp del: edge_ok.simps)
    have "more_fields g ?h" using f2(1) by (simp add: more_fields_def)
    from second_insert [OF assms grows_trans [OF g2 gr] this stream drawn] grows_trans [OF g2 gr]
    show ?thesis by blast
  qed
  have none: "second_ok props (insert t T) g2 \<and> grows g g2" if "\<not> is_edge props t" "IsLink obj"
    using that assms g2 t f2 by (auto intro!: second_insert simp: more_fields_def drawn_of_def)
  have skip: "second_ok props (insert t T) g" if "pr \<in> set props"
    using that assms t by (auto intro!: second_insert simp: more_fields_def drawn_of_def is_edge_def)
  have key: "SubjNamFromCollapsed p a g2 = None" for p using end_no_key ok2 l(2) by blast
  consider "pr \<in> set props" | "pr \<notin> set props" "\<not> IsLink obj"
    | "pr \<notin> set props" "IsLink obj" "pr = property_socket_end"
    | "pr \<notin> set props" "IsLink obj" "pr \<noteq> property_socket_end" "IsFlatProperty pr"
    | "pr \<notin> set props" "IsLink obj" "pr \<noteq> property_socket_end" "\<not> IsFlatProperty pr" by blast
  then show ?thesis
  proof cases
    case 1
    with skip show ?thesis by (simp add: t)
  next
    case 2
    with field [of "(pr, obj)"] show ?thesis by (simp add: t a Let_def is_edge_def)
  next
    case 3
    with edge none show ?thesis by (simp add: t a b [unfolded 3(3)] Let_def dot_edge_def is_edge_def)
  next
    case 4
    with field [of "(pr, obj)"] show ?thesis by (simp add: t a Let_def is_edge_def)
  next
    case 5
    with edge key show ?thesis by (simp add: t a b Let_def dot_edge_def)
  qed
qed

lemma second_pass: "second_ok props T g \<Longrightarrow>
    second_ok props (T \<union> set ts) (fold (edge_step c grph props) ts g) \<and> grows g (fold (edge_step c grph props) ts g)"
proof (induction ts arbitrary: T g)
  case (Cons t ts)
  from edge_step_ok [OF Cons.prems] have ok: "second_ok props (insert t T) (edge_step c grph props t g)"
    and gr: "grows g (edge_step c grph props t g)" by blast+
  from Cons.IH [OF ok] gr show ?case using grows_trans by auto
qed simp

subsection \<open>The tables\<close>

definition has_port :: "string \<Rightarrow> string \<Rightarrow> bool" where
  "has_port l row \<longleftrightarrow> (\<exists>a b. row = a @ ''port=\"'' @ l @ ''\"'' @ b)"

lemma has_port_in: "has_port l s \<Longrightarrow> has_port l (a @ s @ b)"
  unfolding has_port_def by (metis append.assoc)

lemma key_cell_port: "has_port l (key_cell td l i u t)"
  unfolding has_port_def key_cell_def by (intro exI) (rule refl)

text \<open>An object has a title when it has an information or a name.\<close>

definition titled :: "dot_conf \<Rightarrow> (string \<times> rnode) list \<Rightarrow> rnode \<Rightarrow> bool" where
  "titled c flds obj \<longleftrightarrow> (\<exists>v. (property_information, v) \<in> set flds \<and> node_text v \<noteq> []) \<or>
     (\<forall>s s' name cls i. ParseEntityUriShort (dc_pages c) (node_text obj) s = (Inr (name, cls, i), s') \<longrightarrow> name \<noteq> [])"

lemma row_cells_run:
  "row_cells c td fk flds columns title s = (Inr (columns', title'), s') \<Longrightarrow>
   length columns' = length columns \<and>
   title' = title @ concat (map (\<lambda>kv. node_text (snd kv)) (filter (\<lambda>kv. fst kv = property_information) flds))"
proof (induction flds arbitrary: columns title s)
  case (Cons kv flds)
  obtain key val where kv: "kv = (key, val)" by (cases kv)
  show ?case
  proof (cases "key = property_information")
    case True
    with Cons.prems kv have "row_cells c td fk flds columns (title @ node_text val) s = (Inr (columns', title'), s')" by simp
    from Cons.IH [OF this] kv True show ?thesis by simp
  next
    case False
    with Cons.prems kv obtain cell i p where
      "row_cells c td fk flds (columns[i + 1 := cell]) title p = (Inr (columns', title'), s')"
      by (auto simp: bnd_eq_Inr)
    from Cons.IH [OF this] kv False show ?thesis by simp
  qed
qed simp

lemma table_row_run:
  assumes "table_row c fk flds obj l s = (Inr (title, line, cls), s')"
  shows "has_port l line" "titled c flds obj \<Longrightarrow> title \<noteq> []"
proof -
  from assms obtain nam i p where
    nam: "ParseEntityUriShort (dc_pages c) (node_text obj) s = (Inr (nam, cls, i), p)" and
    r1: "bnd (row_color c (node_text obj) cls) (\<lambda>col. bnd (ColorLighter col) (\<lambda>light.
       bnd (row_cells c (td_color col) fk flds (replicate (length fk + 1) (td_color col @ '' ></td>'')) []) (\<lambda>(columns, t).
         ret (if t \<noteq> [] then t else nam, concat (columns[0 := key_cell (td_color light) l i (amp_escaped (node_text obj))
           (if t \<noteq> [] then t else nam)]), cls)))) p = (Inr (title, line, cls), s')"
    unfolding table_row_def Let_def bnd_eq_Inr
    by (elim exE conjE) (auto simp: bnd_eq_Inr)
  then obtain col q light r columns t u where
    cells: "row_cells c (td_color col) fk flds (replicate (length fk + 1) (td_color col @ '' ></td>'')) [] r = (Inr (columns, t), u)" and
    title: "title = (if t \<noteq> [] then t else nam)" and
    line: "line = concat (columns[0 := key_cell (td_color light) l i (amp_escaped (node_text obj)) title])"
    unfolding bnd_eq_Inr by (elim exE conjE) (auto simp del: replicate.simps)
  note run = row_cells_run [OF cells]
  then obtain x xs where "columns = x # xs" by (cases columns) auto
  with line have "line = [] @ key_cell (td_color light) l i (amp_escaped (node_text obj)) title @ concat xs" by simp
  then show "has_port l line" using has_port_in [OF key_cell_port] by metis
  assume "titled c flds obj"
  then consider v where "(property_information, v) \<in> set flds" "node_text v \<noteq> []" | "nam \<noteq> []"
    using nam unfolding titled_def by blast
  then have "t \<noteq> [] \<or> nam \<noteq> []" using run by cases (auto simp: filter_empty_conv)
  with title show "title \<noteq> []" by simp
qed

lemma free_title: "free_title taken t i \<notin> set taken \<and> free_title taken t i \<noteq> []"
proof (induction taken t i rule: free_title.induct)
  case (1 taken t i)
  then show ?case by (subst (1 2) free_title.simps) (auto simp: title_number_def)
qed

lemma title_uniq_ok: "title_uniq taken t \<notin> set taken" "t \<noteq> [] \<Longrightarrow> title_uniq taken t \<noteq> []"
  by (simp_all add: title_uniq_def free_title)

lemma update_fresh: "k \<notin> fst ` set d \<Longrightarrow> AList.update k v d = d @ [(k, v)]"
  by (induction d) auto

lemma table_rows_run:
  "table_rows c fk objs rows cls g s = (Inr (rows', cls', h), s') \<Longrightarrow>
   \<forall>obj \<in> set objs. titled c (dget (fieldsSet g) obj) obj \<Longrightarrow> [] \<notin> fst ` set rows \<Longrightarrow>
   grows g h \<and> fieldsSet h = fieldsSet g \<and> dot_stream h = dot_stream g \<and>
   set rows \<subseteq> set rows' \<and> [] \<notin> fst ` set rows' \<and>
   (\<forall>obj \<in> set objs. \<exists>l row. lab h obj = Some l \<and> row \<in> snd ` set rows' \<and> has_port l row)"
proof (induction objs arbitrary: rows cls g s)
  case (Cons obj objs)
  obtain l g1 where l: "RdfNodeToDotLabel obj g = (l, g1)" by fastforce
  note run = label_run [OF l]
  from Cons.prems(1) l obtain title line cl p where
    row: "table_row c fk (dget (fieldsSet g1) obj) obj l s = (Inr (title, line, cl), p)" and
    rest: "table_rows c fk objs (AList.update (title_uniq (map fst rows) title) line rows) cl g1 p = (Inr (rows', cls', h), s')"
    by (auto simp: bnd_eq_Inr)
  have "title \<noteq> []" using table_row_run(2) [OF row] run(3) Cons.prems(2) by simp
  then have new: "AList.update (title_uniq (map fst rows) title) line rows = rows @ [(title_uniq (map fst rows) title, line)]"
      "title_uniq (map fst rows) title \<noteq> []"
    using title_uniq_ok(1) [of "map fst rows" title] title_uniq_ok(2) [of title] by (simp_all add: update_fresh)
  have IH: "grows g1 h \<and> fieldsSet h = fieldsSet g1 \<and> dot_stream h = dot_stream g1 \<and>
      set (rows @ [(title_uniq (map fst rows) title, line)]) \<subseteq> set rows' \<and> [] \<notin> fst ` set rows' \<and>
      (\<forall>obj \<in> set objs. \<exists>l row. lab h obj = Some l \<and> row \<in> snd ` set rows' \<and> has_port l row)"
    using Cons.IH [OF rest] new run(3) Cons.prems(2,3) by simp
  then have "lab h obj = Some l" "line \<in> snd ` set rows'" using grows_lab run(1) by (auto intro: rev_image_eqI)
  with IH table_row_run(1) [OF row] run(2-4) show ?case by (auto dest: grows_trans)
qed simp

text \<open>The table of a subject is written, with a port for each of its objects.\<close>

definition table_written :: "dot_graph \<Rightarrow> string \<Rightarrow> rnode \<Rightarrow> bool" where
  "table_written g p subj \<longleftrightarrow> (\<exists>x rows s. lab g subj = Some x \<and> DotNode (CollapsedLabel p x) rows s \<in> set (dot_stream g) \<and>
     (\<forall>obj \<in> set (dget (dget (collapsedSubjects g) p) subj). \<exists>l. lab g obj = Some l \<and> (\<exists>row \<in> set rows. has_port l row)))"

lemma table_written_grows: "grows g h \<Longrightarrow> table_written g p subj \<Longrightarrow> table_written h p subj"
  unfolding table_written_def using grows_lab [of g h] grows_same(1,4) [of g h] by metis

text \<open>A subject that is an object of a table is one of the same property.\<close>

definition one_table :: "dot_graph \<Rightarrow> string \<Rightarrow> rnode \<Rightarrow> bool" where
  "one_table g p subj \<longleftrightarrow> (\<forall>x d. lab g subj = Some x \<longrightarrow> map_of (collapsedLabels g) x = Some d \<longrightarrow> map_of d p \<noteq> None)"

lemma write_table_run:
  assumes "write_table c p b u parsed k fk rows cls s = (Inr item, s')"
  shows "\<exists>head n. item = DotNode b (map snd (AList.update [] head rows)) n"
proof -
  obtain t cl i where "parsed = (t, cl, i)" by (cases parsed)
  with assms show ?thesis unfolding write_table_def Let_def by (auto simp: bnd_eq_Inr simp del: map_eq_conv)
qed

lemma collapsed_table_run:
  assumes "collapsed_table c p (subj, objs) g s = (Inr h, s')" "second_ok props T g"
    "lab g subj \<noteq> None" "one_table g p subj" "\<forall>obj \<in> set objs. titled c (dget (fieldsSet g) obj) obj"
    "objs = dget (dget (collapsedSubjects g) p) subj"
  shows "second_ok props T h \<and> grows g h \<and> fieldsSet h = fieldsSet g \<and> table_written h p subj"
proof -
  obtain x where x: "lab g subj = Some x" using assms(3) by blast
  then have l: "RdfNodeToDotLabel subj g = (x, g)" by (simp add: RdfNodeToDotLabel_def)
  have ok: "labels_ok g" "tables_ok g" using assms(2) by (auto simp: second_ok_def)
  define a where "a = (case SubjNamFromCollapsed p x g of Some s \<Rightarrow> s | None \<Rightarrow> x)"
  define b where "b = CollapsedLabel p x"
  define e where "e = dot_edge False a b ''GREEN'' p"
  define w where "w = dot_write e g"
  have a: "end_of g a x"
  proof (cases "map_of (collapsedLabels g) x")
    case None
    with x show ?thesis by (auto simp: a_def SubjNamFromCollapsed_def end_of_def)
  next
    case (Some d)
    with assms(4) x obtain t where t: "map_of d p = Some t" by (auto simp: one_table_def)
    with Some ok(2) have "in_table g p t x" by (auto simp: tables_ok_def)
    with t Some x show ?thesis by (auto simp: a_def SubjNamFromCollapsed_def end_of_def)
  qed
  have "bnd (ParseEntityUri (dc_pages c) (node_text subj) True []) (\<lambda>parsed.
      bnd (table_rows c (fields_keys w objs) objs [] [] w) (\<lambda>(lines, cls, g3).
      bnd (write_table c p b (node_text subj) parsed (length objs) (fields_keys w objs) lines cls)
        (\<lambda>item. ret (dot_write item g3)))) s = (Inr h, s')"
    using assms(1) by (simp add: collapsed_table_def l Let_def a_def b_def e_def w_def)
  then obtain parsed q rows cls h1 r item r2 where
    rows: "table_rows c (fields_keys w objs) objs [] [] w q = (Inr (rows, cls, h1), r)" and
    item: "write_table c p b (node_text subj) parsed (length objs) (fields_keys w objs) rows cls r = (Inr item, r2)" and
    h': "h = dot_write item h1"
    unfolding bnd_eq_Inr by (elim exE conjE) (auto simp: bnd_eq_Inr)
  obtain head n where "item = DotNode b (map snd (AList.update [] head rows)) n" using write_table_run [OF item] by blast
  with h' have h: "h = dot_write (DotNode b (map snd (AList.update [] head rows)) n) h1" by simp
  have run: "grows w h1 \<and> fieldsSet h1 = fieldsSet w \<and> dot_stream h1 = dot_stream w \<and> [] \<notin> fst ` set rows \<and>
      (\<forall>obj \<in> set objs. \<exists>l row. lab h1 obj = Some l \<and> row \<in> snd ` set rows \<and> has_port l row)"
    using table_rows_run [OF rows] assms(5) by (simp add: w_def)
  have gw: "grows g w" unfolding w_def by (rule write_grows)
  have gh: "grows g h" using grows_trans [OF gw conjunct1 [OF run]] write_grows unfolding h by (rule grows_trans)
  have stream: "dot_stream h = dot_stream g @ [e, DotNode b (map snd (AList.update [] head rows)) n]"
    using run by (simp add: h w_def)
  have "edge_ok T h e" using end_of_grows [OF gh a] grows_lab [OF gh x] stream by (auto simp: e_def dot_edge_def b_def)
  moreover have fs: "fieldsSet h = fieldsSet g" using run by (simp add: h w_def)
  ultimately have "second_ok props T h"
    using assms(2) gh stream tables_ok_grows [OF gh] grows_same(3) [OF gh] drawn_of_grows [OF gh] edge_ok_grows [OF gh order_refl]
    by (auto simp: second_ok_def more_fields_def)
  moreover have "table_written h p subj"
  proof -
    have "AList.update [] head rows = rows @ [([], head)]" using run by (intro update_fresh) simp
    then have "\<forall>obj \<in> set objs. \<exists>l. lab h obj = Some l \<and> (\<exists>row \<in> set (map snd (AList.update [] head rows)). has_port l row)"
      using run by (auto simp: h) metis
    moreover have "DotNode (CollapsedLabel p x) (map snd (AList.update [] head rows)) n \<in> set (dot_stream h)"
      using stream by (simp add: b_def)
    ultimately show ?thesis
      using grows_lab [OF gh x] assms(6) grows_same(1) [OF gh] unfolding table_written_def by metis
  qed
  ultimately show ?thesis using gh fs by blast
qed

text \<open>What the loop over the tables asks of the table of a property, and keeps.\<close>

definition ready :: "dot_conf \<Rightarrow> dot_graph \<Rightarrow> string \<Rightarrow> bool" where
  "ready c g p \<longleftrightarrow> (\<forall>(subj, objs) \<in> set (dget (collapsedSubjects g) p).
     lab g subj \<noteq> None \<and> one_table g p subj \<and> objs = dget (dget (collapsedSubjects g) p) subj \<and>
     (\<forall>obj \<in> set objs. titled c (dget (fieldsSet g) obj) obj))"

lemma ready_grows:
  assumes "grows g h" "fieldsSet h = fieldsSet g" "ready c g p"
  shows "ready c h p"
  using assms(3) unfolding ready_def one_table_def grows_same(1,2) [OF assms(1)] assms(2)
  using grows_lab [OF assms(1)] by fastforce

lemma collapsed_tables_run:
  "collapsed_tables c p sos g s = (Inr h, s') \<Longrightarrow> second_ok props T g \<Longrightarrow> ready c g p \<Longrightarrow>
   set sos \<subseteq> set (dget (collapsedSubjects g) p) \<Longrightarrow>
   second_ok props T h \<and> grows g h \<and> fieldsSet h = fieldsSet g \<and> (\<forall>so \<in> set sos. table_written h p (fst so))"
proof (induction sos arbitrary: g s)
  case (Cons so sos)
  obtain subj objs where so: "so = (subj, objs)" by (cases so)
  from Cons.prems(1) obtain g1 q where
    first: "collapsed_table c p (subj, objs) g s = (Inr g1, q)" and
    rest: "collapsed_tables c p sos g1 q = (Inr h, s')"
    by (auto simp: bnd_eq_Inr so)
  from Cons.prems(3,4) so have "lab g subj \<noteq> None" "one_table g p subj"
      "\<forall>obj \<in> set objs. titled c (dget (fieldsSet g) obj) obj" "objs = dget (dget (collapsedSubjects g) p) subj"
    by (auto simp: ready_def)
  from collapsed_table_run [OF first Cons.prems(2) this]
  have g1: "second_ok props T g1" "grows g g1" "fieldsSet g1 = fieldsSet g" "table_written g1 p subj" by auto
  have "second_ok props T h \<and> grows g1 h \<and> fieldsSet h = fieldsSet g1 \<and> (\<forall>so \<in> set sos. table_written h p (fst so))"
    using Cons.IH [OF rest g1(1) ready_grows [OF g1(2,3) Cons.prems(3)]] Cons.prems(4) grows_same(1) [OF g1(2)] by simp
  with g1 so show ?case using grows_trans table_written_grows by auto
qed simp

lemma process_properties_run:
  "process_properties c ps g s = (Inr h, s') \<Longrightarrow> second_ok props T g \<Longrightarrow> \<forall>p \<in> set ps. ready c g (PropToShortPropNam p) \<Longrightarrow>
   second_ok props T h \<and> grows g h \<and> fieldsSet h = fieldsSet g \<and>
   (\<forall>p \<in> set ps. \<forall>so \<in> set (dget (collapsedSubjects g) (PropToShortPropNam p)). table_written h (PropToShortPropNam p) (fst so))"
proof (induction ps arbitrary: g s)
  case (Cons p ps)
  from Cons.prems(1) obtain g1 q where
    first: "collapsed_tables c (PropToShortPropNam p) (dget (collapsedSubjects g) (PropToShortPropNam p)) g s = (Inr g1, q)" and
    rest: "process_properties c ps g1 q = (Inr h, s')"
    by (auto simp: bnd_eq_Inr ProcessCollapsedProperties_def)
  have g1: "second_ok props T g1" "grows g g1" "fieldsSet g1 = fieldsSet g"
      "\<forall>so \<in> set (dget (collapsedSubjects g) (PropToShortPropNam p)). table_written g1 (PropToShortPropNam p) (fst so)"
    using collapsed_tables_run [OF first Cons.prems(2)] Cons.prems(3) by auto
  have "\<forall>p \<in> set ps. ready c g1 (PropToShortPropNam p)" using ready_grows [OF g1(2,3)] Cons.prems(3) by simp
  from Cons.IH [OF rest g1(1) this] g1 grows_same(1) [OF g1(2)] show ?case
    using grows_trans table_written_grows by auto
qed simp

subsection \<open>The whole drawing\<close>

text \<open>No node is an object of a table of one property and a subject of a table of another one.\<close>

definition single_tables :: "string list \<Rightarrow> rtriple set \<Rightarrow> bool" where
  "single_tables props T \<longleftrightarrow> (\<forall>(s, p, obj) \<in> T. \<forall>(s', p', obj') \<in> T.
     p \<in> set props \<longrightarrow> p' \<in> set props \<longrightarrow> obj = s' \<longrightarrow> PropToShortPropNam p = PropToShortPropNam p')"

definition has_title :: "dot_conf \<Rightarrow> string list \<Rightarrow> rtriple set \<Rightarrow> rnode \<Rightarrow> bool" where
  "has_title c props T obj \<longleftrightarrow>
     (property_information \<notin> set props \<and> (\<exists>v. (obj, property_information, RLit v) \<in> T \<and> rlit_text v \<noteq> [])) \<or>
     (\<forall>s s' name cls i. ParseEntityUriShort (dc_pages c) (node_text obj) s = (Inr (name, cls, i), s') \<longrightarrow> name \<noteq> [])"

lemma table_members:
  assumes "tables_of props T g" "(subj, objs) \<in> set (dget (collapsedSubjects g) p)"
  shows "objs = dget (dget (collapsedSubjects g) p) subj" "objs \<noteq> []"
proof -
  from assms(1) have "distinct (map fst (dget (collapsedSubjects g) p))" "[] \<notin> snd ` set (dget (collapsedSubjects g) p)"
    by (auto simp: tables_of_def)
  with assms(2) show "objs = dget (dget (collapsedSubjects g) p) subj" "objs \<noteq> []"
    by (force simp: dget_def)+
qed

lemma table_triple:
  "tables_of props T g \<Longrightarrow> obj \<in> set (dget (dget (collapsedSubjects g) p) subj) \<longleftrightarrow>
     (\<exists>q \<in> set props. PropToShortPropNam q = p \<and> (subj, q, obj) \<in> T)"
  by (simp add: tables_of_def)

lemma one_table_of:
  assumes "first_ok props T g" "single_tables props T" "obj \<in> set (dget (dget (collapsedSubjects g) p) subj)"
  shows "one_table g p subj"
  unfolding one_table_def
proof (intro allI impI)
  fix x d
  assume x: "lab g subj = Some x" and d: "map_of (collapsedLabels g) x = Some d"
  have ok: "labels_ok g" "tables_ok g" "tables_of props T g" using assms(1) by (auto simp: first_ok_def)
  from ok(2) d have d': "d \<noteq> []" "\<And>q s. map_of d q = Some s \<Longrightarrow> in_table g q s x" by (auto simp: tables_ok_def)
  define q where "q = fst (hd d)"
  from d'(1) have q: "map_of d q = Some (snd (hd d))" by (cases d) (auto simp: q_def)
  from d'(2) [OF q] obtain s o' where so: "lab g o' = Some x" "o' \<in> set (dget (dget (collapsedSubjects g) q) s)"
    by (auto simp: in_table_def)
  with lab_inj [OF ok(1) x] have "subj \<in> set (dget (dget (collapsedSubjects g) q) s)" by simp
  with assms(3) obtain u v where uv: "u \<in> set props" "PropToShortPropNam u = q" "(s, u, subj) \<in> T"
      "v \<in> set props" "PropToShortPropNam v = p" "(subj, v, obj) \<in> T"
    unfolding table_triple [OF ok(3)] by blast
  with assms(2) have "q = p" unfolding single_tables_def by fast
  with q show "map_of d p \<noteq> None" by simp
qed

lemma all_ready:
  assumes "first_ok props T g" "single_tables props T"
    "\<forall>(subj, pr, obj) \<in> T. pr \<in> set props \<longrightarrow> titled c (dget (fieldsSet g) obj) obj"
  shows "ready c g p"
  unfolding ready_def
proof (intro ballI, unfold split_paired_all prod.case, intro conjI)
  fix subj objs
  assume so: "(subj, objs) \<in> set (dget (collapsedSubjects g) p)"
  have ok: "tables_of props T g" using assms(1) by (auto simp: first_ok_def)
  note m = table_members [OF ok so]
  have triple: "\<exists>q \<in> set props. PropToShortPropNam q = p \<and> (subj, q, obj) \<in> T" if "obj \<in> set objs" for obj
    using that table_triple [OF ok] m(1) by blast
  from m(2) obtain obj where "obj \<in> set objs" by (cases objs) auto
  with m(1) have obj: "obj \<in> set (dget (dget (collapsedSubjects g) p) subj)" by simp
  then show "one_table g p subj" by (rule one_table_of [OF assms(1,2)])
  show "lab g subj \<noteq> None" using triple [OF \<open>obj \<in> set objs\<close>] ok unfolding tables_of_def by fast
  show "objs = dget (dget (collapsedSubjects g) p) subj" by (rule m(1))
  show "\<forall>obj \<in> set objs. titled c (dget (fieldsSet g) obj) obj" using triple assms(3) by fast
qed

lemma nodes_drawn:
  "for_each ns (dot_node c g) s = (Inr items, s') \<Longrightarrow> (n, l) \<in> set ns \<Longrightarrow> map_of (collapsedLabels g) l = None \<Longrightarrow>
   \<exists>rows t. DotNode l rows t \<in> set (concat items)"
proof (induction ns arbitrary: items s)
  case (Cons m ns)
  obtain k j where m: "m = (k, j)" by (cases m)
  from Cons.prems(1) obtain i its q where
    first: "dot_node c g (k, j) s = (Inr i, q)" and rest: "for_each ns (dot_node c g) q = (Inr its, s')" and items: "items = i # its"
    by (auto simp: bnd_eq_Inr m)
  show ?case
  proof (cases "(n, l) = (k, j)")
    case True
    with first Cons.prems(3) obtain rows t where "i = [DotNode l rows t]"
      by (auto simp: dot_node_def bnd_eq_Inr Let_def split: prod.splits)
    with items show ?thesis by auto
  next
    case False
    with Cons.IH [OF rest] Cons.prems(2,3) m items show ?thesis by auto
  qed
qed simp

lemma nodes_only: "for_each ns (dot_node c g) s = (Inr items, s') \<Longrightarrow> DotEdge a b t \<notin> set (concat items)"
proof (induction ns arbitrary: items s)
  case (Cons m ns)
  from Cons.prems obtain i its q where
    first: "dot_node c g m s = (Inr i, q)" and rest: "for_each ns (dot_node c g) q = (Inr its, s')" and items: "items = i # its"
    by (auto simp: bnd_eq_Inr)
  from first have "DotEdge a b t \<notin> set i"
    by (auto simp: dot_node_def bnd_eq_Inr Let_def split: prod.splits if_splits)
  with Cons.IH [OF rest] items show ?case by simp
qed auto

text \<open>An end that is drawn, and the ends that stand for a name.\<close>

definition end_drawn :: "dot_item list \<Rightarrow> string \<Rightarrow> bool" where
  "end_drawn items e \<longleftrightarrow> (\<exists>rows t. DotNode e rows t \<in> set items) \<or>
     (\<exists>tab l rows t row. e = tab @ '':'' @ l \<and> DotNode tab rows t \<in> set items \<and> row \<in> set rows \<and> has_port l row)"

definition stands_for :: "string \<Rightarrow> string \<Rightarrow> bool" where
  "stands_for e l \<longleftrightarrow> e = l \<or> (\<exists>tab. e = tab @ '':'' @ l)"

lemma end_of_stands: "end_of g e l \<Longrightarrow> stands_for e l"
  by (auto simp: end_of_def stands_for_def split: if_splits)

lemma collapse_stream: "dot_stream (fold (collapse_step props) ts g) = dot_stream g"
proof (induction ts arbitrary: g)
  case (Cons t ts)
  obtain subj pr obj where t: "t = (subj, pr, obj)" by (cases t)
  have "dot_stream (collapse_step props t g) = dot_stream g"
    by (auto simp: t Let_def RdfNodeToDotLabel_def split: option.splits)
  with Cons.IH show ?case by simp
qed simp

lemma titles_of:
  assumes "drawn_of props T g" "has_title c props T obj"
  shows "titled c (dget (fieldsSet g) obj) obj"
proof -
  from assms(2) consider v where "property_information \<notin> set props" "(obj, property_information, RLit v) \<in> T" "rlit_text v \<noteq> []"
    | "\<forall>s s' name cls i. ParseEntityUriShort (dc_pages c) (node_text obj) s = (Inr (name, cls, i), s') \<longrightarrow> name \<noteq> []"
    unfolding has_title_def by blast
  then show ?thesis
  proof cases
    case 1
    with assms(1) have "(property_information, RLit v) \<in> set (dget (fieldsSet g) obj)" unfolding drawn_of_def by fastforce
    with 1(3) show ?thesis unfolding titled_def by (metis node_text.simps(2))
  next
    case 2
    then show ?thesis unfolding titled_def by blast
  qed
qed

text \<open>The graph at the end: all the tables of the triples are written.\<close>

definition written_ok :: "string list \<Rightarrow> rtriple set \<Rightarrow> dot_graph \<Rightarrow> bool" where
  "written_ok props T g \<longleftrightarrow> first_ok props T g \<and>
     (\<forall>p \<in> set props. \<forall>so \<in> set (dget (collapsedSubjects g) (PropToShortPropNam p)).
        table_written g (PropToShortPropNam p) (fst so))"

lemma row_drawn:
  assumes "written_ok props T g" "(subj, pr, obj) \<in> T" "pr \<in> set props"
  shows "\<exists>x y rows t row. lab g subj = Some x \<and> lab g obj = Some y \<and>
    DotNode (CollapsedLabel (PropToShortPropNam pr) x) rows t \<in> set (dot_stream g) \<and> row \<in> set rows \<and> has_port y row"
proof -
  have ok: "tables_of props T g" using assms(1) by (auto simp: written_ok_def first_ok_def)
  have obj: "obj \<in> set (dget (dget (collapsedSubjects g) (PropToShortPropNam pr)) subj)"
    using assms(2,3) table_triple [OF ok] by blast
  define D where "D = dget (collapsedSubjects g) (PropToShortPropNam pr)"
  from obj obtain objs where "map_of D subj = Some objs"
    unfolding D_def [symmetric] by (cases "map_of D subj") (auto simp: dget_def)
  then have "(subj, objs) \<in> set (dget (collapsedSubjects g) (PropToShortPropNam pr))" unfolding D_def by (rule map_of_SomeD)
  with assms(1,3) have "table_written g (PropToShortPropNam pr) subj" by (fastforce simp: written_ok_def)
  with obj show ?thesis unfolding table_written_def by metis
qed

lemma ends_drawn:
  assumes "written_ok props T g" "for_each (dictRdf2Dot g) (dot_node c g) s = (Inr nodes, s')" "end_of g e l"
  shows "end_drawn (dot_stream g @ concat nodes) e"
proof (cases "map_of (collapsedLabels g) l")
  case None
  with assms(3) obtain n where "e = l" "(n, l) \<in> set (dictRdf2Dot g)" by (auto simp: end_of_def dest: map_of_SomeD)
  with nodes_drawn [OF assms(2) _ None] show ?thesis unfolding end_drawn_def by fastforce
next
  case (Some d)
  with assms(3) obtain p x where e: "e = CollapsedLabel p x @ '':'' @ l" "in_table g p x l" by (auto simp: end_of_def)
  then obtain subj obj where so: "lab g subj = Some x" "lab g obj = Some l"
      "obj \<in> set (dget (dget (collapsedSubjects g) p) subj)" unfolding in_table_def by blast
  have ok: "tables_of props T g" using assms(1) by (auto simp: written_ok_def first_ok_def)
  from so(3) obtain pr where "pr \<in> set props" "PropToShortPropNam pr = p" "(subj, pr, obj) \<in> T"
    unfolding table_triple [OF ok] by blast
  with row_drawn [OF assms(1)] so(1,2) obtain rows t row where
    "DotNode (CollapsedLabel p x) rows t \<in> set (dot_stream g)" "row \<in> set rows" "has_port l row" by fastforce
  with e(1) show ?thesis unfolding end_drawn_def set_append by blast
qed

lemma tables_drawn: "DotNode b rows t \<in> set (dot_stream g) \<Longrightarrow> end_drawn (dot_stream g @ ns) b"
  by (auto simp: end_drawn_def)

text \<open>
  C9. The text of a page for Graphviz is a drawing of its graph. Let the nodes that are objects in a table of one
  property be no subjects in a table of another one, and every object of a table have a title. Then the nodes
  have different names; both ends of each edge are drawn, as a node or as the port of a line of a table; each
  edge stands for a triple of the graph or leads from a subject to its table; each triple that is neither
  collapsed nor shown in its subject has its edge; and each collapsed triple has a line in the table of its
  subject.
\<close>

theorem graph_drawn:
  assumes "Rdf2Dot c grph props s = (Inr items, s')" "set (sorted_graph c grph) = set grph"
    "single_tables props (set grph)"
    "\<forall>(subj, pr, obj) \<in> set grph. pr \<in> set props \<longrightarrow> has_title c props (set grph) obj"
  shows "\<exists>name. inj_on name (dom name) \<and>
    (\<forall>a b t. DotEdge a b t \<in> set items \<longrightarrow> end_drawn items a \<and> end_drawn items b \<and>
      (\<exists>subj x. name subj = Some x \<and> stands_for a x \<and>
        ((\<exists>pr obj y. (subj, pr, obj) \<in> set grph \<and> name obj = Some y \<and> stands_for b y) \<or>
         (\<exists>p. b = CollapsedLabel p x)))) \<and>
    (\<forall>(subj, pr, obj) \<in> set grph. is_edge props (subj, pr, obj) \<longrightarrow>
      (\<exists>x y a b t. name subj = Some x \<and> name obj = Some y \<and> stands_for a x \<and> stands_for b y \<and> DotEdge a b t \<in> set items)) \<and>
    (\<forall>(subj, pr, obj) \<in> set grph. pr \<in> set props \<longrightarrow>
      (\<exists>x y rows t row. name subj = Some x \<and> name obj = Some y \<and>
        DotNode (CollapsedLabel (PropToShortPropNam pr) x) rows t \<in> set items \<and> row \<in> set rows \<and> has_port y row))"
proof -
  let ?T = "set grph"
  define g1 where "g1 = fold (collapse_step props) (sorted_graph c grph) (dot_start props)"
  define g2 where "g2 = fold (edge_step c ?T props) (sorted_graph c grph) g1"
  from assms(1) obtain g3 q nodes where g3: "process_properties c props g2 s = (Inr g3, q)" and
    nodes: "for_each (dictRdf2Dot g3) (dot_node c g3) q = (Inr nodes, s')" and items: "items = dot_stream g3 @ concat nodes"
    unfolding Rdf2Dot_def Let_def g1_def [symmetric] g2_def [symmetric] by (auto simp: bnd_eq_Inr)
  have f1: "first_ok props ?T g1" using first_pass_ok [of props "sorted_graph c grph"] assms(2) by (simp add: g1_def)
  have "dot_stream g1 = []" by (simp add: g1_def collapse_stream dot_start_def)
  then have "second_ok props {} g1" using f1 by (simp add: second_ok_def first_ok_def drawn_of_def)
  from second_pass [OF this, of "sorted_graph c grph" c ?T] assms(2)
  have s2: "second_ok props ?T g2" "grows g1 g2" by (simp_all add: g2_def)
  have f2: "first_ok props ?T g2" using first_grows [OF s2(2) f1] .
  have titles: "\<forall>(subj, pr, obj) \<in> ?T. pr \<in> set props \<longrightarrow> titled c (dget (fieldsSet g2) obj) obj"
    using titles_of [of props ?T g2 c] s2(1) assms(4) unfolding second_ok_def by blast
  note ready = all_ready [OF f2 assms(3) titles]
  from process_properties_run [OF g3 s2(1)] ready
  have s3: "second_ok props ?T g3" "grows g2 g3" and
    tables: "\<forall>p \<in> set props. \<forall>so \<in> set (dget (collapsedSubjects g2) (PropToShortPropNam p)).
      table_written g3 (PropToShortPropNam p) (fst so)" by blast+
  have "written_ok props ?T g3"
    using first_grows [OF s3(2) f2] tables unfolding written_ok_def grows_same(1) [OF s3(2)] by blast
  note row = row_drawn [OF this] and ends = ends_drawn [OF this nodes, folded items]
  have "inj_on (lab g3) (dom (lab g3))"
    using s3(1) lab_inj [of g3] by (fastforce simp: second_ok_def intro!: inj_onI)
  moreover have "end_drawn items a \<and> end_drawn items b \<and> (\<exists>subj x. lab g3 subj = Some x \<and> stands_for a x \<and>
      ((\<exists>pr obj y. (subj, pr, obj) \<in> ?T \<and> lab g3 obj = Some y \<and> stands_for b y) \<or> (\<exists>p. b = CollapsedLabel p x)))"
    if "DotEdge a b t \<in> set items" for a b t
  proof -
    from that nodes_only [OF nodes] items have "DotEdge a b t \<in> set (dot_stream g3)" by auto
    with s3(1) have "edge_ok ?T g3 (DotEdge a b t)" unfolding second_ok_def by blast
    then obtain subj l where a: "lab g3 subj = Some l" "end_of g3 a l" and
      b: "(\<exists>pr obj m. (subj, pr, obj) \<in> ?T \<and> lab g3 obj = Some m \<and> end_of g3 b m) \<or>
        (\<exists>p rows t. b = CollapsedLabel p l \<and> DotNode b rows t \<in> set (dot_stream g3))"
      unfolding edge_ok.simps by blast
    from b have "end_drawn items b" using ends tables_drawn items by blast
    with ends [OF a(2)] a(1) end_of_stands [OF a(2)] b end_of_stands [of g3 b] show ?thesis by blast
  qed
  moreover have "\<exists>x y a b t. lab g3 subj = Some x \<and> lab g3 obj = Some y \<and> stands_for a x \<and> stands_for b y \<and>
      DotEdge a b t \<in> set items" if "(subj, pr, obj) \<in> ?T" "is_edge props (subj, pr, obj)" for subj pr obj
  proof -
    from that s3(1) have "edge_drawn g3 subj obj" unfolding second_ok_def drawn_of_def by blast
    then show ?thesis unfolding edge_drawn_def items set_append using end_of_stands by blast
  qed
  moreover have "\<exists>x y rows t row. lab g3 subj = Some x \<and> lab g3 obj = Some y \<and>
      DotNode (CollapsedLabel (PropToShortPropNam pr) x) rows t \<in> set items \<and> row \<in> set rows \<and> has_port y row"
    if "(subj, pr, obj) \<in> ?T" "pr \<in> set props" for subj pr obj
    using row [OF that] items by auto
  ultimately show ?thesis by (intro exI [of _ "lab g3"]) blast
qed

definition sample_dot :: dot_conf where
  "sample_dot = \<lparr>dc_pages = sample_page, sorted_graph = (\<lambda>g. g), sorted_fields = (\<lambda>l. l), compute_qname = (\<lambda>_. None),
     json_loads = (\<lambda>_. None), other_value = (\<lambda>_ s. POther s), dc_limit = 9\<rparr>"

lemma graph_drawn_witness:
  "\<exists>items s' x y rows t row.
    Rdf2Dot sample_dot
      [(RUrl ''http://h/a'', property_script, RUrl ''http://h/b''),
       (RUrl ''http://h/b'', property_information, RLit (LVal (GText ''List''))),
       (RUrl ''http://h/a'', page_prop ''ppid'', RUrl ''http://h/c'')] [property_script] (page_start sample_agent) =
      (Inr items, s') \<and>
    DotNode (CollapsedLabel (PropToShortPropNam property_script) x) rows t \<in> set items \<and> row \<in> set rows \<and> has_port y row"
proof -
  let ?g = "[(RUrl ''http://h/a'', property_script, RUrl ''http://h/b''),
       (RUrl ''http://h/b'', property_information, RLit (LVal (GText ''List''))),
       (RUrl ''http://h/a'', page_prop ''ppid'', RUrl ''http://h/c'')]"
  have "\<not> isl (fst (Rdf2Dot sample_dot ?g [property_script] (page_start sample_agent)))" by code_simp
  then obtain items s' where run: "Rdf2Dot sample_dot ?g [property_script] (page_start sample_agent) = (Inr items, s')"
    by (metis isl_def obj_sumE prod.collapse)
  have props: "property_information \<noteq> property_script" "page_prop ''ppid'' \<noteq> property_script" by code_simp+
  have sorted: "set (sorted_graph sample_dot ?g) = set ?g" by (simp add: sample_dot_def)
  have single: "single_tables [property_script] (set ?g)" by (simp add: single_tables_def)
  have titles: "\<forall>(subj, pr, obj) \<in> set ?g. pr \<in> set [property_script] \<longrightarrow> has_title sample_dot [property_script] (set ?g) obj"
    using props by (auto simp: has_title_def)
  from graph_drawn [OF run sorted single titles] run show ?thesis by auto
qed

text \<open>
  A node that is an object in a table of one property and a subject in a table of another one is no node, but the
  edge to its table starts at its label: Graphviz then draws an empty node.
\<close>

lemma dangling_edge:
  "\<exists>items s' b t.
    Rdf2Dot sample_dot
      [(RUrl ''http://h/a'', page_prop ''session'', RUrl ''http://h/b''),
       (RUrl ''http://h/b'', page_prop ''process'', RUrl ''http://h/c'')]
      [page_prop ''session'', page_prop ''process''] (page_start sample_agent) = (Inr items, s') \<and>
    DotEdge ''nd_1'' b t \<in> set items \<and> \<not> end_drawn items ''nd_1''"
proof -
  let ?run = "Rdf2Dot sample_dot
      [(RUrl ''http://h/a'', page_prop ''session'', RUrl ''http://h/b''),
       (RUrl ''http://h/b'', page_prop ''process'', RUrl ''http://h/c'')]
      [page_prop ''session'', page_prop ''process''] (page_start sample_agent)"
  have run: "case fst ?run of Inl _ \<Rightarrow> False
    | Inr items \<Rightarrow> list_ex (\<lambda>i. case i of DotEdge a b t \<Rightarrow> a = ''nd_1'' | DotNode a rows t \<Rightarrow> False) items \<and>
        list_all (\<lambda>i. case i of DotEdge a b t \<Rightarrow> True | DotNode a rows t \<Rightarrow> a \<noteq> ''nd_1'') items"
    by code_simp
  obtain r s' where rs: "?run = (r, s')" by fastforce
  with run obtain items where items: "r = Inr items" by (cases r) auto
  with run rs obtain i where i: "i \<in> set items" "case i of DotEdge a b t \<Rightarrow> a = ''nd_1'' | DotNode a rows t \<Rightarrow> False"
    by (auto simp: list_ex_iff)
  then obtain b t where edge: "DotEdge ''nd_1'' b t \<in> set items" by - (cases i, auto)
  have "DotNode ''nd_1'' rows t' \<notin> set items" for rows t'
    using run rs items by (auto simp: list_all_iff)
  moreover have "''nd_1'' \<noteq> tab @ '':'' @ l" for tab l
  proof
    assume "''nd_1'' = tab @ '':'' @ l"
    then have "CHR '':'' \<in> set ''nd_1''" by simp
    then show False by simp
  qed
  ultimately have "\<not> end_drawn items ''nd_1''" unfolding end_drawn_def by blast
  with rs items edge show ?thesis by blast
qed

end
